(* ===== verification/Prelude.thy ===== *)
theory Prelude
  imports Main "HOL-Library.Word" "HOL-Library.While_Combinator"
begin

text \<open>
  Shared vocabulary of the development.

  Go strings and byte slices are both byte sequences, and \<open>[]byte(s)\<close> and \<open>string(b)\<close> convert
  between them without changing a byte, so both are the type \<^typ>\<open>string\<close> (lists of 8-bit
  \<^typ>\<open>char\<close>s). The theory holds the generic lemmas on lists and numbers that several components
  use, and the collections of simplification rules the components fill.
\<close>

type_synonym bytes = string

named_theorems wf_intros \<open>preservation rules of the components' invariants\<close>

section \<open>Lists\<close>

lemma append_eq_split:
  assumes "length a = length c" and "a @ b = c @ d"
  shows "a = c \<and> b = d"
  using assms by simp

lemma append_eq_split_suffix:
  assumes "length b = length d" and "a @ b = c @ d"
  shows "a = c \<and> b = d"
  using assms by simp

lemma take_Suc_snoc: "n < length xs \<Longrightarrow> take (Suc n) xs = take n xs @ [xs ! n]"
  by (rule take_Suc_conv_app_nth)

lemma list_eq_snoc:
  assumes "length xs = Suc n"
  shows "xs = take n xs @ [xs ! n]"
  using assms take_Suc_snoc [of n xs] by simp

section \<open>A concrete hash for examples\<close>

text \<open>
  Definitions that use a cryptographic hash take it as an argument. The examples that show that a
  theorem's hypotheses can hold use this one: the first 32 bytes, padded with zeros.
\<close>

definition pad32 :: "bytes \<Rightarrow> bytes" where
  "pad32 x = take 32 (x @ replicate 32 (CHR 0x00))"

lemma length_pad32 [simp]: "length (pad32 x) = 32"
  by (simp add: pad32_def)

lemma pad32_Cons: "pad32 (c # x) = c # take 31 (x @ replicate 32 (CHR 0x00))"
  by (simp add: pad32_def take_Cons')

end
