(* ===== verification/MerkleTree.thy ===== *)
theory MerkleTree
  imports Prelude
begin

text \<open>
  The RFC 6962 tree behind \<open>internal/audit/merkle.go\<close>: the two domain-separated hashes and the
  split point of the code, and the specification the code is measured against, namely the recursive
  tree (\<open>mtree\<close>), the audit path of a leaf (\<open>apath\<close>), the consistency path of a prefix
  (\<open>cpath\<close>) and the directions of a path (\<open>pdirs\<close>, \<open>descend\<close>).

  The code's verifiers walk a tree from the leaves upwards while its provers split it from the root
  downwards. The bridge is \<open>pairUp\<close>, one level of the tree with adjacent nodes joined and an odd last
  node promoted: the lemmas \<open>mtree_pairUp\<close>, \<open>apath_pairUp\<close>, \<open>cpath_even\<close>, \<open>cpath_odd\<close> and
  \<open>pdirs_pairUp\<close> turn the top-down definitions into bottom-up ones. The hash function is the
  argument \<open>H\<close> of every definition that uses it.
\<close>

section \<open>The hashes and the split point of the code\<close>

definition leafHash :: "(bytes \<Rightarrow> bytes) \<Rightarrow> bytes \<Rightarrow> bytes" where
  "leafHash H d = H (CHR 0x00 # d)"

definition nodeHash :: "(bytes \<Rightarrow> bytes) \<Rightarrow> bytes \<Rightarrow> bytes \<Rightarrow> bytes" where
  "nodeHash H l r = H (CHR 0x01 # l @ r)"

definition largestPow2Below :: "nat \<Rightarrow> nat" where
  "largestPow2Below n = while (\<lambda>k. 2 * k < n) (\<lambda>k. 2 * k) 1"

lemma largestPow2Below_inv:
  assumes "2 \<le> n"
  shows "(\<exists>e. largestPow2Below n = 2 ^ e) \<and> largestPow2Below n < n \<and> n \<le> 2 * largestPow2Below n"
  unfolding largestPow2Below_def
proof (rule while_rule [where P = "\<lambda>k. (\<exists>e. k = 2 ^ e) \<and> k < n" and r = "measure (\<lambda>k. n - k)"])
  show "(\<exists>e. 1 = (2::nat) ^ e) \<and> 1 < n"
    using assms by (metis One_nat_def Suc_1 Suc_le_lessD power_0)
next
  fix k
  assume "(\<exists>e. k = 2 ^ e) \<and> k < n" and "2 * k < n"
  then show "(\<exists>e. 2 * k = 2 ^ e) \<and> 2 * k < n"
    by (metis power_Suc)
next
  fix k
  assume "(\<exists>e. k = 2 ^ e) \<and> k < n" and "2 * k < n"
  then have "0 < k" by auto
  with \<open>2 * k < n\<close> show "(2 * k, k) \<in> measure (\<lambda>k. n - k)" by simp
qed auto

lemma pow2_unique:
  assumes "(a::nat) = 2 ^ e" and "b = 2 ^ f" and "a < n" "n \<le> 2 * a" "b < n" "n \<le> 2 * b"
  shows "a = b"
proof -
  have "\<not> e < f"
  proof
    assume "e < f"
    then have "(2::nat) ^ Suc e \<le> 2 ^ f" by (intro power_increasing) auto
    with assms show False by simp
  qed
  moreover have "\<not> f < e"
  proof
    assume "f < e"
    then have "(2::nat) ^ Suc f \<le> 2 ^ e" by (intro power_increasing) auto
    with assms show False by simp
  qed
  ultimately show ?thesis using assms by (simp add: nat_neq_iff)
qed

lemma largestPow2Below_bounds:
  assumes "2 \<le> n"
  shows "0 < largestPow2Below n" "largestPow2Below n < n" "n \<le> 2 * largestPow2Below n"
  using largestPow2Below_inv [OF assms] by (auto simp: linorder_not_less intro: Nat.gr0I)

lemma largestPow2Below_less:
  assumes "\<not> n \<le> Suc 0"
  shows "0 < largestPow2Below n" "largestPow2Below n < n" "n - largestPow2Below n < n"
    "min n (largestPow2Below n) < n"
  using largestPow2Below_bounds [of n] assms by auto

lemma largestPow2Below_half:
  assumes "3 \<le> n"
  shows "largestPow2Below n = 2 * largestPow2Below ((n + 1) div 2)"
proof -
  obtain e where e: "largestPow2Below n = 2 ^ e" "2 ^ e < n" "n \<le> 2 * 2 ^ e"
    using largestPow2Below_inv [of n] assms by auto
  obtain f where f: "largestPow2Below ((n + 1) div 2) = 2 ^ f"
      "2 ^ f < (n + 1) div 2" "(n + 1) div 2 \<le> 2 * 2 ^ f"
  proof -
    have "2 \<le> (n + 1) div 2" using assms by simp
    from largestPow2Below_inv [OF this] that show ?thesis by auto
  qed
  have "(2::nat) ^ e = 2 ^ Suc f"
    by (rule pow2_unique [OF refl refl, of _ n]) (use e f in auto)
  then show ?thesis using e f by simp
qed

lemma largestPow2Below_2 [simp]: "largestPow2Below 2 = 1"
  by (simp add: largestPow2Below_def while_unfold)


text \<open>Bottom-up view: one level of the tree, adjacent nodes joined, a last odd node promoted.\<close>

fun pairUp :: "('a \<Rightarrow> 'a \<Rightarrow> 'a) \<Rightarrow> 'a list \<Rightarrow> 'a list" where
  "pairUp N (a # b # xs) = N a b # pairUp N xs"
| "pairUp N xs = xs"

function mtree :: "('a \<Rightarrow> 'a \<Rightarrow> 'a) \<Rightarrow> 'a list \<Rightarrow> 'a" where
  "mtree N xs =
     (if length xs \<le> 1 then hd xs
      else let k = largestPow2Below (length xs)
           in N (mtree N (take k xs)) (mtree N (drop k xs)))"
  by pat_completeness auto
termination
  by (relation "measure (\<lambda>(N, xs). length xs)") (auto simp: largestPow2Below_less)

declare mtree.simps [simp del]

lemma mtree_single [simp]: "mtree N [x] = x"
  by (simp add: mtree.simps)

lemma length_pairUp [simp]: "length (pairUp N xs) = (length xs + 1) div 2"
  by (induction N xs rule: pairUp.induct) auto

lemma pairUp_short: "length xs \<le> 1 \<Longrightarrow> pairUp N xs = xs"
  by (induction N xs rule: pairUp.induct) auto

lemma pairUp_not_Nil: "xs \<noteq> [] \<Longrightarrow> pairUp N xs \<noteq> []"
  by (induction N xs rule: pairUp.induct) auto

lemma pairUp_take: "pairUp N (take (2 * k) xs) = take k (pairUp N xs)"
proof (induction N xs arbitrary: k rule: pairUp.induct)
  case (1 N a b xs)
  then show ?case by (cases k) auto
qed (auto simp: take_Cons' split: nat.splits)

lemma pairUp_drop: "pairUp N (drop (2 * k) xs) = drop k (pairUp N xs)"
proof (induction N xs arbitrary: k rule: pairUp.induct)
  case (1 N a b xs)
  then show ?case by (cases k) auto
qed (auto simp: drop_Cons' split: nat.splits)

lemma pairUp_nth:
  "2 * i + 1 < length xs \<Longrightarrow> pairUp N xs ! i = N (xs ! (2 * i)) (xs ! (2 * i + 1))"
proof (induction N xs arbitrary: i rule: pairUp.induct)
  case (1 N a b xs)
  then show ?case by (cases i) auto
qed auto

lemma pairUp_nth_last:
  "length xs = 2 * i + 1 \<Longrightarrow> pairUp N xs ! i = xs ! (2 * i)"
proof (induction N xs arbitrary: i rule: pairUp.induct)
  case (1 N a b xs)
  then show ?case by (cases i) auto
qed auto

lemma mtree_split:
  assumes "2 \<le> length xs"
  shows "mtree N xs = N (mtree N (take (largestPow2Below (length xs)) xs))
                        (mtree N (drop (largestPow2Below (length xs)) xs))"
  using assms by (simp add: mtree.simps [of N xs] Let_def)

lemma list2E:
  assumes "length xs = 2"
  obtains a b where "xs = [a, b]"
  using assms by (auto simp: numeral_2_eq_2 length_Suc_conv)

lemma mtree_pairUp: "xs \<noteq> [] \<Longrightarrow> mtree N (pairUp N xs) = mtree N xs"
proof (induction "length xs" arbitrary: xs rule: less_induct)
  case less
  consider "length xs \<le> 1" | "length xs = 2" | "3 \<le> length xs" by linarith
  then show ?case
  proof cases
    case 1
    with less.prems show ?thesis by (cases xs) auto
  next
    case 2
    then obtain a b where "xs = [a, b]" by (rule list2E)
    then show ?thesis using mtree_split [of xs N] by (simp flip: numeral_2_eq_2)
  next
    case 3
    define k where "k = largestPow2Below ((length xs + 1) div 2)"
    have K: "largestPow2Below (length xs) = 2 * k"
      using largestPow2Below_half [OF 3] by (simp add: k_def)
    have b: "0 < 2 * k" "2 * k < length xs"
      using largestPow2Below_bounds [of "length xs"] 3 K by auto
    have t: "mtree N (pairUp N (take (2 * k) xs)) = mtree N (take (2 * k) xs)"
      using b by (intro less.hyps) auto
    have d: "mtree N (pairUp N (drop (2 * k) xs)) = mtree N (drop (2 * k) xs)"
      using b by (intro less.hyps) auto
    have "mtree N (pairUp N xs) = N (mtree N (take k (pairUp N xs))) (mtree N (drop k (pairUp N xs)))"
      using mtree_split [of "pairUp N xs" N] 3 by (simp add: k_def)
    also have "\<dots> = N (mtree N (take (2 * k) xs)) (mtree N (drop (2 * k) xs))"
      using t d by (simp only: pairUp_take pairUp_drop)
    also have "\<dots> = mtree N xs" using mtree_split [of xs N] 3 K by simp
    finally show ?thesis .
  qed
qed


function apath :: "('a \<Rightarrow> 'a \<Rightarrow> 'a) \<Rightarrow> 'a list \<Rightarrow> nat \<Rightarrow> 'a list" where
  "apath N xs m =
     (if length xs \<le> 1 then []
      else let k = largestPow2Below (length xs)
           in if m < k then apath N (take k xs) m @ [mtree N (drop k xs)]
              else apath N (drop k xs) (m - k) @ [mtree N (take k xs)])"
  by pat_completeness auto
termination
  by (relation "measure (\<lambda>(N, xs, m). length xs)") (auto simp: largestPow2Below_less)

declare apath.simps [simp del]

lemma apath_single [simp]: "length xs \<le> 1 \<Longrightarrow> apath N xs m = []"
  by (simp add: apath.simps)

definition sibling :: "'a list \<Rightarrow> nat \<Rightarrow> 'a list" where
  "sibling xs m =
     (if odd m then [xs ! (m - 1)] else if m + 1 < length xs then [xs ! (m + 1)] else [])"

lemma apath_split:
  assumes "2 \<le> length xs"
  shows "apath N xs m =
    (let k = largestPow2Below (length xs)
     in if m < k then apath N (take k xs) m @ [mtree N (drop k xs)]
        else apath N (drop k xs) (m - k) @ [mtree N (take k xs)])"
  using assms by (simp add: apath.simps [of N xs])

lemma apath_not_Nil: "2 \<le> length xs \<Longrightarrow> apath N xs m \<noteq> []"
  by (subst apath.simps) (simp add: Let_def)

lemma sibling_take:
  assumes "m < 2 * k" "2 * k \<le> length xs"
  shows "sibling (take (2 * k) xs) m = sibling xs m"
proof (cases "odd m")
  case False
  with assms have "m + 1 < 2 * k" by presburger
  with False assms show ?thesis by (simp add: sibling_def)
qed (use assms in \<open>simp add: sibling_def\<close>)

lemma sibling_drop:
  assumes "2 * k \<le> m" "m < length xs"
  shows "sibling (drop (2 * k) xs) (m - 2 * k) = sibling xs m"
proof (cases "odd m")
  case True
  with assms have "1 \<le> m - 2 * k" "odd (m - 2 * k)" by presburger+
  with True assms show ?thesis by (simp add: sibling_def algebra_simps)
next
  case False
  with assms show ?thesis by (auto simp: sibling_def algebra_simps)
qed

lemma apath_pairUp:
  "m < length xs \<Longrightarrow> 2 \<le> length xs \<Longrightarrow>
   apath N xs m = sibling xs m @ apath N (pairUp N xs) (m div 2)"
proof (induction "length xs" arbitrary: xs m rule: less_induct)
  case less
  show ?case
  proof (cases "length xs = 2")
    case True
    then obtain a b where "xs = [a, b]" by (rule list2E)
    moreover have "m = 0 \<or> m = 1" using less.prems True by auto
    ultimately show ?thesis
      using apath_split [of xs N m] by (auto simp: sibling_def simp flip: numeral_2_eq_2)
  next
    case False
    then have 3: "3 \<le> length xs" using less.prems by simp
    define k where "k = largestPow2Below ((length xs + 1) div 2)"
    have K: "largestPow2Below (length xs) = 2 * k"
      using largestPow2Below_half [OF 3] by (simp add: k_def)
    have b: "0 < k" "2 * k < length xs"
      using largestPow2Below_bounds [of "length xs"] 3 K by auto
    have up: "apath N (pairUp N xs) (m div 2) =
      (if m div 2 < k then apath N (take k (pairUp N xs)) (m div 2) @ [mtree N (drop k (pairUp N xs))]
       else apath N (drop k (pairUp N xs)) (m div 2 - k) @ [mtree N (take k (pairUp N xs))])"
      using apath_split [of "pairUp N xs" N "m div 2"] 3 by (simp add: k_def Let_def)
    have tr: "mtree N (drop k (pairUp N xs)) = mtree N (drop (2 * k) xs)"
      "mtree N (take k (pairUp N xs)) = mtree N (take (2 * k) xs)"
      using b 3 mtree_pairUp [of "drop (2 * k) xs" N] mtree_pairUp [of "take (2 * k) xs" N]
      by (force simp: pairUp_take pairUp_drop)+
    show ?thesis
    proof (cases "m < 2 * k")
      case True
      have IH: "apath N (take (2 * k) xs) m =
          sibling (take (2 * k) xs) m @ apath N (pairUp N (take (2 * k) xs)) (m div 2)"
        using less.hyps [of "take (2 * k) xs" m] b True by simp
      have "m div 2 < k" using True by simp
      then show ?thesis
        using True b IH sibling_take [of m k xs] apath_split [of xs N m] 3 up tr K
        by (simp add: pairUp_take Let_def)
    next
      case False
      show ?thesis
      proof (cases "length (drop (2 * k) xs) = 1")
        case True
        then have "m = 2 * k" using False less.prems by auto
        with True b show ?thesis
          using apath_split [of xs N m] 3 up tr K
          by (auto simp: sibling_def Let_def)
      next
        case len: False
        have IH: "apath N (drop (2 * k) xs) (m - 2 * k) =
            sibling (drop (2 * k) xs) (m - 2 * k) @ apath N (pairUp N (drop (2 * k) xs)) ((m - 2 * k) div 2)"
          using less.hyps [of "drop (2 * k) xs" "m - 2 * k"] b False len less.prems by simp
        have "(m - 2 * k) div 2 = m div 2 - k" "\<not> m div 2 < k" using False by auto
        then show ?thesis
          using False b IH sibling_drop [of k m xs] apath_split [of xs N m] 3 up tr K less.prems
          by (simp add: pairUp_drop Let_def)
      qed
    qed
  qed
qed


function pdirs :: "nat \<Rightarrow> nat \<Rightarrow> bool list" where
  "pdirs n m =
     (if n \<le> 1 then []
      else let k = largestPow2Below n
           in if m < k then pdirs k m @ [False] else pdirs (n - k) (m - k) @ [True])"
  by pat_completeness auto
termination
  by (relation "measure fst") (auto simp: largestPow2Below_less)

declare pdirs.simps [simp del]

lemma pdirs_single [simp]: "n \<le> 1 \<Longrightarrow> pdirs n m = []"
  by (simp add: pdirs.simps)

definition sdir :: "nat \<Rightarrow> nat \<Rightarrow> bool list" where
  "sdir n m = (if odd m then [True] else if m + 1 < n then [False] else [])"

lemma pdirs_split:
  assumes "2 \<le> n"
  shows "pdirs n m =
    (let k = largestPow2Below n in if m < k then pdirs k m @ [False] else pdirs (n - k) (m - k) @ [True])"
  using assms by (simp add: pdirs.simps [of n m])

lemma pdirs_pairUp:
  "m < n \<Longrightarrow> 2 \<le> n \<Longrightarrow> pdirs n m = sdir n m @ pdirs ((n + 1) div 2) (m div 2)"
proof (induction n arbitrary: m rule: less_induct)
  case (less n)
  show ?case
  proof (cases "n = 2")
    case True
    then have "m = 0 \<or> m = 1" using less.prems by auto
    with True show ?thesis using pdirs_split [of 2 m] by (auto simp: sdir_def)
  next
    case False
    then have 3: "3 \<le> n" using less.prems by simp
    define k where "k = largestPow2Below ((n + 1) div 2)"
    have K: "largestPow2Below n = 2 * k" using largestPow2Below_half [OF 3] by (simp add: k_def)
    have b: "0 < k" "2 * k < n" using largestPow2Below_bounds [of n] 3 K by auto
    have up: "pdirs ((n + 1) div 2) (m div 2) =
      (if m div 2 < k then pdirs k (m div 2) @ [False]
       else pdirs ((n + 1) div 2 - k) (m div 2 - k) @ [True])"
      using pdirs_split [of "(n + 1) div 2" "m div 2"] 3 by (simp add: k_def Let_def)
    note dn = pdirs_split [of n m, unfolded K Let_def]
    show ?thesis
    proof (cases "m < 2 * k")
      case True
      have "odd m \<or> m + 1 < 2 * k" using True by presburger
      then have "sdir (2 * k) m = sdir n m" using b by (auto simp: sdir_def)
      moreover have "pdirs (2 * k) m = sdir (2 * k) m @ pdirs k (m div 2)"
        using less.IH [of "2 * k" m] True b by simp
      moreover have "m div 2 < k" using True by simp
      ultimately show ?thesis using True dn up 3 by simp
    next
      case False
      then have q: "\<not> m div 2 < k" "(m - 2 * k) div 2 = m div 2 - k"
        "(n - 2 * k + 1) div 2 = (n + 1) div 2 - k" using b by auto
      have sd: "sdir (n - 2 * k) (m - 2 * k) = sdir n m"
      proof -
        have "odd (m - 2 * k) = odd m" using False by presburger
        moreover have "(m - 2 * k + 1 < n - 2 * k) = (m + 1 < n)" using False b less.prems by linarith
        ultimately show ?thesis by (simp add: sdir_def)
      qed
      show ?thesis
      proof (cases "n - 2 * k = 1")
        case True
        then have "m = 2 * k" using False less.prems by auto
        moreover have "(n + 1) div 2 - k = 1" using True b by simp
        ultimately show ?thesis using True dn up 3 by (auto simp: sdir_def)
      next
        case len: False
        have "pdirs (n - 2 * k) (m - 2 * k) =
            sdir (n - 2 * k) (m - 2 * k) @ pdirs ((n - 2 * k + 1) div 2) ((m - 2 * k) div 2)"
          by (rule less.IH) (use b False len less.prems in auto)
        then have "pdirs (n - 2 * k) (m - 2 * k) = sdir n m @ pdirs ((n + 1) div 2 - k) (m div 2 - k)"
          by (simp only: sd q)
        then show ?thesis using False q(1) dn up 3 by simp
      qed
    qed
  qed
qed

lemma length_pdirs_pow2: "m < 2 ^ e \<Longrightarrow> length (pdirs (2 ^ e) m) = e"
proof (induction e arbitrary: m)
  case (Suc e)
  have "largestPow2Below (2 ^ Suc e) = 2 ^ e"
  proof -
    have "2 \<le> (2::nat) ^ Suc e" by simp
    from largestPow2Below_inv [OF this] obtain f where
      f: "largestPow2Below (2 ^ Suc e) = 2 ^ f" "(2::nat) ^ f < 2 ^ Suc e" "(2::nat) ^ Suc e \<le> 2 * 2 ^ f"
      by auto
    then show ?thesis using pow2_unique [OF refl refl, of f "2 ^ Suc e" e] by simp
  qed
  with Suc show ?case using pdirs_split [of "2 ^ Suc e" m] by (auto simp: Let_def)
qed simp

fun descend :: "nat \<Rightarrow> bool list \<Rightarrow> nat option" where
  "descend n [] = (if n = 1 then Some 0 else None)"
| "descend n (d # ds) =
     (if n \<le> 1 then None
      else if d then map_option ((+) (largestPow2Below n)) (descend (n - largestPow2Below n) ds)
      else descend (largestPow2Below n) ds)"

lemma descend_length: "descend n ds = Some i \<Longrightarrow> n \<le> 2 ^ e \<Longrightarrow> length ds \<le> e"
proof (induction ds arbitrary: n e i)
  case (Cons d ds)
  then have n: "2 \<le> n" by (auto split: if_splits)
  then obtain f where e: "e = Suc f" using Cons.prems by (cases e) auto
  obtain g where g: "largestPow2Below n = 2 ^ g" "2 ^ g < n" "n \<le> 2 * 2 ^ g"
    using largestPow2Below_inv [OF n] by auto
  have "(2::nat) ^ g < 2 ^ Suc f" using g Cons.prems e by simp
  then have "(2::nat) ^ g \<le> 2 ^ f" by (simp add: power_strict_increasing_iff del: power_Suc)
  then have "n - 2 ^ g \<le> 2 ^ f" "2 ^ g \<le> (2::nat) ^ f" using g(3) by linarith+
  with Cons.IH [of "n - 2 ^ g" _ f] Cons.IH [of "2 ^ g" _ f] Cons.prems g n e show ?case
    by (auto split: if_splits)
qed simp

lemma descend_pdirs: "m < n \<Longrightarrow> descend n (rev (pdirs n m)) = Some m"
proof (induction n m rule: pdirs.induct)
  case (1 n m)
  show ?case
  proof (cases "n \<le> 1")
    case False
    with "1.IH" "1.prems" largestPow2Below_bounds [of n] pdirs_split [of n m] show ?thesis
      by (auto simp: Let_def)
  qed (use "1.prems" in auto)
qed

lemma descend_overlong:
  "m < n \<Longrightarrow> 0 < e \<Longrightarrow> descend n (replicate e True @ rev (pdirs n m)) = None"
proof (induction n m rule: pdirs.induct)
  case (1 n m)
  obtain e' where e': "e = Suc e'" using "1.prems" by (cases e) auto
  show ?case
  proof (cases "n \<le> 1")
    case False
    define k where "k = largestPow2Below n"
    obtain g where g: "k = 2 ^ g" "k < n" "n \<le> 2 * k"
      using largestPow2Below_inv [of n] False by (auto simp: k_def)
    show ?thesis
    proof (cases "m < k")
      case True
      have "length (replicate e True @ rev (pdirs n m)) = e + Suc g"
        using True False g pdirs_split [of n m] length_pdirs_pow2 [of m g] by (simp add: Let_def flip: k_def)
      moreover have "n \<le> 2 ^ Suc g" using g by simp
      ultimately show ?thesis
        using descend_length [of n "replicate e True @ rev (pdirs n m)" _ "Suc g"] "1.prems"
        by (cases "descend n (replicate e True @ rev (pdirs n m))") auto
    next
      case ge: False
      have "descend (n - k) (replicate e True @ rev (pdirs (n - k) (m - k))) = None"
        using "1.IH"(2) [of k] False ge g "1.prems" by (simp add: k_def)
      moreover have "replicate e True @ rev (pdirs n m) =
          True # replicate e True @ rev (pdirs (n - k) (m - k))"
        using ge False pdirs_split [of n m]
        by (simp add: Let_def replicate_app_Cons_same flip: k_def)
      ultimately show ?thesis using False by (simp flip: k_def)
    qed
  qed (simp add: e')
qed


function cpath :: "('a \<Rightarrow> 'a \<Rightarrow> 'a) \<Rightarrow> 'a list \<Rightarrow> nat \<Rightarrow> bool \<Rightarrow> 'a list" where
  "cpath N xs m b =
     (if m = length xs then if b then [] else [mtree N xs]
      else if length xs \<le> 1 then []
      else let k = largestPow2Below (length xs)
           in if m \<le> k then cpath N (take k xs) m b @ [mtree N (drop k xs)]
              else cpath N (drop k xs) (m - k) False @ [mtree N (take k xs)])"
  by pat_completeness auto
termination
  by (relation "measure (\<lambda>(N, xs, m, b). length xs)") (auto simp: largestPow2Below_less)

declare cpath.simps [simp del]

lemma cpath_split:
  assumes "m < length xs" and "0 < m"
  shows "cpath N xs m b =
    (let k = largestPow2Below (length xs)
     in if m \<le> k then cpath N (take k xs) m b @ [mtree N (drop k xs)]
        else cpath N (drop k xs) (m - k) False @ [mtree N (take k xs)])"
  using assms by (simp add: cpath.simps [of N xs])

lemma cpath_even:
  "even m \<Longrightarrow> 0 < m \<Longrightarrow> m < length xs \<Longrightarrow> cpath N xs m b = cpath N (pairUp N xs) (m div 2) b"
proof (induction "length xs" arbitrary: xs m b rule: less_induct)
  case less
  from less.prems have 3: "3 \<le> length xs" by presburger
  define k where "k = largestPow2Below ((length xs + 1) div 2)"
  have K: "largestPow2Below (length xs) = 2 * k"
    using largestPow2Below_half [OF 3] by (simp add: k_def)
  have b: "0 < k" "2 * k < length xs" using largestPow2Below_bounds [of "length xs"] 3 K by auto
  have up: "cpath N (pairUp N xs) (m div 2) b =
      (if m div 2 \<le> k then cpath N (take k (pairUp N xs)) (m div 2) b @ [mtree N (drop k (pairUp N xs))]
       else cpath N (drop k (pairUp N xs)) (m div 2 - k) False @ [mtree N (take k (pairUp N xs))])"
  proof -
    have "m div 2 < length (pairUp N xs)" "0 < m div 2" using less.prems by (auto elim!: evenE)
    from cpath_split [OF this, of N b] show ?thesis by (simp add: k_def Let_def)
  qed
  have tr: "mtree N (drop k (pairUp N xs)) = mtree N (drop (2 * k) xs)"
    "mtree N (take k (pairUp N xs)) = mtree N (take (2 * k) xs)"
    using b 3 mtree_pairUp [of "drop (2 * k) xs" N] mtree_pairUp [of "take (2 * k) xs" N]
    by (force simp: pairUp_take pairUp_drop)+
  note dn = cpath_split [of m xs N b, unfolded K Let_def]
  show ?case
  proof (cases "m \<le> 2 * k")
    case True
    have "cpath N (take (2 * k) xs) m b = cpath N (take k (pairUp N xs)) (m div 2) b"
    proof (cases "m = 2 * k")
      case True
      with b tr show ?thesis by (simp add: cpath.simps min_absorb2)
    next
      case False
      with True less.hyps [of "take (2 * k) xs" m b] less.prems b show ?thesis by (simp add: pairUp_take)
    qed
    moreover have "m div 2 \<le> k" using True by simp
    ultimately show ?thesis using True dn up tr less.prems by simp
  next
    case False
    have "cpath N (drop (2 * k) xs) (m - 2 * k) False = cpath N (drop k (pairUp N xs)) ((m - 2 * k) div 2) False"
      using less.hyps [of "drop (2 * k) xs" "m - 2 * k" False] less.prems b False by (simp add: pairUp_drop)
    moreover have "(m - 2 * k) div 2 = m div 2 - k" "\<not> m div 2 \<le> k" using False less.prems by presburger+
    ultimately show ?thesis using False dn up tr less.prems by simp
  qed
qed

lemma cpath_odd:
  "odd m \<Longrightarrow> m < length xs \<Longrightarrow> b \<longrightarrow> m \<noteq> 1 \<Longrightarrow>
   cpath N xs m b = xs ! (m - 1) # apath N xs (m - 1)"
proof (induction "length xs" arbitrary: xs m b rule: less_induct)
  case less
  have m0: "0 < m" using less.prems by (auto intro: Nat.gr0I)
  define K where "K = largestPow2Below (length xs)"
  have b: "0 < K" "K < length xs" using largestPow2Below_bounds [of "length xs"] less.prems m0 by (auto simp: K_def)
  note dn = cpath_split [of m xs N b, folded K_def, unfolded Let_def]
    and ap = apath_split [of xs N "m - 1", folded K_def, unfolded Let_def]
  show ?case
  proof (cases "length xs = 2")
    case True
    then have "m = 1" "K = 1" using less.prems m0 by (auto simp: K_def)
    moreover obtain x y where "xs = [x, y]" using True by (rule list2E)
    ultimately show ?thesis using less.prems dn ap by (auto simp: cpath.simps [of N "[x]"])
  next
    case False
    then have "even K"
      using largestPow2Below_half [of "length xs"] less.prems m0 by (simp add: K_def)
    show ?thesis
    proof (cases "m \<le> K")
      case True
      then have "m < K" using \<open>even K\<close> less.prems by (cases "m = K") auto
      then have "cpath N (take K xs) m b = take K xs ! (m - 1) # apath N (take K xs) (m - 1)"
        using b less.prems by (intro less.hyps) auto
      moreover have "m - 1 < K" using \<open>m < K\<close> by simp
      ultimately show ?thesis using \<open>m < K\<close> m0 less.prems dn ap by simp
    next
      case False
      have "cpath N (drop K xs) (m - K) False = drop K xs ! (m - K - 1) # apath N (drop K xs) (m - K - 1)"
        using b less.prems False \<open>even K\<close> by (intro less.hyps) auto
      moreover have "\<not> m - 1 < K" "m - K - 1 = m - 1 - K" using False by auto
      moreover have "drop K xs ! (m - K - 1) = xs ! (m - 1)" using False less.prems b by simp
      ultimately show ?thesis using False m0 less.prems dn ap by simp
    qed
  qed
qed

lemma cpath_one: "1 < length xs \<Longrightarrow> cpath N xs 1 True = apath N xs 0"
proof (induction "length xs" arbitrary: xs rule: less_induct)
  case less
  define K where "K = largestPow2Below (length xs)"
  have b: "0 < K" "K < length xs" using largestPow2Below_bounds [of "length xs"] less.prems by (auto simp: K_def)
  note dn = cpath_split [of 1 xs N True, folded K_def, unfolded Let_def]
    and ap = apath_split [of xs N 0, folded K_def, unfolded Let_def]
  show ?case
  proof (cases "K = 1")
    case True
    with b less.prems dn ap show ?thesis by (simp add: cpath.simps [of N "take (Suc 0) xs"])
  next
    case False
    then have "cpath N (take K xs) 1 True = apath N (take K xs) 0"
      using b by (intro less.hyps) auto
    with False b less.prems dn ap show ?thesis by simp
  qed
qed

lemma pairUp_append_even: "even (length as) \<Longrightarrow> pairUp N (as @ bs) = pairUp N as @ pairUp N bs"
  by (induction N as rule: pairUp.induct) auto

end
