(* ===== verification/Merkle.thy ===== *)
theory Merkle
  imports MerkleTree
begin

text \<open>
  \<open>internal/audit/merkle.go\<close>: root computation, proof generation and proof verification as the code
  writes them (memoised recursion on slices for the provers, index arithmetic for the verifiers),
  and that every proof the code generates is one it accepts.
\<close>

section \<open>Verification of an inclusion proof\<close>

fun shiftEven :: "nat \<Rightarrow> nat \<Rightarrow> nat \<times> nat" where
  "shiftEven fn sn =
     (if fn mod 2 = 0 \<and> fn \<noteq> 0 then shiftEven (fn div 2) (sn div 2) else (fn, sn))"

declare shiftEven.simps [simp del]

fun inclusionLoop :: "(bytes \<Rightarrow> bytes) \<Rightarrow> nat \<Rightarrow> nat \<Rightarrow> bytes \<Rightarrow> bytes list \<Rightarrow> bytes \<times> nat" where
  "inclusionLoop H fn sn node [] = (node, sn)"
| "inclusionLoop H fn sn node (p # ps) =
     (if fn = sn \<or> fn mod 2 = 1
      then (case shiftEven fn sn of
              (fn', sn') \<Rightarrow> inclusionLoop H (fn' div 2) (sn' div 2) (nodeHash H p node) ps)
      else inclusionLoop H (fn div 2) (sn div 2) (nodeHash H node p) ps)"

definition equalHash :: "bytes \<Rightarrow> bytes \<Rightarrow> bool" where
  "equalHash a b \<longleftrightarrow> length a = length b \<and> list_all (\<lambda>i. a ! i = b ! i) [0..<length a]"

lemma equalHash_iff [simp]: "equalHash a b \<longleftrightarrow> a = b"
  by (auto simp: equalHash_def list_all_iff intro: nth_equalityI)

definition verifyInclusion ::
    "(bytes \<Rightarrow> bytes) \<Rightarrow> bytes \<Rightarrow> int \<Rightarrow> int \<Rightarrow> bytes list \<Rightarrow> bytes \<Rightarrow> bool" where
  "verifyInclusion H leaf m size' proof' root =
     (if m < 0 \<or> m \<ge> size' then False
      else case inclusionLoop H (nat m) (nat (size' - 1)) (leafHash H leaf) proof' of
             (node, sn) \<Rightarrow> sn = 0 \<and> equalHash node root)"

lemma shiftEven_odd [simp]: "odd fn \<Longrightarrow> shiftEven fn sn = (fn, sn)"
  by (simp add: shiftEven.simps odd_iff_mod_2_eq_one)

lemma shiftEven_0 [simp]: "shiftEven 0 sn = (0, sn)"
  by (simp add: shiftEven.simps)

lemma shiftEven_double: "0 < i \<Longrightarrow> shiftEven (2 * i) sn = shiftEven i (sn div 2)"
  by (subst shiftEven.simps) simp

lemma inclusionLoop_promote:
  "0 < i \<Longrightarrow> inclusionLoop H (2 * i) (2 * i) node ps =
    (if ps = [] then (node, 2 * i) else inclusionLoop H i i node ps)"
  by (cases ps) (auto simp: shiftEven_double)

lemma inclusionLoop_apath:
  "m < length xs \<Longrightarrow> inclusionLoop H m (length xs - 1) (xs ! m) (apath (nodeHash H) xs m) =
     (mtree (nodeHash H) xs, 0)"
proof (induction "length xs" arbitrary: xs m rule: less_induct)
  case less
  let ?N = "nodeHash H"
  show ?case
  proof (cases "length xs = 1")
    case True
    with less.prems show ?thesis by (cases xs) auto
  next
    case False
    then have len: "2 \<le> length xs" using less.prems by simp
    let ?ys = "pairUp ?N xs"
    have IH: "inclusionLoop H (m div 2) (length ?ys - 1) (?ys ! (m div 2)) (apath ?N ?ys (m div 2))
        = (mtree ?N xs, 0)"
      using less.hyps [of ?ys "m div 2"] less.prems len mtree_pairUp [of xs ?N] by fastforce
    have sn: "length ?ys - 1 = (length xs - 1) div 2" using len by simp
    have split: "apath ?N xs m = sibling xs m @ apath ?N ?ys (m div 2)"
      by (rule apath_pairUp) (use less.prems len in auto)
    consider (odd) "odd m" | (even) "even m" "m + 1 < length xs" | (last) "even m" "m + 1 = length xs"
      using less.prems by linarith
    then show ?thesis
    proof cases
      case odd
      then have "?ys ! (m div 2) = ?N (xs ! (m - 1)) (xs ! m)"
        using pairUp_nth [of "m div 2" xs ?N] less.prems by (auto elim!: oddE)
      with odd IH split sn show ?thesis by (simp add: sibling_def odd_iff_mod_2_eq_one)
    next
      case even
      then have "?ys ! (m div 2) = ?N (xs ! m) (xs ! (m + 1))"
        using pairUp_nth [of "m div 2" xs ?N] by auto
      moreover have "m \<noteq> length xs - 1" "m mod 2 \<noteq> 1" using even by auto
      moreover have "apath ?N xs m = xs ! (m + 1) # apath ?N ?ys (m div 2)"
        using split even by (simp add: sibling_def)
      ultimately show ?thesis
        using IH unfolding sn by (simp only: inclusionLoop.simps if_False simp_thms)
    next
      case last
      then obtain i where i: "m = 2 * i" by (auto elim!: evenE)
      have pos: "0 < i" using i last len by simp
      have l: "length xs = 2 * i + 1" using last i by simp
      have "?ys ! i = xs ! (2 * i)" by (rule pairUp_nth_last [OF l])
      moreover have "apath ?N ?ys i \<noteq> []"
        by (rule apath_not_Nil) (use l pos in simp)
      moreover have "apath ?N xs m = apath ?N ?ys i"
        using split l i by (simp add: sibling_def)
      moreover have "length xs - 1 = 2 * i" "m div 2 = i" "length ?ys - 1 = i" using l i by auto
      ultimately show ?thesis
        using IH i inclusionLoop_promote [OF pos, of H "xs ! (2 * i)" "apath ?N ?ys i"]
        by (simp only: if_False)
    qed
  qed
qed


type_synonym memo = "(nat \<times> nat \<rightharpoonup> bytes) option"

function mroot :: "(bytes \<Rightarrow> bytes) \<Rightarrow> bytes list \<Rightarrow> nat \<Rightarrow> nat \<Rightarrow> memo \<Rightarrow> bytes \<times> memo" where
  "mroot H leaves off n memo =
     (if n = 0 then (H [], memo)
      else if n = 1 then (leafHash H (leaves ! off), memo)
      else case Option.bind memo (\<lambda>mm. mm (off, n)) of
             Some v \<Rightarrow> (v, memo)
           | None \<Rightarrow>
               let k = largestPow2Below n;
                   (l, memo1) = mroot H leaves off k memo;
                   (r, memo2) = mroot H leaves (off + k) (n - k) memo1;
                   h = nodeHash H l r
               in (h, map_option (\<lambda>mm. mm((off, n) \<mapsto> h)) memo2))"
  by pat_completeness auto
termination
  by (relation "measure (\<lambda>(H, leaves, off, n, memo). n)") (auto simp: largestPow2Below_less)

declare mroot.simps [simp del]

definition merkleRoot :: "(bytes \<Rightarrow> bytes) \<Rightarrow> bytes list \<Rightarrow> bytes" where
  "merkleRoot H leaves = fst (mroot H leaves 0 (length leaves) None)"

definition mth :: "(bytes \<Rightarrow> bytes) \<Rightarrow> bytes list \<Rightarrow> bytes" where
  "mth H leaves = (if leaves = [] then H [] else mtree (nodeHash H) (map (leafHash H) leaves))"

definition memo_ok :: "(bytes \<Rightarrow> bytes) \<Rightarrow> bytes list \<Rightarrow> memo \<Rightarrow> bool" where
  "memo_ok H leaves memo \<longleftrightarrow>
     (\<forall>mm off n v. memo = Some mm \<longrightarrow> mm (off, n) = Some v \<longrightarrow> v = mth H (take n (drop off leaves)))"

lemma mth_split:
  assumes "2 \<le> length xs"
  shows "mth H xs = nodeHash H (mth H (take (largestPow2Below (length xs)) xs))
                               (mth H (drop (largestPow2Below (length xs)) xs))"
  using assms largestPow2Below_bounds [of "length xs"]
    mtree_split [of "map (leafHash H) xs" "nodeHash H"]
  by (auto simp: mth_def take_map drop_map)

lemma mth_subtree_split:
  assumes "2 \<le> n" and "off + n \<le> length leaves"
  shows "mth H (take n (drop off leaves)) =
     nodeHash H (mth H (take (largestPow2Below n) (drop off leaves)))
       (mth H (take (n - largestPow2Below n) (drop (off + largestPow2Below n) leaves)))"
  using assms largestPow2Below_bounds [of n] mth_split [of "take n (drop off leaves)" H]
  by (simp add: drop_take min_absorb1 add.commute)

lemma mroot_correct:
  assumes "off + n \<le> length leaves" and "memo_ok H leaves memo"
  shows "fst (mroot H leaves off n memo) = mth H (take n (drop off leaves)) \<and>
         memo_ok H leaves (snd (mroot H leaves off n memo))"
  using assms
proof (induction H leaves off n memo rule: mroot.induct)
  case (1 H leaves off n memo)
  consider "n = 0" | "n = 1" | (hit) v where "2 \<le> n" "Option.bind memo (\<lambda>mm. mm (off, n)) = Some v"
    | (miss) "2 \<le> n" "Option.bind memo (\<lambda>mm. mm (off, n)) = None"
    by (metis One_nat_def Suc_1 Suc_leI less_one nat_neq_iff not_None_eq)
  then show ?case
  proof cases
    case 1
    then show ?thesis using "1.prems" by (simp add: mroot.simps mth_def)
  next
    case 2
    then have "take n (drop off leaves) = [leaves ! off]"
      using "1.prems" by (simp add: take_Suc_conv_app_nth)
    with 2 show ?thesis using "1.prems" by (simp add: mroot.simps mth_def)
  next
    case hit
    then show ?thesis
      using "1.prems" by (auto simp: mroot.simps [of H leaves off n] memo_ok_def bind_eq_Some_conv)
  next
    case miss
    define k where "k = largestPow2Below n"
    have k: "0 < k" "k < n" using largestPow2Below_bounds [of n] miss by (auto simp: k_def)
    obtain l memo1 where l: "mroot H leaves off k memo = (l, memo1)" by fastforce
    obtain r memo2 where r: "mroot H leaves (off + k) (n - k) memo1 = (r, memo2)" by fastforce
    have IH1: "l = mth H (take k (drop off leaves)) \<and> memo_ok H leaves memo1"
      using "1.IH"(1) [of k] miss k "1.prems" l by (simp add: k_def)
    have IH2: "r = mth H (take (n - k) (drop (off + k) leaves)) \<and> memo_ok H leaves memo2"
      using "1.IH"(2) [of k "(l, memo1)" l memo1] miss k "1.prems" l r IH1 by (simp add: k_def)
    have step: "mroot H leaves off n memo =
        (nodeHash H l r, map_option (\<lambda>mm. mm((off, n) \<mapsto> nodeHash H l r)) memo2)"
      using miss l r by (simp add: mroot.simps [of H leaves off n] Let_def flip: k_def)
    have root: "nodeHash H l r = mth H (take n (drop off leaves))"
      using mth_subtree_split [of n off leaves H] miss "1.prems" IH1 IH2 by (simp flip: k_def)
    have "memo_ok H leaves (map_option (\<lambda>mm. mm((off, n) \<mapsto> nodeHash H l r)) memo2)"
      using conjunct2 [OF IH2] root by (auto simp: memo_ok_def split: if_splits)
    then show ?thesis by (simp add: step root)
  qed
qed

lemma merkleRoot_mth: "merkleRoot H leaves = mth H leaves"
  using mroot_correct [of 0 "length leaves" leaves H None] by (simp add: merkleRoot_def memo_ok_def)

function iproof :: "(bytes \<Rightarrow> bytes) \<Rightarrow> bytes list \<Rightarrow> nat \<Rightarrow> nat \<Rightarrow> nat \<Rightarrow> memo \<Rightarrow> bytes list \<times> memo"
  where
  "iproof H leaves m off n memo =
     (if n \<le> 1 then ([], memo)
      else let k = largestPow2Below n
           in if m < k
              then let (path, memo1) = iproof H leaves m off k memo;
                       (h, memo2) = mroot H leaves (off + k) (n - k) memo1
                   in (path @ [h], memo2)
              else let (path, memo1) = iproof H leaves (m - k) (off + k) (n - k) memo;
                       (h, memo2) = mroot H leaves off k memo1
                   in (path @ [h], memo2))"
  by pat_completeness auto
termination
  by (relation "measure (\<lambda>(H, leaves, m, off, n, memo). n)") (auto simp: largestPow2Below_less)


declare iproof.simps [simp del]

definition inclusionProof :: "(bytes \<Rightarrow> bytes) \<Rightarrow> bytes list \<Rightarrow> int \<Rightarrow> bytes list" where
  "inclusionProof H leaves m =
     (if m < 0 \<or> m \<ge> int (length leaves) then []
      else fst (iproof H leaves (nat m) 0 (length leaves) (Some Map.empty)))"

abbreviation lnodes :: "(bytes \<Rightarrow> bytes) \<Rightarrow> bytes list \<Rightarrow> nat \<Rightarrow> nat \<Rightarrow> bytes list" where
  "lnodes H leaves off n \<equiv> map (leafHash H) (take n (drop off leaves))"

lemma mth_lnodes:
  "0 < n \<Longrightarrow> off + n \<le> length leaves \<Longrightarrow>
   mtree (nodeHash H) (lnodes H leaves off n) = mth H (take n (drop off leaves))"
  by (auto simp: mth_def)

lemma lnodes_split:
  assumes "k \<le> n" and "off + n \<le> length leaves"
  shows "take k (lnodes H leaves off n) = lnodes H leaves off k"
    and "drop k (lnodes H leaves off n) = lnodes H leaves (off + k) (n - k)"
  using assms by (simp_all add: take_map drop_map drop_take min_absorb1 add.commute)

lemma iproof_correct:
  assumes "off + n \<le> length leaves" and "m < n" and "memo_ok H leaves memo"
  shows "fst (iproof H leaves m off n memo) = apath (nodeHash H) (lnodes H leaves off n) m \<and>
         memo_ok H leaves (snd (iproof H leaves m off n memo))"
  using assms
proof (induction H leaves m off n memo rule: iproof.induct)
  case (1 H leaves m off n memo)
  show ?case
  proof (cases "n \<le> 1")
    case True
    with "1.prems" show ?thesis by (simp add: iproof.simps)
  next
    case False
    define k where "k = largestPow2Below n"
    have k: "0 < k" "k < n" using largestPow2Below_bounds [of n] False by (auto simp: k_def)
    have len: "length (lnodes H leaves off n) = n" using "1.prems" by simp
    note ap = apath_split [of "lnodes H leaves off n" "nodeHash H" m, unfolded len, folded k_def]
      and sp = lnodes_split [of k n off leaves H]
    have mr: "fst (mroot H leaves (off + k) (n - k) mm) = mth H (take (n - k) (drop (off + k) leaves)) \<and>
        memo_ok H leaves (snd (mroot H leaves (off + k) (n - k) mm))"
      "fst (mroot H leaves off k mm) = mth H (take k (drop off leaves)) \<and>
        memo_ok H leaves (snd (mroot H leaves off k mm))" if "memo_ok H leaves mm" for mm
      using mroot_correct [of "off + k" "n - k" leaves H mm] mroot_correct [of off k leaves H mm]
        "1.prems" k that by auto
    show ?thesis
    proof (cases "m < k")
      case True
      have "fst (iproof H leaves m off k memo) = apath (nodeHash H) (lnodes H leaves off k) m \<and>
          memo_ok H leaves (snd (iproof H leaves m off k memo))"
        using "1.IH"(1) [of k] False True k "1.prems" by (simp add: k_def)
      with True False k mr(1) sp ap mth_lnodes [of "n - k" "off + k" leaves H] "1.prems" show ?thesis
        by (auto simp: iproof.simps [of H leaves m off n] Let_def split_beta simp flip: k_def)
    next
      case ge: False
      have "fst (iproof H leaves (m - k) (off + k) (n - k) memo) =
            apath (nodeHash H) (lnodes H leaves (off + k) (n - k)) (m - k) \<and>
          memo_ok H leaves (snd (iproof H leaves (m - k) (off + k) (n - k) memo))"
        using "1.IH"(2) [of k] False ge k "1.prems" by (simp add: k_def)
      with ge False k mr(2) sp ap mth_lnodes [of k off leaves H] "1.prems" show ?thesis
        by (auto simp: iproof.simps [of H leaves m off n] Let_def split_beta simp flip: k_def)
    qed
  qed
qed

lemma inclusionProof_apath:
  assumes "0 \<le> m" and "m < int (length leaves)"
  shows "inclusionProof H leaves m = apath (nodeHash H) (map (leafHash H) leaves) (nat m)"
  using iproof_correct [of 0 "length leaves" leaves "nat m" H "Some Map.empty"] assms
  by (simp add: inclusionProof_def memo_ok_def nat_less_iff)

lemma inclusionProof_verifies:
  assumes "0 \<le> m" and "m < int (length leaves)"
  shows "verifyInclusion H (leaves ! nat m) m (int (length leaves))
           (inclusionProof H leaves m) (merkleRoot H leaves)"
proof -
  let ?xs = "map (leafHash H) leaves"
  have "inclusionLoop H (nat m) (length ?xs - 1) (?xs ! nat m) (apath (nodeHash H) ?xs (nat m)) =
      (mtree (nodeHash H) ?xs, 0)"
    by (rule inclusionLoop_apath) (use assms in auto)
  moreover have "nat (int (length leaves) - 1) = length ?xs - 1" using assms by simp
  moreover have "merkleRoot H leaves = mtree (nodeHash H) ?xs"
    using assms by (auto simp: merkleRoot_mth mth_def)
  ultimately show ?thesis
    using assms by (simp add: verifyInclusion_def inclusionProof_apath nat_less_iff)
qed

text \<open>
  for every leaf index of a non-empty log, the audit path that
  \<open>inclusionProof\<close> generates is accepted by \<open>verifyInclusion\<close> against the log's Merkle root, for
  every hash function.
\<close>

theorem inclusion_complete:
  assumes "0 \<le> m" and "m < int (length leaves)"
  shows "verifyInclusion H (leaves ! nat m) m (int (length leaves))
           (inclusionProof H leaves m) (merkleRoot H leaves)"
  by (rule inclusionProof_verifies [OF assms])

theorem inclusion_complete_witness:
  "verifyInclusion pad32 ''c'' 2 3 (inclusionProof pad32 [''a'', ''b'', ''c''] 2)
     (merkleRoot pad32 [''a'', ''b'', ''c''])"
  using inclusion_complete [of 2 "[''a'', ''b'', ''c'']" pad32] by simp



function subProof ::
    "(bytes \<Rightarrow> bytes) \<Rightarrow> bytes list \<Rightarrow> nat \<Rightarrow> nat \<Rightarrow> nat \<Rightarrow> bool \<Rightarrow> memo \<Rightarrow> bytes list \<times> memo" where
  "subProof H leaves m off n b memo =
     (if m = n
      then if b then ([], memo)
           else let (h, memo1) = mroot H leaves off n memo in ([h], memo1)
      else if n \<le> 1 then ([], memo)
      else let k = largestPow2Below n
           in if m \<le> k
              then let (path, memo1) = subProof H leaves m off k b memo;
                       (h, memo2) = mroot H leaves (off + k) (n - k) memo1
                   in (path @ [h], memo2)
              else let (path, memo1) = subProof H leaves (m - k) (off + k) (n - k) False memo;
                       (h, memo2) = mroot H leaves off k memo1
                   in (path @ [h], memo2))"
  by pat_completeness auto
termination
  by (relation "measure (\<lambda>(H, leaves, m, off, n, b, memo). n)") (auto simp: largestPow2Below_less)

declare subProof.simps [simp del]

definition consistencyProof :: "(bytes \<Rightarrow> bytes) \<Rightarrow> bytes list \<Rightarrow> int \<Rightarrow> bytes list" where
  "consistencyProof H leaves m =
     (if m \<le> 0 \<or> m \<ge> int (length leaves) then []
      else fst (subProof H leaves (nat m) 0 (length leaves) True (Some Map.empty)))"

definition isPow2 :: "int \<Rightarrow> bool" where
  "isPow2 n \<longleftrightarrow> n > 0 \<and> and n (n - 1) = 0"

fun shiftOdd :: "nat \<Rightarrow> nat \<Rightarrow> nat \<times> nat" where
  "shiftOdd fn sn = (if fn mod 2 = 1 then shiftOdd (fn div 2) (sn div 2) else (fn, sn))"

declare shiftOdd.simps [simp del]

fun consistencyLoop ::
    "(bytes \<Rightarrow> bytes) \<Rightarrow> nat \<Rightarrow> nat \<Rightarrow> bytes \<Rightarrow> bytes \<Rightarrow> bytes list \<Rightarrow> (bytes \<times> bytes \<times> nat) option" where
  "consistencyLoop H fn sn fr sr [] = Some (fr, sr, sn)"
| "consistencyLoop H fn sn fr sr (c # cs) =
     (if sn = 0 then None
      else if fn mod 2 = 1 \<or> fn = sn
      then (case shiftEven fn sn of
              (fn', sn') \<Rightarrow>
                consistencyLoop H (fn' div 2) (sn' div 2) (nodeHash H c fr) (nodeHash H c sr) cs)
      else consistencyLoop H (fn div 2) (sn div 2) fr (nodeHash H sr c) cs)"

definition verifyConsistency ::
    "(bytes \<Rightarrow> bytes) \<Rightarrow> int \<Rightarrow> int \<Rightarrow> bytes list \<Rightarrow> bytes \<Rightarrow> bytes \<Rightarrow> bool" where
  "verifyConsistency H m n pf oldRoot newRoot =
     (if m \<le> 0 \<or> m > n then False
      else if m = n then pf = [] \<and> equalHash oldRoot newRoot
      else case (if isPow2 m then oldRoot # pf else pf) of
             [] \<Rightarrow> False
           | p0 # rest \<Rightarrow>
               (case shiftOdd (nat (m - 1)) (nat (n - 1)) of
                  (fn, sn) \<Rightarrow>
                    (case consistencyLoop H fn sn p0 p0 rest of
                       None \<Rightarrow> False
                     | Some (fr, sr, sn') \<Rightarrow> sn' = 0 \<and> equalHash fr oldRoot \<and> equalHash sr newRoot)))"

lemma subProof_correct:
  assumes "off + n \<le> length leaves" and "0 < m" and "m \<le> n" and "memo_ok H leaves memo"
  shows "fst (subProof H leaves m off n b memo) = cpath (nodeHash H) (lnodes H leaves off n) m b \<and>
         memo_ok H leaves (snd (subProof H leaves m off n b memo))"
  using assms
proof (induction H leaves m off n b memo rule: subProof.induct)
  case (1 H leaves m off n b memo)
  have len: "length (lnodes H leaves off n) = n" using "1.prems" by simp
  note cp = cpath.simps [of "nodeHash H" "lnodes H leaves off n" m b, unfolded len]
  show ?case
  proof (cases "m = n")
    case True
    with "1.prems" mroot_correct [of off n leaves H memo] mth_lnodes [of n off leaves H] cp show ?thesis
      by (auto simp: subProof.simps [of H leaves n off n] split_beta)
  next
    case False
    then have n: "\<not> n \<le> 1" using "1.prems" by simp
    define k where "k = largestPow2Below n"
    have k: "0 < k" "k < n" using largestPow2Below_bounds [of n] n by (auto simp: k_def)
    note sp = lnodes_split [of k n off leaves H]
    have mr: "fst (mroot H leaves (off + k) (n - k) mm) = mth H (take (n - k) (drop (off + k) leaves)) \<and>
        memo_ok H leaves (snd (mroot H leaves (off + k) (n - k) mm))"
      "fst (mroot H leaves off k mm) = mth H (take k (drop off leaves)) \<and>
        memo_ok H leaves (snd (mroot H leaves off k mm))" if "memo_ok H leaves mm" for mm
      using mroot_correct [of "off + k" "n - k" leaves H mm] mroot_correct [of off k leaves H mm]
        "1.prems" k that by auto
    show ?thesis
    proof (cases "m \<le> k")
      case True
      have "fst (subProof H leaves m off k b memo) = cpath (nodeHash H) (lnodes H leaves off k) m b \<and>
          memo_ok H leaves (snd (subProof H leaves m off k b memo))"
        using "1.IH"(1) [of k] False n True k "1.prems" by (simp add: k_def)
      with True False n k mr(1) sp cp mth_lnodes [of "n - k" "off + k" leaves H] "1.prems" show ?thesis
        by (auto simp: subProof.simps [of H leaves m off n] Let_def split_beta simp flip: k_def)
    next
      case ge: False
      have "fst (subProof H leaves (m - k) (off + k) (n - k) False memo) =
            cpath (nodeHash H) (lnodes H leaves (off + k) (n - k)) (m - k) False \<and>
          memo_ok H leaves (snd (subProof H leaves (m - k) (off + k) (n - k) False memo))"
        using "1.IH"(2) [of k] False n ge k "1.prems" by (simp add: k_def)
      with ge False n k mr(2) sp cp mth_lnodes [of k off leaves H] "1.prems" show ?thesis
        by (auto simp: subProof.simps [of H leaves m off n] Let_def split_beta simp flip: k_def)
    qed
  qed
qed

lemma consistencyProof_cpath:
  assumes "0 < m" and "m < int (length leaves)"
  shows "consistencyProof H leaves m = cpath (nodeHash H) (map (leafHash H) leaves) (nat m) True"
  using subProof_correct [of 0 "length leaves" leaves "nat m" H "Some Map.empty" True] assms
  by (simp add: consistencyProof_def memo_ok_def nat_le_iff)


lemma consistencyLoop_promote:
  "0 < i \<Longrightarrow> ps \<noteq> [] \<Longrightarrow> consistencyLoop H (2 * i) (2 * i) fr sr ps = consistencyLoop H i i fr sr ps"
  by (cases ps) (auto simp: shiftEven_double)

lemma consistencyLoop_apath:
  "i < length xs \<Longrightarrow>
   consistencyLoop H i (length xs - 1) f (xs ! i) (apath (nodeHash H) xs i) =
     Some (mtree (nodeHash H) (take i xs @ [f]), mtree (nodeHash H) xs, 0)"
proof (induction "length xs" arbitrary: xs i f rule: less_induct)
  case less
  let ?N = "nodeHash H"
  show ?case
  proof (cases "length xs = 1")
    case True
    with less.prems show ?thesis by (cases xs) auto
  next
    case False
    then have len: "2 \<le> length xs" using less.prems by simp
    let ?ys = "pairUp ?N xs"
    have IH: "consistencyLoop H (i div 2) ((length xs - 1) div 2) f' (?ys ! (i div 2)) (apath ?N ?ys (i div 2))
        = Some (mtree ?N (take (i div 2) ?ys @ [f']), mtree ?N xs, 0)" for f'
    proof -
      have "xs \<noteq> []" "(length xs - 1) div 2 = length ?ys - 1" using len by auto
      with less.hyps [of ?ys "i div 2" f'] less.prems len mtree_pairUp [of xs ?N] show ?thesis by simp
    qed
    have split: "apath ?N xs i = sibling xs i @ apath ?N ?ys (i div 2)"
      by (rule apath_pairUp) (use less.prems len in auto)
    have sn0: "length xs - 1 \<noteq> 0" using len by simp
    consider (odd) j where "i = 2 * j + 1" | (even) j where "i = 2 * j" "i + 1 < length xs"
      | (last) j where "i = 2 * j" "length xs = 2 * j + 1"
      using less.prems by (cases "odd i") (auto elim!: oddE evenE, linarith)
    then show ?thesis
    proof cases
      case (odd j)
      have "take i xs @ [f] = take (2 * j) xs @ [xs ! (2 * j), f]"
        using odd less.prems by (simp add: take_Suc_conv_app_nth)
      then have "pairUp ?N (take i xs @ [f]) = take j ?ys @ [?N (xs ! (2 * j)) f]"
        using odd less.prems by (simp add: pairUp_append_even pairUp_take)
      moreover have "?ys ! j = ?N (xs ! (2 * j)) (xs ! i)"
        using pairUp_nth [of j xs ?N] odd less.prems by simp
      moreover have "mtree ?N (pairUp ?N (take i xs @ [f])) = mtree ?N (take i xs @ [f])"
        by (rule mtree_pairUp) simp
      moreover have "sibling xs i = [xs ! (2 * j)]" "i div 2 = j" "i mod 2 = 1" "odd i"
        using odd by (auto simp: sibling_def)
      ultimately show ?thesis using IH [of "?N (xs ! (2 * j)) f"] split sn0 by simp
    next
      case (even j)
      then have "pairUp ?N (take i xs @ [f]) = take j ?ys @ [f]"
        by (simp add: pairUp_append_even pairUp_take min_absorb2)
      moreover have "?ys ! j = ?N (xs ! i) (xs ! (i + 1))"
        using pairUp_nth [of j xs ?N] even by simp
      moreover have "mtree ?N (pairUp ?N (take i xs @ [f])) = mtree ?N (take i xs @ [f])"
        by (rule mtree_pairUp) simp
      moreover have "sibling xs i = [xs ! (i + 1)]" "i div 2 = j" "i mod 2 \<noteq> 1" "i \<noteq> length xs - 1"
        using even by (auto simp: sibling_def)
      ultimately show ?thesis using IH [of f] split sn0 by simp
    next
      case (last j)
      have pos: "0 < j" using last len by simp
      have "pairUp ?N (take i xs @ [f]) = take j ?ys @ [f]"
        using last by (simp add: pairUp_append_even pairUp_take min_absorb2)
      moreover have "?ys ! j = xs ! (2 * j)" by (rule pairUp_nth_last [OF last(2)])
      moreover have "mtree ?N (pairUp ?N (take i xs @ [f])) = mtree ?N (take i xs @ [f])"
        by (rule mtree_pairUp) simp
      moreover have "apath ?N ?ys j \<noteq> []" by (rule apath_not_Nil) (use last pos in simp)
      moreover have "apath ?N xs i = apath ?N ?ys j" using split last by (simp add: sibling_def)
      moreover have "length xs - 1 = 2 * j" "i div 2 = j" "(length xs - 1) div 2 = j" using last by auto
      ultimately show ?thesis
        using IH [of f] last(1) consistencyLoop_promote [OF pos, of "apath ?N ?ys j" H f "xs ! (2 * j)"]
        by simp
    qed
  qed
qed


lemma isPow2_double: "0 < i \<Longrightarrow> isPow2 (2 * i) \<longleftrightarrow> isPow2 i"
proof -
  assume "0 < i"
  have "and (2 * i) (2 * i - 1) = 2 * and i (i - 1)"
  proof -
    have "(2 * i - 1) div 2 = i - 1" by simp
    then show ?thesis by (subst and_int_rec) simp
  qed
  with \<open>0 < i\<close> show ?thesis by (simp add: isPow2_def)
qed

lemma isPow2_odd: "odd i \<Longrightarrow> 0 < i \<Longrightarrow> isPow2 i \<longleftrightarrow> i = 1"
proof -
  assume "odd i" and "0 < i"
  then obtain j where j: "i = 2 * j + 1" by (auto elim!: oddE)
  have "and i (i - 1) = 2 * j" unfolding j by (subst and_int_rec) simp
  with j \<open>0 < i\<close> show ?thesis by (auto simp: isPow2_def)
qed

lemma shiftOdd_even [simp]: "even fn \<Longrightarrow> shiftOdd fn sn = (fn, sn)"
  by (simp add: shiftOdd.simps)

lemma shiftOdd_step: "0 < i \<Longrightarrow> shiftOdd (2 * i - 1) sn = shiftOdd (i - 1) (sn div 2)"
proof -
  assume "0 < i"
  then have "(2 * i - 1) mod 2 = 1" "(2 * i - 1) div 2 = i - 1" by presburger+
  then show ?thesis by (subst shiftOdd.simps) simp
qed

text \<open>The proof the verifier works on, with the implied old root put in front.\<close>

definition full_proof :: "('a \<Rightarrow> 'a \<Rightarrow> 'a) \<Rightarrow> 'a list \<Rightarrow> nat \<Rightarrow> 'a list" where
  "full_proof N xs m =
     (if isPow2 (int m) then mtree N (take m xs) # cpath N xs m True else cpath N xs m True)"

lemma full_proof_run:
  "0 < m \<Longrightarrow> m < length xs \<Longrightarrow>
   \<exists>p0 rest fn sn. full_proof (nodeHash H) xs m = p0 # rest \<and>
     shiftOdd (m - 1) (length xs - 1) = (fn, sn) \<and>
     consistencyLoop H fn sn p0 p0 rest =
       Some (mtree (nodeHash H) (take m xs), mtree (nodeHash H) xs, 0)"
proof (induction m arbitrary: xs rule: less_induct)
  case (less m)
  let ?N = "nodeHash H"
  show ?case
  proof (cases "even m")
    case True
    then obtain i where i: "m = 2 * i" "0 < i" using less.prems by (auto elim!: evenE)
    let ?ys = "pairUp ?N xs"
    have len: "i < length ?ys" "(length xs - 1) div 2 = length ?ys - 1" using less.prems i by auto
    have xs: "xs \<noteq> []" using less.prems by auto
    have tr: "mtree ?N (take i ?ys) = mtree ?N (take m xs)" "mtree ?N ?ys = mtree ?N xs"
      using mtree_pairUp [of "take m xs" ?N] mtree_pairUp [OF xs, of ?N] less.prems i xs
      by (auto simp: pairUp_take)
    have "cpath ?N xs m True = cpath ?N ?ys i True"
      using cpath_even [of m xs ?N True] less.prems True i by simp
    moreover have "isPow2 (int m) = isPow2 (int i)" using isPow2_double [of "int i"] i by simp
    ultimately have "full_proof ?N xs m = full_proof ?N ?ys i" using tr by (simp add: full_proof_def)
    moreover have "shiftOdd (m - 1) (length xs - 1) = shiftOdd (i - 1) (length ?ys - 1)"
      using shiftOdd_step [of i "length xs - 1"] i len by simp
    ultimately show ?thesis using less.IH [of i ?ys] i len tr by simp
  next
    case False
    have fp: "full_proof ?N xs m = xs ! (m - 1) # apath ?N xs (m - 1)"
    proof (cases "m = 1")
      case True
      then show ?thesis
        using less.prems cpath_one [of xs ?N] by (cases xs) (auto simp: full_proof_def isPow2_def)
    next
      case ne: False
      then have "\<not> isPow2 (int m)" using False less.prems isPow2_odd [of "int m"] by simp
      then show ?thesis using cpath_odd [of m xs True ?N] False ne less.prems by (simp add: full_proof_def)
    qed
    have "consistencyLoop H (m - 1) (length xs - 1) (xs ! (m - 1)) (xs ! (m - 1)) (apath ?N xs (m - 1)) =
        Some (mtree ?N (take (m - 1) xs @ [xs ! (m - 1)]), mtree ?N xs, 0)"
      by (rule consistencyLoop_apath) (use less.prems in simp)
    moreover have "take (m - 1) xs @ [xs ! (m - 1)] = take m xs"
      using less.prems take_Suc_conv_app_nth [of "m - 1" xs] by simp
    moreover have "shiftOdd (m - 1) (length xs - 1) = (m - 1, length xs - 1)" using False by simp
    ultimately show ?thesis using fp by simp
  qed
qed

lemma consistencyProof_verifies:
  assumes "0 < m" and "m < int (length leaves)"
  shows "verifyConsistency H m (int (length leaves)) (consistencyProof H leaves m)
           (merkleRoot H (take (nat m) leaves)) (merkleRoot H leaves)"
proof -
  let ?xs = "map (leafHash H) leaves" and ?N = "nodeHash H"
  have r: "merkleRoot H leaves = mtree ?N ?xs" "merkleRoot H (take (nat m) leaves) = mtree ?N (take (nat m) ?xs)"
    using assms by (auto simp: merkleRoot_mth mth_def take_map)
  have m: "0 < nat m" "nat m < length ?xs" "int (nat m) = m" using assms by auto
  from full_proof_run [OF m(1,2), of H] obtain p0 rest fn sn where
    run: "full_proof ?N ?xs (nat m) = p0 # rest" "shiftOdd (nat m - 1) (length ?xs - 1) = (fn, sn)"
      "consistencyLoop H fn sn p0 p0 rest = Some (mtree ?N (take (nat m) ?xs), mtree ?N ?xs, 0)"
    by blast
  have pr: "(if isPow2 m then merkleRoot H (take (nat m) leaves) # consistencyProof H leaves m
         else consistencyProof H leaves m) = p0 # rest"
    using run(1) unfolding consistencyProof_cpath [OF assms] r full_proof_def m(3) .
  have "nat (m - 1) = nat m - 1" "nat (int (length leaves) - 1) = length ?xs - 1" using assms by auto
  then show ?thesis
    using assms run(2,3) unfolding verifyConsistency_def pr by (simp add: r)
qed

text \<open>
  for every proper, non-empty prefix of a log, the proof that
  \<open>consistencyProof\<close> generates is accepted by \<open>verifyConsistency\<close> between the Merkle root of the
  prefix and the root of the whole log, for every hash function.
\<close>

theorem consistency_complete:
  assumes "0 < m" and "m < int (length leaves)"
  shows "verifyConsistency H m (int (length leaves)) (consistencyProof H leaves m)
           (merkleRoot H (take (nat m) leaves)) (merkleRoot H leaves)"
  by (rule consistencyProof_verifies [OF assms])

theorem consistency_complete_witness:
  "verifyConsistency pad32 3 5 (consistencyProof pad32 [''a'', ''b'', ''c'', ''d'', ''e''] 3)
     (merkleRoot pad32 [''a'', ''b'', ''c'']) (merkleRoot pad32 [''a'', ''b'', ''c'', ''d'', ''e''])"
  using consistency_complete [of 3 "[''a'', ''b'', ''c'', ''d'', ''e'']" pad32]
  by (simp add: numeral_3_eq_3)

text \<open>
  the memoised subtree root of the code equals the RFC 6962 tree hash
  of the slice, and the memo it leaves behind still holds only correct subtree roots.
\<close>

theorem mroot_memo_equiv:
  assumes "off + n \<le> length leaves" and "memo_ok H leaves memo"
  shows "fst (mroot H leaves off n memo) = mth H (take n (drop off leaves)) \<and>
         memo_ok H leaves (snd (mroot H leaves off n memo))"
  using assms by (rule mroot_correct)

theorem mroot_memo_equiv_witness:
  "fst (mroot pad32 [''a'', ''b'', ''c''] 1 2 (Some Map.empty)) = mth pad32 [''b'', ''c''] \<and>
   memo_ok pad32 [''a'', ''b'', ''c''] (snd (mroot pad32 [''a'', ''b'', ''c''] 1 2 (Some Map.empty)))"
  using mroot_memo_equiv [of 1 2 "[''a'', ''b'', ''c'']" pad32 "Some Map.empty"]
  by (simp add: memo_ok_def)

end
