(* ===== verification/MerkleSound.thy ===== *)
theory MerkleSound
  imports Merkle
begin

text \<open>
  Soundness of the two verifiers of \<open>internal/audit/merkle.go\<close>: against a genuine root an accepted
  inclusion proof names the leaf that is really at that index, and an accepted consistency proof
  between two genuine roots means that the older log is a prefix of the newer one. Hash functions
  have collisions, so each theorem asks that \<open>H\<close> has none among the finitely many inputs hashed
  while the trees are built and the proof is verified (\<open>mth_inputs\<close>, \<open>inclusion_inputs\<close>,
  \<open>verify_consistency_inputs\<close>): a forged proof that is accepted would exhibit a collision there.
\<close>

section \<open>What a run of the inclusion verifier computes\<close>

fun climb :: "(bytes \<Rightarrow> bytes) \<Rightarrow> bytes \<Rightarrow> bool list \<Rightarrow> bytes list \<Rightarrow> bytes" where
  "climb H node (d # ds) (p # ps) =
     climb H (if d then nodeHash H p node else nodeHash H node p) ds ps"
| "climb H node _ _ = node"

fun climb_inputs :: "(bytes \<Rightarrow> bytes) \<Rightarrow> bytes \<Rightarrow> bool list \<Rightarrow> bytes list \<Rightarrow> bytes set" where
  "climb_inputs H node (d # ds) (p # ps) =
     insert (CHR 0x01 # (if d then p @ node else node @ p))
       (climb_inputs H (if d then nodeHash H p node else nodeHash H node p) ds ps)"
| "climb_inputs H node _ _ = {}"

lemma climb_snoc:
  "length ds = length ps \<Longrightarrow>
   climb H node (ds @ [d]) (ps @ [p]) =
     (if d then nodeHash H p (climb H node ds ps) else nodeHash H (climb H node ds ps) p)"
  by (induction ds ps arbitrary: node rule: list_induct2) auto

lemma climb_inputs_snoc:
  "length ds = length ps \<Longrightarrow>
   climb_inputs H node (ds @ [d]) (ps @ [p]) =
     insert (CHR 0x01 # (if d then p @ climb H node ds ps else climb H node ds ps @ p))
       (climb_inputs H node ds ps)"
  by (induction ds ps arbitrary: node rule: list_induct2) auto

lemma climb_promoted:
  "climb H node (replicate (length ps) True) ps = fst (inclusionLoop H 0 0 node ps) \<and>
   snd (inclusionLoop H 0 0 node ps) = 0"
  by (induction ps arbitrary: node) auto

fun inclusion_inputs :: "(bytes \<Rightarrow> bytes) \<Rightarrow> nat \<Rightarrow> nat \<Rightarrow> bytes \<Rightarrow> bytes list \<Rightarrow> bytes set" where
  "inclusion_inputs H fn sn node [] = {}"
| "inclusion_inputs H fn sn node (p # ps) =
     (if fn = sn \<or> fn mod 2 = 1
      then (case shiftEven fn sn of
              (fn', sn') \<Rightarrow> insert (CHR 0x01 # p @ node)
                (inclusion_inputs H (fn' div 2) (sn' div 2) (nodeHash H p node) ps))
      else insert (CHR 0x01 # node @ p)
             (inclusion_inputs H (fn div 2) (sn div 2) (nodeHash H node p) ps))"

text \<open>What a run of the loop computes, in terms of the directions of the path.\<close>

definition loop_is_climb :: "(bytes \<Rightarrow> bytes) \<Rightarrow> nat \<Rightarrow> nat \<Rightarrow> bytes \<Rightarrow> bytes list \<Rightarrow> bool" where
  "loop_is_climb H m n node ps \<longleftrightarrow>
     (snd (inclusionLoop H m (n - 1) node ps) = 0 \<longrightarrow>
       length (pdirs n m) \<le> length ps \<and>
       fst (inclusionLoop H m (n - 1) node ps) =
         climb H node (pdirs n m @ replicate (length ps - length (pdirs n m)) True) ps \<and>
       inclusion_inputs H m (n - 1) node ps =
         climb_inputs H node (pdirs n m @ replicate (length ps - length (pdirs n m)) True) ps)"

lemma inclusion_inputs_promote:
  "0 < i \<Longrightarrow> inclusion_inputs H (2 * i) (2 * i) node ps = inclusion_inputs H i i node ps"
  by (cases ps) (auto simp: shiftEven_double)

lemma inclusion_inputs_0: "inclusion_inputs H 0 0 node ps = climb_inputs H node (replicate (length ps) True) ps"
  by (induction ps arbitrary: node) auto

lemma inclusionLoop_climb: "m < n \<Longrightarrow> loop_is_climb H m n node ps"
proof (induction n arbitrary: m node ps rule: less_induct)
  case (less n m node ps)
  show ?case
  proof (cases "n = 1")
    case True
    with less.prems climb_promoted [of H node ps] show ?thesis
      by (simp add: loop_is_climb_def inclusion_inputs_0)
  next
    case False
    then have n: "2 \<le> n" using less.prems by simp
    let ?n = "(n + 1) div 2"
    have sn: "(n - 1) div 2 = ?n - 1" using n by simp
    have IH: "loop_is_climb H (m div 2) ?n node' ps'" for node' ps'
      by (rule less.IH) (use n less.prems in auto)
    have split: "pdirs n m = sdir n m @ pdirs ?n (m div 2)"
      by (rule pdirs_pairUp) (use n less.prems in auto)
    consider (odd) "odd m" | (even) "even m" "m + 1 < n" | (last) "even m" "m + 1 = n"
      using less.prems by linarith
    then show ?thesis
    proof cases
      case last
      then obtain i where i: "m = 2 * i" by (auto elim!: evenE)
      have pos: "0 < i" and nm: "n - 1 = 2 * i" "m div 2 = i" "?n - 1 = i" using i last n by auto
      have eq: "pdirs n m = pdirs ?n i" using split last i by (simp add: sdir_def)
      show ?thesis
      proof (cases "ps = []")
        case True
        with nm pos i show ?thesis by (simp add: loop_is_climb_def)
      next
        case False
        then have "inclusionLoop H m (n - 1) node ps = inclusionLoop H i i node ps"
          using inclusionLoop_promote [OF pos, of H node ps] nm i by simp
        moreover have "inclusion_inputs H m (n - 1) node ps = inclusion_inputs H i i node ps"
          using inclusion_inputs_promote [OF pos, of H node ps] nm i by simp
        ultimately show ?thesis
          using IH [of node ps] unfolding loop_is_climb_def nm eq by simp
      qed
    next
      case odd
      show ?thesis
      proof (cases ps)
        case Nil
        with odd n less.prems show ?thesis by (auto simp: loop_is_climb_def)
      next
        case (Cons p ps')
        have "inclusionLoop H m (n - 1) node ps = inclusionLoop H (m div 2) (?n - 1) (nodeHash H p node) ps'"
          and "inclusion_inputs H m (n - 1) node ps =
            insert (CHR 0x01 # p @ node) (inclusion_inputs H (m div 2) (?n - 1) (nodeHash H p node) ps')"
          using odd Cons unfolding sn [symmetric] by (auto simp: odd_iff_mod_2_eq_one)
        with IH [of "nodeHash H p node" ps'] odd Cons split show ?thesis
          by (auto simp: loop_is_climb_def sdir_def)
      qed
    next
      case even
      show ?thesis
      proof (cases ps)
        case Nil
        with even show ?thesis by (auto simp: loop_is_climb_def)
      next
        case (Cons p ps')
        have "inclusionLoop H m (n - 1) node ps = inclusionLoop H (m div 2) (?n - 1) (nodeHash H node p) ps'"
          and "inclusion_inputs H m (n - 1) node ps =
            insert (CHR 0x01 # node @ p) (inclusion_inputs H (m div 2) (?n - 1) (nodeHash H node p) ps')"
          using even Cons unfolding sn [symmetric] by auto
        with IH [of "nodeHash H node p" ps'] even Cons split show ?thesis
          by (auto simp: loop_is_climb_def sdir_def)
      qed
    qed
  qed
qed

function mth_inputs :: "(bytes \<Rightarrow> bytes) \<Rightarrow> bytes list \<Rightarrow> bytes set" where
  "mth_inputs H xs =
     (if length xs \<le> 1 then {case xs of [] \<Rightarrow> [] | x # _ \<Rightarrow> CHR 0x00 # x}
      else let k = largestPow2Below (length xs)
           in insert (CHR 0x01 # mth H (take k xs) @ mth H (drop k xs))
                (mth_inputs H (take k xs) \<union> mth_inputs H (drop k xs)))"
  by pat_completeness auto
termination
  by (relation "measure (\<lambda>(H, xs). length xs)") (auto simp: largestPow2Below_less)

declare mth_inputs.simps [simp del]

lemma mth_inputs_single [simp]: "mth_inputs H [x] = {CHR 0x00 # x}"
  by (simp add: mth_inputs.simps)

lemma mth_inputs_pair:
  "mth_inputs H [a, b] = {CHR 0x01 # leafHash H a @ leafHash H b, CHR 0x00 # a, CHR 0x00 # b}"
proof -
  have "largestPow2Below (length [a, b]) = 1" by (simp flip: numeral_2_eq_2)
  then show ?thesis by (subst mth_inputs.simps) (auto simp: mth_def)
qed

lemma mth_inputs_split:
  assumes "2 \<le> length xs" and "k = largestPow2Below (length xs)"
  shows "mth_inputs H xs = insert (CHR 0x01 # mth H (take k xs) @ mth H (drop k xs))
                (mth_inputs H (take k xs) \<union> mth_inputs H (drop k xs))"
  using assms by (simp add: mth_inputs.simps [of H xs] Let_def)

lemma length_mth: "\<forall>x. length (H x) = 32 \<Longrightarrow> length (mth H xs) = 32"
proof (cases "2 \<le> length xs")
  case True
  assume "\<forall>x. length (H x) = 32"
  then show ?thesis by (subst mth_split [OF True]) (simp add: nodeHash_def)
next
  case False
  assume "\<forall>x. length (H x) = 32"
  moreover from False have "xs = [] \<or> (\<exists>x. xs = [x])"
    by (cases xs) (auto simp: not_le less_Suc_eq numeral_2_eq_2)
  ultimately show ?thesis by (auto simp: mth_def leafHash_def)
qed

lemma length_climb:
  assumes "\<forall>x. length (H x) = 32" and "length node = 32"
  shows "length (climb H node ds ps) = 32"
  using assms by (induction H node ds ps rule: climb.induct) (auto simp: nodeHash_def)


lemma inj_on_eqD: "inj_on f A \<Longrightarrow> f x = f y \<Longrightarrow> x \<in> A \<Longrightarrow> y \<in> A \<Longrightarrow> x = y"
  by (simp add: inj_on_def)

lemma climb_sound:
  assumes "\<forall>x. length (H x) = 32" and "length ds = length ps" and "xs \<noteq> []"
    and "climb H (leafHash H x) ds ps = mth H xs"
    and "inj_on H Q" and "CHR 0x00 # x \<in> Q" and "climb_inputs H (leafHash H x) ds ps \<subseteq> Q"
    and "mth_inputs H xs \<subseteq> Q"
  shows "\<exists>i. descend (length xs) (rev ds) = Some i \<and> i < length xs \<and> x = xs ! i"
  using assms(2-4,7,8)
proof (induction ds arbitrary: ps xs rule: rev_induct)
  case Nil
  show ?case
  proof (cases "length xs = 1")
    case True
    then obtain y where "xs = [y]" by (auto simp: length_Suc_conv)
    with Nil show ?thesis
      using inj_on_eqD [OF assms(5), of "CHR 0x00 # x" "CHR 0x00 # y"] assms(6)
      by (auto simp: mth_def leafHash_def)
  next
    case False
    with Nil have len: "2 \<le> length xs" by (cases xs) (auto simp: Suc_le_eq)
    with Nil have "H (CHR 0x00 # x) = H (CHR 0x01 # mth H (take (largestPow2Below (length xs)) xs) @
        mth H (drop (largestPow2Below (length xs)) xs))"
      using mth_split [OF len, of H] by (simp add: leafHash_def nodeHash_def)
    with Nil show ?thesis
      using inj_on_eqD [OF assms(5)] assms(6) mth_inputs_split [OF len refl, of H] by blast
  qed
next
  case (snoc d ds)
  from snoc.prems(1) obtain qs q where ps: "ps = qs @ [q]" "length ds = length qs"
    by (cases ps rule: rev_cases) auto
  let ?c = "climb H (leafHash H x) ds qs"
  let ?in = "CHR 0x01 # (if d then q @ ?c else ?c @ q)"
  have cl: "H ?in = mth H xs" and inQ: "?in \<in> Q" "climb_inputs H (leafHash H x) ds qs \<subseteq> Q"
    using snoc.prems(3,4) ps by (auto simp: climb_snoc climb_inputs_snoc nodeHash_def split: if_splits)
  have lc: "length ?c = 32"
    by (rule length_climb [OF assms(1)]) (simp add: leafHash_def assms(1))
  show ?case
  proof (cases "length xs = 1")
    case True
    then obtain y where "xs = [y]" by (auto simp: length_Suc_conv)
    then show ?thesis
      using inj_on_eqD [OF assms(5), of ?in "CHR 0x00 # y"] cl inQ snoc.prems(5)
      by (auto simp: mth_def leafHash_def)
  next
    case False
    define k where "k = largestPow2Below (length xs)"
    have len: "2 \<le> length xs" using False snoc.prems(2) by (cases xs) (auto simp: Suc_le_eq)
    have k: "0 < k" "k < length xs" using largestPow2Below_bounds [OF len] by (auto simp: k_def)
    note inputs = mth_inputs_split [OF len k_def, of H]
    have "H ?in = H (CHR 0x01 # mth H (take k xs) @ mth H (drop k xs))"
      using cl mth_split [OF len, of H] by (simp add: nodeHash_def k_def)
    then have "?in = CHR 0x01 # mth H (take k xs) @ mth H (drop k xs)"
      using inj_on_eqD [OF assms(5)] inQ(1) snoc.prems(5) inputs by blast
    then have part: "?c = mth H (if d then drop k xs else take k xs)"
      using lc length_mth [OF assms(1), of "take k xs"] length_mth [OF assms(1), of "drop k xs"]
      by (auto split: if_splits)
    have "\<exists>i. descend (length (if d then drop k xs else take k xs)) (rev ds) = Some i \<and>
        i < length (if d then drop k xs else take k xs) \<and> x = (if d then drop k xs else take k xs) ! i"
      by (rule snoc.IH [OF ps(2) _ part inQ(2)]) (use k snoc.prems(5) inputs in auto)
    then show ?thesis using k len by (auto simp: k_def [symmetric] min_absorb2)
  qed
qed

lemma accepted_inclusion_leaf:
  assumes "\<forall>x. length (H x) = 32"
    and "leaves \<noteq> []"
    and "verifyInclusion H leaf m (int (length leaves)) pf (merkleRoot H leaves)"
    and "inj_on H (insert (CHR 0x00 # leaf) (mth_inputs H leaves \<union>
           inclusion_inputs H (nat m) (length leaves - 1) (leafHash H leaf) pf))"
  shows "leaf = leaves ! nat m"
proof -
  let ?n = "length leaves" and ?i = "nat m"
  have m: "?i < ?n"
    using assms(3) by (auto simp: verifyInclusion_def split: if_splits)
  have "nat (int ?n - 1) = ?n - 1" by simp
  then have run: "snd (inclusionLoop H ?i (?n - 1) (leafHash H leaf) pf) = 0"
    "fst (inclusionLoop H ?i (?n - 1) (leafHash H leaf) pf) = mth H leaves"
    using assms(3) by (auto simp: verifyInclusion_def merkleRoot_mth split: if_splits prod.splits)
  define e where "e = length pf - length (pdirs ?n ?i)"
  have c: "length (pdirs ?n ?i) \<le> length pf"
    "climb H (leafHash H leaf) (pdirs ?n ?i @ replicate e True) pf = mth H leaves"
    "inclusion_inputs H ?i (?n - 1) (leafHash H leaf) pf =
       climb_inputs H (leafHash H leaf) (pdirs ?n ?i @ replicate e True) pf"
    using inclusionLoop_climb [OF m, of H "leafHash H leaf" pf] run by (auto simp: loop_is_climb_def e_def)
  have "\<exists>i. descend ?n (rev (pdirs ?n ?i @ replicate e True)) = Some i \<and> i < ?n \<and> leaf = leaves ! i"
    by (rule climb_sound [OF assms(1) _ assms(2) c(2) assms(4)]) (use c(1,3) in \<open>auto simp: e_def\<close>)
  then obtain i where i: "descend ?n (replicate e True @ rev (pdirs ?n ?i)) = Some i" "leaf = leaves ! i"
    by auto
  then have "e = 0" using descend_overlong [OF m, of e] by (cases e) auto
  with i descend_pdirs [OF m] show ?thesis by simp
qed

text \<open>
  C6: if \<open>verifyInclusion\<close> accepts a leaf at index \<open>m\<close> against the genuine
  root and size of a log, then the leaf is the log's leaf at that index, whatever the proof, as long
  as the hash has no collision among the inputs hashed on the way.
\<close>

theorem inclusion_sound:
  assumes "\<forall>x. length (H x) = 32"
    and "leaves \<noteq> []"
    and "verifyInclusion H leaf m (int (length leaves)) pf (merkleRoot H leaves)"
    and "inj_on H (insert (CHR 0x00 # leaf) (mth_inputs H leaves \<union>
           inclusion_inputs H (nat m) (length leaves - 1) (leafHash H leaf) pf))"
  shows "leaf = leaves ! nat m"
  by (rule accepted_inclusion_leaf [OF assms])

theorem inclusion_sound_witness:
  "''b'' = [''a'', ''b''] ! 1"
proof -
  have acc: "verifyInclusion pad32 ''b'' 1 (int (length [''a'', ''b''])) [leafHash pad32 ''a'']
      (merkleRoot pad32 [''a'', ''b''])"
    by code_simp
  have "inj_on pad32 (insert (CHR 0x00 # ''b'') (mth_inputs pad32 [''a'', ''b''] \<union>
      inclusion_inputs pad32 (nat 1) (length [''a'', ''b''] - 1) (leafHash pad32 ''b'') [leafHash pad32 ''a'']))"
    by (auto simp: mth_inputs_pair leafHash_def inj_on_def pad32_Cons take_Cons')
  from inclusion_sound [OF _ _ acc this] show ?thesis by simp
qed

text \<open>
  \<open>verifyInclusion\<close> does not stop when the path has reached
  the root of a tree of the claimed size, so the size it is given is not bound to the root: the
  second leaf of any two-leaf log is accepted as the only leaf of a one-leaf tree with that root.
\<close>

theorem inclusion_overlong_accepted:
  "verifyInclusion H y 0 1 [leafHash H x] (merkleRoot H [x, y])"
proof -
  have "merkleRoot H [x, y] = nodeHash H (leafHash H x) (leafHash H y)"
    using mth_split [of "[x, y]" H] by (simp add: merkleRoot_mth mth_def flip: numeral_2_eq_2)
  then show ?thesis by (simp add: verifyInclusion_def)
qed


fun pair_inputs :: "bytes list \<Rightarrow> bytes set" where
  "pair_inputs (a # b # xs) = insert (CHR 0x01 # a @ b) (pair_inputs xs)"
| "pair_inputs xs = {}"

function node_inputs :: "(bytes \<Rightarrow> bytes) \<Rightarrow> bytes list \<Rightarrow> bytes set" where
  "node_inputs H xs =
     (if length xs \<le> 1 then {}
      else let k = largestPow2Below (length xs)
           in insert (CHR 0x01 # mtree (nodeHash H) (take k xs) @ mtree (nodeHash H) (drop k xs))
                (node_inputs H (take k xs) \<union> node_inputs H (drop k xs)))"
  by pat_completeness auto
termination
  by (relation "measure (\<lambda>(H, xs). length xs)") (auto simp: largestPow2Below_less)

declare node_inputs.simps [simp del]

lemma node_inputs_single [simp]: "length xs \<le> 1 \<Longrightarrow> node_inputs H xs = {}"
  by (simp add: node_inputs.simps)

lemma node_inputs_split:
  assumes "2 \<le> length xs" and "k = largestPow2Below (length xs)"
  shows "node_inputs H xs =
    insert (CHR 0x01 # mtree (nodeHash H) (take k xs) @ mtree (nodeHash H) (drop k xs))
      (node_inputs H (take k xs) \<union> node_inputs H (drop k xs))"
  using assms by (simp add: node_inputs.simps [of H xs] Let_def)

lemma pair_inputs_append: "even (length as) \<Longrightarrow> pair_inputs (as @ bs) = pair_inputs as \<union> pair_inputs bs"
  by (induction as rule: pair_inputs.induct) auto

lemma pair_inputs_take_drop: "pair_inputs xs = pair_inputs (take (2 * k) xs) \<union> pair_inputs (drop (2 * k) xs)"
proof (cases "2 * k \<le> length xs")
  case True
  then show ?thesis using pair_inputs_append [of "take (2 * k) xs" "drop (2 * k) xs"] by simp
qed simp

lemma node_inputs_pairUp:
  "2 \<le> length xs \<Longrightarrow> node_inputs H xs = pair_inputs xs \<union> node_inputs H (pairUp (nodeHash H) xs)"
proof (induction "length xs" arbitrary: xs rule: less_induct)
  case less
  let ?N = "nodeHash H"
  show ?case
  proof (cases "length xs = 2")
    case True
    then obtain a b where "xs = [a, b]" by (rule list2E)
    then show ?thesis using node_inputs_split [of xs _ H] by (simp flip: numeral_2_eq_2)
  next
    case False
    then have 3: "3 \<le> length xs" using less.prems by simp
    define k where "k = largestPow2Below ((length xs + 1) div 2)"
    have K: "2 * k = largestPow2Below (length xs)"
      using largestPow2Below_half [OF 3] by (simp add: k_def)
    have b: "0 < k" "2 * k < length xs" using largestPow2Below_bounds [of "length xs"] 3 K by auto
    have tr: "mtree ?N (drop k (pairUp ?N xs)) = mtree ?N (drop (2 * k) xs)"
      "mtree ?N (take k (pairUp ?N xs)) = mtree ?N (take (2 * k) xs)"
      using b 3 mtree_pairUp [of "drop (2 * k) xs" ?N] mtree_pairUp [of "take (2 * k) xs" ?N]
      by (force simp: pairUp_take pairUp_drop)+
    have up: "node_inputs H (pairUp ?N xs) =
        insert (CHR 0x01 # mtree ?N (take k (pairUp ?N xs)) @ mtree ?N (drop k (pairUp ?N xs)))
          (node_inputs H (take k (pairUp ?N xs)) \<union> node_inputs H (drop k (pairUp ?N xs)))"
      by (rule node_inputs_split) (use 3 in \<open>auto simp: k_def\<close>)
    have t: "node_inputs H (take (2 * k) xs) =
        pair_inputs (take (2 * k) xs) \<union> node_inputs H (take k (pairUp ?N xs))"
      using less.hyps [of "take (2 * k) xs"] b by (simp add: pairUp_take)
    have d: "node_inputs H (drop (2 * k) xs) =
        pair_inputs (drop (2 * k) xs) \<union> node_inputs H (drop k (pairUp ?N xs))"
    proof (cases "length (drop (2 * k) xs) = 1")
      case True
      then obtain y where "drop (2 * k) xs = [y]" by (auto simp: length_Suc_conv simp del: length_drop)
      moreover have "length (drop k (pairUp ?N xs)) \<le> 1" using True by simp
      ultimately show ?thesis by simp
    next
      case len: False
      then show ?thesis using less.hyps [of "drop (2 * k) xs"] b by (simp add: pairUp_drop)
    qed
    show ?thesis
      using node_inputs_split [OF _ K, of H] less.prems up tr t d pair_inputs_take_drop [of xs k] by auto
  qed
qed

lemma pairUp_inj:
  assumes "length us = length vs" and "\<forall>x \<in> set us \<union> set vs. length x = 32"
    and "pairUp (nodeHash H) us = pairUp (nodeHash H) vs"
    and "inj_on H Q" and "pair_inputs us \<subseteq> Q" and "pair_inputs vs \<subseteq> Q"
  shows "us = vs"
  using assms
proof (induction us arbitrary: vs rule: pair_inputs.induct)
  case (1 a b us)
  obtain c d ws where vs: "vs = c # d # ws"
    using "1.prems"(1) by (metis length_Cons length_Suc_conv)
  have "H (CHR 0x01 # a @ b) = H (CHR 0x01 # c @ d)" using 1 vs by (simp add: nodeHash_def)
  then have "CHR 0x01 # a @ b = CHR 0x01 # c @ d"
    by (rule inj_on_eqD [OF \<open>inj_on H Q\<close>]) (use "1.prems"(5,6) vs in auto)
  then have "a = c" "b = d" using "1.prems"(2) vs by auto
  moreover have "us = ws" by (rule "1.IH") (use 1 vs in auto)
  ultimately show ?case using vs by simp
qed (auto simp: pairUp_short)

lemma length_pairUp_elems:
  assumes "\<forall>x. length (H x) = 32" and "\<forall>x \<in> set xs. length x = 32"
  shows "\<forall>x \<in> set (pairUp (nodeHash H) xs). length x = 32"
  using assms(2) by (induction xs rule: pair_inputs.induct) (auto simp: nodeHash_def assms(1))

fun consistency_inputs ::
    "(bytes \<Rightarrow> bytes) \<Rightarrow> nat \<Rightarrow> nat \<Rightarrow> bytes \<Rightarrow> bytes \<Rightarrow> bytes list \<Rightarrow> bytes set" where
  "consistency_inputs H fn sn fr sr [] = {}"
| "consistency_inputs H fn sn fr sr (c # cs) =
     (if sn = 0 then {}
      else if fn mod 2 = 1 \<or> fn = sn
      then (case shiftEven fn sn of
              (fn', sn') \<Rightarrow> insert (CHR 0x01 # c @ fr) (insert (CHR 0x01 # c @ sr)
                (consistency_inputs H (fn' div 2) (sn' div 2) (nodeHash H c fr) (nodeHash H c sr) cs)))
      else insert (CHR 0x01 # sr @ c)
             (consistency_inputs H (fn div 2) (sn div 2) fr (nodeHash H sr c) cs))"

lemma consistency_inputs_promote:
  "0 < i \<Longrightarrow> consistency_inputs H (2 * i) (2 * i) fr sr ps = consistency_inputs H i i fr sr ps"
  by (cases ps) (auto simp: shiftEven_double)

lemma even_take_pairUp:
  assumes "\<forall>x \<in> set us \<union> set xs. length x = 32"
    and "take j (pairUp (nodeHash H) us) = take j (pairUp (nodeHash H) xs)"
    and "2 * j \<le> length us" and "2 * j \<le> length xs"
    and "inj_on H Q" and "pair_inputs us \<subseteq> Q" and "pair_inputs xs \<subseteq> Q"
  shows "take (2 * j) us = take (2 * j) xs"
proof (rule pairUp_inj [OF _ _ _ assms(5)])
  show "\<forall>x \<in> set (take (2 * j) us) \<union> set (take (2 * j) xs). length x = 32"
    using assms(1) by (auto dest: in_set_takeD)
  show "pair_inputs (take (2 * j) us) \<subseteq> Q" "pair_inputs (take (2 * j) xs) \<subseteq> Q"
    using assms(6,7) pair_inputs_take_drop by blast+
qed (use assms in \<open>auto simp: pairUp_take\<close>)

lemma pair_inputs_nth: "2 * i + 1 < length xs \<Longrightarrow> CHR 0x01 # xs ! (2 * i) @ xs ! (2 * i + 1) \<in> pair_inputs xs"
proof (induction xs arbitrary: i rule: pair_inputs.induct)
  case (1 a b xs)
  then show ?case by (cases i) auto
qed auto


definition agrees_at :: "bytes list \<Rightarrow> bytes list \<Rightarrow> nat \<Rightarrow> bytes \<Rightarrow> bytes \<Rightarrow> bool" where
  "agrees_at us xs fn fr sr \<longleftrightarrow>
     take fn us = take fn xs \<and> (length sr = 32 \<longrightarrow> sr = xs ! fn \<and> fr = us ! fn) \<and>
     (fr = sr \<longrightarrow> us ! fn = xs ! fn)"

lemma append_32_eqD:
  assumes "c @ (f::bytes) = u @ v" "c @ s = x @ y" "length u = 32" "length v = 32" "length x = 32"
    "length y = 32" "f = s \<or> length s = 32"
  shows "u = x \<and> (length s = 32 \<longrightarrow> s = y \<and> f = v) \<and> (f = s \<longrightarrow> v = y)"
proof (cases "length s = 32")
  case True
  then have cx: "c = x \<and> s = y" by (intro append_eq_split_suffix) (use assms in simp_all)
  then have "c = u \<and> f = v" by (intro append_eq_split) (use assms in simp_all)
  with cx show ?thesis by simp
next
  case False
  then have "u @ v = x @ y" using assms(1,2,7) by simp
  then have "u = x \<and> v = y" by (intro append_eq_split) (use assms in simp_all)
  with False show ?thesis by simp
qed

lemma consistencyLoop_sound:
  assumes H: "\<forall>x. length (H x) = 32" and Q: "inj_on H Q"
  shows "length us = Suc fn \<Longrightarrow> length xs = Suc sn \<Longrightarrow> fn \<le> sn \<Longrightarrow>
    \<forall>x \<in> set us \<union> set xs. length x = 32 \<Longrightarrow>
    consistencyLoop H fn sn fr sr ps = Some (mtree (nodeHash H) us, mtree (nodeHash H) xs, 0) \<Longrightarrow>
    fr = sr \<or> length sr = 32 \<Longrightarrow>
    node_inputs H us \<union> node_inputs H xs \<union> consistency_inputs H fn sn fr sr ps \<subseteq> Q \<Longrightarrow>
    agrees_at us xs fn fr sr"
proof (induction sn arbitrary: fn us xs fr sr ps rule: less_induct)
  case (less sn fn us xs fr sr ps)
  let ?N = "nodeHash H"
  have nl: "length (?N a b) = 32" for a b using H by (simp add: nodeHash_def)
  show ?case
  proof (cases "sn = 0")
    case True
    then have "ps = []" using less.prems(5) by (cases ps) auto
    moreover obtain u x where "us = [u]" "xs = [x]" using True less.prems by (auto simp: length_Suc_conv)
    ultimately show ?thesis using True less.prems by (simp add: agrees_at_def)
  next
    case False
    let ?us = "pairUp ?N us" and ?xs = "pairUp ?N xs" and ?j = "fn div 2"
    have el: "\<forall>x \<in> set ?us \<union> set ?xs. length x = 32"
      using length_pairUp_elems [OF H, of us] length_pairUp_elems [OF H, of xs] less.prems(4) by auto
    have ne: "us \<noteq> []" "xs \<noteq> []" using less.prems by auto
    have mt: "mtree ?N ?us = mtree ?N us" "mtree ?N ?xs = mtree ?N xs" using mtree_pairUp ne by auto
    have nx: "node_inputs H xs = pair_inputs xs \<union> node_inputs H ?xs"
      by (rule node_inputs_pairUp) (use less.prems False in simp)
    have nu: "node_inputs H us = pair_inputs us \<union> node_inputs H ?us"
    proof (cases "fn = 0")
      case True
      then show ?thesis using less.prems by (auto simp: length_Suc_conv)
    qed (rule node_inputs_pairUp, use less.prems in simp)
    have pin: "pair_inputs us \<subseteq> Q" "pair_inputs xs \<subseteq> Q" using less.prems(7) nx nu by auto
    have IH: "agrees_at ?us ?xs ?j fr' sr'"
      if "consistencyLoop H ?j (sn div 2) fr' sr' ps' = Some (mtree ?N us, mtree ?N xs, 0)"
        and "fr' = sr' \<or> length sr' = 32" and "consistency_inputs H ?j (sn div 2) fr' sr' ps' \<subseteq> Q"
      for fr' sr' ps'
      by (rule less.IH) (use that False less.prems mt el nx nu in \<open>auto simp: div_le_mono\<close>)
    have tk: "take (2 * ?j) us = take (2 * ?j) xs" if "take ?j ?us = take ?j ?xs"
      by (rule even_take_pairUp [OF less.prems(4) that _ _ Q pin]) (use less.prems in auto)
    consider (odd) "odd fn" | (last) "even fn" "fn = sn" | (even) "even fn" "fn \<noteq> sn" by blast
    then show ?thesis
    proof cases
      case odd
      have "ps \<noteq> []" using less.prems(5) False by auto
      then obtain c cs where ps: "ps = c # cs" by (cases ps) auto
      have "agrees_at ?us ?xs ?j (?N c fr) (?N c sr)"
        by (rule IH [of _ _ cs]) (use odd ps False less.prems(5,7) nl in \<open>auto simp: odd_iff_mod_2_eq_one\<close>)
      then have a: "take ?j ?us = take ?j ?xs" "?N c sr = ?xs ! ?j" "?N c fr = ?us ! ?j"
        using nl by (auto simp: agrees_at_def)
      have fn: "fn = 2 * ?j + 1" using odd by presburger
      have nth: "?xs ! ?j = ?N (xs ! (2 * ?j)) (xs ! fn)" "?us ! ?j = ?N (us ! (2 * ?j)) (us ! fn)"
        using pairUp_nth [of ?j xs ?N] pairUp_nth [of ?j us ?N] fn less.prems(1-3) by auto
      have q: "CHR 0x01 # xs ! (2 * ?j) @ xs ! fn \<in> Q" "CHR 0x01 # us ! (2 * ?j) @ us ! fn \<in> Q"
        "CHR 0x01 # c @ sr \<in> Q" "CHR 0x01 # c @ fr \<in> Q"
        using pair_inputs_nth [of ?j xs] pair_inputs_nth [of ?j us] fn less.prems(1-3,7) pin ps odd False
        by (auto simp: odd_iff_mod_2_eq_one)
      have "c @ sr = xs ! (2 * ?j) @ xs ! fn" "c @ fr = us ! (2 * ?j) @ us ! fn"
        using inj_on_eqD [OF Q _ q(3,1)] inj_on_eqD [OF Q _ q(4,2)] a nth by (auto simp: nodeHash_def)
      then have b: "us ! (2 * ?j) = xs ! (2 * ?j) \<and> (length sr = 32 \<longrightarrow> sr = xs ! fn \<and> fr = us ! fn) \<and>
          (fr = sr \<longrightarrow> us ! fn = xs ! fn)"
        by (intro append_32_eqD) (use less.prems(1-4,6) fn in auto)
      have "take (Suc (2 * ?j)) us = take (Suc (2 * ?j)) xs"
        using tk [OF a(1)] b fn less.prems(1-3) by (subst (1 2) take_Suc_snoc) auto
      then have "take fn us = take fn xs" using fn by (simp only: Suc_eq_plus1)
      with b show ?thesis by (simp add: agrees_at_def)
    next
      case last
      have "ps \<noteq> []" using less.prems(5) False by auto
      obtain i where i: "fn = 2 * i" using last by (auto elim!: evenE)
      have j: "?j = i" "sn div 2 = i" "0 < i" "sn = 2 * i" using last i False by auto
      have "consistencyLoop H ?j (sn div 2) fr sr ps = consistencyLoop H fn sn fr sr ps"
        using consistencyLoop_promote [OF j(3) \<open>ps \<noteq> []\<close>, of H fr sr] by (simp add: j(4) i)
      moreover have "consistency_inputs H ?j (sn div 2) fr sr ps = consistency_inputs H fn sn fr sr ps"
        using consistency_inputs_promote [OF j(3), of H fr sr ps] by (simp add: j(4) i)
      ultimately have "agrees_at ?us ?xs ?j fr sr"
        by (intro IH [of _ _ ps]) (use less.prems(5-7) in auto)
      moreover have "?xs ! ?j = xs ! fn" "?us ! ?j = us ! fn"
        using pairUp_nth_last [of xs i ?N] pairUp_nth_last [of us i ?N] less.prems(1,2) last i j by auto
      ultimately show ?thesis using tk i j by (auto simp: agrees_at_def)
    next
      case even
      have "ps \<noteq> []" using less.prems(5) False by auto
      then obtain c cs where ps: "ps = c # cs" by (cases ps) auto
      have "agrees_at ?us ?xs ?j fr (?N sr c)"
        by (rule IH [of _ _ cs]) (use even ps False less.prems(5,7) nl in auto)
      then have a: "take ?j ?us = take ?j ?xs" "?N sr c = ?xs ! ?j" "fr = ?us ! ?j"
        using nl by (auto simp: agrees_at_def)
      obtain i where i: "fn = 2 * i" using even by (auto elim!: evenE)
      have nth: "?xs ! ?j = ?N (xs ! fn) (xs ! (fn + 1))" "?us ! ?j = us ! fn"
        using pairUp_nth [of i xs ?N] pairUp_nth_last [of us i ?N] i less.prems(1-3) even by auto
      have q: "CHR 0x01 # xs ! fn @ xs ! (fn + 1) \<in> Q" "CHR 0x01 # sr @ c \<in> Q"
        using pair_inputs_nth [of i xs] i less.prems(1-3,7) pin ps even False by auto
      have "sr @ c = xs ! fn @ xs ! (fn + 1)"
        using inj_on_eqD [OF Q _ q(2,1)] a nth by (simp add: nodeHash_def)
      moreover have "length (xs ! fn) = 32" "length (us ! fn) = 32" using less.prems(1-4) by auto
      ultimately have "length sr = 32 \<longrightarrow> sr = xs ! fn" by auto
      then show ?thesis using tk [OF a(1)] i a(3) nth \<open>length (us ! fn) = 32\<close> by (auto simp: agrees_at_def)
    qed
  qed
qed


lemma mtree_inj:
  assumes H: "\<forall>x. length (H x) = 32" and Q: "inj_on H Q"
  shows "length us = length xs \<Longrightarrow> us \<noteq> [] \<Longrightarrow> \<forall>x \<in> set us \<union> set xs. length x = 32 \<Longrightarrow>
    mtree (nodeHash H) us = mtree (nodeHash H) xs \<Longrightarrow>
    node_inputs H us \<union> node_inputs H xs \<subseteq> Q \<Longrightarrow> us = xs"
proof (induction "length us" arbitrary: us xs rule: less_induct)
  case less
  show ?case
  proof (cases "length us = 1")
    case True
    then obtain u x where "us = [u]" "xs = [x]"
      using less.prems(1) by (metis One_nat_def length_0_conv length_Suc_conv)
    with less.prems show ?thesis by simp
  next
    case False
    moreover have "0 < length us" using less.prems(2) by simp
    ultimately have len: "2 \<le> length us" by linarith
    have ne: "xs \<noteq> []" "2 \<le> length xs" using less.prems len by auto
    have "pairUp (nodeHash H) us = pairUp (nodeHash H) xs"
    proof (rule less.hyps)
      show "\<forall>x \<in> set (pairUp (nodeHash H) us) \<union> set (pairUp (nodeHash H) xs). length x = 32"
        using length_pairUp_elems [OF H] less.prems(3) by blast
      show "mtree (nodeHash H) (pairUp (nodeHash H) us) = mtree (nodeHash H) (pairUp (nodeHash H) xs)"
        using mtree_pairUp [of us] mtree_pairUp [of xs] less.prems(2,4) ne by simp
      show "node_inputs H (pairUp (nodeHash H) us) \<union> node_inputs H (pairUp (nodeHash H) xs) \<subseteq> Q"
        using node_inputs_pairUp [OF len, of H] node_inputs_pairUp [OF ne(2), of H] less.prems(5) by blast
      show "pairUp (nodeHash H) us \<noteq> []" by (rule pairUp_not_Nil) (rule less.prems(2))
      show "length (pairUp (nodeHash H) us) = length (pairUp (nodeHash H) xs)"
        using less.prems(1) by simp
      show "length (pairUp (nodeHash H) us) < length us" using len by simp
    qed
    then show ?thesis
      by (rule pairUp_inj [OF less.prems(1,3) _ Q])
        (use node_inputs_pairUp [OF len, of H] node_inputs_pairUp [OF ne(2), of H] less.prems(5) in auto)
  qed
qed

lemma mth_inputs_nodes:
  "xs \<noteq> [] \<Longrightarrow> mth_inputs H xs = (#) (CHR 0x00) ` set xs \<union> node_inputs H (map (leafHash H) xs)"
proof (induction "length xs" arbitrary: xs rule: less_induct)
  case less
  show ?case
  proof (cases "length xs = 1")
    case True
    then show ?thesis by (auto simp: length_Suc_conv)
  next
    case False
    then have len: "2 \<le> length xs" using less.prems by (cases xs) (auto simp: Suc_le_eq)
    define k where "k = largestPow2Below (length xs)"
    have b: "0 < k" "k < length xs" using largestPow2Below_bounds [OF len] by (auto simp: k_def)
    have "set xs = set (take k xs) \<union> set (drop k xs)" by (metis append_take_drop_id set_append)
    moreover have "mth H (take k xs) = mtree (nodeHash H) (take k (map (leafHash H) xs))"
      "mth H (drop k xs) = mtree (nodeHash H) (drop k (map (leafHash H) xs))"
      using b by (auto simp: mth_def take_map drop_map)
    moreover have "mth_inputs H (take k xs) =
        (#) (CHR 0x00) ` set (take k xs) \<union> node_inputs H (take k (map (leafHash H) xs))"
      "mth_inputs H (drop k xs) =
        (#) (CHR 0x00) ` set (drop k xs) \<union> node_inputs H (drop k (map (leafHash H) xs))"
      using less.hyps [of "take k xs"] less.hyps [of "drop k xs"] b less.prems
      by (simp_all add: take_map drop_map)
    ultimately show ?thesis
      using mth_inputs_split [OF len k_def, of H] node_inputs_split [of "map (leafHash H) xs" k H] len k_def
      by auto
  qed
qed

lemma map_leafHash_inj:
  assumes "inj_on H Q" and "(#) (CHR 0x00) ` set us \<subseteq> Q" and "(#) (CHR 0x00) ` set vs \<subseteq> Q"
    and "map (leafHash H) us = map (leafHash H) vs"
  shows "us = vs"
  using assms(4)
proof (rule map_inj_on)
  show "inj_on (leafHash H) (set us \<union> set vs)"
    using assms(1-3) unfolding inj_on_def leafHash_def by (metis UnE image_subset_iff list.inject)
qed

text \<open>The inputs hashed when a consistency proof is verified.\<close>

definition verify_consistency_inputs ::
    "(bytes \<Rightarrow> bytes) \<Rightarrow> int \<Rightarrow> int \<Rightarrow> bytes list \<Rightarrow> bytes \<Rightarrow> bytes set" where
  "verify_consistency_inputs H m n pf oldRoot =
     (case (if isPow2 m then oldRoot # pf else pf) of
        [] \<Rightarrow> {}
      | p0 # rest \<Rightarrow>
          (case shiftOdd (nat (m - 1)) (nat (n - 1)) of
             (fn, sn) \<Rightarrow> consistency_inputs H fn sn p0 p0 rest))"

lemma consistency_sound_nodes:
  assumes H: "\<forall>x. length (H x) = 32" and Q: "inj_on H Q"
  shows "0 < length us \<Longrightarrow> length us \<le> length xs \<Longrightarrow> \<forall>x \<in> set us \<union> set xs. length x = 32 \<Longrightarrow>
    shiftOdd (length us - 1) (length xs - 1) = (fn, sn) \<Longrightarrow>
    consistencyLoop H fn sn p0 p0 rest = Some (mtree (nodeHash H) us, mtree (nodeHash H) xs, 0) \<Longrightarrow>
    node_inputs H us \<union> node_inputs H xs \<union> consistency_inputs H fn sn p0 p0 rest \<subseteq> Q \<Longrightarrow>
    us = take (length us) xs"
proof (induction "length us" arbitrary: us xs rule: less_induct)
  case less
  let ?N = "nodeHash H"
  show ?case
  proof (cases "even (length us)")
    case False
    then have f: "fn = length us - 1" "sn = length xs - 1" using less.prems(1,4) by auto
    have "0 < length xs" using less.prems(1,2) by linarith
    then have "agrees_at us xs fn p0 p0"
      by (intro consistencyLoop_sound [OF H Q]) (use less.prems f in auto)
    then have "take fn us = take fn xs" "us ! fn = xs ! fn" by (auto simp: agrees_at_def)
    moreover have "length us = Suc fn" "fn < length xs" using f less.prems(1,2) by linarith+
    ultimately show ?thesis using list_eq_snoc [of us fn] by (simp add: take_Suc_snoc)
  next
    case True
    then obtain i where i: "length us = 2 * i" "0 < i" using less.prems(1) by (auto elim!: evenE)
    let ?us = "pairUp ?N us" and ?xs = "pairUp ?N xs"
    have ne: "us \<noteq> []" "xs \<noteq> []" "2 \<le> length us" "2 \<le> length xs" using i less.prems by auto
    have in_eq: "node_inputs H us = pair_inputs us \<union> node_inputs H ?us"
      "node_inputs H xs = pair_inputs xs \<union> node_inputs H ?xs"
      using node_inputs_pairUp ne by auto
    have "?us = take (length ?us) ?xs"
    proof (rule less.hyps)
      show "shiftOdd (length ?us - 1) (length ?xs - 1) = (fn, sn)"
      proof -
        have "(length xs - 1) div 2 = length ?xs - 1" "length ?us = i" using i ne(4) by auto
        with shiftOdd_step [OF i(2), of "length xs - 1"] less.prems(4) i show ?thesis by simp
      qed
      show "\<forall>x \<in> set ?us \<union> set ?xs. length x = 32"
        using length_pairUp_elems [OF H] less.prems(3) by blast
      show "consistencyLoop H fn sn p0 p0 rest = Some (mtree ?N ?us, mtree ?N ?xs, 0)"
        using mtree_pairUp [OF ne(1), of ?N] mtree_pairUp [OF ne(2), of ?N] less.prems(5) by simp
      show "node_inputs H ?us \<union> node_inputs H ?xs \<union> consistency_inputs H fn sn p0 p0 rest \<subseteq> Q"
        using in_eq less.prems(6) by blast
    qed (use i less.prems in auto)
    then have "take i ?us = take i ?xs" using i by simp
    then have "take (2 * i) us = take (2 * i) xs"
      by (rule even_take_pairUp [OF less.prems(3) _ _ _ Q]) (use in_eq less.prems(2,6) i in auto)
    then show ?thesis using i by simp
  qed
qed

lemma accepted_consistency_prefix:
  assumes H: "\<forall>x. length (H x) = 32"
    and old: "oldLeaves \<noteq> []"
    and acc: "verifyConsistency H (int (length oldLeaves)) (int (length newLeaves)) pf
                (merkleRoot H oldLeaves) (merkleRoot H newLeaves)"
    and inj: "inj_on H (mth_inputs H oldLeaves \<union> mth_inputs H newLeaves \<union>
                verify_consistency_inputs H (int (length oldLeaves)) (int (length newLeaves)) pf
                  (merkleRoot H oldLeaves))" (is "inj_on H ?Q")
  shows "oldLeaves = take (length oldLeaves) newLeaves"
proof -
  let ?us = "map (leafHash H) oldLeaves" and ?xs = "map (leafHash H) newLeaves" and ?N = "nodeHash H"
  have le: "length oldLeaves \<le> length newLeaves"
    using acc by (auto simp: verifyConsistency_def split: if_splits)
  then have new: "newLeaves \<noteq> []" using old by auto
  have r: "merkleRoot H oldLeaves = mtree ?N ?us" "merkleRoot H newLeaves = mtree ?N ?xs"
    using old new by (auto simp: merkleRoot_mth mth_def)
  have el: "\<forall>x \<in> set ?us \<union> set ?xs. length x = 32" using H by (auto simp: leafHash_def)
  have nodes: "node_inputs H ?us \<subseteq> ?Q" "node_inputs H ?xs \<subseteq> ?Q"
      "(#) (CHR 0x00) ` set oldLeaves \<subseteq> ?Q" "(#) (CHR 0x00) ` set newLeaves \<subseteq> ?Q"
    using mth_inputs_nodes [OF old, of H] mth_inputs_nodes [OF new, of H] by auto
  have "?us = take (length ?us) ?xs"
  proof (cases "length oldLeaves = length newLeaves")
    case True
    then have "mtree ?N ?us = mtree ?N ?xs" using acc r by (auto simp: verifyConsistency_def split: if_splits)
    then have "?us = ?xs" using mtree_inj [OF H inj, of ?us ?xs] True old el nodes by auto
    then show ?thesis by (metis take_all order_refl)
  next
    case False
    let ?m = "int (length oldLeaves)" and ?n = "int (length newLeaves)"
    let ?pr = "if isPow2 ?m then merkleRoot H oldLeaves # pf else pf"
    have nn: "nat (?m - 1) = length ?us - 1" "nat (?n - 1) = length ?xs - 1" by auto
    obtain p0 rest where pr: "?pr = p0 # rest"
      using acc False by (cases ?pr) (auto simp: verifyConsistency_def split: if_splits)
    obtain fn sn where sh: "shiftOdd (length ?us - 1) (length ?xs - 1) = (fn, sn)" by fastforce
    have run: "consistencyLoop H fn sn p0 p0 rest = Some (mtree ?N ?us, mtree ?N ?xs, 0)"
      using acc False old unfolding verifyConsistency_def pr nn sh
      by (auto simp: r split: if_splits option.splits)
    have inp: "consistency_inputs H fn sn p0 p0 rest \<subseteq> ?Q"
      unfolding verify_consistency_inputs_def pr nn sh by auto
    show ?thesis
      by (rule consistency_sound_nodes [OF H inj _ _ el sh run]) (use old le nodes inp in auto)
  qed
  then have eq: "map (leafHash H) oldLeaves = map (leafHash H) (take (length oldLeaves) newLeaves)"
    by (simp add: take_map)
  show ?thesis
    by (rule map_leafHash_inj [OF inj nodes(3) _ eq]) (use nodes(4) in \<open>auto dest: in_set_takeD\<close>)
qed

text \<open>
  C5: if \<open>verifyConsistency\<close> accepts any proof between the genuine roots of
  two logs, the older log is a prefix of the newer one (append-only growth), as long as the hash has
  no collision among the inputs hashed on the way.
\<close>

theorem consistency_sound:
  assumes H: "\<forall>x. length (H x) = 32"
    and old: "oldLeaves \<noteq> []"
    and acc: "verifyConsistency H (int (length oldLeaves)) (int (length newLeaves)) pf
                (merkleRoot H oldLeaves) (merkleRoot H newLeaves)"
    and inj: "inj_on H (mth_inputs H oldLeaves \<union> mth_inputs H newLeaves \<union>
                verify_consistency_inputs H (int (length oldLeaves)) (int (length newLeaves)) pf
                  (merkleRoot H oldLeaves))" 
  shows "oldLeaves = take (length oldLeaves) newLeaves"
  by (rule accepted_consistency_prefix [OF assms])

theorem consistency_sound_witness:
  "[''a''] = take (length [''a'']) [''a'', ''b'']"
proof -
  let ?pf = "[leafHash pad32 ''b'']"
  have acc: "verifyConsistency pad32 (int (length [''a''])) (int (length [''a'', ''b''])) ?pf
      (merkleRoot pad32 [''a'']) (merkleRoot pad32 [''a'', ''b''])"
    by code_simp
  have "inj_on pad32 (mth_inputs pad32 [''a''] \<union> mth_inputs pad32 [''a'', ''b''] \<union>
      verify_consistency_inputs pad32 (int (length [''a''])) (int (length [''a'', ''b''])) ?pf
        (merkleRoot pad32 [''a'']))"
    by (auto simp: mth_inputs_pair leafHash_def inj_on_def pad32_Cons take_Cons' merkleRoot_mth mth_def
        verify_consistency_inputs_def isPow2_def)
  from consistency_sound [OF _ _ acc this] show ?thesis by simp
qed

end
