(* ===== verification/GoLib.thy ===== *)
theory GoLib
  imports Prelude
begin

text \<open>
  The functions of Go's standard library that the modelled code calls, on byte strings:
  \<open>encoding/hex\<close>, decimal formatting of \<open>strconv\<close> and big-endian lengths of \<open>encoding/binary\<close>,
  string functions of \<open>strings\<close>. Round trips and injectivity are proved here once.
\<close>

section \<open>encoding/hex\<close>

definition hexDigits :: string where
  "hexDigits = ''0123456789abcdef''"

definition hexByte :: "char \<Rightarrow> string" where
  "hexByte c = (let n = of_char c :: nat in [hexDigits ! (n div 16), hexDigits ! (n mod 16)])"

definition hexEncode :: "bytes \<Rightarrow> string" where
  "hexEncode b = concat (map hexByte b)"

definition hexNibble :: "char \<Rightarrow> nat option" where
  "hexNibble c =
     (let n = of_char c :: nat
      in if 48 \<le> n \<and> n \<le> 57 then Some (n - 48)
         else if 97 \<le> n \<and> n \<le> 102 then Some (n - 97 + 10)
         else if 65 \<le> n \<and> n \<le> 70 then Some (n - 65 + 10)
         else None)"

text \<open>
  \<open>hex.DecodeString\<close> returns the bytes decoded before the first error, together with the error;
  the flag says that there was none.
\<close>

fun hexDecode :: "string \<Rightarrow> bytes \<times> bool" where
  "hexDecode [] = ([], True)"
| "hexDecode [c] = ([], False)"
| "hexDecode (c # d # cs) =
     (case (hexNibble c, hexNibble d) of
        (Some a, Some b) \<Rightarrow> (case hexDecode cs of (bs, ok) \<Rightarrow> (char_of (16 * a + b) # bs, ok))
      | _ \<Rightarrow> ([], False))"

lemma hexNibble_digit: "n < 16 \<Longrightarrow> hexNibble (hexDigits ! n) = Some n"
proof -
  have "\<forall>n \<in> {0..<16}. hexNibble (hexDigits ! n) = Some n"
    by (simp add: hexDigits_def hexNibble_def atLeastLessThan_nat_numeral del: One_nat_def)
  then show "n < 16 \<Longrightarrow> hexNibble (hexDigits ! n) = Some n" by simp
qed

lemma char_of_nibbles [simp]: "char_of (16 * (of_char c div 16) + of_char c mod 16 :: nat) = c"
  by simp

lemma of_char_div16: "(of_char c :: nat) div 16 < 16"
proof -
  have "(of_char c :: nat) < 256" by (rule nat_of_char_less_256)
  then show ?thesis by linarith
qed

lemma hexDecode_hexByte:
  "hexDecode (hexByte c @ cs) = (case hexDecode cs of (bs, ok) \<Rightarrow> (c # bs, ok))"
  by (simp add: hexByte_def Let_def hexNibble_digit of_char_div16)

lemma hexDecode_hexEncode [simp]: "hexDecode (hexEncode b) = (b, True)"
  by (induction b) (auto simp: hexEncode_def hexDecode_hexByte)

lemma hexEncode_inj [simp]: "hexEncode a = hexEncode b \<longleftrightarrow> a = b"
  by (metis hexDecode_hexEncode prod.inject)

lemma length_hexEncode [simp]: "length (hexEncode b) = 2 * length b"
  by (induction b) (auto simp: hexEncode_def hexByte_def Let_def)

lemma hexEncode_eq_Nil [simp]: "hexEncode b = [] \<longleftrightarrow> b = []"
  by (cases b) (auto simp: hexEncode_def hexByte_def Let_def)

section \<open>strconv: decimal integers\<close>

definition digitChar :: "nat \<Rightarrow> char" where
  "digitChar n = char_of (48 + n)"

fun decNat :: "nat \<Rightarrow> string" where
  "decNat n = (if n < 10 then [digitChar n] else decNat (n div 10) @ [digitChar (n mod 10)])"

declare decNat.simps [simp del]

definition formatInt :: "int \<Rightarrow> string" where
  "formatInt i = (if i < 0 then CHR ''-'' # decNat (nat (- i)) else decNat (nat i))"

definition undigit :: "char \<Rightarrow> nat" where
  "undigit c = of_char c - 48"

definition decValue :: "string \<Rightarrow> nat" where
  "decValue s = foldl (\<lambda>v c. 10 * v + undigit c) 0 s"

lemma of_char_digitChar: "n < 10 \<Longrightarrow> of_char (digitChar n) = (48 + n :: nat)"
  by (simp add: digitChar_def)

lemma undigit_digitChar [simp]: "n < 10 \<Longrightarrow> undigit (digitChar n) = n"
  by (simp add: undigit_def of_char_digitChar)

lemma decValue_decNat [simp]: "decValue (decNat n) = n"
proof (induction n rule: decNat.induct)
  case (1 n)
  then show ?case by (subst decNat.simps) (auto simp: decValue_def)
qed

lemma decNat_inj [simp]: "decNat m = decNat n \<longleftrightarrow> m = n"
  by (metis decValue_decNat)

lemma decNat_digits: "c \<in> set (decNat n) \<Longrightarrow> \<exists>d < 10. c = digitChar d"
proof (induction n rule: decNat.induct)
  case (1 n)
  consider "n < 10" "c = digitChar n" | "\<not> n < 10" "c \<in> set (decNat (n div 10))"
    | "c = digitChar (n mod 10)"
    using "1.prems" by (subst (asm) decNat.simps) (auto split: if_splits)
  then show ?case
  proof cases
    case 3
    then show ?thesis by (intro exI [of _ "n mod 10"]) simp
  qed (use "1.IH" in auto)
qed

lemma digitChar_neq_minus: "d < 10 \<Longrightarrow> digitChar d \<noteq> CHR ''-''"
  using of_char_digitChar [of d] by (auto dest: arg_cong [where f = "of_char :: char \<Rightarrow> nat"])

lemma decNat_not_Nil [simp]: "decNat n \<noteq> []"
  by (subst decNat.simps) simp

lemma hd_decNat: "hd (decNat n) \<noteq> CHR ''-''"
proof -
  have "hd (decNat n) \<in> set (decNat n)" by simp
  then obtain d where "d < 10" "hd (decNat n) = digitChar d" using decNat_digits by blast
  then show ?thesis using digitChar_neq_minus by simp
qed

lemma sint_inject: "sint (a :: 'a :: len word) = sint b \<longleftrightarrow> a = b"
  by (metis of_int_sint scast_id)

lemma formatInt_not_Nil [simp]: "formatInt i \<noteq> []"
  by (simp add: formatInt_def)

lemma formatInt_inj [simp]: "formatInt i = formatInt j \<longleftrightarrow> i = j"
proof
  assume "formatInt i = formatInt j"
  then show "i = j"
    using hd_decNat [of "nat i"] hd_decNat [of "nat j"]
    by (auto simp: formatInt_def nat_eq_iff split: if_splits) (metis list.sel(1))+
qed simp

section \<open>encoding/binary: four-byte big-endian lengths\<close>

definition beByte :: "nat \<Rightarrow> char" where
  "beByte n = char_of (n mod 256)"

definition putUint32 :: "nat \<Rightarrow> bytes" where
  "putUint32 n =
     [beByte (n div 16777216), beByte (n div 65536), beByte (n div 256), beByte n]"

definition getUint32 :: "bytes \<Rightarrow> nat" where
  "getUint32 b = foldl (\<lambda>v c. 256 * v + of_char c) 0 b"

lemma of_char_beByte [simp]: "of_char (beByte n) = (n mod 256 :: nat)"
  by (simp add: beByte_def)

lemma length_putUint32 [simp]: "length (putUint32 n) = 4"
  by (simp add: putUint32_def)

lemma mod_div_256: "256 * (n div (256 * k) mod m) + n div k mod 256 = n div k mod (256 * m)" for n k m :: nat
  using mod_mult2_eq [of "n div k" 256 m] by (simp add: div_mult2_eq [symmetric] mult.commute)

lemma getUint32_putUint32: "n < 2 ^ 32 \<Longrightarrow> getUint32 (putUint32 n) = n"
proof -
  assume n: "n < 2 ^ 32"
  have "getUint32 (putUint32 n) =
      256 * (256 * (256 * (n div 16777216 mod 256) + n div 65536 mod 256) + n div 256 mod 256) + n mod 256"
    by (simp add: getUint32_def putUint32_def)
  also have "\<dots> = n mod 4294967296"
    using mod_div_256 [of n 65536 256] mod_div_256 [of n 256 65536] mod_div_256 [of n 1 16777216] by simp
  finally show ?thesis using n by simp
qed

section \<open>strings\<close>

fun joinWith :: "string \<Rightarrow> string list \<Rightarrow> string" where
  "joinWith sep [] = []"
| "joinWith sep [x] = x"
| "joinWith sep (x # y # xs) = x @ sep @ joinWith sep (y # xs)"

fun splitOn :: "char \<Rightarrow> string \<Rightarrow> string list" where
  "splitOn sep [] = [[]]"
| "splitOn sep (c # cs) =
     (if c = sep then [] # splitOn sep cs
      else case splitOn sep cs of
             [] \<Rightarrow> [[c]]
           | w # ws \<Rightarrow> (c # w) # ws)"

lemma splitOn_not_Nil [simp]: "splitOn sep s \<noteq> []"
  by (induction s) (auto split: list.splits)

lemma splitOn_no_sep: "sep \<notin> set s \<Longrightarrow> splitOn sep s = [s]"
  by (induction s) auto

lemma splitOn_append_sep:
  "sep \<notin> set a \<Longrightarrow> splitOn sep (a @ sep # b) = a # splitOn sep b"
  by (induction a) auto

lemma splitOn_joinWith:
  "xs \<noteq> [] \<Longrightarrow> \<forall>x \<in> set xs. sep \<notin> set x \<Longrightarrow> splitOn sep (joinWith [sep] xs) = xs"
proof (induction "[sep]" xs rule: joinWith.induct)
  case (3 x y xs)
  then show ?case by (simp add: splitOn_append_sep)
qed (auto simp: splitOn_no_sep)

end
