(* ===== verification/AuditRecord.thy ===== *)
theory AuditRecord
  imports Complex_Main GoLib "HOL-Library.Char_ord" "HOL-Library.List_Lexorder"
begin

text \<open>
  \<open>internal/audit/record.go\<close> and \<open>internal/audit/canonical.go\<close>: the audit record, the event taxonomy
  and the frozen canonical byte form that is hashed. The field list of the canonical form is
  \<open>canonicalFields\<close>, its length-prefixed encoding \<open>canonicalBytes\<close>.

  Functions that are not part of the repository are fields of the record \<open>prims\<close>, an argument of the
  definitions that use them: SHA-256, HMAC-SHA-256, Ed25519, the NFC normalisation of
  \<open>golang.org/x/text\<close> and the quoting of a string by \<open>encoding/json\<close>. A confidence is a rational
  number, the exact value of the \<open>float64\<close>; not-a-number and the infinities are not represented.
\<close>

section \<open>Primitives\<close>

record 'sk prims =
  sha256 :: "bytes \<Rightarrow> bytes"
  hmacSha :: "bytes \<Rightarrow> bytes \<Rightarrow> bytes"
  edSign :: "'sk \<Rightarrow> bytes \<Rightarrow> bytes"
  edPub :: "'sk \<Rightarrow> bytes"
  edVerify :: "bytes \<Rightarrow> bytes \<Rightarrow> bytes \<Rightarrow> bool"
  nfc :: "string \<Rightarrow> string"
  jsonString :: "string \<Rightarrow> string"

section \<open>Records and events (record.go)\<close>

record actor =
  Kind :: string
  IDPsn :: string

record signal =
  SigID :: string
  SigVerdict :: string
  Conf :: rat

record upstream =
  UpStatus :: int
  ErrorClass :: string

record tlspsn =
  JA4Psn :: string
  H2FPPsn :: string
  SNIPsn :: string

record audit_record =
  EventID :: string
  Seq :: "64 word"
  NodeID :: string
  TS :: string
  EventType :: string
  EventVer :: string
  Actor :: actor
  TenantID :: string
  SessionPsn :: string
  RequestID :: string
  Correlation :: string
  Host :: string
  RouteClass :: string
  Verdict :: string
  RiskScore :: int
  Rules :: "string list"
  TopSignals :: "signal list"
  Action :: string
  Mode :: string
  FailMode :: string
  FailReason :: string
  LatencyUS :: "32 word"
  Upstream :: "upstream option"
  TLS :: "tlspsn option"
  ConfigVer :: string
  KeyID :: string
  DataClass :: string
  PrevHash :: string
  RecordHash :: string
  HMAC :: string
  Incident :: string

text \<open>The zero value of a record, as a composite literal that sets no field has it.\<close>

definition zeroRecord :: audit_record where
  "zeroRecord = \<lparr>EventID = [], Seq = 0, NodeID = [], TS = [], EventType = [], EventVer = [],
     Actor = \<lparr>Kind = [], IDPsn = []\<rparr>, TenantID = [], SessionPsn = [], RequestID = [],
     Correlation = [], Host = [], RouteClass = [], Verdict = [], RiskScore = 0, Rules = [],
     TopSignals = [], Action = [], Mode = [], FailMode = [], FailReason = [], LatencyUS = 0,
     Upstream = None, TLS = None, ConfigVer = [], KeyID = [], DataClass = [],
     PrevHash = [], RecordHash = [], HMAC = [], Incident = []\<rparr>"

definition EventSchemaVersion :: string where
  "EventSchemaVersion = ''1.0.0''"

text \<open>The event codes, in the order of their declaration.\<close>

definition eventTaxonomy :: "string list" where
  "eventTaxonomy =
    [''session.bind'',
     ''tls.fingerprint.captured'',
     ''h2.fingerprint.captured'',
     ''html.injection.applied'',
     ''html.injection.skipped'',
     ''html.injection.failed'',
     ''scoring.evaluated'',
     ''rule.hard.triggered'',
     ''verdict.assigned'',
     ''verdict.changed'',
     ''enforcement.allow'',
     ''enforcement.challenge.issued'',
     ''enforcement.deny'',
     ''enforcement.tarpit'',
     ''enforcement.ratelimit.applied'',
     ''token.issued'',
     ''token.binding_mismatch'',
     ''token.bad_sig'',
     ''beacon.replay'',
     ''net.smuggle'',
     ''origin.direct_hit'',
     ''origin.leak_stripped'',
     ''upgrade.no_prior_verdict'',
     ''inject.no_callback'',
     ''hdr.spoofed_forwarded'',
     ''hdr.internal_header_ingress'',
     ''net.proxy.hop'',
     ''net.proxy.client_ip_spoof'',
     ''net.proxy.xff_multi_hop'',
     ''net.proxy.forwarded_private'',
     ''net.proxy.anon_chain'',
     ''net.vpn.webrtc_leak'',
     ''net.tor.circuit'',
     ''net.tor.exit'',
     ''net.ip.datacenter'',
     ''net.ip.proxy_vpn'',
     ''net.tcp.not_observed'',
     ''net.tcp.fingerprint'',
     ''net.tcp.ttl_os_mismatch'',
     ''net.correlation.proxy_rotation'',
     ''net.correlation.fp_churn'',
     ''net.correlation.shared_fingerprint'',
     ''net.traffic.ip_hop'',
     ''recon.decision_probing'',
     ''abuse.h2dos.detected'',
     ''upstream.request.forwarded'',
     ''upstream.error'',
     ''agent.signature.verified'',
     ''agent.signature.forged'',
     ''agent.signature.unknown'',
     ''privacypass.token.verified'',
     ''webauthn.assertion.verified'',
     ''response.egress'',
     ''failopen.triggered'',
     ''failclosed.triggered'',
     ''admin.access'',
     ''admin.auth_fail'',
     ''approval.requested'',
     ''approval.granted'',
     ''ban.applied'',
     ''ban.enforced'',
     ''ban.expired'',
     ''ban.lifted'',
     ''ratelimit.soft_exceeded'',
     ''ratelimit.hard_exceeded'',
     ''config.changed'',
     ''key.rotated'',
     ''operator.override'',
     ''erasure.requested'',
     ''erasure.completed'',
     ''audit.integrity.check.passed'',
     ''audit.integrity.violation.detected'',
     ''instance.startup'',
     ''instance.shutdown'']"

section \<open>The canonical form (canonical.go)\<close>

definition writeField :: "string \<times> string \<Rightarrow> bytes" where
  "writeField kv =
     putUint32 (length (fst kv)) @ fst kv @ putUint32 (length (snd kv)) @ snd kv"

definition put :: "'sk prims \<Rightarrow> string \<Rightarrow> string \<Rightarrow> (string \<times> string) list" where
  "put P key val = (if val = [] then [] else [(key, nfc P val)])"

definition putInt :: "string \<Rightarrow> int \<Rightarrow> (string \<times> string) list" where
  "putInt key v = [(key, formatInt v)]"

text \<open>\<open>strconv.FormatFloat(x, 'f', 3, 64)\<close>: three decimals, the nearest value, ties to even.\<close>

definition roundHalfEven :: "rat \<Rightarrow> int" where
  "roundHalfEven x =
     (let f = floor x; d = x - of_int f
      in if d < 1 / 2 then f else if d > 1 / 2 then f + 1 else if even f then f else f + 1)"

definition pad3 :: "nat \<Rightarrow> string" where
  "pad3 n = [digitChar (n div 100 mod 10), digitChar (n div 10 mod 10), digitChar (n mod 10)]"

definition formatFixed3 :: "rat \<Rightarrow> string" where
  "formatFixed3 x =
     (let n = nat (roundHalfEven (\<bar>x\<bar> * 1000))
      in (if x < 0 then ''-'' else []) @ decNat (n div 1000) @ ''.'' @ pad3 (n mod 1000))"

definition bracketed :: "string list \<Rightarrow> string" where
  "bracketed xs = ''['' @ joinWith '','' xs @ '']''"

definition signalPart :: "'sk prims \<Rightarrow> signal \<Rightarrow> string" where
  "signalPart P s = nfc P (SigID s) @ ''|'' @ SigVerdict s @ ''|'' @ formatFixed3 (Conf s)"

definition canonicalFields :: "'sk prims \<Rightarrow> audit_record \<Rightarrow> (string \<times> string) list" where
  "canonicalFields P r =
     put P ''event_id'' (EventID r) @ putInt ''seq'' (sint (Seq r)) @
     put P ''node_id'' (NodeID r) @ put P ''ts'' (TS r) @
     put P ''event_type'' (EventType r) @ put P ''event_version'' (EventVer r) @
     put P ''actor.kind'' (Kind (Actor r)) @ put P ''actor.id'' (IDPsn (Actor r)) @
     put P ''tenant_id'' (TenantID r) @ put P ''session_pseudonym'' (SessionPsn r) @
     put P ''request_id'' (RequestID r) @ put P ''correlation_id'' (Correlation r) @
     put P ''host'' (Host r) @ put P ''route_class'' (RouteClass r) @
     put P ''verdict'' (Verdict r) @ putInt ''risk_score'' (RiskScore r) @
     [(''triggered_rules'', bracketed (sort (Rules r)))] @
     [(''top_signals'', bracketed (map (signalPart P) (sort_key SigID (TopSignals r))))] @
     put P ''enforcement_action'' (Action r) @ put P ''enforcement_mode'' (Mode r) @
     put P ''fail_mode'' (FailMode r) @ put P ''fail_reason'' (FailReason r) @
     putInt ''latency_us'' (uint (LatencyUS r)) @
     (case Upstream r of
        None \<Rightarrow> []
      | Some u \<Rightarrow> putInt ''upstream.status'' (UpStatus u) @ put P ''upstream.error_class'' (ErrorClass u)) @
     (case TLS r of
        None \<Rightarrow> []
      | Some t \<Rightarrow> put P ''tls.ja4'' (JA4Psn t) @ put P ''tls.h2fp'' (H2FPPsn t) @
                  put P ''tls.sni'' (SNIPsn t)) @
     put P ''config_version'' (ConfigVer r) @ put P ''key_id'' (KeyID r) @
     put P ''data_class'' (DataClass r)"

definition canonicalBytes :: "'sk prims \<Rightarrow> audit_record \<Rightarrow> bytes" where
  "canonicalBytes P r = concat (map writeField (canonicalFields P r))"

definition computeRecordHash :: "'sk prims \<Rightarrow> audit_record \<Rightarrow> string \<Rightarrow> string" where
  "computeRecordHash P r prev = hexEncode (sha256 P (canonicalBytes P r @ prev))"

section \<open>Unambiguous framing\<close>

definition fits32 :: "string \<times> string \<Rightarrow> bool" where
  "fits32 kv \<longleftrightarrow> length (fst kv) < 2 ^ 32 \<and> length (snd kv) < 2 ^ 32"

lemma putUint32_inj:
  assumes "m < 2 ^ 32" and "n < 2 ^ 32" and "putUint32 m @ a = putUint32 n @ b"
  shows "m = n \<and> a = b"
proof -
  have "putUint32 m = putUint32 n \<and> a = b"
    by (rule append_eq_split) (use assms(3) in simp_all)
  then show ?thesis using getUint32_putUint32 [OF assms(1)] getUint32_putUint32 [OF assms(2)] by metis
qed

lemma lengthPrefix_inj:
  assumes "length x < 2 ^ 32" and "length y < 2 ^ 32"
    and "putUint32 (length x) @ x @ a = putUint32 (length y) @ y @ b"
  shows "x = y \<and> a = b"
  using putUint32_inj [OF assms(1,2,3)] by auto

lemma writeField_prefix_free:
  assumes "fits32 f" and "fits32 g" and "writeField f @ a = writeField g @ b"
  shows "f = g \<and> a = b"
proof -
  have "putUint32 (length (fst f)) @ fst f @ (putUint32 (length (snd f)) @ snd f @ a) =
        putUint32 (length (fst g)) @ fst g @ (putUint32 (length (snd g)) @ snd g @ b)"
    using assms(3) by (simp add: writeField_def)
  from lengthPrefix_inj [OF _ _ this]
  have k: "fst f = fst g"
    and v: "putUint32 (length (snd f)) @ snd f @ a = putUint32 (length (snd g)) @ snd g @ b"
    using assms by (auto simp: fits32_def)
  from lengthPrefix_inj [OF _ _ v] assms k show ?thesis by (auto simp: fits32_def prod_eq_iff)
qed

lemma writeField_not_Nil: "writeField f \<noteq> []"
  by (simp add: writeField_def putUint32_def)

lemma frames_inj:
  assumes "list_all fits32 fs" and "list_all fits32 gs"
    and "concat (map writeField fs) = concat (map writeField gs)"
  shows "fs = gs"
  using assms
proof (induction fs arbitrary: gs)
  case Nil
  then show ?case by (cases gs) (auto simp: writeField_not_Nil)
next
  case (Cons f fs)
  then obtain g gs' where gs: "gs = g # gs'" by (cases gs) (auto simp: writeField_not_Nil)
  with Cons.prems have "f = g \<and> concat (map writeField fs) = concat (map writeField gs')"
    by (intro writeField_prefix_free) auto
  with Cons gs show ?case by auto
qed

lemma canonicalFields_inj:
  assumes "list_all fits32 (canonicalFields P r)" and "list_all fits32 (canonicalFields P r')"
    and "canonicalBytes P r = canonicalBytes P r'"
  shows "canonicalFields P r = canonicalFields P r'"
  using frames_inj assms by (simp add: canonicalBytes_def)

section \<open>What the canonical form binds\<close>

text \<open>The scalar fields written by \<open>put\<close>, with the key of each.\<close>

definition scalarFields :: "audit_record \<Rightarrow> (string \<times> string) list" where
  "scalarFields r =
     [(''event_id'', EventID r), (''node_id'', NodeID r), (''ts'', TS r), (''event_type'', EventType r),
      (''event_version'', EventVer r), (''actor.kind'', Kind (Actor r)), (''actor.id'', IDPsn (Actor r)),
      (''tenant_id'', TenantID r), (''session_pseudonym'', SessionPsn r), (''request_id'', RequestID r),
      (''correlation_id'', Correlation r), (''host'', Host r), (''route_class'', RouteClass r),
      (''verdict'', Verdict r), (''enforcement_action'', Action r), (''enforcement_mode'', Mode r),
      (''fail_mode'', FailMode r), (''fail_reason'', FailReason r), (''config_version'', ConfigVer r),
      (''key_id'', KeyID r), (''data_class'', DataClass r)]"

definition upstreamPart :: "'sk prims \<Rightarrow> audit_record \<Rightarrow> (int \<times> string) option" where
  "upstreamPart P r = map_option (\<lambda>u. (UpStatus u, nfc P (ErrorClass u))) (Upstream r)"

definition tlsPart :: "'sk prims \<Rightarrow> audit_record \<Rightarrow> string list" where
  "tlsPart P r = (case TLS r of None \<Rightarrow> [[], [], []]
                  | Some t \<Rightarrow> map (nfc P) [JA4Psn t, H2FPPsn t, SNIPsn t])"

text \<open>What two records have in common when no auditor can tell them apart by their canonical bytes.\<close>

definition sameContent :: "'sk prims \<Rightarrow> audit_record \<Rightarrow> audit_record \<Rightarrow> bool" where
  "sameContent P r r' \<longleftrightarrow>
     Seq r = Seq r' \<and> RiskScore r = RiskScore r' \<and> LatencyUS r = LatencyUS r' \<and>
     map (nfc P \<circ> snd) (scalarFields r) = map (nfc P \<circ> snd) (scalarFields r') \<and>
     bracketed (sort (Rules r)) = bracketed (sort (Rules r')) \<and>
     bracketed (map (signalPart P) (sort_key SigID (TopSignals r))) =
       bracketed (map (signalPart P) (sort_key SigID (TopSignals r'))) \<and>
     upstreamPart P r = upstreamPart P r' \<and> tlsPart P r = tlsPart P r'"

definition nfcEmpty :: "'sk prims \<Rightarrow> bool" where
  "nfcEmpty P \<longleftrightarrow> (\<forall>x. nfc P x = [] \<longleftrightarrow> x = [])"

text \<open>The reading of a field back from the field list: an absent field reads as the empty string.\<close>

definition getField :: "(string \<times> string) list \<Rightarrow> string \<Rightarrow> string" where
  "getField fs k = (case map_of fs k of None \<Rightarrow> [] | Some v \<Rightarrow> v)"

lemma getField_Nil [simp]: "getField [] k = []"
  by (simp add: getField_def)

lemma getField_Cons [simp]: "getField ((k', v) # fs) k = (if k = k' then v else getField fs k)"
  by (simp add: getField_def)

lemma getField_putInt [simp]:
  "getField (putInt k' v @ fs) k = (if k = k' then formatInt v else getField fs k)"
  by (simp add: putInt_def)

lemma getField_put [simp]:
  "getField (put P k' v @ fs) k =
     (if k = k' then if v = [] then getField fs k else nfc P v else getField fs k)"
  by (simp add: put_def)

lemma getField_put_last [simp]:
  "getField (put P k' v) k = (if k = k' then if v = [] then [] else nfc P v else [])"
  by (simp add: put_def)

lemma nfc_absent:
  assumes "nfcEmpty P"
  shows "(if v = [] then [] else nfc P v) = nfc P v" and "nfc P [] = []"
proof -
  show e: "nfc P [] = []" using assms unfolding nfcEmpty_def by blast
  show "(if v = [] then [] else nfc P v) = nfc P v" using e by simp
qed

lemma put_nfc: "nfcEmpty P \<Longrightarrow> put P k v = (if nfc P v = [] then [] else [(k, nfc P v)])"
  unfolding nfcEmpty_def put_def by simp

text \<open>Each field of the canonical form read back.\<close>

lemma read_scalars:
  assumes "nfcEmpty P"
  shows "map (getField (canonicalFields P r) \<circ> fst) (scalarFields r) = map (nfc P \<circ> snd) (scalarFields r)"
  unfolding scalarFields_def
  by (cases "Upstream r"; cases "TLS r") (simp_all add: canonicalFields_def nfc_absent [OF assms])

lemma read_numbers:
  "getField (canonicalFields P r) ''seq'' = formatInt (sint (Seq r))"
  "getField (canonicalFields P r) ''risk_score'' = formatInt (RiskScore r)"
  "getField (canonicalFields P r) ''latency_us'' = formatInt (uint (LatencyUS r))"
  "getField (canonicalFields P r) ''triggered_rules'' = bracketed (sort (Rules r))"
  "getField (canonicalFields P r) ''top_signals'' =
     bracketed (map (signalPart P) (sort_key SigID (TopSignals r)))"
  by (simp_all add: canonicalFields_def)

lemma read_tls:
  assumes "nfcEmpty P"
  shows "map (getField (canonicalFields P r)) [''tls.ja4'', ''tls.h2fp'', ''tls.sni''] = tlsPart P r"
  by (cases "Upstream r"; cases "TLS r")
     (simp_all add: canonicalFields_def tlsPart_def nfc_absent [OF assms])

definition readUpstream :: "(string \<times> string) list \<Rightarrow> (string \<times> string) option" where
  "readUpstream fs =
     (if getField fs ''upstream.status'' = [] then None
      else Some (getField fs ''upstream.status'', getField fs ''upstream.error_class''))"

lemma read_upstream:
  assumes "nfcEmpty P"
  shows "readUpstream (canonicalFields P r) = map_option (map_prod formatInt id) (upstreamPart P r)"
  by (cases "Upstream r"; cases "TLS r")
     (simp_all add: readUpstream_def canonicalFields_def upstreamPart_def nfc_absent [OF assms])

lemma scalar_keys: "map fst (scalarFields r) = map fst (scalarFields r')"
  by (simp add: scalarFields_def)

lemma upstreamPart_inj:
  "map_option (map_prod formatInt (id :: string \<Rightarrow> string)) a = map_option (map_prod formatInt id) b \<longleftrightarrow> a = b"
  by (cases a; cases b) (auto simp: map_prod_def split: prod.splits)

lemma sameContent_of_fields:
  assumes "nfcEmpty P" and "canonicalFields P r = canonicalFields P r'"
  shows "sameContent P r r'"
proof -
  let ?f = "canonicalFields P r"
  have "map (getField ?f) (map fst (scalarFields r)) = map (getField ?f) (map fst (scalarFields r'))"
    using scalar_keys by metis
  then have "map (nfc P \<circ> snd) (scalarFields r) = map (nfc P \<circ> snd) (scalarFields r')"
    using read_scalars [OF assms(1), of r] read_scalars [OF assms(1), of r'] assms(2) by simp
  moreover have "upstreamPart P r = upstreamPart P r'"
    using read_upstream [OF assms(1), of r] read_upstream [OF assms(1), of r'] assms(2)
    by (simp only: upstreamPart_inj)
  moreover have "tlsPart P r = tlsPart P r'"
    using read_tls [OF assms(1), of r] read_tls [OF assms(1), of r'] assms(2) by metis
  moreover have "Seq r = Seq r'" "RiskScore r = RiskScore r'" "LatencyUS r = LatencyUS r'"
    using read_numbers(1-3) [of P r] read_numbers(1-3) [of P r'] assms(2)
    by (simp_all add: word_uint_eqI sint_inject)
  ultimately show ?thesis
    using read_numbers(4,5) [of P r] read_numbers(4,5) [of P r'] assms(2)
    by (simp add: sameContent_def)
qed

lemma sameContent_scalars:
  assumes "sameContent P r r'"
  shows "nfc P (EventID r) = nfc P (EventID r')" and "nfc P (NodeID r) = nfc P (NodeID r')"
    and "nfc P (TS r) = nfc P (TS r')" and "nfc P (EventType r) = nfc P (EventType r')"
    and "nfc P (EventVer r) = nfc P (EventVer r')"
    and "nfc P (Kind (Actor r)) = nfc P (Kind (Actor r'))"
    and "nfc P (IDPsn (Actor r)) = nfc P (IDPsn (Actor r'))"
    and "nfc P (TenantID r) = nfc P (TenantID r')" and "nfc P (SessionPsn r) = nfc P (SessionPsn r')"
    and "nfc P (RequestID r) = nfc P (RequestID r')" and "nfc P (Correlation r) = nfc P (Correlation r')"
    and "nfc P (Host r) = nfc P (Host r')" and "nfc P (RouteClass r) = nfc P (RouteClass r')"
    and "nfc P (Verdict r) = nfc P (Verdict r')" and "nfc P (Action r) = nfc P (Action r')"
    and "nfc P (Mode r) = nfc P (Mode r')" and "nfc P (FailMode r) = nfc P (FailMode r')"
    and "nfc P (FailReason r) = nfc P (FailReason r')" and "nfc P (ConfigVer r) = nfc P (ConfigVer r')"
    and "nfc P (KeyID r) = nfc P (KeyID r')" and "nfc P (DataClass r) = nfc P (DataClass r')"
  using assms by (simp_all add: sameContent_def scalarFields_def)

lemma upstream_fields_cong:
  assumes "nfcEmpty P" and "upstreamPart P r = upstreamPart P r'"
  shows "(case Upstream r of None \<Rightarrow> [] | Some u \<Rightarrow> putInt k (UpStatus u) @ put P k' (ErrorClass u)) =
         (case Upstream r' of None \<Rightarrow> [] | Some u \<Rightarrow> putInt k (UpStatus u) @ put P k' (ErrorClass u))"
  using assms(2)
  by (cases "Upstream r"; cases "Upstream r'") (simp_all add: upstreamPart_def put_nfc [OF assms(1)])

lemma tls_fields_cong:
  assumes "nfcEmpty P" and "tlsPart P r = tlsPart P r'"
  shows "(case TLS r of None \<Rightarrow> []
            | Some t \<Rightarrow> put P k (JA4Psn t) @ put P k' (H2FPPsn t) @ put P k'' (SNIPsn t)) =
         (case TLS r' of None \<Rightarrow> []
            | Some t \<Rightarrow> put P k (JA4Psn t) @ put P k' (H2FPPsn t) @ put P k'' (SNIPsn t))"
  using assms(2) by (cases "TLS r"; cases "TLS r'") (simp_all add: tlsPart_def put_nfc [OF assms(1)])

lemma fields_of_sameContent:
  assumes "nfcEmpty P" and "sameContent P r r'"
  shows "canonicalFields P r = canonicalFields P r'"
proof -
  have parts: "upstreamPart P r = upstreamPart P r'" "tlsPart P r = tlsPart P r'"
    "Seq r = Seq r'" "RiskScore r = RiskScore r'" "LatencyUS r = LatencyUS r'"
    "bracketed (sort (Rules r)) = bracketed (sort (Rules r'))"
    "bracketed (map (signalPart P) (sort_key SigID (TopSignals r))) =
     bracketed (map (signalPart P) (sort_key SigID (TopSignals r')))"
    using assms(2) by (simp_all add: sameContent_def)
  show ?thesis
    unfolding canonicalFields_def
    unfolding upstream_fields_cong [OF assms(1) parts(1)] tls_fields_cong [OF assms(1) parts(2)]
    unfolding put_nfc [OF assms(1)] parts(3-) sameContent_scalars [OF assms(2)] ..
qed

text \<open>
  C20. Two records whose fields fit the 32-bit length prefixes have the same canonical bytes
  exactly when they agree on the sequence number, the risk score, the latency, every scalar string
  up to Unicode normalisation, the upstream outcome, the TLS pseudonyms, and the rendered lists of
  rules and signals. So no value of one field can be mistaken for another field, and a change of any
  of these is visible in the hashed bytes.
\<close>

theorem canonical_binds:
  assumes "nfcEmpty P"
    and "list_all fits32 (canonicalFields P r)" and "list_all fits32 (canonicalFields P r')"
  shows "canonicalBytes P r = canonicalBytes P r' \<longleftrightarrow> sameContent P r r'"
proof
  assume "canonicalBytes P r = canonicalBytes P r'"
  then have "canonicalFields P r = canonicalFields P r'"
    by (rule canonicalFields_inj [OF assms(2,3)])
  then show "sameContent P r r'" by (rule sameContent_of_fields [OF assms(1)])
next
  assume "sameContent P r r'"
  then have "canonicalFields P r = canonicalFields P r'"
    by (rule fields_of_sameContent [OF assms(1)])
  then show "canonicalBytes P r = canonicalBytes P r'" by (simp add: canonicalBytes_def)
qed

text \<open>A concrete choice of the primitives, on which witnesses are evaluated.\<close>

definition toyPrims :: "bytes prims" where
  "toyPrims = \<lparr>sha256 = pad32, hmacSha = (\<lambda>k m. pad32 (k @ m)), edSign = (\<lambda>k m. CHR ''s'' # k @ m), edPub = id,
     edVerify = (\<lambda>k m s. s = CHR ''s'' # k @ m), nfc = id, jsonString = (\<lambda>s. CHR 34 # s @ [CHR 34])\<rparr>"

theorem canonical_binds_witness:
  "canonicalBytes toyPrims (zeroRecord\<lparr>Host := ''a'', Seq := 1\<rparr>) \<noteq>
   canonicalBytes toyPrims (zeroRecord\<lparr>RouteClass := ''a'', Seq := 1\<rparr>)"
proof -
  have "nfcEmpty toyPrims" by (simp add: nfcEmpty_def toyPrims_def)
  moreover have "list_all fits32 (canonicalFields toyPrims (zeroRecord\<lparr>Host := ''a'', Seq := 1\<rparr>))"
    "list_all fits32 (canonicalFields toyPrims (zeroRecord\<lparr>RouteClass := ''a'', Seq := 1\<rparr>))"
    by (simp_all add: canonicalFields_def zeroRecord_def put_def putInt_def fits32_def toyPrims_def
        bracketed_def formatInt_def decNat.simps)
  moreover have "\<not> sameContent toyPrims (zeroRecord\<lparr>Host := ''a'', Seq := 1\<rparr>)
      (zeroRecord\<lparr>RouteClass := ''a'', Seq := 1\<rparr>)"
    by (simp add: sameContent_def scalarFields_def zeroRecord_def toyPrims_def)
  ultimately show ?thesis using canonical_binds by blast
qed

text \<open>
  The list of triggered rules is rendered with a comma as separator, without escaping: two
  records with the rules \<open>[''a,b'']\<close> and \<open>[''a'', ''b'']\<close> have the same canonical bytes and so the
  same record hash, whatever the primitives.
\<close>

theorem rules_ambiguous:
  "computeRecordHash P (r\<lparr>Rules := [''a,b'']\<rparr>) prev = computeRecordHash P (r\<lparr>Rules := [''a'', ''b'']\<rparr>) prev"
proof -
  have "sort [''a'', ''b''] = [''a'', ''b'']" by code_simp
  then have "bracketed (sort [''a,b'']) = bracketed (sort [''a'', ''b''])"
    by (simp add: bracketed_def)
  then show ?thesis by (simp add: computeRecordHash_def canonicalBytes_def canonicalFields_def)
qed

text \<open>
  No two event codes of the taxonomy coincide, so the code of a sealed record identifies its
  event.
\<close>

theorem taxonomy_distinct: "distinct eventTaxonomy \<and> length eventTaxonomy = 74"
  by code_simp

end
