(* ===== verification/Wal.thy ===== *)
theory Wal
  imports AuditRecord "HOL-Library.AList" "HOL-Library.Sublist"
begin

text \<open>
  \<open>internal/audit/sink_wal.go\<close>: the append-only, segment-rotated write-ahead log of sealed records.

  A WAL directory is an association list from base names to contents. The environment decides how a
  write ends: \<open>IoFlush k\<close> lets the first \<open>k\<close> bytes of the line reach the file and makes the flush fail
  (from then on the buffered writer returns its error on every call, the flag \<open>wbroken\<close>), \<open>IoSync\<close>
  makes the \<open>fsync\<close> after a complete flush fail, \<open>IoRotate\<close> makes the opening of the next segment
  fail. \<open>encoding/json\<close> is the argument \<open>codec\<close>.
\<close>

section \<open>State\<close>

record checkpoint =
  CpNodeID :: string
  TreeSize :: "64 word"
  Root :: string
  MerkleRoot :: string
  PrevCP :: string
  Sig :: string
  WitnessSig :: string

record codec =
  marshalRecord :: "audit_record \<Rightarrow> bytes option"
  unmarshalRecord :: "bytes \<Rightarrow> audit_record option"
  marshalCheckpoint :: "checkpoint \<Rightarrow> bytes option"
  unmarshalCheckpoint :: "bytes \<Rightarrow> checkpoint option"

type_synonym directory = "(string \<times> bytes) list"

record wal =
  wdir :: directory
  written :: nat
  segIndex :: nat
  rotateBytes :: nat
  wbroken :: bool

datatype wal_error = ErrMarshal | ErrFlush | ErrSync | ErrOpen | ErrCorrupt | ErrTorn | ErrTruncate

datatype walio = IoOk | IoFlush nat | IoSync | IoRotate

definition walSegPrefix :: string where
  "walSegPrefix = ''audit-''"

definition walSegSuffix :: string where
  "walSegSuffix = ''.log''"

definition walCPFile :: string where
  "walCPFile = ''checkpoints.jsonl''"

definition walDefaultRotateBytes :: nat where
  "walDefaultRotateBytes = 16777216"

definition fileContent :: "directory \<Rightarrow> string \<Rightarrow> bytes" where
  "fileContent d n = (case map_of d n of None \<Rightarrow> [] | Some c \<Rightarrow> c)"

section \<open>Segments\<close>

text \<open>\<open>%010d\<close> of a non-negative number.\<close>

definition padDec10 :: "nat \<Rightarrow> string" where
  "padDec10 n = replicate (10 - length (decNat n)) (CHR ''0'') @ decNat n"

definition segPath :: "nat \<Rightarrow> string" where
  "segPath idx = walSegPrefix @ padDec10 idx @ walSegSuffix"

definition listSegments :: "directory \<Rightarrow> string list" where
  "listSegments d = sort (filter (\<lambda>n. prefix walSegPrefix n \<and> suffix walSegSuffix n) (map fst d))"

definition isDigit :: "char \<Rightarrow> bool" where
  "isDigit c \<longleftrightarrow> CHR ''0'' \<le> c \<and> c \<le> CHR ''9''"

text \<open>The names that reach \<open>segIndexOf\<close> have prefix and suffix; a number without a sign is read.\<close>

definition segIndexOf :: "string \<Rightarrow> nat" where
  "segIndexOf base =
     (let core = drop (length walSegPrefix) (take (length base - length walSegSuffix) base)
      in decValue (takeWhile isDigit core))"

definition latestSegment :: "directory \<Rightarrow> nat \<times> nat" where
  "latestSegment d =
     (let segs = listSegments d
      in if segs = [] then (0, 0)
         else (segIndexOf (last segs), length (fileContent d (last segs))))"

definition openSegment :: "wal \<Rightarrow> nat \<Rightarrow> wal" where
  "openSegment w idx =
     w\<lparr>wdir := AList.update (segPath idx) (fileContent (wdir w) (segPath idx)) (wdir w),
       written := 0, segIndex := idx, wbroken := False\<rparr>"

definition NewWALSink :: "directory \<Rightarrow> wal" where
  "NewWALSink d =
     (let (idx, sz) = latestSegment d;
          w = \<lparr>wdir = d, written = sz, segIndex = idx, rotateBytes = walDefaultRotateBytes, wbroken = False\<rparr>
      in if idx = 0 then openSegment w 1 else w)"

section \<open>Appending\<close>

definition rotate :: "walio \<Rightarrow> wal \<Rightarrow> wal_error option \<times> wal" where
  "rotate io w =
     (if wbroken w then (Some ErrFlush, w)
      else if io = IoRotate then (Some ErrOpen, w)
      else (None, openSegment w (segIndex w + 1)))"

definition writeSeg :: "wal \<Rightarrow> bytes \<Rightarrow> wal" where
  "writeSeg w b =
     w\<lparr>wdir := AList.update (segPath (segIndex w)) (fileContent (wdir w) (segPath (segIndex w)) @ b) (wdir w),
       written := written w + length b\<rparr>"

definition writeLine :: "walio \<Rightarrow> wal \<Rightarrow> bytes \<Rightarrow> wal_error option \<times> wal" where
  "writeLine io w line =
     (if wbroken w then (Some ErrFlush, w)
      else case io of
             IoFlush k \<Rightarrow> (Some ErrFlush, (writeSeg w (take k line))\<lparr>wbroken := True\<rparr>)
           | IoSync \<Rightarrow> (Some ErrSync, writeSeg w line)
           | _ \<Rightarrow> (None, writeSeg w line))"

definition AppendRecord :: "codec \<Rightarrow> walio \<Rightarrow> wal \<Rightarrow> audit_record \<Rightarrow> wal_error option \<times> wal" where
  "AppendRecord C io w r =
     (case marshalRecord C r of
        None \<Rightarrow> (Some ErrMarshal, w)
      | Some line \<Rightarrow>
          if written w \<ge> rotateBytes w
          then case rotate io w of
                 (Some e, w') \<Rightarrow> (Some e, w')
               | (None, w') \<Rightarrow> writeLine io w' (line @ [CHR 0x0A])
          else writeLine io w (line @ [CHR 0x0A]))"

text \<open>
  The sidecar is opened for each checkpoint, so a failure leaves no sticky state: the number of bytes
  that reach the file is the environment's choice, all of them when it reports no error.
\<close>

definition AppendCheckpoint :: "codec \<Rightarrow> nat option \<Rightarrow> wal \<Rightarrow> checkpoint \<Rightarrow> wal_error option \<times> wal" where
  "AppendCheckpoint C fail w cp =
     (case marshalCheckpoint C cp of
        None \<Rightarrow> (Some ErrMarshal, w)
      | Some line \<Rightarrow>
          let l = line @ [CHR 0x0A];
              out = (case fail of None \<Rightarrow> l | Some k \<Rightarrow> take k l);
              old = fileContent (wdir w) walCPFile
          in ((case fail of None \<Rightarrow> None | Some _ \<Rightarrow> Some ErrFlush),
              w\<lparr>wdir := AList.update walCPFile (old @ out) (wdir w)\<rparr>))"

section \<open>Reading\<close>

definition trimCRLF :: "bytes \<Rightarrow> bytes" where
  "trimCRLF s = rev (dropWhile (\<lambda>c. c = CHR 0x0D \<or> c = CHR 0x0A) (rev s))"

text \<open>
  The loop of \<open>readRecords\<close>: \<open>out\<close> holds the records read, \<open>good\<close> the offset past the last framed
  line. The result is the records, or an error, and the offset to truncate to after a torn tail.
\<close>

function readLoop ::
    "codec \<Rightarrow> bool \<Rightarrow> bytes \<Rightarrow> audit_record list \<Rightarrow> nat \<Rightarrow> (wal_error + audit_record list) \<times> nat option" where
  "readLoop C lastSeg rest out good =
     (if CHR 0x0A \<in> set rest
      then let line = takeWhile (\<lambda>c. c \<noteq> CHR 0x0A) rest @ [CHR 0x0A];
               rest' = drop (length line) rest;
               trimmed = trimCRLF line
           in if trimmed = [] then readLoop C lastSeg rest' out (good + length line)
              else case unmarshalRecord C trimmed of
                     None \<Rightarrow> (Inl ErrCorrupt, None)
                   | Some r \<Rightarrow> readLoop C lastSeg rest' (out @ [r]) (good + length line)
      else if trimCRLF rest \<noteq> []
      then if lastSeg then (Inr out, Some good) else (Inl ErrTorn, None)
      else (Inr out, None))"
  by pat_completeness auto
termination
proof (relation "measure (\<lambda>(C, l, rest, out, g). length rest)", goal_cases)
  case 1
  then show ?case by simp
qed (auto simp: Let_def intro!: diff_less)

declare readLoop.simps [simp del]

definition readRecords ::
    "codec \<Rightarrow> bool \<Rightarrow> directory \<Rightarrow> string \<Rightarrow> bool \<Rightarrow> (wal_error + audit_record list) \<times> directory" where
  "readRecords C truncOK d path lastSeg =
     (case readLoop C lastSeg (fileContent d path) [] 0 of
        (res, None) \<Rightarrow> (res, d)
      | (res, Some good) \<Rightarrow>
          if truncOK then (res, AList.update path (take good (fileContent d path)) d)
          else (Inl ErrTruncate, d))"

fun readSegments ::
    "codec \<Rightarrow> bool \<Rightarrow> directory \<Rightarrow> string list \<Rightarrow> audit_record list \<Rightarrow> (wal_error + audit_record list) \<times> directory"
  where
  "readSegments C truncOK d [] out = (Inr out, d)"
| "readSegments C truncOK d (s # segs) out =
     (case readRecords C truncOK d s (segs = []) of
        (Inl e, d') \<Rightarrow> (Inl e, d')
      | (Inr recs, d') \<Rightarrow> readSegments C truncOK d' segs (out @ recs))"

definition ReadAll :: "codec \<Rightarrow> bool \<Rightarrow> wal \<Rightarrow> (wal_error + audit_record list) \<times> wal" where
  "ReadAll C truncOK w =
     (case readSegments C truncOK (wdir w) (listSegments (wdir w)) [] of
        (res, d) \<Rightarrow> (res, w\<lparr>wdir := d\<rparr>))"

text \<open>\<open>strings.TrimSpace\<close> on ASCII text.\<close>

definition isSpaceChar :: "char \<Rightarrow> bool" where
  "isSpaceChar c \<longleftrightarrow> c \<in> {CHR 0x09, CHR 0x0A, CHR 0x0B, CHR 0x0C, CHR 0x0D, CHR 0x20}"

definition trimSpace :: "string \<Rightarrow> string" where
  "trimSpace s = rev (dropWhile isSpaceChar (rev (dropWhile isSpaceChar s)))"

fun parseCheckpoints :: "codec \<Rightarrow> bytes list \<Rightarrow> wal_error + checkpoint list" where
  "parseCheckpoints C [] = Inr []"
| "parseCheckpoints C (l # ls) =
     (if l = [] then parseCheckpoints C ls
      else case unmarshalCheckpoint C l of
             None \<Rightarrow> Inl ErrCorrupt
           | Some cp \<Rightarrow> (case parseCheckpoints C ls of Inl e \<Rightarrow> Inl e | Inr cps \<Rightarrow> Inr (cp # cps)))"

definition ReadCheckpoints :: "codec \<Rightarrow> wal \<Rightarrow> wal_error + checkpoint list" where
  "ReadCheckpoints C w =
     parseCheckpoints C (splitOn (CHR 0x0A) (trimSpace (fileContent (wdir w) walCPFile)))"

section \<open>Segment names are ordered like their numbers\<close>

lemma isDigit_digitChar: "d < 10 \<Longrightarrow> isDigit (digitChar d)"
  by (simp add: isDigit_def digitChar_def less_eq_char_def)

lemma isDigit_decNat: "c \<in> set (decNat n) \<Longrightarrow> isDigit c"
  using decNat_digits isDigit_digitChar by blast

lemma undigit_less10: "isDigit c \<Longrightarrow> undigit c < 10"
  by (auto simp: isDigit_def undigit_def less_eq_char_def)

lemma undigit_mono: "isDigit c \<Longrightarrow> isDigit d \<Longrightarrow> c < d \<longleftrightarrow> undigit c < undigit d"
  by (auto simp: isDigit_def undigit_def less_eq_char_def less_char_def)

lemma undigit_eq: "isDigit c \<Longrightarrow> isDigit d \<Longrightarrow> undigit c = undigit d \<Longrightarrow> c = d"
  using undigit_mono [of c d] undigit_mono [of d c] by auto

lemma decValue_foldl: "foldl (\<lambda>v c. 10 * v + undigit c) a s = a * 10 ^ length s + decValue s"
proof (induction s arbitrary: a)
  case (Cons c s)
  show ?case using Cons [of "10 * a + undigit c"] Cons [of "undigit c"]
    by (simp add: decValue_def algebra_simps)
qed (simp add: decValue_def)

lemma decValue_Cons: "decValue (c # s) = undigit c * 10 ^ length s + decValue s"
  using decValue_foldl [of "undigit c" s] by (simp add: decValue_def)

lemma decValue_bound: "\<forall>c \<in> set s. isDigit c \<Longrightarrow> decValue s < 10 ^ length s"
proof (induction s)
  case (Cons c s)
  then have "decValue s < 10 ^ length s" "undigit c < 10" by (auto simp: undigit_less10)
  then have "undigit c * 10 ^ length s + decValue s < (undigit c + 1) * 10 ^ length s"
    "(undigit c + 1) * 10 ^ length s \<le> 10 * 10 ^ length s" by (simp, intro mult_le_mono1, simp)
  then show ?case unfolding decValue_Cons by (metis length_Cons order_less_le_trans power_Suc)
qed (simp add: decValue_def)

lemma digits_less:
  assumes "length a = length b" and "\<forall>c \<in> set a \<union> set b. isDigit c" and "decValue a < decValue b"
  shows "a < b"
  using assms
proof (induction a b rule: list_induct2)
  case (Cons x xs y ys)
  have xb: "decValue xs < 10 ^ length ys" "decValue ys < 10 ^ length ys"
    using decValue_bound [of xs] decValue_bound [of ys] Cons by auto
  have le: "undigit x \<le> undigit y"
  proof (rule ccontr)
    assume "\<not> undigit x \<le> undigit y"
    then have "(undigit y + 1) * 10 ^ length ys \<le> undigit x * 10 ^ length ys"
      by (intro mult_le_mono1) simp
    then show False using Cons.prems(2) Cons.hyps xb by (simp add: decValue_Cons)
  qed
  show ?case
  proof (cases "x = y")
    case True
    then show ?thesis using Cons by (simp add: decValue_Cons)
  next
    case False
    then show ?thesis using le undigit_mono [of x y] undigit_eq [of x y] Cons.prems by force
  qed
qed (simp add: decValue_def)

lemma decNat_length: "n < 10 ^ k \<Longrightarrow> 0 < k \<Longrightarrow> length (decNat n) \<le> k"
proof (induction n arbitrary: k rule: decNat.induct)
  case (1 n)
  show ?case
  proof (cases "n < 10")
    case True
    then show ?thesis using 1 by (subst decNat.simps) simp
  next
    case False
    with 1 obtain k' where k: "k = Suc k'" "0 < k'"
      by (cases k) (auto, metis gr0I less_one mult.right_neutral not_less_iff_gr_or_eq power_0)
    then have "n div 10 < 10 ^ k'" using 1 by (simp add: less_mult_imp_div_less mult.commute)
    then show ?thesis using 1(1) [OF False, of k'] False k by (subst decNat.simps) simp
  qed
qed

lemma padDec10_length: "n < 10 ^ 10 \<Longrightarrow> length (padDec10 n) = 10"
  using decNat_length [of n 10] by (simp add: padDec10_def)

lemma padDec10_digits: "c \<in> set (padDec10 n) \<Longrightarrow> isDigit c"
  by (auto simp: padDec10_def isDigit_decNat) (simp add: isDigit_def less_eq_char_def)

lemma decValue_zeros: "decValue (replicate k (CHR ''0'') @ s) = decValue s"
  by (induction k) (auto simp: decValue_Cons undigit_def)

lemma decValue_padDec10 [simp]: "decValue (padDec10 n) = n"
  by (simp add: padDec10_def decValue_zeros)

lemma less_append_same: "a < b \<Longrightarrow> length a = length b \<Longrightarrow> a @ x < b @ y" for a b :: "char list"
proof (induction a arbitrary: b)
  case (Cons c a)
  then show ?case by (cases b) auto
qed simp

lemma segPath_less: "i < j \<Longrightarrow> j < 10 ^ 10 \<Longrightarrow> segPath i < segPath j"
  using digits_less [of "padDec10 i" "padDec10 j"] padDec10_length [of i] padDec10_length [of j]
    padDec10_digits less_append_same [of "padDec10 i" "padDec10 j"]
  by (simp add: segPath_def walSegPrefix_def ball_Un)

lemma segIndexOf_segPath [simp]: "segIndexOf (segPath i) = i"
proof -
  have "takeWhile isDigit (padDec10 i) = padDec10 i"
    using padDec10_digits by (simp add: takeWhile_eq_all_conv)
  then show ?thesis by (simp add: segIndexOf_def segPath_def Let_def del: takeWhile_eq_all_conv)
qed

lemma segPath_inj [simp]: "segPath i = segPath j \<longleftrightarrow> i = j"
  by (metis segIndexOf_segPath)

section \<open>Reading back what was written\<close>

abbreviation NL :: char where
  "NL \<equiv> CHR 0x0A"

text \<open>
  What the log relies on of \<open>encoding/json\<close>, for the records it writes: an object is one non-empty
  line that neither starts nor ends with a carriage return, and reading it back gives the record.
\<close>

definition lineOK :: "codec \<Rightarrow> audit_record \<Rightarrow> bool" where
  "lineOK C r \<longleftrightarrow>
     (case marshalRecord C r of
        None \<Rightarrow> False
      | Some b \<Rightarrow> b \<noteq> [] \<and> NL \<notin> set b \<and> hd b \<noteq> CHR 0x0D \<and> last b \<noteq> CHR 0x0D \<and> unmarshalRecord C b = Some r)"

definition recordLine :: "codec \<Rightarrow> audit_record \<Rightarrow> bytes" where
  "recordLine C r = (case marshalRecord C r of None \<Rightarrow> [] | Some b \<Rightarrow> b @ [NL])"

definition framed :: "codec \<Rightarrow> audit_record list \<Rightarrow> bytes" where
  "framed C rs = concat (map (recordLine C) rs)"

lemma framed_simps [simp]:
  "framed C [] = []" "framed C (r # rs) = recordLine C r @ framed C rs" "framed C (rs @ rs') = framed C rs @ framed C rs'"
  by (simp_all add: framed_def)

lemma trimCRLF_snoc_NL [simp]: "trimCRLF (b @ [NL]) = trimCRLF b"
  by (simp add: trimCRLF_def)

lemma trimCRLF_id: "NL \<notin> set b \<Longrightarrow> last b \<noteq> CHR 0x0D \<Longrightarrow> trimCRLF b = b"
  by (cases b rule: rev_cases) (auto simp: trimCRLF_def)

lemma readLoop_line:
  assumes "lineOK C r"
  shows "readLoop C ls (recordLine C r @ rest) out g = readLoop C ls rest (out @ [r]) (g + length (recordLine C r))"
proof -
  obtain b where b: "marshalRecord C r = Some b" "b \<noteq> []" "NL \<notin> set b" "last b \<noteq> CHR 0x0D"
      "unmarshalRecord C b = Some r"
    using assms by (auto simp: lineOK_def split: option.splits)
  have "takeWhile (\<lambda>c. c \<noteq> NL) (b @ NL # rest) = b" using b(3) by (induction b) auto
  then show ?thesis
    using b by (subst readLoop.simps) (simp add: recordLine_def Let_def trimCRLF_id)
qed

lemma readLoop_framed:
  "list_all (lineOK C) rs \<Longrightarrow>
   readLoop C ls (framed C rs @ rest) out g = readLoop C ls rest (out @ rs) (g + length (framed C rs))"
proof (induction rs arbitrary: out g)
  case (Cons r rs)
  then show ?case by (simp add: readLoop_line algebra_simps)
qed simp

lemma readLoop_Nil [simp]: "readLoop C ls [] out g = (Inr out, None)"
  by (subst readLoop.simps) (simp add: trimCRLF_def)

lemma readLoop_torn:
  "NL \<notin> set t \<Longrightarrow> trimCRLF t \<noteq> [] \<Longrightarrow> readLoop C True t out g = (Inr out, Some g)"
  by (subst readLoop.simps) simp

lemma fileContent_update [simp]:
  "fileContent (AList.update k v d) n = (if n = k then v else fileContent d n)"
  by (simp add: fileContent_def update_conv')

definition isSeg :: "string \<Rightarrow> bool" where
  "isSeg n \<longleftrightarrow> prefix walSegPrefix n \<and> suffix walSegSuffix n"

lemma isSeg_segPath [simp]: "isSeg (segPath i)"
  by (simp add: isSeg_def segPath_def suffix_def)

lemma isSeg_walCPFile [simp]: "\<not> isSeg walCPFile"
  by (simp add: isSeg_def walCPFile_def walSegPrefix_def)

text \<open>
  The state of a WAL that holds the records \<open>recs\<close>: the segments are numbered from one without gaps,
  and each holds complete lines.
\<close>

definition walDir :: "codec \<Rightarrow> directory \<Rightarrow> nat \<Rightarrow> audit_record list list \<Rightarrow> bool" where
  "walDir C d n rss \<longleftrightarrow>
     0 < n \<and> n < 10 ^ 10 \<and> distinct (map fst d) \<and> {x \<in> fst ` set d. isSeg x} = segPath ` {1..n} \<and>
     length rss = n \<and> (\<forall>i < n. fileContent d (segPath (Suc i)) = framed C (rss ! i)) \<and>
     (\<forall>rs \<in> set rss. list_all (lineOK C) rs)"

lemma walDir_listSegments:
  assumes "walDir C d n rss"
  shows "listSegments d = map segPath [1..<Suc n]"
proof (rule sorted_distinct_set_unique)
  show "sorted (listSegments d)" by (simp add: listSegments_def)
  show "distinct (listSegments d)" using assms by (simp add: listSegments_def walDir_def)
  have "segPath i \<le> segPath j" if "i \<le> j" "j \<le> n" for i j
    using segPath_less [of i j] assms that by (cases "i = j") (auto simp: walDir_def)
  then show "sorted (map segPath [1..<Suc n])" by (auto simp: sorted_iff_nth_mono simp del: upt_Suc)
  show "distinct (map segPath [1..<Suc n])" by (simp add: distinct_map inj_on_def del: upt_Suc)
  show "set (listSegments d) = set (map segPath [1..<Suc n])"
    using assms by (auto simp: listSegments_def walDir_def isSeg_def simp del: upt_Suc)
qed

lemma readRecords_framed:
  assumes "list_all (lineOK C) rs" and "fileContent d p = framed C rs"
  shows "readRecords C tr d p ls = (Inr rs, d)"
  using readLoop_framed [OF assms(1), of ls "[]" "[]" 0] assms(2) by (simp add: readRecords_def)

lemma readSegments_framed:
  assumes "length ps = length rss" and "\<forall>i < length ps. fileContent d (ps ! i) = framed C (rss ! i)"
    and "\<forall>rs \<in> set rss. list_all (lineOK C) rs"
  shows "readSegments C tr d ps out = (Inr (out @ concat rss), d)"
  using assms
proof (induction ps rss arbitrary: out rule: list_induct2)
  case (Cons p ps rs rss)
  have "readRecords C tr d p (ps = []) = (Inr rs, d)"
    by (rule readRecords_framed) (use Cons.prems in auto)
  moreover have "\<forall>i < length ps. fileContent d (ps ! i) = framed C (rss ! i)"
    using Cons.prems(1) by (metis Suc_less_eq length_Cons nth_Cons_Suc)
  ultimately show ?case using Cons by simp
qed simp

lemma ReadAll_walDir:
  assumes "walDir C (wdir w) n rss"
  shows "ReadAll C tr w = (Inr (concat rss), w)"
proof -
  have "readSegments C tr (wdir w) (map segPath [1..<Suc n]) [] = (Inr (concat rss), wdir w)"
    using readSegments_framed [of "map segPath [1..<Suc n]" rss "wdir w" C tr "[]"] assms
    by (simp add: walDir_def del: upt_Suc)
  then show ?thesis by (simp add: ReadAll_def walDir_listSegments [OF assms])
qed

lemma readSegments_append:
  assumes "length ps = length rss" and "\<forall>i < length ps. fileContent d (ps ! i) = framed C (rss ! i)"
    and "\<forall>rs \<in> set rss. list_all (lineOK C) rs"
  shows "readSegments C tr d (ps @ qs) out = readSegments C tr d qs (out @ concat rss)"
  using assms
proof (induction ps rss arbitrary: out rule: list_induct2)
  case (Cons p ps rs rss)
  have "readRecords C tr d p (ps @ qs = []) = (Inr rs, d)"
    by (rule readRecords_framed) (use Cons.prems in auto)
  moreover have "\<forall>i < length ps. fileContent d (ps ! i) = framed C (rss ! i)"
    using Cons.prems(1) by (metis Suc_less_eq length_Cons nth_Cons_Suc)
  ultimately show ?case using Cons by simp
qed simp

section \<open>Appending keeps the directory well-formed\<close>

definition walHolds :: "codec \<Rightarrow> wal \<Rightarrow> audit_record list \<Rightarrow> bool" where
  "walHolds C w recs \<longleftrightarrow>
     (\<exists>rss. walDir C (wdir w) (segIndex w) rss \<and> concat rss = recs) \<and> \<not> wbroken w"

lemma fst_set_update: "fst ` set (AList.update k v d) = insert k (fst ` set d)"
  using update_keys [of k v d] by (auto simp flip: set_map)

lemma walDir_fresh: "walDir C d n rss \<Longrightarrow> fileContent d (segPath (Suc n)) = []"
proof -
  assume w: "walDir C d n rss"
  have "segPath (Suc n) \<notin> fst ` set d"
  proof
    assume "segPath (Suc n) \<in> fst ` set d"
    then have "segPath (Suc n) \<in> {x \<in> fst ` set d. isSeg x}" by simp
    then have "segPath (Suc n) \<in> segPath ` {1..n}" using w unfolding walDir_def by blast
    then show False by auto
  qed
  then show ?thesis by (auto simp: fileContent_def map_of_eq_None_iff [symmetric] split: option.splits)
qed

lemma walDir_open:
  assumes "walDir C d n rss" and "Suc n < 10 ^ 10"
  shows "walDir C (AList.update (segPath (Suc n)) (fileContent d (segPath (Suc n))) d) (Suc n) (rss @ [[]])"
proof -
  have "{x \<in> insert (segPath (Suc n)) (fst ` set d). isSeg x} = insert (segPath (Suc n)) {x \<in> fst ` set d. isSeg x}"
    by auto
  then have "{x \<in> insert (segPath (Suc n)) (fst ` set d). isSeg x} = segPath ` {1..Suc n}"
    using assms(1) by (auto simp: walDir_def atLeastAtMostSuc_conv)
  then show ?thesis
    using assms walDir_fresh [OF assms(1)]
    by (auto simp: walDir_def fst_set_update distinct_update nth_append less_Suc_eq)
qed

lemma walDir_set_last:
  assumes "walDir C d n (rss @ [rs])" and "list_all (lineOK C) rs'"
  shows "walDir C (AList.update (segPath n) (framed C rs') d) n (rss @ [rs'])"
proof -
  obtain m where m: "n = Suc m" using assms(1) by (cases n) (auto simp: walDir_def)
  have "segPath n \<in> segPath ` {1..n}" using m by simp
  then have k: "segPath n \<in> fst ` set d" using assms(1) unfolding walDir_def by blast
  show ?thesis
    using assms k m
    by (auto simp: walDir_def fst_set_update insert_absorb distinct_update nth_append less_Suc_eq)
qed

lemma walDir_last: "walDir C d n (rss @ [rs]) \<Longrightarrow> fileContent d (segPath n) = framed C rs"
  by (auto simp: walDir_def nth_append)

lemma walDir_snoc: "walDir C d n rss \<Longrightarrow> \<exists>xs x. rss = xs @ [x]"
  by (cases rss rule: rev_cases) (auto simp: walDir_def)

lemma recordLine_Some: "marshalRecord C r = Some b \<Longrightarrow> recordLine C r = b @ [NL]"
  by (simp add: recordLine_def)

lemma writeSeg_walHolds:
  assumes "walHolds C w recs" and "lineOK C r"
  shows "walHolds C (writeSeg w (recordLine C r)) (recs @ [r])"
proof -
  obtain rss rs where d: "walDir C (wdir w) (segIndex w) (rss @ [rs])" "concat (rss @ [rs]) = recs"
    using assms(1) walDir_snoc unfolding walHolds_def by metis
  have "list_all (lineOK C) (rs @ [r])" using d(1) assms(2) by (simp add: walDir_def)
  from walDir_set_last [OF d(1) this] show ?thesis
    using d assms(1) walDir_last [OF d(1)]
    by (auto simp: walHolds_def writeSeg_def intro!: exI [of _ "rss @ [rs @ [r]]"])
qed

lemma openSegment_walHolds:
  assumes "walHolds C w recs" and "Suc (segIndex w) < 10 ^ 10"
  shows "walHolds C (openSegment w (Suc (segIndex w))) recs"
proof -
  obtain rss where d: "walDir C (wdir w) (segIndex w) rss" "concat rss = recs"
    using assms(1) by (auto simp: walHolds_def)
  show ?thesis using walDir_open [OF d(1) assms(2)] d(2)
    by (auto simp: walHolds_def openSegment_def intro!: exI [of _ "rss @ [[]]"])
qed

lemma rotate_walHolds:
  assumes "walHolds C w recs" and "Suc (segIndex w) < 10 ^ 10" and "rotate io w = (e, w')"
  shows "walHolds C w' recs" and "segIndex w' < 10 ^ 10" and "e = None \<or> w' = w"
  using assms openSegment_walHolds [OF assms(1,2)]
  by (auto simp: rotate_def openSegment_def split: if_splits)

text \<open>A record that was partly written, and the whole of it.\<close>

lemma AppendRecord_cases:
  assumes "walHolds C w recs" and "lineOK C r" and "Suc (segIndex w) < 10 ^ 10"
    and "AppendRecord C io w r = (e, w')"
  obtains (refused) "e \<noteq> None" "walHolds C w' recs"
  | (written) "walHolds C w' (recs @ [r])" "e = None \<or> e = Some ErrSync"
  | (torn) v k where "walHolds C v recs" "w' = (writeSeg v (take k (recordLine C r)))\<lparr>wbroken := True\<rparr>"
      "e = Some ErrFlush"
proof -
  obtain line where line: "marshalRecord C r = Some line" using assms(2) by (auto simp: lineOK_def split: option.splits)
  have wr: thesis if v: "walHolds C v recs" and wl: "writeLine io v (line @ [NL]) = (e, w')" for v
  proof (cases io)
    case (IoFlush k)
    then show thesis using wl v torn [of v k] recordLine_Some [OF line] by (auto simp: writeLine_def walHolds_def)
  qed (use wl v written writeSeg_walHolds [OF v assms(2)] recordLine_Some [OF line] in
      \<open>auto simp: writeLine_def walHolds_def\<close>)
  show thesis
  proof (cases "rotateBytes w \<le> written w")
    case True
    obtain e1 w1 where rot: "rotate io w = (e1, w1)" by fastforce
    note w1 = rotate_walHolds [OF assms(1,3) rot]
    show thesis
    proof (cases e1)
      case None
      then show thesis using wr [OF w1(1)] assms(4) line True rot by (simp add: AppendRecord_def)
    next
      case (Some x)
      then show thesis using refused w1(1) assms(4) line True rot by (auto simp: AppendRecord_def)
    qed
  next
    case False
    then show thesis using wr [OF assms(1)] assms(4) line by (simp add: AppendRecord_def)
  qed
qed

lemma AppendRecord_ok:
  assumes "walHolds C w recs" and "lineOK C r" and "Suc (segIndex w) < 10 ^ 10"
    and "AppendRecord C io w r = (None, w')"
  shows "walHolds C w' (recs @ [r])"
  using assms by (cases rule: AppendRecord_cases) auto

section \<open>Recovery after a crash\<close>

lemma listSegments_cong: "map fst d = map fst d' \<Longrightarrow> listSegments d = listSegments d'"
  by (simp add: listSegments_def)

lemma walDir_update_keys: "walDir C d n rss \<Longrightarrow> map fst (AList.update (segPath n) c d) = map fst d"
proof -
  assume w: "walDir C d n rss"
  then have "segPath n \<in> segPath ` {1..n}" by (auto simp: walDir_def)
  then have "segPath n \<in> set (map fst d)" using w unfolding walDir_def set_map by blast
  then show ?thesis by (simp add: update_keys)
qed

lemma NewWALSink_reopen:
  assumes "0 < n" and "listSegments d = map segPath [1..<Suc n]"
  shows "wdir (NewWALSink d) = d" and "segIndex (NewWALSink d) = n" and "\<not> wbroken (NewWALSink d)"
proof -
  have "listSegments d \<noteq> []" "last (listSegments d) = segPath n" using assms by auto
  then have "fst (latestSegment d) = n" by (simp add: latestSegment_def Let_def)
  then show "wdir (NewWALSink d) = d" "segIndex (NewWALSink d) = n" "\<not> wbroken (NewWALSink d)"
    using assms(1) by (auto simp: NewWALSink_def split: prod.splits)
qed

lemma readRecords_torn:
  assumes "list_all (lineOK C) rs" and "fileContent d p = framed C rs @ t" and "NL \<notin> set t"
    and "t = [] \<or> trimCRLF t \<noteq> []"
  shows "\<exists>d'. readRecords C True d p True = (Inr rs, d') \<and>
           (d' = d \<and> t = [] \<or> d' = AList.update p (framed C rs) d)"
  using readLoop_framed [OF assms(1), of True t "[]" 0] assms(2-4)
  by (auto simp: readRecords_def readLoop_torn)

lemma ReadAll_torn:
  assumes "walDir C d n (rss @ [rs])" and "NL \<notin> set t" and "t = [] \<or> trimCRLF t \<noteq> []"
    and "wdir w = AList.update (segPath n) (framed C rs @ t) d"
  shows "\<exists>d'. ReadAll C True w = (Inr (concat rss @ rs), w\<lparr>wdir := d'\<rparr>) \<and> walDir C d' n (rss @ [rs])"
proof -
  obtain m where m: "n = Suc m" using assms(1) by (cases n) (auto simp: walDir_def)
  have segs: "listSegments (wdir w) = map segPath [1..<n] @ [segPath n]"
    using walDir_listSegments [OF assms(1)]
      listSegments_cong [OF walDir_update_keys [OF assms(1)], of "framed C rs @ t"] assms(4) m by simp
  have lrs: "list_all (lineOK C) rs" using assms(1) by (simp add: walDir_def)
  have "readSegments C True (wdir w) (map segPath [1..<n] @ [segPath n]) [] =
        readSegments C True (wdir w) [segPath n] ([] @ concat rss)"
    by (rule readSegments_append)
       (use assms(1,4) m in \<open>auto simp: walDir_def nth_append simp del: upt_Suc split: if_splits\<close>)
  moreover obtain d' where d': "readRecords C True (wdir w) (segPath n) True = (Inr rs, d')"
      "d' = wdir w \<and> t = [] \<or> d' = AList.update (segPath n) (framed C rs) (wdir w)"
    using readRecords_torn [OF lrs, of "wdir w" "segPath n" t] assms(2-4) by auto
  moreover have "walDir C d' n (rss @ [rs])"
    using d'(2) walDir_set_last [OF assms(1) lrs] walDir_set_last [OF walDir_set_last [OF assms(1) lrs] lrs] assms(4)
    by (auto simp: update_last)
  ultimately show ?thesis by (auto simp: ReadAll_def segs)
qed

lemma take_line_torn:
  assumes "lineOK C r" and "k < length (recordLine C r)"
  shows "NL \<notin> set (take k (recordLine C r))"
    and "take k (recordLine C r) = [] \<or> trimCRLF (take k (recordLine C r)) \<noteq> []"
proof -
  obtain b where b: "recordLine C r = b @ [NL]" "b \<noteq> []" "NL \<notin> set b" "hd b \<noteq> CHR 0x0D"
    using assms(1) by (auto simp: lineOK_def recordLine_def split: option.splits)
  then show "NL \<notin> set (take k (recordLine C r))" using assms(2) by (auto dest: in_set_takeD)
  have "dropWhile (\<lambda>c. c = CHR 0x0D \<or> c = NL) (rev (take k b)) \<noteq> []" if "take k b \<noteq> []"
  proof -
    have "hd b \<in> set (rev (take k b))" using that b(2) by (cases b; cases k) auto
    moreover have "hd b \<noteq> NL" using b(2,3) hd_in_set by metis
    ultimately show ?thesis using b(4) unfolding dropWhile_eq_Nil_conv by blast
  qed
  then show "take k (recordLine C r) = [] \<or> trimCRLF (take k (recordLine C r)) \<noteq> []"
    using b(1) assms(2) by (auto simp: trimCRLF_def)
qed

lemma walHolds_reopen:
  assumes "walHolds C w recs"
  shows "ReadAll C True (NewWALSink (wdir w)) = (Inr recs, NewWALSink (wdir w)) \<and>
         walHolds C (NewWALSink (wdir w)) recs"
proof -
  obtain rss where d: "walDir C (wdir w) (segIndex w) rss" "concat rss = recs"
    using assms by (auto simp: walHolds_def)
  have n: "0 < segIndex w" using d by (simp add: walDir_def)
  note re = NewWALSink_reopen [OF n walDir_listSegments [OF d(1)]]
  show ?thesis using ReadAll_walDir [of C "NewWALSink (wdir w)"] d re by (auto simp: walHolds_def)
qed

lemma torn_reopen:
  assumes "walHolds C v recs" and "lineOK C r"
  shows "\<exists>recs' w'. ReadAll C True (NewWALSink (wdir (writeSeg v (take k (recordLine C r))))) = (Inr recs', w') \<and>
           walHolds C w' recs' \<and> recs' \<in> {recs, recs @ [r]}"
proof (cases "k < length (recordLine C r)")
  case False
  then show ?thesis using walHolds_reopen [OF writeSeg_walHolds [OF assms]] by auto
next
  case True
  obtain rss rs where d: "walDir C (wdir v) (segIndex v) (rss @ [rs])" "concat (rss @ [rs]) = recs"
    using assms(1) walDir_snoc unfolding walHolds_def by metis
  let ?d = "wdir (writeSeg v (take k (recordLine C r)))"
  have d': "?d = AList.update (segPath (segIndex v)) (framed C rs @ take k (recordLine C r)) (wdir v)"
    using walDir_last [OF d(1)] by (simp add: writeSeg_def)
  have n: "0 < segIndex v" using d by (simp add: walDir_def)
  have "listSegments ?d = map segPath [1..<Suc (segIndex v)]"
    using listSegments_cong [OF walDir_update_keys [OF d(1)]] walDir_listSegments [OF d(1)] by (simp add: d')
  note re = NewWALSink_reopen [OF n this]
  from ReadAll_torn [OF d(1) take_line_torn [OF assms(2) True], of "NewWALSink ?d"]
  show ?thesis using re d(2) d' by (fastforce simp: walHolds_def)
qed

text \<open>
  C9. Whatever happens to a write (success, a failed rotation, a line cut after any number of bytes, a
  failed \<open>fsync\<close>), reopening the directory and reading it succeeds and yields the records held
  before, possibly followed by the new one, and surely followed by it when the append reported
  success; and the reopened log is well-formed again, so that appending can continue.
\<close>

theorem wal_crash_recovery:
  assumes "walHolds C w recs" and "lineOK C r" and "Suc (segIndex w) < 10 ^ 10"
    and "AppendRecord C io w r = (e, w')"
  shows "\<exists>recs' w''. ReadAll C True (NewWALSink (wdir w')) = (Inr recs', w'') \<and> walHolds C w'' recs' \<and>
           recs' \<in> {recs, recs @ [r]} \<and> (e = None \<longrightarrow> recs' = recs @ [r])"
  using assms
proof (cases rule: AppendRecord_cases)
  case refused
  then show ?thesis using walHolds_reopen [OF refused(2)] by auto
next
  case written
  then show ?thesis using walHolds_reopen [OF written(1)] by auto
next
  case (torn v k)
  then show ?thesis using torn_reopen [OF torn(1) assms(2), of k] by auto
qed

text \<open>A codec for examples: the host and the sequence number, between braces.\<close>

definition toyCodec :: codec where
  "toyCodec = \<lparr>marshalRecord = (\<lambda>r. Some (''{'' @ Host r @ ''}'')),
     unmarshalRecord = (\<lambda>b. Some (zeroRecord\<lparr>Host := butlast (tl b)\<rparr>)),
     marshalCheckpoint = (\<lambda>c. Some (Sig c)), unmarshalCheckpoint = (\<lambda>b. None)\<rparr>"

lemma toyCodec_lineOK: "NL \<notin> set h \<Longrightarrow> lineOK toyCodec (zeroRecord\<lparr>Host := h\<rparr>)"
  by (simp add: lineOK_def toyCodec_def)

lemma walHolds_new: "walHolds C (NewWALSink []) []"
  by (auto simp: walHolds_def NewWALSink_def latestSegment_def listSegments_def openSegment_def walDir_def
      fileContent_def intro!: exI [of _ "[[]]"])

theorem wal_crash_recovery_witness:
  "\<exists>recs' w''. ReadAll toyCodec True (NewWALSink (wdir (snd (AppendRecord toyCodec (IoFlush 2) (NewWALSink [])
       (zeroRecord\<lparr>Host := ''ab''\<rparr>))))) = (Inr recs', w'') \<and>
     walHolds toyCodec w'' recs' \<and> recs' \<in> {[], [zeroRecord\<lparr>Host := ''ab''\<rparr>]}"
proof -
  let ?r = "zeroRecord\<lparr>Host := ''ab''\<rparr>"
  have "Suc (segIndex (NewWALSink [])) < 10 ^ 10"
    by (simp add: NewWALSink_def latestSegment_def listSegments_def openSegment_def)
  from wal_crash_recovery [OF walHolds_new [of toyCodec] toyCodec_lineOK this prod.collapse [symmetric], of "''ab''" "IoFlush 2"]
  show ?thesis by auto
qed

end
