(* ===== verification/Witness.thy ===== *)
theory Witness
  imports MerkleSound Wal
begin

text \<open>
  \<open>internal/audit/witness.go\<close>: the independent co-signer of Signed Tree Heads, and the byte form of a
  Signed Tree Head from \<open>chain.go\<close>. The key pair of a witness is an argument (it is generated, or read
  from a seed, by \<open>crypto/ed25519\<close>).
\<close>

section \<open>The signed form of a tree head (chain.go, sthBytes)\<close>

text \<open>\<open>json.Marshal\<close> of the anonymous struct: its five fields in order, without white space.\<close>

definition jsonField :: "'sk prims \<Rightarrow> string \<Rightarrow> string \<Rightarrow> string" where
  "jsonField P k v = [CHR 0x22] @ k @ [CHR 0x22] @ '':'' @ v"

definition sthBytes :: "'sk prims \<Rightarrow> checkpoint \<Rightarrow> bytes" where
  "sthBytes P cp =
     ''{'' @ joinWith '',''
       [jsonField P ''node_id'' (jsonString P (CpNodeID cp)),
        jsonField P ''tree_size'' (decNat (unat (TreeSize cp))),
        jsonField P ''root'' (jsonString P (Root cp)),
        jsonField P ''merkle_root'' (jsonString P (MerkleRoot cp)),
        jsonField P ''prev_checkpoint_hash'' (jsonString P (PrevCP cp))] @ ''}''"

lemma sthBytes_sig [simp]:
  "sthBytes P (cp\<lparr>Sig := s\<rparr>) = sthBytes P cp" "sthBytes P (cp\<lparr>WitnessSig := s\<rparr>) = sthBytes P cp"
  by (simp_all add: sthBytes_def)

section \<open>The witness\<close>

record 'sk witness =
  wpriv :: 'sk
  seenRoot :: "64 word \<rightharpoonup> string"
  maxSize :: "64 word"
  lastSize :: "64 word"
  lastMerkle :: string

datatype witness_error = ErrWitnessRewrite | ErrWitnessRegress | ErrWitnessFork

definition NewWitness :: "'sk \<Rightarrow> 'sk witness" where
  "NewWitness priv = \<lparr>wpriv = priv, seenRoot = Map.empty, maxSize = 0, lastSize = 0, lastMerkle = []\<rparr>"

definition Restore :: "'sk witness \<Rightarrow> 64 word \<Rightarrow> string \<Rightarrow> string \<Rightarrow> 'sk witness" where
  "Restore wt ls lm lr =
     (let wt1 = wt\<lparr>lastSize := ls, lastMerkle := lm\<rparr>;
          wt2 = (if ls > maxSize wt1 then wt1\<lparr>maxSize := ls\<rparr> else wt1)
      in if lr \<noteq> [] then wt2\<lparr>seenRoot := (seenRoot wt2)(ls \<mapsto> lr)\<rparr> else wt2)"

definition monotonic :: "'sk witness \<Rightarrow> checkpoint \<Rightarrow> witness_error option" where
  "monotonic wt cp =
     (case seenRoot wt (TreeSize cp) of
        Some prev \<Rightarrow> if prev \<noteq> Root cp then Some ErrWitnessRewrite else None
      | None \<Rightarrow> if TreeSize cp \<le> maxSize wt then Some ErrWitnessRegress else None)"

definition extendsLast :: "'sk prims \<Rightarrow> 'sk witness \<Rightarrow> checkpoint \<Rightarrow> bytes list \<Rightarrow> bool" where
  "extendsLast P wt cp pf =
     (if lastSize wt > 0 \<and> lastSize wt < TreeSize cp \<and> lastMerkle wt \<noteq> [] \<and> MerkleRoot cp \<noteq> []
      then (case (hexDecode (lastMerkle wt), hexDecode (MerkleRoot cp)) of
              ((oldRoot, ok1), (newRoot, ok2)) \<Rightarrow>
                ok1 \<and> ok2 \<and>
                verifyConsistency (sha256 P) (sint (lastSize wt)) (sint (TreeSize cp)) pf oldRoot newRoot)
      else True)"

definition CounterSign ::
    "'sk prims \<Rightarrow> 'sk witness \<Rightarrow> checkpoint \<Rightarrow> bytes list \<Rightarrow> 'sk witness \<times> (witness_error + string)" where
  "CounterSign P wt cp pf =
     (case monotonic wt cp of
        Some e \<Rightarrow> (wt, Inl e)
      | None \<Rightarrow>
          if \<not> extendsLast P wt cp pf then (wt, Inl ErrWitnessFork)
          else let wt1 = wt\<lparr>seenRoot := (seenRoot wt)(TreeSize cp \<mapsto> Root cp)\<rparr>;
                   wt2 = (if TreeSize cp > maxSize wt1 then wt1\<lparr>maxSize := TreeSize cp\<rparr> else wt1);
                   wt3 = wt2\<lparr>lastSize := TreeSize cp, lastMerkle := MerkleRoot cp\<rparr>
               in (wt3, Inr (hexEncode (edSign P (wpriv wt) (sthBytes P cp)))))"

fun VerifyWitness :: "'sk prims \<Rightarrow> checkpoint list \<Rightarrow> bytes \<Rightarrow> 64 word \<times> bool" where
  "VerifyWitness P [] pub = (0, True)"
| "VerifyWitness P (cp # cps) pub =
     (if WitnessSig cp = [] then (TreeSize cp, False)
      else case hexDecode (WitnessSig cp) of
             (sig, ok) \<Rightarrow> if \<not> ok \<or> \<not> edVerify P pub (sthBytes P cp) sig then (TreeSize cp, False)
                          else VerifyWitness P cps pub)"

section \<open>What an attestation means\<close>

text \<open>A tree head that states the size and the Merkle root of the leaves \<open>ls\<close>.\<close>

definition genuine :: "'sk prims \<Rightarrow> checkpoint \<Rightarrow> bytes list \<Rightarrow> bool" where
  "genuine P cp ls \<longleftrightarrow>
     ls \<noteq> [] \<and> length ls < 2 ^ 63 \<and> TreeSize cp = of_nat (length ls) \<and>
     MerkleRoot cp = hexEncode (merkleRoot (sha256 P) ls)"

type_synonym attestation = "checkpoint \<times> bytes list \<times> bytes list"

abbreviation attHead :: "attestation \<Rightarrow> checkpoint" where "attHead a \<equiv> fst a"
abbreviation attProof :: "attestation \<Rightarrow> bytes list" where "attProof a \<equiv> fst (snd a)"
abbreviation attLeaves :: "attestation \<Rightarrow> bytes list" where "attLeaves a \<equiv> snd (snd a)"

text \<open>The tree heads a witness co-signed, in order, each with its proof and the leaves it commits to.\<close>

inductive attests :: "'sk prims \<Rightarrow> 'sk witness \<Rightarrow> attestation list \<Rightarrow> 'sk witness \<Rightarrow> bool"
  for P w0 where
  attests_Nil: "attests P w0 [] w0"
| attests_step: "attests P w0 (hist @ [(cp, pf, ls)]) w'"
    if "attests P w0 hist w" and "CounterSign P w cp pf = (w', Inr s)" and "genuine P cp ls"

inductive_cases attests_snocE: "attests P w0 (hist @ [a]) w"

text \<open>The inputs hashed by the trees of a history and by the checks between neighbours.\<close>

definition historyInputs :: "(bytes \<Rightarrow> bytes) \<Rightarrow> attestation list \<Rightarrow> bytes set" where
  "historyInputs H hist =
     (\<Union>a \<in> set hist. mth_inputs H (attLeaves a)) \<union>
     (\<Union>i \<in> {i. Suc i < length hist}.
        verify_consistency_inputs H (int (length (attLeaves (hist ! i)))) (int (length (attLeaves (hist ! Suc i))))
          (attProof (hist ! Suc i)) (merkleRoot H (attLeaves (hist ! i))))"

lemma historyInputs_mono: "historyInputs H hist \<subseteq> historyInputs H (hist @ [a])"
  unfolding historyInputs_def by (intro Un_mono UN_mono) (auto simp: nth_append)

lemma sint_of_nat_small: "n < 2 ^ 63 \<Longrightarrow> sint (of_nat n :: 64 word) = int n"
  by (simp add: sint_uint unsigned_of_nat take_bit_nat_eq_self signed_take_bit_int_eq_self)

lemma CounterSign_accept:
  assumes "CounterSign P w cp pf = (w', Inr s)"
  shows "extendsLast P w cp pf" and "lastSize w' = TreeSize cp" and "lastMerkle w' = MerkleRoot cp"
    and "wpriv w' = wpriv w" and "s = hexEncode (edSign P (wpriv w) (sthBytes P cp))"
    and "monotonic w cp = None"
  using assms by (auto simp: CounterSign_def Let_def split: option.splits if_splits)

lemma attests_last:
  assumes "attests P w0 hist w" and "hist \<noteq> []"
  shows "lastSize w = TreeSize (attHead (last hist)) \<and> lastMerkle w = MerkleRoot (attHead (last hist))"
  using assms by (induction rule: attests.induct) (auto dest: CounterSign_accept)

lemma attests_genuine: "attests P w0 hist w \<Longrightarrow> a \<in> set hist \<Longrightarrow> genuine P (attHead a) (attLeaves a)"
  by (induction rule: attests.induct) auto

lemma length_merkleRoot:
  assumes "\<forall>x. length (H x) = 32"
  shows "length (merkleRoot H ls) = 32"
proof (cases "2 \<le> length ls")
  case True
  then show ?thesis using assms mth_split [OF True, of H] by (simp add: merkleRoot_mth nodeHash_def)
next
  case False
  then consider "ls = []" | x where "ls = [x]" by (cases ls rule: remdups_adj.cases) auto
  then show ?thesis using assms by cases (simp_all add: merkleRoot_mth mth_def leafHash_def)
qed

lemma extendsLast_prefix:
  assumes H: "\<forall>x. length (sha256 P x) = 32"
    and gen: "genuine P cp ls" "genuine P cp' ls'"
    and last: "lastSize w = TreeSize cp" "lastMerkle w = MerkleRoot cp"
    and grows: "TreeSize cp < TreeSize cp'" and acc: "extendsLast P w cp' pf"
    and inj: "inj_on (sha256 P) (mth_inputs (sha256 P) ls \<union> mth_inputs (sha256 P) ls' \<union>
      verify_consistency_inputs (sha256 P) (int (length ls)) (int (length ls')) pf (merkleRoot (sha256 P) ls))"
  shows "prefix ls ls'"
proof -
  have roots: "merkleRoot (sha256 P) ls \<noteq> []" "merkleRoot (sha256 P) ls' \<noteq> []"
    using H gen length_merkleRoot [of "sha256 P"] by (metis list.size(3) zero_neq_numeral)+
  have "0 < TreeSize cp"
    using gen(1) by (auto simp: genuine_def word_less_nat_alt unsigned_of_nat take_bit_nat_eq_self)
  then have "verifyConsistency (sha256 P) (int (length ls)) (int (length ls')) pf
      (merkleRoot (sha256 P) ls) (merkleRoot (sha256 P) ls')"
    using acc gen last grows roots by (simp add: extendsLast_def genuine_def sint_of_nat_small)
  from accepted_consistency_prefix [OF H _ this inj] gen show ?thesis
    by (metis genuine_def take_is_prefix)
qed

lemma attests_append_only:
  assumes "attests P w0 hist w" and "\<forall>x. length (sha256 P x) = 32"
    and "sorted_wrt (<) (map (TreeSize \<circ> attHead) hist)"
    and "inj_on (sha256 P) (historyInputs (sha256 P) hist)"
  shows "sorted_wrt prefix (map attLeaves hist)"
  using assms
proof (induction rule: attests.induct)
  case (attests_step hist w cp pf w' s ls)
  let ?H = "sha256 P" and ?new = "hist @ [(cp, pf, ls)]"
  have inj: "inj_on ?H (historyInputs ?H hist)"
    by (rule inj_on_subset [OF attests_step.prems(3) historyInputs_mono])
  have IH: "sorted_wrt prefix (map attLeaves hist)"
    using attests_step.IH attests_step.prems inj by (simp add: sorted_wrt_append)
  have "prefix (attLeaves a) ls" if a: "a \<in> set hist" for a
  proof -
    from a have ne: "hist \<noteq> []" by auto
    let ?l = "last hist"
    have l: "?l \<in> set hist" using ne by simp
    have nth: "?new ! (length hist - 1) = ?l" "?new ! Suc (length hist - 1) = (cp, pf, ls)"
      "Suc (length hist - 1) < length ?new"
      using ne by (auto simp: nth_append last_conv_nth)
    have "mth_inputs ?H (attLeaves ?l) \<union> mth_inputs ?H ls \<union> verify_consistency_inputs ?H
        (int (length (attLeaves ?l))) (int (length ls)) pf (merkleRoot ?H (attLeaves ?l)) \<subseteq> historyInputs ?H ?new"
      unfolding historyInputs_def
      using l nth by (auto intro!: exI [of _ "length hist - 1"])
    from inj_on_subset [OF attests_step.prems(3) this]
    have "prefix (attLeaves ?l) ls"
      using extendsLast_prefix [OF attests_step.prems(1) attests_genuine [OF attests_step.hyps(1) l]
          attests_step.hyps(3), of w pf] attests_last [OF attests_step.hyps(1) ne]
        CounterSign_accept(1) [OF attests_step.hyps(2)] attests_step.prems(2) l
      by (simp add: sorted_wrt_append)
    moreover have "prefix (attLeaves a) (attLeaves ?l)"
      using IH a ne by (induction hist rule: rev_induct) (auto simp: sorted_wrt_append)
    ultimately show ?thesis by (rule prefix_order.trans [rotated])
  qed
  then show ?case using IH by (auto simp: sorted_wrt_append)
qed simp

text \<open>
  C19. As long as the writer presents each tree size once, in growing order, the trees that a
  witness co-signs form a chain of prefixes: every later tree extends every earlier one, whatever
  proofs the writer supplied, unless SHA-256 has a collision among the inputs that the trees and the
  checks hash. So no two co-signed heads of such a run show two different histories.
\<close>

theorem witness_append_only:
  assumes "attests P (NewWitness k) hist w" and "\<forall>x. length (sha256 P x) = 32"
    and "sorted_wrt (<) (map (TreeSize \<circ> attHead) hist)"
    and "inj_on (sha256 P) (historyInputs (sha256 P) hist)"
  shows "sorted_wrt prefix (map attLeaves hist)"
  by (rule attests_append_only [OF assms])

definition headOf :: "'sk prims \<Rightarrow> bytes list \<Rightarrow> string \<Rightarrow> checkpoint" where
  "headOf P ls r = \<lparr>CpNodeID = ''node'', TreeSize = of_nat (length ls), Root = r,
     MerkleRoot = hexEncode (merkleRoot (sha256 P) ls), PrevCP = [], Sig = [], WitnessSig = []\<rparr>"

lemma genuine_headOf: "ls \<noteq> [] \<Longrightarrow> length ls < 2 ^ 63 \<Longrightarrow> genuine P (headOf P ls r) ls"
  by (simp add: genuine_def headOf_def)

lemma CounterSign_extension:
  assumes "lastSize w = of_nat m" and "lastMerkle w = hexEncode (merkleRoot (sha256 P) (take m ls))"
    and "0 < m" and "m < length ls" and "length ls < 2 ^ 63" and "monotonic w (headOf P ls r) = None"
  shows "extendsLast P w (headOf P ls r) (consistencyProof (sha256 P) ls (int m))"
  using assms consistencyProof_verifies [of "int m" ls "sha256 P"]
  by (simp add: extendsLast_def headOf_def sint_of_nat_small)

lemma CounterSign_ok:
  assumes "monotonic w cp = None" and "extendsLast P w cp pf"
  shows "CounterSign P w cp pf =
    (w\<lparr>seenRoot := (seenRoot w)(TreeSize cp \<mapsto> Root cp), maxSize := max (maxSize w) (TreeSize cp),
       lastSize := TreeSize cp, lastMerkle := MerkleRoot cp\<rparr>, Inr (hexEncode (edSign P (wpriv w) (sthBytes P cp))))"
  using assms by (simp add: CounterSign_def Let_def max_def)

lemma attests_accept:
  assumes "attests P w0 hist w" and "monotonic w cp = None" and "extendsLast P w cp pf" and "genuine P cp ls"
  shows "attests P w0 (hist @ [(cp, pf, ls)]) (fst (CounterSign P w cp pf))"
  using attests_step [OF assms(1) _ assms(4)] CounterSign_ok [OF assms(2,3)] by fastforce

theorem witness_append_only_witness:
  "sorted_wrt prefix [[''a''], [''a'', ''b'']]"
proof -
  let ?P = toyPrims and ?h1 = "headOf toyPrims [''a''] ''r1''" and ?h2 = "headOf toyPrims [''a'', ''b''] ''r2''"
  let ?pf = "consistencyProof (sha256 toyPrims) [''a'', ''b''] 1"
  let ?hist = "[(?h1, [], [''a'']), (?h2, ?pf, [''a'', ''b''])]"
  have sha: "sha256 ?P = pad32" by (simp add: toyPrims_def)
  have 1: "monotonic (NewWitness ''k'') ?h1 = None" "extendsLast ?P (NewWitness ''k'') ?h1 []"
    by (simp_all add: monotonic_def extendsLast_def NewWitness_def headOf_def)
  define w1 where "w1 = fst (CounterSign ?P (NewWitness ''k'') ?h1 [])"
  have w1: "lastSize w1 = of_nat 1" "lastMerkle w1 = hexEncode (merkleRoot (sha256 ?P) (take 1 [''a'', ''b'']))"
      "seenRoot w1 = [1 \<mapsto> ''r1'']" "maxSize w1 = 1"
    unfolding w1_def CounterSign_ok [OF 1] by (simp_all add: NewWitness_def headOf_def)
  have 2: "monotonic w1 ?h2 = None" by (simp add: monotonic_def w1 headOf_def word_le_nat_alt)
  note 2 = 2 CounterSign_extension [OF w1(1,2) _ _ _ 2, simplified]
  have g: "genuine ?P ?h1 [''a'']" "genuine ?P ?h2 [''a'', ''b'']" by (simp_all add: genuine_headOf)
  from attests_accept [OF attests_accept [OF attests_Nil 1 g(1)] _ _ g(2)] 2
  obtain w where run: "attests ?P (NewWitness ''k'') ?hist w" by (auto simp: w1_def)
  have pf: "consistencyProof pad32 [''a'', ''b''] 1 = [leafHash pad32 ''b'']" by code_simp
  have "mth_inputs pad32 [''a''] = {CHR 0x00 # ''a''}" by (simp add: mth_inputs.simps)
  then have "inj_on (sha256 ?P) (historyInputs (sha256 ?P) ?hist)"
    unfolding sha pf historyInputs_def
    by (auto simp: mth_inputs_pair leafHash_def inj_on_def pad32_Cons take_Cons' merkleRoot_mth mth_def
        verify_consistency_inputs_def isPow2_def less_Suc_eq)
  from witness_append_only [OF run _ _ this] show ?thesis by (simp add: sha headOf_def)
qed

text \<open>
  A writer that presents an already co-signed, older tree head a second time resets the size and
  root the witness compares against. It can then obtain a co-signature for a tree that forks from the
  last one: here the witness co-signs trees over \<open>[a]\<close>, \<open>[a, b]\<close>, again \<open>[a]\<close>, and then over
  \<open>[a, x, y]\<close>, for every \<open>x\<close> and \<open>y\<close>.
\<close>

theorem witness_replay_forks:
  "\<exists>w. attests P (NewWitness k)
     [(headOf P [a] r1, [], [a]),
      (headOf P [a, b] r2, consistencyProof (sha256 P) [a, b] 1, [a, b]),
      (headOf P [a] r1, [], [a]),
      (headOf P [a, x, y] r3, consistencyProof (sha256 P) [a, x, y] 1, [a, x, y])] w"
proof -
  let ?H = "sha256 P" and ?w0 = "NewWitness k"
  let ?h1 = "headOf P [a] r1" and ?h2 = "headOf P [a, b] r2" and ?h4 = "headOf P [a, x, y] r3"
  have g: "genuine P ?h1 [a]" "genuine P ?h2 [a, b]" "genuine P ?h4 [a, x, y]"
    by (simp_all add: genuine_headOf)
  have 1: "monotonic ?w0 ?h1 = None" "extendsLast P ?w0 ?h1 []"
    by (simp_all add: monotonic_def extendsLast_def NewWitness_def headOf_def)
  define w1 where "w1 = fst (CounterSign P ?w0 ?h1 [])"
  have w1: "lastSize w1 = of_nat 1" "lastMerkle w1 = hexEncode (merkleRoot ?H (take 1 [a, b]))"
      "seenRoot w1 = [1 \<mapsto> r1]" "maxSize w1 = 1"
    unfolding w1_def CounterSign_ok [OF 1] by (simp_all add: NewWitness_def headOf_def)
  have 2: "monotonic w1 ?h2 = None" by (simp add: monotonic_def w1 headOf_def word_le_nat_alt)
  note 2 = 2 CounterSign_extension [OF w1(1,2) _ _ _ 2, simplified]
  define w2 where "w2 = fst (CounterSign P w1 ?h2 (consistencyProof ?H [a, b] 1))"
  have w2: "lastSize w2 = 2" "seenRoot w2 = [1 \<mapsto> r1, 2 \<mapsto> r2]" "maxSize w2 = 2"
    unfolding w2_def CounterSign_ok [OF 2] by (simp_all add: w1 headOf_def max_def word_le_nat_alt)
  have 3: "monotonic w2 ?h1 = None" "extendsLast P w2 ?h1 []"
    by (simp_all add: monotonic_def extendsLast_def w2 headOf_def word_less_nat_alt)
  define w3 where "w3 = fst (CounterSign P w2 ?h1 [])"
  have w3: "lastSize w3 = of_nat 1" "lastMerkle w3 = hexEncode (merkleRoot ?H (take 1 [a, x, y]))"
      "seenRoot w3 = [1 \<mapsto> r1, 2 \<mapsto> r2]" "maxSize w3 = 2"
    unfolding w3_def CounterSign_ok [OF 3] by (simp_all add: w2 headOf_def fun_upd_twist max_def word_le_nat_alt)
  have 4: "monotonic w3 ?h4 = None" by (simp add: monotonic_def w3 headOf_def word_le_nat_alt)
  note 4 = 4 CounterSign_extension [OF w3(1,2) _ _ _ 4, simplified]
  from attests_accept [OF attests_accept [OF attests_accept [OF attests_accept
        [OF attests_Nil 1 g(1)] _ _ g(2)] _ _ g(1)] _ _ g(3)] 2 3 4
  show ?thesis by (auto simp: w1_def w2_def w3_def)
qed

end
