(* ===== verification/AuditLog.thy ===== *)
theory AuditLog
  imports Witness
begin

text \<open>
  \<open>internal/audit/chain.go\<close>, \<open>proofs.go\<close> and \<open>sink.go\<close>: the append-only audit chain of a node. Every
  method of \<open>Log\<close> runs under its mutex, so a method is one atomic step on the record \<open>log\<close>, and an
  interleaving of calls is a sequence of steps.

  The environment's choices for one call are the record \<open>env\<close>: the event id and time stamp that the
  clock would give, and the fate of the WAL and checkpoint writes. A panic of the code is the left
  part of the result; the state reached when it is raised is returned as well, because a panic in a
  request handler does not end the process. Projections are fed after the record is sealed and their
  errors are discarded; they do not influence the log and are left out.
\<close>

section \<open>State\<close>

record 'sk log =
  nodeID :: string
  hmacKey :: bytes
  signPriv :: 'sk
  witness :: "'sk witness option"
  records :: "audit_record list"
  prevHash :: string
  seq :: "64 word"
  everyN :: "64 word"
  checkpoints :: "checkpoint list"
  sinceCP :: "64 word"
  lwal :: "wal option"
  ringCap :: int
  leaves :: "bytes list"

record 'sk config =
  cfgNodeID :: string
  cfgHMACKey :: bytes
  CheckpointEvery :: "64 word"
  cfgWitness :: "'sk witness option"
  SigningKey :: 'sk
  cfgWAL :: "wal option"
  cfgRingCap :: int

record env =
  envEventID :: string
  envTS :: string
  envWal :: walio
  envCp :: "nat option"

datatype panic = NoHmacKey | WalAppendFailed wal_error | WalReplayFailed wal_error | NoEventType

definition defaultRingCap :: int where
  "defaultRingCap = 4096"

section \<open>Construction and replay\<close>

definition replayWAL :: "codec \<Rightarrow> bool \<Rightarrow> 'sk log \<Rightarrow> wal \<Rightarrow> 'sk log \<times> panic option" where
  "replayWAL C truncOK l w =
     (case ReadAll C truncOK w of
        (Inl e, w') \<Rightarrow> (l\<lparr>lwal := Some w'\<rparr>, Some (WalReplayFailed e))
      | (Inr recs, w') \<Rightarrow>
          let cps = (case ReadCheckpoints C w' of Inl e \<Rightarrow> [] | Inr cps \<Rightarrow> cps);
              l1 = l\<lparr>lwal := Some w', checkpoints := cps\<rparr>
          in if recs = [] then (l1, None)
             else let start = (if int (length recs) > ringCap l then length recs - nat (ringCap l) else 0);
                      lastCP = (if cps = [] then 0 else TreeSize (last cps))
                  in (l1\<lparr>seq := Seq (last recs), prevHash := RecordHash (last recs),
                         leaves := map RecordHash recs, records := drop start recs,
                         sinceCP := Seq (last recs) - lastCP\<rparr>, None))"

definition NewLog :: "codec \<Rightarrow> bool \<Rightarrow> 'sk config \<Rightarrow> 'sk log \<times> panic option" where
  "NewLog C truncOK cfg =
     (let n = (if CheckpointEvery cfg = 0 then 16 else CheckpointEvery cfg);
          l = \<lparr>nodeID = cfgNodeID cfg, hmacKey = cfgHMACKey cfg, signPriv = SigningKey cfg,
               witness = cfgWitness cfg, records = [], prevHash = [], seq = 0, everyN = n,
               checkpoints = [], sinceCP = 0, lwal = cfgWAL cfg, ringCap = cfgRingCap cfg, leaves = []\<rparr>
      in case lwal l of
           None \<Rightarrow> (l, None)
         | Some w \<Rightarrow>
             let l' = (if ringCap l \<le> 0 then l\<lparr>ringCap := defaultRingCap\<rparr> else l)
             in replayWAL C truncOK l' w)"

section \<open>Appending\<close>

definition sealRecord :: "'sk prims \<Rightarrow> env \<Rightarrow> 'sk log \<Rightarrow> audit_record \<Rightarrow> audit_record" where
  "sealRecord P env l r =
     (let r1 = r\<lparr>Seq := seq l + 1, NodeID := nodeID l\<rparr>;
          r2 = (if EventID r1 = [] then r1\<lparr>EventID := envEventID env\<rparr> else r1);
          r3 = (if TS r2 = [] then r2\<lparr>TS := envTS env\<rparr> else r2);
          r4 = (if EventVer r3 = [] then r3\<lparr>EventVer := EventSchemaVersion\<rparr> else r3);
          r5 = r4\<lparr>PrevHash := prevHash l\<rparr>
      in r5\<lparr>RecordHash := computeRecordHash P r5 (prevHash l)\<rparr>)"

definition addHMAC :: "'sk prims \<Rightarrow> bytes \<Rightarrow> audit_record \<Rightarrow> audit_record" where
  "addHMAC P key r = r\<lparr>HMAC := hexEncode (hmacSha P key (RecordHash r))\<rparr>"

definition countersign :: "'sk prims \<Rightarrow> 'sk log \<Rightarrow> checkpoint \<Rightarrow> 'sk witness option \<times> checkpoint" where
  "countersign P l cp =
     (case witness l of
        None \<Rightarrow> (None, cp)
      | Some wt \<Rightarrow>
          let cproof = (if lastSize wt > 0 \<and> lastSize wt < seq l
                        then consistencyProof (sha256 P) (leaves l) (sint (lastSize wt)) else [])
          in case CounterSign P wt cp cproof of
               (wt', Inr wsig) \<Rightarrow> (Some wt', cp\<lparr>WitnessSig := wsig\<rparr>)
             | (wt', Inl e) \<Rightarrow> (Some wt', cp))"

definition checkpointLocked :: "'sk prims \<Rightarrow> codec \<Rightarrow> nat option \<Rightarrow> 'sk log \<Rightarrow> 'sk log" where
  "checkpointLocked P C cpio l =
     (let prev = (if checkpoints l = [] then [] else Sig (last (checkpoints l)));
          cp = \<lparr>CpNodeID = nodeID l, TreeSize = seq l, Root = prevHash l,
                MerkleRoot = hexEncode (merkleRoot (sha256 P) (leaves l)), PrevCP = prev,
                Sig = [], WitnessSig = []\<rparr>;
          cp1 = cp\<lparr>Sig := hexEncode (edSign P (signPriv l) (sthBytes P cp))\<rparr>
      in case countersign P l cp1 of
           (wt, cp2) \<Rightarrow>
             l\<lparr>witness := wt, checkpoints := checkpoints l @ [cp2], sinceCP := 0,
               lwal := map_option (\<lambda>w. snd (AppendCheckpoint C cpio w cp2)) (lwal l)\<rparr>)"

definition commit :: "'sk prims \<Rightarrow> codec \<Rightarrow> env \<Rightarrow> 'sk log \<Rightarrow> audit_record \<Rightarrow> 'sk log" where
  "commit P C env l r =
     (let l1 = l\<lparr>seq := Seq r, records := records l @ [r], prevHash := RecordHash r,
                 leaves := leaves l @ [RecordHash r], sinceCP := sinceCP l + 1\<rparr>;
          l2 = (if lwal l1 \<noteq> None \<and> ringCap l1 > 0 \<and> int (length (records l1)) > 2 * ringCap l1
                then l1\<lparr>records := drop (length (records l1) - nat (ringCap l1)) (records l1)\<rparr> else l1)
      in if sinceCP l2 \<ge> everyN l2 then checkpointLocked P C (envCp env) l2 else l2)"

definition Append :: "'sk prims \<Rightarrow> codec \<Rightarrow> env \<Rightarrow> audit_record \<Rightarrow> 'sk log \<Rightarrow> 'sk log \<times> (panic + audit_record)" where
  "Append P C env r l =
     (let s = sealRecord P env l r
      in if hmacKey l = [] then (l, Inl NoHmacKey)
         else let s' = addHMAC P (hmacKey l) s
              in case lwal l of
                   None \<Rightarrow> (commit P C env l s', Inr s')
                 | Some w \<Rightarrow>
                     (case AppendRecord C (envWal env) w s' of
                        (Some e, w') \<Rightarrow> (l\<lparr>lwal := Some w'\<rparr>, Inl (WalAppendFailed e))
                      | (None, w') \<Rightarrow> (commit P C env (l\<lparr>lwal := Some w'\<rparr>) s', Inr s')))"

definition Checkpoint :: "'sk prims \<Rightarrow> codec \<Rightarrow> nat option \<Rightarrow> 'sk log \<Rightarrow> 'sk log \<times> checkpoint" where
  "Checkpoint P C cpio l =
     (let l' = checkpointLocked P C cpio l in (l', last (checkpoints l')))"

section \<open>Reading\<close>

definition Records :: "codec \<Rightarrow> bool \<Rightarrow> 'sk log \<Rightarrow> 'sk log \<times> audit_record list" where
  "Records C truncOK l =
     (case lwal l of
        None \<Rightarrow> (l, records l)
      | Some w \<Rightarrow>
          (case ReadAll C truncOK w of
             (Inl e, w') \<Rightarrow> (l\<lparr>lwal := Some w'\<rparr>, [])
           | (Inr recs, w') \<Rightarrow> (l\<lparr>lwal := Some w'\<rparr>, recs)))"

definition Recent :: "int \<Rightarrow> 'sk log \<Rightarrow> audit_record list" where
  "Recent n l =
     (let n' = (if n \<le> 0 \<or> n > int (length (records l)) then length (records l) else nat n)
      in drop (length (records l) - n') (records l))"

definition Checkpoints :: "'sk log \<Rightarrow> checkpoint list" where
  "Checkpoints l = checkpoints l"

definition Len :: "'sk log \<Rightarrow> int" where
  "Len l = sint (seq l)"

definition PublicKey :: "'sk prims \<Rightarrow> 'sk log \<Rightarrow> bytes" where
  "PublicKey P l = edPub P (signPriv l)"

definition WitnessPublicKey :: "'sk prims \<Rightarrow> 'sk log \<Rightarrow> bytes" where
  "WitnessPublicKey P l = (case witness l of None \<Rightarrow> [] | Some wt \<Rightarrow> edPub P (wpriv wt))"

section \<open>Proofs over the log (proofs.go)\<close>

record inclusion_result =
  LeafData :: bytes
  LeafIndex :: int
  IncTreeSize :: int
  IncProof :: "bytes list"

definition LogMerkleRoot :: "'sk prims \<Rightarrow> 'sk log \<Rightarrow> bytes" where
  "LogMerkleRoot P l = merkleRoot (sha256 P) (leaves l)"

definition InclusionProofAt :: "'sk prims \<Rightarrow> 'sk log \<Rightarrow> 64 word \<Rightarrow> 64 word \<Rightarrow> inclusion_result option" where
  "InclusionProofAt P l sq size' =
     (if sq = 0 \<or> sq > size' \<or> size' > of_nat (length (leaves l)) then None
      else let sub = take (unat size') (leaves l); idx = sint (sq - 1)
           in Some \<lparr>LeafData = sub ! nat idx, LeafIndex = idx, IncTreeSize = sint size',
                    IncProof = inclusionProof (sha256 P) sub idx\<rparr>)"

definition InclusionProof :: "'sk prims \<Rightarrow> 'sk log \<Rightarrow> 64 word \<Rightarrow> inclusion_result option" where
  "InclusionProof P l sq =
     (if sq = 0 \<or> sq > of_nat (length (leaves l)) then None
      else let idx = sint (sq - 1)
           in Some \<lparr>LeafData = leaves l ! nat idx, LeafIndex = idx, IncTreeSize = int (length (leaves l)),
                    IncProof = inclusionProof (sha256 P) (leaves l) idx\<rparr>)"

definition ConsistencyProof :: "'sk prims \<Rightarrow> 'sk log \<Rightarrow> 64 word \<Rightarrow> bytes list option" where
  "ConsistencyProof P l oldSize =
     (if oldSize = 0 \<or> oldSize \<ge> of_nat (length (leaves l)) then None
      else Some (consistencyProof (sha256 P) (leaves l) (sint oldSize)))"

section \<open>The enforcement sink (sink.go)\<close>

text \<open>An action is a function on the state it affects; \<open>None\<close> is the nil action.\<close>

definition EmitAndAct ::
    "'sk prims \<Rightarrow> codec \<Rightarrow> env \<Rightarrow> audit_record \<Rightarrow> ('s \<Rightarrow> 's) option \<Rightarrow> 'sk log \<times> 's \<Rightarrow>
     ('sk log \<times> 's) \<times> (panic + audit_record)" where
  "EmitAndAct P C env r act st =
     (if EventType r = [] then (st, Inl NoEventType)
      else case Append P C env r (fst st) of
             (l, Inl p) \<Rightarrow> ((l, snd st), Inl p)
           | (l, Inr sealed) \<Rightarrow>
               ((l, (case act of None \<Rightarrow> snd st | Some f \<Rightarrow> f (snd st))), Inr sealed))"

definition Emit ::
    "'sk prims \<Rightarrow> codec \<Rightarrow> env \<Rightarrow> audit_record \<Rightarrow> 'sk log \<times> 's \<Rightarrow> ('sk log \<times> 's) \<times> (panic + audit_record)"
  where "Emit P C env r st = EmitAndAct P C env r None st"

end
