(* ===== verification/AuditVerify.thy ===== *)
theory AuditVerify
  imports AuditLog
begin

text \<open>
  \<open>internal/audit/verifier.go\<close>: the offline verifier of an exported chain, what it accepts
  (\<open>chained\<close> and \<open>heads\<close>), and the invariant of the log that makes every chain it builds pass.
\<close>

section \<open>The verifier\<close>

datatype mismatch_class =
    ClassOK | ClassHashBreak | ClassHMACInvalid | ClassSeqGap | ClassLinkageBreak
  | ClassCheckpointBad | ClassWitnessBad | ClassEmptyChain | ClassHMACUnchecked | ClassNodeMissing

record verify_result =
  VOK :: bool
  Class :: mismatch_class
  AtSeq :: "64 word"
  Detail :: string

definition passResult :: verify_result where
  "passResult = \<lparr>VOK = True, Class = ClassOK, AtSeq = 0, Detail = []\<rparr>"

definition failAt :: "mismatch_class \<Rightarrow> 64 word \<Rightarrow> string \<Rightarrow> verify_result" where
  "failAt c n d = \<lparr>VOK = False, Class = c, AtSeq = n, Detail = d\<rparr>"

definition mustHex :: "string \<Rightarrow> bytes" where
  "mustHex s = fst (hexDecode s)"

function itoaLoop :: "64 word \<Rightarrow> string \<Rightarrow> string" where
  "itoaLoop v b = (if v > 0 then itoaLoop (v div 10) (digitChar (unat (v mod 10)) # b) else b)"
  by pat_completeness auto
termination
  by (relation "measure (unat \<circ> fst)") (auto simp: unat_div word_greater_zero_iff unat_gt_0)

declare itoaLoop.simps [simp del]

definition itoa :: "64 word \<Rightarrow> string" where
  "itoa v = (if v = 0 then ''0'' else itoaLoop v [])"

fun verifyChain ::
    "'sk prims \<Rightarrow> bytes \<Rightarrow> string \<Rightarrow> 64 word \<Rightarrow> audit_record list \<Rightarrow> verify_result option" where
  "verifyChain P key prev expectSeq [] = None"
| "verifyChain P key prev expectSeq (r # rs) =
     (if Seq r \<noteq> expectSeq then Some (failAt ClassSeqGap (Seq r) (''expected seq '' @ itoa expectSeq))
      else if PrevHash r \<noteq> prev
      then Some (failAt ClassLinkageBreak (Seq r) ''prev_hash does not match chain head'')
      else if computeRecordHash P r prev \<noteq> RecordHash r
      then Some (failAt ClassHashBreak (Seq r) ''record content was altered'')
      else if key \<noteq> [] \<and> hexEncode (hmacSha P key (RecordHash r)) \<noteq> HMAC r
      then Some (failAt ClassHMACInvalid (Seq r) ''hmac invalid'')
      else verifyChain P key (RecordHash r) (expectSeq + 1) rs)"

definition rootAt :: "audit_record list \<Rightarrow> 64 word \<rightharpoonup> string" where
  "rootAt recs = (map_of (rev (map (\<lambda>r. (Seq r, RecordHash r)) recs)))(0 \<mapsto> [])"

fun verifyHeads ::
    "'sk prims \<Rightarrow> bytes \<Rightarrow> audit_record list \<Rightarrow> string \<Rightarrow> checkpoint list \<Rightarrow> verify_result option" where
  "verifyHeads P pub recs pv [] = None"
| "verifyHeads P pub recs pv (cp # cps) =
     (if \<not> edVerify P pub (sthBytes P cp) (mustHex (Sig cp))
      then Some (failAt ClassCheckpointBad (TreeSize cp) ''checkpoint signature invalid'')
      else if PrevCP cp \<noteq> pv
      then Some (failAt ClassCheckpointBad (TreeSize cp) ''checkpoint chain broken'')
      else if rootAt recs (TreeSize cp) \<noteq> Some (Root cp)
      then Some (failAt ClassCheckpointBad (TreeSize cp)
             ''checkpoint root does not match records (truncation/rollback)'')
      else if MerkleRoot cp \<noteq> [] \<and> (of_nat (length recs) :: 64 word) < TreeSize cp
      then Some (failAt ClassCheckpointBad (TreeSize cp)
             ''checkpoint merkle root: fewer records than tree size'')
      else if MerkleRoot cp \<noteq> [] \<and>
              hexEncode (merkleRoot (sha256 P) (map RecordHash (take (unat (TreeSize cp)) recs))) \<noteq> MerkleRoot cp
      then Some (failAt ClassCheckpointBad (TreeSize cp)
             ''checkpoint merkle root does not match records (STH committed a different leaf set)'')
      else verifyHeads P pub recs (Sig cp) cps)"

definition Verify ::
    "'sk prims \<Rightarrow> audit_record list \<Rightarrow> checkpoint list \<Rightarrow> bytes \<Rightarrow> bytes \<Rightarrow> verify_result" where
  "Verify P recs cps key pub =
     (if recs = [] then failAt ClassEmptyChain 0 ''empty chain is not a pass''
      else case verifyChain P key [] 1 recs of
             Some res \<Rightarrow> res
           | None \<Rightarrow>
               (case verifyHeads P pub recs [] cps of
                  Some res \<Rightarrow> res
                | None \<Rightarrow>
                    if key = []
                    then \<lparr>VOK = True, Class = ClassHMACUnchecked, AtSeq = 0,
                          Detail = ''hmac layer skipped (no key); hash chain and STH signatures verified''\<rparr>
                    else passResult))"

definition SelfVerify :: "'sk prims \<Rightarrow> codec \<Rightarrow> bool \<Rightarrow> 'sk log \<Rightarrow> 'sk log \<times> verify_result" where
  "SelfVerify P C truncOK l =
     (case Records C truncOK l of
        (l', recs) \<Rightarrow>
          let cps = checkpoints l'; res = Verify P recs cps (hmacKey l') (PublicKey P l')
          in if \<not> VOK res then (l', res)
             else if WitnessPublicKey P l' \<noteq> []
             then (case VerifyWitness P cps (WitnessPublicKey P l') of
                     (n, ok) \<Rightarrow>
                       if ok then (l', res)
                       else (l', failAt ClassWitnessBad n ''witness co-signature missing or invalid''))
             else (l', res))"

section \<open>What the verifier accepts\<close>

definition headHash :: "audit_record list \<Rightarrow> string" where
  "headHash hist = (if hist = [] then [] else RecordHash (last hist))"

text \<open>A chain: record \<open>i\<close> has sequence number \<open>i + 1\<close>, is linked to its predecessor and sealed.\<close>

definition link :: "'sk prims \<Rightarrow> bytes \<Rightarrow> audit_record list \<Rightarrow> audit_record \<Rightarrow> bool" where
  "link P key before r \<longleftrightarrow>
     Seq r = of_nat (length before) + 1 \<and> PrevHash r = headHash before \<and>
     RecordHash r = computeRecordHash P r (headHash before) \<and>
     (key \<noteq> [] \<longrightarrow> HMAC r = hexEncode (hmacSha P key (RecordHash r)))"

definition chained :: "'sk prims \<Rightarrow> bytes \<Rightarrow> audit_record list \<Rightarrow> bool" where
  "chained P key hist \<longleftrightarrow> (\<forall>i < length hist. link P key (take i hist) (hist ! i))"

text \<open>A tree head that states the root and the Merkle root of a prefix of the chain.\<close>

definition headOK :: "'sk prims \<Rightarrow> bytes \<Rightarrow> audit_record list \<Rightarrow> string \<Rightarrow> checkpoint \<Rightarrow> bool" where
  "headOK P pub hist pv cp \<longleftrightarrow>
     edVerify P pub (sthBytes P cp) (mustHex (Sig cp)) \<and> PrevCP cp = pv \<and>
     unat (TreeSize cp) \<le> length hist \<and> Root cp = headHash (take (unat (TreeSize cp)) hist) \<and>
     (MerkleRoot cp \<noteq> [] \<longrightarrow>
        MerkleRoot cp = hexEncode (merkleRoot (sha256 P) (map RecordHash (take (unat (TreeSize cp)) hist))))"

definition lastSig :: "checkpoint list \<Rightarrow> string" where
  "lastSig cps = (if cps = [] then [] else Sig (last cps))"

definition heads :: "'sk prims \<Rightarrow> bytes \<Rightarrow> audit_record list \<Rightarrow> checkpoint list \<Rightarrow> bool" where
  "heads P pub hist cps \<longleftrightarrow> (\<forall>i < length cps. headOK P pub hist (lastSig (take i cps)) (cps ! i))"

lemma chained_Nil [simp]: "chained P key []"
  by (simp add: chained_def)

lemma chained_snoc [simp]: "chained P key (hist @ [r]) \<longleftrightarrow> chained P key hist \<and> link P key hist r"
  by (auto simp: chained_def nth_append less_Suc_eq)

lemma heads_Nil [simp]: "heads P pub hist []"
  by (simp add: heads_def)

lemma heads_snoc [simp]:
  "heads P pub hist (cps @ [cp]) \<longleftrightarrow> heads P pub hist cps \<and> headOK P pub hist (lastSig cps) cp"
  by (auto simp: heads_def nth_append less_Suc_eq)

lemma headHash_snoc [simp]: "headHash (hist @ [r]) = RecordHash r"
  by (simp add: headHash_def)

lemma headHash_Nil [simp]: "headHash [] = []"
  by (simp add: headHash_def)

lemma lastSig_simps [simp]: "lastSig [] = []" "lastSig (cps @ [cp]) = Sig cp"
  by (simp_all add: lastSig_def)

lemma verifyChain_Cons:
  "verifyChain P key (headHash before) (of_nat (length before) + 1) (r # rs) = None \<longleftrightarrow>
   link P key before r \<and>
   verifyChain P key (headHash (before @ [r])) (of_nat (length (before @ [r])) + 1) rs = None"
proof -
  have n: "of_nat (length (before @ [r])) + 1 = (of_nat (length before) + 1 :: 64 word) + 1" by simp
  show ?thesis unfolding n headHash_snoc verifyChain.simps(2) link_def by (simp del: verifyChain.simps) auto
qed

lemma verifyChain_append:
  "verifyChain P key (headHash before) (of_nat (length before) + 1) rs = None \<longleftrightarrow>
   (\<forall>i < length rs. link P key (before @ take i rs) (rs ! i))"
proof (induction rs arbitrary: before)
  case (Cons r rs)
  have "(\<forall>i < length (r # rs). link P key (before @ take i (r # rs)) ((r # rs) ! i)) \<longleftrightarrow>
        link P key before r \<and> (\<forall>i < length rs. link P key ((before @ [r]) @ take i rs) (rs ! i))"
    by (auto simp: less_Suc_eq_0_disj)
  then show ?case unfolding verifyChain_Cons Cons [of "before @ [r]"] ..
qed simp

lemma verifyChain_iff: "verifyChain P key [] 1 rs = None \<longleftrightarrow> chained P key rs"
  using verifyChain_append [of P key "[]" rs] by (simp add: chained_def)

lemma unat_eq_Suc_length:
  "n < 2 ^ 64 - 1 \<Longrightarrow> (x :: 64 word) = of_nat n + 1 \<longleftrightarrow> unat x = Suc n"
proof -
  assume "n < 2 ^ 64 - 1"
  then have "unat (of_nat (Suc n) :: 64 word) = Suc n"
    by (simp add: unsigned_of_nat take_bit_nat_eq_self del: of_nat_Suc)
  moreover have "of_nat n + 1 = (of_nat (Suc n) :: 64 word)" by simp
  ultimately show ?thesis by (metis word_unat_eq_iff)
qed

lemma rootAt_snoc: "rootAt (hist @ [r]) = (\<lambda>x. if x = 0 then Some [] else if x = Seq r then Some (RecordHash r) else rootAt hist x)"
  by (auto simp: rootAt_def)

lemma rootAt_chained:
  "chained P key hist \<Longrightarrow> length hist < 2 ^ 64 \<Longrightarrow>
   rootAt hist n = (if unat n \<le> length hist then Some (headHash (take (unat n) hist)) else None)"
proof (induction hist rule: rev_induct)
  case Nil
  then show ?case by (auto simp: rootAt_def unat_eq_0)
next
  case (snoc r hist)
  then have IH: "rootAt hist n = (if unat n \<le> length hist then Some (headHash (take (unat n) hist)) else None)"
    by simp
  have "Seq r = of_nat (length hist) + 1" using snoc.prems(1) by (simp add: link_def)
  then have eq: "n = Seq r \<longleftrightarrow> unat n = Suc (length hist)"
    using unat_eq_Suc_length [of "length hist" n] snoc.prems(2) by simp
  show ?case
  proof (cases "unat n = Suc (length hist)")
    case True
    then show ?thesis using eq by (auto simp: rootAt_snoc)
  next
    case False
    then show ?thesis using eq IH by (auto simp: rootAt_snoc)
  qed
qed

lemma verifyHeads_Cons:
  assumes "chained P key hist" and "length hist < 2 ^ 64"
  shows "verifyHeads P pub hist pv (cp # cps) = None \<longleftrightarrow>
         headOK P pub hist pv cp \<and> verifyHeads P pub hist (Sig cp) cps = None"
proof -
  have "(of_nat (length hist) :: 64 word) < TreeSize cp \<longleftrightarrow> length hist < unat (TreeSize cp)"
    using assms(2) by (simp add: word_less_nat_alt unsigned_of_nat take_bit_nat_eq_self)
  then show ?thesis
    unfolding verifyHeads.simps(2) rootAt_chained [OF assms] headOK_def by (simp del: verifyHeads.simps) auto
qed

lemma verifyHeads_append:
  assumes "chained P key hist" and "length hist < 2 ^ 64"
  shows "verifyHeads P pub hist (lastSig before) cps = None \<longleftrightarrow>
         (\<forall>i < length cps. headOK P pub hist (lastSig (before @ take i cps)) (cps ! i))"
proof (induction cps arbitrary: before)
  case (Cons cp cps)
  have "(\<forall>i < length (cp # cps). headOK P pub hist (lastSig (before @ take i (cp # cps))) ((cp # cps) ! i)) \<longleftrightarrow>
        headOK P pub hist (lastSig before) cp \<and>
        (\<forall>i < length cps. headOK P pub hist (lastSig ((before @ [cp]) @ take i cps)) (cps ! i))"
    by (auto simp: less_Suc_eq_0_disj)
  moreover have "verifyHeads P pub hist (Sig cp) cps = None \<longleftrightarrow>
      (\<forall>i < length cps. headOK P pub hist (lastSig ((before @ [cp]) @ take i cps)) (cps ! i))"
    using Cons [of "before @ [cp]"] by simp
  ultimately show ?case unfolding verifyHeads_Cons [OF assms] by blast
qed simp

lemma verifyHeads_iff:
  assumes "chained P key hist" and "length hist < 2 ^ 64"
  shows "verifyHeads P pub hist [] cps = None \<longleftrightarrow> heads P pub hist cps"
  using verifyHeads_append [OF assms, of pub "[]" cps] by (simp add: heads_def)

lemma verifyChain_fails: "verifyChain P key prev n rs = Some res \<Longrightarrow> \<not> VOK res"
  by (induction rs arbitrary: prev n) (auto simp: failAt_def split: if_splits)

lemma verifyHeads_fails: "verifyHeads P pub recs pv cps = Some res \<Longrightarrow> \<not> VOK res"
  by (induction cps arbitrary: pv) (auto simp: failAt_def split: if_splits)

lemma Verify_OK_iff:
  assumes "length recs < 2 ^ 64"
  shows "VOK (Verify P recs cps key pub) \<longleftrightarrow> recs \<noteq> [] \<and> chained P key recs \<and> heads P pub recs cps"
proof (cases "chained P key recs")
  case True
  then have c: "verifyChain P key [] 1 recs = None" by (simp add: verifyChain_iff)
  show ?thesis
  proof (cases "verifyHeads P pub recs [] cps")
    case None
    then have "heads P pub recs cps" using verifyHeads_iff [OF True assms, of pub cps] by simp
    then show ?thesis by (simp add: True c None Verify_def failAt_def passResult_def)
  next
    case (Some res)
    then show ?thesis
      using c verifyHeads_iff [OF True assms, of pub cps] verifyHeads_fails [OF Some]
      by (simp add: Verify_def failAt_def)
  qed
next
  case False
  then obtain res where R: "verifyChain P key [] 1 recs = Some res"
    using verifyChain_iff [of P key recs] by auto
  then show ?thesis using False verifyChain_fails [OF R] by (simp add: Verify_def failAt_def)
qed

lemma Verify_pass:
  assumes "length recs < 2 ^ 64" and "recs \<noteq> []" and "key \<noteq> []" and "chained P key recs" and "heads P pub recs cps"
  shows "Verify P recs cps key pub = passResult"
  using assms verifyHeads_iff [OF assms(4,1), of pub cps] verifyChain_iff [of P key recs]
  by (simp add: Verify_def)

section \<open>The invariant of the log\<close>

text \<open>
  \<open>hist\<close> is the whole history of sealed records, of which the log itself may keep only a window: with
  a WAL it is on disk.
\<close>

definition edOK :: "'sk prims \<Rightarrow> bool" where
  "edOK P \<longleftrightarrow> (\<forall>k m. edVerify P (edPub P k) m (edSign P k m) \<and> edSign P k m \<noteq> [])"

definition lastCPSize :: "'sk log \<Rightarrow> 64 word" where
  "lastCPSize l = (if checkpoints l = [] then 0 else TreeSize (last (checkpoints l)))"

definition storeInv :: "codec \<Rightarrow> 'sk log \<Rightarrow> audit_record list \<Rightarrow> bool" where
  "storeInv C l hist \<longleftrightarrow>
     (case lwal l of
        None \<Rightarrow> records l = hist
      | Some w \<Rightarrow> walHolds C w hist \<and> 0 < ringCap l \<and> suffix (records l) hist \<and>
                  int (length (records l)) \<le> 2 * ringCap l \<and>
                  (records l = hist \<or> ringCap l \<le> int (length (records l))))"

definition logInv :: "'sk prims \<Rightarrow> codec \<Rightarrow> 'sk log \<Rightarrow> audit_record list \<Rightarrow> bool" where
  "logInv P C l hist \<longleftrightarrow>
     seq l = of_nat (length hist) \<and> prevHash l = headHash hist \<and> leaves l = map RecordHash hist \<and>
     hmacKey l \<noteq> [] \<and> everyN l \<noteq> 0 \<and> chained P (hmacKey l) hist \<and>
     heads P (PublicKey P l) hist (checkpoints l) \<and> sinceCP l = seq l - lastCPSize l \<and> storeInv C l hist"

lemma canonicalFields_hashes [simp]:
  "canonicalFields P (r\<lparr>PrevHash := a\<rparr>) = canonicalFields P r"
  "canonicalFields P (r\<lparr>RecordHash := b\<rparr>) = canonicalFields P r"
  "canonicalFields P (r\<lparr>HMAC := c\<rparr>) = canonicalFields P r"
  by (simp_all add: canonicalFields_def)

lemma computeRecordHash_hashes [simp]:
  "computeRecordHash P (r\<lparr>PrevHash := a\<rparr>) p = computeRecordHash P r p"
  "computeRecordHash P (r\<lparr>RecordHash := b\<rparr>) p = computeRecordHash P r p"
  "computeRecordHash P (r\<lparr>HMAC := c\<rparr>) p = computeRecordHash P r p"
  by (simp_all add: computeRecordHash_def canonicalBytes_def)

abbreviation sealed :: "'sk prims \<Rightarrow> env \<Rightarrow> 'sk log \<Rightarrow> audit_record \<Rightarrow> audit_record" where
  "sealed P env l r \<equiv> addHMAC P (hmacKey l) (sealRecord P env l r)"

lemma sealed_link:
  assumes "seq l = of_nat (length hist)" and "prevHash l = headHash hist"
  shows "link P (hmacKey l) hist (sealed P env l r)"
  using assms by (simp add: link_def addHMAC_def sealRecord_def Let_def)

lemma sealed_Seq [simp]: "Seq (sealed P env l r) = seq l + 1"
  by (simp add: addHMAC_def sealRecord_def Let_def)

lemma heads_mono: "heads P pub hist cps \<Longrightarrow> heads P pub (hist @ [r]) cps"
  unfolding heads_def headOK_def by (simp add: le_SucI)

lemma countersign_fields:
  assumes "countersign P l cp = (wt, cp2)" and "WitnessSig cp = []"
  shows "\<exists>s. cp2 = cp\<lparr>WitnessSig := s\<rparr>"
proof -
  have "cp = cp\<lparr>WitnessSig := []\<rparr>" using assms(2) by simp
  then have "\<exists>s. cp = cp\<lparr>WitnessSig := s\<rparr>" by blast
  then show ?thesis
    using assms(1) unfolding countersign_def Let_def by (auto split: option.splits prod.splits sum.splits)
qed

lemma walDir_other:
  assumes "walDir C d n rss" and "\<not> isSeg k"
  shows "walDir C (AList.update k v d) n rss"
proof -
  have "{x \<in> insert k (fst ` set d). isSeg x} = {x \<in> fst ` set d. isSeg x}" using assms(2) by auto
  moreover have "segPath i \<noteq> k" for i using assms(2) isSeg_segPath by metis
  ultimately show ?thesis using assms(1) by (simp add: walDir_def fst_set_update distinct_update)
qed

lemma walHolds_AppendCheckpoint: "walHolds C w recs \<Longrightarrow> walHolds C (snd (AppendCheckpoint C io w cp)) recs"
  unfolding AppendCheckpoint_def walHolds_def
  by (auto simp: Let_def intro!: exI walDir_other split: option.splits)

definition newHead :: "'sk prims \<Rightarrow> 'sk log \<Rightarrow> checkpoint" where
  "newHead P l =
     (let cp = \<lparr>CpNodeID = nodeID l, TreeSize = seq l, Root = prevHash l,
                MerkleRoot = hexEncode (merkleRoot (sha256 P) (leaves l)), PrevCP = lastSig (checkpoints l),
                Sig = [], WitnessSig = []\<rparr>
      in cp\<lparr>Sig := hexEncode (edSign P (signPriv l) (sthBytes P cp))\<rparr>)"

lemma checkpointLocked_newHead:
  "checkpointLocked P C io l =
     l\<lparr>witness := fst (countersign P l (newHead P l)),
       checkpoints := checkpoints l @ [snd (countersign P l (newHead P l))], sinceCP := 0,
       lwal := map_option (\<lambda>w. snd (AppendCheckpoint C io w (snd (countersign P l (newHead P l))))) (lwal l)\<rparr>"
  by (simp add: checkpointLocked_def newHead_def lastSig_def Let_def split: prod.splits)

lemma countersign_newHead:
  obtains s where "snd (countersign P l (newHead P l)) = (newHead P l)\<lparr>WitnessSig := s\<rparr>"
  using countersign_fields [of P l "newHead P l", OF prod.collapse [symmetric]]
  by (auto simp: newHead_def Let_def)

lemma newHead_fields:
  "Sig (newHead P l) = hexEncode (edSign P (signPriv l) (sthBytes P (newHead P l)))"
  "TreeSize (newHead P l) = seq l" "Root (newHead P l) = prevHash l"
  "MerkleRoot (newHead P l) = hexEncode (merkleRoot (sha256 P) (leaves l))"
  "PrevCP (newHead P l) = lastSig (checkpoints l)"
  by (simp_all add: newHead_def Let_def sthBytes_def)

lemma headOK_newHead:
  assumes "edOK P" and "logInv P C l hist" and "length hist < 2 ^ 64"
  shows "headOK P (PublicKey P l) hist (lastSig (checkpoints l)) ((newHead P l)\<lparr>WitnessSig := s\<rparr>)"
proof -
  have "unat (seq l) = length hist"
    using assms(2,3) by (simp add: logInv_def unsigned_of_nat take_bit_nat_eq_self)
  then show ?thesis
    using assms(1,2)
    by (simp add: headOK_def newHead_fields logInv_def edOK_def PublicKey_def mustHex_def)
qed

lemma storeInv_AppendCheckpoint:
  assumes "storeInv C l hist" and "records l' = records l" and "ringCap l' = ringCap l"
    and "lwal l' = map_option (\<lambda>w. snd (AppendCheckpoint C io w cp)) (lwal l)"
  shows "storeInv C l' hist"
  using assms walHolds_AppendCheckpoint by (auto simp: storeInv_def split: option.splits)

lemma checkpointLocked_inv [wf_intros]:
  assumes "edOK P" and "logInv P C l hist" and "length hist < 2 ^ 64"
  shows "logInv P C (checkpointLocked P C io l) hist"
proof -
  obtain s where s: "snd (countersign P l (newHead P l)) = (newHead P l)\<lparr>WitnessSig := s\<rparr>"
    by (rule countersign_newHead)
  have "storeInv C (checkpointLocked P C io l) hist"
    by (rule storeInv_AppendCheckpoint [of C l])
       (use assms(2) in \<open>simp_all add: logInv_def checkpointLocked_newHead\<close>)
  then show ?thesis
    using assms(2) headOK_newHead [OF assms, of s] unfolding checkpointLocked_newHead s
    by (simp add: logInv_def PublicKey_def lastCPSize_def newHead_def Let_def)
qed

section \<open>Appending keeps the invariant\<close>

definition trimRing :: "'sk log \<Rightarrow> 'sk log" where
  "trimRing l =
     (if lwal l \<noteq> None \<and> ringCap l > 0 \<and> int (length (records l)) > 2 * ringCap l
      then l\<lparr>records := drop (length (records l) - nat (ringCap l)) (records l)\<rparr> else l)"

definition pushRecord :: "'sk log \<Rightarrow> audit_record \<Rightarrow> 'sk log" where
  "pushRecord l r = l\<lparr>seq := Seq r, records := records l @ [r], prevHash := RecordHash r,
                      leaves := leaves l @ [RecordHash r], sinceCP := sinceCP l + 1\<rparr>"

lemma commit_alt:
  "commit P C env l r =
     (let l2 = trimRing (pushRecord l r)
      in if sinceCP l2 \<ge> everyN l2 then checkpointLocked P C (envCp env) l2 else l2)"
  by (simp add: commit_def trimRing_def pushRecord_def Let_def)

lemma suffix_drop_trans: "suffix xs ys \<Longrightarrow> suffix (drop n xs) ys"
  using suffix_drop suffix_order.trans by blast

lemma storeInv_push:
  assumes "storeInv C l hist" and "case lwal l' of None \<Rightarrow> lwal l = None | Some w \<Rightarrow> lwal l \<noteq> None \<and> walHolds C w (hist @ [r])"
    and "records l' = records l" and "ringCap l' = ringCap l"
  shows "storeInv C (trimRing (pushRecord l' r)) (hist @ [r])"
proof (cases "lwal l'")
  case None
  then show ?thesis using assms by (simp add: storeInv_def trimRing_def pushRecord_def)
next
  case (Some w)
  then have "suffix (records l @ [r]) (hist @ [r])" "0 < ringCap l"
      "records l = hist \<or> ringCap l \<le> int (length (records l))"
    using assms by (auto simp: storeInv_def split: option.splits)
  then show ?thesis
    using Some assms
    by (auto simp: storeInv_def trimRing_def pushRecord_def intro: suffix_drop suffix_drop_trans)
qed

lemma push_inv [wf_intros]:
  assumes "logInv P C l hist"
    and "case w of None \<Rightarrow> lwal l = None | Some w \<Rightarrow> lwal l \<noteq> None \<and> walHolds C w (hist @ [sealed P env l r])"
  shows "logInv P C (trimRing (pushRecord (l\<lparr>lwal := w\<rparr>) (sealed P env l r))) (hist @ [sealed P env l r])"
proof -
  let ?s = "sealed P env l r" and ?l = "l\<lparr>lwal := w\<rparr>"
  have link: "link P (hmacKey l) hist ?s" using assms(1) by (intro sealed_link) (simp_all add: logInv_def)
  have st: "storeInv C (trimRing (pushRecord ?l ?s)) (hist @ [?s])"
    by (rule storeInv_push [of C l]) (use assms in \<open>simp_all add: logInv_def\<close>)
  show ?thesis
    using assms(1) link st heads_mono [of P "PublicKey P l" hist "checkpoints l" ?s]
    by (simp add: logInv_def PublicKey_def lastCPSize_def trimRing_def pushRecord_def)
qed

lemma commit_inv [wf_intros]:
  assumes "edOK P" and "logInv P C l hist" and "Suc (length hist) < 2 ^ 64"
    and "case w of None \<Rightarrow> lwal l = None | Some w \<Rightarrow> lwal l \<noteq> None \<and> walHolds C w (hist @ [sealed P env l r])"
  shows "logInv P C (commit P C env' (l\<lparr>lwal := w\<rparr>) (sealed P env l r)) (hist @ [sealed P env l r])"
  using push_inv [OF assms(2,4)] checkpointLocked_inv [OF assms(1)] assms(3) by (simp add: commit_alt Let_def)

definition walRoom :: "'sk log \<Rightarrow> bool" where
  "walRoom l \<longleftrightarrow> (case lwal l of None \<Rightarrow> True | Some w \<Rightarrow> Suc (segIndex w) < 10 ^ 10)"

end
