(* ===== verification/AuditRun.thy ===== *)
theory AuditRun
  imports AuditVerify
begin

text \<open>
  Runs of the audit log: the states that appending, checkpointing and restarting reach, the invariant
  they keep, and the properties of the chain that follow. The wiring of log and witness at start-up
  is that of \<open>cmd/gate/main.go\<close>.
\<close>

section \<open>Start-up (cmd/gate/main.go)\<close>

definition bootLog :: "codec \<Rightarrow> bool \<Rightarrow> 'sk \<Rightarrow> 'sk config \<Rightarrow> 'sk log \<times> panic option" where
  "bootLog C truncOK wkey cfg =
     (case NewLog C truncOK (cfg\<lparr>cfgWitness := Some (NewWitness wkey)\<rparr>) of
        (l, Some p) \<Rightarrow> (l, Some p)
      | (l, None) \<Rightarrow>
          if Checkpoints l = [] then (l, None)
          else let cp = last (Checkpoints l)
               in (l\<lparr>witness := map_option (\<lambda>wt. Restore wt (TreeSize cp) (MerkleRoot cp) (Root cp)) (witness l)\<rparr>,
                   None))"

section \<open>Checkpoints on disk\<close>

definition cpLineOK :: "codec \<Rightarrow> checkpoint \<Rightarrow> bool" where
  "cpLineOK C cp \<longleftrightarrow>
     (case marshalCheckpoint C cp of
        None \<Rightarrow> False
      | Some b \<Rightarrow> b \<noteq> [] \<and> NL \<notin> set b \<and> \<not> isSpaceChar (hd b) \<and> \<not> isSpaceChar (last b) \<and>
                  unmarshalCheckpoint C b = Some cp)"

definition cpBytes :: "codec \<Rightarrow> checkpoint \<Rightarrow> bytes" where
  "cpBytes C cp = (case marshalCheckpoint C cp of None \<Rightarrow> [] | Some b \<Rightarrow> b)"

definition cpHolds :: "codec \<Rightarrow> wal \<Rightarrow> checkpoint list \<Rightarrow> bool" where
  "cpHolds C w cps \<longleftrightarrow>
     fileContent (wdir w) walCPFile = concat (map (\<lambda>cp. cpBytes C cp @ [NL]) cps) \<and> list_all (cpLineOK C) cps"

lemma parseCheckpoints_ok: "list_all (cpLineOK C) cps \<Longrightarrow> parseCheckpoints C (map (cpBytes C) cps) = Inr cps"
  by (induction cps) (auto simp: cpLineOK_def cpBytes_def split: option.splits)

lemma concat_lines: "bs \<noteq> [] \<Longrightarrow> concat (map (\<lambda>b. b @ [NL]) bs) = joinWith [NL] bs @ [NL]"
  by (induction "[NL]" bs rule: joinWith.induct) auto

lemma joinWith_ends:
  assumes "bs \<noteq> []" and "\<forall>b \<in> set bs. b \<noteq> []"
  shows "joinWith sep bs \<noteq> [] \<and> hd (joinWith sep bs) = hd (hd bs) \<and> last (joinWith sep bs) = last (last bs)"
  using assms by (induction sep bs rule: joinWith.induct) auto

lemma trimSpace_line:
  assumes "b \<noteq> []" and "\<not> isSpaceChar (hd b)" and "\<not> isSpaceChar (last b)"
  shows "trimSpace (b @ [NL]) = b"
proof -
  have "dropWhile isSpaceChar (b @ [NL]) = b @ [NL]" using assms(1,2) by (cases b) auto
  moreover have "dropWhile isSpaceChar (rev (b @ [NL])) = rev b"
    using assms(1,3) by (cases b rule: rev_cases) (auto simp: isSpaceChar_def)
  ultimately show ?thesis by (simp add: trimSpace_def)
qed

lemma ReadCheckpoints_cpHolds:
  assumes "cpHolds C w cps"
  shows "ReadCheckpoints C w = Inr cps"
proof (cases "cps = []")
  case True
  then show ?thesis using assms by (simp add: ReadCheckpoints_def cpHolds_def trimSpace_def)
next
  case False
  let ?bs = "map (cpBytes C) cps"
  have b: "b \<noteq> [] \<and> NL \<notin> set b \<and> \<not> isSpaceChar (hd b) \<and> \<not> isSpaceChar (last b)" if "b \<in> set ?bs" for b
    using that assms by (auto simp: cpHolds_def cpLineOK_def cpBytes_def list_all_iff split: option.splits)
  have "fileContent (wdir w) walCPFile = joinWith [NL] ?bs @ [NL]"
    using concat_lines [of ?bs] False assms by (simp add: cpHolds_def comp_def)
  moreover have "trimSpace (joinWith [NL] ?bs @ [NL]) = joinWith [NL] ?bs"
    using joinWith_ends [of ?bs "[NL]"] False b b [OF hd_in_set] b [OF last_in_set]
    by (intro trimSpace_line) auto
  moreover have "splitOn NL (joinWith [NL] ?bs) = ?bs"
    by (rule splitOn_joinWith) (use False b in auto)
  ultimately show ?thesis
    using parseCheckpoints_ok [of C cps] assms by (simp add: ReadCheckpoints_def cpHolds_def)
qed

lemma cpHolds_AppendCheckpoint:
  assumes "cpHolds C w cps" and "cpLineOK C cp"
  shows "cpHolds C (snd (AppendCheckpoint C None w cp)) (cps @ [cp])"
  using assms by (auto simp: cpHolds_def AppendCheckpoint_def Let_def cpBytes_def cpLineOK_def split: option.splits)

text \<open>Writing a record does not touch the sidecar.\<close>

lemma walCPFile_not_seg [simp]: "walCPFile \<noteq> segPath i"
  using isSeg_walCPFile isSeg_segPath by metis

lemma AppendRecord_sidecar:
  "AppendRecord C io w r = (e, w') \<Longrightarrow> fileContent (wdir w') walCPFile = fileContent (wdir w) walCPFile"
  by (auto simp: AppendRecord_def rotate_def writeLine_def writeSeg_def openSegment_def
      split: option.splits if_splits walio.splits prod.splits)

section \<open>The witness keeps up with the log\<close>

definition witnessed :: "'sk prims \<Rightarrow> 'sk \<Rightarrow> checkpoint \<Rightarrow> bool" where
  "witnessed P wk cp \<longleftrightarrow>
     WitnessSig cp = hexEncode (edSign P wk (sthBytes P cp)) \<and> MerkleRoot cp \<noteq> [] \<and> 0 < TreeSize cp \<and> Root cp \<noteq> []"

definition witnessInv :: "'sk prims \<Rightarrow> 'sk \<Rightarrow> 'sk log \<Rightarrow> bool" where
  "witnessInv P wk l \<longleftrightarrow>
     (\<exists>wt. witness l = Some wt \<and> wpriv wt = wk \<and> lastSize wt = lastCPSize l \<and> maxSize wt = lastSize wt \<and>
        (\<forall>x. seenRoot wt x \<noteq> None \<longrightarrow> x \<le> maxSize wt) \<and>
        (checkpoints l \<noteq> [] \<longrightarrow> lastMerkle wt = MerkleRoot (last (checkpoints l)) \<and>
           seenRoot wt (lastSize wt) = Some (Root (last (checkpoints l)))) \<and>
        (\<forall>cp \<in> set (checkpoints l). witnessed P wk cp))"

lemma VerifyWitness_witnessed:
  "edOK P \<Longrightarrow> \<forall>cp \<in> set cps. witnessed P wk cp \<Longrightarrow> VerifyWitness P cps (edPub P wk) = (0, True)"
  by (induction cps) (auto simp: witnessed_def edOK_def)

text \<open>The head the log is about to sign, seen from a witness that keeps up.\<close>

lemma unat_seq:
  assumes "logInv P C l hist" and "length hist < 2 ^ 63"
  shows "unat (seq l) = length hist"
  using assms by (simp add: logInv_def unsigned_of_nat take_bit_nat_eq_self)

lemma sint_unat63: "unat (x :: 64 word) < 2 ^ 63 \<Longrightarrow> sint x = int (unat x)"
  using sint_of_nat_small [of "unat x"] by simp

lemma last_headOK:
  assumes "logInv P C l hist" and "checkpoints l \<noteq> []"
  shows "\<exists>pv. headOK P (PublicKey P l) hist pv (last (checkpoints l))"
  using assms unfolding logInv_def heads_def last_conv_nth [OF assms(2)]
  by (metis diff_less length_greater_0_conv zero_less_one)

lemma CounterSign_newHead:
  assumes inv: "logInv P C l hist" and w: "witnessInv P wk l" "witness l = Some wt"
    and len: "length hist < 2 ^ 63" and ne: "hist \<noteq> []"
  shows "monotonic wt (newHead P l) = None"
    and "extendsLast P wt (newHead P l)
       (if lastSize wt > 0 \<and> lastSize wt < seq l
        then consistencyProof (sha256 P) (leaves l) (sint (lastSize wt)) else [])"
proof -
  have seq: "unat (seq l) = length hist" by (rule unat_seq [OF inv len])
  have wt: "lastSize wt = lastCPSize l" "maxSize wt = lastSize wt"
      "\<forall>x. seenRoot wt x \<noteq> None \<longrightarrow> x \<le> lastSize wt"
      "checkpoints l \<noteq> [] \<longrightarrow> lastMerkle wt = MerkleRoot (last (checkpoints l)) \<and>
         seenRoot wt (lastSize wt) = Some (Root (last (checkpoints l)))"
    using w by (auto simp: witnessInv_def)
  let ?n = "unat (lastSize wt)"
  have last: "?n \<le> length hist \<and> Root (last (checkpoints l)) = headHash (take ?n hist) \<and>
      MerkleRoot (last (checkpoints l)) = hexEncode (merkleRoot (sha256 P) (take ?n (leaves l)))"
    if "checkpoints l \<noteq> []"
    using last_headOK [OF inv that] that w inv wt(1)
    by (auto simp: headOK_def lastCPSize_def witnessInv_def witnessed_def logInv_def take_map)
  have le: "lastSize wt \<le> seq l"
    using last seq wt(1) by (cases "checkpoints l = []") (auto simp: lastCPSize_def word_le_nat_alt)
  have pos: "0 < seq l" using seq ne by (simp add: word_less_nat_alt)
  have eq: "Root (last (checkpoints l)) = prevHash l" if "lastSize wt = seq l"
  proof -
    have "checkpoints l \<noteq> []" using that pos wt(1) by (auto simp: lastCPSize_def)
    then show ?thesis using last seq that inv by (simp add: logInv_def)
  qed
  show "monotonic wt (newHead P l) = None"
  proof (cases "lastSize wt = seq l")
    case True
    then have "checkpoints l \<noteq> []" using pos wt(1) by (auto simp: lastCPSize_def)
    then show ?thesis using True eq wt by (simp add: monotonic_def newHead_fields)
  next
    case False
    then have "seenRoot wt (seq l) = None" using wt(3) le by (metis order_antisym)
    then show ?thesis using False le wt(2) by (simp add: monotonic_def newHead_fields)
  qed
  show "extendsLast P wt (newHead P l)
       (if lastSize wt > 0 \<and> lastSize wt < seq l
        then consistencyProof (sha256 P) (leaves l) (sint (lastSize wt)) else [])"
  proof (cases "0 < lastSize wt \<and> lastSize wt < seq l")
    case True
    then have cps: "checkpoints l \<noteq> []" using wt(1) by (auto simp: lastCPSize_def)
    have n: "?n < length hist" "0 < ?n" using True seq by (auto simp: word_less_nat_alt)
    have "sint (lastSize wt) = int ?n" using n len by (intro sint_unat63) simp
    moreover have "sint (seq l) = int (length (leaves l))"
      using sint_of_nat_small [OF len] inv by (simp add: logInv_def)
    moreover have ll: "length (leaves l) = length hist" using inv by (simp add: logInv_def)
    moreover have "verifyConsistency (sha256 P) (int ?n) (int (length (leaves l)))
        (consistencyProof (sha256 P) (leaves l) (int ?n))
        (merkleRoot (sha256 P) (take (nat (int ?n)) (leaves l))) (merkleRoot (sha256 P) (leaves l))"
      by (rule consistencyProof_verifies) (use n ll in linarith)+
    ultimately show ?thesis
      using True wt(4) cps last [OF cps] by (simp add: extendsLast_def newHead_fields)
  next
    case False
    then show ?thesis unfolding extendsLast_def newHead_fields by auto
  qed
qed

lemma countersign_accepts:
  assumes "logInv P C l hist" and "witnessInv P wk l" and "witness l = Some wt"
    and "length hist < 2 ^ 63" and "hist \<noteq> []"
  shows "countersign P l (newHead P l) =
    (Some (wt\<lparr>seenRoot := (seenRoot wt)(seq l \<mapsto> prevHash l), maxSize := max (maxSize wt) (seq l),
       lastSize := seq l, lastMerkle := MerkleRoot (newHead P l)\<rparr>),
     (newHead P l)\<lparr>WitnessSig := hexEncode (edSign P wk (sthBytes P (newHead P l)))\<rparr>)"
proof -
  have "wpriv wt = wk" using assms(2,3) by (auto simp: witnessInv_def)
  then show ?thesis
    using CounterSign_ok [OF CounterSign_newHead [OF assms]] assms(3)
    by (simp add: countersign_def Let_def newHead_fields)
qed

definition hashOK :: "'sk prims \<Rightarrow> bool" where
  "hashOK P \<longleftrightarrow> (\<forall>x. length (sha256 P x) = 32)"

lemma headHash_not_Nil:
  assumes "hashOK P" and "chained P key hist" and "hist \<noteq> []"
  shows "headHash hist \<noteq> []"
proof -
  obtain h r where h: "hist = h @ [r]" using assms(3) by (cases hist rule: rev_cases) auto
  then have "RecordHash r = hexEncode (sha256 P (canonicalBytes P r @ headHash h))"
    using assms(2) by (simp add: link_def computeRecordHash_def)
  moreover have "sha256 P x \<noteq> []" for x
  proof -
    have "length (sha256 P x) = 32" using assms(1) by (simp add: hashOK_def)
    then show ?thesis by auto
  qed
  ultimately show ?thesis using h by simp
qed

lemma checkpointLocked_witnessInv [wf_intros]:
  assumes "hashOK P" and "logInv P C l hist" and "witnessInv P wk l" and "length hist < 2 ^ 63" and "hist \<noteq> []"
  shows "witnessInv P wk (checkpointLocked P C io l)"
proof -
  obtain wt where wt: "witness l = Some wt" using assms(3) by (auto simp: witnessInv_def)
  note cs = countersign_accepts [OF assms(2,3) wt assms(4,5)]
  have pos: "0 < seq l" using unat_seq [OF assms(2,4)] assms(5) by (simp add: word_less_nat_alt)
  have le: "x \<le> seq l" if "x \<le> maxSize wt \<or> x = maxSize wt" for x
  proof (cases "seenRoot wt (seq l)")
    case None
    then have "seq l > maxSize wt"
      using CounterSign_newHead(1) [OF assms(2,3) wt assms(4,5)]
      by (simp add: monotonic_def newHead_fields split: if_splits)
    then show ?thesis using that by auto
  next
    case (Some r)
    then have "seq l \<le> lastCPSize l" "maxSize wt = lastCPSize l"
      using assms(3) wt by (auto simp: witnessInv_def)
    then have "checkpoints l \<noteq> []" "maxSize wt = TreeSize (last (checkpoints l))"
      using pos by (auto simp: lastCPSize_def split: if_splits)
    moreover have "unat (TreeSize (last (checkpoints l))) \<le> unat (seq l)"
      using last_headOK [OF assms(2) calculation(1)] unat_seq [OF assms(2,4)] by (auto simp: headOK_def)
    ultimately show ?thesis using that by (auto simp: word_le_nat_alt)
  qed
  have "length (merkleRoot (sha256 P) (leaves l)) = 32"
    using assms(1) by (intro length_merkleRoot) (simp add: hashOK_def)
  then have "merkleRoot (sha256 P) (leaves l) \<noteq> []" by auto
  moreover have "prevHash l \<noteq> []"
    using headHash_not_Nil [OF assms(1) _ assms(5)] assms(2) by (auto simp: logInv_def)
  ultimately have "witnessed P wk ((newHead P l)\<lparr>WitnessSig := hexEncode (edSign P wk (sthBytes P (newHead P l)))\<rparr>)"
    using pos by (simp add: witnessed_def newHead_fields)
  moreover have "max (maxSize wt) (seq l) = seq l" using le by (simp add: max_def)
  ultimately show ?thesis
    using assms(3) wt le unfolding checkpointLocked_newHead cs
    by (auto simp: witnessInv_def lastCPSize_def newHead_fields)
qed

section \<open>Runs\<close>

text \<open>
  A run: boot on an empty store, appends that return, forced checkpoints of a non-empty log, restarts
  on the same directory with the same keys. The side conditions say that the JSON codec round-trips
  the values written and that checkpoint writes succeed.
\<close>

inductive reach :: "'sk prims \<Rightarrow> codec \<Rightarrow> 'sk \<Rightarrow> 'sk log \<Rightarrow> audit_record list \<Rightarrow> bool"
  for P C wk where
  reach_boot: "reach P C wk l []"
    if "bootLog C True wk cfg = (l, None)" and "cfgHMACKey cfg \<noteq> []"
      and "cfgWAL cfg = None \<or> cfgWAL cfg = Some (NewWALSink [])"
| reach_append: "reach P C wk l' (hist @ [s])"
    if "reach P C wk l hist" and "Append P C env r l = (l', Inr s)" and "envCp env = None"
      and "lwal l \<noteq> None \<longrightarrow> lineOK C s \<and> walRoom l \<and> list_all (cpLineOK C) (checkpoints l')"
      and "Suc (length hist) < 2 ^ 63"
| reach_checkpoint: "reach P C wk l' hist"
    if "reach P C wk l hist" and "hist \<noteq> []" and "Checkpoint P C None l = (l', cp)"
      and "lwal l \<noteq> None \<longrightarrow> cpLineOK C cp"
| reach_restart: "reach P C wk l' hist"
    if "reach P C wk l hist" and "lwal l = Some w" and "bootLog C True wk cfg = (l', None)"
      and "cfgHMACKey cfg = hmacKey l" and "SigningKey cfg = signPriv l"
      and "cfgWAL cfg = Some (NewWALSink (wdir w))"

definition sidecarInv :: "codec \<Rightarrow> 'sk log \<Rightarrow> bool" where
  "sidecarInv C l \<longleftrightarrow> (case lwal l of None \<Rightarrow> True | Some w \<Rightarrow> cpHolds C w (checkpoints l))"

definition runInv :: "'sk prims \<Rightarrow> codec \<Rightarrow> 'sk \<Rightarrow> 'sk log \<Rightarrow> audit_record list \<Rightarrow> bool" where
  "runInv P C wk l hist \<longleftrightarrow>
     logInv P C l hist \<and> witnessInv P wk l \<and> sidecarInv C l \<and> length hist < 2 ^ 63"

lemma chained_last_Seq:
  assumes "chained P key hist" and "hist \<noteq> []"
  shows "Seq (last hist) = of_nat (length hist)"
  using assms by (cases hist rule: rev_cases) (simp_all add: link_def)

lemma ringStart_storeInv:
  assumes "walHolds C w hist" and "lwal l = Some w" and "0 < ringCap l"
    and "records l = drop (if int (length hist) > ringCap l then length hist - nat (ringCap l) else 0) hist"
  shows "storeInv C l hist"
  using assms by (auto simp: storeInv_def suffix_drop)

lemma walHolds_wdir: "walHolds C w hist \<Longrightarrow> wdir (NewWALSink (wdir w)) = wdir w"
proof -
  assume "walHolds C w hist"
  then obtain rss where d: "walDir C (wdir w) (segIndex w) rss" by (auto simp: walHolds_def)
  show ?thesis by (rule NewWALSink_reopen(1) [OF _ walDir_listSegments [OF d]]) (use d in \<open>simp add: walDir_def\<close>)
qed

lemma NewLog_replay:
  assumes holds: "walHolds C w hist" "cpHolds C w cps" and ch: "chained P key hist" and e: "hist = [] \<longrightarrow> cps = []"
    and cfg: "cfgWAL cfg = Some (NewWALSink (wdir w))" and new: "NewLog C True cfg = (l, pn)"
  shows "pn = None" and "seq l = of_nat (length hist)" and "prevHash l = headHash hist"
    and "leaves l = map RecordHash hist" and "checkpoints l = cps" and "sinceCP l = seq l - lastCPSize l"
    and "storeInv C l hist" and "witness l = cfgWitness cfg" and "hmacKey l = cfgHMACKey cfg"
    and "signPriv l = SigningKey cfg" and "everyN l \<noteq> 0" and "lwal l = Some (NewWALSink (wdir w))"
proof -
  let ?w = "NewWALSink (wdir w)"
  have ra: "ReadAll C True ?w = (Inr hist, ?w)" and hw: "walHolds C ?w hist"
    using walHolds_reopen [OF holds(1)] by auto
  have rc: "ReadCheckpoints C ?w = Inr cps"
    using ReadCheckpoints_cpHolds holds walHolds_wdir [OF holds(1)] by (simp add: cpHolds_def)
  have "pn = None \<and> seq l = of_nat (length hist) \<and> prevHash l = headHash hist \<and>
    leaves l = map RecordHash hist \<and> checkpoints l = cps \<and> sinceCP l = seq l - lastCPSize l \<and>
    witness l = cfgWitness cfg \<and> hmacKey l = cfgHMACKey cfg \<and> signPriv l = SigningKey cfg \<and>
    everyN l \<noteq> 0 \<and> lwal l = Some ?w \<and> 0 < ringCap l \<and>
    records l = drop (if int (length hist) > ringCap l then length hist - nat (ringCap l) else 0) hist"
  proof (cases "hist = []")
    case True
    then show ?thesis
      using new cfg ra rc e
      by (auto simp: NewLog_def Let_def replayWAL_def lastCPSize_def defaultRingCap_def split: if_splits)
  next
    case False
    then show ?thesis
      using new cfg ra rc chained_last_Seq [OF ch False]
      by (auto simp: NewLog_def Let_def replayWAL_def lastCPSize_def defaultRingCap_def headHash_def
          split: if_splits)
  qed
  then show "pn = None" "seq l = of_nat (length hist)" "prevHash l = headHash hist"
    "leaves l = map RecordHash hist" "checkpoints l = cps" "sinceCP l = seq l - lastCPSize l"
    "witness l = cfgWitness cfg" "hmacKey l = cfgHMACKey cfg" "signPriv l = SigningKey cfg"
    "everyN l \<noteq> 0" "lwal l = Some ?w" "storeInv C l hist"
    using ringStart_storeInv [OF hw, of l] by auto
qed

lemma Restore_witnessInv:
  assumes "\<forall>cp \<in> set (checkpoints l). witnessed P wk cp" and "checkpoints l \<noteq> []"
    and "witness l = Some (Restore (NewWitness wk) (TreeSize (last (checkpoints l)))
           (MerkleRoot (last (checkpoints l))) (Root (last (checkpoints l))))"
  shows "witnessInv P wk l"
proof -
  have "witnessed P wk (last (checkpoints l))" using assms(1,2) by simp
  then show ?thesis
    using assms by (simp add: witnessInv_def Restore_def NewWitness_def Let_def witnessed_def lastCPSize_def)
qed

lemma fresh_witnessInv:
  "checkpoints l = [] \<Longrightarrow> witness l = Some (NewWitness wk) \<Longrightarrow> witnessInv P wk l"
  by (simp add: witnessInv_def NewWitness_def lastCPSize_def)

lemma inv_witness_update [simp]:
  "storeInv C (l\<lparr>witness := x\<rparr>) hist = storeInv C l hist"
  "logInv P C (l\<lparr>witness := x\<rparr>) hist = logInv P C l hist"
  "sidecarInv C (l\<lparr>witness := x\<rparr>) = sidecarInv C l"
  by (simp_all add: storeInv_def logInv_def sidecarInv_def PublicKey_def lastCPSize_def cong: option.case_cong)

lemma bootLog_runInv:
  assumes holds: "walHolds C w hist" "cpHolds C w cps"
    and ch: "chained P (cfgHMACKey cfg) hist" and hd: "heads P (edPub P (SigningKey cfg)) hist cps"
    and all: "\<forall>cp \<in> set cps. witnessed P wk cp" and len: "length hist < 2 ^ 63"
    and key: "cfgHMACKey cfg \<noteq> []" and cfg: "cfgWAL cfg = Some (NewWALSink (wdir w))"
    and boot: "bootLog C True wk cfg = (l, None)"
  shows "runInv P C wk l hist"
proof -
  let ?cfg = "cfg\<lparr>cfgWitness := Some (NewWitness wk)\<rparr>"
  have e: "hist = [] \<longrightarrow> cps = []"
  proof (rule impI, rule ccontr)
    assume "hist = []" "cps \<noteq> []"
    then have "headOK P (edPub P (SigningKey cfg)) [] [] (cps ! 0)" "witnessed P wk (cps ! 0)"
      using hd all unfolding heads_def by force+
    then show False by (simp add: headOK_def witnessed_def unat_eq_0)
  qed
  obtain l1 pn where new: "NewLog C True ?cfg = (l1, pn)" by fastforce
  have cfg': "cfgWAL ?cfg = Some (NewWALSink (wdir w))" using cfg by simp
  note r = NewLog_replay [OF holds ch e cfg' new]
  have l1: "logInv P C l1 hist" using r ch hd key by (simp add: logInv_def PublicKey_def)
  have side: "sidecarInv C l1"
    using r holds walHolds_wdir [OF holds(1)] by (simp add: sidecarInv_def cpHolds_def)
  show ?thesis
  proof (cases "cps = []")
    case True
    then have "l = l1" using boot new r by (simp add: bootLog_def Checkpoints_def)
    then show ?thesis using l1 side len True r fresh_witnessInv [of l1 wk P] by (simp add: runInv_def)
  next
    case False
    let ?cp = "last cps"
    have l: "l = l1\<lparr>witness := Some (Restore (NewWitness wk) (TreeSize ?cp) (MerkleRoot ?cp) (Root ?cp))\<rparr>"
      using boot new r False by (simp add: bootLog_def Checkpoints_def Let_def)
    have "witnessInv P wk l" by (rule Restore_witnessInv) (use l r all False in auto)
    then show ?thesis using l1 side len by (simp add: runInv_def l)
  qed
qed

lemma restart_runInv:
  assumes "runInv P C wk l hist" and "lwal l = Some w" and "bootLog C True wk cfg = (l', None)"
    and "cfgHMACKey cfg = hmacKey l" and "SigningKey cfg = signPriv l"
    and "cfgWAL cfg = Some (NewWALSink (wdir w))"
  shows "runInv P C wk l' hist"
  by (rule bootLog_runInv [where cps = "checkpoints l" and w = w and cfg = cfg])
     (use assms in \<open>auto simp: runInv_def logInv_def storeInv_def sidecarInv_def PublicKey_def witnessInv_def\<close>)

lemma listSegments_first [simp]: "listSegments [(segPath 1, c)] = [segPath 1]"
  using isSeg_segPath [of 1] by (simp add: listSegments_def isSeg_def)

lemma NewWALSink_idem: "NewWALSink (wdir (NewWALSink [])) = NewWALSink []"
proof -
  have d: "NewWALSink [] = \<lparr>wdir = [(segPath 1, [])], written = 0, segIndex = 1,
      rotateBytes = walDefaultRotateBytes, wbroken = False\<rparr>"
    by (simp add: NewWALSink_def latestSegment_def listSegments_def openSegment_def fileContent_def)
  have "NewWALSink [(segPath 1, [])] = \<lparr>wdir = [(segPath 1, [])], written = 0, segIndex = 1,
      rotateBytes = walDefaultRotateBytes, wbroken = False\<rparr>"
    unfolding NewWALSink_def latestSegment_def listSegments_first by (simp add: fileContent_def)
  then show ?thesis by (simp add: d)
qed

lemma boot_runInv:
  assumes "bootLog C True wk cfg = (l, None)" and "cfgHMACKey cfg \<noteq> []"
    and "cfgWAL cfg = None \<or> cfgWAL cfg = Some (NewWALSink [])"
  shows "runInv P C wk l []"
proof (cases "cfgWAL cfg")
  case None
  then show ?thesis
    using assms by (auto simp: bootLog_def NewLog_def Let_def Checkpoints_def runInv_def logInv_def
        lastCPSize_def storeInv_def sidecarInv_def intro!: fresh_witnessInv split: if_splits)
next
  case (Some w)
  have "cpHolds C (NewWALSink []) []"
    by (simp add: cpHolds_def NewWALSink_def latestSegment_def listSegments_def openSegment_def fileContent_def)
  then show ?thesis
    using assms Some NewWALSink_idem
    by (intro bootLog_runInv [OF walHolds_new _ _ _ _ _ _ _ assms(1)]) auto
qed

lemma logInv_sidecar_push:
  "cpHolds C w cps \<Longrightarrow> AppendRecord C io w r = (e, w') \<Longrightarrow> cpHolds C w' cps"
  using AppendRecord_sidecar by (simp add: cpHolds_def)

lemma trimRing_push_fields [simp]:
  "witness (trimRing (pushRecord l r)) = witness l" "checkpoints (trimRing (pushRecord l r)) = checkpoints l"
  "lwal (trimRing (pushRecord l r)) = lwal l" "signPriv (trimRing (pushRecord l r)) = signPriv l"
  "hmacKey (trimRing (pushRecord l r)) = hmacKey l" "everyN (trimRing (pushRecord l r)) = everyN l"
  "sinceCP (trimRing (pushRecord l r)) = sinceCP l + 1"
  by (simp_all add: trimRing_def pushRecord_def)

lemma commit_cases:
  obtains (plain) "commit P C env l r = trimRing (pushRecord l r)" "sinceCP l + 1 < everyN l"
  | (checkpointed) "commit P C env l r = checkpointLocked P C (envCp env) (trimRing (pushRecord l r))"
  by (cases "everyN l \<le> sinceCP l + 1") (auto simp: commit_alt Let_def)

lemma witnessInv_cong:
  "witness l = witness l' \<Longrightarrow> checkpoints l = checkpoints l' \<Longrightarrow> witnessInv P wk l = witnessInv P wk l'"
  by (simp add: witnessInv_def lastCPSize_def)

lemma sidecar_checkpointLocked:
  assumes "sidecarInv C l" and "lwal l \<noteq> None \<longrightarrow> cpLineOK C (last (checkpoints (checkpointLocked P C None l)))"
  shows "sidecarInv C (checkpointLocked P C None l)"
  using assms cpHolds_AppendCheckpoint
  by (auto simp: sidecarInv_def checkpointLocked_newHead split: option.splits)

lemma commit_runInv:
  assumes ed: "edOK P" "hashOK P" and inv: "runInv P C wk l hist" and len: "Suc (length hist) < 2 ^ 63"
    and s: "s = sealed P env l r"
    and w: "case w of None \<Rightarrow> lwal l = None | Some w \<Rightarrow> lwal l \<noteq> None \<and> walHolds C w (hist @ [s]) \<and> cpHolds C w (checkpoints l)"
    and cpio: "envCp env' = None"
    and cps: "w \<noteq> None \<longrightarrow> list_all (cpLineOK C) (checkpoints (commit P C env' (l\<lparr>lwal := w\<rparr>) s))"
  shows "runInv P C wk (commit P C env' (l\<lparr>lwal := w\<rparr>) s) (hist @ [s])"
proof -
  let ?l1 = "l\<lparr>lwal := w\<rparr>" and ?l2 = "trimRing (pushRecord (l\<lparr>lwal := w\<rparr>) s)"
  have parts: "logInv P C l hist" "witnessInv P wk l" using inv by (auto simp: runInv_def)
  have log: "logInv P C (commit P C env' ?l1 s) (hist @ [s])"
    unfolding s by (rule commit_inv [OF ed(1) parts(1)]) (use len w s in \<open>auto split: option.splits\<close>)
  have log2: "logInv P C ?l2 (hist @ [s])"
    using parts(1) w unfolding s by (intro push_inv) (auto split: option.splits)
  have wit2: "witnessInv P wk ?l2" using parts(2) witnessInv_cong [of ?l2 l] by simp
  have side2: "sidecarInv C ?l2" using w by (auto simp: sidecarInv_def split: option.splits)
  show ?thesis
  proof (cases rule: commit_cases [of P C env' ?l1 s])
    case plain
    then show ?thesis using log wit2 side2 len by (simp add: runInv_def)
  next
    case checkpointed
    then have c: "commit P C env' ?l1 s = checkpointLocked P C None ?l2" using cpio by simp
    have "lwal ?l2 \<noteq> None \<longrightarrow> cpLineOK C (last (checkpoints (checkpointLocked P C None ?l2)))"
      using cps unfolding c by (simp add: checkpointLocked_newHead)
    then show ?thesis
      using log len checkpointLocked_witnessInv [OF ed(2) log2 wit2] sidecar_checkpointLocked [OF side2]
      by (simp add: runInv_def c)
  qed
qed

lemma append_runInv:
  assumes ed: "edOK P" "hashOK P" and inv: "runInv P C wk l hist" and app: "Append P C env r l = (l', Inr s)"
    and "envCp env = None"
    and wal: "lwal l \<noteq> None \<longrightarrow> lineOK C s \<and> walRoom l \<and> list_all (cpLineOK C) (checkpoints l')"
    and "Suc (length hist) < 2 ^ 63"
  shows "runInv P C wk l' (hist @ [s])" and "s = sealed P env l r"
proof -
  have key: "hmacKey l \<noteq> []" using inv by (simp add: runInv_def logInv_def)
  show s: "s = sealed P env l r"
    using app key by (auto simp: Append_def Let_def split: option.splits prod.splits)
  show "runInv P C wk l' (hist @ [s])"
  proof (cases "lwal l")
    case None
    then have e: "l\<lparr>lwal := None\<rparr> = l" by simp
    have "l' = commit P C env (l\<lparr>lwal := None\<rparr>) s"
      unfolding e using app key s None by (auto simp: Append_def Let_def)
    then show ?thesis using commit_runInv [OF ed inv, where w = None] assms None s by simp
  next
    case (Some w)
    obtain w' where w': "AppendRecord C (envWal env) w s = (None, w')" "l' = commit P C env (l\<lparr>lwal := Some w'\<rparr>) s"
      using app key s Some by (auto simp: Append_def Let_def split: prod.splits option.splits)
    have "walHolds C w hist" "Suc (segIndex w) < 10 ^ 10" "cpHolds C w (checkpoints l)" and ls: "lineOK C s"
      using inv Some wal by (auto simp: runInv_def logInv_def storeInv_def walRoom_def sidecarInv_def)
    then have "walHolds C w' (hist @ [s])" "cpHolds C w' (checkpoints l)"
      using AppendRecord_ok [OF _ ls _ w'(1)] logInv_sidecar_push [OF _ w'(1)] by auto
    then show ?thesis using commit_runInv [OF ed inv, where w = "Some w'"] assms Some s w'(2) by simp
  qed
qed

lemma reach_runInv:
  assumes "reach P C wk l hist" and "edOK P" and "hashOK P"
  shows "runInv P C wk l hist"
  using assms
proof (induction rule: reach.induct)
  case (reach_boot cfg l)
  show ?case by (rule boot_runInv [OF reach_boot(1-3)])
next
  case (reach_append l hist env r l' s)
  then show ?case using append_runInv(1) [of P C wk l hist env r l' s] by blast
next
  case (reach_checkpoint l hist l' cp)
  then have l': "l' = checkpointLocked P C None l" "cp = last (checkpoints l')"
    by (auto simp: Checkpoint_def Let_def)
  have inv: "logInv P C l hist" "witnessInv P wk l" "sidecarInv C l" "length hist < 2 ^ 63"
    using reach_checkpoint by (auto simp: runInv_def)
  then have "length hist < 2 ^ 64" by simp
  from checkpointLocked_inv [OF \<open>edOK P\<close> inv(1) this] have "logInv P C l' hist" by (simp add: l')
  moreover from checkpointLocked_witnessInv [OF \<open>hashOK P\<close> inv(1,2,4) reach_checkpoint.hyps(2)]
  have "witnessInv P wk l'" by (simp add: l')
  moreover from sidecar_checkpointLocked [OF inv(3)] reach_checkpoint.hyps(4)
  have "sidecarInv C l'" by (simp add: l')
  ultimately show ?case using inv(4) by (simp add: runInv_def)
next
  case (reach_restart l hist w cfg l')
  then show ?case using restart_runInv [of P C wk l hist w cfg l'] by blast
qed

end
