(* ===== verification/AuditProps.thy ===== *)
theory AuditProps
  imports AuditRun
begin

text \<open>
  The properties of the audit log: what a run guarantees to an auditor (\<open>log_selfverify\<close>,
  \<open>inclusion_at_head\<close>), what a failed write does (\<open>append_fail_closed\<close>, \<open>emit_before_act\<close>,
  \<open>sync_failure_breaks_chain\<close>), and that an accepted chain cannot be altered
  (\<open>chain_commits_to_history\<close>).
\<close>

section \<open>Every run verifies\<close>

lemma Records_run:
  assumes "runInv P C wk l hist"
  shows "Records C True l = (l, hist)"
proof (cases "lwal l")
  case None
  then show ?thesis using assms by (simp add: Records_def runInv_def logInv_def storeInv_def)
next
  case (Some w)
  then have "walHolds C w hist" using assms by (simp add: runInv_def logInv_def storeInv_def)
  then obtain rss where d: "walDir C (wdir w) (segIndex w) rss" "concat rss = hist" by (auto simp: walHolds_def)
  have "l\<lparr>lwal := Some w\<rparr> = l" using Some by simp
  then show ?thesis using Some ReadAll_walDir [OF d(1)] d(2) by (simp add: Records_def)
qed

text \<open>
  C3. Every non-empty log that a run reaches (by appends, forced checkpoints and restarts on the same
  WAL directory with the same keys, with or without a WAL) passes its own full verification:
  sequence numbers, linkage, record hashes, HMACs, the signatures, chain, roots and Merkle roots of
  all tree heads, and the witness co-signature on every head.
\<close>

theorem log_selfverify:
  assumes "reach P C wk l hist" and "edOK P" and "hashOK P" and "hist \<noteq> []"
  shows "SelfVerify P C True l = (l, passResult)"
proof -
  have inv: "runInv P C wk l hist" by (rule reach_runInv [OF assms(1-3)])
  then have parts: "logInv P C l hist" "witnessInv P wk l" "length hist < 2 ^ 63" by (auto simp: runInv_def)
  have "Verify P hist (checkpoints l) (hmacKey l) (PublicKey P l) = passResult"
    by (rule Verify_pass) (use parts assms(4) in \<open>simp_all add: logInv_def\<close>)
  moreover have "VerifyWitness P (checkpoints l) (WitnessPublicKey P l) = (0, True)"
    using parts(2) VerifyWitness_witnessed [OF assms(2)] by (auto simp: witnessInv_def WitnessPublicKey_def)
  ultimately show ?thesis
    by (simp add: SelfVerify_def Records_run [OF inv] Let_def passResult_def)
qed

text \<open>
  In every reachable state the counters and the in-memory window agree with the history: the
  length is the number of sealed records, the chain head is the hash of the last one, the Merkle
  leaves are all record hashes, and the window is the tail of the history, whole without a WAL and
  between \<open>ringCap\<close> and twice \<open>ringCap\<close> records (or everything) with one.
\<close>

theorem log_state:
  assumes "reach P C wk l hist" and "edOK P" and "hashOK P"
  shows "Len l = int (length hist) \<and> prevHash l = headHash hist \<and> leaves l = map RecordHash hist \<and>
         suffix (records l) hist \<and>
         (lwal l = None \<longrightarrow> records l = hist) \<and>
         (lwal l \<noteq> None \<longrightarrow> int (length (records l)) \<le> 2 * ringCap l \<and>
            (records l = hist \<or> ringCap l \<le> int (length (records l))))"
proof -
  have inv: "logInv P C l hist" "length hist < 2 ^ 63"
    using reach_runInv [OF assms] by (auto simp: runInv_def)
  then show ?thesis
    using sint_of_nat_small [OF inv(2)] by (auto simp: logInv_def Len_def storeInv_def split: option.splits)
qed

section \<open>A concrete run\<close>

text \<open>A log without a WAL that checkpoints every record, after one append and a forced checkpoint.\<close>

definition exEnv :: env where
  "exEnv = \<lparr>envEventID = ''e'', envTS = ''t'', envWal = IoOk, envCp = None\<rparr>"

definition exCfg :: "wal option \<Rightarrow> bytes config" where
  "exCfg w = \<lparr>cfgNodeID = ''n'', cfgHMACKey = ''k'', CheckpointEvery = 1, cfgWitness = None,
     SigningKey = ''s'', cfgWAL = w, cfgRingCap = 0\<rparr>"

definition exLog0 :: "bytes log" where
  "exLog0 = fst (bootLog toyCodec True ''w'' (exCfg None))"

definition exEvent :: audit_record where
  "exEvent = zeroRecord\<lparr>EventType := ''session.bind'', Host := ''a''\<rparr>"

definition exRec :: audit_record where
  "exRec = sealed toyPrims exEnv exLog0 exEvent"

definition exLog1 :: "bytes log" where
  "exLog1 = fst (Append toyPrims toyCodec exEnv exEvent exLog0)"

definition exLog2 :: "bytes log" where
  "exLog2 = fst (Checkpoint toyPrims toyCodec None exLog1)"

lemma exPrims [simp]: "edOK toyPrims" "hashOK toyPrims" "nfcEmpty toyPrims"
  by (simp_all add: edOK_def hashOK_def nfcEmpty_def toyPrims_def)

lemma exLog0_fields [simp]:
  "hmacKey exLog0 = ''k''" "lwal exLog0 = None" "seq exLog0 = 0" "prevHash exLog0 = []" "everyN exLog0 = 1"
  "sinceCP exLog0 = 0" "checkpoints exLog0 = []" "nodeID exLog0 = ''n''" "signPriv exLog0 = ''s''" "records exLog0 = []"
  by (simp_all add: exLog0_def bootLog_def NewLog_def exCfg_def Let_def Checkpoints_def)

lemma exLog0_reach: "reach toyPrims toyCodec ''w'' exLog0 []"
  by (rule reach_boot [of _ _ "exCfg None"])
     (simp_all add: exLog0_def bootLog_def NewLog_def exCfg_def Let_def Checkpoints_def)

lemma exAppend: "Append toyPrims toyCodec exEnv exEvent exLog0 = (exLog1, Inr exRec)"
  "exLog1 = commit toyPrims toyCodec exEnv exLog0 exRec"
  by (simp_all add: exLog1_def exRec_def Append_def Let_def)

lemma exLog1_reach: "reach toyPrims toyCodec ''w'' exLog1 [exRec]"
  using reach_append [OF exLog0_reach exAppend(1)] by (simp add: exEnv_def)

lemma exLog1_alt: "exLog1 = checkpointLocked toyPrims toyCodec None (trimRing (pushRecord exLog0 exRec))"
  using exAppend(2) by (cases rule: commit_cases [of toyPrims toyCodec exEnv exLog0 exRec]) (simp_all add: exEnv_def)

lemma trimRing_push_seq [simp]: "seq (trimRing (pushRecord l r)) = Seq r"
  by (simp add: trimRing_def pushRecord_def)

lemma exLog1_cps: "\<exists>cp. checkpoints exLog1 = [cp] \<and> TreeSize cp = 1 \<and> Sig cp \<noteq> []"
proof -
  obtain s where "snd (countersign toyPrims (trimRing (pushRecord exLog0 exRec))
      (newHead toyPrims (trimRing (pushRecord exLog0 exRec)))) =
      (newHead toyPrims (trimRing (pushRecord exLog0 exRec)))\<lparr>WitnessSig := s\<rparr>"
    by (rule countersign_newHead)
  then have "checkpoints exLog1 = [(newHead toyPrims (trimRing (pushRecord exLog0 exRec)))\<lparr>WitnessSig := s\<rparr>]"
    by (simp add: exLog1_alt checkpointLocked_newHead)
  moreover have "Seq exRec = 1" by (simp add: exRec_def addHMAC_def sealRecord_def Let_def)
  moreover have "edSign toyPrims k m \<noteq> []" for k m using exPrims(1) by (simp add: edOK_def)
  ultimately show ?thesis by (simp add: newHead_fields)
qed

lemma exLog2_reach: "reach toyPrims toyCodec ''w'' exLog2 [exRec]"
proof -
  have "lwal exLog1 = None" by (simp add: exLog1_alt checkpointLocked_newHead)
  then show ?thesis
    using reach_checkpoint [OF exLog1_reach _ prod.collapse [symmetric]] by (simp add: exLog2_def)
qed

theorem log_selfverify_witness: "SelfVerify toyPrims toyCodec True exLog2 = (exLog2, passResult)"
  using log_selfverify [OF exLog2_reach] by simp

theorem log_state_witness: "Len exLog1 = 1 \<and> records exLog1 = [exRec]"
  using log_state [OF exLog1_reach] by (auto simp: exLog1_alt checkpointLocked_newHead)

section \<open>Audit before effect\<close>

lemma Append_Inl: "Append P C env r l = (l', Inl p) \<Longrightarrow> l' = l\<lparr>lwal := lwal l'\<rparr>"
  by (auto simp: Append_def Let_def split: if_splits option.splits prod.splits)

lemma Append_InrE:
  assumes "Append P C env r l = (l', Inr x)"
  obtains w where "hmacKey l \<noteq> []" "x = sealed P env l r" "l' = commit P C env (l\<lparr>lwal := w\<rparr>) x"
    "w = None \<longleftrightarrow> lwal l = None"
    "\<forall>v. lwal l = Some v \<longrightarrow> (\<exists>v'. w = Some v' \<and> AppendRecord C (envWal env) v x = (None, v'))"
proof -
  have key: "hmacKey l \<noteq> []" and x: "x = sealed P env l r"
    using assms by (auto simp: Append_def Let_def split: if_splits option.splits prod.splits)
  show thesis
  proof (cases "lwal l")
    case None
    then have e: "l\<lparr>lwal := None\<rparr> = l" by simp
    have "l' = commit P C env (l\<lparr>lwal := None\<rparr>) x"
      unfolding e using assms key x None by (auto simp: Append_def Let_def)
    then show thesis using that [of None] key x None by simp
  next
    case (Some v)
    then obtain v' where "AppendRecord C (envWal env) v x = (None, v')" "l' = commit P C env (l\<lparr>lwal := Some v'\<rparr>) x"
      using assms key x by (auto simp: Append_def Let_def split: option.splits prod.splits)
    then show thesis using that [of "Some v'"] key x Some by simp
  qed
qed

lemma commit_last_record:
  assumes "lwal l \<noteq> None \<longrightarrow> 0 < ringCap l"
  shows "records (commit P C env l r) \<noteq> [] \<and> last (records (commit P C env l r)) = r"
proof -
  have "records (trimRing (pushRecord l r)) \<noteq> [] \<and> last (records (trimRing (pushRecord l r))) = r"
    using assms by (auto simp: trimRing_def pushRecord_def)
  then show ?thesis by (cases rule: commit_cases [of P C env l r]) (simp_all add: checkpointLocked_newHead)
qed

lemma commit_walHolds:
  assumes "commit P C env l r = l'" and "lwal l = Some w" and "walHolds C w recs"
  shows "\<exists>w'. lwal l' = Some w' \<and> walHolds C w' recs"
  by (cases rule: commit_cases [of P C env l r])
     (use assms walHolds_AppendCheckpoint in \<open>auto simp: checkpointLocked_newHead\<close>)

lemma commit_hmacKey [simp]: "hmacKey (commit P C env l r) = hmacKey l"
  by (cases rule: commit_cases [of P C env l r]) (simp_all add: checkpointLocked_newHead)

text \<open>
  C18. The sink acts exactly when the record was sealed, and seals before it acts. When it panics (no
  event type, no HMAC key, a failed WAL write) the action's state is untouched and so is the chain,
  but for the bytes on disk. When it returns, the action has run once on a log whose newest record is
  the sealed one, linked to the previous head, and with a WAL that record is on disk.
\<close>

theorem emit_before_act:
  assumes "reach P C wk l hist" and "edOK P" and "hashOK P"
    and "EmitAndAct P C env r (Some f) (l, s) = ((l', s'), res)"
    and "lwal l \<noteq> None \<longrightarrow> walRoom l \<and> lineOK C (sealed P env l r)"
  shows "case res of
      Inl p \<Rightarrow> s' = s \<and> l' = l\<lparr>lwal := lwal l'\<rparr>
    | Inr x \<Rightarrow> s' = f s \<and> EventType x = EventType r \<and> EventType r \<noteq> [] \<and> last (records l') = x \<and>
              link P (hmacKey l) hist x \<and>
              (\<forall>w. lwal l = Some w \<longrightarrow> (\<exists>w'. lwal l' = Some w' \<and> walHolds C w' (hist @ [x])))"
proof (cases res)
  case (Inl p)
  then show ?thesis
    using assms(4) Append_Inl [of P C env r l l' p]
    by (auto simp: EmitAndAct_def split: if_splits prod.splits sum.splits)
next
  case (Inr x)
  have inv: "logInv P C l hist" using reach_runInv [OF assms(1-3)] by (simp add: runInv_def)
  have app: "Append P C env r l = (l', Inr x)" and ev: "s' = f s" "EventType r \<noteq> []"
    using assms(4) Inr by (auto simp: EmitAndAct_def split: if_splits prod.splits sum.splits)
  from app obtain w where k: "hmacKey l \<noteq> []" and w: "x = sealed P env l r" "l' = commit P C env (l\<lparr>lwal := w\<rparr>) x" "w = None \<longleftrightarrow> lwal l = None"
      "\<forall>v. lwal l = Some v \<longrightarrow> (\<exists>v'. w = Some v' \<and> AppendRecord C (envWal env) v x = (None, v'))"
    by (rule Append_InrE)
  have "link P (hmacKey l) hist x" unfolding w(1) by (rule sealed_link) (use inv in \<open>simp_all add: logInv_def\<close>)
  moreover have "last (records l') = x"
    using commit_last_record [of "l\<lparr>lwal := w\<rparr>" P C env x] w inv
    by (auto simp: logInv_def storeInv_def split: option.splits)
  moreover have "\<exists>w'. lwal l' = Some w' \<and> walHolds C w' (hist @ [x])" if v: "lwal l = Some v" for v
  proof -
    obtain v' where v': "w = Some v'" "AppendRecord C (envWal env) v x = (None, v')" using w(4) v by blast
    have "walHolds C v' (hist @ [x])"
      by (rule AppendRecord_ok [OF _ _ _ v'(2)])
         (use inv v assms(5) w(1) in \<open>auto simp: logInv_def storeInv_def walRoom_def\<close>)
    then show ?thesis using commit_walHolds [OF w(2) [symmetric]] v'(1) by simp
  qed
  moreover have "EventType x = EventType r" using w(1) by (simp add: addHMAC_def sealRecord_def Let_def)
  ultimately show ?thesis using Inr ev by simp
qed

theorem emit_before_act_witness:
  "snd (fst (EmitAndAct toyPrims toyCodec exEnv exEvent (Some Suc) (exLog1, 0))) = 1"
proof -
  obtain l' s' res where e: "EmitAndAct toyPrims toyCodec exEnv exEvent (Some Suc) (exLog1, 0) = ((l', s'), res)"
    by (metis surj_pair)
  have w: "lwal exLog1 = None" "hmacKey exLog1 = ''k''" by (simp_all add: exLog1_alt checkpointLocked_newHead)
  then have "\<exists>x. res = Inr x"
    using e by (auto simp: EmitAndAct_def Append_def Let_def exEvent_def split: sum.splits)
  then show ?thesis using emit_before_act [OF exLog1_reach _ _ e] w e by auto
qed

section \<open>A failed fsync\<close>

lemma verifyChain_prefix:
  "chained P key hist \<Longrightarrow>
   verifyChain P key [] 1 (hist @ rest) = verifyChain P key (headHash hist) (of_nat (length hist) + 1) rest"
proof (induction hist arbitrary: rest rule: rev_induct)
  case (snoc r hist)
  then have "verifyChain P key [] 1 (hist @ r # rest) =
      verifyChain P key (headHash hist) (of_nat (length hist) + 1) (r # rest)" by simp
  also have "\<dots> = verifyChain P key (RecordHash r) (of_nat (length hist) + 1 + 1) rest"
    using snoc.prems by (auto simp: link_def)
  finally show ?case by (simp add: add.commute)
qed simp

lemma duplicate_seq_rejected:
  assumes "chained P key (hist @ [a])" and "Seq b = of_nat (length hist) + 1"
  shows "Class (Verify P (hist @ [a, b]) cps key pub) = ClassSeqGap" and "\<not> VOK (Verify P (hist @ [a, b]) cps key pub)"
proof -
  have "verifyChain P key [] 1 ((hist @ [a]) @ [b]) =
      verifyChain P key (headHash (hist @ [a])) (of_nat (length (hist @ [a])) + 1) [b]"
    by (rule verifyChain_prefix [OF assms(1)])
  then show "Class (Verify P (hist @ [a, b]) cps key pub) = ClassSeqGap" "\<not> VOK (Verify P (hist @ [a, b]) cps key pub)"
    using assms(2) by (simp_all add: Verify_def failAt_def)
qed

lemma AppendRecord_sync:
  assumes "walHolds C w recs" and "lineOK C r" and "Suc (segIndex w) < 10 ^ 10"
  shows "\<exists>w'. AppendRecord C IoSync w r = (Some ErrSync, w') \<and> walHolds C w' (recs @ [r]) \<and>
           segIndex w' \<le> Suc (segIndex w)"
    and "\<exists>w'. AppendRecord C IoOk w r = (None, w') \<and> walHolds C w' (recs @ [r])"
proof -
  obtain line where line: "marshalRecord C r = Some line" using assms(2) by (auto simp: lineOK_def split: option.splits)
  have nb: "\<not> wbroken w" using assms(1) by (simp add: walHolds_def)
  let ?v = "if rotateBytes w \<le> written w then openSegment w (Suc (segIndex w)) else w"
  have v: "walHolds C ?v recs" "\<not> wbroken ?v" "segIndex ?v \<le> Suc (segIndex w)"
    using assms nb openSegment_walHolds [OF assms(1,3)] by (auto simp: openSegment_def)
  note ws = writeSeg_walHolds [OF v(1) assms(2)]
  have "AppendRecord C IoSync w r = (Some ErrSync, writeSeg ?v (recordLine C r))"
    "AppendRecord C IoOk w r = (None, writeSeg ?v (recordLine C r))"
    using line nb v(2) by (auto simp: AppendRecord_def rotate_def writeLine_def recordLine_def)
  moreover have "segIndex (writeSeg ?v (recordLine C r)) \<le> Suc (segIndex w)" using v(3) by (simp add: writeSeg_def)
  ultimately show "\<exists>w'. AppendRecord C IoSync w r = (Some ErrSync, w') \<and> walHolds C w' (recs @ [r]) \<and>
           segIndex w' \<le> Suc (segIndex w)"
    "\<exists>w'. AppendRecord C IoOk w r = (None, w') \<and> walHolds C w' (recs @ [r])" using ws by blast+
qed

text \<open>
  C21. If the \<open>fsync\<close> of one append fails, the panic leaves the record in the WAL although the chain did
  not advance. When the process goes on (a panic in a request handler is recovered by the HTTP
  server), the next append reuses the sequence number and succeeds, and from then on the log's own
  verification reports a sequence gap.
\<close>

theorem sync_failure_breaks_chain:
  assumes "reach P C wk l hist" and "edOK P" and "hashOK P" and "lwal l = Some w"
    and "Suc (Suc (segIndex w)) < 10 ^ 10"
    and "envWal e1 = IoSync" and "envWal e2 = IoOk"
    and "lineOK C (sealed P e1 l r1)" and "lineOK C (sealed P e2 l r2)"
  shows "\<exists>l1 l2 x. Append P C e1 r1 l = (l1, Inl (WalAppendFailed ErrSync)) \<and>
           Append P C e2 r2 l1 = (l2, Inr x) \<and> Class (snd (SelfVerify P C True l2)) = ClassSeqGap"
proof -
  have inv: "logInv P C l hist" using reach_runInv [OF assms(1-3)] by (simp add: runInv_def)
  then have key: "hmacKey l \<noteq> []" and holds: "walHolds C w hist" and ch: "chained P (hmacKey l) hist"
    using assms(4) by (auto simp: logInv_def storeInv_def)
  let ?a = "sealed P e1 l r1" and ?b = "sealed P e2 l r2"
  obtain w1 where w1: "AppendRecord C IoSync w ?a = (Some ErrSync, w1)" "walHolds C w1 (hist @ [?a])"
      "Suc (segIndex w1) < 10 ^ 10"
    using AppendRecord_sync(1) [OF holds assms(8)] assms(5) by fastforce
  obtain w2 where w2: "AppendRecord C IoOk w1 ?b = (None, w2)" "walHolds C w2 ((hist @ [?a]) @ [?b])"
    using AppendRecord_sync(2) [OF w1(2) assms(9) w1(3)] by blast
  let ?l1 = "l\<lparr>lwal := Some w1\<rparr>" and ?l2 = "commit P C e2 (l\<lparr>lwal := Some w2\<rparr>) ?b"
  have b: "sealed P e2 ?l1 r2 = ?b" by (simp add: sealRecord_def Let_def)
  have 1: "Append P C e1 r1 l = (?l1, Inl (WalAppendFailed ErrSync))"
    using key assms(4,6) w1(1) by (simp add: Append_def Let_def)
  have 2: "Append P C e2 r2 ?l1 = (?l2, Inr ?b)"
    using key assms(7) w2(1) b by (simp add: Append_def Let_def)
  obtain w3 where w3: "lwal ?l2 = Some w3" "walHolds C w3 (hist @ [?a, ?b])"
    using commit_walHolds [of P C e2 "l\<lparr>lwal := Some w2\<rparr>" ?b ?l2 w2] w2(2) by auto
  then obtain rss where d: "walDir C (wdir w3) (segIndex w3) rss" "concat rss = hist @ [?a, ?b]"
    by (auto simp: walHolds_def)
  have "snd (Records C True ?l2) = hist @ [?a, ?b]" "hmacKey (fst (Records C True ?l2)) = hmacKey l"
    using ReadAll_walDir [OF d(1), of True] d(2) w3(1)
    by (simp_all add: Records_def)
  moreover have "chained P (hmacKey l) (hist @ [?a])" "Seq ?b = of_nat (length hist) + 1"
    using ch inv sealed_link [of l hist P e1 r1] by (simp_all add: logInv_def)
  note dup = duplicate_seq_rejected [OF this]
  ultimately have "Class (snd (SelfVerify P C True ?l2)) = ClassSeqGap"
    using dup by (auto simp: SelfVerify_def Let_def split: prod.splits)
  then show ?thesis using 1 2 by blast
qed

text \<open>A codec that reads back the two records named in its argument, told apart by their host.\<close>

definition pairCodec :: "audit_record \<Rightarrow> audit_record \<Rightarrow> codec" where
  "pairCodec a b = \<lparr>marshalRecord = (\<lambda>r. Some (''{'' @ Host r @ ''}'')),
     unmarshalRecord = (\<lambda>x. if x = ''{'' @ Host a @ ''}'' then Some a
                            else if x = ''{'' @ Host b @ ''}'' then Some b else None),
     marshalCheckpoint = (\<lambda>c. None), unmarshalCheckpoint = (\<lambda>b. None)\<rparr>"

lemma pairCodec_lineOK:
  assumes "NL \<notin> set (Host a)" and "NL \<notin> set (Host b)" and "Host a \<noteq> Host b"
  shows "lineOK (pairCodec a b) a" and "lineOK (pairCodec a b) b"
  using assms by (simp_all add: lineOK_def pairCodec_def)

definition exWalLog :: "codec \<Rightarrow> bytes log" where
  "exWalLog C = fst (bootLog C True ''w'' (exCfg (Some (NewWALSink []))))"

lemma NewWALSink_holds: "walHolds C (NewWALSink []) [] \<and> cpHolds C (NewWALSink []) []"
  using walHolds_new
  by (simp add: cpHolds_def NewWALSink_def latestSegment_def listSegments_def openSegment_def fileContent_def)

lemma exWalLog_boot:
  "bootLog C True ''w'' (exCfg (Some (NewWALSink []))) = (exWalLog C, None) \<and>
   lwal (exWalLog C) = Some (NewWALSink []) \<and> seq (exWalLog C) = 0 \<and> prevHash (exWalLog C) = [] \<and>
   hmacKey (exWalLog C) = ''k'' \<and> nodeID (exWalLog C) = ''n''"
proof -
  have "ReadAll C True (NewWALSink []) = (Inr [], NewWALSink [])"
    using walHolds_reopen [OF walHolds_new] NewWALSink_idem by metis
  moreover have "ReadCheckpoints C (NewWALSink []) = Inr []"
    using ReadCheckpoints_cpHolds NewWALSink_holds by blast
  ultimately show ?thesis
    by (simp add: exWalLog_def bootLog_def NewLog_def exCfg_def Let_def replayWAL_def Checkpoints_def)
qed

theorem sync_failure_breaks_chain_witness:
  "let a = sealed toyPrims (exEnv\<lparr>envWal := IoSync\<rparr>) (exWalLog toyCodec) (zeroRecord\<lparr>Host := ''a''\<rparr>);
       b = sealed toyPrims exEnv (exWalLog toyCodec) (zeroRecord\<lparr>Host := ''b''\<rparr>);
       C = pairCodec a b; l = exWalLog C
   in \<exists>l1 l2 x. Append toyPrims C (exEnv\<lparr>envWal := IoSync\<rparr>) (zeroRecord\<lparr>Host := ''a''\<rparr>) l =
           (l1, Inl (WalAppendFailed ErrSync)) \<and>
         Append toyPrims C exEnv (zeroRecord\<lparr>Host := ''b''\<rparr>) l1 = (l2, Inr x) \<and>
         Class (snd (SelfVerify toyPrims C True l2)) = ClassSeqGap"
proof -
  let ?e1 = "exEnv\<lparr>envWal := IoSync\<rparr>" and ?r1 = "zeroRecord\<lparr>Host := ''a''\<rparr>" and ?r2 = "zeroRecord\<lparr>Host := ''b''\<rparr>"
  let ?a = "sealed toyPrims ?e1 (exWalLog toyCodec) ?r1" and ?b = "sealed toyPrims exEnv (exWalLog toyCodec) ?r2"
  let ?C = "pairCodec ?a ?b" and ?l = "exWalLog (pairCodec ?a ?b)"
  have same: "sealed toyPrims ?e1 ?l ?r1 = ?a" "sealed toyPrims exEnv ?l ?r2 = ?b"
    using exWalLog_boot [of ?C] exWalLog_boot [of toyCodec] by (simp_all add: sealRecord_def Let_def)
  have r: "reach toyPrims ?C ''w'' ?l []"
    by (rule reach_boot [of _ _ "exCfg (Some (NewWALSink []))"])
       (use exWalLog_boot [of ?C] in \<open>simp_all add: exCfg_def\<close>)
  have ok: "lineOK ?C ?a" "lineOK ?C ?b"
    by (intro pairCodec_lineOK; simp add: addHMAC_def sealRecord_def Let_def)+
  show ?thesis
    unfolding Let_def
    by (rule sync_failure_breaks_chain [OF r, where w = "NewWALSink []"])
       (use exWalLog_boot [of ?C] ok same in \<open>simp_all add: exEnv_def NewWALSink_def latestSegment_def
          listSegments_def openSegment_def\<close>)
qed

text \<open>
  The write of a tree head to the sidecar is best-effort and its error is discarded. If one head is
  lost but a later one is written, then the list of heads read back after a restart no longer
  verifies, although neither the records nor any head were touched: the later head names the lost
  head's signature as its predecessor.
\<close>

theorem lost_checkpoint_breaks_chain:
  assumes "chained P key hist" and "hist \<noteq> []" and "length hist < 2 ^ 64"
    and "heads P pub hist (cps @ [lost, later])" and "Sig lost \<noteq> lastSig cps"
  shows "VOK (Verify P hist (cps @ [lost, later]) key pub) \<and> \<not> VOK (Verify P hist (cps @ [later]) key pub)"
proof -
  have "PrevCP later = Sig lost"
    using assms(4) heads_snoc [of P pub hist "cps @ [lost]" later] by (simp add: headOK_def)
  then have "\<not> heads P pub hist (cps @ [later])" using assms(5) by (simp add: headOK_def)
  then show ?thesis unfolding Verify_OK_iff [OF assms(3)] using assms(1,2,4) by blast
qed

theorem lost_checkpoint_breaks_chain_witness:
  "\<exists>a b. checkpoints exLog2 = [a, b] \<and>
     VOK (Verify toyPrims [exRec] [a, b] ''k'' ''s'') \<and> \<not> VOK (Verify toyPrims [exRec] [b] ''k'' ''s'')"
proof -
  obtain a where a: "checkpoints exLog1 = [a]" "Sig a \<noteq> []" using exLog1_cps by blast
  obtain b where b: "checkpoints exLog2 = [a, b]"
    using a(1) by (simp add: exLog2_def Checkpoint_def Let_def checkpointLocked_newHead)
  have "logInv toyPrims toyCodec exLog2 [exRec]"
    using reach_runInv [OF exLog2_reach] by (simp add: runInv_def)
  moreover have "hmacKey exLog2 = ''k''" "signPriv exLog2 = ''s''"
    by (simp_all add: exLog2_def Checkpoint_def Let_def checkpointLocked_newHead exLog1_alt)
  ultimately have "chained toyPrims ''k'' [exRec]" "heads toyPrims ''s'' [exRec] ([] @ [a, b])"
    using b by (simp_all add: logInv_def PublicKey_def toyPrims_def)
  from lost_checkpoint_breaks_chain [OF this(1) _ _ this(2)] a b show ?thesis by simp
qed

section \<open>An accepted chain cannot be altered\<close>

text \<open>The inputs of SHA-256 when a chain is verified.\<close>

definition chainInputs :: "'sk prims \<Rightarrow> audit_record list \<Rightarrow> bytes set" where
  "chainInputs P recs = (\<lambda>i. canonicalBytes P (recs ! i) @ headHash (take i recs)) ` {..<length recs}"

lemma chainInputs_snoc [simp]:
  "chainInputs P (recs @ [r]) = insert (canonicalBytes P r @ headHash recs) (chainInputs P recs)"
  by (auto simp: chainInputs_def lessThan_Suc nth_append)

lemma length_headHash:
  assumes "hashOK P" and "chained P key hist"
  shows "length (headHash hist) = (if hist = [] then 0 else 64)"
  using assms by (cases hist rule: rev_cases) (simp_all add: link_def computeRecordHash_def hashOK_def)

lemma chained_same_head:
  assumes "hashOK P"
  shows "length recs = length recs' \<Longrightarrow> chained P key recs \<Longrightarrow> chained P key' recs' \<Longrightarrow>
    headHash recs = headHash recs' \<Longrightarrow> inj_on (sha256 P) (chainInputs P recs \<union> chainInputs P recs') \<Longrightarrow>
    list_all2 (\<lambda>r r'. canonicalBytes P r = canonicalBytes P r') recs recs'"
proof (induction recs arbitrary: recs' rule: rev_induct)
  case (snoc r a)
  then obtain b r' where recs': "recs' = b @ [r']" "length a = length b" by (cases recs' rule: rev_cases) auto
  let ?x = "canonicalBytes P r @ headHash a" and ?y = "canonicalBytes P r' @ headHash b"
  have "sha256 P ?x = sha256 P ?y"
    using snoc.prems recs' by (simp add: link_def computeRecordHash_def)
  then have "?x = ?y" by (rule inj_on_eqD [OF snoc.prems(5)]) (simp_all add: recs')
  moreover have "length (headHash a) = length (headHash b)"
    using length_headHash [OF assms, of key a] length_headHash [OF assms, of key' b] snoc.prems recs' by auto
  ultimately have eq: "canonicalBytes P r = canonicalBytes P r'" "headHash a = headHash b" by auto
  have "inj_on (sha256 P) (chainInputs P a \<union> chainInputs P b)"
    by (rule inj_on_subset [OF snoc.prems(5)]) (use recs' in auto)
  then show ?case using snoc.IH [of b] snoc.prems eq recs' by (simp add: list_all2_appendI)
qed simp

text \<open>
  C8. Two chains of the same length that the verifier accepts (whatever keys and heads are used) and that
  have the same head hash agree record by record on everything the canonical form binds. So whoever
  alters, reorders or replaces a record below a head hash that an auditor knows is detected, unless
  SHA-256 has a collision among the inputs hashed for these two chains.
\<close>

theorem chain_commits_to_history:
  assumes "hashOK P" and "nfcEmpty P" and "length recs = length recs'" and "length recs < 2 ^ 64"
    and "VOK (Verify P recs cps key pub)" and "VOK (Verify P recs' cps' key' pub')"
    and "headHash recs = headHash recs'"
    and "inj_on (sha256 P) (chainInputs P recs \<union> chainInputs P recs')"
    and "\<forall>r \<in> set recs \<union> set recs'. list_all fits32 (canonicalFields P r)"
  shows "list_all2 (sameContent P) recs recs'"
proof -
  have "chained P key recs" "chained P key' recs'"
    using assms(3-6) Verify_OK_iff [of recs P cps key pub] Verify_OK_iff [of recs' P cps' key' pub'] by auto
  from chained_same_head [OF assms(1,3) this assms(7,8)]
  show ?thesis
  proof (rule list.rel_mono_strong)
    fix r r' assume "r \<in> set recs" "r' \<in> set recs'" "canonicalBytes P r = canonicalBytes P r'"
    then show "sameContent P r r'"
      using canonicalFields_inj [of P r r'] sameContent_of_fields [OF assms(2)] assms(9) by blast
  qed
qed

theorem chain_commits_to_history_witness:
  "list_all2 (sameContent toyPrims) [exRec] [exRec\<lparr>HMAC := ''x''\<rparr>]"
proof -
  let ?r = "exRec\<lparr>HMAC := ''x''\<rparr>"
  have l: "link toyPrims ''k'' [] exRec" "link toyPrims [] [] ?r"
    using sealed_link [of exLog0 "[]" toyPrims exEnv exEvent] by (simp_all add: exRec_def link_def)
  have v: "VOK (Verify toyPrims [exRec] [] ''k'' ''s'')" "VOK (Verify toyPrims [?r] [] [] ''s'')"
    using l chained_snoc [of toyPrims _ "[]"] by (simp_all add: Verify_OK_iff)
  have i: "chainInputs toyPrims [exRec] = chainInputs toyPrims [?r]"
    using chainInputs_snoc [of toyPrims "[]"] by (simp add: chainInputs_def canonicalBytes_def)
  have "list_all fits32 (canonicalFields toyPrims exRec)"
    by (simp add: exRec_def addHMAC_def sealRecord_def Let_def exEnv_def exEvent_def zeroRecord_def
        EventSchemaVersion_def canonicalFields_def put_def putInt_def fits32_def bracketed_def
        formatInt_def decNat.simps toyPrims_def)
  then show ?thesis
    by (intro chain_commits_to_history [OF _ _ _ _ v])
       (simp_all add: headHash_def i, simp add: chainInputs_def lessThan_Suc)
qed

section \<open>Inclusion proofs against signed heads\<close>

text \<open>
  For every tree head a run has signed and every record it covers, the log produces an inclusion
  proof for that record's hash, and the offline verifier accepts it against the Merkle root in the
  head.
\<close>

theorem inclusion_at_head:
  assumes "reach P C wk l hist" and "edOK P" and "hashOK P"
    and "cp \<in> set (checkpoints l)" and "0 < n" and "n \<le> unat (TreeSize cp)"
  shows "\<exists>res. InclusionProofAt P l (of_nat n) (TreeSize cp) = Some res \<and>
           LeafData res = RecordHash (hist ! (n - 1)) \<and>
           verifyInclusion (sha256 P) (LeafData res) (LeafIndex res) (IncTreeSize res) (IncProof res)
             (mustHex (MerkleRoot cp))"
proof -
  let ?s = "unat (TreeSize cp)" and ?ls = "take (unat (TreeSize cp)) (leaves l)"
  have inv: "logInv P C l hist" "witnessInv P wk l" and len: "length hist < 2 ^ 63"
    using reach_runInv [OF assms(1-3)] by (auto simp: runInv_def)
  obtain i where "i < length (checkpoints l)" "checkpoints l ! i = cp" using assms(4) by (auto simp: in_set_conv_nth)
  then have hd: "?s \<le> length hist" "MerkleRoot cp \<noteq> [] \<longrightarrow> MerkleRoot cp = hexEncode (merkleRoot (sha256 P) ?ls)"
    using inv(1) by (auto simp: logInv_def heads_def headOK_def take_map)
  have mr: "mustHex (MerkleRoot cp) = merkleRoot (sha256 P) ?ls"
    using hd(2) inv(2) assms(4) by (auto simp: witnessInv_def witnessed_def mustHex_def)
  have lv: "leaves l = map RecordHash hist" "length (leaves l) = length hist" using inv(1) by (auto simp: logInv_def)
  have small: "n - 1 < ?s" "n < 2 ^ 63" "?s < 2 ^ 63" using assms(5,6) hd(1) len by auto
  have word: "unat (of_nat n :: 64 word) = n" "unat (of_nat (length (leaves l)) :: 64 word) = length hist"
    using small len lv by (simp_all add: unsigned_of_nat take_bit_nat_eq_self)
  have idx: "sint (of_nat n - 1 :: 64 word) = int (n - 1)"
    using assms(5) sint_of_nat_small [of "n - 1"] small by (simp add: of_nat_diff)
  have sz: "sint (TreeSize cp) = int ?s" by (rule sint_unat63) (rule small)
  have ll: "length ?ls = ?s" using hd(1) lv by simp
  have nn: "nat (int n - 1) = n - 1" by simp
  have "verifyInclusion (sha256 P) (?ls ! nat (int (n - 1))) (int (n - 1)) (int (length ?ls))
      (inclusionProof (sha256 P) ?ls (int (n - 1))) (merkleRoot (sha256 P) ?ls)"
    by (rule inclusionProof_verifies) (use small(1) ll in linarith)+
  moreover have "InclusionProofAt P l (of_nat n) (TreeSize cp) =
      Some \<lparr>LeafData = ?ls ! (n - 1), LeafIndex = int (n - 1), IncTreeSize = int ?s,
            IncProof = inclusionProof (sha256 P) ?ls (int (n - 1))\<rparr>"
    using assms(5,6) hd(1) word nn
    by (simp add: InclusionProofAt_def Let_def idx sz word_less_nat_alt flip: unat_eq_0)
  moreover have "?ls ! (n - 1) = RecordHash (hist ! (n - 1))" using small hd(1) lv by simp
  ultimately show ?thesis using mr ll by simp
qed

theorem inclusion_at_head_witness:
  "\<exists>cp res. checkpoints exLog1 = [cp] \<and> InclusionProofAt toyPrims exLog1 1 1 = Some res \<and>
     LeafData res = RecordHash exRec \<and>
     verifyInclusion (sha256 toyPrims) (LeafData res) (LeafIndex res) (IncTreeSize res) (IncProof res)
       (mustHex (MerkleRoot cp))"
proof -
  obtain cp where cp: "checkpoints exLog1 = [cp]" "TreeSize cp = 1" using exLog1_cps by blast
  from inclusion_at_head [OF exLog1_reach, of cp 1] cp show ?thesis by auto
qed

end
