(* ===== verification/Vault.thy ===== *)
theory Vault
  imports AuditRecord
begin

text \<open>
  \<open>internal/audit/pseudonym.go\<close> (the re-identification vault with per-subject linkage keys and
  crypto-shred) and \<open>internal/gate/erasure.go\<close> with \<open>RunDueShreds\<close> of \<open>gate.go\<close> (the hold window
  before an erasure). Random keys and ids are arguments of the operations that draw them; \<open>scrypt\<close> is
  the argument \<open>kdf\<close>, and the JSON form of a snapshot the pair of functions \<open>enc\<close>, \<open>dec\<close>.
\<close>

section \<open>The vault\<close>

record vault =
  vkeys :: "string \<rightharpoonup> bytes"
  shredded :: "string set"
  vindex :: "string \<rightharpoonup> string"
  stretch :: bool

definition NewVault :: vault where
  "NewVault = \<lparr>vkeys = Map.empty, shredded = {}, vindex = Map.empty, stretch = False\<rparr>"

definition SetStretch :: "vault \<Rightarrow> bool \<Rightarrow> vault" where
  "SetStretch v on = v\<lparr>stretch := on\<rparr>"

definition Link :: "vault \<Rightarrow> string \<Rightarrow> string \<Rightarrow> vault" where
  "Link v handle subjectID =
     (if handle = [] \<or> subjectID = [] then v
      else if subjectID \<notin> shredded v then v\<lparr>vindex := (vindex v)(handle \<mapsto> subjectID)\<rparr> else v)"

definition Resolve :: "vault \<Rightarrow> string \<Rightarrow> string option" where
  "Resolve v handle = vindex v handle"

definition subjectKey :: "vault \<Rightarrow> bytes \<Rightarrow> string \<Rightarrow> bool \<Rightarrow> vault \<times> bytes option" where
  "subjectKey v fresh subjectID create =
     (case vkeys v subjectID of
        Some k \<Rightarrow> (v, Some k)
      | None \<Rightarrow>
          if subjectID \<in> shredded v \<or> \<not> create then (v, None)
          else (v\<lparr>vkeys := (vkeys v)(subjectID \<mapsto> fresh)\<rparr>, Some fresh))"

definition shortHash :: "'sk prims \<Rightarrow> string \<Rightarrow> string" where
  "shortHash P s = hexEncode (take 6 (sha256 P s))"

definition Pseudonymize ::
    "'sk prims \<Rightarrow> (bytes \<Rightarrow> bytes \<Rightarrow> bytes option) \<Rightarrow> vault \<Rightarrow> bytes \<Rightarrow> string \<Rightarrow> string \<Rightarrow> vault \<times> string" where
  "Pseudonymize P kdf v fresh subjectID val =
     (case subjectKey v fresh subjectID True of
        (v', None) \<Rightarrow> (v', ''shredded:'' @ shortHash P subjectID)
      | (v', Some k) \<Rightarrow>
          if stretch v'
          then (case kdf k val of
                  Some dk \<Rightarrow> (v', hexEncode dk)
                | None \<Rightarrow> (v', hexEncode (hmacSha P k val)))
          else (v', hexEncode (hmacSha P k val)))"

definition Shred :: "vault \<Rightarrow> string \<Rightarrow> vault \<times> bool" where
  "Shred v subjectID =
     (v\<lparr>vkeys := (vkeys v)(subjectID := None), shredded := insert subjectID (shredded v),
        vindex := (\<lambda>h. if vindex v h = Some subjectID then None else vindex v h)\<rparr>,
      vkeys v subjectID \<noteq> None)"

text \<open>The struct a snapshot marshals. The order of the shredded ids follows map iteration, so it is a set.\<close>

record vsnap =
  snKeys :: "string \<rightharpoonup> string"
  snShredded :: "string set"
  snIndex :: "string \<rightharpoonup> string"

definition snapOf :: "vault \<Rightarrow> vsnap" where
  "snapOf v = \<lparr>snKeys = map_option hexEncode \<circ> vkeys v, snShredded = shredded v, snIndex = vindex v\<rparr>"

definition Snapshot :: "(vsnap \<Rightarrow> bytes) \<Rightarrow> vault \<Rightarrow> bytes" where
  "Snapshot enc v = enc (snapOf v)"

definition LoadVault :: "(bytes \<Rightarrow> vsnap option) \<Rightarrow> bytes \<Rightarrow> vault" where
  "LoadVault dec blob =
     (if blob = [] then NewVault
      else case dec blob of
             None \<Rightarrow> NewVault
           | Some s \<Rightarrow>
               NewVault\<lparr>vkeys := (\<lambda>i. case snKeys s i of
                                       None \<Rightarrow> None
                                     | Some hk \<Rightarrow> (case hexDecode hk of (k, ok) \<Rightarrow> if ok then Some k else None)),
                        shredded := snShredded s, vindex := snIndex s\<rparr>)"

section \<open>Scheduled erasures (erasure.go)\<close>

record scheduled_shred =
  ShredID :: string
  Subject :: string
  Requester :: string
  Approver :: string
  LegalBasis :: string
  ExecuteAt :: int

record shred_queue =
  sqItems :: "(string \<times> scheduled_shred) list"
  hold :: int

definition NewShredQueue :: "int \<Rightarrow> shred_queue" where
  "NewShredQueue h = \<lparr>sqItems = [], hold = h\<rparr>"

text \<open>The map of items is an association list; an insertion replaces the entry of the same id.\<close>

definition Schedule ::
    "shred_queue \<Rightarrow> int \<Rightarrow> string \<Rightarrow> string \<Rightarrow> string \<Rightarrow> string \<Rightarrow> string \<Rightarrow> shred_queue \<times> scheduled_shred" where
  "Schedule q now fresh subject requester approver legalBasis =
     (let s = \<lparr>ShredID = fresh, Subject = subject, Requester = requester, Approver = approver,
               LegalBasis = legalBasis, ExecuteAt = now + hold q\<rparr>
      in (q\<lparr>sqItems := (fresh, s) # filter (\<lambda>e. fst e \<noteq> fresh) (sqItems q)\<rparr>, s))"

definition Cancel :: "shred_queue \<Rightarrow> string \<Rightarrow> shred_queue \<times> scheduled_shred option" where
  "Cancel q i = (q\<lparr>sqItems := filter (\<lambda>e. fst e \<noteq> i) (sqItems q)\<rparr>, map_of (sqItems q) i)"

definition isDue :: "int \<Rightarrow> scheduled_shred \<Rightarrow> bool" where
  "isDue now s \<longleftrightarrow> \<not> now < ExecuteAt s"

definition Due :: "shred_queue \<Rightarrow> int \<Rightarrow> shred_queue \<times> scheduled_shred list" where
  "Due q now =
     (q\<lparr>sqItems := filter (\<lambda>e. \<not> isDue now (snd e)) (sqItems q)\<rparr>,
      map snd (filter (\<lambda>e. isDue now (snd e)) (sqItems q)))"

definition ListShreds :: "shred_queue \<Rightarrow> scheduled_shred list" where
  "ListShreds q = map snd (sqItems q)"

text \<open>
  \<open>RunDueShreds\<close> shreds every due subject in turn; the second component says for each whether a key
  existed, which decides the event of the certificate.
\<close>

fun shredAll :: "vault \<Rightarrow> scheduled_shred list \<Rightarrow> vault \<times> (scheduled_shred \<times> bool) list" where
  "shredAll v [] = (v, [])"
| "shredAll v (d # ds) =
     (case Shred v (Subject d) of
        (v1, existed) \<Rightarrow> (case shredAll v1 ds of (v2, cs) \<Rightarrow> (v2, (d, existed) # cs)))"

definition RunDueShreds ::
    "shred_queue \<Rightarrow> vault \<Rightarrow> int \<Rightarrow> shred_queue \<times> vault \<times> (scheduled_shred \<times> bool) list" where
  "RunDueShreds q v now =
     (case Due q now of
        (q', due) \<Rightarrow> (case shredAll v due of (v', certs) \<Rightarrow> (q', v', certs)))"

section \<open>Erasure is permanent\<close>

definition erased :: "string \<Rightarrow> vault \<Rightarrow> bool" where
  "erased s v \<longleftrightarrow> s \<in> shredded v \<and> vkeys v s = None \<and> (\<forall>h. vindex v h \<noteq> Some s)"

text \<open>The operations of a vault, in any order, including a restart from its own snapshot.\<close>

inductive vstep :: "'sk prims \<Rightarrow> (bytes \<Rightarrow> bytes \<Rightarrow> bytes option) \<Rightarrow> vault \<Rightarrow> vault \<Rightarrow> bool" for P kdf where
  vstep_link: "vstep P kdf v (Link v h s)"
| vstep_psn: "vstep P kdf v (fst (Pseudonymize P kdf v fresh s x))"
| vstep_shred: "vstep P kdf v (fst (Shred v s))"
| vstep_stretch: "vstep P kdf v (SetStretch v on)"
| vstep_reload: "vstep P kdf v (SetStretch (LoadVault dec (Snapshot enc v)) on)"
    if "dec (Snapshot enc v) = Some (snapOf v)" and "Snapshot enc v \<noteq> []"

inductive_cases vstepE: "vstep P kdf v v'"

lemma LoadVault_Snapshot:
  assumes "dec (Snapshot enc v) = Some (snapOf v)" and "Snapshot enc v \<noteq> []"
  shows "LoadVault dec (Snapshot enc v) = v\<lparr>stretch := False\<rparr>"
proof -
  have "(\<lambda>i. case (map_option hexEncode \<circ> vkeys v) i of None \<Rightarrow> None
           | Some hk \<Rightarrow> (case hexDecode hk of (k, ok) \<Rightarrow> if ok then Some k else None)) = vkeys v"
    by (rule ext) (auto split: option.splits)
  then show ?thesis using assms by (simp add: LoadVault_def snapOf_def NewVault_def)
qed

lemma Pseudonymize_vault:
  "fst (Pseudonymize P kdf v fresh s x) = fst (subjectKey v fresh s True)"
  by (auto simp: Pseudonymize_def split: prod.splits option.splits)

lemma erased_step:
  assumes "vstep P kdf v v'" and "erased s v"
  shows "erased s v'"
  using assms
proof (cases rule: vstep.cases)
  case (vstep_reload dec enc on)
  then show ?thesis using assms(2) by (simp add: LoadVault_Snapshot SetStretch_def erased_def)
qed (auto simp: erased_def Link_def Pseudonymize_vault subjectKey_def Shred_def SetStretch_def
       split: option.splits if_splits)

lemma erased_steps:
  assumes "(vstep P kdf)\<^sup>*\<^sup>* v v'" and "erased s v"
  shows "erased s v'"
  using assms by (induction rule: rtranclp_induct) (auto intro: erased_step)

lemma erased_tombstone:
  "erased s v \<Longrightarrow> Pseudonymize P kdf v fresh s x = (v, ''shredded:'' @ shortHash P s) \<and> Resolve v h \<noteq> Some s"
  by (simp add: erased_def Pseudonymize_def subjectKey_def Resolve_def)

text \<open>
  C22. Once a subject is shredded, no sequence of vault operations (links, pseudonyms with any fresh
  keys, other erasures, changes of the stretching mode, restarts from the vault's own snapshot) brings
  it back: every later pseudonym of the subject is the same tombstone whatever the value, and no
  handle resolves to the subject.
\<close>

theorem shred_permanent:
  assumes "(vstep P kdf)\<^sup>*\<^sup>* (fst (Shred v s)) v'"
  shows "Pseudonymize P kdf v' fresh s x = (v', ''shredded:'' @ shortHash P s) \<and> Resolve v' h \<noteq> Some s"
proof -
  have "erased s (fst (Shred v s))" by (auto simp: erased_def Shred_def)
  from erased_tombstone [OF erased_steps [OF assms this]] show ?thesis by blast
qed

theorem shred_permanent_witness:
  "snd (Pseudonymize toyPrims (\<lambda>k x. None) (Link (fst (Shred NewVault ''u'')) ''h'' ''u'') ''k'' ''u'' ''ip'') =
   ''shredded:'' @ shortHash toyPrims ''u''"
proof -
  have "(vstep toyPrims (\<lambda>k x. None))\<^sup>*\<^sup>* (fst (Shred NewVault ''u'')) (Link (fst (Shred NewVault ''u'')) ''h'' ''u'')"
    by (intro r_into_rtranclp vstep_link)
  from shred_permanent [OF this] show ?thesis by simp
qed

section \<open>Linkability and its loss\<close>

text \<open>The pseudonym of a value under the key a vault holds.\<close>

definition psnOf :: "'sk prims \<Rightarrow> (bytes \<Rightarrow> bytes \<Rightarrow> bytes option) \<Rightarrow> bool \<Rightarrow> bytes \<Rightarrow> string \<Rightarrow> string" where
  "psnOf P kdf st k x =
     (if st then (case kdf k x of Some dk \<Rightarrow> hexEncode dk | None \<Rightarrow> hexEncode (hmacSha P k x))
      else hexEncode (hmacSha P k x))"

lemma Pseudonymize_known:
  "vkeys v s = Some k \<Longrightarrow> Pseudonymize P kdf v fresh s x = (v, psnOf P kdf (stretch v) k x)"
  by (simp add: Pseudonymize_def subjectKey_def psnOf_def split: option.splits)

text \<open>
  The vault is written to the keystore only on a graceful shutdown. If the process stops in another
  way after an erasure, the vault that the next start loads still holds the subject's linkage key:
  the pseudonyms of the subject are again those from before the erasure, although its completion was
  audited.
\<close>

theorem shred_lost_on_crash:
  assumes "dec (Snapshot enc v) = Some (snapOf v)" and "Snapshot enc v \<noteq> []"
    and "vkeys v s = Some k"
    and "sealed = Snapshot enc v" and "live = fst (Shred v s)"
    and "restarted = SetStretch (LoadVault dec sealed) (stretch v)"
  shows "snd (Pseudonymize P kdf live fresh s x) = ''shredded:'' @ shortHash P s \<and>
         snd (Pseudonymize P kdf restarted fresh s x) = snd (Pseudonymize P kdf v fresh s x) \<and>
         snd (Pseudonymize P kdf v fresh s x) = psnOf P kdf (stretch v) k x"
proof -
  have "restarted = v" using assms(4,6) LoadVault_Snapshot [of dec enc v] assms(1,2) by (simp add: SetStretch_def)
  moreover have "erased s live" by (auto simp: assms(5) erased_def Shred_def)
  ultimately show ?thesis using erased_tombstone [of s live P kdf fresh x] Pseudonymize_known [OF assms(3), of P kdf fresh x] by simp
qed

theorem shred_lost_on_crash_witness:
  "let v = NewVault\<lparr>vkeys := [''u'' \<mapsto> ''k'']\<rparr>; dec = (\<lambda>b. Some (snapOf v)); sealed = Snapshot (\<lambda>s. ''blob'') v
   in snd (Pseudonymize toyPrims (\<lambda>k x. None) (SetStretch (LoadVault dec sealed) False) ''f'' ''u'' ''ip'') =
      hexEncode (hmacSha toyPrims ''k'' ''ip'')"
  using shred_lost_on_crash [of "\<lambda>b. Some (snapOf (NewVault\<lparr>vkeys := [''u'' \<mapsto> ''k'']\<rparr>))" "\<lambda>s. ''blob''"
      "NewVault\<lparr>vkeys := [''u'' \<mapsto> ''k'']\<rparr>" "''u''" "''k''", OF _ _ _ refl refl refl, of toyPrims "\<lambda>k x. None" "''f''" "''ip''"]
  by (simp add: Snapshot_def NewVault_def psnOf_def)

section \<open>The hold window\<close>

lemma shredAll_fst_Cons: "fst (shredAll v (d # ds)) = fst (shredAll (fst (Shred v (Subject d))) ds)"
  by (simp split: prod.splits)

lemma shredAll_keeps_erased: "erased s v \<Longrightarrow> erased s (fst (shredAll v ds))"
proof (induction ds arbitrary: v)
  case (Cons a ds)
  have "erased s (fst (Shred v (Subject a)))" using Cons.prems by (auto simp: erased_def Shred_def)
  then show ?case unfolding shredAll_fst_Cons by (rule Cons.IH)
qed simp

lemma shredAll_erased: "d \<in> set ds \<Longrightarrow> erased (Subject d) (fst (shredAll v ds))"
proof (induction ds arbitrary: v)
  case (Cons e ds)
  have "erased (Subject e) (fst (Shred v (Subject e)))" by (auto simp: erased_def Shred_def)
  then show ?case unfolding shredAll_fst_Cons using Cons shredAll_keeps_erased by auto
qed simp

lemma shredAll_keys: "s \<notin> Subject ` set ds \<Longrightarrow> vkeys (fst (shredAll v ds)) s = vkeys v s"
proof (induction ds arbitrary: v)
  case (Cons a ds)
  then show ?case unfolding shredAll_fst_Cons by (simp add: Shred_def)
qed simp

text \<open>
  An erasure scheduled at time \<open>t\<close> is executed by the first run at or after \<open>t + hold\<close>, and by no
  earlier run: before that the subject's key is untouched (unless another due entry names the same
  subject) and the entry stays in the queue; at that time the subject is erased and the entry is
  gone. Cancelling removes the entry, so that no later run executes it.
\<close>

theorem erasure_hold_window:
  assumes "Schedule q t i subj rq ap lb = (q1, s)" and "RunDueShreds q1 v now = (q2, v2, certs)"
  shows "(now < t + hold q \<longrightarrow> (i, s) \<in> set (sqItems q2) \<and>
            (subj \<notin> Subject ` set (snd (Due q1 now)) \<longrightarrow> vkeys v2 subj = vkeys v subj)) \<and>
         (t + hold q \<le> now \<longrightarrow> erased subj v2 \<and> map_of (sqItems q2) i = None) \<and>
         map_of (sqItems (fst (Cancel q1 i))) i = None"
proof -
  have s: "s = \<lparr>ShredID = i, Subject = subj, Requester = rq, Approver = ap, LegalBasis = lb, ExecuteAt = t + hold q\<rparr>"
    and q1: "sqItems q1 = (i, s) # filter (\<lambda>e. fst e \<noteq> i) (sqItems q)"
    using assms(1) by (auto simp: Schedule_def Let_def)
  have q2: "sqItems q2 = filter (\<lambda>e. \<not> isDue now (snd e)) (sqItems q1)"
    and v2: "v2 = fst (shredAll v (snd (Due q1 now)))"
    using assms(2) by (auto simp: RunDueShreds_def Due_def split: prod.splits)
  have early: "(i, s) \<in> set (sqItems q2)" if "now < t + hold q" using that by (simp add: q2 q1 s isDue_def)
  have late: "erased subj v2 \<and> map_of (sqItems q2) i = None" if d: "t + hold q \<le> now"
  proof -
    have "s \<in> set (snd (Due q1 now))" using d by (simp add: Due_def q1 s isDue_def)
    then have "erased (Subject s) v2" unfolding v2 by (rule shredAll_erased)
    moreover have "map_of (sqItems q2) i = None" using d by (auto simp: q2 q1 s isDue_def map_of_eq_None_iff)
    ultimately show ?thesis by (simp add: s)
  qed
  have "map_of (sqItems (fst (Cancel q1 i))) i = None" by (auto simp: Cancel_def map_of_eq_None_iff)
  then show ?thesis using early late shredAll_keys [of subj "snd (Due q1 now)" v] by (auto simp: v2)
qed

theorem erasure_hold_window_witness:
  "let q1 = fst (Schedule (NewShredQueue 10) 100 ''id'' ''u'' ''alice'' ''bob'' ''art17'');
       v = NewVault\<lparr>vkeys := [''u'' \<mapsto> ''k'']\<rparr>
   in vkeys (fst (snd (RunDueShreds q1 v 109))) ''u'' = Some ''k'' \<and>
      erased ''u'' (fst (snd (RunDueShreds q1 v 110)))"
proof -
  let ?q = "NewShredQueue 10" and ?v = "NewVault\<lparr>vkeys := [''u'' \<mapsto> ''k'']\<rparr>"
  let ?q1 = "fst (Schedule ?q 100 ''id'' ''u'' ''alice'' ''bob'' ''art17'')"
  have due: "snd (Due ?q1 109) = []"
    by (simp add: Due_def Schedule_def NewShredQueue_def Let_def isDue_def)
  obtain a b c where r1: "RunDueShreds ?q1 ?v 109 = (a, b, c)" by (metis prod_cases3)
  obtain a' b' c' where r2: "RunDueShreds ?q1 ?v 110 = (a', b', c')" by (metis prod_cases3)
  have h: "hold ?q = 10" by (simp add: NewShredQueue_def)
  from erasure_hold_window [OF prod.collapse [symmetric] r1] erasure_hold_window [OF prod.collapse [symmetric] r2] due h
  show ?thesis by (simp add: Let_def r1 r2)
qed

end
