(* ===== verification/NodeIdentity.thy ===== *)
theory NodeIdentity
  imports AuditRecord "HOL-Library.Countable" "HOL-Library.Signed_Division"
begin

text \<open>
  The remaining state of a node's identity: \<open>internal/audit/keystore.go\<close> (sealed key material),
  \<open>id.go\<close> (event ids), \<open>noderegistry.go\<close> (suppression detection) and \<open>retention.go\<close> (tiers).

  The key derivation and the authenticated cipher are the record \<open>aead\<close>, the JSON forms the record
  \<open>kcodec\<close>; random bytes are arguments. Times and durations are integers of nanoseconds.
\<close>

section \<open>Keystore\<close>

record key_material =
  SigningSeed :: bytes
  kmHMACKey :: bytes
  kmVault :: bytes
  WitnessSeed :: bytes

record sealed_blob =
  Salt :: bytes
  Nonce :: bytes
  CT :: bytes

record aead =
  scryptKey :: "bytes \<Rightarrow> bytes \<Rightarrow> bytes option"
  gcmSeal :: "bytes \<Rightarrow> bytes \<Rightarrow> bytes \<Rightarrow> bytes"
  gcmOpen :: "bytes \<Rightarrow> bytes \<Rightarrow> bytes \<Rightarrow> bytes option"

record kcodec =
  encMaterial :: "key_material \<Rightarrow> bytes"
  decMaterial :: "bytes \<Rightarrow> key_material option"
  encBlob :: "sealed_blob \<Rightarrow> bytes"
  decBlob :: "bytes \<Rightarrow> sealed_blob option"

datatype key_error = ErrUnseal | ErrKdf | ErrJson | ErrNoFile | ErrWrite

type_synonym files = "string \<rightharpoonup> bytes"

definition SealKeys ::
    "aead \<Rightarrow> kcodec \<Rightarrow> bool \<Rightarrow> files \<Rightarrow> string \<Rightarrow> bytes \<Rightarrow> bytes \<Rightarrow> bytes \<Rightarrow> key_material \<Rightarrow> files \<times> key_error option"
  where
  "SealKeys A K writeOK fs path passphrase salt nonce m =
     (case scryptKey A passphrase salt of
        None \<Rightarrow> (fs, Some ErrKdf)
      | Some dk \<Rightarrow>
          let ct = gcmSeal A dk nonce (encMaterial K m);
              blob = encBlob K \<lparr>Salt = salt, Nonce = nonce, CT = ct\<rparr>
          in if writeOK then (fs(path \<mapsto> blob), None) else (fs, Some ErrWrite))"

definition OpenKeys :: "aead \<Rightarrow> kcodec \<Rightarrow> files \<Rightarrow> string \<Rightarrow> bytes \<Rightarrow> key_error + key_material" where
  "OpenKeys A K fs path passphrase =
     (case fs path of
        None \<Rightarrow> Inl ErrNoFile
      | Some raw \<Rightarrow>
          (case decBlob K raw of
             None \<Rightarrow> Inl ErrJson
           | Some b \<Rightarrow>
               (case scryptKey A passphrase (Salt b) of
                  None \<Rightarrow> Inl ErrKdf
                | Some dk \<Rightarrow>
                    (case gcmOpen A dk (Nonce b) (CT b) of
                       None \<Rightarrow> Inl ErrUnseal
                     | Some plain \<Rightarrow>
                         (case decMaterial K plain of None \<Rightarrow> Inl ErrJson | Some m \<Rightarrow> Inr m)))))"

record krand =
  rSeed :: bytes
  rHkey :: bytes
  rWseed :: bytes
  rSalt :: bytes
  rNonce :: bytes

definition LoadOrCreateKeys ::
    "aead \<Rightarrow> kcodec \<Rightarrow> bool \<Rightarrow> krand \<Rightarrow> files \<Rightarrow> string \<Rightarrow> bytes \<Rightarrow> files \<times> (key_error + key_material \<times> bool)" where
  "LoadOrCreateKeys A K writeOK R fs path passphrase =
     (if fs path \<noteq> None
      then (case OpenKeys A K fs path passphrase of
              Inl e \<Rightarrow> (fs, Inl e)
            | Inr m \<Rightarrow>
                if WitnessSeed m = []
                then let m' = m\<lparr>WitnessSeed := rWseed R\<rparr>
                     in case SealKeys A K writeOK fs path passphrase (rSalt R) (rNonce R) m' of
                          (fs', Some e) \<Rightarrow> (fs', Inl e)
                        | (fs', None) \<Rightarrow> (fs', Inr (m', False))
                else (fs, Inr (m, False)))
      else let m = \<lparr>SigningSeed = rSeed R, kmHMACKey = rHkey R, kmVault = [], WitnessSeed = rWseed R\<rparr>
           in case SealKeys A K writeOK fs path passphrase (rSalt R) (rNonce R) m of
                (fs', Some e) \<Rightarrow> (fs', Inl e)
              | (fs', None) \<Rightarrow> (fs', Inr (m, True)))"

text \<open>What the keystore relies on: decryption inverts encryption, and the JSON codec round-trips.\<close>

definition keyPrimsOK :: "aead \<Rightarrow> kcodec \<Rightarrow> bool" where
  "keyPrimsOK A K \<longleftrightarrow>
     (\<forall>k n p. gcmOpen A k n (gcmSeal A k n p) = Some p) \<and>
     (\<forall>m. decMaterial K (encMaterial K m) = Some m) \<and> (\<forall>b. decBlob K (encBlob K b) = Some b)"

lemma OpenKeys_SealKeys:
  assumes "keyPrimsOK A K" and "SealKeys A K w fs path pw salt nonce m = (fs', None)"
  shows "OpenKeys A K fs' path pw = Inr m" and "fs' path \<noteq> None"
  using assms by (auto simp: SealKeys_def OpenKeys_def keyPrimsOK_def Let_def split: option.splits if_splits)

text \<open>
  A start that succeeded, whether it created the keystore, migrated it or just opened it, leaves a
  file from which every later start with the same passphrase resumes the same signing seed, HMAC key,
  vault and witness seed, reports that nothing was created and leaves the file unchanged, whatever
  random bytes it draws.
\<close>

theorem keystore_resumes:
  assumes "keyPrimsOK A K" and "rWseed R \<noteq> []"
    and "LoadOrCreateKeys A K w R fs path pw = (fs', Inr (m, created))"
  shows "LoadOrCreateKeys A K w' R' fs' path pw = (fs', Inr (m, False))"
proof -
  have "OpenKeys A K fs' path pw = Inr m \<and> fs' path \<noteq> None \<and> WitnessSeed m \<noteq> []"
    using assms(2,3) OpenKeys_SealKeys [OF assms(1)]
    by (auto simp: LoadOrCreateKeys_def Let_def split: if_splits sum.splits option.splits prod.splits)
  then show ?thesis by (auto simp: LoadOrCreateKeys_def)
qed

text \<open>A cipher and a codec for examples: no secrecy, but everything reads back.\<close>

definition packBytes :: "bytes list \<Rightarrow> bytes" where
  "packBytes bs = replicate (to_nat (map (map (of_char :: char \<Rightarrow> nat)) bs)) (CHR ''a'')"

definition unpackBytes :: "bytes \<Rightarrow> bytes list" where
  "unpackBytes b = map (map char_of) (from_nat (length b) :: nat list list)"

lemma unpack_pack [simp]: "unpackBytes (packBytes bs) = bs"
  by (simp add: unpackBytes_def packBytes_def comp_def)

definition toyAead :: aead where
  "toyAead = \<lparr>scryptKey = (\<lambda>p s. Some (p @ s)), gcmSeal = (\<lambda>k n p. k @ n @ p),
     gcmOpen = (\<lambda>k n c. if take (length k + length n) c = k @ n then Some (drop (length k + length n) c) else None)\<rparr>"

definition toyKcodec :: kcodec where
  "toyKcodec = \<lparr>encMaterial = (\<lambda>m. packBytes [SigningSeed m, kmHMACKey m, kmVault m, WitnessSeed m]),
     decMaterial = (\<lambda>b. case unpackBytes b of [s, h, v, w] \<Rightarrow>
        Some \<lparr>SigningSeed = s, kmHMACKey = h, kmVault = v, WitnessSeed = w\<rparr> | _ \<Rightarrow> None),
     encBlob = (\<lambda>b. packBytes [Salt b, Nonce b, CT b]),
     decBlob = (\<lambda>b. case unpackBytes b of [s, n, c] \<Rightarrow> Some \<lparr>Salt = s, Nonce = n, CT = c\<rparr> | _ \<Rightarrow> None)\<rparr>"

lemma toyKeyPrims: "keyPrimsOK toyAead toyKcodec"
  by (simp add: keyPrimsOK_def toyAead_def toyKcodec_def)

definition exRand :: krand where
  "exRand = \<lparr>rSeed = ''seed'', rHkey = ''hkey'', rWseed = ''wseed'', rSalt = ''salt'', rNonce = ''nonce''\<rparr>"

theorem keystore_resumes_witness:
  "let fs = fst (LoadOrCreateKeys toyAead toyKcodec True exRand Map.empty ''ks'' ''pw'')
   in LoadOrCreateKeys toyAead toyKcodec False (exRand\<lparr>rSeed := ''other''\<rparr>) fs ''ks'' ''pw'' =
      (fs, Inr (\<lparr>SigningSeed = ''seed'', kmHMACKey = ''hkey'', kmVault = [], WitnessSeed = ''wseed''\<rparr>, False))"
proof -
  let ?m = "\<lparr>SigningSeed = ''seed'', kmHMACKey = ''hkey'', kmVault = [], WitnessSeed = ''wseed''\<rparr>"
  let ?r = "LoadOrCreateKeys toyAead toyKcodec True exRand Map.empty ''ks'' ''pw''"
  have "snd ?r = Inr (?m, True)"
    by (simp add: LoadOrCreateKeys_def SealKeys_def toyAead_def exRand_def Let_def)
  then have "?r = (fst ?r, Inr (?m, True))" by (metis prod.collapse)
  from keystore_resumes [OF toyKeyPrims _ this] show ?thesis by (simp add: exRand_def Let_def)
qed

section \<open>Event ids (id.go)\<close>

unbundle bit_operations_syntax

definition byteAt :: "64 word \<Rightarrow> nat \<Rightarrow> 8 word" where
  "byteAt ms k = ucast (drop_bit k ms)"

definition byteChar :: "8 word \<Rightarrow> char" where
  "byteChar w = char_of (unat w)"

definition uuidString :: "8 word list \<Rightarrow> string" where
  "uuidString b =
     (let h = (\<lambda>i j. hexEncode (map byteChar (take (j - i) (drop i b))))
      in h 0 4 @ ''-'' @ h 4 6 @ ''-'' @ h 6 8 @ ''-'' @ h 8 10 @ ''-'' @ h 10 16)"

text \<open>\<open>rnd\<close> is what the CSPRNG writes to the last ten bytes; its failure panics.\<close>

definition newEventID :: "64 word \<Rightarrow> 8 word list option \<Rightarrow> string option" where
  "newEventID ms rnd =
     (case rnd of
        None \<Rightarrow> None
      | Some r \<Rightarrow>
          let b = map (byteAt ms) [40, 32, 24, 16, 8, 0] @ r;
              b1 = b[6 := (b ! 6 AND 0x0F) OR 0x70];
              b2 = b1[8 := (b1 ! 8 AND 0x3F) OR 0x80]
          in Some (uuidString b2))"

lemma high_bits:
  fixes x m c :: "8 word"
  assumes "drop_bit k m = 0"
  shows "unat ((x AND m) OR c) div 2 ^ k = unat c div 2 ^ k"
proof -
  have "drop_bit k ((x AND m) OR c) = drop_bit k c" using assms by simp
  moreover have "unat (drop_bit k y) = unat y div 2 ^ k" for y :: "8 word"
    by (subst unat_drop_bit_eq) (rule drop_bit_eq_div)
  ultimately show ?thesis by metis
qed

lemma version_nibble: "unat ((x AND 0x0F) OR 0x70 :: 8 word) div 16 = 7"
  using high_bits [of 4 "0x0F" x "0x70"] by simp

lemma variant_nibble: "unat ((x AND 0x3F) OR 0x80 :: 8 word) div 16 \<in> {8, 9, 10, 11}"
proof -
  have "unat ((x AND 0x3F) OR 0x80 :: 8 word) div 64 = 2" using high_bits [of 6 "0x3F" x "0x80"] by simp
  then have "8 \<le> unat ((x AND 0x3F) OR 0x80 :: 8 word) div 16" "unat ((x AND 0x3F) OR 0x80 :: 8 word) div 16 < 12"
    by linarith+
  then show ?thesis by auto
qed

lemma hexByte_byteChar:
  "hexByte (byteChar w) = [hexDigits ! (unat w div 16), hexDigits ! (unat w mod 16)]"
proof -
  have "unat w < 2 ^ LENGTH(8)" by (rule unsigned_less)
  then show ?thesis by (simp add: hexByte_def byteChar_def Let_def)
qed

text \<open>
  C24. Every event id is a well-formed version 7 UUID: 36 characters in groups of 8, 4, 4, 4 and 12
  joined by dashes, with version digit 7 and a variant digit among 8, 9, a and b, whatever the clock
  and the random bytes; the first twelve digits are the millisecond time stamp.
\<close>

theorem event_id_format:
  "length r = 10 \<Longrightarrow> \<exists>s. newEventID ms (Some r) = Some s \<and> length s = 36 \<and>
     s ! 8 = CHR ''-'' \<and> s ! 13 = CHR ''-'' \<and> s ! 18 = CHR ''-'' \<and> s ! 23 = CHR ''-'' \<and>
     s ! 14 = CHR ''7'' \<and> s ! 19 \<in> set ''89ab'' \<and>
     take 8 s @ take 4 (drop 9 s) = hexEncode (map (byteChar \<circ> byteAt ms) [40, 32, 24, 16, 8, 0])"
proof -
  assume "length r = 10"
  then obtain a b c d e f g h i j where r: "r = [a, b, c, d, e, f, g, h, i, j]"
    by (auto simp: numeral_eq_Suc length_Suc_conv)
  have v: "hexDigits ! (unat ((c AND 0x3F) OR 0x80 :: 8 word) div 16) \<in> set ''89ab''"
    using variant_nibble [of c] by (auto simp: hexDigits_def)
  let ?v = "(a AND 0x0F) OR 0x70" and ?w = "(c AND 0x3F) OR 0x80"
  have "newEventID ms (Some r) = Some (uuidString (map (byteAt ms) [40, 32, 24, 16, 8, 0] @ [?v, b, ?w, d, e, f, g, h, i, j]))"
    unfolding newEventID_def r Let_def by (simp add: numeral_eq_Suc)
  moreover have "uuidString (map (byteAt ms) [40, 32, 24, 16, 8, 0] @ [?v, b, ?w, d, e, f, g, h, i, j]) =
      concat (map (hexByte \<circ> byteChar \<circ> byteAt ms) [40, 32, 24, 16]) @ ''-'' @
      concat (map (hexByte \<circ> byteChar \<circ> byteAt ms) [8, 0]) @ ''-'' @
      [CHR ''7'', hexDigits ! (unat ?v mod 16)] @ hexByte (byteChar b) @ ''-'' @
      [hexDigits ! (unat ?w div 16), hexDigits ! (unat ?w mod 16)] @ hexByte (byteChar d) @ ''-'' @
      concat (map (hexByte \<circ> byteChar) [e, f, g, h, i, j])"
    unfolding uuidString_def Let_def hexEncode_def
    by (simp add: hexByte_byteChar version_nibble) (simp add: hexDigits_def)
  ultimately show ?thesis using v by (simp add: hexByte_byteChar hexEncode_def)
qed

theorem event_id_format_witness:
  "\<exists>s. newEventID 1 (Some (replicate 10 255)) = Some s \<and> length s = 36 \<and> s ! 14 = CHR ''7''"
  using event_id_format [of "replicate 10 255" 1] by auto

section \<open>Node registry (noderegistry.go)\<close>

record node_info =
  niNodeID :: string
  Interval :: int
  PubKey :: bytes
  Last :: int

record node_registry =
  nodes :: "(string \<times> node_info) list"
  grace :: rat

definition NewNodeRegistry :: node_registry where
  "NewNodeRegistry = \<lparr>nodes = [], grace = 2\<rparr>"

definition Expect :: "node_registry \<Rightarrow> string \<Rightarrow> int \<Rightarrow> bytes \<Rightarrow> int \<Rightarrow> node_registry" where
  "Expect r i interval pub now =
     r\<lparr>nodes := (i, \<lparr>niNodeID = i, Interval = interval, PubKey = pub, Last = now\<rparr>) #
                filter (\<lambda>e. fst e \<noteq> i) (nodes r)\<rparr>"

definition Heartbeat :: "node_registry \<Rightarrow> string \<Rightarrow> int \<Rightarrow> node_registry" where
  "Heartbeat r i now =
     r\<lparr>nodes := map (\<lambda>(j, n). if j = i then (j, n\<lparr>Last := now\<rparr>) else (j, n)) (nodes r)\<rparr>"

definition truncRat :: "rat \<Rightarrow> int" where
  "truncRat x = (if x < 0 then \<lceil>x\<rceil> else \<lfloor>x\<rfloor>)"

text \<open>
  \<open>float64\<close> of an \<open>int64\<close>: 53 bits are kept, a tie goes to the even one.  \<open>time.Duration\<close> of a float drops the
  fraction; a value that does not fit gives the least integer, as on amd64.  \<open>Sub\<close> saturates.
\<close>

fun floatScale :: "nat \<Rightarrow> nat" where
  "floatScale n = (if n < 2 ^ 53 then 0 else Suc (floatScale (n div 2)))"

declare floatScale.simps [simp del]

definition float64 :: "int \<Rightarrow> rat" where
  "float64 d =
     (let n = nat \<bar>d\<bar>; m = 2 ^ floatScale n; q = n div m; r = n mod m;
          q' = (if m < 2 * r \<or> 2 * r = m \<and> odd q then q + 1 else q)
      in of_int (sgn d) * of_nat (q' * m))"

definition toDuration :: "rat \<Rightarrow> int" where
  "toDuration x = (if \<bar>x\<bar> < 2 ^ 63 then truncRat x else - (2 ^ 63))"

definition durationSub :: "int \<Rightarrow> int \<Rightarrow> int" where
  "durationSub t u = max (- (2 ^ 63)) (min (2 ^ 63 - 1) (t - u))"

definition isMissing :: "node_registry \<Rightarrow> int \<Rightarrow> node_info \<Rightarrow> bool" where
  "isMissing r now n \<longleftrightarrow> durationSub now (Last n) > toDuration (grace r * float64 (Interval n))"

definition Missing :: "node_registry \<Rightarrow> int \<Rightarrow> string list" where
  "Missing r now = map fst (filter (\<lambda>e. isMissing r now (snd e)) (nodes r))"

definition Nodes :: "node_registry \<Rightarrow> int \<Rightarrow> (string \<times> int \<times> bool) list" where
  "Nodes r now =
     map (\<lambda>e. (niNodeID (snd e), durationSub now (Last (snd e)) sdiv 1000000, isMissing r now (snd e))) (nodes r)"

text \<open>The operations of a registry that other nodes trigger.\<close>

datatype reg_op = OpExpect string int bytes int | OpHeartbeat string int

fun applyOp :: "node_registry \<Rightarrow> reg_op \<Rightarrow> node_registry" where
  "applyOp r (OpExpect i d p now) = Expect r i d p now"
| "applyOp r (OpHeartbeat i now) = Heartbeat r i now"

fun opNode :: "reg_op \<Rightarrow> string" where
  "opNode (OpExpect i d p now) = i"
| "opNode (OpHeartbeat i now) = i"

lemma applyOp_other:
  "opNode op \<noteq> i \<Longrightarrow> map_of (nodes (applyOp r op)) i = map_of (nodes r) i"
proof (cases op)
  case (OpExpect j d p now)
  assume "opNode op \<noteq> i"
  moreover have "map_of (filter (\<lambda>e. fst e \<noteq> j) xs) i = map_of xs i" if "i \<noteq> j" for xs :: "(string \<times> node_info) list"
    using that by (induction xs) auto
  ultimately show ?thesis using OpExpect by (simp add: Expect_def)
next
  case (OpHeartbeat j now)
  assume "opNode op \<noteq> i"
  moreover have "map_of (map (\<lambda>(k, n). if k = j then (k, n\<lparr>Last := now\<rparr>) else (k, n)) xs) i = map_of xs i"
    if "i \<noteq> j" for xs using that by (induction xs) auto
  ultimately show ?thesis using OpHeartbeat by (simp add: Heartbeat_def)
qed

lemma applyOp_keys: "distinct (map fst (nodes r)) \<Longrightarrow> distinct (map fst (nodes (applyOp r op)))"
proof (cases op)
  case (OpExpect j d p now)
  assume "distinct (map fst (nodes r))"
  then show ?thesis using OpExpect by (auto simp: Expect_def distinct_map_filter)
next
  case (OpHeartbeat j now)
  assume "distinct (map fst (nodes r))"
  moreover have "map fst (nodes (Heartbeat r j now)) = map fst (nodes r)"
    by (simp add: Heartbeat_def) (auto simp: split_def)
  ultimately show ?thesis using OpHeartbeat by simp
qed

lemma grace_applyOp [simp]: "grace (applyOp r op) = grace r"
  by (cases op) (simp_all add: Expect_def Heartbeat_def)

lemma foldl_applyOp:
  "\<forall>op \<in> set ops. opNode op \<noteq> i \<Longrightarrow> map_of (nodes (foldl applyOp r ops)) i = map_of (nodes r) i"
  "distinct (map fst (nodes r)) \<Longrightarrow> distinct (map fst (nodes (foldl applyOp r ops)))"
  "grace (foldl applyOp r ops) = grace r"
  by (induction ops arbitrary: r) (simp_all add: applyOp_other applyOp_keys)

lemma Missing_iff:
  assumes "distinct (map fst (nodes r))" and "map_of (nodes r) i = Some n"
  shows "i \<in> set (Missing r now) \<longleftrightarrow> isMissing r now n"
  using assms by (auto simp: Missing_def image_iff) (metis eq_key_imp_eq_value map_of_SomeD)+

text \<open>
  What a history of calls says about a node: the interval of its last registration, and the instant it was last heard
  of, by that registration or by a heartbeat after it.  A heartbeat of a node that is not registered is ignored.
\<close>

fun dueOf :: "string \<Rightarrow> (int \<times> int) option \<Rightarrow> reg_op list \<Rightarrow> (int \<times> int) option" where
  "dueOf i due [] = due"
| "dueOf i due (OpExpect j d p now # ops) = dueOf i (if j = i then Some (d, now) else due) ops"
| "dueOf i due (OpHeartbeat j now # ops) = dueOf i (if j = i then map_option (\<lambda>x. (fst x, now)) due else due) ops"

lemma applyOp_same:
  "map_of (nodes (Expect r i d p now)) i = Some \<lparr>niNodeID = i, Interval = d, PubKey = p, Last = now\<rparr>"
  "map_of (nodes (Heartbeat r i now)) i = map_option (\<lambda>n. n\<lparr>Last := now\<rparr>) (map_of (nodes r) i)"
proof -
  have "map_of (map (\<lambda>(j, n). if j = i then (j, n\<lparr>Last := now\<rparr>) else (j, n)) xs) i = map_option (\<lambda>n. n\<lparr>Last := now\<rparr>) (map_of xs i)" for xs
    by (induction xs) auto
  then show "map_of (nodes (Heartbeat r i now)) i = map_option (\<lambda>n. n\<lparr>Last := now\<rparr>) (map_of (nodes r) i)"
    by (simp add: Heartbeat_def)
qed (simp add: Expect_def)

lemma dueOf_run:
  "map_option (\<lambda>n. (Interval n, Last n)) (map_of (nodes r) i) = due
     \<Longrightarrow> map_option (\<lambda>n. (Interval n, Last n)) (map_of (nodes (foldl applyOp r ops)) i) = dueOf i due ops"
proof (induction ops arbitrary: r due)
  case (Cons op ops)
  then show ?case
    using applyOp_other [of op i r]
    by (cases op) (auto simp: applyOp_same option.map_comp comp_def intro!: Cons.IH)
qed simp

definition intervalOK :: "reg_op \<Rightarrow> bool" where
  "intervalOK op \<longleftrightarrow> (case op of OpExpect j d p now \<Rightarrow> 0 \<le> d \<and> d < 2 ^ 52 | OpHeartbeat j now \<Rightarrow> True)"

lemma dueOf_interval:
  assumes "dueOf i due ops = Some (d, t)" "\<forall>x \<in> set_option due. 0 \<le> fst x \<and> fst x < 2 ^ 52" "\<forall>op \<in> set ops. intervalOK op"
  shows "0 \<le> d \<and> d < 2 ^ 52"
  using assms
proof (induction ops arbitrary: due)
  case (Cons op ops)
  show ?case
  proof (cases op)
    case (OpExpect j e p now)
    then show ?thesis
      using Cons.IH [of "if j = i then Some (e, now) else due"] Cons.prems by (auto simp: intervalOK_def split: if_splits)
  next
    case (OpHeartbeat j now)
    then show ?thesis
      using Cons.IH [of "if j = i then map_option (\<lambda>x. (fst x, now)) due else due"] Cons.prems by (cases due) (auto split: if_splits)
  qed
qed force

lemma grace_exact:
  assumes "0 \<le> d" "d < 2 ^ 52"
  shows "toDuration (2 * float64 d) = 2 * d"
proof -
  have "nat d < 2 ^ 53" using assms by (simp add: nat_less_iff)
  then have "floatScale (nat d) = 0" by (subst floatScale.simps) simp
  then have f: "float64 d = of_int d" using assms by (cases "d = 0") (simp_all add: float64_def)
  have "truncRat (2 * of_int d) = 2 * d"
    by (metis floor_of_int ceiling_of_int of_int_mult of_int_numeral truncRat_def)
  moreover have "\<bar>2 * of_int d\<bar> < (2 ^ 63 :: rat)"
  proof -
    have "2 * d < 2 ^ 63" using assms by simp
    then have "(of_int (2 * d) :: rat) < of_int (2 ^ 63)" by (simp only: of_int_less_iff)
    then show ?thesis using assms by simp
  qed
  ultimately show ?thesis by (simp add: f toDuration_def)
qed

lemma missing_due:
  assumes "0 \<le> Interval n" "Interval n < 2 ^ 52" "grace r = 2"
  shows "isMissing r now n \<longleftrightarrow> now > Last n + 2 * Interval n"
  using assms by (auto simp: isMissing_def grace_exact durationSub_def)

text \<open>
  C23. The registry reports exactly the silent nodes.  After any history of registrations and
  heartbeats, a node is reported as missing at an instant if and only if it is registered and was last heard of, by
  its registration or its latest heartbeat, more than twice its interval before.  Intervals are below \<open>2 ^ 52\<close>
  nanoseconds (52 days), where the product in floating point is exact and fits.
\<close>

theorem suppression_detected:
  assumes "\<forall>op \<in> set ops. intervalOK op"
  shows "i \<in> set (Missing (foldl applyOp NewNodeRegistry ops) now) \<longleftrightarrow>
           (case dueOf i None ops of None \<Rightarrow> False | Some (d, t) \<Rightarrow> now > t + 2 * d)"
proof -
  define r where "r = foldl applyOp NewNodeRegistry ops"
  have due: "map_option (\<lambda>n. (Interval n, Last n)) (map_of (nodes r) i) = dueOf i None ops"
    unfolding r_def by (rule dueOf_run) (simp add: NewNodeRegistry_def)
  have r: "distinct (map fst (nodes r))" "grace r = 2"
    unfolding r_def using foldl_applyOp(2,3) [of NewNodeRegistry ops] by (simp_all add: NewNodeRegistry_def)
  show ?thesis unfolding r_def [symmetric]
  proof (cases "map_of (nodes r) i")
    case None
    then have "i \<notin> set (Missing r now)" by (auto simp: Missing_def map_of_eq_None_iff image_iff)
    then show "i \<in> set (Missing r now) \<longleftrightarrow>
        (case dueOf i None ops of None \<Rightarrow> False | Some (d, t) \<Rightarrow> now > t + 2 * d)"
      using None due by (auto split: option.split)
  next
    case (Some n)
    then have d: "dueOf i None ops = Some (Interval n, Last n)" using due by simp
    show "i \<in> set (Missing r now) \<longleftrightarrow>
        (case dueOf i None ops of None \<Rightarrow> False | Some (d, t) \<Rightarrow> now > t + 2 * d)"
      using Missing_iff [OF r(1) Some, of now] missing_due [of n r now] dueOf_interval [OF d _ assms] r(2) d by simp
  qed
qed

theorem suppression_detected_witness:
  "''n1'' \<in> set (Missing (foldl applyOp NewNodeRegistry
       [OpExpect ''n1'' 10 ''k'' 100, OpHeartbeat ''n1'' 115, OpExpect ''n2'' 5 ''k'' 118, OpHeartbeat ''n2'' 130]) 136)
   \<and> ''n1'' \<notin> set (Missing (foldl applyOp NewNodeRegistry
       [OpExpect ''n1'' 10 ''k'' 100, OpHeartbeat ''n1'' 115, OpExpect ''n2'' 5 ''k'' 118, OpHeartbeat ''n2'' 130]) 135)"
  using suppression_detected [of "[OpExpect ''n1'' 10 ''k'' 100, OpHeartbeat ''n1'' 115, OpExpect ''n2'' 5 ''k'' 118, OpHeartbeat ''n2'' 130]" "''n1''" 136]
    suppression_detected [of "[OpExpect ''n1'' 10 ''k'' 100, OpHeartbeat ''n1'' 115, OpExpect ''n2'' 5 ''k'' 118, OpHeartbeat ''n2'' 130]" "''n1''" 135]
  by (simp add: intervalOK_def)

section \<open>Retention (retention.go)\<close>

record retention_policy =
  Hot :: int
  Warm :: int
  Cold :: int

definition dayNs :: int where
  "dayNs = 24 * 3600 * 1000000000"

definition DefaultRetention :: retention_policy where
  "DefaultRetention = \<lparr>Hot = 90 * dayNs, Warm = 365 * dayNs, Cold = 7 * 365 * dayNs\<rparr>"

datatype tier = HOT | WARM | COLD | EXPIRED

definition Tier :: "retention_policy \<Rightarrow> int \<Rightarrow> tier" where
  "Tier p age =
     (if age \<le> Hot p then HOT else if age \<le> Warm p then WARM else if age \<le> Cold p then COLD else EXPIRED)"

definition Days :: "retention_policy \<Rightarrow> int \<times> int \<times> int" where
  "Days p = (let d = (\<lambda>t. truncRat (of_int t / of_int dayNs)) in (d (Hot p), d (Warm p), d (Cold p)))"

end
