(* ===== verification/Redis.thy ===== *)
theory Redis
  imports GoLib Complex_Main
begin

text \<open>
  The RESP2 client of \<open>internal/redis/client.go\<close>: the command encoder, the reply parser with its size
  and nesting caps, and the circuit breaker around one guarded connection.

  A connection is the list of bytes that have arrived and have not been read yet (the buffered
  reader's content); a read that would need more bytes fails, which is what an expired read deadline,
  a closed connection and the end of the stream all look like to the parser. The latency average is a
  rational, so the rounding of \<open>float64\<close> is not represented.
\<close>

section \<open>Replies\<close>

datatype reply = Reply (RInt: int) (RStr: string) (RArray: "reply list") (RNil: bool)

abbreviation emptyReply :: reply where
  "emptyReply \<equiv> Reply 0 [] [] False"

datatype redis_error =
  ErrBreakerOpen | ErrDial | ErrIO | ErrNesting | ErrShort | ErrServer string | ErrNumber | ErrBulkLen
  | ErrArrayLen | ErrType char

definition maxBulkLen :: int where "maxBulkLen = 33554432"
definition maxArrayLen :: int where "maxArrayLen = 1048576"
definition maxDepth :: nat where "maxDepth = 8"

section \<open>Go library functions the client uses\<close>

definition isDigit :: "char \<Rightarrow> bool" where
  "isDigit c \<longleftrightarrow> 48 \<le> (of_char c :: nat) \<and> (of_char c :: nat) \<le> 57"

text \<open>
  \<open>strconv.ParseInt(s, 10, 64)\<close> and \<open>strconv.Atoi\<close> (on a 64-bit platform): an optional sign, at least
  one digit, and a value in range.
\<close>

definition parseInt64 :: "string \<Rightarrow> int option" where
  "parseInt64 s =
     (let neg = (s \<noteq> [] \<and> hd s = CHR ''-'');
          ds = (if s \<noteq> [] \<and> hd s \<in> {CHR ''+'', CHR ''-''} then tl s else s);
          v = (if neg then - int (decValue ds) else int (decValue ds))
      in if ds \<noteq> [] \<and> list_all isDigit ds \<and> - (2 ^ 63) \<le> v \<and> v < 2 ^ 63 then Some v else None)"

text \<open>\<open>bufio.Reader.ReadString('\n')\<close>: the bytes up to and including the next newline.\<close>

fun readString :: "bytes \<Rightarrow> (bytes \<times> bytes) option" where
  "readString [] = None"
| "readString (c # cs) =
     (if c = CHR 0x0A then Some ([c], cs)
      else case readString cs of None \<Rightarrow> None | Some (l, rest) \<Rightarrow> Some (c # l, rest))"

definition trimRightCRLF :: "string \<Rightarrow> string" where
  "trimRightCRLF s = rev (dropWhile (\<lambda>c. c = CHR 0x0D \<or> c = CHR 0x0A) (rev s))"

section \<open>The parser\<close>

function (sequential) readReply :: "bytes \<Rightarrow> nat \<Rightarrow> redis_error + reply \<times> bytes"
  and readElems :: "bytes \<Rightarrow> nat \<Rightarrow> nat \<Rightarrow> redis_error + reply list \<times> bytes" where
  "readReply s depth =
     (if depth > maxDepth then Inl ErrNesting
      else case readString s of
        None \<Rightarrow> Inl ErrIO
      | Some (line, rest) \<Rightarrow>
          if length line < 3 then Inl ErrShort
          else let body = trimRightCRLF (tl line); t = hd line
          in if t = CHR ''+'' then Inr (Reply 0 body [] False, rest)
             else if t = CHR ''-'' then Inl (ErrServer body)
             else if t = CHR '':'' then
               (case parseInt64 body of None \<Rightarrow> Inl ErrNumber | Some n \<Rightarrow> Inr (Reply n [] [] False, rest))
             else if t = CHR ''$'' then
               (case parseInt64 body of
                  None \<Rightarrow> Inl ErrNumber
                | Some n \<Rightarrow>
                    if n < 0 then Inr (Reply 0 [] [] True, rest)
                    else if n > maxBulkLen then Inl ErrBulkLen
                    else if length rest < nat n + 2 then Inl ErrIO
                    else Inr (Reply 0 (take (nat n) rest) [] False, drop (nat n + 2) rest))
             else if t = CHR ''*'' then
               (case parseInt64 body of
                  None \<Rightarrow> Inl ErrNumber
                | Some n \<Rightarrow>
                    if n < 0 then Inr (Reply 0 [] [] True, rest)
                    else if n > maxArrayLen then Inl ErrArrayLen
                    else (case readElems rest (depth + 1) (nat n) of
                            Inl e \<Rightarrow> Inl e
                          | Inr (arr, rest') \<Rightarrow> Inr (Reply 0 [] arr False, rest')))
             else Inl (ErrType t))"
| "readElems s depth 0 = Inr ([], s)"
| "readElems s depth (Suc n) =
     (case readReply s depth of
        Inl e \<Rightarrow> Inl e
      | Inr (r, rest) \<Rightarrow>
          (case readElems rest depth n of Inl e \<Rightarrow> Inl e | Inr (rs, rest') \<Rightarrow> Inr (r # rs, rest')))"
  by pat_completeness auto
termination
  by (relation "measures [\<lambda>x. case x of Inl (s, d) \<Rightarrow> 2 * (9 - d) | Inr (s, d, n) \<Rightarrow> 2 * (9 - d) + 1,
                          \<lambda>x. case x of Inl (s, d) \<Rightarrow> 0 | Inr (s, d, n) \<Rightarrow> n]")
    (auto simp: maxDepth_def)

declare readReply.simps [simp del]

section \<open>The encoder\<close>

definition respArg :: "string \<Rightarrow> bytes" where
  "respArg a = ''$'' @ formatInt (int (length a)) @ [CHR 0x0D, CHR 0x0A] @ a @ [CHR 0x0D, CHR 0x0A]"

definition respCommand :: "string list \<Rightarrow> bytes" where
  "respCommand args =
     ''*'' @ formatInt (int (length args)) @ [CHR 0x0D, CHR 0x0A] @ concat (map respArg args)"

section \<open>The client\<close>

record client =
  ctimeout :: int
  cooldown :: int
  cslow :: int
  slowEwma :: int
  cuser :: string
  cpass :: string
  conn :: "bytes option"
  openUntil :: "int option"
  ewmaNs :: rat

text \<open>
  \<open>openUntil\<close> is an optional instant, \<open>None\<close> standing for the zero time that means a closed breaker.
  All instants and durations are integers in nanoseconds.
\<close>

definition New :: client where
  "New = \<lparr>ctimeout = 3000000000, cooldown = 2000000000, cslow = 750000000, slowEwma = 400000000,
          cuser = [], cpass = [], conn = None, openUntil = None, ewmaNs = 0\<rparr>"

definition SetAuth :: "client \<Rightarrow> string \<Rightarrow> string \<Rightarrow> client" where
  "SetAuth c u p = c\<lparr>cuser := u, cpass := p\<rparr>"

definition drop_conn :: "client \<Rightarrow> client" where
  "drop_conn c = c\<lparr>conn := None\<rparr>"

definition Close :: "client \<Rightarrow> client" where
  "Close c = drop_conn c"

text \<open>
  What the network does during one command: whether the dial succeeds, whether the AUTH command is
  written and the bytes that arrive after it, whether the command is written, the bytes that arrive
  after it, and the times the clock shows (at the call, and when the command has ended).
\<close>

record netenv =
  dialOK :: bool
  authWritten :: bool
  authBytes :: bytes
  written :: bool
  inbound :: bytes
  tStart :: int
  tEnd :: int

definition trip :: "client \<Rightarrow> int \<Rightarrow> client" where
  "trip c t = c\<lparr>openUntil := Some (t + cooldown c)\<rparr>"

definition authCommand :: "client \<Rightarrow> string list" where
  "authCommand c = (if cuser c \<noteq> [] then [''AUTH'', cuser c, cpass c] else [''AUTH'', cpass c])"

text \<open>
  \<open>ensure\<close> and \<open>Do\<close> also return the list of commands written to the connection, in order.
\<close>

definition ensure :: "client \<Rightarrow> netenv \<Rightarrow> client \<times> bytes list \<times> redis_error option" where
  "ensure c e =
     (if conn c \<noteq> None then (c, [], None)
      else if \<not> dialOK e then (c, [], Some ErrDial)
      else if cpass c \<noteq> [] then
        (if \<not> authWritten e then (drop_conn (c\<lparr>conn := Some []\<rparr>), [], Some ErrIO)
         else case readReply (authBytes e) 0 of
                Inl err \<Rightarrow> (drop_conn (c\<lparr>conn := Some []\<rparr>), [respCommand (authCommand c)], Some err)
              | Inr (_, rest) \<Rightarrow> (c\<lparr>conn := Some rest\<rparr>, [respCommand (authCommand c)], None))
      else (c\<lparr>conn := Some []\<rparr>, [], None))"

definition breakerOpen :: "client \<Rightarrow> int \<Rightarrow> bool" where
  "breakerOpen c now = (case openUntil c of None \<Rightarrow> False | Some t \<Rightarrow> now < t)"

definition Do :: "client \<Rightarrow> netenv \<Rightarrow> string list \<Rightarrow> client \<times> bytes list \<times> (redis_error + reply)" where
  "Do c e args =
     (if breakerOpen c (tStart e) then (c, [], Inl ErrBreakerOpen)
      else case ensure c e of
        (c1, sent, Some err) \<Rightarrow> (trip c1 (tEnd e), sent, Inl err)
      | (c1, sent, None) \<Rightarrow>
          if \<not> written e then (trip (drop_conn c1) (tEnd e), sent, Inl ErrIO)
          else case readReply (the (conn c1) @ inbound e) 0 of
            Inl err \<Rightarrow> (trip (drop_conn c1) (tEnd e), sent @ [respCommand args], Inl err)
          | Inr (rep, rest) \<Rightarrow>
              let elapsed = tEnd e - tStart e;
                  ew = (2 / 5) * of_int elapsed + (3 / 5) * ewmaNs c1;
                  c2 = c1\<lparr>conn := Some rest, ewmaNs := ew\<rparr>
              in if (0 < cslow c2 \<and> cslow c2 < elapsed) \<or> (0 < slowEwma c2 \<and> of_int (slowEwma c2) < ew)
                 then (c2\<lparr>openUntil := Some (tEnd e + cooldown c2)\<rparr>, sent @ [respCommand args], Inr rep)
                 else (c2\<lparr>openUntil := None\<rparr>, sent @ [respCommand args], Inr rep))"

section \<open>Numbers and lines\<close>

lemma list_all_isDigit_decNat: "list_all isDigit (decNat n)"
proof (unfold list_all_iff, intro ballI)
  fix c assume "c \<in> set (decNat n)"
  then obtain d where "d < 10" "c = digitChar d" using decNat_digits by blast
  then show "isDigit c" by (simp add: isDigit_def of_char_digitChar)
qed

lemma isDigit_hd_decNat: "isDigit (hd (decNat n))"
  using list_all_isDigit_decNat [of n] by (cases "decNat n") auto

lemma parseInt64_formatInt: "n < 2 ^ 63 \<Longrightarrow> parseInt64 (formatInt (int n)) = Some (int n)"
proof -
  assume "n < 2 ^ 63"
  then have "int n < 2 ^ 63" by (metis of_nat_less_iff of_nat_numeral of_nat_power)
  moreover have "hd (decNat n) \<notin> {CHR ''+'', CHR ''-''}"
    using isDigit_hd_decNat [of n] by (auto simp: isDigit_def)
  ultimately show ?thesis
    by (simp add: parseInt64_def formatInt_def Let_def list_all_isDigit_decNat)
qed

lemma readString_line: "CHR 0x0A \<notin> set l \<Longrightarrow> readString (l @ CHR 0x0A # rest) = Some (l @ [CHR 0x0A], rest)"
  by (induction l) auto

lemma readString_split: "readString s = Some (l, rest) \<Longrightarrow> s = l @ rest \<and> (\<exists>m. l = m @ [CHR 0x0A])"
proof (induction s arbitrary: l)
  case (Cons c cs)
  show ?case
  proof (cases "c = CHR 0x0A")
    case False
    then obtain l' where l': "readString cs = Some (l', rest)" "l = c # l'"
      using Cons.prems by (auto split: option.splits)
    then obtain m where "cs = l' @ rest" "l' = m @ [CHR 0x0A]" using Cons.IH by blast
    then show ?thesis using l' by (intro conjI exI [of _ "c # m"]) auto
  qed (use Cons.prems in auto)
qed simp

lemma trimRightCRLF_line:
  assumes "x = [] \<or> isDigit (last x)"
  shows "trimRightCRLF (x @ [CHR 0x0D, CHR 0x0A]) = x"
  using assms by (cases x rule: rev_cases) (auto simp: trimRightCRLF_def isDigit_def)

lemma isDigit_last_formatInt: "isDigit (last (formatInt (int n)))"
  using list_all_isDigit_decNat [of n] by (simp add: formatInt_def list_all_iff)

lemma newline_formatInt: "CHR 0x0A \<notin> set (formatInt (int n))"
  using list_all_isDigit_decNat [of n] by (auto simp: formatInt_def list_all_iff isDigit_def)

lemma readString_header:
  "readString (formatInt (int n) @ CHR 0x0D # CHR 0x0A # rest) =
     Some (formatInt (int n) @ [CHR 0x0D, CHR 0x0A], rest)"
  using readString_line [of "formatInt (int n) @ [CHR 0x0D]" rest] newline_formatInt [of n] by simp

lemmas header_simps =
  readString_header trimRightCRLF_line isDigit_last_formatInt parseInt64_formatInt

section \<open>Parsing what the encoder writes\<close>

lemma readReply_respArg:
  assumes "int (length a) \<le> maxBulkLen" and "d \<le> maxDepth"
  shows "readReply (respArg a @ rest) d = Inr (Reply 0 a [] False, rest)"
  using assms
  by (subst readReply.simps) (simp add: respArg_def header_simps Let_def maxBulkLen_def)

lemma readElems_respArgs:
  assumes "\<forall>a \<in> set args. int (length a) \<le> maxBulkLen" and "d \<le> maxDepth"
  shows "readElems (concat (map respArg args) @ rest) d (length args) =
           Inr (map (\<lambda>a. Reply 0 a [] False) args, rest)"
  using assms(1) by (induction args) (simp_all add: readReply_respArg assms(2))

text \<open>
  Reading the bytes that encode a command gives back exactly its arguments, as
  an array of bulk strings, and leaves what follows unread, whatever bytes the arguments contain: an
  argument with line ends or protocol characters in it cannot start a second command.
\<close>

theorem resp_roundtrip:
  assumes "int (length args) \<le> maxArrayLen" and "\<forall>a \<in> set args. int (length a) \<le> maxBulkLen"
  shows "readReply (respCommand args @ rest) 0 =
           Inr (Reply 0 [] (map (\<lambda>a. Reply 0 a [] False) args) False, rest)"
  using assms
  by (subst readReply.simps)
    (simp add: respCommand_def header_simps Let_def maxArrayLen_def maxDepth_def readElems_respArgs)

theorem resp_roundtrip_witness:
  "readReply (respCommand [''GET'', [CHR 0x0D, CHR 0x0A, CHR ''*'']] @ ''x'') 0 =
     Inr (Reply 0 [] [Reply 0 ''GET'' [] False, Reply 0 [CHR 0x0D, CHR 0x0A, CHR ''*''] [] False] False, ''x'')"
  using resp_roundtrip [of "[''GET'', [CHR 0x0D, CHR 0x0A, CHR ''*'']]" "''x''"]
  by (simp add: maxArrayLen_def maxBulkLen_def)

section \<open>Bounds on what the parser accepts\<close>

fun replyOK :: "nat \<Rightarrow> reply \<Rightarrow> bool" where
  "replyOK k (Reply i s as n) \<longleftrightarrow>
     int (length as) \<le> maxArrayLen \<and> (as = [] \<or> 0 < k) \<and> - (2 ^ 63) \<le> i \<and> i < 2 ^ 63
     \<and> (\<forall>a \<in> set as. replyOK (k - 1) a)"

fun weight :: "reply \<Rightarrow> nat" where
  "weight (Reply i s as n) = 2 + length s + sum_list (map weight as)"

lemma length_trimRightCRLF:
  assumes "c = CHR 0x0A"
  shows "length (trimRightCRLF (m @ [c])) \<le> length m"
  using assms length_dropWhile_le [of _ "rev m"] by (simp add: trimRightCRLF_def)

lemma parseInt64_range: "parseInt64 s = Some n \<Longrightarrow> - (2 ^ 63) \<le> n \<and> n < 2 ^ 63"
  by (auto simp: parseInt64_def Let_def split: if_splits)

lemma readString_parts:
  assumes "readString s = Some (line, rest)"
  shows "length s = length line + length rest" and "length (trimRightCRLF (tl line)) + 2 \<le> length line \<or> length line < 2"
proof -
  obtain m where "s = line @ rest" "line = m @ [CHR 0x0A]" using readString_split [OF assms] by blast
  then show "length s = length line + length rest"
    and "length (trimRightCRLF (tl line)) + 2 \<le> length line \<or> length line < 2"
    using length_trimRightCRLF [of _ "tl m"] by (auto, cases m, auto)
qed

lemma readReply_bounds:
  "readReply s d = Inr (r, rest) \<Longrightarrow> d \<le> maxDepth \<and> replyOK (maxDepth - d) r \<and> weight r + length rest \<le> length s"
  "readElems s d n = Inr (rs, rest) \<Longrightarrow>
     length rs = n \<and> (\<forall>r \<in> set rs. d \<le> maxDepth \<and> replyOK (maxDepth - d) r)
     \<and> sum_list (map weight rs) + length rest \<le> length s"
proof (induction s d and s d n arbitrary: r rest and rs rest rule: readReply_readElems.induct)
  case (1 s d)
  have d: "d \<le> maxDepth" using "1.prems" by (subst (asm) readReply.simps) (auto split: if_splits)
  obtain line rest1 where l: "readString s = Some (line, rest1)"
    using "1.prems" d by (subst (asm) readReply.simps) (auto split: option.splits)
  have l3: "\<not> length line < 3"
    using "1.prems" d l by (subst (asm) readReply.simps) (auto split: if_splits)
  note IH = "1.IH" [OF _ l refl l3 refl refl]
  note parts = readString_parts [OF l]
  let ?body = "trimRightCRLF (tl line)"
  show ?case
  proof (cases "hd line = CHR ''*''")
    case True
    then obtain n where n: "parseInt64 ?body = Some n"
      using "1.prems" d l l3 by (subst (asm) readReply.simps) (auto simp: Let_def split: option.splits)
    show ?thesis
    proof (cases "n < 0")
      case True
      then show ?thesis using "1.prems" d l l3 n \<open>hd line = _\<close> parts
        by (subst (asm) readReply.simps) (auto simp: Let_def maxArrayLen_def)
    next
      case False
      then have cap: "n \<le> maxArrayLen"
        using "1.prems" d l l3 n \<open>hd line = _\<close>
        by (subst (asm) readReply.simps) (auto simp: Let_def split: if_splits)
      obtain arr where arr: "readElems rest1 (d + 1) (nat n) = Inr (arr, rest)" "r = Reply 0 [] arr False"
        using "1.prems" d l l3 n \<open>hd line = _\<close> False cap
        by (subst (asm) readReply.simps) (auto simp: Let_def split: sum.splits)
      have ih: "length arr = nat n" "\<forall>a \<in> set arr. d + 1 \<le> maxDepth \<and> replyOK (maxDepth - (d + 1)) a"
        "sum_list (map weight arr) + length rest \<le> length rest1"
        using IH [OF _ _ _ _ _ True n, of arr rest] arr(1) d False cap True by auto
      then have "arr = [] \<or> 0 < maxDepth - d" by (cases arr) auto
      moreover have "\<forall>a \<in> set arr. replyOK (maxDepth - d - 1) a" using ih(2) by auto
      ultimately show ?thesis
        using ih cap False parts l3 d arr(2) by auto
    qed
  next
    case False
    then show ?thesis
      using "1.prems" d l l3 parts
      by (subst (asm) readReply.simps)
        (auto simp: Let_def maxArrayLen_def dest: parseInt64_range split: if_splits option.splits)
  qed
next
  case (3 s d n)
  obtain r rest1 where r: "readReply s d = Inr (r, rest1)"
    using "3.prems" by (auto split: sum.splits)
  obtain rs' where rs': "readElems rest1 d n = Inr (rs', rest)" "rs = r # rs'"
    using "3.prems" r by (auto split: sum.splits)
  show ?case using "3.IH"(1) [OF r] "3.IH"(2) [OF r refl, OF rs'(1)] rs'(2) by auto
qed simp

text \<open>
  Whatever bytes a coordinator sends, an accepted reply nests at most \<open>maxDepth\<close>
  arrays, has at most \<open>maxArrayLen\<close> elements in each, and its total size is at most the number of bytes
  consumed; its integers fit 64 bits.
\<close>

theorem reply_bounded:
  assumes "readReply s 0 = Inr (r, rest)"
  shows "replyOK maxDepth r \<and> weight r + length rest \<le> length s"
  using readReply_bounds(1) [OF assms] by simp

theorem reply_bounded_witness:
  "replyOK maxDepth (Reply 0 [] [Reply 7 [] [] False] False)
   \<and> weight (Reply 0 [] [Reply 7 [] [] False] False) + length ''z''
     \<le> length (''*1'' @ [CHR 0x0D, CHR 0x0A] @ '':7'' @ [CHR 0x0D, CHR 0x0A] @ ''z'')"
proof (rule reply_bounded)
  show "readReply (''*1'' @ [CHR 0x0D, CHR 0x0A] @ '':7'' @ [CHR 0x0D, CHR 0x0A] @ ''z'') 0 =
          Inr (Reply 0 [] [Reply 7 [] [] False] False, ''z'')"
    by (simp add: readReply.simps parseInt64_def trimRightCRLF_def Let_def isDigit_def decValue_def
        undigit_def maxDepth_def maxArrayLen_def numeral_eq_Suc)
qed

section \<open>The circuit breaker\<close>

lemma trip_openUntil [simp]: "openUntil (trip c t) = Some (t + cooldown c)"
  by (simp add: trip_def)

lemma ensure_cooldown: "ensure c e = (c', sent, r) \<Longrightarrow> cooldown c' = cooldown c"
  by (auto simp: ensure_def drop_conn_def split: if_splits sum.splits)

lemma Do_failed:
  assumes "Do c e args = (c', sent, Inl err)" and "err \<noteq> ErrBreakerOpen"
  shows "openUntil c' = Some (tEnd e + cooldown c)"
proof -
  obtain c1 sent1 r where "ensure c e = (c1, sent1, r)" by (cases "ensure c e")
  then show ?thesis using assms ensure_cooldown [of c e c1 sent1 r]
    by (auto simp: Do_def drop_conn_def Let_def split: if_splits option.splits sum.splits)
qed

lemma breaker_fails_fast:
  assumes "Do c e args = (c', sent, Inl err)" and "err \<noteq> ErrBreakerOpen"
  shows "tStart e' < tEnd e + cooldown c \<Longrightarrow> Do c' e' args' = (c', [], Inl ErrBreakerOpen)"
    and "tEnd e + cooldown c \<le> t \<Longrightarrow> \<not> breakerOpen c' t"
  using Do_failed [OF assms] by (simp_all add: Do_def breakerOpen_def)

end
