(* ===== verification/RateLimit.thy ===== *)
theory RateLimit
  imports Redis
begin

text \<open>
  The fingerprint-keyed sliding-window counter of \<open>internal/abuse/ratelimit.go\<close>, the \<open>RateLimiter\<close>
  seam of \<open>internal/gate/seams.go\<close> as a locale, and the fleet-wide counter of
  \<open>internal/gate/redisratelimit.go\<close>, whose Lua script runs in Redis.

  Instants are integers (nanoseconds since the epoch, as \<open>UnixNano\<close> gives them) and so are durations;
  \<open>window * 6\<close> is not wrapped, which is what the code computes for windows below 48 years. Every method
  holds its mutex throughout, so an execution is a sequence of calls.
\<close>

section \<open>The in-memory limiter\<close>

record limiter =
  lwindow :: int
  lsoft :: int
  lhard :: int
  lhits :: "string \<rightharpoonup> int list"
  lttl :: int

definition NewLimiter :: "int \<Rightarrow> int \<Rightarrow> int \<Rightarrow> limiter" where
  "NewLimiter w s h = \<lparr>lwindow = w, lsoft = s, lhard = h, lhits = Map.empty, lttl = w * 6\<rparr>"

text \<open>A missing key reads as the nil slice.\<close>

definition hitsOf :: "limiter \<Rightarrow> string \<Rightarrow> int list" where
  "hitsOf l k = (case lhits l k of None \<Rightarrow> [] | Some h \<Rightarrow> h)"

definition Observe :: "limiter \<Rightarrow> string \<Rightarrow> int \<Rightarrow> limiter \<times> int" where
  "Observe l key now =
     (if key = [] then (l, 0)
      else let cut = now - lwindow l;
               kept = filter (\<lambda>t. cut < t) (hitsOf l key) @ [now]
           in (l\<lparr>lhits := (lhits l)(key \<mapsto> kept)\<rparr>, int (length kept)))"

definition Level :: "limiter \<Rightarrow> int \<Rightarrow> int" where
  "Level l count = (if lhard l \<le> count then 2 else if lsoft l \<le> count then 1 else 0)"

definition Configure :: "limiter \<Rightarrow> int \<Rightarrow> int \<Rightarrow> int \<Rightarrow> limiter" where
  "Configure l w s h = l\<lparr>lwindow := w, lsoft := s, lhard := h, lttl := w * 6\<rparr>"

definition gcScanBudget :: nat where
  "gcScanBudget = 4096"

text \<open>
  Go visits the keys of a map in an unspecified order: the order is an argument, and the loop stops
  after \<open>gcScanBudget\<close> of them.
\<close>

fun gcLoop :: "int \<Rightarrow> nat \<Rightarrow> string list \<Rightarrow> (string \<rightharpoonup> int list) \<Rightarrow> (string \<rightharpoonup> int list)" where
  "gcLoop cutoff scanned [] m = m"
| "gcLoop cutoff scanned (k # ks) m =
     (let m' = (case m k of
                  None \<Rightarrow> m
                | Some h \<Rightarrow> if h = [] \<or> last h < cutoff then m(k := None) else m)
      in if gcScanBudget \<le> scanned + 1 then m' else gcLoop cutoff (scanned + 1) ks m')"

definition GC :: "limiter \<Rightarrow> int \<Rightarrow> string list \<Rightarrow> limiter" where
  "GC l now order = l\<lparr>lhits := gcLoop (now - lttl l) 0 order (lhits l)\<rparr>"

definition Reset :: "limiter \<Rightarrow> limiter" where
  "Reset l = l\<lparr>lhits := Map.empty\<rparr>"

section \<open>The interface\<close>

text \<open>
  What the ban store relies on: the count \<open>observe\<close> returns is one more than the number of hits of the
  key inside the window, hits of a key add up as long as they stay inside the window, and the level
  compares a count with the two thresholds. \<open>recent s k c\<close> is the number of recorded hits of \<open>k\<close>
  after the instant \<open>c\<close>.
\<close>

locale rate_limiter =
  fixes observe :: "'s \<Rightarrow> string \<Rightarrow> int \<Rightarrow> 's \<times> int"
    and level :: "'s \<Rightarrow> int \<Rightarrow> int"
    and configure :: "'s \<Rightarrow> int \<Rightarrow> int \<Rightarrow> int \<Rightarrow> 's"
    and window :: "'s \<Rightarrow> int" and soft :: "'s \<Rightarrow> int" and hard :: "'s \<Rightarrow> int"
    and recent :: "'s \<Rightarrow> string \<Rightarrow> int \<Rightarrow> nat"
  assumes observe_count: "key \<noteq> [] \<Longrightarrow> snd (observe s key now) = int (recent s key (now - window s)) + 1"
    and observe_recent: "key \<noteq> [] \<Longrightarrow> now - window s \<le> c \<Longrightarrow>
      recent (fst (observe s key now)) k c = recent s k c + (if k = key \<and> c < now then 1 else 0)"
    and observe_window [simp]: "window (fst (observe s key now)) = window s"
    and observe_soft [simp]: "soft (fst (observe s key now)) = soft s"
    and observe_hard [simp]: "hard (fst (observe s key now)) = hard s"
    and level_spec: "level s n = (if hard s \<le> n then 2 else if soft s \<le> n then 1 else 0)"
    and configure_window [simp]: "window (configure s w a b) = w"
    and configure_soft [simp]: "soft (configure s w a b) = a"
    and configure_hard [simp]: "hard (configure s w a b) = b"
    and configure_recent [simp]: "recent (configure s w a b) k c = recent s k c"
begin

definition burst :: "'s \<Rightarrow> string \<Rightarrow> int list \<Rightarrow> 's" where
  "burst s key ts = fold (\<lambda>t s. fst (observe s key t)) ts s"

lemma burst_window [simp]: "window (burst s key ts) = window s"
  by (induction ts arbitrary: s) (simp_all add: burst_def)

lemma burst_hard [simp]: "hard (burst s key ts) = hard s"
  by (induction ts arbitrary: s) (simp_all add: burst_def)

lemma burst_recent:
  assumes "key \<noteq> []" and "\<forall>t \<in> set ts. c < t \<and> t - window s \<le> c"
  shows "recent (burst s key ts) key c = recent s key c + length ts"
  using assms(2)
proof (induction ts arbitrary: s)
  case (Cons t ts)
  then show ?case
    using Cons.IH [of "fst (observe s key t)"] observe_recent [OF assms(1), of t s c key]
    by (simp add: burst_def)
qed (simp add: burst_def)

text \<open>A flood is noticed: with enough hits inside the window the next one is classified as hard.\<close>

lemma flood_is_hard:
  assumes "key \<noteq> []" and "\<forall>t \<in> set ts. now - window s < t \<and> t \<le> now"
    and "hard s \<le> int (length ts) + 1"
  shows "level (fst (observe (burst s key ts) key now)) (snd (observe (burst s key ts) key now)) = 2"
proof -
  have "recent (burst s key ts) key (now - window s) = recent s key (now - window s) + length ts"
    using assms(1,2) by (intro burst_recent) auto
  then have "hard s \<le> snd (observe (burst s key ts) key now)"
    using assms(1,3) by (simp add: observe_count)
  then show ?thesis by (simp add: level_spec)
qed

text \<open>Only a flood is: below the threshold no observation is classified as hard.\<close>

lemma hard_is_flood:
  assumes "key \<noteq> []" and "level (fst (observe s key now)) (snd (observe s key now)) = 2"
  shows "hard s \<le> int (recent s key (now - window s)) + 1"
  using assms by (simp add: level_spec observe_count split: if_splits)

text \<open>Hot-applying other parameters keeps the hits recorded so far.\<close>

lemma configure_keeps_count:
  assumes "key \<noteq> []"
  shows "snd (observe (configure s w a b) key now) = int (recent s key (now - w)) + 1"
  using assms by (simp add: observe_count)

end

definition recentHits :: "limiter \<Rightarrow> string \<Rightarrow> int \<Rightarrow> nat" where
  "recentHits l k c = length (filter (\<lambda>t. c < t) (hitsOf l k))"

lemma hitsOf_Observe:
  "key \<noteq> [] \<Longrightarrow> hitsOf (fst (Observe l key now)) k =
     (if k = key then filter (\<lambda>t. now - lwindow l < t) (hitsOf l key) @ [now] else hitsOf l k)"
  by (simp add: Observe_def hitsOf_def Let_def)

lemma Observe_params [simp]:
  "lwindow (fst (Observe l key now)) = lwindow l" "lsoft (fst (Observe l key now)) = lsoft l"
  "lhard (fst (Observe l key now)) = lhard l" "lttl (fst (Observe l key now)) = lttl l"
  by (simp_all add: Observe_def Let_def)

lemma Configure_params [simp]:
  "lwindow (Configure l w a b) = w" "lsoft (Configure l w a b) = a" "lhard (Configure l w a b) = b"
  "lhits (Configure l w a b) = lhits l"
  by (simp_all add: Configure_def)

interpretation mem: rate_limiter Observe Level Configure lwindow lsoft lhard recentHits
proof
  fix l :: limiter and key k :: string and now c :: int
  assume "key \<noteq> []"
  then show "snd (Observe l key now) = int (recentHits l key (now - lwindow l)) + 1"
    by (simp add: Observe_def recentHits_def Let_def)
  assume "now - lwindow l \<le> c"
  then have "filter (\<lambda>t. now - lwindow l < t \<and> c < t) (hitsOf l key) = filter (\<lambda>t. c < t) (hitsOf l key)"
    by (intro filter_cong) auto
  then show "recentHits (fst (Observe l key now)) k c =
      recentHits l k c + (if k = key \<and> c < now then 1 else 0)"
    using \<open>key \<noteq> []\<close> by (simp add: recentHits_def hitsOf_Observe conj_commute)
next
  fix l :: limiter and w a b c :: int and k :: string
  show "recentHits (Configure l w a b) k c = recentHits l k c"
    by (simp add: recentHits_def hitsOf_def)
qed (simp_all add: Level_def)

section \<open>Exactness over a whole history\<close>

text \<open>
  The specification of the counter is the list of all observations. \<open>limRun obs t l\<close> says that the
  limiter state \<open>l\<close> is reached, with the clock at \<open>t\<close>, by observations \<open>obs\<close> interleaved with garbage
  collections (in any order of visiting the keys) and with reconfigurations that do not enlarge the
  window.
\<close>

inductive limRun :: "(string \<times> int) list \<Rightarrow> int \<Rightarrow> limiter \<Rightarrow> bool" where
  limInit: "0 \<le> w \<Longrightarrow> limRun [] t (NewLimiter w s h)"
| limObserve: "limRun obs t l \<Longrightarrow> t \<le> now \<Longrightarrow> key \<noteq> [] \<Longrightarrow>
    limRun (obs @ [(key, now)]) now (fst (Observe l key now))"
| limGC: "limRun obs t l \<Longrightarrow> t \<le> now \<Longrightarrow> limRun obs now (GC l now order)"
| limConfigure: "limRun obs t l \<Longrightarrow> 0 \<le> w \<Longrightarrow> w \<le> lwindow l \<Longrightarrow> limRun obs t (Configure l w s h)"

definition timesOf :: "(string \<times> int) list \<Rightarrow> string \<Rightarrow> int list" where
  "timesOf obs k = map snd (filter (\<lambda>ob. fst ob = k) obs)"

definition inWindow :: "(string \<times> int) list \<Rightarrow> string \<Rightarrow> int \<Rightarrow> nat" where
  "inWindow obs k c = length (filter (\<lambda>t. c < t) (timesOf obs k))"

lemma timesOf_snoc: "timesOf (obs @ [(k', t)]) k = (if k' = k then timesOf obs k @ [t] else timesOf obs k)"
  by (simp add: timesOf_def)

definition limInv :: "(string \<times> int) list \<Rightarrow> int \<Rightarrow> limiter \<Rightarrow> bool" where
  "limInv obs t l \<longleftrightarrow> 0 \<le> lwindow l \<and> lttl l = lwindow l * 6
     \<and> (\<forall>k. sorted (hitsOf l k) \<and> (\<forall>x \<in> set (hitsOf l k). x \<le> t)
          \<and> filter (\<lambda>x. t - lwindow l < x) (hitsOf l k) = filter (\<lambda>x. t - lwindow l < x) (timesOf obs k))"

lemma filter_later:
  assumes "filter (\<lambda>x. c < x) xs = filter (\<lambda>x. c < x) ys" and "c \<le> (c' :: int)"
  shows "filter (\<lambda>x. c' < x) xs = filter (\<lambda>x. c' < x) ys"
proof -
  have f: "filter (\<lambda>x. c' < x) zs = filter (\<lambda>x. c' < x) (filter (\<lambda>x. c < x) zs)" for zs
    using assms(2) by (auto intro: filter_cong)
  show ?thesis using f [of xs] f [of ys] assms(1) by simp
qed

lemma limInv_later: "limInv obs t l \<Longrightarrow> t \<le> now \<Longrightarrow> limInv obs now l"
  by (auto simp: limInv_def intro: filter_later [where c = "t - lwindow l"] dest: order_trans)

lemma limInv_Observe:
  assumes "limInv obs now l" and "key \<noteq> []"
  shows "limInv (obs @ [(key, now)]) now (fst (Observe l key now))"
proof -
  let ?h = "filter (\<lambda>x. now - lwindow l < x) (hitsOf l key)"
  have "sorted (hitsOf l key)" and "\<forall>x \<in> set (hitsOf l key). x \<le> now"
    using assms(1) unfolding limInv_def by blast+
  then have "sorted ?h" and "\<forall>x \<in> set ?h. x \<le> now"
    by (simp_all add: sorted_wrt_filter)
  then have "sorted (?h @ [now])" and "\<forall>x \<in> set (?h @ [now]). x \<le> now" by (auto simp: sorted_append)
  moreover have "filter (\<lambda>x. now - lwindow l < x) (?h @ [now])
       = filter (\<lambda>x. now - lwindow l < x) (timesOf obs key @ [now])"
    using assms(1) by (simp add: limInv_def)
  moreover have "hitsOf (fst (Observe l key now)) k = (if k = key then ?h @ [now] else hitsOf l k)"
    and "timesOf (obs @ [(key, now)]) k = (if k = key then timesOf obs key @ [now] else timesOf obs k)" for k
    using assms(2) by (auto simp: hitsOf_Observe timesOf_snoc)
  ultimately show ?thesis using assms(1) unfolding limInv_def by simp
qed

lemma limInv_Configure:
  assumes "limInv obs t l" and "0 \<le> w" and "w \<le> lwindow l"
  shows "limInv obs t (Configure l w s h)"
  using assms by (auto simp: limInv_def hitsOf_def Configure_def intro: filter_later [where c = "t - lwindow l"])

lemma gcLoop_cases: "gcLoop c n ks m k = m k \<or> (gcLoop c n ks m k = None \<and> (\<exists>h. m k = Some h \<and> (h = [] \<or> last h < c)))"
proof (induction c n ks m rule: gcLoop.induct)
  case (2 c n k' ks m)
  then show ?case by (auto simp: Let_def split: option.splits if_splits)
qed simp

lemma sorted_le_last: "sorted xs \<Longrightarrow> x \<in> set xs \<Longrightarrow> x \<le> last xs"
  by (cases xs rule: rev_cases) (auto simp: sorted_append)

lemma limInv_GC:
  assumes "limInv obs now l"
  shows "limInv obs now (GC l now order)"
proof -
  have kept: "hitsOf (GC l now order) k = hitsOf l k \<or>
      hitsOf (GC l now order) k = [] \<and> filter (\<lambda>x. now - lwindow l < x) (hitsOf l k) = []" for k
  proof -
    have "filter (\<lambda>x. now - lwindow l < x) h = []" if "lhits l k = Some h" "h = [] \<or> last h < now - lttl l" for h
    proof -
      have "x \<le> now - lwindow l" if "x \<in> set h" for x
        using sorted_le_last [of h x] that \<open>lhits l k = Some h\<close> \<open>h = [] \<or> _\<close> assms
        by (fastforce simp: limInv_def hitsOf_def dest: spec [of _ k])
      then show ?thesis by (auto simp: filter_empty_conv not_less)
    qed
    then show ?thesis
      using gcLoop_cases [of "now - lttl l" 0 order "lhits l" k] by (auto simp: GC_def hitsOf_def)
  qed
  have "sorted (hitsOf (GC l now order) k) \<and> (\<forall>x \<in> set (hitsOf (GC l now order) k). x \<le> now)
     \<and> filter (\<lambda>x. now - lwindow l < x) (hitsOf (GC l now order) k)
       = filter (\<lambda>x. now - lwindow l < x) (timesOf obs k)" for k
    using kept [of k] assms by (auto simp: limInv_def)
  then show ?thesis using assms by (simp add: limInv_def GC_def)
qed

lemma limRun_inv: "limRun obs t l \<Longrightarrow> limInv obs t l"
proof (induction rule: limRun.induct)
  case limInit
  then show ?case by (simp add: limInv_def NewLimiter_def hitsOf_def timesOf_def)
qed (auto intro: limInv_Observe limInv_GC limInv_Configure dest: limInv_later)

lemma Observe_exact:
  assumes "limInv obs now l" and "key \<noteq> []"
  shows "snd (Observe l key now) = int (inWindow obs key (now - lwindow l)) + 1"
  using assms by (simp add: mem.observe_count recentHits_def inWindow_def limInv_def)

text \<open>
  C25. The counter refines its specification: in every reachable state an
  observation returns exactly the number of observations of that key so far in the window that
  ends now, plus itself. Eviction of idle keys, trimming and tighter windows never lose a hit that counts.
\<close>

theorem limiter_exact:
  assumes "limRun obs t l" and "t \<le> now" and "key \<noteq> []"
  shows "snd (Observe l key now) = int (inWindow obs key (now - lwindow l)) + 1"
  using limRun_inv [OF assms(1)] limInv_later assms(2,3) Observe_exact by blast

theorem limiter_exact_witness:
  "limRun [(''k'', 1), (''k'', 4)] 4 (fst (Observe (fst (Observe (NewLimiter 5 2 3) ''k'' 1)) ''k'' 4))
   \<and> snd (Observe (fst (Observe (fst (Observe (NewLimiter 5 2 3) ''k'' 1)) ''k'' 4)) ''k'' 8) = 2"
proof -
  let ?l = "fst (Observe (fst (Observe (NewLimiter 5 2 3) ''k'' 1)) ''k'' 4)"
  have "limRun ([] @ [(''k'', 1)] @ [(''k'', 4)]) 4 ?l"
    using limObserve [OF limObserve [OF limInit [of 5 0 2 3], of 1 "''k''"], of 4 "''k''"] by simp
  then have run: "limRun [(''k'', 1), (''k'', 4)] 4 ?l" by simp
  moreover have "inWindow [(''k'', 1), (''k'', 4)] ''k'' 3 = 1"
    by (simp add: inWindow_def timesOf_def)
  moreover have "lwindow ?l = 5" by (simp add: NewLimiter_def)
  ultimately show ?thesis using limiter_exact [OF run, of 8 "''k''"] by simp
qed

section \<open>The fleet-wide limiter\<close>

text \<open>
  \<open>redisratelimit.go\<close> keeps the hits of a key in a Redis sorted set and changes it with one atomic Lua
  script. Redis itself is the argument \<open>rdo\<close>: from a server state and the arguments of a command to the
  next server state and the outcome \<open>Client.Do\<close> reports.
\<close>

definition slidingWindowLua :: string where
  "slidingWindowLua =
     ''local now=tonumber(ARGV[1])'' @ [CHR 0x0A] @
     ''local win=tonumber(ARGV[2])'' @ [CHR 0x0A] @
     ''redis.call('' @ [CHR 0x27] @ ''ZREMRANGEBYSCORE'' @ [CHR 0x27] @ '', KEYS[1], 0, now-win)'' @ [CHR 0x0A] @
     ''redis.call('' @ [CHR 0x27] @ ''ZADD'' @ [CHR 0x27] @ '', KEYS[1], now, ARGV[4])'' @ [CHR 0x0A] @
     ''redis.call('' @ [CHR 0x27] @ ''PEXPIRE'' @ [CHR 0x27] @ '', KEYS[1], tonumber(ARGV[3]))'' @ [CHR 0x0A] @
     ''return redis.call('' @ [CHR 0x27] @ ''ZCARD'' @ [CHR 0x27] @ '', KEYS[1])''"

type_synonym 'r redis = "'r \<Rightarrow> string list \<Rightarrow> 'r \<times> (redis_error + reply)"

record redis_limiter =
  rlocal :: limiter
  rwindow :: int
  rseq :: "64 word"

definition NewRedisRateLimiter :: "int \<Rightarrow> int \<Rightarrow> int \<Rightarrow> redis_limiter" where
  "NewRedisRateLimiter w s h = \<lparr>rlocal = NewLimiter w s h, rwindow = w, rseq = 0\<rparr>"

definition clampInt32 :: "int \<Rightarrow> int" where
  "clampInt32 n = (if n < 0 then 0 else if 2147483647 < n then 2147483647 else n)"

text \<open>The member of the sorted set for a hit: the time and the per-process sequence number.\<close>

definition hitMember :: "int \<Rightarrow> 64 word \<Rightarrow> string" where
  "hitMember now q = formatInt now @ ''-'' @ formatInt (int (unat q))"

definition evalArgs :: "int \<Rightarrow> string \<Rightarrow> int \<Rightarrow> string \<Rightarrow> string list" where
  "evalArgs w key now member =
     [''EVAL'', slidingWindowLua, ''1'', ''hmn:rl:'' @ key, formatInt now, formatInt w,
      formatInt (w * 6 div 1000000), member]"

definition RedisObserve :: "'r redis \<Rightarrow> redis_limiter \<times> 'r \<Rightarrow> string \<Rightarrow> int \<Rightarrow> (redis_limiter \<times> 'r) \<times> int" where
  "RedisObserve rdo lr key now =
     (case lr of (l, r) \<Rightarrow>
       if key = [] then ((l, r), 0)
       else let l1 = l\<lparr>rseq := rseq l + 1\<rparr>
            in case rdo r (evalArgs (rwindow l) key now (hitMember now (rseq l1))) of
                 (r', Inl err) \<Rightarrow>
                   (case Observe (rlocal l1) key now of (loc, n) \<Rightarrow> ((l1\<lparr>rlocal := loc\<rparr>, r'), n))
               | (r', Inr rep) \<Rightarrow> ((l1, r'), clampInt32 (RInt rep)))"

definition RedisLevel :: "redis_limiter \<times> 'r \<Rightarrow> int \<Rightarrow> int" where
  "RedisLevel lr count = Level (rlocal (fst lr)) count"

definition RedisConfigure :: "redis_limiter \<times> 'r \<Rightarrow> int \<Rightarrow> int \<Rightarrow> int \<Rightarrow> redis_limiter \<times> 'r" where
  "RedisConfigure lr w s h =
     (case lr of (l, r) \<Rightarrow> (l\<lparr>rwindow := w, rlocal := Configure (rlocal l) w s h\<rparr>, r))"

definition RedisGC :: "redis_limiter \<times> 'r \<Rightarrow> int \<Rightarrow> string list \<Rightarrow> redis_limiter \<times> 'r" where
  "RedisGC lr now order = (case lr of (l, r) \<Rightarrow> (l\<lparr>rlocal := GC (rlocal l) now order\<rparr>, r))"

text \<open>
  During an outage every command fails. The fleet-wide limiter then satisfies the same interface as the
  in-memory one, with the hits this node has recorded.
\<close>

definition outage :: "'r redis" where
  "outage r args = (r, Inl ErrBreakerOpen)"

lemma RedisObserve_outage:
  "key \<noteq> [] \<Longrightarrow> RedisObserve outage lr key now =
     (((fst lr)\<lparr>rseq := rseq (fst lr) + 1, rlocal := fst (Observe (rlocal (fst lr)) key now)\<rparr>, snd lr),
      snd (Observe (rlocal (fst lr)) key now))"
  by (simp add: RedisObserve_def outage_def Let_def split: prod.splits)

lemma RedisObserve_empty: "RedisObserve rdo lr [] now = (lr, 0)"
  by (simp add: RedisObserve_def split: prod.splits)

lemma Observe_empty: "Observe l [] now = (l, 0)"
  by (simp add: Observe_def)

interpretation degraded: rate_limiter "RedisObserve outage" RedisLevel RedisConfigure
  "\<lambda>lr. lwindow (rlocal (fst lr))" "\<lambda>lr. lsoft (rlocal (fst lr))" "\<lambda>lr. lhard (rlocal (fst lr))"
  "\<lambda>lr. recentHits (rlocal (fst lr))"
proof
  fix lr :: "redis_limiter \<times> 'r" and key :: string and now :: int
  have "rlocal (fst (fst (RedisObserve outage lr key now))) = fst (Observe (rlocal (fst lr)) key now)"
    by (cases "key = []") (simp_all add: RedisObserve_outage RedisObserve_empty Observe_empty)
  then show "lwindow (rlocal (fst (fst (RedisObserve outage lr key now)))) = lwindow (rlocal (fst lr))"
    and "lsoft (rlocal (fst (fst (RedisObserve outage lr key now)))) = lsoft (rlocal (fst lr))"
    and "lhard (rlocal (fst (fst (RedisObserve outage lr key now)))) = lhard (rlocal (fst lr))"
    by simp_all
qed (simp_all add: RedisObserve_outage mem.observe_count mem.observe_recent RedisLevel_def mem.level_spec
      RedisConfigure_def split: prod.splits)

section \<open>The script and the fleet-wide count\<close>

text \<open>
  The script on the sorted set of one key, a list of members with scores. Lua numbers and scores are
  \<open>float64\<close>, and nanosecond timestamps exceed 53 bits: \<open>dbl\<close> is the rounding of an integer to
  \<open>float64\<close>. The expiry the script refreshes (six windows after the last hit) only drops sets whose
  members the next call would remove.
\<close>

type_synonym zset = "(string \<times> int) list"

definition luaCut :: "(int \<Rightarrow> int) \<Rightarrow> int \<Rightarrow> int \<Rightarrow> int" where
  "luaCut dbl now win = dbl (dbl now - dbl win)"

definition luaWindow :: "(int \<Rightarrow> int) \<Rightarrow> zset \<Rightarrow> int \<Rightarrow> int \<Rightarrow> string \<Rightarrow> zset \<times> int" where
  "luaWindow dbl z now win member =
     (let z1 = filter (\<lambda>e. \<not> (0 \<le> snd e \<and> snd e \<le> luaCut dbl now win)) z;
          z2 = filter (\<lambda>e. fst e \<noteq> member) z1 @ [(member, dbl now)]
      in (z2, int (length z2)))"

text \<open>Redis is up and runs the script: \<open>zs r k\<close> is the sorted set it keeps for a key.\<close>

definition runsScript :: "(int \<Rightarrow> int) \<Rightarrow> 'r redis \<Rightarrow> ('r \<Rightarrow> string \<Rightarrow> zset) \<Rightarrow> bool" where
  "runsScript dbl rdo zs \<longleftrightarrow>
     (\<forall>r key now w m. \<exists>r' rep. rdo r (evalArgs w key now m) = (r', Inr rep)
        \<and> zs r' key = fst (luaWindow dbl (zs r key) now w m)
        \<and> RInt rep = snd (luaWindow dbl (zs r key) now w m))"

text \<open>A fleet of nodes, each with its own limiter, over one Redis.\<close>

definition fleetObserve ::
  "'r redis \<Rightarrow> string \<Rightarrow> (nat \<Rightarrow> redis_limiter) \<times> 'r \<Rightarrow> nat \<times> int \<Rightarrow> ((nat \<Rightarrow> redis_limiter) \<times> 'r) \<times> int" where
  "fleetObserve rdo key st ev =
     (case RedisObserve rdo (fst st (fst ev), snd st) key (snd ev) of
        ((l', r'), n) \<Rightarrow> (((fst st)(fst ev := l'), r'), n))"

definition fleetRun ::
  "'r redis \<Rightarrow> string \<Rightarrow> (nat \<Rightarrow> redis_limiter) \<times> 'r \<Rightarrow> (nat \<times> int) list \<Rightarrow> (nat \<Rightarrow> redis_limiter) \<times> 'r" where
  "fleetRun rdo key st evs = foldl (\<lambda>st ev. fst (fleetObserve rdo key st ev)) st evs"

lemma fleetRun_snoc: "fleetRun rdo key st (evs @ [ev]) = fst (fleetObserve rdo key (fleetRun rdo key st evs) ev)"
  by (simp add: fleetRun_def)

lemma hitMember_inject:
  assumes "0 \<le> t" and "0 \<le> t'" and "hitMember t q = hitMember t' q'"
  shows "t = t'"
proof -
  have nd: "CHR ''-'' \<notin> set (decNat n)" for n
    using list_all_isDigit_decNat [of n] by (auto simp: list_all_iff isDigit_def)
  have "splitOn CHR ''-'' (hitMember x p) = decNat (nat x) # splitOn CHR ''-'' (formatInt (int (unat p)))"
    if "0 \<le> x" for x p
    using that splitOn_append_sep [OF nd] by (simp add: hitMember_def formatInt_def)
  from this [OF assms(1), of q] this [OF assms(2), of q'] assms(3)
  have "decNat (nat t) = decNat (nat t')" by (metis list.inject)
  then show ?thesis using assms(1,2) by simp
qed

definition fleetInv :: "(int \<Rightarrow> int) \<Rightarrow> int \<Rightarrow> (nat \<times> int) list \<Rightarrow> int \<Rightarrow> zset \<Rightarrow> bool" where
  "fleetInv dbl w evs prev z \<longleftrightarrow>
     (\<forall>e \<in> set z. 0 \<le> snd e \<and> (\<exists>ev \<in> set evs. \<exists>q. fst e = hitMember (snd ev) q))
     \<and> (\<forall>c. luaCut dbl prev w \<le> c \<longrightarrow>
          length (filter (\<lambda>e. c < snd e) z) = length (filter (\<lambda>ev. c < dbl (snd ev)) evs))"

lemma fleet_step:
  assumes inv: "fleetInv dbl w evs prev z" and mono: "mono dbl" and z0: "0 \<le> dbl 0"
    and new: "\<forall>ev \<in> set evs. 0 \<le> snd ev \<and> snd ev < now" and now: "prev \<le> now" "0 \<le> now"
  shows "fleetInv dbl w (evs @ [(i, now)]) now (fst (luaWindow dbl z now w (hitMember now q)))"
    and "snd (luaWindow dbl z now w (hitMember now q))
           = int (length (filter (\<lambda>ev. luaCut dbl now w < dbl (snd ev)) evs)) + 1"
proof -
  have cut: "luaCut dbl prev w \<le> luaCut dbl now w"
    using mono now(1) by (simp add: luaCut_def mono_def)
  have dnow: "0 \<le> dbl now" using z0 mono now(2) by (meson monoD order_trans)
  have other: "fst e \<noteq> hitMember now q" if "e \<in> set z" for e
    using that inv new now(2) hitMember_inject [of _ now _ q] by (fastforce simp: fleetInv_def)
  let ?z1 = "filter (\<lambda>e. luaCut dbl now w < snd e) z"
  have "filter (\<lambda>e. \<not> (0 \<le> snd e \<and> snd e \<le> luaCut dbl now w)) z = ?z1"
    using inv by (intro filter_cong) (auto simp: fleetInv_def)
  moreover have "filter (\<lambda>e. fst e \<noteq> hitMember now q) ?z1 = ?z1"
    using other by (intro filter_True) auto
  ultimately have run: "luaWindow dbl z now w (hitMember now q) =
      (?z1 @ [(hitMember now q, dbl now)], int (length ?z1) + 1)"
    by (simp add: luaWindow_def Let_def)
  show "snd (luaWindow dbl z now w (hitMember now q))
          = int (length (filter (\<lambda>ev. luaCut dbl now w < dbl (snd ev)) evs)) + 1"
    using run inv cut by (simp add: fleetInv_def)
  have "length (filter (\<lambda>e. c < snd e) ?z1) = length (filter (\<lambda>ev. c < dbl (snd ev)) evs)"
    if "luaCut dbl now w \<le> c" for c
  proof -
    have "filter (\<lambda>e. c < snd e) ?z1 = filter (\<lambda>e. c < snd e) z"
      using that by (auto intro: filter_cong)
    then show ?thesis using inv cut that by (simp add: fleetInv_def)
  qed
  then show "fleetInv dbl w (evs @ [(i, now)]) now (fst (luaWindow dbl z now w (hitMember now q)))"
    using run inv dnow by (auto simp: fleetInv_def)
qed

lemma RedisObserve_up:
  assumes "runsScript dbl rdo zs" and "key \<noteq> []"
  shows "zs (snd (fst (RedisObserve rdo (l, r) key now))) key =
           fst (luaWindow dbl (zs r key) now (rwindow l) (hitMember now (rseq l + 1)))"
    and "snd (RedisObserve rdo (l, r) key now) =
           clampInt32 (snd (luaWindow dbl (zs r key) now (rwindow l) (hitMember now (rseq l + 1))))"
    and "rwindow (fst (fst (RedisObserve rdo (l, r) key now))) = rwindow l"
proof -
  obtain r' rep where "rdo r (evalArgs (rwindow l) key now (hitMember now (rseq l + 1))) = (r', Inr rep)"
    "zs r' key = fst (luaWindow dbl (zs r key) now (rwindow l) (hitMember now (rseq l + 1)))"
    "RInt rep = snd (luaWindow dbl (zs r key) now (rwindow l) (hitMember now (rseq l + 1)))"
    using assms(1) unfolding runsScript_def by blast
  then show "zs (snd (fst (RedisObserve rdo (l, r) key now))) key =
           fst (luaWindow dbl (zs r key) now (rwindow l) (hitMember now (rseq l + 1)))"
    and "snd (RedisObserve rdo (l, r) key now) =
           clampInt32 (snd (luaWindow dbl (zs r key) now (rwindow l) (hitMember now (rseq l + 1))))"
    and "rwindow (fst (fst (RedisObserve rdo (l, r) key now))) = rwindow l"
    using assms(2) by (simp_all add: RedisObserve_def)
qed

lemma fleetObserve_parts:
  "fleetObserve rdo key st ev =
     (((fst st)(fst ev := fst (fst (RedisObserve rdo (fst st (fst ev), snd st) key (snd ev)))),
       snd (fst (RedisObserve rdo (fst st (fst ev), snd st) key (snd ev)))),
      snd (RedisObserve rdo (fst st (fst ev), snd st) key (snd ev)))"
  by (simp add: fleetObserve_def split: prod.splits)

lemma fleetRun_inv:
  assumes up: "runsScript dbl rdo zs" "key \<noteq> []" and mono: "mono dbl" "0 \<le> dbl 0"
    and init: "\<forall>i. rwindow (ls i) = w" "zs r key = []"
    and evs: "sorted_wrt (<) (map snd evs)" "\<forall>ev \<in> set evs. 0 \<le> snd ev \<and> snd ev \<le> t"
  shows "(\<forall>i. rwindow (fst (fleetRun rdo key (ls, r) evs) i) = w)
       \<and> fleetInv dbl w evs t (zs (snd (fleetRun rdo key (ls, r) evs)) key)"
  using evs
proof (induction evs arbitrary: t rule: rev_induct)
  case Nil
  then show ?case using init by (simp add: fleetRun_def fleetInv_def)
next
  case (snoc ev evs)
  let ?st = "fleetRun rdo key (ls, r) evs"
  have now: "0 \<le> snd ev" "snd ev \<le> t" and old: "\<forall>e \<in> set evs. 0 \<le> snd e \<and> snd e < snd ev"
    using snoc.prems by (auto simp: sorted_wrt_append)
  have "\<forall>e \<in> set evs. 0 \<le> snd e \<and> snd e \<le> snd ev" using old by auto
  then have ih: "\<forall>i. rwindow (fst ?st i) = w" "fleetInv dbl w evs (snd ev) (zs (snd ?st) key)"
    using snoc.IH [of "snd ev"] snoc.prems by (simp_all add: sorted_wrt_append)
  let ?q = "rseq (fst ?st (fst ev)) + 1"
  have "fleetInv dbl w (evs @ [ev]) (snd ev)
      (fst (luaWindow dbl (zs (snd ?st) key) (snd ev) w (hitMember (snd ev) ?q)))"
    using fleet_step(1) [OF ih(2) mono old order_refl now(1), of "fst ev"] by simp
  moreover have "luaCut dbl (snd ev) w \<le> luaCut dbl t w"
    using mono(1) now(2) by (simp add: luaCut_def mono_def)
  ultimately show ?case
    using ih(1) RedisObserve_up [OF up, of "fst ?st (fst ev)" "snd ?st" "snd ev"]
    by (auto simp: fleetRun_snoc fleetObserve_parts fleetInv_def)
qed

text \<open>
  While Redis is up, the count a node gets is the number of hits of the key
  observed by all nodes of the fleet together inside the window, this one included: a flood split over
  the nodes is counted as one. Hits are at distinct instants; the window is measured in \<open>float64\<close>
  arithmetic; the reply is clamped to 32 bits.
\<close>

theorem fleet_count:
  assumes "runsScript dbl rdo zs" and "key \<noteq> []" and "mono dbl" and "0 \<le> dbl 0"
    and "\<forall>i. rwindow (ls i) = w" and "zs r key = []"
    and "sorted_wrt (<) (map snd evs @ [now])" and "\<forall>ev \<in> set evs. 0 \<le> snd ev" and "0 \<le> now"
  shows "snd (fleetObserve rdo key (fleetRun rdo key (ls, r) evs) (i, now)) =
     clampInt32 (int (length (filter (\<lambda>ev. luaCut dbl now w < dbl (snd ev)) evs)) + 1)"
proof -
  let ?st = "fleetRun rdo key (ls, r) evs"
  have new: "\<forall>ev \<in> set evs. 0 \<le> snd ev \<and> snd ev < now" and srt: "sorted_wrt (<) (map snd evs)"
    using assms(7,8) by (auto simp: sorted_wrt_append)
  have inv: "(\<forall>i. rwindow (fst ?st i) = w) \<and> fleetInv dbl w evs now (zs (snd ?st) key)"
    using new by (intro fleetRun_inv [where t = now, OF assms(1,2,3,4,5,6) srt]) auto
  then show ?thesis
    using RedisObserve_up(2) [OF assms(1,2), of "fst ?st i" "snd ?st" now]
      fleet_step(2) [OF conjunct2 [OF inv] assms(3,4) new order_refl assms(9)]
    by (simp add: fleetObserve_parts)
qed

text \<open>A Redis that only knows the script, for examples; its \<open>float64\<close> keeps multiples of 256.\<close>

definition exDbl :: "int \<Rightarrow> int" where
  "exDbl n = n div 256 * 256"

definition exInt :: "string \<Rightarrow> int" where
  "exInt s = (if hd s = CHR ''-'' then - int (decValue (tl s)) else int (decValue s))"

definition exRedis :: "(string \<Rightarrow> zset) redis" where
  "exRedis r args =
     (case luaWindow exDbl (r (drop 7 (args ! 3))) (exInt (args ! 4)) (exInt (args ! 5)) (args ! 7) of
        (z, n) \<Rightarrow> (r(drop 7 (args ! 3) := z), Inr (Reply n [] [] False)))"

lemma exInt_formatInt: "exInt (formatInt i) = i"
  using hd_decNat [of "nat i"] by (simp add: exInt_def formatInt_def)

lemma exRedis_runs: "runsScript exDbl exRedis (\<lambda>r. r)"
  by (auto simp: runsScript_def exRedis_def evalArgs_def exInt_formatInt split: prod.splits)

theorem fleet_count_witness:
  "snd (fleetObserve exRedis ''k''
     (fleetRun exRedis ''k'' (\<lambda>_. NewRedisRateLimiter 1024 2 3, \<lambda>_. []) [(0, 100), (1, 2000), (2, 2300)]) (1, 2600)) = 3"
proof -
  have "mono exDbl" by (auto simp: mono_def exDbl_def zdiv_mono1)
  then show ?thesis
    using fleet_count [OF exRedis_runs, of "''k''" "\<lambda>_. NewRedisRateLimiter 1024 2 3" 1024 "\<lambda>_. []"
        "[(0, 100), (1, 2000), (2, 2300)]" 2600 1]
    by (simp add: exDbl_def luaCut_def clampInt32_def NewRedisRateLimiter_def)
qed

text \<open>
  The sequence number is per process, so two nodes can produce the same member: hits of two fresh nodes
  at the same instant count once.
\<close>

lemma fleet_same_instant_undercounts:
  "snd (fleetObserve exRedis ''k''
     (fleetRun exRedis ''k'' (\<lambda>_. NewRedisRateLimiter 1024 2 3, \<lambda>_. []) [(0, 2600)]) (1, 2600)) = 1"
  by (simp add: fleetRun_def fleetObserve_def RedisObserve_def exRedis_def evalArgs_def exInt_formatInt
      luaWindow_def luaCut_def exDbl_def NewRedisRateLimiter_def clampInt32_def Let_def)

end
