(* ===== verification/Ban.thy ===== *)
theory Ban
  imports RateLimit
begin

text \<open>
  The ban store of \<open>internal/gate/ban.go\<close>: rate-limit triggered progressive bans, manual bans, strike
  history. The store is generic in its rate limiter (the \<open>RateLimiter\<close> seam), so its operations take
  the limiter's methods as a record; the lemmas about auto-bans are proved once for every limiter that
  satisfies the interface and hold for the in-memory and for the degraded fleet-wide limiter.

  Times are nanoseconds since the epoch; Go's zero \<open>time.Time\<close> (January 1 of year 1) is the constant
  \<open>zeroTime\<close>. The clock is read by the caller of a model operation and passed in. The order in which
  Go visits a map is an argument.
\<close>

section \<open>Time\<close>

definition zeroTime :: int where
  "zeroTime = - 62135596800000000000"

text \<open>\<open>Time.Sub\<close> saturates at the ends of the range of a duration.\<close>

definition timeSub :: "int \<Rightarrow> int \<Rightarrow> int" where
  "timeSub a b = max (- (2 ^ 63)) (min (2 ^ 63 - 1) (a - b))"

definition hourNs :: int where
  "hourNs = 3600000000000"

section \<open>Entries\<close>

record ban_entry =
  BKey :: string
  BReason :: string
  BSource :: string
  BBy :: string
  BIncident :: string
  BCreated :: int
  BUntil :: int
  BStrike :: int

definition Permanent :: "ban_entry \<Rightarrow> bool" where
  "Permanent b \<longleftrightarrow> BUntil b = zeroTime"

definition active :: "ban_entry \<Rightarrow> int \<Rightarrow> bool" where
  "active b now \<longleftrightarrow> Permanent b \<or> now < BUntil b"

definition remainingSecs :: "ban_entry \<Rightarrow> int \<Rightarrow> rat" where
  "remainingSecs b now =
     (if Permanent b then 0
      else let d = of_int (timeSub (BUntil b) now) / 1000000000 in if d < 0 then 0 else d)"

definition escalation :: "int \<Rightarrow> int" where
  "escalation strike =
     (if strike \<le> 1 then hourNs else if strike = 2 then 6 * hourNs else if strike = 3 then 24 * hourNs else 0)"

definition strikeDecay :: int where
  "strikeDecay = 7 * 24 * hourNs"

record strike_rec =
  scount :: int
  slast :: int

section \<open>The store\<close>

record 'l limiter_ops =
  opObserve :: "'l \<Rightarrow> string \<Rightarrow> int \<Rightarrow> 'l \<times> int"
  opLevel :: "'l \<Rightarrow> int \<Rightarrow> int"
  opConfigure :: "'l \<Rightarrow> int \<Rightarrow> int \<Rightarrow> int \<Rightarrow> 'l"
  opGC :: "'l \<Rightarrow> int \<Rightarrow> string list \<Rightarrow> 'l"

record 'l ban_store =
  bans :: "string \<rightharpoonup> ban_entry"
  strikes :: "string \<rightharpoonup> strike_rec"
  blimiter :: 'l

definition NewBanStoreWithLimiter :: "'l \<Rightarrow> 'l ban_store" where
  "NewBanStoreWithLimiter rl = \<lparr>bans = Map.empty, strikes = Map.empty, blimiter = rl\<rparr>"

definition NewBanStore :: "int \<Rightarrow> int \<Rightarrow> int \<Rightarrow> limiter ban_store" where
  "NewBanStore w s h = NewBanStoreWithLimiter (NewLimiter w s h)"

definition Check :: "'l ban_store \<Rightarrow> string \<Rightarrow> int \<Rightarrow> 'l ban_store \<times> ban_entry option" where
  "Check s key now =
     (case bans s key of
        None \<Rightarrow> (s, None)
      | Some b \<Rightarrow>
          if \<not> active b now then (s\<lparr>bans := (bans s)(key := None)\<rparr>, None) else (s, Some b))"

definition applyLocked ::
  "'l ban_store \<Rightarrow> string \<Rightarrow> string \<Rightarrow> string \<Rightarrow> string \<Rightarrow> string \<Rightarrow> int \<Rightarrow> int \<Rightarrow> int \<Rightarrow> 'l ban_store \<times> ban_entry" where
  "applyLocked s key reason source who incident dur strike now =
     (let e = \<lparr>BKey = key, BReason = reason, BSource = source, BBy = who, BIncident = incident,
               BCreated = now, BUntil = zeroTime, BStrike = strike\<rparr>;
          e1 = (if 0 < dur then e\<lparr>BUntil := now + dur\<rparr> else e)
      in (s\<lparr>bans := (bans s)(key \<mapsto> e1)\<rparr>, e1))"

definition ObserveRate :: "'l limiter_ops \<Rightarrow> 'l ban_store \<Rightarrow> string \<Rightarrow> int \<Rightarrow> 'l ban_store \<times> int" where
  "ObserveRate ops s key now =
     (case opObserve ops (blimiter s) key now of
        (l', count) \<Rightarrow> (s\<lparr>blimiter := l'\<rparr>, opLevel ops l' count))"

definition strikeOf :: "'l ban_store \<Rightarrow> string \<Rightarrow> strike_rec" where
  "strikeOf s key = (case strikes s key of None \<Rightarrow> \<lparr>scount = 0, slast = zeroTime\<rparr> | Some st \<Rightarrow> st)"

definition strikeCount :: "'l ban_store \<Rightarrow> string \<Rightarrow> int \<Rightarrow> int" where
  "strikeCount s key now =
     (let st = strikeOf s key in if strikeDecay < timeSub now (slast st) then 0 else scount st)"

definition strikeAndBan :: "'l ban_store \<Rightarrow> string \<Rightarrow> int \<Rightarrow> 'l ban_store \<times> ban_entry" where
  "strikeAndBan s key now =
     (let c = strikeCount s key now + 1
      in applyLocked (s\<lparr>strikes := (strikes s)(key \<mapsto> \<lparr>scount = c, slast = now\<rparr>)\<rparr>) key
           ''rate limit exceeded (auto)'' ''auto'' [] [] (escalation c) c now)"

text \<open>\<open>Observe\<close> reads the clock, and \<open>ObserveRate\<close> reads it again: two instants.\<close>

definition BanObserve ::
  "'l limiter_ops \<Rightarrow> 'l ban_store \<Rightarrow> string \<Rightarrow> int \<Rightarrow> int \<Rightarrow> 'l ban_store \<times> ban_entry option \<times> int" where
  "BanObserve ops s key now now2 =
     (case ObserveRate ops s key now2 of
        (s1, level) \<Rightarrow>
          if level < 2 then (s1, None, level)
          else if (case bans s1 key of None \<Rightarrow> False | Some b \<Rightarrow> active b now) then (s1, bans s1 key, level)
          else case strikeAndBan s1 key now of (s2, e) \<Rightarrow> (s2, Some e, level))"

definition ConfigureRate :: "'l limiter_ops \<Rightarrow> 'l ban_store \<Rightarrow> int \<Rightarrow> int \<Rightarrow> int \<Rightarrow> 'l ban_store" where
  "ConfigureRate ops s w a b = s\<lparr>blimiter := opConfigure ops (blimiter s) w a b\<rparr>"

definition Add :: "'l ban_store \<Rightarrow> string \<Rightarrow> string \<Rightarrow> string \<Rightarrow> string \<Rightarrow> int \<Rightarrow> int \<Rightarrow> 'l ban_store \<times> ban_entry" where
  "Add s key reason who incident dur now = applyLocked s key reason ''manual'' who incident dur 0 now"

definition Lift :: "'l ban_store \<Rightarrow> string \<Rightarrow> 'l ban_store \<times> bool" where
  "Lift s key = (s\<lparr>bans := (bans s)(key := None)\<rparr>, bans s key \<noteq> None)"

definition sweepBans :: "(string \<rightharpoonup> ban_entry) \<Rightarrow> int \<Rightarrow> (string \<rightharpoonup> ban_entry)" where
  "sweepBans m now =
     (\<lambda>k. case m k of None \<Rightarrow> None | Some b \<Rightarrow> if active b now then Some b else None)"

definition BanGC :: "'l limiter_ops \<Rightarrow> 'l ban_store \<Rightarrow> int \<Rightarrow> string list \<Rightarrow> 'l ban_store" where
  "BanGC ops s now order =
     s\<lparr>blimiter := opGC ops (blimiter s) now order,
       bans := sweepBans (bans s) now,
       strikes := (\<lambda>k. case strikes s k of
                         None \<Rightarrow> None
                       | Some st \<Rightarrow> if strikeDecay < timeSub now (slast st) then None else Some st)\<rparr>"

definition BanList :: "'l ban_store \<Rightarrow> int \<Rightarrow> string list \<Rightarrow> 'l ban_store \<times> ban_entry list" where
  "BanList s now order =
     (s\<lparr>bans := sweepBans (bans s) now\<rparr>, List.map_filter (sweepBans (bans s) now) order)"

section \<open>An active ban stays\<close>

datatype ban_op =
    OpCheck string int
  | OpObserve string int int
  | OpObserveRate string int
  | OpConfigureRate int int int
  | OpAdd string string string string int int
  | OpLift string
  | OpGC int "string list"
  | OpList int "string list"

fun applyBanOp :: "'l limiter_ops \<Rightarrow> 'l ban_store \<Rightarrow> ban_op \<Rightarrow> 'l ban_store" where
  "applyBanOp ops s (OpCheck k t) = fst (Check s k t)"
| "applyBanOp ops s (OpObserve k t t') = fst (BanObserve ops s k t t')"
| "applyBanOp ops s (OpObserveRate k t) = fst (ObserveRate ops s k t)"
| "applyBanOp ops s (OpConfigureRate w a b) = ConfigureRate ops s w a b"
| "applyBanOp ops s (OpAdd k r who i d t) = fst (Add s k r who i d t)"
| "applyBanOp ops s (OpLift k) = fst (Lift s k)"
| "applyBanOp ops s (OpGC t order) = BanGC ops s t order"
| "applyBanOp ops s (OpList t order) = fst (BanList s t order)"

text \<open>The operations that may change a ban in force: an operator lifts or replaces it.\<close>

fun operatorOn :: "string \<Rightarrow> ban_op \<Rightarrow> bool" where
  "operatorOn key (OpAdd k r who i d t) \<longleftrightarrow> k = key"
| "operatorOn key (OpLift k) \<longleftrightarrow> k = key"
| "operatorOn key _ \<longleftrightarrow> False"

fun opTime :: "ban_op \<Rightarrow> int" where
  "opTime (OpCheck k t) = t"
| "opTime (OpObserve k t t') = t"
| "opTime (OpGC t order) = t"
| "opTime (OpList t order) = t"
| "opTime _ = zeroTime"

lemma active_earlier: "active b t \<Longrightarrow> t' \<le> t \<Longrightarrow> active b t'"
  by (auto simp: active_def)

lemma bans_applyLocked [simp]:
  "bans (fst (applyLocked s k r src who i d st t)) k' =
     (if k' = k then Some (snd (applyLocked s k r src who i d st t)) else bans s k')"
  by (simp add: applyLocked_def Let_def)

lemma bans_ObserveRate [simp]: "bans (fst (ObserveRate ops s k t)) = bans s"
  by (simp add: ObserveRate_def split: prod.splits)

lemma strikes_ObserveRate [simp]: "strikes (fst (ObserveRate ops s k t)) = strikes s"
  by (simp add: ObserveRate_def split: prod.splits)

lemma BanObserve_cases:
  obtains (calm) "snd (ObserveRate ops s key t') < 2" "BanObserve ops s key t t' =
      (fst (ObserveRate ops s key t'), None, snd (ObserveRate ops s key t'))"
  | (banned) b where "\<not> snd (ObserveRate ops s key t') < 2" "bans s key = Some b" "active b t"
      "BanObserve ops s key t t' = (fst (ObserveRate ops s key t'), Some b, snd (ObserveRate ops s key t'))"
  | (strike) "\<not> snd (ObserveRate ops s key t') < 2" "\<forall>b. bans s key = Some b \<longrightarrow> \<not> active b t"
      "BanObserve ops s key t t' =
        (fst (strikeAndBan (fst (ObserveRate ops s key t')) key t),
         Some (snd (strikeAndBan (fst (ObserveRate ops s key t')) key t)), snd (ObserveRate ops s key t'))"
proof -
  obtain s1 lv where r: "ObserveRate ops s key t' = (s1, lv)" by fastforce
  then have b: "bans s1 = bans s" using bans_ObserveRate [of ops s key t'] by simp
  consider "lv < 2" | b where "\<not> lv < 2" "bans s key = Some b" "active b t"
    | "\<not> lv < 2" "\<forall>b. bans s key = Some b \<longrightarrow> \<not> active b t" by blast
  then show thesis
    using r b calm banned strike
    by cases (auto simp: BanObserve_def split: option.splits prod.splits)
qed

lemma bans_strikeAndBan [simp]:
  "bans (fst (strikeAndBan s k t)) k' = (if k' = k then Some (snd (strikeAndBan s k t)) else bans s k')"
  by (simp add: strikeAndBan_def Let_def)

lemma ban_stays:
  assumes "bans s key = Some b" and "active b t" and "\<not> operatorOn key op" and "opTime op \<le> t"
  shows "bans (applyBanOp ops s op) key = Some b"
proof (cases op)
  case (OpCheck k u)
  then show ?thesis using assms active_earlier [of b t u]
    by (auto simp: Check_def split: option.splits)
next
  case (OpObserve k u u')
  then show ?thesis
    using assms active_earlier [of b t u] by (cases rule: BanObserve_cases [of ops s k u' u]) auto
next
  case (OpGC u order)
  then show ?thesis using assms active_earlier [of b t u] by (simp add: BanGC_def sweepBans_def)
next
  case (OpList u order)
  then show ?thesis using assms active_earlier [of b t u] by (simp add: BanList_def sweepBans_def)
qed (use assms in \<open>auto simp: ConfigureRate_def Add_def Lift_def\<close>)

lemma ban_stays_run:
  assumes "bans s key = Some b" and "active b t" and "\<forall>op \<in> set ops'. \<not> operatorOn key op \<and> opTime op \<le> t"
  shows "bans (foldl (applyBanOp ops) s ops') key = Some b"
  using assms by (induction ops' arbitrary: s) (auto intro: ban_stays)

text \<open>
  C11. Once a key is banned, every check up to the end of the ban finds exactly that ban,
  whatever checks, observations, sweeps, listings, rate changes and operations on other keys happen in
  between: only an operator's lift or a new manual ban of the same key can change it.
\<close>

theorem ban_enforced:
  assumes "bans s key = Some b" and "active b t"
    and "\<forall>op \<in> set ops'. \<not> operatorOn key op \<and> opTime op \<le> t"
  shows "snd (Check (foldl (applyBanOp ops) s ops') key t) = Some b"
  using ban_stays_run [OF assms, of ops] assms(2) by (simp add: Check_def)

definition memOps :: "limiter limiter_ops" where
  "memOps = \<lparr>opObserve = Observe, opLevel = Level, opConfigure = Configure, opGC = GC\<rparr>"

theorem ban_enforced_witness:
  "snd (Check (foldl (applyBanOp memOps) (fst (Add (NewBanStore 10 2 3) ''ip:1'' ''abuse'' ''op'' ''INC'' 100 1000))
      [OpObserve ''ip:1'' 1040 1040, OpLift ''ip:2'', OpGC 1050 [], OpCheck ''ip:1'' 1060]) ''ip:1'' 1099)
   = Some (snd (Add (NewBanStore 10 2 3) ''ip:1'' ''abuse'' ''op'' ''INC'' 100 1000))"
  by (rule ban_enforced)
    (auto simp: Add_def active_def applyLocked_def Let_def Permanent_def zeroTime_def)

section \<open>The escalation ladder\<close>

lemma strikeAndBan_entry:
  "snd (strikeAndBan s key t) =
     \<lparr>BKey = key, BReason = ''rate limit exceeded (auto)'', BSource = ''auto'', BBy = [], BIncident = [],
      BCreated = t,
      BUntil = (if 0 < escalation (strikeCount s key t + 1) then t + escalation (strikeCount s key t + 1) else zeroTime),
      BStrike = strikeCount s key t + 1\<rparr>"
  by (simp add: strikeAndBan_def applyLocked_def Let_def)

text \<open>When a ban that starts at \<open>t\<close> after \<open>n\<close> remembered strikes ends.\<close>

definition ladderEnd :: "nat \<Rightarrow> int \<Rightarrow> int" where
  "ladderEnd n t = (if n = 0 then t + hourNs else if n = 1 then t + 6 * hourNs
                    else if n = 2 then t + 24 * hourNs else zeroTime)"

lemma ladder_escalation:
  "(if 0 < escalation (int n + 1) then t + escalation (int n + 1) else zeroTime) = ladderEnd n t"
  by (auto simp: escalation_def ladderEnd_def hourNs_def)

lemma timeSub_small: "\<bar>a - b\<bar> < 2 ^ 63 \<Longrightarrow> timeSub a b = a - b"
  by (auto simp: timeSub_def)

lemma strikeDecay_less_timeSub: "strikeDecay < timeSub a b \<longleftrightarrow> strikeDecay < a - b"
  by (auto simp: timeSub_def strikeDecay_def hourNs_def)

text \<open>
  \<open>offences ops key n t s\<close>: the store \<open>s\<close> is reached by operations in which the key was struck \<open>n\<close>
  times, the last time at \<open>t\<close>, and strikes and sweeps came within \<open>strikeDecay\<close> of the strike before.
\<close>

definition strikesNow :: "'l limiter_ops \<Rightarrow> 'l ban_store \<Rightarrow> string \<Rightarrow> int \<Rightarrow> int \<Rightarrow> bool" where
  "strikesNow ops s key t t' \<longleftrightarrow>
     2 \<le> snd (ObserveRate ops s key t') \<and> (\<forall>b. bans s key = Some b \<longrightarrow> \<not> active b t)"

inductive offences :: "'l limiter_ops \<Rightarrow> string \<Rightarrow> nat \<Rightarrow> int \<Rightarrow> 'l ban_store \<Rightarrow> bool" for ops key where
  offStart: "offences ops key 0 zeroTime (NewBanStoreWithLimiter rl)"
| offQuiet: "offences ops key n l s \<Longrightarrow> (\<forall>t t'. op = OpObserve key t t' \<longrightarrow> \<not> strikesNow ops s key t t') \<Longrightarrow>
    opTime op - l \<le> strikeDecay \<or> n = 0 \<Longrightarrow> offences ops key n l (applyBanOp ops s op)"
| offStrike: "offences ops key n l s \<Longrightarrow> strikesNow ops s key t t' \<Longrightarrow> t - l \<le> strikeDecay \<or> n = 0 \<Longrightarrow>
    offences ops key (Suc n) t (fst (BanObserve ops s key t t'))"

lemma BanObserve_strikesNow:
  assumes "strikesNow ops s key t t'"
  shows "BanObserve ops s key t t' =
      (fst (strikeAndBan (fst (ObserveRate ops s key t')) key t),
       Some (snd (strikeAndBan (fst (ObserveRate ops s key t')) key t)), snd (ObserveRate ops s key t'))"
  using assms by (cases rule: BanObserve_cases [of ops s key t' t]) (auto simp: strikesNow_def)

lemma strikes_applyLocked [simp]: "strikes (fst (applyLocked s k r src who i d st t)) = strikes s"
  by (simp add: applyLocked_def Let_def)

lemma strikeOf_ObserveRate [simp]: "strikeOf (fst (ObserveRate ops s k t)) key = strikeOf s key"
  by (simp add: strikeOf_def)

definition struck :: "nat \<Rightarrow> int \<Rightarrow> 'l ban_store \<Rightarrow> string \<Rightarrow> bool" where
  "struck n l s key \<longleftrightarrow>
     (if n = 0 then strikes s key = None else strikes s key = Some \<lparr>scount = int n, slast = l\<rparr>)"

lemma struck_quiet:
  assumes "struck n l s key" and "\<forall>t t'. op = OpObserve key t t' \<longrightarrow> \<not> strikesNow ops s key t t'"
    and "opTime op - l \<le> strikeDecay \<or> n = 0"
  shows "struck n l (applyBanOp ops s op) key"
proof -
  have "strikes (applyBanOp ops s op) key = strikes s key"
  proof (cases op)
    case (OpObserve k t t')
    then show ?thesis
    proof (cases rule: BanObserve_cases [of ops s k t' t])
      case strike
      then have "k \<noteq> key" using assms(2) OpObserve by (auto simp: strikesNow_def)
      then show ?thesis using strike OpObserve by (simp add: strikeAndBan_def Let_def)
    qed simp_all
  next
    case (OpGC t order)
    then show ?thesis using assms(1,3)
      by (auto simp: BanGC_def struck_def strikeDecay_less_timeSub split: if_splits)
  qed (auto simp: Check_def ConfigureRate_def Add_def Lift_def BanList_def split: option.splits)
  then show ?thesis using assms(1) by (simp add: struck_def)
qed

lemma struck_strike:
  assumes "struck n l s key" and "strikesNow ops s key t t'" and "t - l \<le> strikeDecay \<or> n = 0"
  shows "struck (Suc n) t (fst (BanObserve ops s key t t')) key"
    and "fst (snd (BanObserve ops s key t t')) =
      Some \<lparr>BKey = key, BReason = ''rate limit exceeded (auto)'', BSource = ''auto'', BBy = [],
            BIncident = [], BCreated = t, BUntil = ladderEnd n t, BStrike = int (Suc n)\<rparr>"
proof -
  have count: "strikeCount (fst (ObserveRate ops s key t')) key t = int n"
    using assms(1,3) by (auto simp: strikeCount_def struck_def strikeOf_def strikeDecay_less_timeSub split: if_splits)
  show "fst (snd (BanObserve ops s key t t')) =
      Some \<lparr>BKey = key, BReason = ''rate limit exceeded (auto)'', BSource = ''auto'', BBy = [],
            BIncident = [], BCreated = t, BUntil = ladderEnd n t, BStrike = int (Suc n)\<rparr>"
    using ladder_escalation [of n t]
    by (simp add: BanObserve_strikesNow [OF assms(2)] strikeAndBan_entry count split: if_splits)
  show "struck (Suc n) t (fst (BanObserve ops s key t t')) key"
    using count
    by (simp add: BanObserve_strikesNow [OF assms(2)] struck_def strikeAndBan_def Let_def add.commute)
qed

lemma offences_struck: "offences ops key n l s \<Longrightarrow> struck n l s key"
proof (induction rule: offences.induct)
  case (offStart rl)
  then show ?case by (simp add: struck_def NewBanStoreWithLimiter_def)
qed (auto intro: struck_quiet struck_strike(1))

text \<open>
  An offender that breaches the hard threshold again within seven days of the
  previous strike climbs the ladder: the first ban lasts one hour, the second six hours, the third a
  day, and the fourth and every later one is permanent, whatever else the store did in between.
\<close>

theorem escalation_ladder:
  assumes "offences ops key n l s" and "strikesNow ops s key t t'" and "t - l \<le> strikeDecay \<or> n = 0"
  shows "fst (snd (BanObserve ops s key t t')) =
      Some \<lparr>BKey = key, BReason = ''rate limit exceeded (auto)'', BSource = ''auto'', BBy = [],
            BIncident = [], BCreated = t, BUntil = ladderEnd n t, BStrike = int (Suc n)\<rparr>
    \<and> bans (fst (BanObserve ops s key t t')) key = fst (snd (BanObserve ops s key t t'))"
  using struck_strike(2) [OF offences_struck [OF assms(1)] assms(2,3)] BanObserve_strikesNow [OF assms(2)]
  by auto

lemma strikesNow_example:
  "strikesNow memOps (NewBanStore 10 1 1) ''k'' 5 5"
  "strikesNow memOps (fst (BanObserve memOps (NewBanStore 10 1 1) ''k'' 5 5)) ''k'' (2 * hourNs) 6"
  by (simp_all add: strikesNow_def BanObserve_def ObserveRate_def memOps_def NewBanStore_def
      NewBanStoreWithLimiter_def NewLimiter_def Observe_def Level_def hitsOf_def strikeAndBan_def strikeCount_def
      strikeOf_def applyLocked_def escalation_def active_def Permanent_def zeroTime_def hourNs_def
      timeSub_def strikeDecay_def Let_def)

theorem escalation_ladder_witness:
  "BUntil (the (fst (snd (BanObserve memOps (fst (BanObserve memOps (NewBanStore 10 1 1) ''k'' 5 5)) ''k''
      (2 * hourNs) 6)))) = 8 * hourNs"
proof -
  have "offences memOps ''k'' 1 5 (fst (BanObserve memOps (NewBanStore 10 1 1) ''k'' 5 5))"
    using offStrike [OF offStart strikesNow_example(1) [unfolded NewBanStore_def]] by (simp add: NewBanStore_def)
  then show ?thesis
    using escalation_ladder [OF _ strikesNow_example(2), of 1 5]
    by (simp add: ladderEnd_def hourNs_def strikeDecay_def)
qed

section \<open>Auto-bans and the limiter interface\<close>

locale ban_limiter =
  rate_limiter observe level configure window soft hard recent
  for observe :: "'s \<Rightarrow> string \<Rightarrow> int \<Rightarrow> 's \<times> int" and level and configure
    and window :: "'s \<Rightarrow> int" and soft and hard and recent +
  fixes ops :: "'s limiter_ops"
  assumes ops_observe [simp]: "opObserve ops = observe"
    and ops_level [simp]: "opLevel ops = level"
    and ops_configure [simp]: "opConfigure ops = configure"
begin

lemma ObserveRate_level:
  assumes "key \<noteq> []"
  shows "2 \<le> snd (ObserveRate ops s key t) \<longleftrightarrow>
     hard (blimiter s) \<le> int (recent (blimiter s) key (t - window (blimiter s))) + 1"
  using assms observe_count [of key "blimiter s" t]
  by (simp add: ObserveRate_def level_spec case_prod_unfold)

lemma banned_iff_flood:
  assumes "key \<noteq> []" and "\<forall>b. bans s key = Some b \<longrightarrow> \<not> active b t"
  shows "fst (snd (BanObserve ops s key t t')) \<noteq> None \<longleftrightarrow>
     hard (blimiter s) \<le> int (recent (blimiter s) key (t' - window (blimiter s))) + 1"
  using ObserveRate_level [OF assms(1), of s t'] assms(2)
  by (cases rule: BanObserve_cases [of ops s key t' t]) auto

lemma ConfigureRate_keeps_hits:
  "recent (blimiter (ConfigureRate ops s w a b)) k c = recent (blimiter s) k c"
  by (simp add: ConfigureRate_def)

end

definition degradedOps :: "(redis_limiter \<times> 'r) limiter_ops" where
  "degradedOps = \<lparr>opObserve = RedisObserve outage, opLevel = RedisLevel, opConfigure = RedisConfigure, opGC = RedisGC\<rparr>"

interpretation memBan: ban_limiter Observe Level Configure lwindow lsoft lhard recentHits memOps
  by unfold_locales (simp_all add: memOps_def)

interpretation degradedBan: ban_limiter "RedisObserve outage" RedisLevel RedisConfigure
  "\<lambda>lr. lwindow (rlocal (fst lr))" "\<lambda>lr. lsoft (rlocal (fst lr))" "\<lambda>lr. lhard (rlocal (fst lr))"
  "\<lambda>lr. recentHits (rlocal (fst lr))" degradedOps
  by unfold_locales (simp_all add: degradedOps_def)

text \<open>
  On a store with the in-memory limiter in any reachable state, a request of a key
  that is not banned is banned exactly when it is at least the \<open>hard\<close>-th request of that key in the
  window: no flood is missed and nobody below the threshold is banned.
\<close>

theorem auto_ban_exact:
  assumes "limRun obs u (blimiter s)" and "u \<le> t'" and "key \<noteq> []"
    and "\<forall>b. bans s key = Some b \<longrightarrow> \<not> active b t"
  shows "fst (snd (BanObserve memOps s key t t')) \<noteq> None \<longleftrightarrow>
     lhard (blimiter s) \<le> int (inWindow obs key (t' - lwindow (blimiter s))) + 1"
proof -
  have "limInv obs t' (blimiter s)" using limRun_inv [OF assms(1)] limInv_later assms(2) by blast
  then show ?thesis
    using memBan.banned_iff_flood [OF assms(3,4), of t'] Observe_exact [OF _ assms(3)]
      mem.observe_count [OF assms(3), of "blimiter s" t'] by simp
qed

theorem auto_ban_exact_witness:
  "fst (snd (BanObserve memOps (NewBanStore 10 2 2) ''k'' 5 5)) = None
   \<and> fst (snd (BanObserve memOps (NewBanStore 10 1 1) ''k'' 5 5)) \<noteq> None"
proof -
  have "limRun [] 0 (blimiter (NewBanStore 10 2 2))" and "limRun [] 0 (blimiter (NewBanStore 10 1 1))"
    by (simp_all add: NewBanStore_def NewBanStoreWithLimiter_def limInit)
  note this [THEN auto_ban_exact, of 5 "''k''" 5]
  then show ?thesis
    by (simp add: NewBanStore_def NewBanStoreWithLimiter_def NewLimiter_def inWindow_def timesOf_def)
qed

text \<open>
  A strike is remembered for seven days from the strike, not from the end of the ban: six days and one
  nanosecond after a one-day ban has ended, the count starts again.
\<close>

lemma strike_memory_from_strike:
  assumes "strikes s key = Some \<lparr>scount = 3, slast = l\<rparr>"
  shows "strikeCount s key (ladderEnd 2 l + 6 * 24 * hourNs + 1) = 0"
  using assms
  by (simp add: strikeCount_def strikeOf_def ladderEnd_def timeSub_def strikeDecay_def hourNs_def Let_def)

end
