(* ===== verification/RedisLedger.thy ===== *)
theory RedisLedger
  imports Ban AuditRecord "HOL-Library.AList"
begin

text \<open>
  The sticky-verdict store of \<open>internal/gate/enforce.go\<close> and the fleet-wide ledgers of
  \<open>internal/gate/redisledger.go\<close>: values sealed with a key-bound HMAC, the shared verdict ledger with its
  anti-rollback mark, the shared ban ledger with its anti-resurrection mark, and the bounded key scan.

  Redis is an argument (a function from its state and a command to the next state and the outcome the
  client reports), as are the JSON codecs and HMAC-SHA-256. A Go map whose size the code reads is an
  association list with distinct keys.
\<close>

section \<open>Verdicts and the in-memory store (enforce.go)\<close>

definition VerdictAllow :: string where "VerdictAllow = ''allow''"
definition VerdictChallenge :: string where "VerdictChallenge = ''challenge''"
definition VerdictDeny :: string where "VerdictDeny = ''deny''"
definition VerdictUnknown :: string where "VerdictUnknown = ''none''"

lemmas verdict_defs = VerdictAllow_def VerdictChallenge_def VerdictDeny_def VerdictUnknown_def

record sticky_verdict =
  verdict :: string
  risk :: rat
  rule :: string
  top :: "signal list"
  updated :: int

definition unknownVerdict :: sticky_verdict where
  "unknownVerdict = \<lparr>verdict = VerdictUnknown, risk = 0, rule = [], top = [], updated = zeroTime\<rparr>"

record verdict_store =
  vmap :: "(string \<times> sticky_verdict) list"
  vttl :: int

definition NewVerdictStore :: "int \<Rightarrow> verdict_store" where
  "NewVerdictStore ttl = \<lparr>vmap = [], vttl = ttl\<rparr>"

definition maxVerdicts :: nat where
  "maxVerdicts = 2 ^ 20"

definition SetVerdict :: "verdict_store \<Rightarrow> string \<Rightarrow> sticky_verdict \<Rightarrow> verdict_store" where
  "SetVerdict s sid v =
     (if map_of (vmap s) sid = None \<and> maxVerdicts \<le> length (vmap s) then s
      else s\<lparr>vmap := AList.update sid v (vmap s)\<rparr>)"

definition GetVerdict :: "verdict_store \<Rightarrow> string \<Rightarrow> int \<Rightarrow> sticky_verdict" where
  "GetVerdict s sid now =
     (case map_of (vmap s) sid of
        None \<Rightarrow> unknownVerdict
      | Some v \<Rightarrow> if vttl s < timeSub now (updated v) then unknownVerdict else v)"

definition GCVerdicts :: "verdict_store \<Rightarrow> int \<Rightarrow> verdict_store" where
  "GCVerdicts s now = s\<lparr>vmap := filter (\<lambda>kv. \<not> vttl s < timeSub now (updated (snd kv))) (vmap s)\<rparr>"

definition mapVerdict :: "string \<Rightarrow> string" where
  "mapVerdict engine =
     (if engine = ''DENY'' then VerdictDeny
      else if engine = ''CHALLENGE'' then VerdictChallenge
      else if engine = ''ALLOW'' then VerdictAllow
      else VerdictUnknown)"

section \<open>Sealed values\<close>

definition sealTag :: "'sk prims \<Rightarrow> bytes \<Rightarrow> string \<Rightarrow> string \<Rightarrow> bytes" where
  "sealTag P key ctx payload = hmacSha P key (ctx @ [CHR 0x00] @ payload)"

definition sealValue :: "'sk prims \<Rightarrow> bytes \<Rightarrow> string \<Rightarrow> string \<Rightarrow> string" where
  "sealValue P key ctx payload =
     (if key = [] then payload else payload @ [CHR 0x00] @ hexEncode (sealTag P key ctx payload))"

text \<open>\<open>strings.LastIndexByte\<close>, as the split of the string around the last occurrence.\<close>

definition splitLast :: "char \<Rightarrow> string \<Rightarrow> (string \<times> string) option" where
  "splitLast c s =
     (if c \<notin> set s then None
      else let t = takeWhile (\<lambda>x. x \<noteq> c) (rev s)
           in Some (take (length s - length t - 1) s, rev t))"

definition openValue :: "'sk prims \<Rightarrow> bytes \<Rightarrow> string \<Rightarrow> string \<Rightarrow> string option" where
  "openValue P key ctx val =
     (if key = [] then Some val
      else case splitLast (CHR 0x00) val of
             None \<Rightarrow> None
           | Some (payload, tag) \<Rightarrow>
               if tag = hexEncode (sealTag P key ctx payload) then Some payload else None)"

lemma splitLast_append: "c \<notin> set b \<Longrightarrow> splitLast c (a @ c # b) = Some (a, b)"
proof -
  assume "c \<notin> set b"
  then have "takeWhile (\<lambda>x. x \<noteq> c) (rev b @ c # rev a) = rev b"
    by (subst takeWhile_append2) auto
  then show ?thesis by (simp add: splitLast_def Let_def)
qed

lemma splitLast_sound: "splitLast c s = Some (a, b) \<Longrightarrow> s = a @ c # b \<and> c \<notin> set b"
proof -
  assume sp: "splitLast c s = Some (a, b)"
  then have "c \<in> set s" by (auto simp: splitLast_def split: if_splits)
  then obtain a' b' where s: "s = a' @ c # b'" "c \<notin> set b'" by (meson split_list_last)
  then show ?thesis using splitLast_append [of c b' a'] sp by simp
qed

lemma NUL_notin_hexEncode: "CHR 0x00 \<notin> set (hexEncode b)"
proof -
  have "CHR 0x00 \<notin> set (hexByte c)" for c
  proof -
    have "hexDigits ! n \<noteq> CHR 0x00" if "n < 16" for n
      using that hexNibble_digit [OF that] by (auto simp: hexNibble_def Let_def)
    then have "hexDigits ! (of_char c div 16) \<noteq> CHR 0x00" "hexDigits ! (of_char c mod 16) \<noteq> CHR 0x00"
      using of_char_div16 [of c] by auto
    then show ?thesis by (simp add: hexByte_def Let_def not_sym)
  qed
  then show ?thesis by (simp add: hexEncode_def)
qed

text \<open>
  A value read from the coordinator is accepted for a Redis key, with a given
  payload, exactly when it is the sealing of that payload for that key: what was sealed is read back
  unchanged, and anything else, sealed values of other keys included, can only be accepted if its bytes
  are that sealing.
\<close>

theorem seal_exact: "openValue P key ctx val = Some payload \<longleftrightarrow> val = sealValue P key ctx payload"
proof (cases "key = []")
  case False
  have "openValue P key ctx (sealValue P key ctx payload) = Some payload"
    using False splitLast_append [OF NUL_notin_hexEncode] by (simp add: openValue_def sealValue_def)
  moreover have "val = sealValue P key ctx payload" if "openValue P key ctx val = Some payload"
    using that False by (auto simp: openValue_def sealValue_def dest: splitLast_sound split: option.splits if_splits)
  ultimately show ?thesis by blast
qed (auto simp: openValue_def sealValue_def)

section \<open>The shared verdict ledger\<close>

definition redisBanPrefix :: string where "redisBanPrefix = ''hmn:ban:''"
definition redisVerdictPrefix :: string where "redisVerdictPrefix = ''hmn:verdict:''"

record wire_codec =
  encVerdict :: "sticky_verdict \<Rightarrow> string option"
  decVerdict :: "string \<Rightarrow> sticky_verdict option"
  encBan :: "ban_entry \<Rightarrow> string option"
  decBan :: "string \<Rightarrow> ban_entry option"

record verdict_ledger =
  vlocal :: verdict_store
  vlttl :: int
  vsign :: bytes
  hwm :: "string \<rightharpoonup> int"

definition NewRedisVerdictLedger :: "int \<Rightarrow> bytes \<Rightarrow> verdict_ledger" where
  "NewRedisVerdictLedger ttl key = \<lparr>vlocal = NewVerdictStore ttl, vlttl = ttl, vsign = key, hwm = Map.empty\<rparr>"

definition LedgerSet ::
  "'sk prims \<Rightarrow> 'r redis \<Rightarrow> wire_codec \<Rightarrow> verdict_ledger \<times> 'r \<Rightarrow> string \<Rightarrow> sticky_verdict \<Rightarrow> verdict_ledger \<times> 'r" where
  "LedgerSet P rdo cdc lr sid v =
     (case lr of (l, r) \<Rightarrow>
       let l1 = l\<lparr>vlocal := SetVerdict (vlocal l) sid v\<rparr>
       in case encVerdict cdc v of
            None \<Rightarrow> (l1, r)
          | Some b \<Rightarrow>
              (l1, fst (rdo r [''SET'', redisVerdictPrefix @ sid,
                 sealValue P (vsign l) (redisVerdictPrefix @ sid) b, ''PX'',
                 formatInt (vlttl l div 1000000)])))"

definition LedgerGCVerdicts :: "verdict_ledger \<Rightarrow> int \<Rightarrow> verdict_ledger" where
  "LedgerGCVerdicts l now =
     l\<lparr>vlocal := GCVerdicts (vlocal l) now,
       hwm := (\<lambda>k. case hwm l k of
                     None \<Rightarrow> None
                   | Some t \<Rightarrow> if vlttl l < timeSub now t then None else Some t)\<rparr>"

definition markSeen :: "verdict_ledger \<Rightarrow> string \<Rightarrow> int \<Rightarrow> verdict_ledger" where
  "markSeen l sid u =
     (if (case hwm l sid of None \<Rightarrow> zeroTime | Some t \<Rightarrow> t) < u then l\<lparr>hwm := (hwm l)(sid \<mapsto> u)\<rparr> else l)"

definition LedgerGet ::
  "'sk prims \<Rightarrow> 'r redis \<Rightarrow> wire_codec \<Rightarrow> verdict_ledger \<times> 'r \<Rightarrow> string \<Rightarrow> int \<Rightarrow> (verdict_ledger \<times> 'r) \<times> sticky_verdict" where
  "LedgerGet P rdo cdc lr sid now =
     (case lr of (l, r) \<Rightarrow>
       case rdo r [''GET'', redisVerdictPrefix @ sid] of
         (r', Inl err) \<Rightarrow> ((l, r'), GetVerdict (vlocal l) sid now)
       | (r', Inr rep) \<Rightarrow>
           if RNil rep then ((l, r'), unknownVerdict)
           else case openValue P (vsign l) (redisVerdictPrefix @ sid) (RStr rep) of
             None \<Rightarrow> ((l, r'), GetVerdict (vlocal l) sid now)
           | Some payload \<Rightarrow>
               (case decVerdict cdc payload of
                  None \<Rightarrow> ((l, r'), GetVerdict (vlocal l) sid now)
                | Some w \<Rightarrow>
                    if vlttl l < timeSub now (updated w) then ((l, r'), GetVerdict (vlocal l) sid now)
                    else if (case hwm l sid of None \<Rightarrow> False | Some t \<Rightarrow> updated w < t)
                         then ((l, r'), GetVerdict (vlocal l) sid now)
                    else ((markSeen l sid (updated w), r'), w)))"

section \<open>The shared ban ledger\<close>

record ban_ledger =
  blocal :: "(redis_limiter) ban_store"
  bsign :: bytes
  liftEpoch :: "string \<rightharpoonup> int"

text \<open>
  The ban store of the ledger uses the fleet-wide limiter, whose operations need Redis too: the local
  store and the Redis state are paired for them and separated again. \<open>writeBan\<close> reads the clock once
  more than its callers; the same instant is used.
\<close>

definition redisOps :: "'r redis \<Rightarrow> (redis_limiter \<times> 'r) limiter_ops" where
  "redisOps rdo = \<lparr>opObserve = RedisObserve rdo, opLevel = RedisLevel, opConfigure = RedisConfigure, opGC = RedisGC\<rparr>"

definition withRedis :: "redis_limiter ban_store \<Rightarrow> 'r \<Rightarrow> (redis_limiter \<times> 'r) ban_store" where
  "withRedis s r = \<lparr>bans = bans s, strikes = strikes s, blimiter = (blimiter s, r)\<rparr>"

definition dropRedis :: "(redis_limiter \<times> 'r) ban_store \<Rightarrow> redis_limiter ban_store \<times> 'r" where
  "dropRedis s = (\<lparr>bans = bans s, strikes = strikes s, blimiter = fst (blimiter s)\<rparr>, snd (blimiter s))"

definition liftEpochTTL :: int where
  "liftEpochTTL = 30 * 24 * hourNs"

definition banRetentionHorizon :: int where
  "banRetentionHorizon = 400 * 24 * hourNs"

definition NewRedisBanLedger :: "int \<Rightarrow> int \<Rightarrow> int \<Rightarrow> bytes \<Rightarrow> ban_ledger" where
  "NewRedisBanLedger w s h key =
     \<lparr>blocal = NewBanStoreWithLimiter (NewRedisRateLimiter w s h), bsign = key, liftEpoch = Map.empty\<rparr>"

definition LedgerGC :: "'r redis \<Rightarrow> ban_ledger \<times> 'r \<Rightarrow> int \<Rightarrow> string list \<Rightarrow> ban_ledger \<times> 'r" where
  "LedgerGC rdo lr now order =
     (case lr of (l, r) \<Rightarrow>
       case dropRedis (BanGC (redisOps rdo) (withRedis (blocal l) r) now order) of
         (s, r') \<Rightarrow>
           (l\<lparr>blocal := s,
              liftEpoch := (\<lambda>k. case liftEpoch l k of
                                  None \<Rightarrow> None
                                | Some t \<Rightarrow> if liftEpochTTL < timeSub now t then None else Some t)\<rparr>, r'))"

definition localCheck :: "ban_ledger \<Rightarrow> 'r \<Rightarrow> string \<Rightarrow> int \<Rightarrow> (ban_ledger \<times> 'r) \<times> ban_entry option" where
  "localCheck l r key now =
     (case Check (blocal l) key now of (s, e) \<Rightarrow> ((l\<lparr>blocal := s\<rparr>, r), e))"

definition LedgerCheck ::
  "'sk prims \<Rightarrow> 'r redis \<Rightarrow> wire_codec \<Rightarrow> ban_ledger \<times> 'r \<Rightarrow> string \<Rightarrow> int \<Rightarrow> (ban_ledger \<times> 'r) \<times> ban_entry option" where
  "LedgerCheck P rdo cdc lr key now =
     (case lr of (l, r) \<Rightarrow>
       case rdo r [''GET'', redisBanPrefix @ key] of
         (r', Inl err) \<Rightarrow> localCheck l r' key now
       | (r', Inr rep) \<Rightarrow>
           if RNil rep then ((l, r'), None)
           else case openValue P (bsign l) (redisBanPrefix @ key) (RStr rep) of
             None \<Rightarrow> localCheck l r' key now
           | Some payload \<Rightarrow>
               (case decBan cdc payload of
                  None \<Rightarrow> localCheck l r' key now
                | Some b \<Rightarrow>
                    if BKey b \<noteq> key then localCheck l r' key now
                    else if \<not> active b now then ((l, r'), None)
                    else if (case liftEpoch l key of None \<Rightarrow> False | Some t \<Rightarrow> \<not> t < BCreated b)
                         then localCheck l r' key now
                    else ((l, r'), Some b)))"

definition writeBan ::
  "'sk prims \<Rightarrow> 'r redis \<Rightarrow> wire_codec \<Rightarrow> ban_ledger \<Rightarrow> 'r \<Rightarrow> string \<Rightarrow> ban_entry \<Rightarrow> int \<Rightarrow> 'r" where
  "writeBan P rdo cdc l r key entry now =
     (case encBan cdc entry of
        None \<Rightarrow> r
      | Some b \<Rightarrow>
          let val = sealValue P (bsign l) (redisBanPrefix @ key) b
          in if Permanent entry
             then fst (rdo r [''SET'', redisBanPrefix @ key, val, ''PX'', formatInt (banRetentionHorizon div 1000000)])
             else let ms = timeSub (BUntil entry) now div 1000000
                  in if ms \<le> 0 then r
                     else fst (rdo r [''SET'', redisBanPrefix @ key, val, ''PX'', formatInt ms]))"

definition LedgerObserve ::
  "'sk prims \<Rightarrow> 'r redis \<Rightarrow> wire_codec \<Rightarrow> ban_ledger \<times> 'r \<Rightarrow> string \<Rightarrow> int \<Rightarrow> int \<Rightarrow> (ban_ledger \<times> 'r) \<times> ban_entry option \<times> int" where
  "LedgerObserve P rdo cdc lr key now now2 =
     (case lr of (l, r) \<Rightarrow>
       case BanObserve (redisOps rdo) (withRedis (blocal l) r) key now now2 of
         (s, e, level) \<Rightarrow>
           (case dropRedis s of (s', r') \<Rightarrow>
             let l' = l\<lparr>blocal := s'\<rparr>
             in case e of
                  None \<Rightarrow> ((l', r'), None, level)
                | Some entry \<Rightarrow> ((l', writeBan P rdo cdc l' r' key entry now), Some entry, level)))"

definition LedgerObserveRate :: "'r redis \<Rightarrow> ban_ledger \<times> 'r \<Rightarrow> string \<Rightarrow> int \<Rightarrow> (ban_ledger \<times> 'r) \<times> int" where
  "LedgerObserveRate rdo lr key now =
     (case lr of (l, r) \<Rightarrow>
       case ObserveRate (redisOps rdo) (withRedis (blocal l) r) key now of
         (s, level) \<Rightarrow> (case dropRedis s of (s', r') \<Rightarrow> ((l\<lparr>blocal := s'\<rparr>, r'), level)))"

definition LedgerConfigureRate :: "'r redis \<Rightarrow> ban_ledger \<times> 'r \<Rightarrow> int \<Rightarrow> int \<Rightarrow> int \<Rightarrow> ban_ledger \<times> 'r" where
  "LedgerConfigureRate rdo lr w a b =
     (case lr of (l, r) \<Rightarrow>
       case dropRedis (ConfigureRate (redisOps rdo) (withRedis (blocal l) r) w a b) of
         (s', r') \<Rightarrow> (l\<lparr>blocal := s'\<rparr>, r'))"

definition LedgerAdd ::
  "'sk prims \<Rightarrow> 'r redis \<Rightarrow> wire_codec \<Rightarrow> ban_ledger \<times> 'r \<Rightarrow> string \<Rightarrow> string \<Rightarrow> string \<Rightarrow> string \<Rightarrow> int \<Rightarrow> int \<Rightarrow>
   (ban_ledger \<times> 'r) \<times> ban_entry" where
  "LedgerAdd P rdo cdc lr key reason who incident dur now =
     (case lr of (l, r) \<Rightarrow>
       case Add (blocal l) key reason who incident dur now of
         (s, entry) \<Rightarrow>
           let l' = l\<lparr>blocal := s\<rparr> in ((l', writeBan P rdo cdc l' r key entry now), entry))"

definition LedgerLift :: "'r redis \<Rightarrow> ban_ledger \<times> 'r \<Rightarrow> string \<Rightarrow> int \<Rightarrow> (ban_ledger \<times> 'r) \<times> bool" where
  "LedgerLift rdo lr key now =
     (case lr of (l, r) \<Rightarrow>
       case Lift (blocal l) key of
         (s, lifted) \<Rightarrow>
           ((l\<lparr>blocal := s, liftEpoch := (liftEpoch l)(key \<mapsto> now)\<rparr>,
             fst (rdo r [''DEL'', redisBanPrefix @ key])), lifted))"

section \<open>Listing\<close>

definition scanMaxRounds :: nat where "scanMaxRounds = 4096"
definition scanMaxKeys :: nat where "scanMaxKeys = 65536"

fun addKeys :: "string list \<Rightarrow> reply list \<Rightarrow> string list \<times> bool" where
  "addKeys keys [] = (keys, False)"
| "addKeys keys (k # ks) =
     (let keys' = keys @ [RStr k]
      in if scanMaxKeys \<le> length keys' then (keys', True) else addKeys keys' ks)"

text \<open>The loop of \<open>scanBanKeys\<close>; the first argument is the number of rounds left.\<close>

fun scanLoop :: "nat \<Rightarrow> 'r redis \<Rightarrow> 'r \<Rightarrow> string \<Rightarrow> string set \<Rightarrow> string list \<Rightarrow> 'r \<times> string list" where
  "scanLoop 0 rdo r cursor seen keys = (r, keys)"
| "scanLoop (Suc n) rdo r cursor seen keys =
     (case rdo r [''SCAN'', cursor, ''MATCH'', redisBanPrefix @ ''*'', ''COUNT'', ''256''] of
        (r', Inl err) \<Rightarrow> (r', keys)
      | (r', Inr rep) \<Rightarrow>
          if length (RArray rep) \<noteq> 2 then (r', keys)
          else let cursor' = RStr (RArray rep ! 0)
          in case addKeys keys (RArray (RArray rep ! 1)) of
               (keys', True) \<Rightarrow> (r', keys')
             | (keys', False) \<Rightarrow>
                 if cursor' = ''0'' then (r', keys')
                 else if cursor' \<in> seen then (r', keys')
                 else scanLoop n rdo r' cursor' (insert cursor' seen) keys')"

definition scanBanKeys :: "'r redis \<Rightarrow> 'r \<Rightarrow> 'r \<times> string list" where
  "scanBanKeys rdo r = scanLoop scanMaxRounds rdo r ''0'' {} []"

text \<open>The bans read back for the scanned keys; \<open>None\<close> when a read fails (outage in the middle).\<close>

fun listShared ::
  "'sk prims \<Rightarrow> 'r redis \<Rightarrow> wire_codec \<Rightarrow> bytes \<Rightarrow> int \<Rightarrow> 'r \<Rightarrow> string list \<Rightarrow> 'r \<times> ban_entry list option" where
  "listShared P rdo cdc key now r [] = (r, Some [])"
| "listShared P rdo cdc key now r (k # ks) =
     (case rdo r [''GET'', k] of
        (r', Inl err) \<Rightarrow> (r', None)
      | (r', Inr rep) \<Rightarrow>
          let found = (if RNil rep then []
                       else case openValue P key k (RStr rep) of
                              None \<Rightarrow> []
                            | Some payload \<Rightarrow>
                                (case decBan cdc payload of
                                   None \<Rightarrow> []
                                 | Some b \<Rightarrow> if \<not> active b now \<or> redisBanPrefix @ BKey b \<noteq> k then [] else [b]))
          in case listShared P rdo cdc key now r' ks of
               (r'', None) \<Rightarrow> (r'', None)
             | (r'', Some bs) \<Rightarrow> (r'', Some (found @ bs)))"

definition LedgerList ::
  "'sk prims \<Rightarrow> 'r redis \<Rightarrow> wire_codec \<Rightarrow> ban_ledger \<times> 'r \<Rightarrow> int \<Rightarrow> string list \<Rightarrow> (ban_ledger \<times> 'r) \<times> ban_entry list" where
  "LedgerList P rdo cdc lr now order =
     (case lr of (l, r) \<Rightarrow>
       case scanBanKeys rdo r of
         (r1, ks) \<Rightarrow>
           (case BanList (blocal l) now order of
              (s, locals) \<Rightarrow>
                (case listShared P rdo cdc (bsign l) now r1 ks of
                   (r2, None) \<Rightarrow> ((l\<lparr>blocal := s\<rparr>, r2), locals)
                 | (r2, Some shared) \<Rightarrow>
                     ((l\<lparr>blocal := s\<rparr>, r2),
                      shared @ filter (\<lambda>b. BKey b \<notin> BKey ` set shared) locals))))"

section \<open>The scan is bounded\<close>

lemma addKeys_bound: "length keys < scanMaxKeys \<Longrightarrow> addKeys keys ks = (keys', full) \<Longrightarrow>
  length keys' \<le> scanMaxKeys \<and> (\<not> full \<longrightarrow> length keys' < scanMaxKeys)"
  by (induction keys ks rule: addKeys.induct) (auto simp: Let_def split: if_splits)

lemma scanLoop_bound:
  assumes "\<forall>r args. work (fst (rdo r args)) \<le> work r + (1 :: nat)" and "length keys < scanMaxKeys"
  shows "length (snd (scanLoop n rdo r cursor seen keys)) \<le> scanMaxKeys
       \<and> work (fst (scanLoop n rdo r cursor seen keys)) \<le> work r + n"
  using assms(2)
proof (induction n arbitrary: r cursor seen keys)
  case (Suc n)
  let ?args = "[''SCAN'', cursor, ''MATCH'', redisBanPrefix @ ''*'', ''COUNT'', ''256'']"
  obtain r' out where do: "rdo r ?args = (r', out)" by fastforce
  then have w: "work r' \<le> work r + 1" using assms(1) by (metis fst_conv)
  show ?case
  proof (cases out)
    case (Inr rep)
    obtain keys' full where k: "addKeys keys (RArray (RArray rep ! 1)) = (keys', full)" by fastforce
    note b = addKeys_bound [OF Suc.prems k]
    consider "length (RArray rep) \<noteq> 2" | "full" "length (RArray rep) = 2"
      | "\<not> full" "length (RArray rep) = 2" by blast
    then show ?thesis
    proof cases
      case 3
      then have len: "length keys' < scanMaxKeys" using b by simp
      show ?thesis
        using Suc.IH [OF len, of r' "RStr (RArray rep ! 0)" "insert (RStr (RArray rep ! 0)) seen"]
          3 do Inr k len w by (simp add: Let_def)
    qed (use do Inr k b w Suc.prems in \<open>auto simp: Let_def\<close>)
  qed (use do w Suc.prems in auto)
qed simp

text \<open>
  C27. However the coordinator answers, listing the ban keys ends after at most
  \<open>scanMaxRounds\<close> commands and returns at most \<open>scanMaxKeys\<close> keys: \<open>work\<close> may be any measure that one
  command raises by at most one.
\<close>

theorem scan_bounded:
  fixes work :: "'r \<Rightarrow> nat"
  assumes "\<forall>r args. work (fst (rdo r args)) \<le> work r + 1"
  shows "length (snd (scanBanKeys rdo r)) \<le> scanMaxKeys
       \<and> work (fst (scanBanKeys rdo r)) \<le> work r + scanMaxRounds"
  using scanLoop_bound [OF assms, of "[]" scanMaxRounds r "''0''" "{}"]
  by (simp add: scanBanKeys_def scanMaxKeys_def)

text \<open>A coordinator that never ends the scan and always sends another cursor and another key.\<close>

definition endlessScan :: "nat redis" where
  "endlessScan r args =
     (Suc r, Inr (Reply 0 [] [Reply 0 (''c'' @ decNat r) [] False,
                              Reply 0 [] [Reply 0 (redisBanPrefix @ decNat r) [] False] False] False))"

theorem scan_bounded_witness:
  "length (snd (scanBanKeys endlessScan 0)) \<le> 65536 \<and> fst (scanBanKeys endlessScan 0) \<le> 4096"
  using scan_bounded [of "\<lambda>n. n" endlessScan 0]
  by (simp add: endlessScan_def scanMaxKeys_def scanMaxRounds_def)

section \<open>A lifted ban stays lifted\<close>

text \<open>
  \<open>afterLift P cdc rdo key t0 l\<close>: the ledger \<open>l\<close> of a node is reached from a lift of \<open>key\<close> at \<open>t0\<close> by
  any operations at later times. Redis is in the hands of an adversary: before every operation its state
  is arbitrary. Sweeps happen within \<open>liftEpochTTL\<close> of the lift.
\<close>

inductive afterLift :: "'sk prims \<Rightarrow> wire_codec \<Rightarrow> 'r redis \<Rightarrow> string \<Rightarrow> int \<Rightarrow> ban_ledger \<Rightarrow> bool"
  for P cdc rdo key t0 where
  alLift: "afterLift P cdc rdo key t0 (fst (fst (LedgerLift rdo (l, r) key t0)))"
| alCheck: "afterLift P cdc rdo key t0 l \<Longrightarrow>
    afterLift P cdc rdo key t0 (fst (fst (LedgerCheck P rdo cdc (l, r) k now)))"
| alObserve: "afterLift P cdc rdo key t0 l \<Longrightarrow> t0 < now \<Longrightarrow>
    afterLift P cdc rdo key t0 (fst (fst (LedgerObserve P rdo cdc (l, r) k now now2)))"
| alRate: "afterLift P cdc rdo key t0 l \<Longrightarrow>
    afterLift P cdc rdo key t0 (fst (fst (LedgerObserveRate rdo (l, r) k now)))"
| alConfigure: "afterLift P cdc rdo key t0 l \<Longrightarrow>
    afterLift P cdc rdo key t0 (fst (LedgerConfigureRate rdo (l, r) w a b))"
| alAdd: "afterLift P cdc rdo key t0 l \<Longrightarrow> t0 < now \<Longrightarrow>
    afterLift P cdc rdo key t0 (fst (fst (LedgerAdd P rdo cdc (l, r) k reason who inc dur now)))"
| alLiftOther: "afterLift P cdc rdo key t0 l \<Longrightarrow> t0 \<le> now \<Longrightarrow>
    afterLift P cdc rdo key t0 (fst (fst (LedgerLift rdo (l, r) k now)))"
| alGC: "afterLift P cdc rdo key t0 l \<Longrightarrow> now - t0 \<le> liftEpochTTL \<Longrightarrow>
    afterLift P cdc rdo key t0 (fst (LedgerGC rdo (l, r) now order))"
| alList: "afterLift P cdc rdo key t0 l \<Longrightarrow>
    afterLift P cdc rdo key t0 (fst (fst (LedgerList P rdo cdc (l, r) now order)))"

definition liftKept :: "string \<Rightarrow> int \<Rightarrow> ban_ledger \<Rightarrow> bool" where
  "liftKept key t0 l \<longleftrightarrow>
     (\<exists>t. liftEpoch l key = Some t \<and> t0 \<le> t) \<and> (\<forall>b. bans (blocal l) key = Some b \<longrightarrow> t0 < BCreated b)"

lemma bans_dropRedis [simp]: "bans (fst (dropRedis s)) = bans s"
  by (simp add: dropRedis_def)

lemma bans_withRedis [simp]: "bans (withRedis s r) = bans s"
  by (simp add: withRedis_def)

lemma bans_Check: "bans (fst (Check s k now)) key = Some b \<Longrightarrow> bans s key = Some b"
  by (auto simp: Check_def split: option.splits if_splits)

lemma sweepBans_Some: "sweepBans m now key = Some b \<Longrightarrow> m key = Some b"
  by (auto simp: sweepBans_def split: option.splits if_splits)

lemma applyLocked_created: "BCreated (snd (applyLocked s k r src who i d st now)) = now"
  by (simp add: applyLocked_def Let_def)

lemma bans_BanObserve:
  assumes "bans (fst (BanObserve ops s k now now2)) key = Some b"
  shows "bans s key = Some b \<or> BCreated b = now"
proof -
  have "BCreated (snd (strikeAndBan s' k now)) = now" for s' :: "'a ban_store"
    by (simp add: strikeAndBan_def applyLocked_created Let_def)
  then show ?thesis using assms by (cases rule: BanObserve_cases [of ops s k now2 now]) (auto split: if_splits)
qed

lemma liftKept_local:
  assumes "liftKept key t0 l" and "liftEpoch l' key = liftEpoch l key"
    and "\<And>b. bans (blocal l') key = Some b \<Longrightarrow> bans (blocal l) key = Some b \<or> t0 < BCreated b"
  shows "liftKept key t0 l'"
  using assms unfolding liftKept_def by metis

lemma LedgerCheck_ledger:
  "fst (fst (LedgerCheck P rdo cdc (l, r) k now)) = l
   \<or> fst (fst (LedgerCheck P rdo cdc (l, r) k now)) = l\<lparr>blocal := fst (Check (blocal l) k now)\<rparr>"
  by (auto simp: LedgerCheck_def localCheck_def split: prod.splits sum.splits option.splits)

lemma afterLift_kept: "afterLift P cdc rdo key t0 l \<Longrightarrow> liftKept key t0 l"
proof (induction rule: afterLift.induct)
  case (alCheck l r k now)
  then show ?case
    using LedgerCheck_ledger [of P rdo cdc l r k now]
    by (auto intro!: liftKept_local [of key t0 l] dest: bans_Check)
next
  case (alObserve l now r k now2)
  have "blocal (fst (fst (LedgerObserve P rdo cdc (l, r) k now now2))) =
      fst (dropRedis (fst (BanObserve (redisOps rdo) (withRedis (blocal l) r) k now now2)))"
    and "liftEpoch (fst (fst (LedgerObserve P rdo cdc (l, r) k now now2))) = liftEpoch l"
    by (auto simp: LedgerObserve_def Let_def split: prod.splits option.splits)
  then show ?case
    using alObserve bans_BanObserve [of "redisOps rdo" "withRedis (blocal l) r" k now now2 key]
    by (auto intro!: liftKept_local [of key t0 l])
next
  case (alRate l r k now)
  have "blocal (fst (fst (LedgerObserveRate rdo (l, r) k now))) =
      fst (dropRedis (fst (ObserveRate (redisOps rdo) (withRedis (blocal l) r) k now)))"
    and "liftEpoch (fst (fst (LedgerObserveRate rdo (l, r) k now))) = liftEpoch l"
    by (auto simp: LedgerObserveRate_def split: prod.splits)
  then show ?case using alRate by (auto intro!: liftKept_local [of key t0 l])
next
  case (alAdd l now r k reason who inc dur)
  have "blocal (fst (fst (LedgerAdd P rdo cdc (l, r) k reason who inc dur now))) =
      fst (applyLocked (blocal l) k reason ''manual'' who inc dur 0 now)"
    and "liftEpoch (fst (fst (LedgerAdd P rdo cdc (l, r) k reason who inc dur now))) = liftEpoch l"
    by (auto simp: LedgerAdd_def Add_def Let_def split: prod.splits)
  then show ?case
    using alAdd by (auto simp: applyLocked_created intro!: liftKept_local [of key t0 l] split: if_splits)
next
  case (alGC l now r order)
  then show ?case
    by (auto simp: LedgerGC_def BanGC_def liftKept_def timeSub_def dropRedis_def withRedis_def liftEpochTTL_def
        hourNs_def dest: sweepBans_Some)
next
  case (alList l r now order)
  have "blocal (fst (fst (LedgerList P rdo cdc (l, r) now order))) = fst (BanList (blocal l) now order)"
    and "liftEpoch (fst (fst (LedgerList P rdo cdc (l, r) now order))) = liftEpoch l"
    by (auto simp: LedgerList_def split: prod.splits option.splits)
  then show ?case
    using alList by (auto simp: BanList_def intro!: liftKept_local [of key t0 l] dest: sweepBans_Some)
qed (auto simp: LedgerLift_def Lift_def LedgerConfigureRate_def ConfigureRate_def
      liftKept_def dropRedis_def withRedis_def)

text \<open>
  C26. For as long as a node remembers that an operator lifted a ban on it, a check on
  that node reports no ban of the key created before the lift, whatever a compromised coordinator serves, replays of
  authentically sealed bans included; bans created after the lift are still honoured.  The lift is remembered
  through any operations of the node whose sweeps run within \<open>liftEpochTTL\<close> (30 days) of it: a later sweep forgets it.
  The claim is about \<open>Check\<close>, which the gates ask; the listing for operators may still show a replayed ban.
\<close>

theorem lift_not_resurrected:
  assumes "afterLift P cdc rdo key t0 l" and "snd (LedgerCheck P rdo cdc (l, r) key now) = Some b"
  shows "t0 < BCreated b"
proof -
  obtain t where t: "liftEpoch l key = Some t" "t0 \<le> t"
    and loc: "\<forall>b. bans (blocal l) key = Some b \<longrightarrow> t0 < BCreated b"
    using afterLift_kept [OF assms(1)] by (auto simp: liftKept_def)
  have "snd (localCheck l r' key now) = Some b \<Longrightarrow> t0 < BCreated b" for r' :: 'b
    using loc by (auto simp: localCheck_def Check_def split: prod.splits option.splits if_splits)
  then show ?thesis
    using assms(2) t by (auto simp: LedgerCheck_def split: prod.splits sum.splits option.splits if_splits)
qed

text \<open>A coordinator that answers every command with the value kept in its state, and a small codec.\<close>

definition replayRedis :: "string redis" where
  "replayRedis r args = (r, Inr (Reply 0 r [] False))"

definition exBan :: "int \<Rightarrow> ban_entry" where
  "exBan t = \<lparr>BKey = ''k'', BReason = [], BSource = ''manual'', BBy = [], BIncident = [], BCreated = t,
              BUntil = zeroTime, BStrike = 0\<rparr>"

definition exVerdict :: "string \<Rightarrow> int \<Rightarrow> sticky_verdict" where
  "exVerdict v t = \<lparr>verdict = v, risk = 0, rule = [], top = [], updated = t\<rparr>"

definition exCodec :: wire_codec where
  "exCodec = \<lparr>encVerdict = (\<lambda>v. Some (formatInt (updated v))),
              decVerdict = (\<lambda>s. Some (exVerdict VerdictAllow (exInt s))),
              encBan = (\<lambda>b. Some (formatInt (BCreated b))),
              decBan = (\<lambda>s. Some (exBan (exInt s)))\<rparr>"

lemma openValue_sealValue [simp]: "openValue P key ctx (sealValue P key ctx p) = Some p"
  using splitLast_append [OF NUL_notin_hexEncode] by (simp add: openValue_def sealValue_def)

lemmas exCodec_simps =
  exCodec_def exBan_def exVerdict_def exInt_formatInt replayRedis_def

theorem lift_not_resurrected_witness:
  "let l = fst (fst (LedgerLift replayRedis (NewRedisBanLedger 10 2 3 ''key'', []) ''k'' 50));
       sealed = (\<lambda>t. sealValue toyPrims ''key'' (redisBanPrefix @ ''k'') (formatInt t))
   in snd (LedgerCheck toyPrims replayRedis exCodec (l, sealed 40) ''k'' 60) = None
    \<and> snd (LedgerCheck toyPrims replayRedis exCodec (l, sealed 55) ''k'' 60) = Some (exBan 55)
    \<and> 50 < BCreated (exBan 55)"
proof -
  let ?l = "fst (fst (LedgerLift replayRedis (NewRedisBanLedger 10 2 3 ''key'', []) ''k'' 50))"
  have al: "afterLift toyPrims exCodec replayRedis ''k'' 50 ?l" by (rule alLift)
  have "snd (LedgerCheck toyPrims replayRedis exCodec
      (?l, sealValue toyPrims ''key'' (redisBanPrefix @ ''k'') (formatInt t)) ''k'' 60) =
      (if 50 < t then Some (exBan t) else None)" for t
    by (simp add: LedgerCheck_def exCodec_simps NewRedisBanLedger_def LedgerLift_def Lift_def
        active_def Permanent_def localCheck_def Check_def NewBanStoreWithLimiter_def Let_def)
  then show ?thesis
    using lift_not_resurrected [OF al, of "sealValue toyPrims ''key'' (redisBanPrefix @ ''k'') (formatInt 55)" 60 "exBan 55"]
    by (simp add: Let_def)
qed

section \<open>Two gaps\<close>

text \<open>
  A node that has just recorded a newer verdict for a session
  itself, without having read it back, accepts an older one replayed by the coordinator: \<open>Set\<close> does not
  move the high-water mark.
\<close>

theorem verdict_rollback_after_set:
  assumes "hwm l sid = None" and "decVerdict cdc p = Some old" and "updated old < updated new"
    and "timeSub now (updated old) \<le> vlttl l" and "RNil rep = False"
    and "rdo r1 [''GET'', redisVerdictPrefix @ sid] = (r2, Inr rep)"
    and "RStr rep = sealValue P (vsign l) (redisVerdictPrefix @ sid) p"
  shows "snd (LedgerGet P rdo cdc (fst (LedgerSet P rdo cdc (l, r) sid new), r1) sid now) = old"
proof -
  have "hwm (fst (LedgerSet P rdo cdc (l, r) sid new)) = hwm l"
    "vsign (fst (LedgerSet P rdo cdc (l, r) sid new)) = vsign l"
    "vlttl (fst (LedgerSet P rdo cdc (l, r) sid new)) = vlttl l"
    by (auto simp: LedgerSet_def Let_def split: option.splits)
  then show ?thesis using assms by (simp add: LedgerGet_def)
qed

theorem verdict_rollback_after_set_witness:
  "verdict (snd (LedgerGet toyPrims replayRedis exCodec
     (fst (LedgerSet toyPrims replayRedis exCodec (NewRedisVerdictLedger 1000 ''key'', []) ''s'' (exVerdict VerdictDeny 20)),
      sealValue toyPrims ''key'' (redisVerdictPrefix @ ''s'') (formatInt 10)) ''s'' 30)) = VerdictAllow"
  using verdict_rollback_after_set [of "NewRedisVerdictLedger 1000 ''key''" "''s''" exCodec "formatInt 10"
      "exVerdict VerdictAllow 10" "exVerdict VerdictDeny 20" 30
      "Reply 0 (sealValue toyPrims ''key'' (redisVerdictPrefix @ ''s'') (formatInt 10)) [] False" replayRedis
      "sealValue toyPrims ''key'' (redisVerdictPrefix @ ''s'') (formatInt 10)"
      "sealValue toyPrims ''key'' (redisVerdictPrefix @ ''s'') (formatInt 10)" toyPrims "[]"]
  by (simp add: exCodec_simps NewRedisVerdictLedger_def timeSub_def)

text \<open>
  A ban recorded while Redis was down is not enforced once Redis answers again: \<open>Check\<close> takes the
  absence of the key in Redis as authoritative, although \<open>List\<close> still reports the ban.
\<close>

lemma outage_ban_not_enforced:
  assumes "rdo r' [''GET'', redisBanPrefix @ key] = (r'', Inr (Reply 0 [] [] True))"
  shows "snd (LedgerCheck P rdo cdc
      (fst (fst (LedgerAdd P outage cdc (l, r) key reason who inc 0 now)), r') key now) = None"
    and "bans (blocal (fst (fst (LedgerAdd P outage cdc (l, r) key reason who inc 0 now)))) key \<noteq> None"
  using assms by (simp_all add: LedgerCheck_def LedgerAdd_def Add_def Let_def split: prod.splits)
    (metis bans_applyLocked fst_conv option.distinct(1))

end
