(* ===== verification/Base64.thy ===== *)
theory Base64
  imports GoLib
begin

text \<open>
  Go's \<open>base64.RawURLEncoding\<close> (\<open>encoding/base64\<close>: the URL alphabet, no padding). The decoder skips
  carriage returns and line feeds, rejects any other byte outside the alphabet and a last group of one
  character, and ignores the unused low bits of a short last group (the encoding is not strict).
\<close>

definition b64Alphabet :: string where
  "b64Alphabet = ''ABCDEFGHIJKLMNOPQRSTUVWXYZabcdefghijklmnopqrstuvwxyz0123456789-_''"

definition b64Digit :: "nat \<Rightarrow> char" where
  "b64Digit n = b64Alphabet ! n"

fun b64Encode :: "bytes \<Rightarrow> string" where
  "b64Encode [] = []"
| "b64Encode [a] =
     (let x = of_char a :: nat in [b64Digit (x div 4), b64Digit (x mod 4 * 16)])"
| "b64Encode [a, b] =
     (let x = of_char a :: nat; y = of_char b :: nat
      in [b64Digit (x div 4), b64Digit (x mod 4 * 16 + y div 16), b64Digit (y mod 16 * 4)])"
| "b64Encode (a # b # c # cs) =
     (let x = of_char a :: nat; y = of_char b :: nat; z = of_char c :: nat
      in b64Digit (x div 4) # b64Digit (x mod 4 * 16 + y div 16) # b64Digit (y mod 16 * 4 + z div 64)
         # b64Digit (z mod 64) # b64Encode cs)"

definition b64Value :: "char \<Rightarrow> nat option" where
  "b64Value c =
     (let n = of_char c :: nat
      in if 65 \<le> n \<and> n \<le> 90 then Some (n - 65)
         else if 97 \<le> n \<and> n \<le> 122 then Some (n - 71)
         else if 48 \<le> n \<and> n \<le> 57 then Some (n + 4)
         else if n = 45 then Some 62
         else if n = 95 then Some 63
         else None)"

fun b64Groups :: "nat list \<Rightarrow> bytes option" where
  "b64Groups [] = Some []"
| "b64Groups [p] = None"
| "b64Groups [p, q] = Some [char_of (p * 4 + q div 16)]"
| "b64Groups [p, q, r] = Some [char_of (p * 4 + q div 16), char_of (q mod 16 * 16 + r div 4)]"
| "b64Groups (p # q # r # s # rest) =
     (case b64Groups rest of
        None \<Rightarrow> None
      | Some bs \<Rightarrow>
          Some (char_of (p * 4 + q div 16) # char_of (q mod 16 * 16 + r div 4) # char_of (r mod 4 * 64 + s) # bs))"

definition isNewline :: "char \<Rightarrow> bool" where
  "isNewline c \<longleftrightarrow> c = CHR 0x0D \<or> c = CHR 0x0A"

definition b64Decode :: "string \<Rightarrow> bytes option" where
  "b64Decode s =
     (let ds = map b64Value (filter (\<lambda>c. \<not> isNewline c) s)
      in if None \<in> set ds then None else b64Groups (map the ds))"

lemma b64_digits: "n < 64 \<Longrightarrow> b64Value (b64Digit n) = Some n \<and> \<not> isNewline (b64Digit n)
    \<and> b64Digit n \<noteq> CHR ''.'' \<and> b64Digit n \<noteq> CHR ''|''"
proof -
  have "\<forall>n \<in> {0..<64}. b64Value (b64Digit n) = Some n \<and> \<not> isNewline (b64Digit n)
      \<and> b64Digit n \<noteq> CHR ''.'' \<and> b64Digit n \<noteq> CHR ''|''"
    by (simp add: b64Alphabet_def b64Digit_def b64Value_def isNewline_def atLeastLessThan_nat_numeral
        del: One_nat_def)
  then show "n < 64 \<Longrightarrow> b64Value (b64Digit n) = Some n \<and> \<not> isNewline (b64Digit n)
      \<and> b64Digit n \<noteq> CHR ''.'' \<and> b64Digit n \<noteq> CHR ''|''" by simp
qed

text \<open>The digits of an encoding, from which both directions are read off.\<close>

fun b64Digits :: "bytes \<Rightarrow> nat list" where
  "b64Digits [] = []"
| "b64Digits [a] = (let x = of_char a in [x div 4, x mod 4 * 16])"
| "b64Digits [a, b] = (let x = of_char a; y = of_char b in [x div 4, x mod 4 * 16 + y div 16, y mod 16 * 4])"
| "b64Digits (a # b # c # cs) =
     (let x = of_char a; y = of_char b; z = of_char c
      in (x div 4) # (x mod 4 * 16 + y div 16) # (y mod 16 * 4 + z div 64) # (z mod 64) # b64Digits cs)"

lemma b64Encode_digits: "b64Encode bs = map b64Digit (b64Digits bs)"
  by (induction bs rule: b64Encode.induct) (simp_all add: Let_def)

lemma of_char_lt: "(of_char c :: nat) < 256"
  by (rule nat_of_char_less_256)

lemma char_div_small:
  "(of_char c :: nat) div 4 < 64" "(of_char c :: nat) div 16 < 16" "(of_char c :: nat) div 64 < 4"
  using of_char_lt [of c] by (simp_all add: less_mult_imp_div_less del: nat_of_char_less_256)

lemma b64_range:
  fixes c d :: char
  shows "(of_char c :: nat) mod 4 * 16 < 64" "(of_char c :: nat) mod 4 * 16 + of_char d div 16 < 64"
    "(of_char c :: nat) mod 16 * 4 < 64" "(of_char c :: nat) mod 16 * 4 + of_char d div 64 < 64"
proof -
  have "(of_char c :: nat) mod 4 < 4" "(of_char c :: nat) mod 16 < 16" by simp_all
  then show "(of_char c :: nat) mod 4 * 16 < 64" "(of_char c :: nat) mod 4 * 16 + of_char d div 16 < 64"
    "(of_char c :: nat) mod 16 * 4 < 64" "(of_char c :: nat) mod 16 * 4 + of_char d div 64 < 64"
    using char_div_small [of d] by linarith+
qed

lemma b64Digits_lt: "d \<in> set (b64Digits bs) \<Longrightarrow> d < 64"
  by (induction bs rule: b64Encode.induct) (auto simp: Let_def b64_range char_div_small)

lemma b64_back:
  "(of_char c :: nat) div 16 div 16 = 0" "(of_char c :: nat) div 16 mod 16 = of_char c div 16"
  "(of_char c :: nat) div 64 div 4 = 0" "(of_char c :: nat) div 64 mod 4 = of_char c div 64"
  using char_div_small [of c] by simp_all

lemma b64Groups_digits: "b64Groups (b64Digits bs) = Some bs"
  by (induction bs rule: b64Encode.induct) (simp_all add: Let_def b64_back)

lemma b64Decode_b64Encode [simp]: "b64Decode (b64Encode bs) = Some bs"
proof -
  have f: "filter (\<lambda>c. \<not> isNewline c) (map b64Digit (b64Digits bs)) = map b64Digit (b64Digits bs)"
    using b64_digits b64Digits_lt by (intro filter_True) auto
  have v: "map b64Value (map b64Digit (b64Digits bs)) = map Some (b64Digits bs)"
    using b64_digits b64Digits_lt by (auto intro: map_cong)
  show ?thesis
    unfolding b64Decode_def b64Encode_digits f v Let_def by (simp add: comp_def b64Groups_digits image_iff)
qed

lemma b64Encode_chars:
  "CHR ''.'' \<notin> set (b64Encode bs)" "CHR ''|'' \<notin> set (b64Encode bs)"
  using b64_digits b64Digits_lt by (force simp: b64Encode_digits)+

lemma b64Encode_inject [simp]: "b64Encode a = b64Encode b \<longleftrightarrow> a = b"
  by (metis b64Decode_b64Encode option.inject)

end
