(* ===== verification/Token.thy ===== *)
theory Token
  imports RedisLedger Base64 "HOL-Library.Signed_Division"
begin

text \<open>
  The verdict trust token, the step-up proof and the step-up receipt of \<open>internal/gate/token.go\<close>, the
  single-use nonce cache, the token epochs of \<open>internal/gate/epoch.go\<close> and the origin-cloaking token of
  \<open>pkg/origincloak/origincloak.go\<close>.

  HMAC and hashing are arguments (\<open>prims\<close>). Instants are nanoseconds; \<open>unixOf\<close> is \<open>Time.Unix\<close>. The
  header fields and the address a binding is computed from are fields of a request record.
\<close>

section \<open>Tokens\<close>

definition unixOf :: "int \<Rightarrow> int" where
  "unixOf t = t div 1000000000"

datatype token_reason = TokenOK | TokenBadSig | TokenExpired | TokenBindingMismatch | TokenMalformed

datatype receipt_reason = ReceiptOK | ReceiptBad | ReceiptExpired | ReceiptSIDMismatch

definition tokenMAC :: "'sk prims \<Rightarrow> bytes \<Rightarrow> string \<Rightarrow> bytes" where
  "tokenMAC P key payload = hmacSha P key payload"

definition sealToken :: "'sk prims \<Rightarrow> bytes \<Rightarrow> string \<Rightarrow> string" where
  "sealToken P key payload = b64Encode payload @ ''.'' @ b64Encode (tokenMAC P key payload)"

definition issueVerdictToken :: "'sk prims \<Rightarrow> bytes \<Rightarrow> string \<Rightarrow> string \<Rightarrow> string \<Rightarrow> int \<Rightarrow> string" where
  "issueVerdictToken P key sid bind epoch expiry =
     sealToken P key (sid @ ''|'' @ bind @ ''|'' @ formatInt (unixOf expiry) @ ''|'' @ epoch)"

definition issueStepUpToken :: "'sk prims \<Rightarrow> bytes \<Rightarrow> string \<Rightarrow> string \<Rightarrow> string \<Rightarrow> int \<Rightarrow> string" where
  "issueStepUpToken P key sid bind epoch expiry =
     sealToken P key (''su|'' @ sid @ ''|'' @ bind @ ''|'' @ formatInt (unixOf expiry) @ ''|'' @ epoch)"

definition IssueStepUpReceipt :: "'sk prims \<Rightarrow> bytes \<Rightarrow> string \<Rightarrow> int \<Rightarrow> string" where
  "IssueStepUpReceipt P key sid expiry =
     sealToken P key (''sur|'' @ sid @ ''|'' @ formatInt (unixOf expiry))"

text \<open>\<open>strings.IndexByte\<close>, as the split around the first dot.\<close>

definition splitDot :: "string \<Rightarrow> (string \<times> string) option" where
  "splitDot s = (if CHR ''.'' \<in> set s
                 then Some (takeWhile (\<lambda>c. c \<noteq> CHR ''.'') s, tl (dropWhile (\<lambda>c. c \<noteq> CHR ''.'') s))
                 else None)"

text \<open>
  What the three verifiers share: the payload and the MAC of a token, or the reason to reject it.
  \<open>True\<close> in the error stands for a malformed token, \<open>False\<close> for a bad signature.
\<close>

definition openToken :: "'sk prims \<Rightarrow> bytes \<Rightarrow> string \<Rightarrow> bool + string" where
  "openToken P key token =
     (case splitDot token of
        None \<Rightarrow> Inl True
      | Some (p, m) \<Rightarrow>
          (case (b64Decode p, b64Decode m) of
             (Some payload, Some mac) \<Rightarrow> if mac = tokenMAC P key payload then Inr payload else Inl False
           | _ \<Rightarrow> Inl True))"

text \<open>
  \<open>strconv.ParseInt\<close> with the error ignored: 0 on a syntax error, the nearest bound when out of range.
\<close>

definition parseIntOr :: "string \<Rightarrow> int" where
  "parseIntOr s =
     (let neg = (s \<noteq> [] \<and> hd s = CHR ''-'');
          ds = (if s \<noteq> [] \<and> hd s \<in> {CHR ''+'', CHR ''-''} then tl s else s);
          v = (if neg then - int (decValue ds) else int (decValue ds))
      in if ds = [] \<or> \<not> list_all isDigit ds then 0
         else max (- (2 ^ 63)) (min (2 ^ 63 - 1) v))"

definition verifyVerdictToken ::
  "'sk prims \<Rightarrow> bytes \<Rightarrow> string \<Rightarrow> string \<Rightarrow> string \<Rightarrow> int \<Rightarrow> string list \<Rightarrow> token_reason" where
  "verifyVerdictToken P key token bind expectSID now epochs =
     (case openToken P key token of
        Inl True \<Rightarrow> TokenMalformed
      | Inl False \<Rightarrow> TokenBadSig
      | Inr payload \<Rightarrow>
          let parts = splitOn CHR ''|'' payload
          in if length parts \<noteq> 4 then TokenMalformed
             else if parseIntOr (parts ! 2) < unixOf now then TokenExpired
             else if parts ! 3 \<notin> set epochs then TokenExpired
             else if expectSID \<noteq> [] \<and> parts ! 0 \<noteq> expectSID then TokenBindingMismatch
             else if parts ! 1 \<noteq> bind then TokenBindingMismatch
             else TokenOK)"

definition verifyStepUpToken ::
  "'sk prims \<Rightarrow> bytes \<Rightarrow> string \<Rightarrow> string \<Rightarrow> string \<Rightarrow> int \<Rightarrow> string list \<Rightarrow> token_reason" where
  "verifyStepUpToken P key token bind expectSID now epochs =
     (case openToken P key token of
        Inl True \<Rightarrow> TokenMalformed
      | Inl False \<Rightarrow> TokenBadSig
      | Inr payload \<Rightarrow>
          let parts = splitOn CHR ''|'' payload
          in if length parts \<noteq> 5 \<or> parts ! 0 \<noteq> ''su'' then TokenMalformed
             else if parseIntOr (parts ! 3) < unixOf now then TokenExpired
             else if parts ! 4 \<notin> set epochs then TokenExpired
             else if expectSID \<noteq> [] \<and> parts ! 1 \<noteq> expectSID then TokenBindingMismatch
             else if parts ! 2 \<noteq> bind then TokenBindingMismatch
             else TokenOK)"

definition receiptSkew :: int where
  "receiptSkew = 120000000000"

definition verifyStepUpReceipt :: "'sk prims \<Rightarrow> bytes \<Rightarrow> string \<Rightarrow> string \<Rightarrow> int \<Rightarrow> receipt_reason" where
  "verifyStepUpReceipt P key token expectSID now =
     (case openToken P key token of
        Inl _ \<Rightarrow> ReceiptBad
      | Inr payload \<Rightarrow>
          let parts = splitOn CHR ''|'' payload
          in if length parts \<noteq> 3 \<or> parts ! 0 \<noteq> ''sur'' then ReceiptBad
             else if parseIntOr (parts ! 2) < unixOf (now - receiptSkew) then ReceiptExpired
             else if expectSID = [] \<or> parts ! 1 \<noteq> expectSID then ReceiptSIDMismatch
             else ReceiptOK)"

section \<open>The nonce cache\<close>

record nonce_cache =
  seen :: "(string \<times> int) list"
  nttl :: int
  lastSweep :: int

definition nonceMaxSeen :: nat where
  "nonceMaxSeen = 2 ^ 20"

definition NewNonceCache :: "int \<Rightarrow> nonce_cache" where
  "NewNonceCache ttl = \<lparr>seen = [], nttl = ttl, lastSweep = zeroTime\<rparr>"

definition sweepNonces :: "nonce_cache \<Rightarrow> int \<Rightarrow> nonce_cache" where
  "sweepNonces c now =
     (if nttl c sdiv 4 < timeSub now (lastSweep c) \<or> nonceMaxSeen \<le> length (seen c)
      then c\<lparr>seen := filter (\<lambda>e. \<not> nttl c < timeSub now (snd e)) (seen c), lastSweep := now\<rparr>
      else c)"

definition UseNonce :: "nonce_cache \<Rightarrow> string \<Rightarrow> string \<Rightarrow> int \<Rightarrow> nonce_cache \<times> bool" where
  "UseNonce c nonce bind now =
     (if nonce = [] then (c, True)
      else let c1 = sweepNonces c now
           in if map_of (seen c1) nonce \<noteq> None then (c1, False)
              else if nonceMaxSeen \<le> length (seen c1) then (c1, False)
              else (c1\<lparr>seen := (nonce, now) # seen c1\<rparr>, True))"

section \<open>Token epochs\<close>

definition tokenEpochWindow :: int where
  "tokenEpochWindow = 15 * 60"

record epoch_manager =
  bump :: int

definition NewEpochManager :: epoch_manager where
  "NewEpochManager = \<lparr>bump = 0\<rparr>"

definition orDefaultEpochs :: "epoch_manager option \<Rightarrow> epoch_manager" where
  "orDefaultEpochs em = (case em of Some e \<Rightarrow> e | None \<Rightarrow> NewEpochManager)"

definition epochAt :: "epoch_manager \<Rightarrow> int \<Rightarrow> int \<Rightarrow> string" where
  "epochAt e now offset = ''e'' @ formatInt (unixOf now sdiv tokenEpochWindow + bump e + offset)"

definition CurrentEpoch :: "epoch_manager \<Rightarrow> int \<Rightarrow> string" where
  "CurrentEpoch e now = epochAt e now 0"

definition AcceptedEpochs :: "epoch_manager \<Rightarrow> int \<Rightarrow> string list" where
  "AcceptedEpochs e now = [epochAt e now 0, epochAt e now (- 1)]"

definition Advance :: "epoch_manager \<Rightarrow> epoch_manager" where
  "Advance e = e\<lparr>bump := bump e + 1\<rparr>"

section \<open>Origin cloaking\<close>

definition EpochWindow :: int where
  "EpochWindow = hourNs"

definition Epoch :: "int \<Rightarrow> string" where
  "Epoch t = ''e'' @ formatInt (unixOf t sdiv 3600)"

definition EpochGrace :: "int \<Rightarrow> string list" where
  "EpochGrace t = [Epoch (t + EpochWindow), Epoch t, Epoch (t - EpochWindow)]"

definition originToken :: "'sk prims \<Rightarrow> bytes \<Rightarrow> string \<Rightarrow> string" where
  "originToken P key epoch = hexEncode (hmacSha P key (''hmny-origin|'' @ epoch))"

definition ValidAt :: "'sk prims \<Rightarrow> bytes \<Rightarrow> string \<Rightarrow> string list \<Rightarrow> bool" where
  "ValidAt P key header epochs \<longleftrightarrow> header \<noteq> [] \<and> (\<exists>e \<in> set epochs. header = originToken P key e)"

definition Valid :: "'sk prims \<Rightarrow> bytes \<Rightarrow> string \<Rightarrow> int \<Rightarrow> bool" where
  "Valid P key header t \<longleftrightarrow> ValidAt P key header (EpochGrace t)"

definition originAuth :: "'sk prims \<Rightarrow> bytes \<Rightarrow> string \<Rightarrow> string" where
  "originAuth P key epoch = originToken P key epoch"

section \<open>Opening what was issued\<close>

lemma splitDot_append: "CHR ''.'' \<notin> set a \<Longrightarrow> splitDot (a @ CHR ''.'' # b) = Some (a, b)"
  by (induction a) (auto simp: splitDot_def)

lemma openToken_sealToken [simp]: "openToken P key (sealToken P key payload) = Inr payload"
  using splitDot_append [OF b64Encode_chars(1)] by (simp add: openToken_def sealToken_def)

lemma parseIntOr_formatInt:
  assumes "- (2 ^ 63) \<le> i" and "i < 2 ^ 63"
  shows "parseIntOr (formatInt i) = i"
proof -
  have nd: "hd (decNat n) \<notin> {CHR ''+'', CHR ''-''}" for n
    using isDigit_hd_decNat [of n] by (auto simp: isDigit_def)
  show ?thesis
    using assms nd [of "nat i"] nd [of "nat (- i)"]
    by (auto simp: parseIntOr_def formatInt_def Let_def list_all_isDigit_decNat)
qed

lemma bar_notin_formatInt: "CHR ''|'' \<notin> set (formatInt i)"
  using list_all_isDigit_decNat [of "nat i"] list_all_isDigit_decNat [of "nat (- i)"]
  by (auto simp: formatInt_def list_all_iff isDigit_def)

lemmas split_payload = splitOn_append_sep splitOn_no_sep bar_notin_formatInt

text \<open>
  C28. What a verifier says about a token it issued: accepted exactly for the
  fingerprint and session it was minted for, until it expires and while its epoch is in the accepted
  window; a token lifted to another fingerprint or session is a binding mismatch. The parts of the token
  contain no separator.
\<close>

theorem verdict_token_exact:
  assumes "CHR ''|'' \<notin> set sid" and "CHR ''|'' \<notin> set bind" and "CHR ''|'' \<notin> set epoch"
    and "0 \<le> unixOf expiry" and "unixOf expiry < 2 ^ 63"
  shows "verifyVerdictToken P key (issueVerdictToken P key sid bind epoch expiry) bind' sid' now epochs =
     (if unixOf expiry < unixOf now \<or> epoch \<notin> set epochs then TokenExpired
      else if sid' \<noteq> [] \<and> sid' \<noteq> sid \<or> bind' \<noteq> bind then TokenBindingMismatch
      else TokenOK)"
proof -
  have "splitOn CHR ''|'' (sid @ ''|'' @ bind @ ''|'' @ formatInt (unixOf expiry) @ ''|'' @ epoch)
      = [sid, bind, formatInt (unixOf expiry), epoch]"
    using assms by (simp add: split_payload)
  then show ?thesis
    using assms(4,5)
    by (auto simp: verifyVerdictToken_def issueVerdictToken_def parseIntOr_formatInt Let_def)
qed

theorem verdict_token_exact_witness:
  "verifyVerdictToken toyPrims ''k'' (issueVerdictToken toyPrims ''k'' ''s'' ''b'' ''e1'' (60 * 1000000000)) ''b'' ''s''
     (30 * 1000000000) [''e1'', ''e0''] = TokenOK
   \<and> verifyVerdictToken toyPrims ''k'' (issueVerdictToken toyPrims ''k'' ''s'' ''b'' ''e1'' (60 * 1000000000)) ''bot'' ''s''
     (30 * 1000000000) [''e1'', ''e0''] = TokenBindingMismatch"
  using verdict_token_exact [of "''s''" "''b''" "''e1''" "60 * 1000000000" toyPrims "''k''"]
  by (simp add: unixOf_def)

text \<open>
  The session id of a verdict token is the client's cookie and is not
  checked for separators: the verdict token minted for the session \<open>su|s\<close> is, byte for byte, the
  step-up proof of the session \<open>s\<close>, and the step-up verifier accepts it.
\<close>

theorem stepup_domain_confusion:
  assumes "CHR ''|'' \<notin> set sid" and "CHR ''|'' \<notin> set bind" and "CHR ''|'' \<notin> set epoch"
    and "0 \<le> unixOf expiry" and "unixOf expiry < 2 ^ 63" and "unixOf now \<le> unixOf expiry" and "epoch \<in> set epochs"
  shows "issueVerdictToken P key (''su|'' @ sid) bind epoch expiry = issueStepUpToken P key sid bind epoch expiry
    \<and> verifyStepUpToken P key (issueVerdictToken P key (''su|'' @ sid) bind epoch expiry) bind sid now epochs = TokenOK"
proof -
  have eq: "issueVerdictToken P key (''su|'' @ sid) bind epoch expiry = issueStepUpToken P key sid bind epoch expiry"
    by (simp add: issueVerdictToken_def issueStepUpToken_def)
  have "splitOn CHR ''|'' (''su|'' @ sid @ ''|'' @ bind @ ''|'' @ formatInt (unixOf expiry) @ ''|'' @ epoch)
      = [''su'', sid, bind, formatInt (unixOf expiry), epoch]"
    using assms splitOn_append_sep [of "CHR ''|''" "''su''"] by (simp add: split_payload)
  then show ?thesis
    unfolding eq using assms(4-7)
    by (simp add: verifyStepUpToken_def issueStepUpToken_def parseIntOr_formatInt Let_def)
qed

theorem stepup_domain_confusion_witness:
  "verifyStepUpToken toyPrims ''k'' (issueVerdictToken toyPrims ''k'' ''su|s'' ''b'' ''e1'' (60 * 1000000000)) ''b'' ''s''
     (30 * 1000000000) [''e1'', ''e0''] = TokenOK"
  using stepup_domain_confusion [of "''s''" "''b''" "''e1''" "60 * 1000000000" "30 * 1000000000" "[''e1'', ''e0'']"
      toyPrims "''k''"]
  by (auto simp: unixOf_def)

section \<open>Nonces are single-use\<close>

lemma timeSub_le: "a - b \<le> d \<Longrightarrow> 0 \<le> d \<Longrightarrow> \<not> d < timeSub a b"
  by (auto simp: timeSub_def)

definition usesNonces :: "nonce_cache \<Rightarrow> (string \<times> string \<times> int) list \<Rightarrow> nonce_cache" where
  "usesNonces c us = foldl (\<lambda>c u. fst (UseNonce c (fst u) (fst (snd u)) (snd (snd u)))) c us"

lemma nttl_UseNonce [simp]: "nttl (fst (UseNonce c n b now)) = nttl c"
  by (simp add: UseNonce_def sweepNonces_def Let_def)

lemma UseNonce_keeps:
  assumes "(n, t) \<in> set (seen c)" and "now - t \<le> nttl c" and "0 \<le> nttl c"
  shows "(n, t) \<in> set (seen (fst (UseNonce c m b now)))"
  using assms timeSub_le [OF assms(2,3)] by (auto simp: UseNonce_def sweepNonces_def Let_def)

lemma UseNonce_accepts:
  assumes "snd (UseNonce c n b now)" and "n \<noteq> []"
  shows "(n, now) \<in> set (seen (fst (UseNonce c n b now)))"
  using assms by (auto simp: UseNonce_def Let_def split: if_splits)

lemma UseNonce_rejects:
  assumes "(n, t) \<in> set (seen c)" and "now - t \<le> nttl c" and "0 \<le> nttl c" and "n \<noteq> []"
  shows "\<not> snd (UseNonce c n b now)"
proof -
  have "(n, t) \<in> set (seen (sweepNonces c now))"
    using assms timeSub_le [OF assms(2,3)] by (auto simp: sweepNonces_def)
  then have "map_of (seen (sweepNonces c now)) n \<noteq> None"
    by (metis fst_conv image_eqI map_of_eq_None_iff)
  then show ?thesis using assms(4) by (simp add: UseNonce_def Let_def)
qed

lemma usesNonces_keeps:
  assumes "(n, t) \<in> set (seen c)" and "\<forall>u \<in> set us. snd (snd u) - t \<le> nttl c" and "0 \<le> nttl c"
  shows "(n, t) \<in> set (seen (usesNonces c us)) \<and> nttl (usesNonces c us) = nttl c"
  using assms
proof (induction us arbitrary: c)
  case (Cons u us)
  have "(n, t) \<in> set (seen (fst (UseNonce c (fst u) (fst (snd u)) (snd (snd u)))))"
    using Cons.prems by (intro UseNonce_keeps) auto
  then show ?case using Cons.IH [of "fst (UseNonce c (fst u) (fst (snd u)) (snd (snd u)))"] Cons.prems
    by (simp add: usesNonces_def)
qed (simp add: usesNonces_def)

lemma UseNonce_bounded: "length (seen c) \<le> nonceMaxSeen \<Longrightarrow> length (seen (fst (UseNonce c n b now))) \<le> nonceMaxSeen"
proof -
  assume "length (seen c) \<le> nonceMaxSeen"
  then have "length (seen (sweepNonces c now)) \<le> nonceMaxSeen"
    by (auto simp: sweepNonces_def intro: order_trans [OF length_filter_le])
  then show ?thesis using \<open>length (seen c) \<le> nonceMaxSeen\<close> by (auto simp: UseNonce_def Let_def)
qed

lemma usesNonces_bounded: "length (seen c) \<le> nonceMaxSeen \<Longrightarrow> length (seen (usesNonces c us)) \<le> nonceMaxSeen"
  by (induction us arbitrary: c) (auto simp: usesNonces_def UseNonce_bounded)

text \<open>
  C29. Once a nonce has been accepted it is refused, under any binding, for the
  whole TTL, whatever other nonces are used in between; and the cache never holds more than
  \<open>nonceMaxSeen\<close> nonces.
\<close>

theorem nonce_single_use:
  assumes "n \<noteq> []" and "snd (UseNonce c n b t)" and "0 \<le> nttl c" and "length (seen c) \<le> nonceMaxSeen"
    and "\<forall>u \<in> set us. snd (snd u) - t \<le> nttl c" and "now - t \<le> nttl c"
  shows "\<not> snd (UseNonce (usesNonces (fst (UseNonce c n b t)) us) n b' now)
       \<and> length (seen (usesNonces (fst (UseNonce c n b t)) us)) \<le> nonceMaxSeen"
proof -
  have "(n, t) \<in> set (seen (usesNonces (fst (UseNonce c n b t)) us)) \<and> nttl (usesNonces (fst (UseNonce c n b t)) us) = nttl c"
    using usesNonces_keeps [OF UseNonce_accepts [OF assms(2,1)], of us] assms(3,5) by simp
  then show ?thesis
    using UseNonce_rejects [of n t _ now b'] assms usesNonces_bounded [OF UseNonce_bounded [OF assms(4)], of n b t us] by simp
qed

theorem nonce_single_use_witness:
  "\<not> snd (UseNonce (usesNonces (fst (UseNonce (NewNonceCache 100) ''n'' ''a'' 5)) [(''m'', ''a'', 50)]) ''n'' ''b'' 105)"
  using nonce_single_use [of "''n''" "NewNonceCache 100" "''a''" 5 "[(''m'', ''a'', 50)]" 105 "''b''"]
  by (simp add: UseNonce_def sweepNonces_def NewNonceCache_def nonceMaxSeen_def Let_def)

section \<open>Epoch windows\<close>

lemma sdiv_nonneg: "0 \<le> a \<Longrightarrow> 0 < b \<Longrightarrow> (a :: int) sdiv b = a div b"
  by (simp add: signed_divide_int_def sgn_if)

lemma epoch_accepted_iff:
  assumes "0 \<le> t" and "0 \<le> t'"
  shows "CurrentEpoch e t \<in> set (AcceptedEpochs e' t') \<longleftrightarrow>
     unixOf t div 900 + bump e \<in> {unixOf t' div 900 + bump e', unixOf t' div 900 + bump e' - 1}"
  using assms by (simp add: CurrentEpoch_def AcceptedEpochs_def epochAt_def tokenEpochWindow_def sdiv_nonneg unixOf_def)

lemma div_next: "(a :: int) div k = b div k \<or> a div k = b div k - 1 \<Longrightarrow> 0 < k \<Longrightarrow> b - a < 2 * k"
proof -
  assume "a div k = b div k \<or> a div k = b div k - 1" and k: "0 < k"
  then have "b div k \<le> a div k + 1" by auto
  then have "b div k * k \<le> (a div k + 1) * k" using k by (intro mult_right_mono) auto
  then have "b div k * k \<le> a div k * k + k" by (simp add: distrib_right)
  moreover have "a = a div k * k + a mod k" "b = b div k * k + b mod k" by simp_all
  moreover have "0 \<le> a mod k" "b mod k < k" using k by simp_all
  ultimately show "b - a < 2 * k" by linarith
qed

text \<open>
  Epoch rotation bounds the life of a verdict token whatever expiry it carries: a
  verifier with the same epoch offset accepts a token minted at \<open>t\<close> only during two windows (30 minutes)
  after \<open>t\<close>, and a verifier that has been advanced twice does not accept it at all.
\<close>

theorem token_lifetime:
  assumes "0 \<le> t" and "t \<le> t'" and "CHR ''|'' \<notin> set sid" and "CHR ''|'' \<notin> set bind"
    and "0 \<le> unixOf expiry" and "unixOf expiry < 2 ^ 63"
    and "verifyVerdictToken P key (issueVerdictToken P key sid bind (CurrentEpoch e t) expiry) bind' sid' t' (AcceptedEpochs e' t') = TokenOK"
  shows "(bump e' = bump e \<longrightarrow> unixOf t' - unixOf t < 1800) \<and> e' \<noteq> Advance (Advance e)"
proof -
  have mono: "unixOf t div 900 \<le> unixOf t' div 900"
    using assms(2) by (simp add: unixOf_def zdiv_mono1)
  have bar: "CHR ''|'' \<notin> set (CurrentEpoch e t)"
    using bar_notin_formatInt by (simp add: CurrentEpoch_def epochAt_def)
  have "CurrentEpoch e t \<in> set (AcceptedEpochs e' t')"
  proof (rule ccontr)
    assume "CurrentEpoch e t \<notin> set (AcceptedEpochs e' t')"
    moreover have "splitOn CHR ''|'' (sid @ ''|'' @ bind @ ''|'' @ formatInt (unixOf expiry) @ ''|'' @ CurrentEpoch e t)
        = [sid, bind, formatInt (unixOf expiry), CurrentEpoch e t]"
      using assms(3,4) bar by (simp add: split_payload)
    ultimately show False
      using assms(7) by (auto simp: verifyVerdictToken_def issueVerdictToken_def Let_def split: if_splits)
  qed
  then have "unixOf t div 900 + bump e \<in> {unixOf t' div 900 + bump e', unixOf t' div 900 + bump e' - 1}"
    using epoch_accepted_iff [of t t' e e'] assms(1,2) by simp
  then show ?thesis
    using div_next [of "unixOf t" 900 "unixOf t'"] mono by (auto simp: Advance_def)
qed

theorem token_lifetime_witness:
  "unixOf 1500000000000 - unixOf 900000000000 < 1800 \<and> NewEpochManager \<noteq> Advance (Advance NewEpochManager)"
proof -
  let ?e = "CurrentEpoch NewEpochManager 900000000000"
  have "?e \<in> set (AcceptedEpochs NewEpochManager 1500000000000)"
    using epoch_accepted_iff [of 900000000000 1500000000000 NewEpochManager NewEpochManager]
    by (simp add: unixOf_def)
  moreover have "splitOn CHR ''|'' (''s'' @ ''|'' @ ''b'' @ ''|'' @ formatInt (unixOf 2700000000000) @ ''|'' @ ?e)
      = [''s'', ''b'', formatInt (unixOf 2700000000000), ?e]"
    using bar_notin_formatInt by (simp add: split_payload CurrentEpoch_def epochAt_def)
  ultimately have "verifyVerdictToken toyPrims ''k'' (issueVerdictToken toyPrims ''k'' ''s'' ''b'' ?e 2700000000000)
      ''b'' ''s'' 1500000000000 (AcceptedEpochs NewEpochManager 1500000000000) = TokenOK"
    by (simp add: verifyVerdictToken_def issueVerdictToken_def parseIntOr_formatInt Let_def unixOf_def)
  then show ?thesis
    using token_lifetime [of 900000000000 1500000000000 "''s''" "''b''" 2700000000000 toyPrims "''k''"
        NewEpochManager "''b''" "''s''" NewEpochManager]
    by (simp add: unixOf_def)
qed

section \<open>The origin token\<close>

lemma ValidAt_originToken:
  assumes "\<forall>e \<in> set epochs. hmacSha P key (''hmny-origin|'' @ epoch) = hmacSha P key (''hmny-origin|'' @ e) \<longrightarrow> e = epoch"
    and "hmacSha P key (''hmny-origin|'' @ epoch) \<noteq> []"
  shows "ValidAt P key (originToken P key epoch) epochs \<longleftrightarrow> epoch \<in> set epochs"
  using assms by (auto simp: ValidAt_def originToken_def)

text \<open>
  The origin accepts the token the gate attaches exactly when the two clocks
  are at most one hourly bucket apart, in either direction; a token that leaks is useless two hours
  later. HMAC is assumed to be free of collisions on the epochs compared.
\<close>

theorem origin_token_window:
  assumes "hourNs \<le> t" and "hourNs \<le> t'"
    and "\<forall>e \<in> set (EpochGrace t'). hmacSha P key (''hmny-origin|'' @ Epoch t) = hmacSha P key (''hmny-origin|'' @ e) \<longrightarrow> e = Epoch t"
    and "hmacSha P key (''hmny-origin|'' @ Epoch t) \<noteq> []"
  shows "(Valid P key (originAuth P key (Epoch t)) t' \<longleftrightarrow> \<bar>unixOf t div 3600 - unixOf t' div 3600\<bar> \<le> 1)
       \<and> (t \<le> t' \<and> Valid P key (originAuth P key (Epoch t)) t' \<longrightarrow> unixOf t' - unixOf t < 7200)"
proof -
  have ns: "hourNs = 1000000000 * 3600" by (simp add: hourNs_def)
  have un: "unixOf (t' + hourNs) = unixOf t' + 3600" "unixOf (t' - hourNs) = unixOf t' - 3600"
    unfolding ns unixOf_def by (simp_all add: div_mult_self2 [symmetric])
  have nn: "0 \<le> unixOf t" "0 \<le> unixOf t'" "0 \<le> unixOf t' - 3600"
    using assms(1,2) un(2) by (auto simp: unixOf_def hourNs_def pos_imp_zdiv_nonneg_iff)
  have window: "Valid P key (originAuth P key (Epoch t)) t' \<longleftrightarrow> \<bar>unixOf t div 3600 - unixOf t' div 3600\<bar> \<le> 1"
    using ValidAt_originToken [OF assms(3,4)] nn
    by (auto simp: Valid_def originAuth_def EpochGrace_def Epoch_def EpochWindow_def un sdiv_nonneg)
  moreover have "unixOf t' - unixOf t < 7200" if "t \<le> t'" "Valid P key (originAuth P key (Epoch t)) t'"
    using that window div_next [of "unixOf t" 3600 "unixOf t'"] zdiv_mono1 [of "unixOf t" "unixOf t'" 3600]
    by (auto simp: unixOf_def zdiv_mono1)
  ultimately show ?thesis by blast
qed

theorem origin_token_window_witness:
  "Valid toyPrims ''k'' (originAuth toyPrims ''k'' (Epoch 7200000000000)) 10800000000000
   \<and> \<not> Valid toyPrims ''k'' (originAuth toyPrims ''k'' (Epoch 7200000000000)) 14400000000000"
proof -
  have ep: "Epoch 7200000000000 = ''e2''" "Epoch 10800000000000 = ''e3''" "Epoch 14400000000000 = ''e4''"
    "Epoch 18000000000000 = ''e5''"
    by (simp_all add: Epoch_def unixOf_def sdiv_nonneg formatInt_def decNat.simps digitChar_def char_of_def bit_0)
  have "hmacSha toyPrims ''k'' (''hmny-origin|'' @ Epoch 7200000000000) \<noteq> []"
    by (simp add: toyPrims_def pad32_def ep)
  then show ?thesis
    using origin_token_window [of 7200000000000 10800000000000 toyPrims "''k''"]
      origin_token_window [of 7200000000000 14400000000000 toyPrims "''k''"]
    by (simp add: EpochGrace_def EpochWindow_def hourNs_def ep toyPrims_def pad32_def unixOf_def)
qed

end
