(* ===== verification/Approval.thy ===== *)
theory Approval
  imports Token
begin

text \<open>
  Admin authentication and two-person control: \<open>internal/gate/adminauth.go\<close> and
  \<open>internal/gate/approval.go\<close>. Random ids and the clock are arguments; every method of the approval
  store holds its mutex, so a run is a sequence of calls.
\<close>

section \<open>Operators and roles (adminauth.go)\<close>

definition RoleAuditor :: string where "RoleAuditor = ''auditor''"
definition RoleOperator :: string where "RoleOperator = ''operator''"
definition RoleApprover :: string where "RoleApprover = ''approver''"
definition RoleDPO :: string where "RoleDPO = ''dpo''"

lemmas role_defs = RoleAuditor_def RoleOperator_def RoleApprover_def RoleDPO_def

record operator =
  OpID :: string
  OpRole :: string

text \<open>The table of tokens is a Go map: an association list with distinct tokens.\<close>

record admin_auth =
  byTok :: "(string \<times> operator) list"

definition NewAdminAuth :: admin_auth where
  "NewAdminAuth = \<lparr>byTok = []\<rparr>"

definition AuthAdd :: "admin_auth \<Rightarrow> string \<Rightarrow> string \<Rightarrow> string \<Rightarrow> admin_auth" where
  "AuthAdd a token i role = a\<lparr>byTok := AList.update token \<lparr>OpID = i, OpRole = role\<rparr> (byTok a)\<rparr>"

text \<open>\<open>bearer\<close> on the value of the Authorization header.\<close>

definition bearer :: "string \<Rightarrow> string" where
  "bearer h = (if length ''Bearer '' < length h \<and> take (length ''Bearer '') h = ''Bearer ''
               then drop (length ''Bearer '') h else [])"

text \<open>The scan never stops early: the last match wins.\<close>

definition Authenticate :: "admin_auth \<Rightarrow> string \<Rightarrow> operator option" where
  "Authenticate a authorization =
     (let tok = bearer authorization
      in if tok = [] then None
         else foldl (\<lambda>found e. if fst e = tok then Some (snd e) else found) None (byTok a))"

definition canRead :: "operator \<Rightarrow> bool" where
  "canRead p \<longleftrightarrow> OpRole p \<noteq> []"

definition canOperate :: "operator \<Rightarrow> bool" where
  "canOperate p \<longleftrightarrow> OpRole p = RoleOperator \<or> OpRole p = RoleDPO"

definition canApprove :: "operator \<Rightarrow> bool" where
  "canApprove p \<longleftrightarrow> OpRole p = RoleApprover \<or> OpRole p = RoleDPO"

definition canApproveErasure :: "operator \<Rightarrow> bool" where
  "canApproveErasure p \<longleftrightarrow> OpRole p = RoleDPO"

lemma scan_no_match: "tok \<notin> fst ` set xs \<Longrightarrow>
  foldl (\<lambda>found e. if fst e = tok then Some (snd e) else found) acc xs = acc"
  by (induction xs arbitrary: acc) auto

lemma scan_lookup:
  assumes "distinct (map fst xs)"
  shows "foldl (\<lambda>found e. if fst e = tok then Some (snd e) else found) acc xs =
     (case map_of xs tok of None \<Rightarrow> acc | Some v \<Rightarrow> Some v)"
  using assms
proof (induction xs arbitrary: acc)
  case (Cons x xs)
  then show ?case by (cases "fst x = tok") (simp_all add: scan_no_match)
qed simp

lemma Authenticate_lookup:
  assumes "distinct (map fst (byTok a))"
  shows "Authenticate a (''Bearer '' @ tok) = (if tok = [] then None else map_of (byTok a) tok)"
  using scan_lookup [OF assms, of tok None]
  by (auto simp: Authenticate_def bearer_def Let_def split: option.splits)

lemma AuthAdd_distinct: "distinct (map fst (byTok a)) \<Longrightarrow> distinct (map fst (byTok (AuthAdd a t i r)))"
  by (simp add: AuthAdd_def distinct_update)

section \<open>Pending actions (approval.go)\<close>

record pending_action =
  PID :: string
  PKind :: string
  Params :: "string \<rightharpoonup> string"
  Requester :: string
  NeedsRole :: string
  PCreated :: int

record approval_store =
  pending :: "string \<rightharpoonup> pending_action"
  akey :: bytes
  attl :: int

datatype approval_err = ErrNoPending | ErrExpired | ErrSelfApproval | ErrWrongRole

definition NewApprovalStore :: "bytes \<Rightarrow> int \<Rightarrow> approval_store" where
  "NewApprovalStore key ttl = \<lparr>pending = Map.empty, akey = key, attl = ttl\<rparr>"

definition hasRole :: "string \<Rightarrow> string \<Rightarrow> bool" where
  "hasRole have need \<longleftrightarrow> have = need \<or> (need = RoleApprover \<and> have = RoleDPO)"

definition gcLocked :: "approval_store \<Rightarrow> int \<Rightarrow> approval_store" where
  "gcLocked s now =
     s\<lparr>pending := (\<lambda>i. case pending s i of
                         None \<Rightarrow> None
                       | Some p \<Rightarrow> if attl s < timeSub now (PCreated p) then None else Some p)\<rparr>"

definition Create ::
  "approval_store \<Rightarrow> string \<Rightarrow> string \<Rightarrow> (string \<rightharpoonup> string) \<Rightarrow> string \<Rightarrow> string \<Rightarrow> int \<Rightarrow> approval_store \<times> pending_action" where
  "Create s i kind params requester needsRole now =
     (let p = \<lparr>PID = i, PKind = kind, Params = params, Requester = requester, NeedsRole = needsRole, PCreated = now\<rparr>;
          s1 = gcLocked s now
      in (s1\<lparr>pending := (pending s1)(i \<mapsto> p)\<rparr>, p))"

definition ticketKeys :: "string list" where
  "ticketKeys = [''key'', ''durationSec'', ''subject'', ''legalBasis'', ''overlayId'', ''parentConfigVersion'',
                 ''mutationClass'', ''body'', ''action'']"

definition ticketInput :: "pending_action \<Rightarrow> string \<Rightarrow> string" where
  "ticketInput p approver =
     PID p @ ''|'' @ PKind p @ ''|'' @ Requester p @ ''|'' @ approver
     @ concat (map (\<lambda>k. ''|'' @ k @ ''='' @ (case Params p k of None \<Rightarrow> [] | Some v \<Rightarrow> v)) ticketKeys)"

definition ticket :: "'sk prims \<Rightarrow> approval_store \<Rightarrow> pending_action \<Rightarrow> string \<Rightarrow> string" where
  "ticket P s p approver = hexEncode (hmacSha P (akey s) (ticketInput p approver))"

definition Approve ::
  "'sk prims \<Rightarrow> approval_store \<Rightarrow> string \<Rightarrow> operator \<Rightarrow> int \<Rightarrow> approval_store \<times> (approval_err + pending_action \<times> string)" where
  "Approve P s i approver now =
     (case pending s i of
        None \<Rightarrow> (s, Inl ErrNoPending)
      | Some p \<Rightarrow>
          if attl s < timeSub now (PCreated p) then (s\<lparr>pending := (pending s)(i := None)\<rparr>, Inl ErrExpired)
          else if OpID approver = Requester p then (s, Inl ErrSelfApproval)
          else if \<not> hasRole (OpRole approver) (NeedsRole p) then (s, Inl ErrWrongRole)
          else (s\<lparr>pending := (pending s)(i := None)\<rparr>, Inr (p, ticket P s p (OpID approver))))"

text \<open>\<open>Pending\<close> sweeps the store like \<open>gcLocked\<close> and lists what is left; the order of ids is an argument.\<close>

definition PendingList :: "approval_store \<Rightarrow> int \<Rightarrow> string list \<Rightarrow> approval_store \<times> pending_action list" where
  "PendingList s now order = (gcLocked s now, List.map_filter (pending (gcLocked s now)) order)"

section \<open>Dual control\<close>

text \<open>
  \<open>apRun P s cs as\<close>: the store \<open>s\<close> is reached by calls that created the actions \<open>cs\<close> (with fresh ids) and
  committed the approvals \<open>as\<close>, in any order and with any failed attempts in between.
\<close>

inductive apRun ::
  "'sk prims \<Rightarrow> approval_store \<Rightarrow> pending_action list \<Rightarrow> (pending_action \<times> operator \<times> int) list \<Rightarrow> bool" for P where
  apInit: "apRun P (NewApprovalStore key ttl) [] []"
| apCreate: "apRun P s cs as \<Longrightarrow> i \<notin> PID ` set cs \<Longrightarrow> Create s i kind params req role now = (s', p) \<Longrightarrow>
    apRun P s' (cs @ [p]) as"
| apApprove: "apRun P s cs as \<Longrightarrow> Approve P s i a now = (s', Inr (p, tk)) \<Longrightarrow> apRun P s' cs (as @ [(p, a, now)])"
| apReject: "apRun P s cs as \<Longrightarrow> Approve P s i a now = (s', Inl err) \<Longrightarrow> apRun P s' cs as"
| apPending: "apRun P s cs as \<Longrightarrow> apRun P (fst (PendingList s now order)) cs as"

definition apInv ::
  "approval_store \<Rightarrow> pending_action list \<Rightarrow> (pending_action \<times> operator \<times> int) list \<Rightarrow> bool" where
  "apInv s cs as \<longleftrightarrow>
     distinct (map PID cs) \<and> distinct (map (PID \<circ> fst) as)
     \<and> (\<forall>i p. pending s i = Some p \<longrightarrow> PID p = i \<and> p \<in> set cs \<and> i \<notin> (PID \<circ> fst) ` set as)
     \<and> (\<forall>p a t. (p, a, t) \<in> set as \<longrightarrow>
          p \<in> set cs \<and> OpID a \<noteq> Requester p \<and> hasRole (OpRole a) (NeedsRole p) \<and> timeSub t (PCreated p) \<le> attl s)"

lemma apInv_shrink:
  assumes "apInv s cs as" and "attl s' = attl s" and "\<And>i p. pending s' i = Some p \<Longrightarrow> pending s i = Some p"
  shows "apInv s' cs as"
  using assms by (auto simp: apInv_def)

lemma gcLocked_keeps: "pending (gcLocked s now) i = Some p \<Longrightarrow> pending s i = Some p"
  by (auto simp: gcLocked_def split: option.splits if_splits)

lemma attl_gcLocked [simp]: "attl (gcLocked s now) = attl s"
  by (simp add: gcLocked_def)

lemma apInv_Create:
  assumes "apInv s cs as" and "i \<notin> PID ` set cs" and "Create s i kind params req role now = (s', p)"
  shows "apInv s' (cs @ [p]) as"
proof -
  have inv: "apInv (gcLocked s now) cs as" using assms(1) by (rule apInv_shrink) (simp, erule gcLocked_keeps)
  have p: "PID p = i" "s' = (gcLocked s now)\<lparr>pending := (pending (gcLocked s now))(i \<mapsto> p)\<rparr>"
    using assms(3) by (auto simp: Create_def Let_def)
  have "i \<notin> (PID \<circ> fst) ` set as" using inv assms(2) by (fastforce simp: apInv_def)
  then show ?thesis using inv p assms(2) by (auto simp: apInv_def)
qed

lemma apInv_Approve:
  assumes "apInv s cs as" and "Approve P s i a now = (s', Inr (p, tk))"
  shows "apInv s' cs (as @ [(p, a, now)])"
proof -
  have p: "pending s i = Some p" "\<not> attl s < timeSub now (PCreated p)" "OpID a \<noteq> Requester p"
    "hasRole (OpRole a) (NeedsRole p)" "s' = s\<lparr>pending := (pending s)(i := None)\<rparr>"
    using assms(2) by (auto simp: Approve_def split: option.splits if_splits)
  then have "PID p = i" "p \<in> set cs" "i \<notin> (PID \<circ> fst) ` set as" using assms(1) by (auto simp: apInv_def)
  then show ?thesis using assms(1) p by (auto simp: apInv_def)
qed

lemma apRun_inv: "apRun P s cs as \<Longrightarrow> apInv s cs as"
proof (induction rule: apRun.induct)
  case (apInit key ttl)
  then show ?case by (simp add: apInv_def NewApprovalStore_def)
next
  case (apReject s cs as i a now s' err)
  then show ?case
    by (auto simp: Approve_def split: option.splits if_splits intro: apInv_shrink)
next
  case (apPending s cs as now order)
  then show ?case by (auto simp: PendingList_def intro: apInv_shrink dest: gcLocked_keeps)
qed (auto intro: apInv_Create apInv_Approve)

text \<open>
  C7. Every action that is ever committed was requested as such, by an operator other
  than the one who approved it; the approver holds the required role; the approval came within the TTL;
  and no request is committed twice.
\<close>

theorem dual_control:
  assumes "apRun P s cs as"
  shows "distinct (map (PID \<circ> fst) as)
    \<and> (\<forall>p a t. (p, a, t) \<in> set as \<longrightarrow>
         p \<in> set cs \<and> OpID a \<noteq> Requester p \<and> hasRole (OpRole a) (NeedsRole p) \<and> timeSub t (PCreated p) \<le> attl s)"
  using apRun_inv [OF assms] by (simp add: apInv_def)

definition exRequest :: "approval_store \<times> pending_action" where
  "exRequest = Create (NewApprovalStore ''k'' 600) ''id1'' ''ban'' [''key'' \<mapsto> ''ip:1''] ''alice'' RoleApprover 100"

theorem dual_control_witness:
  "let s' = fst (Approve toyPrims (fst exRequest) ''id1'' \<lparr>OpID = ''bob'', OpRole = RoleDPO\<rparr> 200)
   in distinct (map (PID \<circ> fst) [(snd exRequest, \<lparr>OpID = ''bob'', OpRole = RoleDPO\<rparr>, 200 :: int)])
    \<and> ''bob'' \<noteq> Requester (snd exRequest)
    \<and> snd (Approve toyPrims s' ''id1'' \<lparr>OpID = ''bob'', OpRole = RoleDPO\<rparr> 201) = Inl ErrNoPending
    \<and> snd (Approve toyPrims (fst exRequest) ''id1'' \<lparr>OpID = ''alice'', OpRole = RoleDPO\<rparr> 200) = Inl ErrSelfApproval"
proof -
  let ?b = "\<lparr>OpID = ''bob'', OpRole = RoleDPO\<rparr>"
  have c: "apRun toyPrims (fst exRequest) ([] @ [snd exRequest]) []"
    by (rule apCreate [OF apInit [of _ "''k''" 600], of "''id1''"]) (simp_all add: exRequest_def)
  have ok: "Approve toyPrims (fst exRequest) ''id1'' ?b 200 =
      (fst (Approve toyPrims (fst exRequest) ''id1'' ?b 200),
       Inr (snd exRequest, ticket toyPrims (fst exRequest) (snd exRequest) ''bob''))"
    by (simp add: Approve_def exRequest_def Create_def Let_def hasRole_def role_defs timeSub_def NewApprovalStore_def)
  show ?thesis
    using dual_control [OF apApprove [OF c ok]]
    by (simp add: Let_def Approve_def exRequest_def Create_def hasRole_def role_defs timeSub_def NewApprovalStore_def)
qed

text \<open>
  The ticket's input joins the parameters without escaping them, so two requests with the same id can
  differ in their target and have the same ticket.
\<close>

lemma ticket_params_ambiguous:
  assumes "Params p = [''key'' \<mapsto> ''a|durationSec=b'', ''durationSec'' \<mapsto> ''c'']"
    and "q = p\<lparr>Params := [''key'' \<mapsto> ''a'', ''durationSec'' \<mapsto> ''b|durationSec=c'']\<rparr>"
  shows "Params p ''key'' \<noteq> Params q ''key'' \<and> ticket P s p a = ticket P s q a"
  using assms by (simp add: ticket_def ticketInput_def ticketKeys_def)

end
