(* ===== verification/Settings.thy ===== *)
theory Settings
  imports Approval
begin

text \<open>
  The runtime settings overlay: \<open>internal/gate/settings\<close> (\<open>overlay.go\<close>, \<open>validate.go\<close>, \<open>classify.go\<close>,
  \<open>resolve.go\<close>). An overlay is a versioned change an operator proposes to the posture the process
  was started with; it is validated, given a mutation class that decides whether a second person has to
  approve it, and resolved into the effective posture.

  A Go map is an association list with distinct keys; a \<open>float64\<close> is a rational. The canonical JSON of an
  overlay is an argument.
\<close>

section \<open>Overlays (overlay.go)\<close>

definition ModeEnforce :: string where "ModeEnforce = ''enforce''"
definition ModeMonitor :: string where "ModeMonitor = ''monitor''"
definition ModeShadow :: string where "ModeShadow = ''shadow''"
definition ModeOff :: string where "ModeOff = ''off''"

lemmas mode_defs = ModeEnforce_def ModeMonitor_def ModeShadow_def ModeOff_def

datatype mutation_class = ClassA | ClassD | ClassB | ClassC

record scoring_patch =
  pChallengeAt :: "rat option"
  pDenyAt :: "rat option"
  pLayerCap :: "rat option"

record rate_patch =
  pWindowSec :: "int option"
  pSoft :: "int option"
  pHard :: "int option"

type_synonym smap = "(string \<times> string) list"

record overlay =
  SchemaVersion :: string
  OverlayID :: string
  OCreatedAt :: int
  OCreatedBy :: string
  ApprovedBy :: string
  OStatus :: string
  ExpiresAt :: "int option"
  ParentConfigVersion :: string
  MutationClass :: mutation_class
  OGates :: smap
  OHardRules :: smap
  OScoring :: "scoring_patch option"
  OWeights :: "(string \<times> rat) list"
  ONetPolicy :: smap
  ORoutes :: smap
  ORateLimit :: "rate_patch option"
  OGlobalMonitor :: "bool option"

definition ScoringDefaults :: "rat \<times> rat \<times> rat" where
  "ScoringDefaults = (30, 70, 60)"

definition IntegrityCriticalEngineHRs :: "string list" where
  "IntegrityCriticalEngineHRs = [''HR-1'', ''HR-2'', ''HR-16'', ''HR-18'', ''HR-19'']"

definition IntegrityCriticalGates :: "string list" where
  "IntegrityCriticalGates = [''gate.smuggle'', ''gate.spoof_header'', ''gate.verdict_token'']"

definition KnownGates :: "string list" where
  "KnownGates = [''gate.smuggle'', ''gate.spoof_header'', ''gate.ban'', ''gate.verdict_token'',
                 ''gate.recon_sweep'', ''gate.inject'', ''gate.attest_floor'']"

definition NetPolicyClasses :: "string list" where
  "NetPolicyClasses = [''net.proxy.hop'', ''net.proxy.anon'', ''net.proxy.spoof'', ''net.vpn'',
     ''net.tor'', ''net.tcp'', ''net.correlation'', ''net.h2.spoof'', ''net.header.order'', ''net.tls.pq'',
     ''net.tls.alps'', ''net.tls.certcomp'', ''net.http.h1'', ''net.tls.ech'']"

definition OverlayDigest :: "'sk prims \<Rightarrow> (overlay \<Rightarrow> bytes option) \<Rightarrow> overlay option \<Rightarrow> bytes \<Rightarrow> string" where
  "OverlayDigest P canonical ov key =
     (case ov of
        None \<Rightarrow> []
      | Some v \<Rightarrow>
          if OverlayID v = [] then []
          else case canonical v of
                 None \<Rightarrow> ''err''
               | Some body \<Rightarrow> hexEncode (take 6 (hmacSha P key body)))"

definition formatBool :: "bool \<Rightarrow> string" where
  "formatBool b = (if b then ''true'' else ''false'')"

definition HashConfigVersion ::
  "'sk prims \<Rightarrow> (overlay \<Rightarrow> bytes option) \<Rightarrow> bytes \<Rightarrow> bool \<Rightarrow> bool \<Rightarrow> smap \<Rightarrow> int \<Rightarrow> int \<Rightarrow> int \<Rightarrow> overlay option \<Rightarrow> string" where
  "HashConfigVersion P canonical key mon kill routes w soft hard ov =
     (let d = OverlayDigest P canonical ov key
      in ''cfg-'' @ hexEncode (take 6 (hmacSha P key
           (''monitor='' @ formatBool mon @ ''|kill='' @ formatBool kill
            @ concat (map (\<lambda>p. ''|'' @ p @ ''='' @ the (map_of routes p)) (sort (map fst routes)))
            @ ''|rl='' @ formatInt w @ ''/'' @ formatInt soft @ ''/'' @ formatInt hard
            @ (if d = [] then [] else ''|ovl='' @ d @ ''|id='' @ OverlayID (the ov))))))"

section \<open>Validation (validate.go)\<close>

datatype settings_error =
    ErrSchema | ErrGateUnknown string | ErrGateOff string | ErrGateMode string | ErrHRId string
  | ErrHROff string | ErrHRMode string | ErrNetUnknown string | ErrNetTcp | ErrNetOff string
  | ErrNetMode string | ErrChallengeAt | ErrDenyAt | ErrLayerCap | ErrThresholdOrder | ErrMultiplier string
  | ErrSignalId string | ErrWindowSec | ErrSoft | ErrHard | ErrHardSoft | ErrAttestedRoot | ErrAttestedEmpty

text \<open>The first error of a loop over a map, in the order the map is visited.\<close>

fun firstErr :: "('a \<Rightarrow> settings_error option) \<Rightarrow> 'a list \<Rightarrow> settings_error option" where
  "firstErr f [] = None"
| "firstErr f (x # xs) = (case f x of None \<Rightarrow> firstErr f xs | Some e \<Rightarrow> Some e)"

definition orElseErr :: "settings_error option \<Rightarrow> settings_error option \<Rightarrow> settings_error option" where
  "orElseErr a b = (case a of None \<Rightarrow> b | Some e \<Rightarrow> Some e)"

definition validateGateMode :: "string \<times> string \<Rightarrow> settings_error option" where
  "validateGateMode gm =
     (let i = fst gm; m = snd gm
      in if i \<notin> set KnownGates then Some (ErrGateUnknown i)
         else if m \<in> {ModeEnforce, ModeMonitor, ModeShadow} then None
         else if m = ModeOff then
           (if i \<in> set IntegrityCriticalGates then Some (ErrGateOff i)
            else if i = ''gate.smuggle'' \<or> i = ''gate.spoof_header'' then Some (ErrGateOff i)
            else None)
         else Some (ErrGateMode i))"

definition validateHRMode :: "string \<times> string \<Rightarrow> settings_error option" where
  "validateHRMode gm =
     (let i = fst gm; m = snd gm
      in if take 3 i \<noteq> ''HR-'' then Some (ErrHRId i)
         else if m \<in> {ModeEnforce, ModeMonitor} then None
         else if m = ModeOff then Some (ErrHROff i)
         else Some (ErrHRMode i))"

definition validateNetMode :: "string \<times> string \<Rightarrow> settings_error option" where
  "validateNetMode gm =
     (let i = fst gm; m = snd gm
      in if i \<notin> set NetPolicyClasses then Some (ErrNetUnknown i)
         else if i = ''net.tcp'' \<and> m = ModeEnforce then Some ErrNetTcp
         else if m \<in> {ModeEnforce, ModeMonitor, ModeShadow} then None
         else if m = ModeOff then Some (ErrNetOff i)
         else Some (ErrNetMode i))"

definition patched :: "'a option \<Rightarrow> 'a \<Rightarrow> 'a" where
  "patched p d = (case p of None \<Rightarrow> d | Some v \<Rightarrow> v)"

definition outside :: "rat option \<Rightarrow> rat \<Rightarrow> rat \<Rightarrow> bool" where
  "outside p lo hi = (case p of None \<Rightarrow> False | Some v \<Rightarrow> v < lo \<or> hi < v)"

definition validateScoring :: "scoring_patch \<Rightarrow> settings_error option" where
  "validateScoring s =
     (case ScoringDefaults of (ch0, dn0, lc0) \<Rightarrow>
       let ch = patched (pChallengeAt s) ch0; dn = patched (pDenyAt s) dn0
       in if outside (pChallengeAt s) 10 60 then Some ErrChallengeAt
          else if outside (pDenyAt s) 40 95 then Some ErrDenyAt
          else if outside (pLayerCap s) 30 80 then Some ErrLayerCap
          else if dn \<le> ch then Some ErrThresholdOrder
          else None)"

definition validateWeight :: "string \<times> rat \<Rightarrow> settings_error option" where
  "validateWeight w =
     (if snd w < 0 \<or> 2 < snd w then Some (ErrMultiplier (fst w))
      else if fst w = [] \<or> (\<exists>c \<in> set (fst w). c = CHR '' '' \<or> c = CHR 0x09 \<or> c = CHR 0x0A)
           then Some (ErrSignalId (fst w))
      else None)"

definition below1 :: "int option \<Rightarrow> bool" where
  "below1 p = (case p of None \<Rightarrow> False | Some v \<Rightarrow> v < 1)"

definition validateRate :: "rate_patch \<Rightarrow> settings_error option" where
  "validateRate r =
     (if below1 (pWindowSec r) then Some ErrWindowSec
      else if below1 (pSoft r) then Some ErrSoft
      else if below1 (pHard r) then Some ErrHard
      else case (pHard r, pSoft r) of
             (Some h, Some s) \<Rightarrow> if h < s then Some ErrHardSoft else None
           | _ \<Rightarrow> None)"

definition Validate :: "overlay option \<Rightarrow> settings_error option" where
  "Validate ov =
     (case ov of
        None \<Rightarrow> None
      | Some v \<Rightarrow>
          if SchemaVersion v \<noteq> [] \<and> SchemaVersion v \<noteq> ''1.0.0'' then Some ErrSchema
          else orElseErr (firstErr validateGateMode (OGates v))
            (orElseErr (firstErr validateHRMode (OHardRules v))
            (orElseErr (firstErr validateNetMode (ONetPolicy v))
            (orElseErr (case OScoring v of None \<Rightarrow> None | Some s \<Rightarrow> validateScoring s)
            (orElseErr (firstErr validateWeight (OWeights v))
            (orElseErr (case ORateLimit v of None \<Rightarrow> None | Some r \<Rightarrow> validateRate r)
            (if map_of (ORoutes v) ''/'' = Some ''attested'' then Some ErrAttestedRoot
             else if map_of (ORoutes v) [] = Some ''attested'' then Some ErrAttestedEmpty
             else None)))))))"

section \<open>Resolution (resolve.go)\<close>

record effective =
  ConfigVersion :: string
  EGlobalMonitor :: bool
  EKillSwitch :: bool
  EGates :: smap
  EHardRules :: smap
  ChallengeAt :: rat
  DenyAt :: rat
  LayerCap :: rat
  EWeights :: "(string \<times> rat) list"
  ENetPolicy :: smap
  ERoutes :: smap
  RateWindowSec :: int
  RateSoft :: int
  RateHard :: int
  EOverlayID :: string
  EOverlayStatus :: string
  EmptyOverlay :: bool

record boot_input =
  BGlobalMonitor :: bool
  BKillSwitch :: bool
  BRoutes :: smap
  BRateWindowSec :: int
  BRateSoft :: int
  BRateHard :: int
  BHMACKey :: bytes

definition defaultGates :: smap where
  "defaultGates = map (\<lambda>g. (g, ModeEnforce)) KnownGates"

definition mergeMap :: "(string \<times> 'v) list \<Rightarrow> (string \<times> 'v) list \<Rightarrow> (string \<times> 'v) list" where
  "mergeMap base ups = foldl (\<lambda>m kv. AList.update (fst kv) (snd kv) m) base ups"

definition isActive :: "overlay option \<Rightarrow> bool" where
  "isActive ov = (case ov of None \<Rightarrow> False | Some v \<Rightarrow> OStatus v = ''active'' \<or> OStatus v = [])"

definition bootEffective :: "boot_input \<Rightarrow> effective" where
  "bootEffective boot =
     (case ScoringDefaults of (ch, dn, lc) \<Rightarrow>
       \<lparr>ConfigVersion = [], EGlobalMonitor = BGlobalMonitor boot, EKillSwitch = BKillSwitch boot,
        EGates = defaultGates, EHardRules = [], ChallengeAt = ch, DenyAt = dn, LayerCap = lc,
        EWeights = [], ENetPolicy = [], ERoutes = BRoutes boot, RateWindowSec = BRateWindowSec boot,
        RateSoft = BRateSoft boot, RateHard = BRateHard boot, EOverlayID = [], EOverlayStatus = [],
        EmptyOverlay = True\<rparr>)"

definition applyScoring :: "scoring_patch option \<Rightarrow> effective \<Rightarrow> effective" where
  "applyScoring sp e =
     (case sp of
        None \<Rightarrow> e
      | Some s \<Rightarrow> e\<lparr>ChallengeAt := patched (pChallengeAt s) (ChallengeAt e),
                    DenyAt := patched (pDenyAt s) (DenyAt e),
                    LayerCap := patched (pLayerCap s) (LayerCap e)\<rparr>)"

definition applyRate :: "rate_patch option \<Rightarrow> effective \<Rightarrow> effective" where
  "applyRate rp e =
     (case rp of
        None \<Rightarrow> e
      | Some r \<Rightarrow> e\<lparr>RateWindowSec := patched (pWindowSec r) (RateWindowSec e),
                    RateSoft := patched (pSoft r) (RateSoft e),
                    RateHard := patched (pHard r) (RateHard e)\<rparr>)"

definition applyOverlay :: "overlay \<Rightarrow> effective \<Rightarrow> effective" where
  "applyOverlay v e =
     (let e1 = e\<lparr>EmptyOverlay := False, EOverlayID := OverlayID v,
                 EOverlayStatus := (if OStatus v = [] then ''active'' else OStatus v),
                 EGates := mergeMap (EGates e) (OGates v),
                 EHardRules := mergeMap (EHardRules e) (OHardRules v)\<rparr>;
          e2 = applyScoring (OScoring v) e1;
          e3 = e2\<lparr>EWeights := (if OWeights v \<noteq> [] then OWeights v else EWeights e2),
                  ENetPolicy := (if ONetPolicy v \<noteq> [] then ONetPolicy v else ENetPolicy e2),
                  ERoutes := mergeMap (ERoutes e2) (ORoutes v)\<rparr>;
          e4 = applyRate (ORateLimit v) e3
      in e4\<lparr>EGlobalMonitor := patched (OGlobalMonitor v) (EGlobalMonitor e4)\<rparr>)"

definition Resolve :: "'sk prims \<Rightarrow> (overlay \<Rightarrow> bytes option) \<Rightarrow> boot_input \<Rightarrow> overlay option \<Rightarrow> effective" where
  "Resolve P canonical boot act =
     (let e0 = bootEffective boot;
          e1 = (if isActive act then applyOverlay (the act) e0 else e0);
          e2 = (if BKillSwitch boot then e1\<lparr>EGlobalMonitor := True\<rparr> else e1)
      in e2\<lparr>ConfigVersion := HashConfigVersion P canonical (BHMACKey boot) (EGlobalMonitor e2) (BKillSwitch boot)
             (ERoutes e2) (RateWindowSec e2) (RateSoft e2) (RateHard e2) act\<rparr>)"

definition HRMode :: "effective \<Rightarrow> string \<Rightarrow> string" where
  "HRMode e i = (case map_of (EHardRules e) i of Some m \<Rightarrow> m | None \<Rightarrow> ModeEnforce)"

definition GateMode :: "effective \<Rightarrow> string \<Rightarrow> string" where
  "GateMode e i = (case map_of (EGates e) i of Some m \<Rightarrow> m | None \<Rightarrow> ModeEnforce)"

section \<open>Classification (classify.go)\<close>

text \<open>The code's order of severity is A, D, B, C; \<open>raise\<close> keeps the larger class.\<close>

fun classRank :: "mutation_class \<Rightarrow> nat" where
  "classRank ClassA = 1"
| "classRank ClassD = 2"
| "classRank ClassB = 3"
| "classRank ClassC = 4"

instantiation mutation_class :: linorder
begin

definition less_eq_mutation_class :: "mutation_class \<Rightarrow> mutation_class \<Rightarrow> bool" where
  "less_eq_mutation_class a b \<longleftrightarrow> classRank a \<le> classRank b"

definition less_mutation_class :: "mutation_class \<Rightarrow> mutation_class \<Rightarrow> bool" where
  "less_mutation_class a b \<longleftrightarrow> classRank a < classRank b"

instance
proof
  fix a b :: mutation_class
  show "a \<le> b \<Longrightarrow> b \<le> a \<Longrightarrow> a = b"
    by (cases a; cases b) (simp_all add: less_eq_mutation_class_def)
qed (auto simp: less_eq_mutation_class_def less_mutation_class_def)

end

text \<open>Raising a threshold above the current or the default value weakens enforcement.\<close>

definition thresholdRaises :: "rat option \<Rightarrow> rat \<Rightarrow> rat \<Rightarrow> mutation_class list" where
  "thresholdRaises p cur def =
     (case p of
        None \<Rightarrow> []
      | Some v \<Rightarrow>
          (if cur < v \<or> def < v then (if def + 15 < v then [ClassC] else [ClassB]) else [])
          @ (if v < cur then [ClassA] else []))"

definition scoringRaises :: "effective \<Rightarrow> scoring_patch option \<Rightarrow> mutation_class list" where
  "scoringRaises eff sp =
     (case sp of
        None \<Rightarrow> []
      | Some s \<Rightarrow>
          (case ScoringDefaults of (ch, dn, lc) \<Rightarrow>
            thresholdRaises (pChallengeAt s) (ChallengeAt eff) ch
            @ thresholdRaises (pDenyAt s) (DenyAt eff) dn
            @ (case pLayerCap s of
                 None \<Rightarrow> []
               | Some v \<Rightarrow> (if v < LayerCap eff \<or> v < lc then [ClassB] else [])
                          @ (if LayerCap eff < v then [ClassA] else []))))"

definition weightRaises :: "(string \<times> rat) list \<Rightarrow> mutation_class list" where
  "weightRaises ws =
     map (\<lambda>w. if snd w < 1 then ClassB else ClassA) (filter (\<lambda>w. snd w \<noteq> 1) ws)
     @ (if 5 \<le> length (filter (\<lambda>w. snd w = 0) ws) then [ClassC] else [])"

definition hardRuleRaises :: "effective \<Rightarrow> string \<times> string \<Rightarrow> mutation_class list" where
  "hardRuleRaises eff im =
     (let cur = HRMode eff (fst im); mode = snd im
      in (if mode = ModeMonitor \<and> cur = ModeEnforce
          then (if fst im \<in> set IntegrityCriticalEngineHRs then [ClassC] else [ClassB]) else [])
         @ (if mode = ModeEnforce \<and> cur = ModeMonitor then [ClassA] else []))"

definition gateRaises :: "effective \<Rightarrow> string \<times> string \<Rightarrow> mutation_class list" where
  "gateRaises eff im =
     (if snd im \<noteq> ModeEnforce \<and> GateMode eff (fst im) = ModeEnforce
      then (if fst im \<in> set IntegrityCriticalGates then [ClassC] else [ClassB]) else [])"

definition netRaises :: "effective \<Rightarrow> string \<times> string \<Rightarrow> mutation_class list" where
  "netRaises eff im =
     (let cur = (case map_of (ENetPolicy eff) (fst im) of
                   Some m \<Rightarrow> m
                 | None \<Rightarrow> if fst im = ''net.correlation'' then ModeEnforce else ModeMonitor)
      in if snd im = ModeMonitor \<and> cur = ModeEnforce
         then (if fst im = ''net.correlation'' then [ClassC] else [ClassB]) else [])"

definition routeRaises :: "effective \<Rightarrow> string \<times> string \<Rightarrow> mutation_class list" where
  "routeRaises eff pp =
     (let cur = patched (map_of (ERoutes eff) (fst pp)) []; preset = snd pp
      in (if (preset = ''monitor'' \<or> preset = ''off'') \<and> cur \<in> {''strict'', ''attested'', ''balanced''}
          then (if cur = ''attested'' \<or> cur = ''strict'' then [ClassD] else [ClassB]) else [])
         @ (if (preset = ''attested'' \<or> preset = ''strict'') \<and> cur \<in> {''monitor'', ''off'', []}
            then [ClassA] else []))"

definition rateRaises :: "effective \<Rightarrow> rate_patch option \<Rightarrow> mutation_class list" where
  "rateRaises eff rp =
     (case rp of
        None \<Rightarrow> []
      | Some r \<Rightarrow>
          (case pWindowSec r of
             None \<Rightarrow> []
           | Some v \<Rightarrow> (if v < RateWindowSec eff then [ClassB] else [])
                      @ (if RateWindowSec eff < v then [ClassA] else []))
          @ (case pHard r of None \<Rightarrow> [] | Some v \<Rightarrow> if RateHard eff < v then [ClassB] else [])
          @ (case pSoft r of None \<Rightarrow> [] | Some v \<Rightarrow> if RateSoft eff < v then [ClassB] else [])
          @ (case pHard r of None \<Rightarrow> [] | Some v \<Rightarrow> if v < RateHard eff then [ClassA] else [])
          @ (case pSoft r of None \<Rightarrow> [] | Some v \<Rightarrow> if v < RateSoft eff then [ClassA] else []))"

definition Classify :: "effective \<Rightarrow> overlay option \<Rightarrow> mutation_class" where
  "Classify eff ov =
     (case ov of
        None \<Rightarrow> ClassA
      | Some v \<Rightarrow>
          fold max
            (scoringRaises eff (OScoring v) @ weightRaises (OWeights v)
             @ concat (map (hardRuleRaises eff) (OHardRules v))
             @ concat (map (gateRaises eff) (OGates v))
             @ (if OGlobalMonitor v = Some True \<and> \<not> EGlobalMonitor eff then [ClassC] else [])
             @ concat (map (netRaises eff) (ONetPolicy v))
             @ concat (map (routeRaises eff) (ORoutes v))
             @ rateRaises eff (ORateLimit v))
            ClassA)"

section \<open>A validated overlay keeps the posture in bounds\<close>

lemma firstErr_None: "firstErr f xs = None \<longleftrightarrow> (\<forall>x \<in> set xs. f x = None)"
  by (induction xs) (auto split: option.splits)

lemma orElseErr_None: "orElseErr a b = None \<longleftrightarrow> a = None \<and> b = None"
  by (auto simp: orElseErr_def split: option.splits)

lemma Validate_parts:
  assumes "Validate (Some v) = None"
  shows "\<forall>x \<in> set (OGates v). validateGateMode x = None"
    and "\<forall>x \<in> set (OHardRules v). validateHRMode x = None"
    and "\<forall>x \<in> set (ONetPolicy v). validateNetMode x = None"
    and "OScoring v = Some sp \<Longrightarrow> validateScoring sp = None"
    and "\<forall>x \<in> set (OWeights v). validateWeight x = None"
    and "ORateLimit v = Some rp \<Longrightarrow> validateRate rp = None"
  using assms by (auto simp: Validate_def orElseErr_None firstErr_None split: if_splits)

lemma map_of_mergeMap:
  "map_of (mergeMap base ups) k = Some m \<Longrightarrow> map_of base k = Some m \<or> (k, m) \<in> set ups"
proof (induction ups arbitrary: base)
  case (Cons u us)
  then have "map_of (AList.update (fst u) (snd u) base) k = Some m \<or> (k, m) \<in> set us"
    by (simp add: mergeMap_def)
  then show ?case by (cases u) (auto simp: update_conv split: if_splits)
qed (simp add: mergeMap_def)

lemma map_of_mergeMap_None: "map_of (mergeMap base ups) k = None \<Longrightarrow> map_of base k = None"
proof (induction ups arbitrary: base)
  case (Cons u us)
  then have "map_of (AList.update (fst u) (snd u) base) k = None" by (simp add: mergeMap_def)
  then show ?case by (simp add: update_conv split: if_splits)
qed (simp add: mergeMap_def)

definition postureOK :: "effective \<Rightarrow> bool" where
  "postureOK e \<longleftrightarrow>
     10 \<le> ChallengeAt e \<and> ChallengeAt e \<le> 60 \<and> 40 \<le> DenyAt e \<and> DenyAt e \<le> 95
     \<and> 30 \<le> LayerCap e \<and> LayerCap e \<le> 80 \<and> ChallengeAt e < DenyAt e
     \<and> (\<forall>g \<in> set IntegrityCriticalGates. GateMode e g \<noteq> ModeOff)
     \<and> (\<forall>h. HRMode e h \<in> {ModeEnforce, ModeMonitor})
     \<and> map_of (ENetPolicy e) ''net.tcp'' \<noteq> Some ModeEnforce
     \<and> (\<forall>w \<in> set (EWeights e). 0 \<le> snd w \<and> snd w \<le> 2)"

lemma mode_neq [simp]:
  "ModeEnforce \<noteq> ModeOff" "ModeMonitor \<noteq> ModeOff" "ModeShadow \<noteq> ModeOff" "ModeOff \<noteq> ModeEnforce"
  "ModeEnforce \<noteq> ModeMonitor" "ModeMonitor \<noteq> ModeEnforce" "ModeOff \<noteq> ModeMonitor" "ModeOff \<noteq> ModeShadow"
  by (simp_all add: mode_defs)

lemma validateScoring_bounds:
  assumes "validateScoring s = None"
  shows "10 \<le> patched (pChallengeAt s) 30 \<and> patched (pChallengeAt s) 30 \<le> 60
    \<and> 40 \<le> patched (pDenyAt s) 70 \<and> patched (pDenyAt s) 70 \<le> 95
    \<and> 30 \<le> patched (pLayerCap s) 60 \<and> patched (pLayerCap s) 60 \<le> 80
    \<and> patched (pChallengeAt s) 30 < patched (pDenyAt s) 70"
  using assms
  by (auto simp: validateScoring_def ScoringDefaults_def outside_def patched_def Let_def not_less not_le
      split: if_splits option.splits)

lemma applyScoring_simps [simp]:
  "EGates (applyScoring sp e) = EGates e" "EHardRules (applyScoring sp e) = EHardRules e"
  "EWeights (applyScoring sp e) = EWeights e" "ENetPolicy (applyScoring sp e) = ENetPolicy e"
  "ERoutes (applyScoring sp e) = ERoutes e" "EGlobalMonitor (applyScoring sp e) = EGlobalMonitor e"
  "RateWindowSec (applyScoring sp e) = RateWindowSec e" "RateSoft (applyScoring sp e) = RateSoft e"
  "RateHard (applyScoring sp e) = RateHard e"
  by (auto simp: applyScoring_def split: option.splits)

lemma applyRate_simps [simp]:
  "EGates (applyRate rp e) = EGates e" "EHardRules (applyRate rp e) = EHardRules e"
  "EWeights (applyRate rp e) = EWeights e" "ENetPolicy (applyRate rp e) = ENetPolicy e"
  "ERoutes (applyRate rp e) = ERoutes e" "EGlobalMonitor (applyRate rp e) = EGlobalMonitor e"
  "ChallengeAt (applyRate rp e) = ChallengeAt e" "DenyAt (applyRate rp e) = DenyAt e"
  "LayerCap (applyRate rp e) = LayerCap e"
  by (auto simp: applyRate_def split: option.splits)

lemma applyOverlay_simps [simp]:
  "EGates (applyOverlay v e) = mergeMap (EGates e) (OGates v)"
  "EHardRules (applyOverlay v e) = mergeMap (EHardRules e) (OHardRules v)"
  "EWeights (applyOverlay v e) = (if OWeights v \<noteq> [] then OWeights v else EWeights e)"
  "ENetPolicy (applyOverlay v e) = (if ONetPolicy v \<noteq> [] then ONetPolicy v else ENetPolicy e)"
  "ERoutes (applyOverlay v e) = mergeMap (ERoutes e) (ORoutes v)"
  by (simp_all add: applyOverlay_def Let_def)

lemma applyOverlay_thresholds:
  assumes "Validate (Some v) = None"
  shows "10 \<le> ChallengeAt (applyOverlay v (bootEffective b)) \<and> ChallengeAt (applyOverlay v (bootEffective b)) \<le> 60
    \<and> 40 \<le> DenyAt (applyOverlay v (bootEffective b)) \<and> DenyAt (applyOverlay v (bootEffective b)) \<le> 95
    \<and> 30 \<le> LayerCap (applyOverlay v (bootEffective b)) \<and> LayerCap (applyOverlay v (bootEffective b)) \<le> 80
    \<and> ChallengeAt (applyOverlay v (bootEffective b)) < DenyAt (applyOverlay v (bootEffective b))"
proof (cases "OScoring v")
  case None
  then show ?thesis by (simp add: applyOverlay_def Let_def applyScoring_def bootEffective_def ScoringDefaults_def)
next
  case (Some sp)
  then show ?thesis using validateScoring_bounds [OF Validate_parts(4) [OF assms Some]]
    by (simp add: applyOverlay_def Let_def applyScoring_def bootEffective_def ScoringDefaults_def)
qed

lemma gate_not_off:
  assumes "Validate (Some v) = None" and "g \<in> set IntegrityCriticalGates"
  shows "(g, ModeOff) \<notin> set (OGates v)"
proof
  assume "(g, ModeOff) \<in> set (OGates v)"
  then have "validateGateMode (g, ModeOff) = None" using Validate_parts(1) [OF assms(1)] by blast
  then show False using assms(2) by (simp add: validateGateMode_def Let_def split: if_splits)
qed

lemma hr_mode_valid:
  assumes "Validate (Some v) = None" and "(h, m) \<in> set (OHardRules v)"
  shows "m = ModeEnforce \<or> m = ModeMonitor"
proof -
  have "validateHRMode (h, m) = None" using Validate_parts(2) [OF assms(1)] assms(2) by blast
  then show ?thesis by (simp add: validateHRMode_def Let_def split: if_splits)
qed

lemma defaultGates_enforce: "map_of defaultGates g = Some m \<Longrightarrow> m = ModeEnforce"
  by (auto simp: defaultGates_def dest: map_of_SomeD)

lemma postureOK_boot: "postureOK (bootEffective b)"
  by (auto simp: postureOK_def bootEffective_def ScoringDefaults_def GateMode_def HRMode_def
      dest: defaultGates_enforce split: option.splits)

lemma postureOK_overlay:
  assumes "Validate (Some v) = None"
  shows "postureOK (applyOverlay v (bootEffective b))"
proof -
  let ?e = "applyOverlay v (bootEffective b)"
  have boot: "EGates (bootEffective b) = defaultGates" "EHardRules (bootEffective b) = []"
    "ENetPolicy (bootEffective b) = []" "EWeights (bootEffective b) = []"
    by (simp_all add: bootEffective_def ScoringDefaults_def)
  have "GateMode ?e g \<noteq> ModeOff" if "g \<in> set IntegrityCriticalGates" for g
    using gate_not_off [OF assms that] map_of_mergeMap [of defaultGates "OGates v" g] defaultGates_enforce
    by (fastforce simp: GateMode_def boot split: option.splits)
  moreover have "HRMode ?e h \<in> {ModeEnforce, ModeMonitor}" for h
    using hr_mode_valid [OF assms] map_of_mergeMap [of "[]" "OHardRules v" h]
    by (fastforce simp: HRMode_def boot split: option.splits)
  moreover have "map_of (ENetPolicy ?e) ''net.tcp'' \<noteq> Some ModeEnforce"
  proof
    assume "map_of (ENetPolicy ?e) ''net.tcp'' = Some ModeEnforce"
    then have "(''net.tcp'', ModeEnforce) \<in> set (ONetPolicy v)" by (auto simp: boot dest: map_of_SomeD split: if_splits)
    then have "validateNetMode (''net.tcp'', ModeEnforce) = None" using Validate_parts(3) [OF assms] by blast
    then show False by (simp add: validateNetMode_def Let_def split: if_splits)
  qed
  moreover have "\<forall>w \<in> set (EWeights ?e). 0 \<le> snd w \<and> snd w \<le> 2"
  proof
    fix w assume "w \<in> set (EWeights ?e)"
    then have "validateWeight w = None" using Validate_parts(5) [OF assms] by (simp add: boot split: if_splits)
    then show "0 \<le> snd w \<and> snd w \<le> 2" by (simp add: validateWeight_def not_less split: if_splits)
  qed
  ultimately show ?thesis using applyOverlay_thresholds [OF assms, of b] by (simp add: postureOK_def)
qed

lemma postureOK_monitor [simp]:
  "postureOK (e\<lparr>EGlobalMonitor := m\<rparr>) = postureOK e" "postureOK (e\<lparr>ConfigVersion := c\<rparr>) = postureOK e"
  by (simp_all add: postureOK_def GateMode_def HRMode_def)

text \<open>
  C30. Whatever overlay an operator gets through validation, the effective posture
  keeps its thresholds in their bounds and in order, the integrity-critical gates are never off, no hard
  rule is off, transport-pattern evidence never enforces and signal weights stay between 0 and 2; and
  with the kill switch on, the posture is monitor.
\<close>

theorem posture_bounds:
  assumes "Validate act = None"
  shows "postureOK (Resolve P canonical boot act)
    \<and> (BKillSwitch boot \<longrightarrow> EGlobalMonitor (Resolve P canonical boot act))"
proof (cases "isActive act")
  case True
  then obtain v where "act = Some v" by (auto simp: isActive_def split: option.splits)
  then show ?thesis using postureOK_overlay [of v boot] assms True by (simp add: Resolve_def Let_def)
next
  case False
  then show ?thesis using postureOK_boot [of boot] by (simp add: Resolve_def Let_def)
qed

definition emptyOverlay :: overlay where
  "emptyOverlay = \<lparr>SchemaVersion = ''1.0.0'', OverlayID = ''ovl_1'', OCreatedAt = 0, OCreatedBy = ''alice'',
     ApprovedBy = [], OStatus = ''active'', ExpiresAt = None, ParentConfigVersion = [], MutationClass = ClassA,
     OGates = [], OHardRules = [], OScoring = None, OWeights = [], ONetPolicy = [], ORoutes = [],
     ORateLimit = None, OGlobalMonitor = None\<rparr>"

definition exBoot :: boot_input where
  "exBoot = \<lparr>BGlobalMonitor = False, BKillSwitch = False, BRoutes = [(''/checkout'', ''attested'')],
     BRateWindowSec = 10, BRateSoft = 60, BRateHard = 120, BHMACKey = ''k''\<rparr>"

theorem posture_bounds_witness:
  "postureOK (Resolve toyPrims (\<lambda>_. Some []) exBoot
     (Some (emptyOverlay\<lparr>OScoring := Some \<lparr>pChallengeAt = Some 50, pDenyAt = Some 90, pLayerCap = None\<rparr>,
                         OGates := [(''gate.smuggle'', ModeMonitor)]\<rparr>)))"
proof -
  have "Validate (Some (emptyOverlay\<lparr>OScoring := Some \<lparr>pChallengeAt = Some 50, pDenyAt = Some 90, pLayerCap = None\<rparr>,
                         OGates := [(''gate.smuggle'', ModeMonitor)]\<rparr>)) = None"
    by (simp add: Validate_def emptyOverlay_def validateScoring_def validateGateMode_def ScoringDefaults_def
        outside_def patched_def orElseErr_def Let_def KnownGates_def mode_defs)
  then show ?thesis using posture_bounds by blast
qed

section \<open>Weakenings that count as class A\<close>

text \<open>
  Class A is applied without a second person. Three weakenings get it
  whatever the current posture is: an attested or strict route set to \<open>balanced\<close>; a prefix without an
  entry of its own set to \<open>off\<close>, below a strict route too; and the empty overlay, which replaces an
  active overlay that tightened the posture.
\<close>

theorem weakening_class_A:
  assumes "map_of (ERoutes eff) p = Some ''attested''" and "map_of (ERoutes eff) q = None"
  shows "Classify eff (Some (emptyOverlay\<lparr>ORoutes := [(p, ''balanced'')]\<rparr>)) = ClassA
    \<and> Classify eff (Some (emptyOverlay\<lparr>ORoutes := [(q, ''off'')]\<rparr>)) = ClassA
    \<and> Classify eff (Some emptyOverlay) = ClassA
    \<and> Validate (Some (emptyOverlay\<lparr>ORoutes := [(p, ''balanced'')]\<rparr>)) = None
    \<and> Validate (Some (emptyOverlay\<lparr>ORoutes := [(q, ''off'')]\<rparr>)) = None
    \<and> Validate (Some emptyOverlay) = None"
  using assms
  by (simp add: Classify_def emptyOverlay_def scoringRaises_def weightRaises_def rateRaises_def routeRaises_def
      patched_def Validate_def orElseErr_def Let_def)

theorem weakening_class_A_witness:
  "Classify (Resolve toyPrims (\<lambda>_. Some []) exBoot None) (Some (emptyOverlay\<lparr>ORoutes := [(''/checkout'', ''balanced'')]\<rparr>)) = ClassA
   \<and> map_of (ERoutes (Resolve toyPrims (\<lambda>_. Some []) exBoot None)) ''/checkout'' = Some ''attested''"
proof -
  have "ERoutes (Resolve toyPrims (\<lambda>_. Some []) exBoot None) = [(''/checkout'', ''attested'')]"
    by (simp add: Resolve_def bootEffective_def ScoringDefaults_def isActive_def exBoot_def Let_def)
  then show ?thesis
    using weakening_class_A [of "Resolve toyPrims (\<lambda>_. Some []) exBoot None" "''/checkout''" "''/checkout/pay''"]
    by simp
qed

text \<open>A prefix of slashes is a catch-all (\<open>segmentMatch\<close> trims it to the empty prefix) that validation accepts.\<close>

lemma attested_catch_all_accepted:
  "Validate (Some (emptyOverlay\<lparr>ORoutes := [(''//'', ''attested'')]\<rparr>)) = None"
  by (simp add: Validate_def emptyOverlay_def orElseErr_def)

end
