(* ===== verification/EdgeGuard.thy ===== *)
theory EdgeGuard
  imports Settings
begin

text \<open>
  What the edge looks at before it decides: the request (\<open>internal/gate/request.go\<close>), the route policy
  (\<open>config.go\<close>), framing ambiguities (\<open>smuggle.go\<close>), forged trust headers (\<open>guard.go\<close>), session sweeps
  (\<open>recon.go\<close>), fingerprint bindings (\<open>token.go\<close>) and incident handles (\<open>incident.go\<close>).

  A request carries the header map with canonical names, the cookies \<open>net/http\<close> parsed, and the
  address and subnet that \<open>clientIP\<close> and \<open>clientSubnet\<close> derive from the socket with package \<open>net\<close>.
\<close>

section \<open>String functions of the standard library\<close>

definition lowerChar :: "char \<Rightarrow> char" where
  "lowerChar c = (let n = of_char c :: nat in if 65 \<le> n \<and> n \<le> 90 then char_of (n + 32) else c)"

text \<open>
  \<open>strings.EqualFold\<close> against an ASCII string: besides the ASCII letters, the Kelvin sign (\<open>E2 84 AA\<close>)
  folds to \<open>k\<close> and the long s (\<open>C5 BF\<close>) to \<open>s\<close>.
\<close>

fun foldASCII :: "string \<Rightarrow> string" where
  "foldASCII [] = []"
| "foldASCII (a # b # c # cs) =
     (if a = CHR 0xE2 \<and> b = CHR 0x84 \<and> c = CHR 0xAA then CHR ''k'' # foldASCII cs
      else if a = CHR 0xC5 \<and> b = CHR 0xBF then CHR ''s'' # foldASCII (c # cs)
      else lowerChar a # foldASCII (b # c # cs))"
| "foldASCII [a, b] = (if a = CHR 0xC5 \<and> b = CHR 0xBF then ''s'' else [lowerChar a, lowerChar b])"
| "foldASCII [a] = [lowerChar a]"

definition equalFold :: "string \<Rightarrow> string \<Rightarrow> bool" where
  "equalFold s ascii \<longleftrightarrow> foldASCII s = foldASCII ascii"

definition containsStr :: "string \<Rightarrow> string \<Rightarrow> bool" where
  "containsStr s t \<longleftrightarrow> (\<exists>i \<in> set [0..<Suc (length s)]. take (length t) (drop i s) = t)"

definition hasPrefix :: "string \<Rightarrow> string \<Rightarrow> bool" where
  "hasPrefix s p \<longleftrightarrow> take (length p) s = p"

text \<open>The UTF-8 encodings of the white space \<open>strings.TrimSpace\<close> removes.\<close>

definition spaceSeqs :: "string list" where
  "spaceSeqs = [[CHR 0x09], [CHR 0x0A], [CHR 0x0B], [CHR 0x0C], [CHR 0x0D], [CHR 0x20], [CHR 0xC2, CHR 0x85],
     [CHR 0xC2, CHR 0xA0], [CHR 0xE1, CHR 0x9A, CHR 0x80], [CHR 0xE2, CHR 0x80, CHR 0xA8],
     [CHR 0xE2, CHR 0x80, CHR 0xA9], [CHR 0xE2, CHR 0x80, CHR 0xAF], [CHR 0xE2, CHR 0x81, CHR 0x9F],
     [CHR 0xE3, CHR 0x80, CHR 0x80]]
     @ map (\<lambda>n. [CHR 0xE2, CHR 0x80, char_of (128 + n)]) [0..<11]"

definition spacePrefix :: "string list \<Rightarrow> string \<Rightarrow> nat" where
  "spacePrefix seqs s = (case filter (hasPrefix s) seqs of [] \<Rightarrow> 0 | q # _ \<Rightarrow> length q)"

function trimLeftSeqs :: "string list \<Rightarrow> string \<Rightarrow> string" where
  "trimLeftSeqs seqs s =
     (if s = [] \<or> spacePrefix seqs s = 0 then s else trimLeftSeqs seqs (drop (spacePrefix seqs s) s))"
  by auto
termination by (relation "measure (length \<circ> snd)") auto

declare trimLeftSeqs.simps [simp del]

definition trimSpace :: "string \<Rightarrow> string" where
  "trimSpace s = rev (trimLeftSeqs (map rev spaceSeqs) (rev (trimLeftSeqs spaceSeqs s)))"

definition trimRightSlash :: "string \<Rightarrow> string" where
  "trimRightSlash s = rev (dropWhile (\<lambda>c. c = CHR ''/'') (rev s))"

text \<open>\<open>path.Clean\<close> on a rooted path.\<close>

definition cleanStep :: "string list \<Rightarrow> string \<Rightarrow> string list" where
  "cleanStep out seg =
     (if seg = [] \<or> seg = ''.'' then out else if seg = ''..'' then butlast out else out @ [seg])"

definition cleanRooted :: "string \<Rightarrow> string" where
  "cleanRooted p = CHR ''/'' # joinWith ''/'' (foldl cleanStep [] (splitOn CHR ''/'' p))"

section \<open>Requests (request.go, token.go)\<close>

record request =
  rMethod :: string
  rPath :: string
  rHost :: string
  rHeader :: "(string \<times> string list) list"
  rCookies :: "(string \<times> string) list"
  rContentLength :: int
  rClientIP :: string
  rSubnet :: string

definition hValues :: "request \<Rightarrow> string \<Rightarrow> string list" where
  "hValues r k = (case map_of (rHeader r) k of None \<Rightarrow> [] | Some vs \<Rightarrow> vs)"

definition hGet :: "request \<Rightarrow> string \<Rightarrow> string" where
  "hGet r k = (case hValues r k of [] \<Rightarrow> [] | v # _ \<Rightarrow> v)"

definition cookie :: "request \<Rightarrow> string \<Rightarrow> string" where
  "cookie r name = (case map_of (rCookies r) name of None \<Rightarrow> [] | Some v \<Rightarrow> v)"

definition sessionID :: "request \<Rightarrow> string" where
  "sessionID r = cookie r ''hsid''"

definition routeClass :: "request \<Rightarrow> string" where
  "routeClass r =
     (if equalFold (hGet r ''Upgrade'') ''websocket'' \<or> hGet r ''Sec-Websocket-Key'' \<noteq> [] then ''upgrade''
      else let accept = hGet r ''Accept''; dest = hGet r ''Sec-Fetch-Dest''
      in if dest = ''document'' \<or> containsStr accept ''text/html'' then ''html''
         else if containsStr accept ''application/json'' \<or> dest = ''empty'' then ''api''
         else ''static'')"

definition bindKey :: "'sk prims \<Rightarrow> request \<Rightarrow> string" where
  "bindKey P r =
     (if hGet r ''User-Agent'' = [] then []
      else b64Encode (take 12 (sha256 P (hGet r ''User-Agent'' @ [CHR 0x00] @ hGet r ''Accept-Language'' @ [CHR 0x00]
             @ hGet r ''Sec-Ch-Ua''))))"

definition tokenBind :: "'sk prims \<Rightarrow> request \<Rightarrow> string" where
  "tokenBind P r = b64Encode (take 16 (sha256 P (bindKey P r @ [CHR 0x00] @ rSubnet r)))"

definition latencyUS :: "int \<Rightarrow> int \<Rightarrow> 32 word" where
  "latencyUS start now =
     (if start = zeroTime then 0
      else let us = timeSub now start sdiv 1000
           in if us \<le> 0 then 0 else if 4294967295 < us then 4294967295 else word_of_int us)"

datatype transport_error = NoError | Canceled | DeadlineExceeded | NetTimeout | OtherError string

definition upstreamErrorClass :: "transport_error \<Rightarrow> string" where
  "upstreamErrorClass e =
     (case e of
        NoError \<Rightarrow> [] | Canceled \<Rightarrow> ''canceled'' | DeadlineExceeded \<Rightarrow> ''timeout'' | NetTimeout \<Rightarrow> ''timeout''
      | OtherError msg \<Rightarrow>
          if containsStr msg ''connection refused'' then ''connection_refused''
          else if containsStr msg ''no such host'' then ''dns''
          else if containsStr msg ''EOF'' then ''eof''
          else ''unreachable'')"

section \<open>Route policies (config.go)\<close>

record route_policy =
  rpName :: string
  inject :: bool
  enforce :: bool
  failClosed :: bool
  syncScore :: bool
  attestFloor :: bool

definition presetStrict :: route_policy where
  "presetStrict = \<lparr>rpName = ''strict'', inject = True, enforce = True, failClosed = True, syncScore = True, attestFloor = False\<rparr>"
definition presetBalanced :: route_policy where
  "presetBalanced = \<lparr>rpName = ''balanced'', inject = True, enforce = True, failClosed = False, syncScore = False, attestFloor = False\<rparr>"
definition presetMonitor :: route_policy where
  "presetMonitor = \<lparr>rpName = ''monitor'', inject = True, enforce = False, failClosed = False, syncScore = False, attestFloor = False\<rparr>"
definition presetOff :: route_policy where
  "presetOff = \<lparr>rpName = ''off'', inject = False, enforce = False, failClosed = False, syncScore = False, attestFloor = False\<rparr>"
definition presetAttested :: route_policy where
  "presetAttested = \<lparr>rpName = ''attested'', inject = True, enforce = True, failClosed = True, syncScore = True, attestFloor = True\<rparr>"

definition presetByName :: "string \<Rightarrow> route_policy" where
  "presetByName n =
     (if n = ''strict'' then presetStrict else if n = ''attested'' then presetAttested
      else if n = ''monitor'' then presetMonitor else if n = ''off'' then presetOff else presetBalanced)"

definition normalizeMatchPath :: "string \<Rightarrow> string" where
  "normalizeMatchPath p =
     (if p = [] then ''/''
      else cleanRooted (if hasPrefix p ''/'' then p else CHR ''/'' # p))"

definition segmentMatch :: "string \<Rightarrow> string \<Rightarrow> bool" where
  "segmentMatch p pre =
     (if pre = [] \<or> pre = ''/'' then True
      else let t = trimRightSlash pre in p = t \<or> hasPrefix p (t @ ''/''))"

text \<open>The loop over the routes: the longest matching prefix so far and its policy.\<close>

fun bestRoute :: "string \<Rightarrow> smap \<Rightarrow> route_policy \<Rightarrow> int \<Rightarrow> route_policy" where
  "bestRoute p [] best bestLen = best"
| "bestRoute p ((pre, preset) # rs) best bestLen =
     (if segmentMatch p pre \<and> bestLen < int (length pre)
      then bestRoute p rs (presetByName preset) (int (length pre))
      else bestRoute p rs best bestLen)"

definition resolveRoute :: "smap \<Rightarrow> bool \<Rightarrow> string \<Rightarrow> route_policy" where
  "resolveRoute routes globalMonitor rawPath =
     (let best = bestRoute (normalizeMatchPath rawPath) routes presetBalanced (- 1)
      in if globalMonitor then best\<lparr>enforce := False\<rparr> else best)"

definition DefaultRateWindow :: int where "DefaultRateWindow = 10000000000"
definition DefaultRateSoft :: int where "DefaultRateSoft = 60"
definition DefaultRateHard :: int where "DefaultRateHard = 120"

definition rlWindow :: "int \<Rightarrow> int" where "rlWindow w = (if 0 < w then w else DefaultRateWindow)"
definition rlSoft :: "int \<Rightarrow> int" where "rlSoft s = (if 0 < s then s else DefaultRateSoft)"
definition rlHard :: "int \<Rightarrow> int" where "rlHard h = (if 0 < h then h else DefaultRateHard)"
definition erasureHold :: "int \<Rightarrow> int" where "erasureHold h = (if 0 < h then h else 300000000000)"

section \<open>Framing and trust headers (smuggle.go, guard.go)\<close>

datatype smuggle_reason = SmuggleNone | SmuggleTECL | SmuggleDupCL | SmuggleBadTE | SmuggleObsFold

definition smuggleText :: "smuggle_reason \<Rightarrow> string" where
  "smuggleText x =
     (case x of SmuggleNone \<Rightarrow> [] | SmuggleTECL \<Rightarrow> ''te_cl_conflict'' | SmuggleDupCL \<Rightarrow> ''ambiguous_len''
      | SmuggleBadTE \<Rightarrow> ''te_not_chunked'' | SmuggleObsFold \<Rightarrow> ''obs_fold'')"

definition smuggleScan :: "request \<Rightarrow> smuggle_reason" where
  "smuggleScan r =
     (let te = hValues r ''Transfer-Encoding''; cl = hValues r ''Content-Length''
      in if te \<noteq> [] \<and> cl \<noteq> [] then SmuggleTECL
         else if 1 < length cl then SmuggleDupCL
         else if 1 < length te then SmuggleBadTE
         else if (\<exists>v \<in> set te. \<not> equalFold (trimSpace v) ''chunked'') then SmuggleBadTE
         else if (\<exists>h \<in> set (rHeader r). \<exists>v \<in> set (snd h). CHR 0x0D \<in> set v \<or> CHR 0x0A \<in> set v) then SmuggleObsFold
         else SmuggleNone)"

definition internalHeaders :: "string list" where
  "internalHeaders = [''X-Hmny-Origin-Auth'', ''X-Hmn-Verdict'', ''X-Forwarded-For'', ''X-Real-Ip'', ''Forwarded'', ''Cf-Connecting-Ip'']"

definition spoofScan :: "request \<Rightarrow> string list" where
  "spoofScan r = filter (\<lambda>h. hGet r h \<noteq> []) internalHeaders"

definition stripInbound :: "request \<Rightarrow> request" where
  "stripInbound r = r\<lparr>rHeader := filter (\<lambda>h. fst h \<notin> set internalHeaders) (rHeader r)\<rparr>"

section \<open>Session sweeps (recon.go)\<close>

record bind_window =
  sessions :: "(string \<times> int) list"
  bwFirst :: int

record sweep_detector =
  byBind :: "string \<rightharpoonup> bind_window"
  swWindow :: int
  maxSess :: int

definition NewSweepDetector :: "int \<Rightarrow> int \<Rightarrow> sweep_detector" where
  "NewSweepDetector w m = \<lparr>byBind = Map.empty, swWindow = w, maxSess = m\<rparr>"

definition SweepGC :: "sweep_detector \<Rightarrow> int \<Rightarrow> sweep_detector" where
  "SweepGC d now =
     d\<lparr>byBind := (\<lambda>k. case byBind d k of
                       None \<Rightarrow> None
                     | Some bw \<Rightarrow> if 2 * swWindow d < timeSub now (bwFirst bw) then None else Some bw)\<rparr>"

definition SweepObserve :: "sweep_detector \<Rightarrow> string \<Rightarrow> string \<Rightarrow> int \<Rightarrow> sweep_detector \<times> bool" where
  "SweepObserve d bind sid now =
     (if bind = [] then (d, False)
      else let old = (case byBind d bind of None \<Rightarrow> [] | Some bw \<Rightarrow> sessions bw);
               kept = filter (\<lambda>e. \<not> snd e < now - swWindow d) old;
               ses = AList.update sid now kept
           in (d\<lparr>byBind := (byBind d)(bind \<mapsto> \<lparr>sessions = ses, bwFirst = now\<rparr>)\<rparr>, maxSess d < int (length ses)))"

section \<open>Incident handles (incident.go)\<close>

definition upperChar :: "char \<Rightarrow> char" where
  "upperChar c = (let n = of_char c :: nat in if 97 \<le> n \<and> n \<le> 122 then char_of (n - 32) else c)"

definition putUint64 :: "64 word \<Rightarrow> bytes" where
  "putUint64 w = putUint32 (unat w div 2 ^ 32) @ putUint32 (unat w mod 2 ^ 32)"

definition incidentHandle :: "'sk prims \<Rightarrow> bytes \<Rightarrow> 64 word \<Rightarrow> string" where
  "incidentHandle P key seq =
     ''INC-'' @ map upperChar (hexEncode (take 5 (hmacSha P key (''incident|'' @ putUint64 seq))))"

fun resolveIncident :: "'sk prims \<Rightarrow> bytes \<Rightarrow> audit_record list \<Rightarrow> string \<Rightarrow> audit_record option" where
  "resolveIncident P key [] handle = None"
| "resolveIncident P key (r # rs) handle =
     (if incidentHandle P key (Seq r) = handle then Some (r\<lparr>Incident := handle\<rparr>)
      else resolveIncident P key rs handle)"

section \<open>Route selection\<close>

definition cleanSeg :: "string \<Rightarrow> bool" where
  "cleanSeg x \<longleftrightarrow> x \<noteq> [] \<and> x \<noteq> ''.'' \<and> x \<noteq> ''..'' \<and> CHR ''/'' \<notin> set x"

lemma splitOn_no_char: "x \<in> set (splitOn c s) \<Longrightarrow> c \<notin> set x"
  by (induction s arbitrary: x) (auto split: if_splits list.splits)

lemma cleanStep_clean:
  assumes "\<forall>x \<in> set out. cleanSeg x" and "CHR ''/'' \<notin> set seg"
  shows "\<forall>x \<in> set (cleanStep out seg). cleanSeg x"
  using assms by (auto simp: cleanStep_def cleanSeg_def dest: in_set_butlastD)

lemma foldl_cleanStep_clean:
  assumes "\<forall>x \<in> set out. cleanSeg x" and "\<forall>x \<in> set segs. CHR ''/'' \<notin> set x"
  shows "\<forall>x \<in> set (foldl cleanStep out segs). cleanSeg x"
  using assms
proof (induction segs arbitrary: out)
  case (Cons seg segs)
  have "\<forall>x \<in> set (cleanStep out seg). cleanSeg x"
    using Cons.prems(2) by (intro cleanStep_clean [OF Cons.prems(1)]) simp
  from Cons.IH [OF this] show ?case using Cons.prems(2) by simp
qed simp

lemma foldl_cleanStep_id:
  "\<forall>x \<in> set segs. cleanSeg x \<Longrightarrow> foldl cleanStep out segs = out @ segs"
  by (induction segs arbitrary: out) (auto simp: cleanStep_def cleanSeg_def)

lemma cleanRooted_idem: "cleanRooted (cleanRooted p) = cleanRooted p"
proof -
  define segs where "segs = foldl cleanStep [] (splitOn CHR ''/'' p)"
  have clean: "\<forall>x \<in> set segs. cleanSeg x"
    unfolding segs_def by (intro foldl_cleanStep_clean) (auto dest: splitOn_no_char)
  have split: "splitOn CHR ''/'' (CHR ''/'' # joinWith ''/'' segs) = [] # (if segs = [] then [[]] else segs)"
    using clean splitOn_joinWith [of segs "CHR ''/''"] by (auto simp: cleanSeg_def)
  have "foldl cleanStep [] (splitOn CHR ''/'' (CHR ''/'' # joinWith ''/'' segs)) = segs"
    unfolding split using clean foldl_cleanStep_id [of segs "[]"] by (auto simp: cleanStep_def)
  then show ?thesis by (simp add: cleanRooted_def segs_def)
qed

lemma normalizeMatchPath_idem: "normalizeMatchPath (normalizeMatchPath p) = normalizeMatchPath p"
proof -
  have root: "cleanRooted ''/'' = ''/''" by (simp add: cleanRooted_def cleanStep_def)
  have pre: "hasPrefix (cleanRooted q) ''/''" for q by (simp add: cleanRooted_def hasPrefix_def)
  have ne: "cleanRooted q \<noteq> []" for q by (simp add: cleanRooted_def)
  show ?thesis using pre ne cleanRooted_idem root by (auto simp: normalizeMatchPath_def hasPrefix_def)
qed

definition matching :: "smap \<Rightarrow> string \<Rightarrow> smap" where
  "matching routes p = filter (\<lambda>r. segmentMatch p (fst r)) routes"

lemma matching_simps:
  "matching [] p = []"
  "matching ((pre, preset) # rs) p = (if segmentMatch p pre then (pre, preset) # matching rs p else matching rs p)"
  by (auto simp: matching_def)

lemma bestRoute_spec:
  "bestRoute p rs best n = best \<and> (\<forall>m \<in> set (matching rs p). int (length (fst m)) \<le> n) \<or>
   (\<exists>m \<in> set (matching rs p). bestRoute p rs best n = presetByName (snd m) \<and> n < int (length (fst m)) \<and>
      (\<forall>m' \<in> set (matching rs p). length (fst m') \<le> length (fst m)))"
proof (induction rs arbitrary: best n)
  case Nil
  then show ?case by (simp add: matching_simps)
next
  case (Cons r rs)
  obtain pre preset where r: "r = (pre, preset)" by fastforce
  show ?case
  proof (cases "segmentMatch p pre \<and> n < int (length pre)")
    case True
    then show ?thesis using Cons.IH [of "presetByName preset" "int (length pre)"]
      by (auto simp: r matching_simps)
  next
    case False
    then show ?thesis using Cons.IH [of best n] by (auto simp: r matching_simps)
  qed
qed

text \<open>
  The policy of a request is the preset of a longest route prefix that
  matches the path after normalisation, and the balanced preset when none matches. How the path is spelled
  does not matter: the path and its normal form have the same policy, in every order of the routes that
  the map iteration may choose.
\<close>

theorem longest_prefix_wins:
  "resolveRoute routes mon (normalizeMatchPath path) = resolveRoute routes mon path \<and>
   (matching routes (normalizeMatchPath path) = [] \<longrightarrow>
      resolveRoute routes False path = presetBalanced) \<and>
   (matching routes (normalizeMatchPath path) \<noteq> [] \<longrightarrow>
      (\<exists>m \<in> set (matching routes (normalizeMatchPath path)).
         resolveRoute routes False path = presetByName (snd m) \<and>
         (\<forall>m' \<in> set (matching routes (normalizeMatchPath path)). length (fst m') \<le> length (fst m)))) \<and>
   \<not> enforce (resolveRoute routes True path)"
proof -
  have spec: "matching routes (normalizeMatchPath path) = [] \<longrightarrow> resolveRoute routes False path = presetBalanced"
    using bestRoute_spec [of "normalizeMatchPath path" routes presetBalanced "-1"] by (auto simp: resolveRoute_def)
  have spec': "matching routes (normalizeMatchPath path) \<noteq> [] \<longrightarrow>
      (\<exists>m \<in> set (matching routes (normalizeMatchPath path)).
         resolveRoute routes False path = presetByName (snd m) \<and>
         (\<forall>m' \<in> set (matching routes (normalizeMatchPath path)). length (fst m') \<le> length (fst m)))"
  proof
    assume "matching routes (normalizeMatchPath path) \<noteq> []"
    then have no: "\<not> (\<forall>m \<in> set (matching routes (normalizeMatchPath path)). int (length (fst m)) \<le> - 1)"
      by (cases "matching routes (normalizeMatchPath path)") auto
    show "\<exists>m \<in> set (matching routes (normalizeMatchPath path)).
         resolveRoute routes False path = presetByName (snd m) \<and>
         (\<forall>m' \<in> set (matching routes (normalizeMatchPath path)). length (fst m') \<le> length (fst m))"
      using bestRoute_spec [of "normalizeMatchPath path" routes presetBalanced "-1"] no
      by (auto simp: resolveRoute_def)
  qed
  have same: "resolveRoute routes mon (normalizeMatchPath path) = resolveRoute routes mon path"
    by (simp add: resolveRoute_def normalizeMatchPath_idem)
  show ?thesis by (intro conjI same spec spec') (simp add: resolveRoute_def Let_def)
qed

theorem longest_prefix_wins_witness:
  "resolveRoute [(''/'', ''monitor''), (''/admin'', ''strict'')] False ''//x/../admin/./users'' = presetStrict"
  using longest_prefix_wins [of "[(''/'', ''monitor''), (''/admin'', ''strict'')]" False "''//x/../admin/./users''"]
  by (auto simp: matching_def normalizeMatchPath_def hasPrefix_def cleanRooted_def cleanStep_def segmentMatch_def
      trimRightSlash_def Let_def presetByName_def)

section \<open>Trust headers\<close>

lemma hValues_stripInbound: "hValues (stripInbound r) h = (if h \<in> set internalHeaders then [] else hValues r h)"
proof -
  have "map_of (filter (\<lambda>e. fst e \<notin> set internalHeaders) hs) h = (if h \<in> set internalHeaders then None else map_of hs h)"
    for hs :: "(string \<times> string list) list"
    by (induction hs) auto
  then show ?thesis by (simp add: hValues_def stripInbound_def)
qed

lemma spoofScan_stripInbound: "spoofScan (stripInbound r) = []"
  by (simp add: spoofScan_def hGet_def hValues_stripInbound)

end
