(* ===== verification/Credentials.thy ===== *)
theory Credentials
  imports EdgeGuard
begin

text \<open>
  The three credentials that lift a request past behavioural scoring: Web Bot Auth signatures
  (\<open>internal/gate/webbotauth.go\<close>), Private Access Tokens (\<open>privacypass.go\<close>) and WebAuthn assertions
  (\<open>webauthn.go\<close>).

  Public keys are represented by their DER encodings. RSA-PSS, ECDSA and SHA-384, the parsers of
  \<open>crypto/x509\<close> and \<open>encoding/json\<close>, and the blocks \<open>encoding/pem\<close> finds in a file are arguments
  (\<open>cred_prims\<close>). \<open>net/http\<close> admits only ASCII in methods and hosts, so upper and lower case are the
  ASCII ones.
\<close>

section \<open>String functions of the standard library\<close>

text \<open>\<open>base64.StdEncoding\<close>, and its unpadded form, on top of the URL alphabet.\<close>

definition stdChar :: "char \<Rightarrow> char" where
  "stdChar c =
     (if c = CHR ''+'' then CHR ''-'' else if c = CHR ''/'' then CHR ''_''
      else if c = CHR ''-'' \<or> c = CHR ''_'' then CHR ''*'' else c)"

definition rawStdDecode :: "string \<Rightarrow> bytes option" where
  "rawStdDecode s = b64Decode (map stdChar s)"

definition stdDecode :: "string \<Rightarrow> bytes option" where
  "stdDecode s =
     (let t = filter (\<lambda>c. \<not> isNewline c) s;
          body = takeWhile (\<lambda>c. c \<noteq> CHR ''='') t;
          pad = dropWhile (\<lambda>c. c \<noteq> CHR ''='') t
      in if length t mod 4 = 0 \<and> pad \<in> {[], ''='', ''==''} then rawStdDecode body else None)"

definition decodeB64Loose :: "string \<Rightarrow> bytes option" where
  "decodeB64Loose s = (case stdDecode s of Some b \<Rightarrow> Some b | None \<Rightarrow> rawStdDecode s)"

text \<open>\<open>strings.Fields\<close>: \<open>acc\<close> is the field being read.\<close>

function fieldsFrom :: "string \<Rightarrow> string \<Rightarrow> string list" where
  "fieldsFrom acc s =
     (case s of
        [] \<Rightarrow> if acc = [] then [] else [acc]
      | c # cs \<Rightarrow>
          if spacePrefix spaceSeqs s = 0 then fieldsFrom (acc @ [c]) cs
          else (if acc = [] then [] else [acc]) @ fieldsFrom [] (drop (spacePrefix spaceSeqs s) s))"
  by pat_completeness auto
termination by (relation "measure (length \<circ> snd)") auto

declare fieldsFrom.simps [simp del]

definition splitFields :: "string \<Rightarrow> string list" where
  "splitFields s = fieldsFrom [] s"

definition trimQuotes :: "string \<Rightarrow> string" where
  "trimQuotes s = rev (dropWhile (\<lambda>c. c = CHR 0x22) (rev (dropWhile (\<lambda>c. c = CHR 0x22) s)))"

text \<open>\<open>strings.Cut\<close> around a byte, and \<open>strings.Index\<close> of a non-empty string.\<close>

definition cutAt :: "char \<Rightarrow> string \<Rightarrow> (string \<times> string) option" where
  "cutAt sep s =
     (if sep \<in> set s then Some (takeWhile (\<lambda>c. c \<noteq> sep) s, tl (dropWhile (\<lambda>c. c \<noteq> sep) s)) else None)"

fun afterSub :: "string \<Rightarrow> string \<Rightarrow> string option" where
  "afterSub sub [] = None"
| "afterSub sub (c # cs) =
     (if hasPrefix (c # cs) sub then Some (drop (length sub) (c # cs)) else afterSub sub cs)"

definition toLower :: "string \<Rightarrow> string" where "toLower s = map lowerChar s"
definition toUpper :: "string \<Rightarrow> string" where "toUpper s = map upperChar s"

text \<open>Arithmetic on \<open>int64\<close> wraps around.\<close>

definition wrap64 :: "int \<Rightarrow> int" where
  "wrap64 x = sint (word_of_int x :: 64 word)"

section \<open>Web Bot Auth (webbotauth.go)\<close>

datatype agent_verdict = AgentNone | AgentVerifiedTrusted | AgentVerifiedUnknown | AgentForged

type_synonym key_directory = "(string \<times> bytes) list"

fun addKeyLine :: "key_directory \<Rightarrow> string \<Rightarrow> key_directory" where
  "addKeyLine d line =
     (let l = trimSpace line
      in if l = [] \<or> hasPrefix l ''#'' then d
         else case splitFields l of
                [k, v] \<Rightarrow> (case b64Decode v of
                             Some raw \<Rightarrow> if length raw = 32 then AList.update k raw d else d
                           | None \<Rightarrow> d)
              | _ \<Rightarrow> d)"

definition NewStaticKeyDirectory :: "string \<Rightarrow> key_directory" where
  "NewStaticKeyDirectory spec = foldl addKeyLine [] (splitOn CHR 0x0A spec)"

record sig_params =
  components :: "string list"
  inner :: string
  created :: int
  expires :: int
  keyid :: string
  alg :: string
  tag :: string
  nonce :: string

definition noParams :: sig_params where
  "noParams = \<lparr>components = [], inner = [], created = 0, expires = 0, keyid = [], alg = [], tag = [], nonce = []\<rparr>"

definition setParam :: "sig_params \<Rightarrow> string \<Rightarrow> sig_params" where
  "setParam p item =
     (case cutAt CHR ''='' (trimSpace item) of
        None \<Rightarrow> p
      | Some (k, v0) \<Rightarrow>
          let v = trimQuotes v0
          in if k = ''created'' then p\<lparr>created := parseIntOr v\<rparr>
             else if k = ''expires'' then p\<lparr>expires := parseIntOr v\<rparr>
             else if k = ''keyid'' then p\<lparr>keyid := v\<rparr>
             else if k = ''alg'' then p\<lparr>alg := v\<rparr>
             else if k = ''tag'' then p\<lparr>tag := v\<rparr>
             else if k = ''nonce'' then p\<lparr>nonce := v\<rparr>
             else p)"

definition parseInner :: "string \<Rightarrow> sig_params option" where
  "parseInner inn =
     (case cutAt CHR '')'' inn of
        None \<Rightarrow> None
      | Some (pre, post) \<Rightarrow>
          (if hd inn \<noteq> CHR ''('' then None
           else Some (foldl setParam (noParams\<lparr>inner := inn, components := map trimQuotes (splitFields (tl pre))\<rparr>)
                        (splitOn CHR '';'' post))))"

definition parseSignatureInput :: "string \<Rightarrow> (string \<times> sig_params) option" where
  "parseSignatureInput v0 =
     (case cutAt CHR ''='' (trimSpace v0) of
        None \<Rightarrow> None
      | Some (label, rest) \<Rightarrow>
          (if label = [] then None
           else (case parseInner (trimSpace rest) of None \<Rightarrow> None | Some p \<Rightarrow> Some (label, p))))"

definition parseSignatureValue :: "string \<Rightarrow> string \<Rightarrow> bytes option" where
  "parseSignatureValue v0 label =
     (let v = trimSpace v0; pre = label @ ''=''
      in if \<not> hasPrefix v pre then None
         else let body = drop (length pre) v
              in if length body < 2 \<or> hd body \<noteq> CHR '':'' \<or> List.last body \<noteq> CHR '':'' then None
                 else stdDecode (butlast (tl body)))"

definition derivedComponents :: "string list" where
  "derivedComponents = [''@authority'', ''@method'', ''@path'']"

definition coversRequestLine :: "string list \<Rightarrow> bool" where
  "coversRequestLine comps \<longleftrightarrow>
     list_all (\<lambda>c. c \<in> set derivedComponents) comps \<and> list_all (\<lambda>c. c \<in> set comps) derivedComponents"

definition quoted :: "string \<Rightarrow> string" where
  "quoted s = [CHR 0x22] @ s @ [CHR 0x22]"

definition componentLine :: "string \<Rightarrow> string \<Rightarrow> string \<Rightarrow> string \<Rightarrow> string" where
  "componentLine host method path c =
     (if c = ''@authority'' then quoted c @ '': '' @ toLower host @ [CHR 0x0A]
      else if c = ''@method'' then quoted c @ '': '' @ toUpper method @ [CHR 0x0A]
      else if c = ''@path'' then quoted c @ '': '' @ path @ [CHR 0x0A]
      else [])"

definition buildSignatureBase :: "string \<Rightarrow> string \<Rightarrow> string \<Rightarrow> string list \<Rightarrow> string \<Rightarrow> string" where
  "buildSignatureBase host method path comps inn =
     concat (map (componentLine host method path) comps) @ quoted ''@signature-params'' @ '': '' @ inn"

definition agentSkew :: int where "agentSkew = 60"
definition agentMaxLifetime :: int where "agentMaxLifetime = 3600"

definition agentFresh :: "sig_params \<Rightarrow> int \<Rightarrow> bool" where
  "agentFresh p nowU =
     (if created p \<noteq> 0 \<and> wrap64 (nowU + agentSkew) < created p then False
      else if expires p \<noteq> 0 then
        \<not> (expires p < wrap64 (nowU - agentSkew)) \<and> \<not> (agentMaxLifetime < wrap64 (expires p - nowU))
        \<and> \<not> (created p \<noteq> 0 \<and> agentMaxLifetime < wrap64 (expires p - created p))
      else if created p \<noteq> 0 then \<not> (agentMaxLifetime < wrap64 (nowU - created p))
      else False)"

definition verifyAgent ::
  "'sk prims \<Rightarrow> string \<Rightarrow> string \<Rightarrow> string \<Rightarrow> string \<Rightarrow> string \<Rightarrow> key_directory \<Rightarrow> nonce_cache \<Rightarrow> int
   \<Rightarrow> nonce_cache \<times> agent_verdict \<times> string" where
  "verifyAgent P host method path sigInput sig dir nonces now =
     (if sigInput = [] \<or> sig = [] then (nonces, AgentNone, [])
      else case parseSignatureInput sigInput of
        None \<Rightarrow> (nonces, AgentVerifiedUnknown, [])
      | Some (label, p) \<Rightarrow>
          (case parseSignatureValue sig label of
             None \<Rightarrow> (nonces, AgentVerifiedUnknown, keyid p)
           | Some rawSig \<Rightarrow>
               if alg p \<noteq> ''ed25519'' \<or> tag p \<noteq> ''web-bot-auth'' \<or> \<not> agentFresh p (unixOf now)
                  \<or> \<not> coversRequestLine (components p)
               then (nonces, AgentVerifiedUnknown, keyid p)
               else (case map_of dir (keyid p) of
                       None \<Rightarrow> (nonces, AgentVerifiedUnknown, keyid p)
                     | Some pub \<Rightarrow>
                         if \<not> edVerify P pub (buildSignatureBase host method path (components p) (inner p)) rawSig
                         then (nonces, AgentForged, keyid p)
                         else if nonce p = [] then (nonces, AgentVerifiedTrusted, keyid p)
                         else (case UseNonce nonces (''wba|'' @ keyid p @ ''|'' @ nonce p) (keyid p) now of
                                 (n', True) \<Rightarrow> (n', AgentVerifiedTrusted, keyid p)
                               | (n', False) \<Rightarrow> (n', AgentVerifiedUnknown, keyid p)))))"

section \<open>Private Access Tokens (privacypass.go)\<close>

record assertion =
  CredentialID :: string
  AuthData :: string
  ClientDataJSON :: string
  Signature :: string

record cred_prims =
  rsaVerifyPSS :: "bytes \<Rightarrow> bytes \<Rightarrow> bytes \<Rightarrow> bool"
  sha384 :: "bytes \<Rightarrow> bytes"
  parseRSA :: "bytes \<Rightarrow> bytes option"
  marshalPKIX :: "bytes \<Rightarrow> bytes option"
  ecdsaVerify :: "bytes \<Rightarrow> bytes \<Rightarrow> bytes \<Rightarrow> bool"
  parseEC :: "bytes \<Rightarrow> bytes option"
  pemBlock :: "bytes \<Rightarrow> bytes option"
  decAssertion :: "bytes \<Rightarrow> assertion option"
  decClientData :: "bytes \<Rightarrow> (string \<times> string) option"

definition patTokenType :: nat where "patTokenType = 2"

record pat_verifier =
  issuers :: "(string \<times> bytes) list"
  patSeen :: "(string \<times> int) list"
  patTTL :: int
  patLastSweep :: int

definition patMaxSeen :: nat where "patMaxSeen = 2 ^ 20"

definition patKeyID :: "'sk prims \<Rightarrow> cred_prims \<Rightarrow> bytes \<Rightarrow> string" where
  "patKeyID P K pub = (case marshalPKIX K pub of None \<Rightarrow> [] | Some spki \<Rightarrow> hexEncode (sha256 P spki))"

definition addIssuer :: "'sk prims \<Rightarrow> cred_prims \<Rightarrow> (string \<times> bytes) list \<Rightarrow> bytes \<Rightarrow> (string \<times> bytes) list" where
  "addIssuer P K m block =
     (case parseRSA K block of None \<Rightarrow> m | Some pub \<Rightarrow> AList.update (patKeyID P K pub) pub m)"

definition NewPATVerifier :: "'sk prims \<Rightarrow> cred_prims \<Rightarrow> bytes list \<Rightarrow> pat_verifier" where
  "NewPATVerifier P K blocks =
     \<lparr>issuers = foldl (addIssuer P K) [] blocks, patSeen = [], patTTL = 600000000000, patLastSweep = zeroTime\<rparr>"

datatype pat_verdict = PatNone | PatVerified | PatInvalid

definition parsePrivateTokenHeader :: "string \<Rightarrow> string" where
  "parsePrivateTokenHeader h0 =
     (let h = trimSpace h0
      in if h = [] then []
         else case afterSub ''token='' h of
                Some v \<Rightarrow> takeWhile (\<lambda>c. c \<notin> {CHR '','', CHR '';'', CHR '' ''}) (trimQuotes (trimSpace v))
              | None \<Rightarrow> if hasPrefix h ''PrivateToken'' then [] else h)"

definition patSweep :: "pat_verifier \<Rightarrow> int \<Rightarrow> pat_verifier" where
  "patSweep v now =
     (if patTTL v sdiv 4 < timeSub now (patLastSweep v) \<or> patMaxSeen \<le> length (patSeen v)
      then v\<lparr>patSeen := filter (\<lambda>e. \<not> patTTL v < timeSub now (snd e)) (patSeen v), patLastSweep := now\<rparr>
      else v)"

definition patSpend :: "pat_verifier \<Rightarrow> string \<Rightarrow> int \<Rightarrow> pat_verifier \<times> bool" where
  "patSpend v n now =
     (let v1 = patSweep v now
      in if map_of (patSeen v1) n \<noteq> None then (v1, False)
         else if patMaxSeen \<le> length (patSeen v1) then (v1, False)
         else (v1\<lparr>patSeen := (n, now) # patSeen v1\<rparr>, True))"

definition verifyPrivateToken ::
  "cred_prims \<Rightarrow> pat_verifier \<Rightarrow> string \<Rightarrow> int \<Rightarrow> pat_verifier \<times> pat_verdict \<times> string" where
  "verifyPrivateToken K v header now =
     (let tok = parsePrivateTokenHeader header
      in if tok = [] then (v, PatNone, [])
         else case decodeB64Loose tok of
           None \<Rightarrow> (v, PatInvalid, [])
         | Some raw \<Rightarrow>
             if length raw \<le> 98 then (v, PatInvalid, [])
             else if 256 * of_char (raw ! 0) + of_char (raw ! 1) \<noteq> patTokenType then (v, PatInvalid, [])
             else let kid = hexEncode (take 32 (drop 66 raw))
                  in case map_of (issuers v) kid of
                       None \<Rightarrow> (v, PatInvalid, kid)
                     | Some pub \<Rightarrow>
                         if \<not> rsaVerifyPSS K pub (sha384 K (take 98 raw)) (drop 98 raw) then (v, PatInvalid, kid)
                         else (case patSpend v (hexEncode (take 32 (drop 2 raw))) now of
                                 (v', True) \<Rightarrow> (v', PatVerified, kid)
                               | (v', False) \<Rightarrow> (v', PatInvalid, kid)))"

section \<open>WebAuthn (webauthn.go)\<close>

record webauthn_registry =
  waKeys :: "(string \<times> bytes) list"
  waCount :: "string \<rightharpoonup> 32 word"
  waOrigin :: string
  rpIDHash :: bytes
  rpIDBound :: bool

definition SetBinding :: "'sk prims \<Rightarrow> webauthn_registry \<Rightarrow> string \<Rightarrow> string \<Rightarrow> webauthn_registry" where
  "SetBinding P r orig rpID =
     (let r1 = r\<lparr>waOrigin := orig\<rparr>
      in if rpID \<noteq> [] then r1\<lparr>rpIDHash := sha256 P rpID, rpIDBound := True\<rparr> else r1)"

definition parseECPublic :: "cred_prims \<Rightarrow> bytes \<Rightarrow> bytes option" where
  "parseECPublic K der = parseEC K (case pemBlock K der of Some b \<Rightarrow> b | None \<Rightarrow> der)"

definition addCredLine :: "cred_prims \<Rightarrow> (string \<times> bytes) list \<Rightarrow> string \<Rightarrow> (string \<times> bytes) list" where
  "addCredLine K m line =
     (let l = trimSpace line
      in if l = [] \<or> hasPrefix l ''#'' then m
         else case splitFields l of
                [k, v] \<Rightarrow>
                  (case (case b64Decode v of Some d \<Rightarrow> Some d | None \<Rightarrow> stdDecode v) of
                     None \<Rightarrow> m
                   | Some der \<Rightarrow> (case parseECPublic K der of Some pub \<Rightarrow> AList.update k pub m | None \<Rightarrow> m))
              | _ \<Rightarrow> m)"

definition NewWebAuthnRegistry :: "cred_prims \<Rightarrow> string \<Rightarrow> webauthn_registry" where
  "NewWebAuthnRegistry K spec =
     \<lparr>waKeys = foldl (addCredLine K) [] (splitOn CHR 0x0A spec), waCount = Map.empty, waOrigin = [],
      rpIDHash = replicate 32 CHR 0x00, rpIDBound = False\<rparr>"

datatype webauthn_verdict = WebauthnNone | WebauthnVerified | WebauthnInvalid

definition counterOf :: "bytes \<Rightarrow> 32 word" where
  "counterOf authData = word_of_nat (getUint32 (take 4 (drop 33 authData)))"

definition lastCount :: "webauthn_registry \<Rightarrow> string \<Rightarrow> 32 word" where
  "lastCount r cred = (case waCount r cred of None \<Rightarrow> 0 | Some n \<Rightarrow> n)"

definition verifyAssertion ::
  "'sk prims \<Rightarrow> cred_prims \<Rightarrow> webauthn_registry \<Rightarrow> string \<Rightarrow> webauthn_registry \<times> webauthn_verdict \<times> string" where
  "verifyAssertion P K r header =
     (if header = [] then (r, WebauthnNone, [])
      else case decodeB64Loose (trimSpace header) of
        None \<Rightarrow> (r, WebauthnInvalid, [])
      | Some rawJSON \<Rightarrow>
        (case decAssertion K rawJSON of
           None \<Rightarrow> (r, WebauthnInvalid, [])
         | Some a \<Rightarrow>
           let cid = CredentialID a
           in if cid = [] then (r, WebauthnInvalid, [])
           else case map_of (waKeys r) cid of
             None \<Rightarrow> (r, WebauthnInvalid, cid)
           | Some pub \<Rightarrow>
             (case (stdDecode (AuthData a), stdDecode (ClientDataJSON a), stdDecode (Signature a)) of
                (Some authData, Some clientData, Some sig) \<Rightarrow>
                  if length authData < 37 then (r, WebauthnInvalid, cid)
                  else (case decClientData K clientData of
                    None \<Rightarrow> (r, WebauthnInvalid, cid)
                  | Some (typ, orig) \<Rightarrow>
                      if typ \<noteq> ''webauthn.get'' then (r, WebauthnInvalid, cid)
                      else if waOrigin r \<noteq> [] \<and> orig \<noteq> waOrigin r then (r, WebauthnInvalid, cid)
                      else if rpIDBound r \<and> take 32 authData \<noteq> rpIDHash r then (r, WebauthnInvalid, cid)
                      else if \<not> ecdsaVerify K pub (sha256 P (authData @ sha256 P clientData)) sig
                           then (r, WebauthnInvalid, cid)
                      else let n = counterOf authData
                           in if n = 0 \<or> n \<le> lastCount r cid then (r, WebauthnInvalid, cid)
                              else (r\<lparr>waCount := (waCount r)(cid \<mapsto> n)\<rparr>, WebauthnVerified, cid))
              | _ \<Rightarrow> (r, WebauthnInvalid, cid))))"

section \<open>A Web Bot Auth signature binds the request line\<close>

definition oneLine :: "string \<Rightarrow> bool" where
  "oneLine s \<longleftrightarrow> CHR 0x0A \<notin> set s"

definition componentText :: "string \<Rightarrow> string \<Rightarrow> string \<Rightarrow> string \<Rightarrow> string" where
  "componentText host method path c =
     quoted c @ '': '' @ (if c = ''@authority'' then toLower host else if c = ''@method'' then toUpper method else path)"

lemma oneLine_case: "oneLine s \<Longrightarrow> oneLine (toLower s)" "oneLine s \<Longrightarrow> oneLine (toUpper s)"
proof -
  have low: "lowerChar c = CHR 0x0A \<Longrightarrow> c = CHR 0x0A" for c
  proof -
    assume l: "lowerChar c = CHR 0x0A"
    show "c = CHR 0x0A"
    proof (cases "65 \<le> (of_char c :: nat) \<and> of_char c \<le> (90 :: nat)")
      case True
      then have "of_char (lowerChar c) = (of_char c :: nat) + 32" by (simp add: lowerChar_def Let_def)
      with l have "(of_char c :: nat) + 32 = 10" by simp
      then show ?thesis by simp
    next
      case False
      then show ?thesis using l by (auto simp: lowerChar_def Let_def)
    qed
  qed
  have up: "upperChar c = CHR 0x0A \<Longrightarrow> c = CHR 0x0A" for c
  proof -
    assume l: "upperChar c = CHR 0x0A"
    show "c = CHR 0x0A"
    proof (cases "97 \<le> (of_char c :: nat) \<and> of_char c \<le> (122 :: nat)")
      case True
      then have "of_char (upperChar c) = ((of_char c :: nat) - 32) mod 256" by (simp add: upperChar_def Let_def)
      also have "\<dots> = of_char c - 32" using True by (intro mod_less) linarith
      finally have "of_char (upperChar c) = (of_char c :: nat) - 32" .
      with l have "(of_char c :: nat) - 32 = 10" by simp
      then have False using True by linarith
      then show ?thesis ..
    next
      case False
      then show ?thesis using l by (auto simp: upperChar_def Let_def)
    qed
  qed
  show "oneLine s \<Longrightarrow> oneLine (toLower s)" "oneLine s \<Longrightarrow> oneLine (toUpper s)"
    by (auto simp: oneLine_def toLower_def toUpper_def dest: low [OF sym] up [OF sym])
qed

lemma oneLine_componentText:
  assumes "oneLine host" and "oneLine method" and "oneLine path" and "c \<in> set derivedComponents"
  shows "oneLine (componentText host method path c)"
  using assms(4) oneLine_case(1) [OF assms(1)] oneLine_case(2) [OF assms(2)] assms(3)
  by (auto simp: derivedComponents_def componentText_def oneLine_def quoted_def)

lemma splitOn_lines:
  assumes "\<forall>l \<in> set ls. oneLine l" and "oneLine lst"
  shows "splitOn CHR 0x0A (concat (map (\<lambda>l. l @ [CHR 0x0A]) ls) @ lst) = ls @ [lst]"
  using assms by (induction ls) (auto simp: oneLine_def splitOn_no_sep splitOn_append_sep)

lemma base_lines:
  assumes "oneLine host" and "oneLine method" and "oneLine path" and "oneLine inn"
    and "set comps \<subseteq> set derivedComponents"
  shows "splitOn CHR 0x0A (buildSignatureBase host method path comps inn) =
     map (componentText host method path) comps @ [quoted ''@signature-params'' @ '': '' @ inn]"
proof -
  have "map (componentLine host method path) comps = map (\<lambda>l. l @ [CHR 0x0A]) (map (componentText host method path) comps)"
    using assms(5) by (auto simp: derivedComponents_def componentLine_def componentText_def)
  moreover have "oneLine (quoted ''@signature-params'' @ '': '' @ inn)"
    using assms(4) by (simp add: oneLine_def quoted_def)
  moreover have "\<forall>l \<in> set (map (componentText host method path) comps). oneLine l"
    using assms by (auto intro: oneLine_componentText)
  ultimately show ?thesis unfolding buildSignatureBase_def by (metis splitOn_lines)
qed

lemma componentText_inject:
  assumes "componentText h m p c = componentText h' m' p' c'"
    and "c \<in> set derivedComponents" and "c' \<in> set derivedComponents"
  shows "c = c' \<and> (c = ''@authority'' \<longrightarrow> toLower h = toLower h') \<and> (c = ''@method'' \<longrightarrow> toUpper m = toUpper m')
       \<and> (c = ''@path'' \<longrightarrow> p = p')"
  using assms by (auto simp: componentText_def quoted_def derivedComponents_def)

lemma covers_subset: "coversRequestLine comps \<Longrightarrow> set comps \<subseteq> set derivedComponents \<and> set derivedComponents \<subseteq> set comps"
  by (auto simp: coversRequestLine_def list_all_iff)

text \<open>
  A signature base determines the request line: two covering
  signatures whose bases are the same bytes have the same authority (up to case), the same method (up to
  case) and the same path. So a signature made for one request line never verifies as one for another,
  whatever components, order and parameters the signer chose.
\<close>

theorem agent_binds_request_line:
  assumes "coversRequestLine comps" and "coversRequestLine comps'"
    and "list_all oneLine [host, method, path, inn]" and "list_all oneLine [host', method', path', inn']"
    and "buildSignatureBase host method path comps inn = buildSignatureBase host' method' path' comps' inn'"
  shows "toLower host = toLower host' \<and> toUpper method = toUpper method' \<and> path = path' \<and> comps = comps' \<and> inn = inn'"
proof -
  note cov = covers_subset [OF assms(1)] covers_subset [OF assms(2)]
  have eq: "map (componentText host method path) comps @ [quoted ''@signature-params'' @ '': '' @ inn] =
      map (componentText host' method' path') comps' @ [quoted ''@signature-params'' @ '': '' @ inn']"
    using base_lines [of "host" "method" "path" inn comps] base_lines [of "host'" "method'" "path'" inn' comps'] assms(3-5) cov
    by simp
  then have maps: "map (componentText host method path) comps = map (componentText host' method' path') comps'"
    and inn: "inn = inn'" by (auto simp: append1_eq_conv)
  then have len: "length comps = length comps'" by (metis length_map)
  have at: "comps ! i = comps' ! i
      \<and> (comps ! i = ''@authority'' \<longrightarrow> toLower host = toLower host')
      \<and> (comps ! i = ''@method'' \<longrightarrow> toUpper method = toUpper method') \<and> (comps ! i = ''@path'' \<longrightarrow> path = path')"
    if "i < length comps" for i
  proof -
    have "componentText host method path (comps ! i) = componentText host' method' path' (comps' ! i)"
      using maps that len by (metis nth_map)
    moreover have "comps ! i \<in> set derivedComponents" "comps' ! i \<in> set derivedComponents"
      using that len cov by (auto dest: nth_mem)
    ultimately show ?thesis by (rule componentText_inject)
  qed
  have "''@authority'' \<in> set comps" "''@method'' \<in> set comps" "''@path'' \<in> set comps"
    using cov by (auto simp: derivedComponents_def)
  then obtain i j k where "i < length comps" "comps ! i = ''@authority''" "j < length comps" "comps ! j = ''@method''"
    "k < length comps" "comps ! k = ''@path''" by (auto simp: in_set_conv_nth)
  then have "toLower host = toLower host'" "toUpper method = toUpper method'" "path = path'"
    using at by blast+
  moreover have "comps = comps'" using at len by (intro nth_equalityI) auto
  ultimately show ?thesis using inn by simp
qed

theorem agent_binds_request_line_witness:
  "toLower ''Shop.example'' = toLower ''shop.example''"
  using agent_binds_request_line [of "[''@authority'', ''@path'', ''@method'']" "[''@authority'', ''@path'', ''@method'']"
      "''Shop.example''" "''get''" "''/a''" "''()''" "''shop.example''" "''GET''" "''/a''" "''()''"]
  by (simp add: coversRequestLine_def derivedComponents_def oneLine_def buildSignatureBase_def componentLine_def
      toLower_def toUpper_def lowerChar_def upperChar_def char_of_def bit_0)

section \<open>Lifetime of a signature\<close>

lemma wrap64_id: "- (2 ^ 63) \<le> x \<Longrightarrow> x < 2 ^ 63 \<Longrightarrow> wrap64 x = x"
  unfolding wrap64_def by (subst sint_sbintrunc') (simp add: signed_take_bit_int_eq_self)

lemma agentFresh_expires:
  assumes "agentFresh p now" and "expires p \<noteq> 0" and "0 \<le> now" and "now < 2 ^ 62"
    and "- (2 ^ 63) \<le> expires p" and "expires p < 2 ^ 63"
  shows "now - agentSkew \<le> expires p \<and> expires p \<le> now + agentMaxLifetime"
proof -
  have skew: "wrap64 (now - agentSkew) = now - agentSkew" "wrap64 (now + agentSkew) = now + agentSkew"
    using assms(3,4) by (auto intro!: wrap64_id simp: agentSkew_def)
  have lo: "now - agentSkew \<le> expires p"
    using assms(1,2) by (auto simp: agentFresh_def skew split: if_splits)
  then have "wrap64 (expires p - now) = expires p - now"
    using assms by (intro wrap64_id) (auto simp: agentSkew_def)
  then show ?thesis using lo assms(1,2) by (auto simp: agentFresh_def skew split: if_splits)
qed

text \<open>
  The age of a signature without \<open>expires\<close> is a wrapped 64-bit difference: with the smallest \<open>created\<close>
  the difference is negative, and the signature is fresh for ever.
\<close>

theorem agent_created_wraps:
  assumes "created p = - (2 ^ 63)" and "expires p = 0" and "0 \<le> now" and "now < 2 ^ 62"
  shows "agentFresh p now"
proof -
  have "wrap64 (now - created p) = now - 2 ^ 63"
  proof -
    have "(word_of_int (now - created p) :: 64 word) = word_of_int (now - 2 ^ 63)"
      using assms(1) by (simp add: word_of_int_eq_iff take_bit_eq_mod)
    then show ?thesis using wrap64_id [of "now - 2 ^ 63"] assms(3,4) by (simp add: wrap64_def)
  qed
  moreover have "wrap64 (now + agentSkew) = now + agentSkew"
    using assms(3,4) by (intro wrap64_id) (auto simp: agentSkew_def)
  ultimately show ?thesis using assms by (simp add: agentFresh_def agentSkew_def agentMaxLifetime_def)
qed

section \<open>Replayed credentials\<close>

lemma waKeys_verifyAssertion [simp]: "waKeys (fst (verifyAssertion P K r h)) = waKeys r"
  by (auto simp: verifyAssertion_def Let_def split: option.splits if_splits)

lemma verifyAssertion_Verified:
  assumes "verifyAssertion P K r h = (r', WebauthnVerified, cid)"
  obtains n where "lastCount r cid < n" and "lastCount r' cid = n"
    and "\<forall>r2. n \<le> lastCount r2 cid \<longrightarrow> fst (snd (verifyAssertion P K r2 h)) \<noteq> WebauthnVerified"
proof -
  obtain rawJSON a authData where d: "h \<noteq> []" "decodeB64Loose (trimSpace h) = Some rawJSON"
      "decAssertion K rawJSON = Some a" "cid = CredentialID a" "stdDecode (AuthData a) = Some authData"
    and n: "\<not> counterOf authData \<le> lastCount r cid"
    and r': "r' = r\<lparr>waCount := (waCount r)(cid \<mapsto> counterOf authData)\<rparr>"
    using assms by (auto simp: verifyAssertion_def Let_def split: option.splits if_splits)
  have "\<forall>r2. counterOf authData \<le> lastCount r2 cid \<longrightarrow> fst (snd (verifyAssertion P K r2 h)) \<noteq> WebauthnVerified"
    using d by (auto simp: verifyAssertion_def Let_def split: option.splits if_splits)
  then show ?thesis using n r' that [of "counterOf authData"] by (simp add: lastCount_def)
qed

lemma lastCount_mono: "lastCount r c \<le> lastCount (fst (verifyAssertion P K r h)) c"
proof (cases "\<exists>cid. snd (verifyAssertion P K r h) = (WebauthnVerified, cid)")
  case True
  then obtain r' cid where "verifyAssertion P K r h = (r', WebauthnVerified, cid)" by (metis prod.collapse)
  then show ?thesis
    by (auto simp: verifyAssertion_def Let_def lastCount_def split: option.splits if_splits)
next
  case False
  then have "fst (verifyAssertion P K r h) = r"
    by (auto simp: verifyAssertion_def Let_def split: option.splits if_splits)
  then show ?thesis by simp
qed

definition waRun :: "'sk prims \<Rightarrow> cred_prims \<Rightarrow> webauthn_registry \<Rightarrow> string list \<Rightarrow> webauthn_registry" where
  "waRun P K r hs = foldl (\<lambda>r h. fst (verifyAssertion P K r h)) r hs"

lemma lastCount_waRun: "lastCount r c \<le> lastCount (waRun P K r hs) c"
proof (induction hs arbitrary: r)
  case (Cons h hs)
  show ?case using order_trans [OF lastCount_mono Cons.IH [of "fst (verifyAssertion P K r h)"]]
    by (simp add: waRun_def)
qed (simp add: waRun_def)

text \<open>The cache inside the verifier of Private Access Tokens behaves as the nonce cache of the tokens.\<close>

definition patCache :: "pat_verifier \<Rightarrow> nonce_cache" where
  "patCache v = \<lparr>seen = patSeen v, nttl = patTTL v, lastSweep = patLastSweep v\<rparr>"

lemma patSpend_UseNonce:
  assumes "n \<noteq> []"
  shows "patCache (fst (patSpend v n now)) = fst (UseNonce (patCache v) n b now) \<and>
         snd (patSpend v n now) = snd (UseNonce (patCache v) n b now)"
  using assms by (auto simp: patSpend_def patSweep_def UseNonce_def sweepNonces_def patCache_def Let_def
      patMaxSeen_def nonceMaxSeen_def)

lemma verifyPrivateToken_cache:
  "fst (verifyPrivateToken K v h now) = v \<or>
   (\<exists>n. n \<noteq> [] \<and> fst (verifyPrivateToken K v h now) = fst (patSpend v n now))"
proof (cases "decodeB64Loose (parsePrivateTokenHeader h)")
  case None
  then show ?thesis by (simp add: verifyPrivateToken_def Let_def)
next
  case (Some raw)
  define n where "n = hexEncode (take 32 (drop 2 raw))"
  obtain v' ok where sp: "patSpend v n now = (v', ok)" by fastforce
  show ?thesis
  proof (cases "length raw \<le> 98")
    case True
    then show ?thesis using Some by (simp add: verifyPrivateToken_def Let_def)
  next
    case False
    then have "n \<noteq> []" by (simp add: n_def)
    moreover have "fst (verifyPrivateToken K v h now) = v \<or> fst (verifyPrivateToken K v h now) = fst (patSpend v n now)"
      using Some False sp
      by (cases ok) (simp_all add: verifyPrivateToken_def Let_def n_def split: option.split)
    ultimately show ?thesis by blast
  qed
qed

lemma verifyPrivateToken_Verified:
  assumes "verifyPrivateToken K v h t = (v', PatVerified, kid)"
  obtains n where "n \<noteq> []" and "patSpend v n t = (v', True)"
    and "\<forall>v2 now. \<not> snd (patSpend v2 n now) \<longrightarrow> fst (snd (verifyPrivateToken K v2 h now)) \<noteq> PatVerified"
proof -
  obtain raw where d: "parsePrivateTokenHeader h \<noteq> []" "decodeB64Loose (parsePrivateTokenHeader h) = Some raw"
      "\<not> length raw \<le> 98"
    and sp: "patSpend v (hexEncode (take 32 (drop 2 raw))) t = (v', True)"
    using assms by (auto simp: verifyPrivateToken_def Let_def split: option.splits if_splits prod.splits bool.splits)
  have "\<forall>v2 now. \<not> snd (patSpend v2 (hexEncode (take 32 (drop 2 raw))) now)
      \<longrightarrow> fst (snd (verifyPrivateToken K v2 h now)) \<noteq> PatVerified"
    using d by (auto simp: verifyPrivateToken_def Let_def split: option.splits if_splits prod.splits bool.splits)
  moreover have "hexEncode (take 32 (drop 2 raw)) \<noteq> []" using d(3) by simp
  ultimately show ?thesis using that sp by blast
qed

definition patRun :: "cred_prims \<Rightarrow> pat_verifier \<Rightarrow> (string \<times> int) list \<Rightarrow> pat_verifier" where
  "patRun K v hs = foldl (\<lambda>v h. fst (verifyPrivateToken K v (fst h) (snd h))) v hs"

lemma patRun_keeps:
  assumes "(n, t) \<in> set (seen (patCache v))" and "\<forall>h \<in> set hs. snd h - t \<le> patTTL v" and "0 \<le> patTTL v"
  shows "(n, t) \<in> set (seen (patCache (patRun K v hs))) \<and> patTTL (patRun K v hs) = patTTL v"
  using assms
proof (induction hs arbitrary: v)
  case (Cons h hs)
  define v1 where "v1 = fst (verifyPrivateToken K v (fst h) (snd h))"
  have "(n, t) \<in> set (seen (patCache v1)) \<and> patTTL v1 = patTTL v"
    using verifyPrivateToken_cache [of K v "fst h" "snd h"]
  proof
    assume "fst (verifyPrivateToken K v (fst h) (snd h)) = v"
    then show ?thesis using Cons.prems(1) by (simp add: v1_def)
  next
    assume "\<exists>m. m \<noteq> [] \<and> fst (verifyPrivateToken K v (fst h) (snd h)) = fst (patSpend v m (snd h))"
    then obtain m where m: "m \<noteq> []" "v1 = fst (patSpend v m (snd h))" by (auto simp: v1_def)
    have "(n, t) \<in> set (seen (fst (UseNonce (patCache v) m [] (snd h))))"
      using Cons.prems by (intro UseNonce_keeps) (auto simp: patCache_def)
    moreover have "patTTL v1 = patTTL v" by (simp add: m(2) patSpend_def patSweep_def Let_def)
    ultimately show ?thesis using patSpend_UseNonce [OF m(1), of v "snd h" "[]"] m(2) by simp
  qed
  then show ?case using Cons.IH [of v1] Cons.prems by (simp add: patRun_def v1_def)
qed (simp add: patRun_def)

text \<open>
  C32. A WebAuthn assertion that was accepted is never accepted again,
  whatever assertions are presented in between: the counter of the credential only grows. A Private Access
  Token that was accepted is refused for the whole retention time, whatever tokens are presented in
  between.
\<close>

theorem credential_replay_refused:
  assumes "verifyAssertion P K r h = (r', WebauthnVerified, cid)"
    and "verifyPrivateToken K v g t = (v', PatVerified, kid)" and "0 \<le> patTTL v"
    and "\<forall>x \<in> set gs. snd x - t \<le> patTTL v" and "now - t \<le> patTTL v"
  shows "fst (snd (verifyAssertion P K (waRun P K r' hs) h)) \<noteq> WebauthnVerified \<and>
         fst (snd (verifyPrivateToken K (patRun K v' gs) g now)) \<noteq> PatVerified"
proof
  show "fst (snd (verifyAssertion P K (waRun P K r' hs) h)) \<noteq> WebauthnVerified"
    using assms(1) by (rule verifyAssertion_Verified) (metis lastCount_waRun)
  obtain n where n: "n \<noteq> []" "patSpend v n t = (v', True)"
    and rej: "\<forall>v2 now. \<not> snd (patSpend v2 n now) \<longrightarrow> fst (snd (verifyPrivateToken K v2 g now)) \<noteq> PatVerified"
    using assms(2) by (rule verifyPrivateToken_Verified)
  have "(n, t) \<in> set (seen (patCache v')) \<and> patTTL v' = patTTL v"
    using n by (auto simp: patSpend_def patSweep_def patCache_def Let_def split: if_splits)
  then have "(n, t) \<in> set (seen (patCache (patRun K v' gs))) \<and> patTTL (patRun K v' gs) = patTTL v"
    using patRun_keeps [of n t v' gs K] assms(3,4) by simp
  then have "\<not> snd (UseNonce (patCache (patRun K v' gs)) n [] now)"
    using assms(3,5) n(1) by (intro UseNonce_rejects) (auto simp: patCache_def)
  then show "fst (snd (verifyPrivateToken K (patRun K v' gs) g now)) \<noteq> PatVerified"
    using rej patSpend_UseNonce [OF n(1), of "patRun K v' gs" now "[]"] by simp
qed

definition exCreds :: cred_prims where
  "exCreds = \<lparr>rsaVerifyPSS = (\<lambda>k d s. k = ''k''), sha384 = pad32, parseRSA = Some, marshalPKIX = Some,
     ecdsaVerify = (\<lambda>k d s. k = ''k''), parseEC = Some, pemBlock = Map.empty,
     decAssertion = (\<lambda>b. Some \<lparr>CredentialID = ''c'', AuthData = replicate 48 CHR ''A'' @ ''AQ=='',
                               ClientDataJSON = ''YQ=='', Signature = ''YQ==''\<rparr>),
     decClientData = (\<lambda>b. Some (''webauthn.get'', ''o''))\<rparr>"

definition exWa :: webauthn_registry where
  "exWa = \<lparr>waKeys = [(''c'', ''k'')], waCount = Map.empty, waOrigin = ''o'', rpIDHash = [], rpIDBound = False\<rparr>"

definition exPat :: pat_verifier where
  "exPat = \<lparr>issuers = [(hexEncode (replicate 32 CHR 0x00), ''k'')], patSeen = [], patTTL = 600, patLastSweep = 0\<rparr>"

definition exPatHeader :: string where
  "exPatHeader = ''PrivateToken token='' @ ''AAIA'' @ replicate 128 CHR ''A''"

lemma exAssertion: "snd (verifyAssertion toyPrims exCreds exWa ''YQ=='') = (WebauthnVerified, ''c'')"
  by code_simp

lemma exRaw: "decodeB64Loose (parsePrivateTokenHeader exPatHeader) = Some (CHR 0x00 # CHR 0x02 # replicate 97 CHR 0x00)"
  by code_simp

lemma exSpend: "snd (patSpend exPat n 5)"
  by (simp add: patSpend_def patSweep_def exPat_def patMaxSeen_def Let_def)

lemma exToken: "snd (verifyPrivateToken exCreds exPat exPatHeader 5) = (PatVerified, hexEncode (replicate 32 CHR 0x00))"
proof -
  have "parsePrivateTokenHeader exPatHeader \<noteq> []" by code_simp
  moreover obtain v' where "patSpend exPat (hexEncode (replicate 32 CHR 0x00)) 5 = (v', True)"
    using exSpend by (metis (full_types) prod.collapse)
  moreover have "map_of (issuers exPat) (hexEncode (replicate 32 CHR 0x00)) = Some ''k''" by (simp add: exPat_def)
  moreover have "of_char CHR 0x02 = (2 :: nat)" "of_char CHR 0x00 = (0 :: nat)" by simp_all
  ultimately show ?thesis
    by (simp add: verifyPrivateToken_def exRaw Let_def patTokenType_def exCreds_def)
qed

theorem credential_replay_refused_witness:
  "fst (snd (verifyAssertion toyPrims exCreds
     (waRun toyPrims exCreds (fst (verifyAssertion toyPrims exCreds exWa ''YQ=='')) [''YQ=='', ''x'']) ''YQ==''))
     \<noteq> WebauthnVerified \<and>
   fst (snd (verifyPrivateToken exCreds
     (patRun exCreds (fst (verifyPrivateToken exCreds exPat exPatHeader 5)) [(''x'', 7)]) exPatHeader 605)) \<noteq> PatVerified"
proof (rule credential_replay_refused)
  show "verifyAssertion toyPrims exCreds exWa ''YQ=='' =
      (fst (verifyAssertion toyPrims exCreds exWa ''YQ==''), WebauthnVerified, ''c'')"
    using exAssertion by (metis prod.collapse)
  show "verifyPrivateToken exCreds exPat exPatHeader 5 =
      (fst (verifyPrivateToken exCreds exPat exPatHeader 5), PatVerified, hexEncode (replicate 32 CHR 0x00))"
    using exToken by (metis prod.collapse)
qed (simp_all add: exPat_def)

end
