(* ===== verification/Anomaly.thy ===== *)
theory Anomaly
  imports RedisLedger "HOL-Library.Signed_Division"
begin

text \<open>
  The streaming outlier detector (\<open>internal/anomaly/detector.go\<close>), the shadow observer of the gate
  (\<open>internal/gate/anomaly_shadow.go\<close>) and the fingerprint correlation registry
  (\<open>internal/correlation/correlation.go\<close>).

  Samples are rational numbers. A Go map that is traversed or measured is an association list in the
  order of the traversal; one that is only looked up is a map. A set is a list without repetitions.
\<close>

section \<open>The detector\<close>

record series =
  svals :: "rat list"
  slastAt :: int

record detector =
  dwindow :: int
  dk :: rat
  dwarmup :: int
  dmadFloor :: rat
  dmaxKeys :: int
  dseries :: "(string \<times> series) list"

record det_config =
  cWindow :: int
  cK :: rat
  cWarmup :: int
  cMADFloor :: rat
  cMaxKeys :: int

definition NewDetector :: "det_config \<Rightarrow> detector" where
  "NewDetector c =
     \<lparr>dwindow = (if cWindow c \<le> 0 then 64 else cWindow c), dk = (if cK c \<le> 0 then 6 else cK c),
      dwarmup = (if cWarmup c \<le> 0 then 12 else cWarmup c), dmadFloor = cMADFloor c,
      dmaxKeys = (if cMaxKeys c \<le> 0 then 100000 else cMaxKeys c), dseries = []\<rparr>"

record det_result =
  Anomalous :: bool
  Score :: rat
  Median :: rat
  MAD :: rat
  ResN :: int

definition median :: "rat list \<Rightarrow> rat" where
  "median xs =
     (let c = sort xs; n = length c
      in if n = 0 then 0
         else if n mod 2 = 1 then c ! (n div 2)
         else (c ! (n div 2 - 1) + c ! (n div 2)) / 2)"

definition medianAbsDev :: "rat list \<Rightarrow> rat \<Rightarrow> rat" where
  "medianAbsDev xs med = median (map (\<lambda>x. let d = x - med in if d < 0 then - d else d) xs)"

definition oldestStep :: "(string \<times> int) option \<Rightarrow> string \<times> series \<Rightarrow> (string \<times> int) option" where
  "oldestStep acc ks =
     (case acc of
        None \<Rightarrow> Some (fst ks, slastAt (snd ks))
      | Some (k, t) \<Rightarrow> if slastAt (snd ks) < t then Some (fst ks, slastAt (snd ks)) else Some (k, t))"

definition evictOldestLocked :: "detector \<Rightarrow> detector" where
  "evictOldestLocked d =
     (case foldl oldestStep None (dseries d) of
        None \<Rightarrow> d
      | Some (k, t) \<Rightarrow> if k \<noteq> [] then d\<lparr>dseries := AList.delete k (dseries d)\<rparr> else d)"

definition openSeries :: "detector \<Rightarrow> string \<Rightarrow> detector \<times> series" where
  "openSeries d key =
     (case map_of (dseries d) key of
        Some s \<Rightarrow> (d, s)
      | None \<Rightarrow> (if dmaxKeys d \<le> int (length (dseries d)) then evictOldestLocked d else d,
                 \<lparr>svals = [], slastAt = zeroTime\<rparr>))"

definition judge :: "detector \<Rightarrow> rat list \<Rightarrow> rat \<Rightarrow> det_result" where
  "judge d vals v =
     (let res = \<lparr>Anomalous = False, Score = 0, Median = 0, MAD = 0, ResN = int (length vals)\<rparr>
      in if int (length vals) < dwarmup d then res
         else let med = median vals;
                  mad0 = medianAbsDev vals med;
                  mad = (if mad0 < dmadFloor d then dmadFloor d else mad0);
                  res1 = res\<lparr>Median := med, MAD := mad\<rparr>
              in if 0 < mad
                 then let dev0 = v - med; dev = (if dev0 < 0 then - dev0 else dev0)
                      in res1\<lparr>Score := dev / mad, Anomalous := dk d < dev / mad\<rparr>
                 else res1)"

definition pushVal :: "int \<Rightarrow> rat list \<Rightarrow> rat \<Rightarrow> rat list" where
  "pushVal w vals v = (if w \<le> int (length vals) then tl vals @ [v] else vals @ [v])"

definition DetObserve :: "detector \<Rightarrow> string \<Rightarrow> rat \<Rightarrow> int \<Rightarrow> detector \<times> det_result" where
  "DetObserve d key v now =
     (case openSeries d key of
        (d1, s) \<Rightarrow>
          (d1\<lparr>dseries := AList.update key \<lparr>svals = pushVal (dwindow d) (svals s) v, slastAt = now\<rparr> (dseries d1)\<rparr>,
           judge d (svals s) v))"

definition DetGC :: "detector \<Rightarrow> int \<Rightarrow> int \<Rightarrow> detector" where
  "DetGC d now ttl = d\<lparr>dseries := filter (\<lambda>e. \<not> ttl < timeSub now (slastAt (snd e))) (dseries d)\<rparr>"

section \<open>The shadow observer of the gate\<close>

record anomaly_shadow =
  asDet :: detector
  asLast :: "(string \<times> int) list"

definition newAnomalyShadow :: anomaly_shadow where
  "newAnomalyShadow =
     \<lparr>asDet = NewDetector \<lparr>cWindow = 64, cK = 6, cWarmup = 12, cMADFloor = 2, cMaxKeys = 0\<rparr>, asLast = []\<rparr>"

definition shadowTTL :: int where
  "shadowTTL = 600000000000"

text \<open>The result is the outlier that the code writes to its log, if any.\<close>

definition shadowObserve :: "anomaly_shadow \<Rightarrow> string \<Rightarrow> int \<Rightarrow> anomaly_shadow \<times> det_result option" where
  "shadowObserve a fp now =
     (if fp = [] then (a, None)
      else let prev = map_of (asLast a) fp;
               l1 = AList.update fp now (asLast a);
               l2 = (if 200000 < length l1 then filter (\<lambda>e. \<not> shadowTTL < timeSub now (snd e)) l1 else l1);
               a1 = a\<lparr>asLast := l2\<rparr>
           in case prev of
                None \<Rightarrow> (a1, None)
              | Some t \<Rightarrow>
                  (case DetObserve (asDet a1) fp (of_int (timeSub now t sdiv 1000000)) now of
                     (d, res) \<Rightarrow> (a1\<lparr>asDet := d\<rparr>, if Anomalous res then Some res else None)))"

definition shadowGC :: "anomaly_shadow \<Rightarrow> int \<Rightarrow> anomaly_shadow" where
  "shadowGC a now =
     a\<lparr>asDet := DetGC (asDet a) now shadowTTL,
       asLast := filter (\<lambda>e. \<not> shadowTTL < timeSub now (snd e)) (asLast a)\<rparr>"

section \<open>The correlation registry\<close>

record corr_entry =
  ceSubnets :: "string list"
  ceSessions :: "string list"
  ceArrivals :: "int list"
  ceUpdated :: int

record ja4_fan =
  jfFps :: "string list"
  jfSubnets :: "string list"
  jfUpdated :: int

record registry =
  crM :: "string \<rightharpoonup> corr_entry"
  crJa4 :: "string \<rightharpoonup> ja4_fan"
  crTtl :: int
  crVel :: detector
  crSign :: bytes
  crFallback :: "64 word"

definition velConfig :: det_config where
  "velConfig = \<lparr>cWindow = 256, cK = 6, cWarmup = 20, cMADFloor = 1, cMaxKeys = 16\<rparr>"

definition NewRegistry :: "int \<Rightarrow> registry" where
  "NewRegistry ttl =
     \<lparr>crM = Map.empty, crJa4 = Map.empty, crTtl = ttl, crVel = NewDetector velConfig, crSign = [], crFallback = 0\<rparr>"

definition NewShared :: "int \<Rightarrow> bytes \<Rightarrow> registry" where
  "NewShared ttl key = (NewRegistry ttl)\<lparr>crSign := key\<rparr>"

definition velWindow :: int where "velWindow = 120000000000"
definition velFloor :: int where "velFloor = 8"
definition velRingCap :: nat where "velRingCap = 512"
definition subnetsForProxyRotation :: nat where "subnetsForProxyRotation = 3"
definition sessionsForShared :: nat where "sessionsForShared = 5"
definition ja4SubnetsForFPChurn :: nat where "ja4SubnetsForFPChurn = 3"
definition ja4FPsForFPChurn :: nat where "ja4FPsForFPChurn = 3"

definition keyDigest :: "'sk prims \<Rightarrow> bytes \<Rightarrow> string \<Rightarrow> string" where
  "keyDigest P sign key = hexEncode (if sign \<noteq> [] then hmacSha P sign key else sha256 P key)"

text \<open>The text of the script; Redis runs it.\<close>

definition fleetCorrLua :: string where
  "fleetCorrLua = ''local added = redis.call('' @ [CHR 0x27] @ ''SADD'' @ [CHR 0x27] @ '', KEYS[1], ARGV[4])'' @ [CHR 0x0A]
     @ ''redis.call('' @ [CHR 0x27] @ ''PEXPIRE'' @ [CHR 0x27] @ '', KEYS[1], tonumber(ARGV[3]))'' @ [CHR 0x0A]
     @ ''if added == 1 then redis.call('' @ [CHR 0x27] @ ''ZADD'' @ [CHR 0x27] @ '', KEYS[2], ARGV[1], ARGV[4]) end'' @ [CHR 0x0A]
     @ ''redis.call('' @ [CHR 0x27] @ ''ZREMRANGEBYSCORE'' @ [CHR 0x27] @ '', KEYS[2], 0, tonumber(ARGV[1]) - tonumber(ARGV[2]))'' @ [CHR 0x0A]
     @ ''redis.call('' @ [CHR 0x27] @ ''PEXPIRE'' @ [CHR 0x27] @ '', KEYS[2], tonumber(ARGV[3]))'' @ [CHR 0x0A]
     @ ''return { added, redis.call('' @ [CHR 0x27] @ ''ZCARD'' @ [CHR 0x27] @ '', KEYS[2]) }''"

definition observeFleet ::
  "'sk prims \<Rightarrow> 'r redis \<Rightarrow> registry \<Rightarrow> 'r \<Rightarrow> string \<Rightarrow> string \<Rightarrow> int \<Rightarrow> 'r \<times> (bool \<times> int) option" where
  "observeFleet P rdo reg r key subnet now =
     (let h = keyDigest P (crSign reg) key
      in case rdo r [''EVAL'', fleetCorrLua, ''2'', ''hmn:corr:sub:'' @ h, ''hmn:corr:vel:'' @ h,
                     formatInt now, formatInt velWindow, formatInt (crTtl reg sdiv 1000000), subnet] of
           (r', Inl err) \<Rightarrow> (r', None)
         | (r', Inr rep) \<Rightarrow>
             if length (RArray rep) < 2 then (r', None)
             else (r', Some (RInt (RArray rep ! 0) = 1, clampInt32 (RInt (RArray rep ! 1)))))"

definition freshEntry :: corr_entry where
  "freshEntry = \<lparr>ceSubnets = [], ceSessions = [], ceArrivals = [], ceUpdated = zeroTime\<rparr>"

definition isNewSubnet :: "corr_entry \<Rightarrow> string \<Rightarrow> bool" where
  "isNewSubnet e subnet \<longleftrightarrow> subnet \<noteq> [] \<and> subnet \<notin> set (ceSubnets e)"

definition noteSubnet :: "corr_entry \<Rightarrow> string \<Rightarrow> int \<Rightarrow> corr_entry" where
  "noteSubnet e subnet now =
     (if isNewSubnet e subnet
      then e\<lparr>ceSubnets := subnet # ceSubnets e,
             ceArrivals := (if length (ceArrivals e) < velRingCap then ceArrivals e @ [now] else ceArrivals e)\<rparr>
      else e)"

definition velocity :: "corr_entry \<Rightarrow> int \<Rightarrow> corr_entry \<times> int" where
  "velocity e now =
     (let kept = dropWhile (\<lambda>t. t < now - velWindow) (ceArrivals e)
      in (e\<lparr>ceArrivals := kept\<rparr>, int (length kept)))"

text \<open>The signals an observation gives: the id, the observed count, the verdict and the confidence.\<close>

type_synonym corr_signal = "string \<times> int \<times> string \<times> rat"

definition SigVerdictBot :: string where "SigVerdictBot = ''BOT''"
definition SigVerdictSuspicious :: string where "SigVerdictSuspicious = ''SUSPICIOUS''"

definition shareSignals :: "nat \<Rightarrow> nat \<Rightarrow> corr_signal list" where
  "shareSignals nSubnets nSessions =
     (if subnetsForProxyRotation \<le> nSubnets
      then [(''l5.correlation.proxy_rotation'', int nSubnets, SigVerdictBot, 1)]
      else if sessionsForShared \<le> nSessions
      then [(''l5.correlation.shared_fingerprint'', int nSessions, SigVerdictSuspicious, 1)]
      else [])"

definition CorrObserve ::
  "'sk prims \<Rightarrow> 'r redis option \<Rightarrow> registry \<times> 'r \<Rightarrow> string \<Rightarrow> string \<Rightarrow> string \<Rightarrow> int \<Rightarrow> (registry \<times> 'r) \<times> corr_signal list" where
  "CorrObserve P rc rr key subnet sid now =
     (case rr of (reg, r) \<Rightarrow>
       if key = [] \<or> key = ''|'' then ((reg, r), [])
       else let e0 = (case crM reg key of None \<Rightarrow> freshEntry | Some e \<Rightarrow> e);
                newSubnet = isNewSubnet e0 subnet;
                e1 = noteSubnet e0 subnet now;
                e2 = e1\<lparr>ceSessions := List.insert sid (ceSessions e1), ceUpdated := now\<rparr>
            in case velocity e2 now of
                 (e3, vel) \<Rightarrow>
                   let reg1 = reg\<lparr>crM := (crM reg)(key \<mapsto> e3)\<rparr>;
                       out = shareSignals (length (ceSubnets e3)) (length (ceSessions e3))
                   in case (case rc of
                              None \<Rightarrow> (r, newSubnet, vel, reg1)
                            | Some rdo \<Rightarrow>
                                if subnet = [] then (r, newSubnet, vel, reg1)
                                else case observeFleet P rdo reg1 r key subnet now of
                                       (r', Some (fnew, fvel)) \<Rightarrow> (r', fnew, fvel, reg1)
                                     | (r', None) \<Rightarrow> (r', newSubnet, vel, reg1\<lparr>crFallback := crFallback reg1 + 1\<rparr>)) of
                        (r2, useNew, useVel, reg2) \<Rightarrow>
                          if useNew
                          then (case DetObserve (crVel reg2) ''pop'' (of_int useVel) now of
                                  (d, res) \<Rightarrow>
                                    ((reg2\<lparr>crVel := d\<rparr>, r2),
                                     out @ (if velFloor \<le> useVel \<and> Anomalous res
                                            then [(''l5.correlation.ip_velocity'', useVel, SigVerdictSuspicious, 6 / 10)]
                                            else [])))
                          else ((reg2, r2), out))"

definition freshFan :: ja4_fan where
  "freshFan = \<lparr>jfFps = [], jfSubnets = [], jfUpdated = zeroTime\<rparr>"

definition ObserveJA4Fanout :: "registry \<Rightarrow> string \<Rightarrow> string \<Rightarrow> string \<Rightarrow> int \<Rightarrow> registry \<times> corr_signal list" where
  "ObserveJA4Fanout reg ja4 fp subnet now =
     (if ja4 = [] \<or> fp = [] then (reg, [])
      else let f0 = (case crJa4 reg ja4 of None \<Rightarrow> freshFan | Some f \<Rightarrow> f);
               f1 = f0\<lparr>jfFps := List.insert fp (jfFps f0),
                       jfSubnets := (if subnet \<noteq> [] then List.insert subnet (jfSubnets f0) else jfSubnets f0),
                       jfUpdated := now\<rparr>
           in (reg\<lparr>crJa4 := (crJa4 reg)(ja4 \<mapsto> f1)\<rparr>,
               if ja4FPsForFPChurn \<le> length (jfFps f1) \<and> ja4SubnetsForFPChurn \<le> length (jfSubnets f1)
               then [(''l5.correlation.fp_churn_proxy'', int (length (jfFps f1)), SigVerdictBot, 1)] else []))"

definition CorrGC :: "registry \<Rightarrow> int \<Rightarrow> registry" where
  "CorrGC reg now =
     reg\<lparr>crM := (\<lambda>k. case crM reg k of
                     None \<Rightarrow> None | Some e \<Rightarrow> if crTtl reg < timeSub now (ceUpdated e) then None else Some e),
         crJa4 := (\<lambda>k. case crJa4 reg k of
                     None \<Rightarrow> None | Some f \<Rightarrow> if crTtl reg < timeSub now (jfUpdated f) then None else Some f),
         crVel := DetGC (crVel reg) now (crTtl reg)\<rparr>"

definition Stats :: "registry \<Rightarrow> string \<Rightarrow> int \<times> int" where
  "Stats reg key =
     (case crM reg key of
        None \<Rightarrow> (0, 0)
      | Some e \<Rightarrow> (int (length (ceSubnets e)), int (length (ceSessions e))))"

definition CorrReset :: "registry \<Rightarrow> registry" where
  "CorrReset reg = reg\<lparr>crM := Map.empty, crJa4 := Map.empty, crVel := NewDetector velConfig\<rparr>"

section \<open>The detector is bounded\<close>

definition detInv :: "detector \<Rightarrow> bool" where
  "detInv d \<longleftrightarrow> 0 < dmaxKeys d \<and> 0 < dwindow d \<and> distinct (map fst (dseries d)) \<and> [] \<notin> fst ` set (dseries d) \<and>
     int (length (dseries d)) \<le> dmaxKeys d \<and> (\<forall>e \<in> set (dseries d). int (length (svals (snd e))) \<le> dwindow d)"

lemma detInv_New: "detInv (NewDetector c)"
  by (simp add: detInv_def NewDetector_def)

lemma oldest_key:
  "foldl oldestStep acc es = Some (k, t) \<Longrightarrow> (\<exists>t'. acc = Some (k, t')) \<or> k \<in> fst ` set es"
proof (induction es arbitrary: acc)
  case (Cons e es)
  then have "(\<exists>t'. oldestStep acc e = Some (k, t')) \<or> k \<in> fst ` set es" by simp
  then show ?case by (auto simp: oldestStep_def split: option.splits if_splits)
qed auto

lemma oldest_Some: "es \<noteq> [] \<or> acc \<noteq> None \<Longrightarrow> foldl oldestStep acc es \<noteq> None"
proof (induction es arbitrary: acc)
  case (Cons e es)
  have "oldestStep acc e \<noteq> None" by (auto simp: oldestStep_def split: option.splits)
  then show ?case using Cons.IH by simp
qed auto

lemma length_delete_less: "k \<in> fst ` set es \<Longrightarrow> length (AList.delete k es) < length es"
  by (force simp: AList.delete_eq intro: length_filter_less)

lemma evict_shrinks:
  assumes "detInv d" and "dseries d \<noteq> []"
  shows "length (dseries (evictOldestLocked d)) < length (dseries d)"
proof -
  obtain k t where kt: "foldl oldestStep None (dseries d) = Some (k, t)"
    using oldest_Some [of "dseries d" None] assms(2) by (auto simp: not_None_eq)
  then have "k \<in> fst ` set (dseries d)" using oldest_key by fastforce
  moreover have "k \<noteq> []" using assms(1) calculation unfolding detInv_def by metis
  ultimately show ?thesis using kt length_delete_less by (simp add: evictOldestLocked_def)
qed

lemma evict_keeps:
  "set (dseries (evictOldestLocked d)) \<subseteq> set (dseries d)"
  "distinct (map fst (dseries d)) \<Longrightarrow> distinct (map fst (dseries (evictOldestLocked d)))"
  by (auto simp: evictOldestLocked_def AList.delete_eq distinct_map_filter split: option.splits)

lemma length_update_new: "k \<notin> fst ` set es \<Longrightarrow> length (AList.update k v es) = Suc (length es)"
  by (induction es) auto

lemma length_update_old: "k \<in> fst ` set es \<Longrightarrow> length (AList.update k v es) = length es"
  by (induction es) auto

lemma set_update_subset: "set (AList.update k v es) \<subseteq> insert (k, v) (set es)"
  by (induction es) auto

lemma length_pushVal: "0 < w \<Longrightarrow> int (length vals) \<le> w \<Longrightarrow> int (length (pushVal w vals v)) \<le> w"
  by (cases vals) (auto simp: pushVal_def)

lemma openSeries_inv:
  assumes "detInv d" and "openSeries d key = (d1, s)"
  shows "distinct (map fst (dseries d1))" and "set (dseries d1) \<subseteq> set (dseries d)"
    and "int (length (svals s)) \<le> dwindow d" and "dmaxKeys d1 = dmaxKeys d" and "dwindow d1 = dwindow d"
    and "int (length (AList.update key x (dseries d1))) \<le> dmaxKeys d"
proof -
  have base: "distinct (map fst (dseries d))" "0 < dmaxKeys d" "int (length (dseries d)) \<le> dmaxKeys d"
    using assms(1) by (auto simp: detInv_def)
  have ev: "dmaxKeys (evictOldestLocked d) = dmaxKeys d" "dwindow (evictOldestLocked d) = dwindow d"
    by (auto simp: evictOldestLocked_def split: option.splits)
  show "distinct (map fst (dseries d1))" "set (dseries d1) \<subseteq> set (dseries d)" "dmaxKeys d1 = dmaxKeys d" "dwindow d1 = dwindow d"
    using assms(2) base evict_keeps [of d] ev by (auto simp: openSeries_def split: option.splits if_splits)
  show "int (length (svals s)) \<le> dwindow d"
    using assms by (auto simp: openSeries_def detInv_def dest!: map_of_SomeD split: option.splits)
  show "int (length (AList.update key x (dseries d1))) \<le> dmaxKeys d"
  proof (cases "map_of (dseries d) key")
    case (Some s')
    then have "key \<in> fst ` set (dseries d)" by (force dest: map_of_SomeD)
    then show ?thesis using assms(2) Some base(3) by (simp add: openSeries_def length_update_old)
  next
    case None
    then have new: "key \<notin> fst ` set (dseries d1)"
      using \<open>set (dseries d1) \<subseteq> set (dseries d)\<close> by (auto simp: map_of_eq_None_iff)
    have "int (length (dseries d1)) < dmaxKeys d"
    proof (cases "dmaxKeys d \<le> int (length (dseries d))")
      case True
      then have "dseries d \<noteq> []" using base(2) by auto
      then show ?thesis using evict_shrinks [OF assms(1)] assms(2) None True base(3) by (auto simp: openSeries_def)
    qed (use assms(2) None in \<open>auto simp: openSeries_def\<close>)
    then show ?thesis using new by (simp add: length_update_new)
  qed
qed

text \<open>
  The detector holds at most \<open>dmaxKeys\<close> keys and at most \<open>dwindow\<close> samples of each, whatever it observes.
\<close>

theorem detector_bounded:
  assumes "detInv d" and "key \<noteq> []"
  shows "detInv (fst (DetObserve d key v now))" and "detInv (DetGC d now ttl)"
proof -
  obtain d1 s where ds: "openSeries d key = (d1, s)" by fastforce
  note inv = openSeries_inv [OF assms(1) ds]
  let ?new = "\<lparr>svals = pushVal (dwindow d) (svals s) v, slastAt = now\<rparr>"
  have w: "0 < dwindow d" using assms(1) by (simp add: detInv_def)
  have "int (length (svals ?new)) \<le> dwindow d"
    using length_pushVal [OF _ inv(3), of v] w by simp
  moreover have "set (AList.update key ?new (dseries d1)) \<subseteq> insert (key, ?new) (set (dseries d))"
    by (rule order_trans [OF set_update_subset insert_mono [OF inv(2)]])
  moreover have "\<forall>e \<in> set (dseries d). int (length (svals (snd e))) \<le> dwindow d" "[] \<notin> fst ` set (dseries d)"
    using assms(1) by (simp_all add: detInv_def)
  ultimately have vals: "\<forall>e \<in> set (AList.update key ?new (dseries d1)). int (length (svals (snd e))) \<le> dwindow d"
    and keys: "[] \<notin> fst ` set (AList.update key ?new (dseries d1))"
    using assms(2) by force+
  show "detInv (fst (DetObserve d key v now))"
    using assms(1) inv vals keys by (simp add: DetObserve_def ds detInv_def distinct_update)
  show "detInv (DetGC d now ttl)"
    using assms(1) of_nat_mono [OF length_filter_le [of "\<lambda>e. \<not> ttl < timeSub now (slastAt (snd e))" "dseries d"],
        where 'a = int]
    by (auto simp: detInv_def DetGC_def distinct_map_filter elim: order_trans [rotated])
qed

section \<open>The fan-out of a key\<close>

definition corrRun :: "'sk prims \<Rightarrow> registry \<Rightarrow> (string \<times> string \<times> string \<times> int) list \<Rightarrow> registry" where
  "corrRun P reg obs =
     foldl (\<lambda>rg (key, subnet, sid, now). fst (fst (CorrObserve P None (rg, ()) key subnet sid now))) reg obs"

definition subnetsSeen :: "(string \<times> string \<times> string \<times> int) list \<Rightarrow> string \<Rightarrow> string set" where
  "subnetsSeen obs key = {sub. sub \<noteq> [] \<and> (\<exists>sid t. (key, sub, sid, t) \<in> set obs)}"

definition subnetsOf :: "registry \<Rightarrow> string \<Rightarrow> string list" where
  "subnetsOf reg key = (case crM reg key of None \<Rightarrow> [] | Some e \<Rightarrow> ceSubnets e)"

lemma subnetsOf_Observe:
  "subnetsOf (fst (fst (CorrObserve P None (reg, ()) key subnet sid now))) k =
     (if k = key \<and> key \<noteq> [] \<and> key \<noteq> ''|'' \<and> subnet \<noteq> [] \<and> subnet \<notin> set (subnetsOf reg k)
      then subnet # subnetsOf reg k else subnetsOf reg k)"
  by (auto simp: CorrObserve_def subnetsOf_def Let_def velocity_def noteSubnet_def isNewSubnet_def freshEntry_def
      case_prod_beta split: option.splits)

lemma corrRun_subnets:
  assumes "key \<noteq> []" and "key \<noteq> ''|''"
  shows "distinct (subnetsOf (corrRun P (NewRegistry ttl) obs) key)
       \<and> set (subnetsOf (corrRun P (NewRegistry ttl) obs) key) = subnetsSeen obs key"
proof (induction obs rule: rev_induct)
  case Nil
  then show ?case by (simp add: corrRun_def subnetsOf_def NewRegistry_def subnetsSeen_def)
next
  case (snoc x xs)
  obtain k sub sid t where x: "x = (k, sub, sid, t)" by (cases x) auto
  have run: "corrRun P (NewRegistry ttl) (xs @ [x]) =
      fst (fst (CorrObserve P None (corrRun P (NewRegistry ttl) xs, ()) k sub sid t))"
    by (simp add: corrRun_def x)
  have "subnetsSeen (xs @ [x]) key = (if k = key \<and> sub \<noteq> [] then insert sub (subnetsSeen xs key) else subnetsSeen xs key)"
    by (auto simp: subnetsSeen_def x)
  then show ?case using snoc.IH assms by (auto simp: run subnetsOf_Observe)
qed

text \<open>
  The number of subnets the registry reports for a key is the number of distinct
  subnets from which the key has been observed since the registry was created, whatever was observed under
  other keys in between.
\<close>

theorem fanout_exact:
  assumes "key \<noteq> []" and "key \<noteq> ''|''"
  shows "fst (Stats (corrRun P (NewRegistry ttl) obs) key) = int (card (subnetsSeen obs key))"
proof -
  have "fst (Stats reg key) = int (length (subnetsOf reg key))" for reg
    by (simp add: Stats_def subnetsOf_def split: option.split)
  then show ?thesis using corrRun_subnets [OF assms, of P ttl obs] by (metis distinct_card)
qed

theorem fanout_exact_witness:
  "fst (Stats (corrRun toyPrims (NewRegistry 10) [(''cred:a'', ''n1'', ''s'', 1), (''cred:b'', ''n1'', ''s'', 2),
      (''cred:a'', ''n2'', ''s'', 3), (''cred:a'', ''n1'', ''t'', 4)]) ''cred:a'') = 2"
proof -
  have "subnetsSeen [(''cred:a'', ''n1'', ''s'', 1), (''cred:b'', ''n1'', ''s'', 2),
      (''cred:a'', ''n2'', ''s'', 3), (''cred:a'', ''n1'', ''t'', 4)] ''cred:a'' = {''n1'', ''n2''}"
    by (auto simp: subnetsSeen_def)
  then show ?thesis using fanout_exact [of "''cred:a''" toyPrims 10 "[(''cred:a'', ''n1'', ''s'', 1), (''cred:b'', ''n1'', ''s'', 2),
      (''cred:a'', ''n2'', ''s'', 3), (''cred:a'', ''n1'', ''t'', 4)]"] by simp
qed

end
