(* ===== verification/Gate.thy ===== *)
theory Gate
  imports Credentials Anomaly Vault
begin

text \<open>
  The request path of the edge: \<open>ServeHTTP\<close> (\<open>internal/gate/gate.go\<close>) runs the gates of \<open>gates.go\<close> in
  order, each of which may handle the request; the verdict gate is last.

  A gate maps the server to the updated server, the list of its effects and whether it handled the
  request. The effects are, in order, the records handed to the audit sink (\<open>Seal\<close>), the actions on the
  response (\<open>Act\<close>) and the clearing of the token cookie. \<open>EmitAndAct\<close> seals before it acts (\<open>sink.go\<close>,
  modelled in \<open>AuditLog\<close>), so it is a \<open>Seal\<close> followed by an \<open>Act\<close>.

  The ban ledger and the verdict ledger are the interfaces of \<open>seams.go\<close>: their operations are arguments
  (\<open>ban_ops\<close>, \<open>verdict_ops\<close>), and \<open>memBanOps\<close> and \<open>memVerdictOps\<close> are the in-memory ones. The clock is read at
  the points \<open>clock_site\<close>; two readings are not assumed equal.
\<close>

section \<open>The server\<close>

record gate_config =
  cfgNodeID :: string
  cfgControlPath :: string
  cfgRoutes :: smap
  cfgGlobalMonitor :: bool
  cfgMaxBodyBytes :: int
  cfgRateWindow :: int
  cfgRateSoft :: int
  cfgRateHard :: int

record 'b ban_ops =
  boCheck :: "'b \<Rightarrow> string \<Rightarrow> int \<Rightarrow> 'b \<times> ban_entry option"
  boObserve :: "'b \<Rightarrow> string \<Rightarrow> int \<Rightarrow> 'b \<times> ban_entry option \<times> int"
  boObserveRate :: "('b \<Rightarrow> string \<Rightarrow> int \<Rightarrow> 'b \<times> int) option"

record 'v verdict_ops =
  voGet :: "'v \<Rightarrow> string \<Rightarrow> int \<Rightarrow> 'v \<times> sticky_verdict"
  voSet :: "'v \<Rightarrow> string \<Rightarrow> sticky_verdict \<Rightarrow> 'v"

definition memBanOps :: "limiter ban_store ban_ops" where
  "memBanOps = \<lparr>boCheck = Check, boObserve = (\<lambda>b k t. BanObserve memOps b k t t),
                boObserveRate = Some (ObserveRate memOps)\<rparr>"

definition memVerdictOps :: "verdict_store verdict_ops" where
  "memVerdictOps = \<lparr>voGet = (\<lambda>v sid t. (v, GetVerdict v sid t)), voSet = SetVerdict\<rparr>"

record ('b, 'v) server =
  cfg :: gate_config
  vaultOf :: "vault option"
  verdicts :: 'v
  bansOf :: "'b option"
  tokenKey :: bytes
  tokenEpochs :: epoch_manager
  sweepOf :: "sweep_detector option"
  killSwitch :: bool
  agentKeys :: "key_directory option"
  agentNonces :: nonce_cache
  patVerifier :: "pat_verifier option"
  webauthn :: "webauthn_registry option"
  anomalyOf :: "anomaly_shadow option"
  credCorr :: "registry option"
  credFanoutCap :: int
  overlayStore :: "overlay option option"

datatype clock_site =
    AtStart | AtBan | AtAgent | AtPat | AtCred | AtToken | AtStepUp | AtUpgrade | AtSweep | AtVerdict

record ('sk, 'b, 'v) gate_env =
  gP :: "'sk prims"
  gKdf :: "bytes \<Rightarrow> bytes \<Rightarrow> bytes option"
  gCanon :: "overlay \<Rightarrow> bytes option"
  gCred :: cred_prims
  gBan :: "'b ban_ops"
  gVer :: "'v verdict_ops"
  gClock :: "clock_site \<Rightarrow> int"
  gFresh :: bytes
  gCorrID :: string

datatype outcome =
    Forward request route_policy
  | Deny
  | Challenge
  | BanBlock "int option"
  | NotFound
  | Control string
  | TooLarge

datatype gate_event = Seal audit_record | Act outcome | ClearCookie string

type_synonym ('b, 'v) step = "('b, 'v) server \<times> gate_event list \<times> bool"

definition andThen :: "('b, 'v) step \<Rightarrow> (('b, 'v) server \<Rightarrow> ('b, 'v) step) \<Rightarrow> ('b, 'v) step" where
  "andThen st f =
     (case st of (s, evs, handled) \<Rightarrow>
       if handled then (s, evs, True)
       else case f s of (s', evs', handled') \<Rightarrow> (s', evs @ evs', handled'))"

definition pass :: "('b, 'v) server \<Rightarrow> ('b, 'v) step" where
  "pass s = (s, [], False)"

definition emit :: "('b, 'v) server \<Rightarrow> audit_record \<Rightarrow> ('b, 'v) step" where
  "emit s r = (s, [Seal r], False)"

definition emitAndAct :: "('b, 'v) server \<Rightarrow> audit_record \<Rightarrow> outcome \<Rightarrow> ('b, 'v) step" where
  "emitAndAct s r act = (s, [Seal r, Act act], True)"

section \<open>Settings and mode\<close>

definition monitorOn :: "('b, 'v) server \<Rightarrow> bool" where
  "monitorOn s \<longleftrightarrow> cfgGlobalMonitor (cfg s) \<or> killSwitch s"

definition SetKillSwitch :: "('b, 'v) server \<Rightarrow> bool \<Rightarrow> ('b, 'v) server" where
  "SetKillSwitch s on = s\<lparr>killSwitch := on\<rparr>"

definition enforcing :: "('b, 'v) server \<Rightarrow> route_policy \<Rightarrow> bool" where
  "enforcing s route \<longleftrightarrow> enforce route \<and> \<not> monitorOn s"

definition settingsEffectiveFor ::
  "('sk, 'b, 'v) gate_env \<Rightarrow> ('b, 'v) server \<Rightarrow> overlay option \<Rightarrow> effective" where
  "settingsEffectiveFor E s act =
     Settings.Resolve (gP E) (gCanon E)
       \<lparr>BGlobalMonitor = cfgGlobalMonitor (cfg s), BKillSwitch = killSwitch s, BRoutes = cfgRoutes (cfg s),
        BRateWindowSec = rlWindow (cfgRateWindow (cfg s)) sdiv 1000000000, BRateSoft = rlSoft (cfgRateSoft (cfg s)),
        BRateHard = rlHard (cfgRateHard (cfg s)), BHMACKey = tokenKey s\<rparr> act"

definition activeOverlay :: "('b, 'v) server \<Rightarrow> overlay option" where
  "activeOverlay s = (case overlayStore s of None \<Rightarrow> None | Some ov \<Rightarrow> ov)"

definition SettingsEffective :: "('sk, 'b, 'v) gate_env \<Rightarrow> ('b, 'v) server \<Rightarrow> effective" where
  "SettingsEffective E s = settingsEffectiveFor E s (activeOverlay s)"

definition configVersion :: "('sk, 'b, 'v) gate_env \<Rightarrow> ('b, 'v) server \<Rightarrow> string" where
  "configVersion E s = ConfigVersion (SettingsEffective E s)"

definition gateModuleMode :: "('sk, 'b, 'v) gate_env \<Rightarrow> ('b, 'v) server \<Rightarrow> string \<Rightarrow> string" where
  "gateModuleMode E s i =
     (if overlayStore s = None then ModeEnforce else GateMode (SettingsEffective E s) i)"

definition gateModeName :: "string \<Rightarrow> string" where
  "gateModeName m = (if m = ModeShadow then ''shadow'' else ''monitor'')"

definition modeName :: "route_policy \<Rightarrow> string" where
  "modeName route = (if enforce route then ''enforce'' else ''monitor'')"

definition resolvePath :: "('sk, 'b, 'v) gate_env \<Rightarrow> ('b, 'v) server \<Rightarrow> string \<Rightarrow> route_policy" where
  "resolvePath E s rawPath =
     (if activeOverlay s = None then resolveRoute (cfgRoutes (cfg s)) (cfgGlobalMonitor (cfg s)) rawPath
      else let eff = SettingsEffective E s
           in resolveRoute (if ERoutes eff \<noteq> [] then ERoutes eff else cfgRoutes (cfg s))
                (EGlobalMonitor eff \<or> cfgGlobalMonitor (cfg s)) rawPath)"

section \<open>Records\<close>

definition pseudonym ::
  "('sk, 'b, 'v) gate_env \<Rightarrow> ('b, 'v) server \<Rightarrow> string \<Rightarrow> string \<Rightarrow> ('b, 'v) server \<times> string" where
  "pseudonym E s sid val =
     (case vaultOf s of
        None \<Rightarrow> (s, [])
      | Some v \<Rightarrow>
          if sid = [] then (s, [])
          else (case Pseudonymize (gP E) (gKdf E) v (gFresh E) sid val of
                  (v', psn) \<Rightarrow> (s\<lparr>vaultOf := Some v'\<rparr>, psn)))"

definition baseRecord :: "('b, 'v) server \<Rightarrow> audit_record" where
  "baseRecord s = zeroRecord\<lparr>TenantID := cfgNodeID (cfg s), KeyID := ''k1''\<rparr>"

text \<open>A record whose actor is the subject under its pseudonym.\<close>

definition subjectRecord ::
  "('sk, 'b, 'v) gate_env \<Rightarrow> ('b, 'v) server \<Rightarrow> string \<Rightarrow> string \<Rightarrow> ('b, 'v) server \<times> audit_record" where
  "subjectRecord E s sid val =
     (case pseudonym E s sid val of
        (s', psn) \<Rightarrow> (s', (baseRecord s)\<lparr>Actor := \<lparr>Kind = ''subject'', IDPsn = psn\<rparr>\<rparr>))"

text \<open>
  \<open>itoaInt\<close> fills a buffer of twelve bytes from the right; it panics (\<open>None\<close>) when the digits do not fit.
\<close>

function itoaLoop :: "int \<Rightarrow> string \<Rightarrow> string" where
  "itoaLoop v acc = (if v > 0 then itoaLoop (v div 10) (digitChar (nat (v mod 10)) # acc) else acc)"
  by auto
termination by (relation "measure (nat \<circ> fst)") auto

declare itoaLoop.simps [simp del]

definition itoaInt :: "int \<Rightarrow> string option" where
  "itoaInt v =
     (if v = 0 then Some ''0''
      else let ds = itoaLoop \<bar>v\<bar> []; t = (if v < 0 then CHR ''-'' # ds else ds)
           in if length t \<le> 12 then Some t else None)"

definition itoaText :: "int \<Rightarrow> string" where
  "itoaText v = (case itoaInt v of Some t \<Rightarrow> t | None \<Rightarrow> [])"

definition banReason :: "ban_entry \<Rightarrow> string" where
  "banReason b =
     BSource b @ '' ban ('' @ (if Permanent b then ''permanent'' else ''strike '' @ itoaText (BStrike b))
     @ ''): '' @ BReason b"

definition smuggleRecord :: "audit_record \<Rightarrow> smuggle_reason \<Rightarrow> audit_record" where
  "smuggleRecord r reason =
     r\<lparr>EventType := ''net.smuggle'', Verdict := VerdictDeny, Rules := [''HR-23''], Action := ''block'',
       Mode := ''enforce'', FailReason := ''request framing ambiguity: '' @ smuggleText reason\<rparr>"

definition spoofRecord :: "audit_record \<Rightarrow> string list \<Rightarrow> audit_record" where
  "spoofRecord r found =
     r\<lparr>EventType := ''hdr.internal_header_ingress'', RouteClass := ''html'', Verdict := VerdictDeny,
       Rules := [''HR-27b''], Action := ''block'', Mode := ''enforce'',
       FailReason := ''inbound internal headers: '' @ joinWith '','' found\<rparr>"

definition ruleList :: "string \<Rightarrow> string list" where
  "ruleList x = (if x = [] then [] else [x])"

definition truncRat :: "rat \<Rightarrow> int" where
  "truncRat x = (if x < 0 then - \<lfloor>- x\<rfloor> else \<lfloor>x\<rfloor>)"

section \<open>The gates before routing\<close>

definition routeControlPlane :: "('b, 'v) server \<Rightarrow> request \<Rightarrow> ('b, 'v) step" where
  "routeControlPlane s r =
     (let cp = cfgControlPath (cfg s)
      in if \<not> hasPrefix (rPath r) cp then pass s
         else if hasPrefix (rPath r) (cp @ ''admin/'') then (s, [Act NotFound], True)
         else let pre = (if cp \<noteq> [] \<and> List.last cp = CHR ''/'' then butlast cp else cp)
              in (s, [Act (Control (drop (length pre) (rPath r)))], True))"

definition enforceBan ::
  "('sk, 'b, 'v) gate_env \<Rightarrow> ('b, 'v) server \<Rightarrow> request \<Rightarrow> string \<Rightarrow> ban_entry \<Rightarrow> ('b, 'v) step" where
  "enforceBan E s r sid b =
     (case subjectRecord E s sid (rClientIP r) of
        (s1, rec) \<Rightarrow>
          let secs = truncRat (remainingSecs b (gClock E AtBan))
          in emitAndAct s1
               (rec\<lparr>EventType := ''ban.enforced'', RouteClass := routeClass r, Verdict := VerdictDeny,
                    Rules := [''HR-21''], Action := ''block'', Mode := ''enforce'', FailReason := banReason b\<rparr>)
               (BanBlock (if \<not> Permanent b \<and> 0 < secs then Some secs else None)))"

text \<open>The loop that checks the keys.\<close>

fun banCheckLoop ::
  "('sk, 'b, 'v) gate_env \<Rightarrow> request \<Rightarrow> string \<Rightarrow> string \<Rightarrow> 'b \<Rightarrow> string list \<Rightarrow> ('b, 'v) server \<Rightarrow> ('b, 'v) step" where
  "banCheckLoop E r sid mode b [] s = pass (s\<lparr>bansOf := Some b\<rparr>)"
| "banCheckLoop E r sid mode b (k # ks) s =
     (case boCheck (gBan E) b k (gClock E AtBan) of
        (b', None) \<Rightarrow> banCheckLoop E r sid mode b' ks s
      | (b', Some e) \<Rightarrow>
          if mode \<noteq> ModeEnforce
          then (case subjectRecord E s sid (rClientIP r) of
                  (s1, rec) \<Rightarrow>
                    andThen (emit s1 (rec\<lparr>EventType := ''ban.enforced'', RouteClass := routeClass r,
                               Verdict := VerdictDeny, Rules := [''HR-21''], Action := ''would_block'',
                               Mode := gateModeName mode, FailReason := banReason e @ '' (audit only)''\<rparr>))
                      (banCheckLoop E r sid mode b' ks))
          else enforceBan E (s\<lparr>bansOf := Some b'\<rparr>) r sid e)"

definition rateMonitorRecord :: "audit_record \<Rightarrow> request \<Rightarrow> string \<Rightarrow> int \<Rightarrow> audit_record" where
  "rateMonitorRecord rec r mode level =
     rec\<lparr>EventType := (if level = 2 then ''ratelimit.hard_exceeded'' else ''ratelimit.soft_exceeded''),
         RouteClass := routeClass r, Action := (if level = 2 then ''would_auto_ban'' else ''would_rate_limit''),
         Mode := gateModeName mode\<rparr>"

definition rateSoftRecord :: "audit_record \<Rightarrow> request \<Rightarrow> audit_record" where
  "rateSoftRecord rec r =
     rec\<lparr>EventType := ''ratelimit.soft_exceeded'', RouteClass := routeClass r, Action := ''rate_limit'',
         Mode := ''enforce''\<rparr>"

definition banAppliedRecord :: "audit_record \<Rightarrow> request \<Rightarrow> ban_entry \<Rightarrow> audit_record" where
  "banAppliedRecord rec r e =
     rec\<lparr>Actor := \<lparr>Kind = ''system'', IDPsn = []\<rparr>, EventType := ''ban.applied'', RouteClass := routeClass r,
         Verdict := VerdictDeny, Rules := [''HR-21''], Action := ''block'', Mode := ''enforce'',
         FailReason := banReason e\<rparr>"

text \<open>The loop that meters the keys: audit only, or with automatic bans.\<close>

fun banMonitorLoop ::
  "('sk, 'b, 'v) gate_env \<Rightarrow> request \<Rightarrow> string \<Rightarrow> string \<Rightarrow> 'b \<Rightarrow> string list \<Rightarrow> ('b, 'v) server \<Rightarrow> ('b, 'v) step" where
  "banMonitorLoop E r sid mode b [] s = pass (s\<lparr>bansOf := Some b\<rparr>)"
| "banMonitorLoop E r sid mode b (k # ks) s =
     (case boObserveRate (gBan E) of
        None \<Rightarrow> banMonitorLoop E r sid mode b ks s
      | Some obs \<Rightarrow>
          (case obs b k (gClock E AtBan) of
             (b', level) \<Rightarrow>
               if 0 < level
               then (case subjectRecord E s sid (rClientIP r) of
                       (s1, rec) \<Rightarrow>
                         andThen (emit s1 (rateMonitorRecord rec r mode level)) (banMonitorLoop E r sid mode b' ks))
               else banMonitorLoop E r sid mode b' ks s))"

fun banObserveLoop ::
  "('sk, 'b, 'v) gate_env \<Rightarrow> request \<Rightarrow> string \<Rightarrow> 'b \<Rightarrow> string list \<Rightarrow> ('b, 'v) server \<Rightarrow> ('b, 'v) step" where
  "banObserveLoop E r sid b [] s = pass (s\<lparr>bansOf := Some b\<rparr>)"
| "banObserveLoop E r sid b (k # ks) s =
     (case boObserve (gBan E) b k (gClock E AtBan) of
        (b', Some e, level) \<Rightarrow>
          let s1 = s\<lparr>bansOf := Some b'\<rparr>
          in andThen (emit s1 (banAppliedRecord (baseRecord s1) r e)) (\<lambda>s2. enforceBan E s2 r sid e)
      | (b', None, level) \<Rightarrow>
          if level = 1
          then (case subjectRecord E s sid (rClientIP r) of
                  (s1, rec) \<Rightarrow> andThen (emit s1 (rateSoftRecord rec r)) (banObserveLoop E r sid b' ks))
          else banObserveLoop E r sid b' ks s)"

definition banKeys :: "('sk, 'b, 'v) gate_env \<Rightarrow> request \<Rightarrow> string list" where
  "banKeys E r = (''ip:'' @ rClientIP r) # (let fp = bindKey (gP E) r in if fp \<noteq> [] then [''fp:'' @ fp] else [])"

definition banGate ::
  "('sk, 'b, 'v) gate_env \<Rightarrow> ('b, 'v) server \<Rightarrow> request \<Rightarrow> string \<Rightarrow> ('b, 'v) step" where
  "banGate E s r sid =
     (case bansOf s of
        None \<Rightarrow> pass s
      | Some b \<Rightarrow>
          let mode = gateModuleMode E s ''gate.ban''
          in if mode = ModeOff then pass s
             else andThen (banCheckLoop E r sid mode b (banKeys E r) s)
                    (\<lambda>s1. case bansOf s1 of
                            None \<Rightarrow> pass s1
                          | Some b1 \<Rightarrow> if mode \<noteq> ModeEnforce then banMonitorLoop E r sid mode b1 (banKeys E r) s1
                                       else banObserveLoop E r sid b1 (banKeys E r) s1))"

definition smuggleGate ::
  "('sk, 'b, 'v) gate_env \<Rightarrow> ('b, 'v) server \<Rightarrow> request \<Rightarrow> string \<Rightarrow> ('b, 'v) step" where
  "smuggleGate E s r sid =
     (let reason = smuggleScan r
      in if reason = SmuggleNone then pass s
         else case subjectRecord E s sid sid of
                (s1, base) \<Rightarrow>
                  let rec = smuggleRecord base reason
                  in if gateModuleMode E s1 ''gate.smuggle'' \<noteq> ModeEnforce then emit s1 (rec\<lparr>Mode := ''monitor''\<rparr>)
                     else emitAndAct s1 rec Deny)"

text \<open>The spoof gate also strips the forged headers from the request that goes on.\<close>

definition spoofHeaderGate ::
  "('sk, 'b, 'v) gate_env \<Rightarrow> ('b, 'v) server \<Rightarrow> request \<Rightarrow> string \<Rightarrow> ('b, 'v) step" where
  "spoofHeaderGate E s r sid =
     (let found = spoofScan r
      in if found = [] then pass s
         else case subjectRecord E s sid sid of
                (s1, base) \<Rightarrow>
                  let rec = spoofRecord base found
                  in if gateModuleMode E s1 ''gate.spoof_header'' \<noteq> ModeEnforce then emit s1 (rec\<lparr>Mode := ''monitor''\<rparr>)
                     else emitAndAct s1 rec Deny)"

definition afterSpoof :: "request \<Rightarrow> request" where
  "afterSpoof r = (if spoofScan r = [] then r else stripInbound r)"

section \<open>Credentials\<close>

definition trustUpgrade ::
  "('sk, 'b, 'v) gate_env \<Rightarrow> ('b, 'v) server \<Rightarrow> request \<Rightarrow> string \<Rightarrow> route_policy \<Rightarrow> string \<Rightarrow> string \<Rightarrow> string \<Rightarrow> ('b, 'v) step" where
  "trustUpgrade E s r sid route eventType ruleName reason =
     (case subjectRecord E s sid sid of
        (s1, rec) \<Rightarrow>
          emitAndAct s1 (rec\<lparr>EventType := eventType, RouteClass := routeClass r, Verdict := VerdictAllow,
             Rules := [ruleName], Action := ''pass'', Mode := ''enforce'', FailReason := reason\<rparr>) (Forward r route))"

definition agentForgedReason :: "string \<Rightarrow> string" where
  "agentForgedReason kid = ''forged Web Bot Auth signature for allowlisted keyid '' @ kid"

definition agentAuthGate ::
  "('sk, 'b, 'v) gate_env \<Rightarrow> ('b, 'v) server \<Rightarrow> request \<Rightarrow> string \<Rightarrow> route_policy \<Rightarrow> ('b, 'v) step" where
  "agentAuthGate E s r sid route =
     (case agentKeys s of
        None \<Rightarrow> pass s
      | Some dir \<Rightarrow>
        (case verifyAgent (gP E) (rHost r) (rMethod r) (rPath r) (hGet r ''Signature-Input'') (hGet r ''Signature'')
                dir (agentNonces s) (gClock E AtAgent) of
           (n', v, kid) \<Rightarrow>
             let s1 = s\<lparr>agentNonces := n'\<rparr>
             in case v of
               AgentForged \<Rightarrow>
                 (case subjectRecord E s1 sid sid of
                    (s2, rec) \<Rightarrow>
                      let rec1 = rec\<lparr>EventType := ''agent.signature.forged'', RouteClass := routeClass r\<rparr>
                      in if \<not> enforcing s1 route
                         then emit s2 (rec1\<lparr>Mode := ''monitor'',
                                FailReason := agentForgedReason kid @ '' (monitor: not blocked)''\<rparr>)
                         else emitAndAct s2 (rec1\<lparr>Verdict := VerdictDeny, Rules := [''web-bot-auth''],
                                Action := ''block'', Mode := ''enforce'', FailReason := agentForgedReason kid\<rparr>) Deny)
             | AgentVerifiedTrusted \<Rightarrow>
                 if \<not> enforcing s1 route then pass s1
                 else trustUpgrade E s1 r sid route ''agent.signature.verified'' ''web-bot-auth''
                        (''verified Web Bot Auth agent '' @ kid)
             | AgentVerifiedUnknown \<Rightarrow>
                 (case subjectRecord E s1 sid sid of
                    (s2, rec) \<Rightarrow>
                      emit s2 (rec\<lparr>EventType := ''agent.signature.unknown'', RouteClass := routeClass r,
                        Mode := ''enforce'', FailReason := ''unknown/unsupported agent signature keyid '' @ kid\<rparr>))
             | AgentNone \<Rightarrow> pass s1))"

definition patGate ::
  "('sk, 'b, 'v) gate_env \<Rightarrow> ('b, 'v) server \<Rightarrow> request \<Rightarrow> string \<Rightarrow> route_policy \<Rightarrow> ('b, 'v) step" where
  "patGate E s r sid route =
     (case patVerifier s of
        None \<Rightarrow> pass s
      | Some pv \<Rightarrow>
          if \<not> enforcing s route then pass s
          else (case verifyPrivateToken (gCred E) pv (hGet r ''Authorization'') (gClock E AtPat) of
                  (pv', v, kid) \<Rightarrow>
                    let s1 = s\<lparr>patVerifier := Some pv'\<rparr>
                    in if v \<noteq> PatVerified then pass s1
                       else trustUpgrade E s1 r sid route ''privacypass.token.verified'' ''privacy-pass''
                              (''verified Private Access Token, issuer '' @ take 12 kid)))"

text \<open>The dash is written in UTF-8 as in the source.\<close>

definition emDash :: string where
  "emDash = [CHR 0xE2, CHR 0x80, CHR 0x94]"

definition fanoutReason :: "string \<Rightarrow> int \<Rightarrow> int \<Rightarrow> string" where
  "fanoutReason short subnets cap =
     ''webauthn credential '' @ short @ '' fan-out '' @ itoaText subnets @ '' subnets > cap '' @ itoaText cap
     @ '' '' @ emDash @ '' trust-upgrade withheld on attested route, routed to Pass''"

definition webauthnGate ::
  "('sk, 'b, 'v) gate_env \<Rightarrow> ('b, 'v) server \<Rightarrow> request \<Rightarrow> string \<Rightarrow> route_policy \<Rightarrow> ('b, 'v) step" where
  "webauthnGate E s r sid route =
     (case webauthn s of
        None \<Rightarrow> pass s
      | Some wr \<Rightarrow>
          if \<not> enforcing s route then pass s
          else (case verifyAssertion (gP E) (gCred E) wr (hGet r ''Webauthn-Assertion'') of
                  (wr', v, cid) \<Rightarrow>
                    let s1 = s\<lparr>webauthn := Some wr'\<rparr>; short = take 16 cid;
                        upgrade = (\<lambda>s'. trustUpgrade E s' r sid route ''webauthn.assertion.verified'' ''webauthn''
                                          (''verified WebAuthn assertion, credential '' @ short))
                    in if v \<noteq> WebauthnVerified then pass s1
                       else case credCorr s1 of
                              None \<Rightarrow> upgrade s1
                            | Some reg \<Rightarrow>
                                (case CorrObserve (gP E) None (reg, ()) (''cred:'' @ cid) (rSubnet r) sid (gClock E AtCred) of
                                   ((reg', u), sigs) \<Rightarrow>
                                     let s2 = s1\<lparr>credCorr := Some reg'\<rparr>; subnets = fst (Stats reg' (''cred:'' @ cid))
                                     in if attestFloor route \<and> credFanoutCap s2 < subnets
                                        then (case subjectRecord E s2 sid sid of
                                                (s3, rec) \<Rightarrow>
                                                  emit s3 (rec\<lparr>EventType := ''webauthn.assertion.verified'',
                                                    RouteClass := routeClass r, Mode := ''enforce'',
                                                    FailReason := fanoutReason short subnets (credFanoutCap s2)\<rparr>))
                                        else upgrade s2)))"

section \<open>Tokens\<close>

definition verdictCookie :: string where "verdictCookie = ''hmn_vt''"
definition stepUpCookie :: string where "stepUpCookie = ''hmn_su''"

definition hasValidToken :: "('sk, 'b, 'v) gate_env \<Rightarrow> ('b, 'v) server \<Rightarrow> request \<Rightarrow> int \<Rightarrow> bool" where
  "hasValidToken E s r now \<longleftrightarrow>
     tokenKey s \<noteq> [] \<and> cookie r verdictCookie \<noteq> [] \<and>
     verifyVerdictToken (gP E) (tokenKey s) (cookie r verdictCookie) (tokenBind (gP E) r) (sessionID r) now
       (AcceptedEpochs (tokenEpochs s) now) = TokenOK"

definition hasValidStepUp :: "('sk, 'b, 'v) gate_env \<Rightarrow> ('b, 'v) server \<Rightarrow> request \<Rightarrow> string \<Rightarrow> int \<Rightarrow> bool" where
  "hasValidStepUp E s r sid now \<longleftrightarrow>
     tokenKey s \<noteq> [] \<and> cookie r stepUpCookie \<noteq> [] \<and>
     verifyStepUpToken (gP E) (tokenKey s) (cookie r stepUpCookie) (tokenBind (gP E) r) sid now
       (AcceptedEpochs (tokenEpochs s) now) = TokenOK"

fun tokenReasonText :: "token_reason \<Rightarrow> string" where
  "tokenReasonText TokenOK = []"
| "tokenReasonText TokenBadSig = ''bad_sig''"
| "tokenReasonText TokenExpired = ''expired''"
| "tokenReasonText TokenBindingMismatch = ''binding_mismatch''"
| "tokenReasonText TokenMalformed = ''malformed''"

definition auditAttestationFloor ::
  "('sk, 'b, 'v) gate_env \<Rightarrow> ('b, 'v) server \<Rightarrow> request \<Rightarrow> string \<Rightarrow> string \<Rightarrow> string \<Rightarrow> ('b, 'v) step" where
  "auditAttestationFloor E s r sid mode reason =
     (case subjectRecord E s sid (rClientIP r) of
        (s1, rec) \<Rightarrow>
          (case pseudonym E s1 sid sid of
             (s2, spsn) \<Rightarrow>
               emit s2 (rec\<lparr>EventType := ''enforcement.challenge.issued'', SessionPsn := spsn, Host := rHost r,
                 RouteClass := routeClass r, Verdict := VerdictAllow, Action := ''would_challenge'',
                 Mode := gateModeName mode, FailReason := reason @ '' (audit only)'', ConfigVer := configVersion E s2\<rparr>)))"

text \<open>The rest of the gate once the token has verified and the module enforces on an enforcing route.\<close>

definition tokenFastPath ::
  "('sk, 'b, 'v) gate_env \<Rightarrow> ('b, 'v) server \<Rightarrow> request \<Rightarrow> string \<Rightarrow> route_policy \<Rightarrow> ('b, 'v) step" where
  "tokenFastPath E s r sid route =
     (case subjectRecord E s sid sid of
        (s1, rec) \<Rightarrow>
          emitAndAct s1 (rec\<lparr>EventType := ''enforcement.allow'', RouteClass := routeClass r, Verdict := VerdictAllow,
            Action := ''pass'', Mode := ''enforce'', ConfigVer := rpName route\<rparr>) (Forward r route))"

definition verdictTokenGate ::
  "('sk, 'b, 'v) gate_env \<Rightarrow> ('b, 'v) server \<Rightarrow> request \<Rightarrow> string \<Rightarrow> route_policy \<Rightarrow> ('b, 'v) step" where
  "verdictTokenGate E s r sid route =
     (let mode = gateModuleMode E s ''gate.verdict_token''; now = gClock E AtToken
      in if tokenKey s = [] \<or> mode = ModeOff \<or> cookie r verdictCookie = [] then pass s
         else let reason = verifyVerdictToken (gP E) (tokenKey s) (cookie r verdictCookie) (tokenBind (gP E) r) sid now
                             (AcceptedEpochs (tokenEpochs s) now)
         in if reason \<noteq> TokenOK
            then (case subjectRecord E s sid sid of
                    (s1, base) \<Rightarrow>
                      let rec = base\<lparr>EventType := ''token.binding_mismatch'', RouteClass := routeClass r\<rparr>
                      in if mode \<noteq> ModeEnforce
                         then emit s1 (rec\<lparr>Mode := gateModeName mode, Action := ''would_clear_and_rescore'',
                                FailReason := ''verdict token '' @ tokenReasonText reason @ '' (audit only)''\<rparr>)
                         else (s1, [ClearCookie verdictCookie,
                                Seal (rec\<lparr>Mode := ''enforce'', FailReason := ''verdict token '' @ tokenReasonText reason
                                  @ '' '' @ emDash @ '' cleared, re-scoring''\<rparr>)], False))
            else if mode \<noteq> ModeEnforce
            then (case subjectRecord E s sid sid of
                    (s1, rec) \<Rightarrow>
                      emit s1 (rec\<lparr>EventType := ''enforcement.allow'', RouteClass := routeClass r,
                        Verdict := VerdictAllow, Action := ''would_fast_path'', Mode := gateModeName mode\<rparr>))
            else if \<not> enforcing s route then pass s
            else if attestFloor route \<and> \<not> hasValidStepUp E s r sid (gClock E AtToken)
            then (let floorMode = gateModuleMode E s ''gate.attest_floor''
                  in if floorMode = ModeEnforce then pass s
                     else if floorMode = ModeMonitor \<or> floorMode = ModeShadow
                     then andThen (auditAttestationFloor E s r sid floorMode
                                     ''verdict-token fast path would require step-up'')
                            (\<lambda>s1. tokenFastPath E s1 r sid route)
                     else tokenFastPath E s r sid route)
            else tokenFastPath E s r sid route)"

definition upgradeGate ::
  "('sk, 'b, 'v) gate_env \<Rightarrow> ('b, 'v) server \<Rightarrow> request \<Rightarrow> string \<Rightarrow> route_policy \<Rightarrow> ('b, 'v) step" where
  "upgradeGate E s r sid route =
     (if routeClass r \<noteq> ''upgrade'' \<or> \<not> enforcing s route \<or> hasValidToken E s r (gClock E AtUpgrade) then pass s
      else case subjectRecord E s sid sid of
             (s1, rec) \<Rightarrow>
               emitAndAct s1 (rec\<lparr>EventType := ''upgrade.no_prior_verdict'', RouteClass := ''upgrade'',
                 Verdict := VerdictDeny, Rules := [''HR-26''], Action := ''block'', Mode := ''enforce'',
                 FailReason := ''upgrade with no prior fingerprint-bound verdict''\<rparr>) Deny)"

section \<open>Sweeps and verdicts\<close>

definition sweepReason :: string where
  "sweepReason = ''decision-probing sweep (many sessions, one fingerprint)''"

definition sweepGate ::
  "('sk, 'b, 'v) gate_env \<Rightarrow> ('b, 'v) server \<Rightarrow> request \<Rightarrow> string \<Rightarrow> route_policy \<Rightarrow> ('b, 'v) step" where
  "sweepGate E s r sid route =
     (case sweepOf s of
        None \<Rightarrow> pass s
      | Some d \<Rightarrow>
          let mode = gateModuleMode E s ''gate.recon_sweep''
          in if mode = ModeOff \<or> mode = ModeEnforce \<and> \<not> enforcing s route then pass s
             else (case SweepObserve d (bindKey (gP E) r) sid (gClock E AtSweep) of
                     (d', hit) \<Rightarrow>
                       let s1 = s\<lparr>sweepOf := Some d'\<rparr>
                       in if \<not> hit then pass s1
                          else (case subjectRecord E s1 sid sid of
                                  (s2, base) \<Rightarrow>
                                    let rec = base\<lparr>EventType := ''recon.decision_probing'', RouteClass := routeClass r,
                                                Verdict := VerdictDeny, Rules := [''HR-30''], Action := ''block'',
                                                Mode := ''enforce'', FailReason := sweepReason\<rparr>
                                    in if mode \<noteq> ModeEnforce
                                       then emit s2 (rec\<lparr>Mode := gateModeName mode, Action := ''would_block'',
                                              FailReason := sweepReason @ '' (audit only)''\<rparr>)
                                       else emitAndAct s2 rec Deny)))"

definition isUnsafeMethod :: "string \<Rightarrow> bool" where
  "isUnsafeMethod m \<longleftrightarrow> m \<in> {''POST'', ''PUT'', ''PATCH'', ''DELETE''}"

text \<open>The event type and the name of the action.\<close>

definition verdictAction :: "string \<Rightarrow> route_policy \<Rightarrow> bool \<Rightarrow> string \<times> string" where
  "verdictAction v route unsafe =
     (if v = VerdictDeny then (''enforcement.deny'', ''block'')
      else if v = VerdictChallenge then (''enforcement.challenge.issued'', ''challenge_pow'')
      else if v = VerdictAllow then (''enforcement.allow'', ''pass'')
      else if failClosed route \<or> syncScore route \<or> unsafe then (''enforcement.challenge.issued'', ''challenge_pow'')
      else (''enforcement.allow'', ''pass''))"

text \<open>The floor for a passing verdict: the action that results, after the audit of a monitored floor.\<close>

definition applyFloor ::
  "('sk, 'b, 'v) gate_env \<Rightarrow> ('b, 'v) server \<Rightarrow> request \<Rightarrow> string \<Rightarrow> route_policy \<Rightarrow> string \<times> string
   \<Rightarrow> ('b, 'v) server \<times> gate_event list \<times> (string \<times> string)" where
  "applyFloor E s r sid route act =
     (if enforcing s route \<and> attestFloor route \<and> snd act = ''pass'' \<and> \<not> hasValidStepUp E s r sid (gClock E AtStepUp)
      then let floorMode = gateModuleMode E s ''gate.attest_floor''
           in if floorMode = ModeEnforce then (s, [], (''enforcement.challenge.issued'', ''challenge_pow''))
              else if floorMode = ModeMonitor \<or> floorMode = ModeShadow
              then (case auditAttestationFloor E s r sid floorMode ''scoring allow would require step-up'' of
                      (s1, evs, h) \<Rightarrow> (s1, evs, act))
              else (s, [], act)
      else (s, [], act))"

definition verdictRecord ::
  "('sk, 'b, 'v) gate_env \<Rightarrow> ('b, 'v) server \<Rightarrow> request \<Rightarrow> string \<Rightarrow> route_policy \<Rightarrow> sticky_verdict \<Rightarrow> string \<times> string
   \<Rightarrow> ('b, 'v) server \<times> audit_record" where
  "verdictRecord E s r sid route sticky act =
     (case subjectRecord E s sid (rClientIP r) of
        (s1, rec) \<Rightarrow>
          (case pseudonym E s1 sid sid of
             (s2, spsn) \<Rightarrow>
               (s2, rec\<lparr>EventType := fst act, SessionPsn := spsn, Host := rHost r, RouteClass := routeClass r,
                  Verdict := verdict sticky, RiskScore := truncRat (risk sticky), Rules := ruleList (rule sticky),
                  TopSignals := top sticky, Action := snd act, Mode := modeName route,
                  ConfigVer := configVersion E s2, Correlation := gCorrID E,
                  LatencyUS := latencyUS (gClock E AtStart) (gClock E AtVerdict)\<rparr>)))"

definition applyVerdict ::
  "('sk, 'b, 'v) gate_env \<Rightarrow> ('b, 'v) server \<Rightarrow> request \<Rightarrow> string \<Rightarrow> route_policy \<Rightarrow> ('b, 'v) step" where
  "applyVerdict E s r sid route =
     (case voGet (gVer E) (verdicts s) sid (gClock E AtSweep) of
        (v', sticky) \<Rightarrow>
          let s1 = s\<lparr>verdicts := v'\<rparr>;
              unsafe = isUnsafeMethod (rMethod r);
              act0 = verdictAction (verdict sticky) route unsafe;
              act1 = (if verdict sticky = VerdictUnknown \<and> unsafe \<and> snd act0 = ''challenge_pow''
                      then (''enf.failclosed.mutating'', snd act0) else act0)
          in case applyFloor E s1 r sid route act1 of
               (s2, evs, act) \<Rightarrow>
                 (case verdictRecord E s2 r sid route sticky act of
                    (s3, rec) \<Rightarrow>
                      if \<not> enforcing s3 route
                      then (s3, evs @ [Seal (rec\<lparr>Mode := ''monitor''\<rparr>), Act (Forward r route)], True)
                      else (s3, evs @ [Seal rec, Act (if snd act = ''block'' then Deny
                                                      else if snd act = ''challenge_pow'' then Challenge
                                                      else Forward r route)], True)))"

section \<open>The request path\<close>

definition observeAnomaly ::
  "('sk, 'b, 'v) gate_env \<Rightarrow> ('b, 'v) server \<Rightarrow> request \<Rightarrow> ('b, 'v) server" where
  "observeAnomaly E s r =
     (case anomalyOf s of
        None \<Rightarrow> s
      | Some a \<Rightarrow> s\<lparr>anomalyOf := Some (fst (shadowObserve a (bindKey (gP E) r) (gClock E AtStart)))\<rparr>)"

definition bodyCap :: "('b, 'v) server \<Rightarrow> request \<Rightarrow> ('b, 'v) step" where
  "bodyCap s r =
     (if 0 < cfgMaxBodyBytes (cfg s) \<and> cfgMaxBodyBytes (cfg s) < rContentLength r
      then (s, [Act TooLarge], True) else pass s)"

text \<open>The gates after routing, on the request the spoof gate left.\<close>

definition routedGates ::
  "('sk, 'b, 'v) gate_env \<Rightarrow> ('b, 'v) server \<Rightarrow> request \<Rightarrow> string \<Rightarrow> ('b, 'v) step" where
  "routedGates E s r sid =
     (let route = resolvePath E s (rPath r)
      in andThen (agentAuthGate E s r sid route) (\<lambda>s.
         andThen (patGate E s r sid route) (\<lambda>s.
         andThen (webauthnGate E s r sid route) (\<lambda>s.
         andThen (verdictTokenGate E s r sid route) (\<lambda>s.
         andThen (upgradeGate E s r sid route) (\<lambda>s.
         andThen (sweepGate E s r sid route) (\<lambda>s.
         applyVerdict E s r sid route)))))))"

definition ServeHTTP ::
  "('sk, 'b, 'v) gate_env \<Rightarrow> ('b, 'v) server \<Rightarrow> request \<Rightarrow> ('b, 'v) step" where
  "ServeHTTP E s0 r =
     (let s = observeAnomaly E s0 r; sid = sessionID r
      in andThen (routeControlPlane s r) (\<lambda>s.
         andThen (bodyCap s r) (\<lambda>s.
         andThen (banGate E s r sid) (\<lambda>s.
         andThen (smuggleGate E s r sid) (\<lambda>s.
         andThen (spoofHeaderGate E s r sid) (\<lambda>s.
         routedGates E s (afterSpoof r) sid))))))"

section \<open>The request to the origin\<close>

definition setHeader :: "string \<Rightarrow> string \<Rightarrow> request \<Rightarrow> request" where
  "setHeader k v r = r\<lparr>rHeader := AList.update k [v] (rHeader r)\<rparr>"

definition delHeader :: "string \<Rightarrow> request \<Rightarrow> request" where
  "delHeader k r = r\<lparr>rHeader := AList.delete k (rHeader r)\<rparr>"

text \<open>\<open>SetXForwarded\<close> of \<open>net/http/httputil\<close>; \<open>hasPort\<close> says that the socket address has a port.\<close>

definition setXForwarded :: "bool \<Rightarrow> bool \<Rightarrow> request \<Rightarrow> request \<Rightarrow> request" where
  "setXForwarded hasPort tls inr out =
     (let prior = hValues out ''X-Forwarded-For'';
          out1 = (if hasPort
                  then setHeader ''X-Forwarded-For''
                         (if prior = [] then rClientIP inr else joinWith '', '' prior @ '', '' @ rClientIP inr) out
                  else delHeader ''X-Forwarded-For'' out)
      in setHeader ''X-Forwarded-Proto'' (if tls then ''https'' else ''http'')
           (setHeader ''X-Forwarded-Host'' (rHost inr) out1))"

definition rewriteOut ::
  "'sk prims \<Rightarrow> bytes \<Rightarrow> bool \<Rightarrow> bool \<Rightarrow> int \<Rightarrow> request \<Rightarrow> request \<Rightarrow> request" where
  "rewriteOut P originKey hasPort tls now inr out =
     setHeader ''X-Hmny-Origin-Auth'' (originAuth P originKey (Epoch now))
       (setHeader ''Accept-Encoding'' ''identity''
         (setXForwarded hasPort tls inr (stripInbound (out\<lparr>rHost := rHost inr\<rparr>))))"

end
