(* ===== verification/FileStore.thy ===== *)
theory FileStore
  imports Settings
begin

text \<open>
  The store of the active overlay: \<open>internal/gate/settings/store_file.go\<close>. It keeps the overlay in memory
  and in two files, the active one and the last one that was persisted (last known good), and recovers from
  them at start-up.

  The JSON codec of an overlay is an argument; the outcome of each file operation is one too. A write that
  fails may leave anything behind, the old content included.
\<close>

section \<open>The store\<close>

record settings_disk =
  activeFile :: "bytes option"
  lkgFile :: "bytes option"

datatype load_error = LoadIO | LoadDecode | LoadedLKG "load_error option" | LoadInvalid

record file_store =
  fsActive :: "overlay option"
  fsLkg :: "overlay option"
  loadErr :: "load_error option"

datatype read_outcome = Absent | Unreadable | Content bytes

definition readFile :: "(bytes \<Rightarrow> overlay option) \<Rightarrow> read_outcome \<Rightarrow> load_error + overlay option" where
  "readFile dec r =
     (case r of
        Absent \<Rightarrow> Inr None
      | Unreadable \<Rightarrow> Inl LoadIO
      | Content b \<Rightarrow> (case dec b of None \<Rightarrow> Inl LoadDecode | Some v \<Rightarrow> Inr (Some v)))"

text \<open>
  The zero overlay. Its class is the empty string in the code, a value that no overlay has once it is
  classified; nothing reads it.
\<close>

definition zeroOverlay :: overlay where
  "zeroOverlay = \<lparr>SchemaVersion = [], OverlayID = [], OCreatedAt = 0, OCreatedBy = [], ApprovedBy = [], OStatus = [],
     ExpiresAt = None, ParentConfigVersion = [], MutationClass = ClassA, OGates = [], OHardRules = [],
     OScoring = None, OWeights = [], ONetPolicy = [], ORoutes = [], ORateLimit = None, OGlobalMonitor = None\<rparr>"

text \<open>\<open>cloneOverlay\<close> goes through JSON and ignores its errors.\<close>

definition cloneOverlay :: "(overlay \<Rightarrow> bytes option) \<Rightarrow> (bytes \<Rightarrow> overlay option) \<Rightarrow> overlay \<Rightarrow> overlay" where
  "cloneOverlay enc dec v =
     (case enc v of
        None \<Rightarrow> zeroOverlay
      | Some b \<Rightarrow> (case dec b of None \<Rightarrow> zeroOverlay | Some c \<Rightarrow> c))"

datatype boot_error = EmptyDir | MkdirFailed

definition recoverLKG :: "load_error option \<Rightarrow> (load_error + overlay option) \<Rightarrow> file_store" where
  "recoverLKG err lkg =
     (case lkg of
        Inr (Some v) \<Rightarrow>
          if Validate (Some v) = None
          then \<lparr>fsActive = Some v, fsLkg = Some v, loadErr = Some (LoadedLKG err)\<rparr>
          else \<lparr>fsActive = None, fsLkg = None, loadErr = Some (patched err LoadInvalid)\<rparr>
      | _ \<Rightarrow> \<lparr>fsActive = None, fsLkg = None, loadErr = Some (patched err LoadInvalid)\<rparr>)"

definition NewFileStore ::
  "(overlay \<Rightarrow> bytes option) \<Rightarrow> (bytes \<Rightarrow> overlay option) \<Rightarrow> string \<Rightarrow> bool \<Rightarrow> read_outcome \<Rightarrow> read_outcome
     \<Rightarrow> boot_error + file_store" where
  "NewFileStore enc dec dir mkdirOK ra rl =
     (if dir = [] then Inl EmptyDir
      else if \<not> mkdirOK then Inl MkdirFailed
      else Inr (case readFile dec ra of
                  Inl e \<Rightarrow> recoverLKG (Some e) (readFile dec rl)
                | Inr None \<Rightarrow> \<lparr>fsActive = None, fsLkg = None, loadErr = None\<rparr>
                | Inr (Some v) \<Rightarrow>
                    if Validate (Some v) \<noteq> None then recoverLKG None (readFile dec rl)
                    else \<lparr>fsActive = Some v, fsLkg = Some (cloneOverlay enc dec v), loadErr = None\<rparr>))"

datatype write_outcome = WriteOK | WriteFailed "bytes option"

definition afterWrite :: "write_outcome \<Rightarrow> bytes \<Rightarrow> bytes option" where
  "afterWrite w b = (case w of WriteOK \<Rightarrow> Some b | WriteFailed left \<Rightarrow> left)"

datatype set_error = SetInvalid settings_error | SetMarshal | SetWrite

text \<open>The outcomes of the removal and of the two writes of a call.\<close>

record io_fate =
  ioRemove :: bool
  ioActive :: write_outcome
  ioLkg :: write_outcome

definition SetActive ::
  "(overlay \<Rightarrow> bytes option) \<Rightarrow> (bytes \<Rightarrow> overlay option) \<Rightarrow> io_fate \<Rightarrow> settings_disk \<times> file_store \<Rightarrow> overlay option
     \<Rightarrow> (settings_disk \<times> file_store) \<times> set_error option" where
  "SetActive enc dec io ds ov =
     (case ds of (d, s) \<Rightarrow>
       (case ov of
          None \<Rightarrow> ((d\<lparr>activeFile := (if ioRemove io then None else activeFile d)\<rparr>, s\<lparr>fsActive := None\<rparr>), None)
        | Some v0 \<Rightarrow>
            (case Validate (Some v0) of
               Some e \<Rightarrow> (ds, Some (SetInvalid e))
             | None \<Rightarrow>
                 let v = v0\<lparr>OStatus := ''active''\<rparr>
                 in (case enc v of
                       None \<Rightarrow> (ds, Some SetMarshal)
                     | Some b \<Rightarrow>
                         if ioActive io \<noteq> WriteOK
                         then ((d\<lparr>activeFile := afterWrite (ioActive io) b\<rparr>, s), Some SetWrite)
                         else ((\<lparr>activeFile = Some b, lkgFile = afterWrite (ioLkg io) b\<rparr>,
                                \<lparr>fsActive = Some (cloneOverlay enc dec v), fsLkg = Some (cloneOverlay enc dec v),
                                 loadErr = None\<rparr>), None)))))"

section \<open>What the store promises\<close>

text \<open>A codec that restores what it wrote.\<close>

definition codecOK :: "(overlay \<Rightarrow> bytes option) \<Rightarrow> (bytes \<Rightarrow> overlay option) \<Rightarrow> bool" where
  "codecOK enc dec \<longleftrightarrow> (\<forall>v b. enc v = Some b \<longrightarrow> dec b = Some v)"

definition fileOutcome :: "bytes option \<Rightarrow> read_outcome" where
  "fileOutcome f = (case f of None \<Rightarrow> Absent | Some b \<Rightarrow> Content b)"

definition reload :: "(overlay \<Rightarrow> bytes option) \<Rightarrow> (bytes \<Rightarrow> overlay option) \<Rightarrow> settings_disk \<Rightarrow> file_store option" where
  "reload enc dec d =
     (case NewFileStore enc dec ''dir'' True (fileOutcome (activeFile d)) (fileOutcome (lkgFile d)) of
        Inl _ \<Rightarrow> None | Inr s \<Rightarrow> Some s)"

definition storeOK :: "file_store \<Rightarrow> bool" where
  "storeOK s \<longleftrightarrow> Validate (fsActive s) = None"

lemma Validate_status [simp]: "Validate (Some (v\<lparr>OStatus := x\<rparr>)) = Validate (Some v)"
  by (simp add: Validate_def)

lemma Validate_meta [simp]:
  "Validate (Some (v\<lparr>MutationClass := c\<rparr>)) = Validate (Some v)"
  "Validate (Some (v\<lparr>ExpiresAt := t\<rparr>)) = Validate (Some v)"
  "Validate (Some (v\<lparr>ApprovedBy := a\<rparr>)) = Validate (Some v)"
  by (simp_all add: Validate_def)

lemma clone_codec: "codecOK enc dec \<Longrightarrow> enc v = Some b \<Longrightarrow> cloneOverlay enc dec v = v"
  by (simp add: cloneOverlay_def codecOK_def)

lemma recoverLKG_valid: "Validate (fsActive (recoverLKG err r)) = None"
proof (cases r)
  case (Inr x)
  then show ?thesis by (cases x) (simp_all add: recoverLKG_def Validate_def)
qed (simp add: recoverLKG_def Validate_def)

lemma NewFileStore_valid: "NewFileStore enc dec dir mk ra rl = Inr s \<Longrightarrow> storeOK s"
  by (auto simp: NewFileStore_def storeOK_def recoverLKG_valid split: if_splits sum.splits option.splits)
    (simp_all add: Validate_def)

lemma SetActive_valid:
  assumes "codecOK enc dec" and "storeOK s" and "SetActive enc dec io (d, s) ov = ((d', s'), e)"
  shows "storeOK s'"
proof (cases ov)
  case None
  then show ?thesis using assms(3) by (auto simp: SetActive_def storeOK_def Validate_def)
next
  case (Some v)
  then show ?thesis using assms clone_codec [OF assms(1)]
    by (auto simp: SetActive_def storeOK_def Let_def split: option.splits if_splits)
qed

lemma SetActive_store:
  assumes "SetActive enc dec io (d, s) (Some v) = ((d', s'), None)" and "codecOK enc dec"
  obtains b where "enc (v\<lparr>OStatus := ''active''\<rparr>) = Some b" "Validate (Some v) = None" "activeFile d' = Some b"
    "lkgFile d' = afterWrite (ioLkg io) b" "fsActive s' = Some (v\<lparr>OStatus := ''active''\<rparr>)" "loadErr s' = None"
  using assms clone_codec [OF assms(2)]
  by (auto simp: SetActive_def Let_def split: option.splits if_splits)

lemma SetActive_error:
  assumes "SetActive enc dec io (d, s) (Some v) = ((d', s'), Some e)"
  shows "s' = s" and "lkgFile d' = lkgFile d"
  using assms by (auto simp: SetActive_def Let_def split: option.splits if_splits)

lemma reload_active:
  assumes "activeFile d = Some b" and "dec b = Some v" and "Validate (Some v) = None"
  obtains s where "reload enc dec d = Some s" "fsActive s = Some v" "loadErr s = None"
  using assms by (simp add: reload_def NewFileStore_def fileOutcome_def readFile_def)

lemma reload_lkg:
  assumes "activeFile d = Some junk" and "dec junk = None"
    and "lkgFile d = Some b" and "dec b = Some v" and "Validate (Some v) = None"
  shows "reload enc dec d = Some \<lparr>fsActive = Some v, fsLkg = Some v, loadErr = Some (LoadedLKG (Some LoadDecode))\<rparr>"
  using assms by (simp add: reload_def NewFileStore_def fileOutcome_def readFile_def recoverLKG_def)

text \<open>
  C33. An overlay that was stored is the active one after a restart; it is
  so even if the active file is damaged later, as long as the second file was written: start-up then
  recovers it from the last known good copy and reports that it did.
\<close>

theorem settings_survive_restart:
  assumes "codecOK enc dec" and "SetActive enc dec io (d, s) (Some v) = ((d', s'), None)"
  shows "fsActive s' = Some (v\<lparr>OStatus := ''active''\<rparr>)
      \<and> (\<exists>r. reload enc dec d' = Some r \<and> fsActive r = fsActive s' \<and> loadErr r = None)
      \<and> (\<forall>junk. dec junk = None \<and> ioLkg io = WriteOK \<longrightarrow>
           (\<exists>r. reload enc dec (d'\<lparr>activeFile := Some junk\<rparr>) = Some r \<and> fsActive r = fsActive s'
              \<and> loadErr r = Some (LoadedLKG (Some LoadDecode))))"
proof -
  obtain b where b: "enc (v\<lparr>OStatus := ''active''\<rparr>) = Some b" "Validate (Some v) = None" "activeFile d' = Some b"
      "lkgFile d' = afterWrite (ioLkg io) b" "fsActive s' = Some (v\<lparr>OStatus := ''active''\<rparr>)"
    using SetActive_store [OF assms(2,1)] by metis
  have dec: "dec b = Some (v\<lparr>OStatus := ''active''\<rparr>)" using assms(1) b(1) by (simp add: codecOK_def)
  have "\<exists>r. reload enc dec d' = Some r \<and> fsActive r = fsActive s' \<and> loadErr r = None"
    using reload_active [of d' b dec _ enc, OF b(3) dec] b(2,5) by (metis Validate_status)
  moreover have "\<exists>r. reload enc dec (d'\<lparr>activeFile := Some junk\<rparr>) = Some r \<and> fsActive r = fsActive s'
      \<and> loadErr r = Some (LoadedLKG (Some LoadDecode))" if "dec junk = None" "ioLkg io = WriteOK" for junk
    using reload_lkg [of "d'\<lparr>activeFile := Some junk\<rparr>" junk dec b _ enc] dec b that by (simp add: afterWrite_def)
  ultimately show ?thesis using b(5) by blast
qed

text \<open>A toy codec for one overlay.\<close>

definition exEnc :: "overlay \<Rightarrow> bytes option" where
  "exEnc v = (if v = emptyOverlay then Some ''ov'' else None)"

definition exDec :: "bytes \<Rightarrow> overlay option" where
  "exDec b = (if b = ''ov'' then Some emptyOverlay else None)"

definition exIO :: io_fate where
  "exIO = \<lparr>ioRemove = True, ioActive = WriteOK, ioLkg = WriteOK\<rparr>"

definition exDisk :: settings_disk where
  "exDisk = \<lparr>activeFile = None, lkgFile = None\<rparr>"

definition exStore :: file_store where
  "exStore = \<lparr>fsActive = None, fsLkg = None, loadErr = None\<rparr>"

lemma exCodec: "codecOK exEnc exDec"
  by (simp add: codecOK_def exEnc_def exDec_def)

lemma exValid: "Validate (Some emptyOverlay) = None"
  by (simp add: Validate_def emptyOverlay_def orElseErr_def)

lemma exActive: "emptyOverlay\<lparr>OStatus := ''active''\<rparr> = emptyOverlay"
  by (simp add: emptyOverlay_def)

theorem settings_survive_restart_witness:
  "\<exists>r. reload exEnc exDec (fst (fst (SetActive exEnc exDec exIO (exDisk, exStore) (Some emptyOverlay)))
          \<lparr>activeFile := Some ''junk''\<rparr>) = Some r
      \<and> fsActive r = Some emptyOverlay \<and> loadErr r = Some (LoadedLKG (Some LoadDecode))"
proof -
  have "SetActive exEnc exDec exIO (exDisk, exStore) (Some emptyOverlay) =
      ((\<lparr>activeFile = Some ''ov'', lkgFile = Some ''ov''\<rparr>,
        \<lparr>fsActive = Some emptyOverlay, fsLkg = Some emptyOverlay, loadErr = None\<rparr>), None)"
    by (simp add: SetActive_def exValid exActive exEnc_def exDec_def exIO_def cloneOverlay_def afterWrite_def)
  then show ?thesis
    using settings_survive_restart [OF exCodec, of exIO exDisk exStore emptyOverlay]
    by (simp add: exActive exIO_def exDec_def)
qed

section \<open>A rolled-back overlay can come back\<close>

text \<open>
  Clearing the active overlay leaves the last known good file in place, and a later store whose write fails
  can leave a damaged active file. The next start-up then activates the overlay that was rolled back.
\<close>

theorem rollback_resurrected:
  assumes "codecOK enc dec"
    and "SetActive enc dec io (d, s) (Some v) = ((d1, s1), None)" and "ioLkg io = WriteOK"
    and "SetActive enc dec io2 (d1, s1) None = ((d2, s2), None)"
    and "SetActive enc dec io3 (d2, s2) (Some w) = ((d3, s3), Some SetWrite)"
    and "ioActive io3 = WriteFailed (Some junk)" and "dec junk = None"
  shows "fsActive s3 = None \<and> (\<exists>r. reload enc dec d3 = Some r \<and> fsActive r = Some (v\<lparr>OStatus := ''active''\<rparr>))"
proof -
  obtain b where b: "enc (v\<lparr>OStatus := ''active''\<rparr>) = Some b" "Validate (Some v) = None"
      and "lkgFile d1 = afterWrite (ioLkg io) b"
    using SetActive_store [OF assms(2,1)] by metis
  then have lkg: "lkgFile d1 = Some b" using assms(3) by (simp add: afterWrite_def)
  have "s2 = s1\<lparr>fsActive := None\<rparr>" "lkgFile d2 = lkgFile d1" using assms(4) by (auto simp: SetActive_def)
  moreover have "s3 = s2" "lkgFile d3 = lkgFile d2" using SetActive_error [OF assms(5)] by simp_all
  moreover have "activeFile d3 = Some junk"
    using assms(5,6) by (auto simp: SetActive_def Let_def afterWrite_def split: option.splits if_splits)
  moreover have "dec b = Some (v\<lparr>OStatus := ''active''\<rparr>)" using assms(1) b(1) by (simp add: codecOK_def)
  ultimately show ?thesis using reload_lkg [of d3 junk dec b _ enc] b(2) lkg assms(7) by simp
qed

end
