(* ===== verification/AdminSettings.thy ===== *)
theory AdminSettings
  imports Gate FileStore
begin

text \<open>
  The settings write plane of the admin API: \<open>internal/gate/admin_settings.go\<close> and
  \<open>internal/gate/settings_runtime.go\<close>. An operator proposes an overlay against the version of the
  configuration they saw; a tightening is applied at once, a loosening waits for a second person; an overlay
  expires or is rolled back.

  The state \<open>admin\<close> is the server with the parts the admin plane adds to it. A handler maps it to the
  updated state and the reply. \<open>sealed\<close> is the sequence of records handed to the audit sink. The clock is
  read at the points \<open>admin_site\<close>; randomness, JSON, the file system and the texts of \<open>fmt\<close> are arguments.
  The ban ledger is the in-memory one, over any rate limiter.
\<close>

section \<open>The admin state\<close>

record settings_stats =
  stApplied :: "64 word"
  stRolledBack :: "64 word"
  stRejected :: "64 word"
  stErrors :: "64 word"
  stStoreErrors :: "64 word"

record ('l, 'v) admin =
  srv :: "('l ban_store, 'v) server"
  auth :: admin_auth
  approvals :: approval_store
  shreds :: shred_queue
  settingsStore :: "file_store option"
  sdisk :: settings_disk
  stats :: settings_stats
  incidentLimiter :: limiter
  sealed :: "audit_record list"

datatype admin_site =
    AtExpire | AtBuild | AtExpiry | AtCreate | AtApply | AtApprove | AtBan | AtSchedule | AtList | AtIncident

record propose_body =
  ppParent :: string
  ppHardRules :: smap
  ppGates :: smap
  ppScoring :: "scoring_patch option"
  ppWeights :: "(string \<times> rat) list"
  ppNetPolicy :: smap
  ppRoutes :: smap
  ppRateLimit :: "rate_patch option"
  ppGlobalMonitor :: "bool option"
  ppConfirm :: string
  ppExpiresInSec :: int

record ban_body =
  bbKey :: string
  bbReason :: string
  bbIncident :: string
  bbDurationSec :: int

record bulk_body =
  kbKeys :: "string list"
  kbReason :: string
  kbDurationSec :: int

text \<open>\<open>json.NewDecoder(http.MaxBytesReader(w, r.Body, n)).Decode\<close>, per body type.\<close>

record admin_json =
  jPropose :: "nat \<Rightarrow> bytes \<Rightarrow> propose_body option"
  jParent :: "nat \<Rightarrow> bytes \<Rightarrow> string option"
  jKill :: "nat \<Rightarrow> bytes \<Rightarrow> bool option"
  jErasure :: "nat \<Rightarrow> bytes \<Rightarrow> (string \<times> string) option"
  jBan :: "nat \<Rightarrow> bytes \<Rightarrow> ban_body option"
  jBulk :: "nat \<Rightarrow> bytes \<Rightarrow> bulk_body option"

record ('sk, 'l, 'v) admin_env =
  aGate :: "('sk, 'l ban_store, 'v) gate_env"
  aLim :: "'l limiter_ops"
  aRateConfigurable :: bool
  aEnc :: "overlay \<Rightarrow> bytes option"
  aDec :: "bytes \<Rightarrow> overlay option"
  aIO :: io_fate
  aClock :: "admin_site \<Rightarrow> int"
  aNewID :: string
  aRand8 :: "bytes option"
  aShredID :: string
  aParseIP :: "string \<Rightarrow> bool"
  aParseCIDR :: "string \<Rightarrow> bool"
  aJson :: admin_json
  aErrText :: "settings_error \<Rightarrow> string"
  aSetText :: "set_error \<Rightarrow> string"
  aLoadText :: "load_error \<Rightarrow> string"
  aRecords :: "audit_record list"
  aKeys :: "string list"

datatype admin_err = EText string | ESettings settings_error | ESet set_error | EApproval approval_err | EPanic | ERand | EJson

datatype jval =
    JB bool | JS string | JI int | JClass mutation_class | JEff effective | JOv "overlay option"
  | JBans "ban_entry list" | JPending "pending_action list" | JShreds "scheduled_shred list"
  | JRecords "audit_record list" | JRecord audit_record

datatype admin_reply = HttpError nat admin_err | Json "(string \<times> jval) list" | NotFoundReply | View string

section \<open>Records\<close>

definition emitRec :: "audit_record \<Rightarrow> ('l, 'v) admin \<Rightarrow> ('l, 'v) admin" where
  "emitRec r a = a\<lparr>sealed := sealed a @ [r]\<rparr>"

definition emitSystem :: "(audit_record \<Rightarrow> audit_record) \<Rightarrow> ('l, 'v) admin \<Rightarrow> ('l, 'v) admin" where
  "emitSystem f a = emitRec (f ((baseRecord (srv a))\<lparr>Actor := \<lparr>Kind = ''system'', IDPsn = []\<rparr>\<rparr>)) a"

text \<open>The actor of a record is the operator under a pseudonym of their own id.\<close>

definition emitOperator ::
  "('sk, 'l, 'v) admin_env \<Rightarrow> string \<Rightarrow> (audit_record \<Rightarrow> audit_record) \<Rightarrow> ('l, 'v) admin \<Rightarrow> ('l, 'v) admin" where
  "emitOperator A i f a =
     (case pseudonym (aGate A) (srv a) i i of
        (s, psn) \<Rightarrow> emitRec (f ((baseRecord s)\<lparr>Actor := \<lparr>Kind = ''operator'', IDPsn = psn\<rparr>\<rparr>)) (a\<lparr>srv := s\<rparr>))"

definition event :: "string \<Rightarrow> string \<Rightarrow> string \<Rightarrow> audit_record \<Rightarrow> audit_record" where
  "event ty mode reason r = r\<lparr>EventType := ty, Mode := mode, FailReason := reason\<rparr>"

definition arrow :: string where
  "arrow = [CHR 0xE2, CHR 0x86, CHR 0x92]"

section \<open>The runtime side of a setting (settings_runtime.go, gate.go)\<close>

text \<open>\<open>time.Duration(sec) * time.Second\<close> on 64 bits.\<close>

definition mulSecond :: "int \<Rightarrow> int" where
  "mulSecond sec = (sec * 1000000000 + 2 ^ 63) mod 2 ^ 64 - 2 ^ 63"

definition settingsEffectiveCandidate ::
  "('sk, 'l, 'v) admin_env \<Rightarrow> ('l, 'v) admin \<Rightarrow> overlay option \<Rightarrow> effective" where
  "settingsEffectiveCandidate A a ov =
     settingsEffectiveFor (aGate A) (srv a) (map_option (\<lambda>v. v\<lparr>OStatus := ''active''\<rparr>) ov)"

definition bootWindow :: "('l, 'v) admin \<Rightarrow> int" where
  "bootWindow a = rlWindow (cfgRateWindow (cfg (srv a))) sdiv 1000000000"

definition validateSettingsRuntime ::
  "('sk, 'l, 'v) admin_env \<Rightarrow> ('l, 'v) admin \<Rightarrow> effective \<Rightarrow> admin_err option" where
  "validateSettingsRuntime A a eff =
     (if RateWindowSec eff < 1 \<or> RateSoft eff < 1 \<or> RateHard eff < RateSoft eff
      then Some (EText (''settings: invalid effective rate limit '' @ formatInt (RateWindowSec eff) @ ''/''
             @ formatInt (RateSoft eff) @ ''/'' @ formatInt (RateHard eff)))
      else if \<not> aRateConfigurable A
              \<and> (RateWindowSec eff \<noteq> bootWindow a \<or> RateSoft eff \<noteq> rlSoft (cfgRateSoft (cfg (srv a)))
                 \<or> RateHard eff \<noteq> rlHard (cfgRateHard (cfg (srv a))))
      then Some (EText ''settings: configured BanLedger does not support rate hot-apply'')
      else None)"

definition syncSettingsRuntime :: "('sk, 'l, 'v) admin_env \<Rightarrow> effective \<Rightarrow> ('l, 'v) admin \<Rightarrow> ('l, 'v) admin" where
  "syncSettingsRuntime A eff a =
     (if aRateConfigurable A
      then a\<lparr>srv := (srv a)\<lparr>bansOf := map_option (\<lambda>b. ConfigureRate (aLim A) b (mulSecond (RateWindowSec eff))
                                                   (RateSoft eff) (RateHard eff)) (bansOf (srv a))\<rparr>\<rparr>
      else a)"

definition recordSettingsStoreError :: "string \<Rightarrow> ('l, 'v) admin \<Rightarrow> ('l, 'v) admin" where
  "recordSettingsStoreError reason a =
     emitSystem (event ''settings.store.degraded'' ''monitor'' reason)
       (a\<lparr>stats := (stats a)\<lparr>stStoreErrors := stStoreErrors (stats a) + 1\<rparr>\<rparr>)"

definition settingsApplyError :: "('l, 'v) admin \<Rightarrow> ('l, 'v) admin" where
  "settingsApplyError a = a\<lparr>stats := (stats a)\<lparr>stErrors := stErrors (stats a) + 1\<rparr>\<rparr>"

fun errText :: "('sk, 'l, 'v) admin_env \<Rightarrow> admin_err \<Rightarrow> string" where
  "errText A (EText t) = t"
| "errText A (ESettings e) = aErrText A e"
| "errText A (ESet (SetInvalid e)) = aErrText A e"
| "errText A (ESet e) = aSetText A e"
| "errText A _ = []"

definition settingsApplyRejected ::
  "('sk, 'l, 'v) admin_env \<Rightarrow> admin_err \<Rightarrow> ('l, 'v) admin \<Rightarrow> ('l, 'v) admin \<times> admin_err option" where
  "settingsApplyRejected A e a =
     (emitSystem (event ''settings.overlay.rejected'' ''monitor'' (errText A e))
        (a\<lparr>stats := (stats a)\<lparr>stRejected := stRejected (stats a) + 1\<rparr>\<rparr>), Some e)"

text \<open>The store is also what the request path reads, so the server's view of it moves along.\<close>

definition putStore :: "settings_disk \<times> file_store \<Rightarrow> ('l, 'v) admin \<Rightarrow> ('l, 'v) admin" where
  "putStore ds a =
     a\<lparr>sdisk := fst ds, settingsStore := Some (snd ds), srv := (srv a)\<lparr>overlayStore := Some (fsActive (snd ds))\<rparr>\<rparr>"

definition storeActive ::
  "('sk, 'l, 'v) admin_env \<Rightarrow> overlay option \<Rightarrow> ('l, 'v) admin \<Rightarrow> ('l, 'v) admin \<times> admin_err option" where
  "storeActive A ov a =
     (case settingsStore a of
        None \<Rightarrow> (a, Some EPanic)
      | Some st \<Rightarrow>
          (case SetActive (aEnc A) (aDec A) (aIO A) (sdisk a, st) ov of
             (ds, e) \<Rightarrow> (putStore ds a, map_option ESet e)))"

section \<open>Expiry and effective settings\<close>

definition expireActiveOverlayIfNeeded :: "('sk, 'l, 'v) admin_env \<Rightarrow> ('l, 'v) admin \<Rightarrow> ('l, 'v) admin" where
  "expireActiveOverlayIfNeeded A a =
     (if settingsStore a = None \<or> killSwitch (srv a) then a
      else case fsActive (the (settingsStore a)) of
             None \<Rightarrow> a
           | Some ov \<Rightarrow>
               (case ExpiresAt ov of
                  None \<Rightarrow> a
                | Some t \<Rightarrow>
                    if t < aClock A AtExpire
                    then (let next = settingsEffectiveFor (aGate A) (srv a) None
                          in case storeActive A None a of
                               (a1, Some e) \<Rightarrow> recordSettingsStoreError (''expire: '' @ errText A e) a1
                             | (a1, None) \<Rightarrow>
                                 emitSystem (event ''settings.overlay.expired'' ''enforce'' (''overlayId='' @ OverlayID ov))
                                   (syncSettingsRuntime A next a1))
                    else a))"

definition effOf :: "('sk, 'l, 'v) admin_env \<Rightarrow> ('l, 'v) admin \<Rightarrow> effective" where
  "effOf A a = SettingsEffective (aGate A) (srv a)"

definition settingsEffectiveFresh :: "('sk, 'l, 'v) admin_env \<Rightarrow> ('l, 'v) admin \<Rightarrow> ('l, 'v) admin \<times> effective" where
  "settingsEffectiveFresh A a = (let a1 = expireActiveOverlayIfNeeded A a in (a1, effOf A a1))"

text \<open>
  \<open>SetSettingsStore\<close>: attach a store at start-up; a posture the ban ledger cannot take detaches it again.
\<close>

definition SetSettingsStore ::
  "('sk, 'l, 'v) admin_env \<Rightarrow> (settings_disk \<times> file_store) option \<Rightarrow> ('l, 'v) admin \<Rightarrow> ('l, 'v) admin \<times> admin_err option" where
  "SetSettingsStore A st a =
     (case st of
        None \<Rightarrow> (a\<lparr>settingsStore := None, srv := (srv a)\<lparr>overlayStore := None\<rparr>\<rparr>, None)
      | Some ds \<Rightarrow>
          (let a1 = putStore ds a;
               a2 = (case loadErr (snd ds) of None \<Rightarrow> a1 | Some e \<Rightarrow> recordSettingsStoreError (''load: '' @ aLoadText A e) a1);
               eff = effOf A a2
           in case validateSettingsRuntime A a2 eff of
                Some e \<Rightarrow> (a2\<lparr>settingsStore := None, srv := (srv a2)\<lparr>overlayStore := None\<rparr>\<rparr>, Some e)
              | None \<Rightarrow> (syncSettingsRuntime A eff a2, None)))"

section \<open>Applying and clearing (admin_settings.go)\<close>

definition randOverlayID :: "('sk, 'l, 'v) admin_env \<Rightarrow> string option" where
  "randOverlayID A = map_option (\<lambda>b. ''ovl_'' @ hexEncode b) (aRand8 A)"

definition buildOverlayFromPropose ::
  "('sk, 'l, 'v) admin_env \<Rightarrow> propose_body \<Rightarrow> string \<Rightarrow> string \<Rightarrow> overlay option" where
  "buildOverlayFromPropose A body opID parent =
     map_option (\<lambda>i.
       zeroOverlay\<lparr>SchemaVersion := ''1.0.0'', OverlayID := i, OCreatedAt := aClock A AtBuild, OCreatedBy := opID,
         OStatus := ''pending'', ParentConfigVersion := parent, OScoring := ppScoring body,
         OWeights := ppWeights body, ORoutes := ppRoutes body, ORateLimit := ppRateLimit body,
         OGlobalMonitor := ppGlobalMonitor body, OHardRules := ppHardRules body, OGates := ppGates body,
         ONetPolicy := ppNetPolicy body\<rparr>) (randOverlayID A)"

definition daySec :: int where "daySec = 86400"

definition expiryForClass :: "mutation_class \<Rightarrow> int \<Rightarrow> int \<Rightarrow> string + int option" where
  "expiryForClass class wantSec now =
     (case class of
        ClassA \<Rightarrow> if wantSec \<le> 0 then Inr None else Inr (Some (now + mulSecond wantSec))
      | ClassC \<Rightarrow>
          (let sec = (if wantSec \<le> 0 then daySec else wantSec)
           in if daySec < sec then Inl ''class C expiresInSec max 24h'' else Inr (Some (now + mulSecond sec)))
      | _ \<Rightarrow>
          (let sec = (if wantSec \<le> 0 then 7 * daySec else wantSec)
           in if 7 * daySec < sec then Inl ''class B/D expiresInSec max 7d'' else Inr (Some (now + mulSecond sec))))"

fun className :: "mutation_class \<Rightarrow> string" where
  "className ClassA = ''A''"
| "className ClassB = ''B''"
| "className ClassC = ''C''"
| "className ClassD = ''D''"

definition casError :: admin_err where
  "casError = EText ''CAS: parentConfigVersion mismatch (stale)''"

definition dualNote :: "string \<Rightarrow> string \<Rightarrow> string" where
  "dualNote requester approver =
     (if approver = [] then [] else '' dual-control '' @ requester @ arrow @ approver)"

definition configChanged :: "('sk, 'l, 'v) admin_env \<Rightarrow> string \<Rightarrow> ('l, 'v) admin \<Rightarrow> ('l, 'v) admin" where
  "configChanged A requester a =
     emitOperator A requester
       (event ''config.changed'' ''enforce'' (''config_version='' @ ConfigVersion (effOf A a))) a"

definition applyOverlayCAS ::
  "('sk, 'l, 'v) admin_env \<Rightarrow> overlay \<Rightarrow> string \<Rightarrow> string \<Rightarrow> string \<Rightarrow> ('l, 'v) admin \<Rightarrow> ('l, 'v) admin \<times> admin_err option" where
  "applyOverlayCAS A ov parent requester approver a =
     (if settingsStore a = None then settingsApplyRejected A (EText ''settings store not configured'') a
      else let cur = effOf A a in
      if parent = [] \<or> parent \<noteq> ConfigVersion cur then settingsApplyRejected A casError a
      else case Validate (Some ov) of
        Some e \<Rightarrow> settingsApplyRejected A (ESettings e) a
      | None \<Rightarrow>
          let class = Classify cur (Some ov); ov1 = ov\<lparr>MutationClass := class\<rparr> in
          if class = ClassC \<and> ExpiresAt ov1 = None
          then settingsApplyRejected A (EText ''class C requires expiresAt'') a
          else if (case ExpiresAt ov1 of None \<Rightarrow> False | Some t \<Rightarrow> \<not> aClock A AtApply < t)
          then settingsApplyRejected A (EText ''overlay already expired'') a
          else
            let ov2 = ov1\<lparr>OStatus := ''active'', ApprovedBy := approver\<rparr>;
                next = settingsEffectiveCandidate A a (Some ov2)
            in (case validateSettingsRuntime A a next of
                  Some e \<Rightarrow> settingsApplyRejected A e a
                | None \<Rightarrow>
                    (case storeActive A (Some ov2) a of
                       (a1, Some e) \<Rightarrow>
                         (settingsApplyError (recordSettingsStoreError (''apply: '' @ errText A e) a1), Some e)
                     | (a1, None) \<Rightarrow>
                         let a2 = syncSettingsRuntime A next a1;
                             a3 = a2\<lparr>stats := (stats a2)\<lparr>stApplied := stApplied (stats a2) + 1\<rparr>\<rparr>;
                             a4 = emitOperator A requester
                                    (event ''settings.overlay.applied'' ''enforce''
                                       (''settings.overlay applied class='' @ className class @ '' id='' @ OverlayID ov2
                                        @ dualNote requester approver)) a3
                         in (configChanged A requester a4, None))))"

definition clearOverlayCAS ::
  "('sk, 'l, 'v) admin_env \<Rightarrow> string \<Rightarrow> string \<Rightarrow> string \<Rightarrow> ('l, 'v) admin \<Rightarrow> ('l, 'v) admin \<times> admin_err option" where
  "clearOverlayCAS A parent requester approver a =
     (let cur = effOf A a in
      if parent = [] \<or> parent \<noteq> ConfigVersion cur then settingsApplyRejected A casError a
      else let next = settingsEffectiveFor (aGate A) (srv a) None in
        case validateSettingsRuntime A a next of
          Some e \<Rightarrow> settingsApplyRejected A e a
        | None \<Rightarrow>
            (case storeActive A None a of
               (a1, Some e) \<Rightarrow>
                 (settingsApplyError (recordSettingsStoreError (''rollback: '' @ errText A e) a1), Some e)
             | (a1, None) \<Rightarrow>
                 let a2 = syncSettingsRuntime A next a1;
                     a3 = a2\<lparr>stats := (stats a2)\<lparr>stRolledBack := stRolledBack (stats a2) + 1\<rparr>\<rparr>;
                     a4 = emitOperator A requester
                            (event ''settings.overlay.rolled_back'' ''enforce''
                               (''settings.overlay rolled back to empty'' @ dualNote requester approver)) a3
                 in (configChanged A requester a4, None)))"

section \<open>The handlers\<close>

definition requestApproval ::
  "('sk, 'l, 'v) admin_env \<Rightarrow> string \<Rightarrow> (string \<rightharpoonup> string) \<Rightarrow> string \<Rightarrow> string \<Rightarrow> ('l, 'v) admin
     \<Rightarrow> ('l, 'v) admin \<times> pending_action" where
  "requestApproval A kind params opID role a =
     (case Create (approvals a) (aNewID A) kind params opID role (aClock A AtCreate) of
        (st, p) \<Rightarrow> (a\<lparr>approvals := st\<rparr>, p))"

definition badRequest :: admin_reply where
  "badRequest = HttpError 400 (EText ''bad request'')"

definition noStore :: admin_reply where
  "noStore = HttpError 503 (EText ''settings store not configured (-settings-dir)'')"

text \<open>The part of \<open>adminSettingsPropose\<close> after the overlay has been validated and classified.\<close>

definition submitOverlay ::
  "('sk, 'l, 'v) admin_env \<Rightarrow> propose_body \<Rightarrow> operator \<Rightarrow> overlay \<Rightarrow> ('l, 'v) admin \<Rightarrow> ('l, 'v) admin \<times> admin_reply" where
  "submitOverlay A body p ov a =
     (let class = MutationClass ov in
      if killSwitch (srv a) \<and> (class = ClassB \<or> class = ClassC \<or> class = ClassD)
      then (a, HttpError 409 (EText ''kill switch engaged: loosening overlays blocked''))
      else let a1 = emitOperator A (OpID p)
                      (event ''settings.overlay.proposed'' ''enforce''
                         (''class='' @ className class @ '' overlayId='' @ OverlayID ov)) a in
      if class = ClassA
      then (case applyOverlayCAS A ov (ppParent body) (OpID p) [] a1 of
              (a2, Some e) \<Rightarrow> (a2, HttpError 409 e)
            | (a2, None) \<Rightarrow>
                (a2, Json [(''ok'', JB True), (''applied'', JB True), (''class'', JClass class),
                           (''overlayId'', JS (OverlayID ov)), (''configVersion'', JS (ConfigVersion (effOf A a2)))]))
      else (case requestApproval A ''settings.overlay''
                   [''overlayId'' \<mapsto> OverlayID ov, ''parentConfigVersion'' \<mapsto> ppParent body,
                    ''mutationClass'' \<mapsto> className class, ''body'' \<mapsto> patched (aEnc A ov) [],
                    ''integrityConfirm'' \<mapsto> ppConfirm body] (OpID p) RoleApprover a1 of
              (a2, q) \<Rightarrow>
                (emitOperator A (OpID p)
                   (event ''approval.requested'' ''enforce''
                      (''settings.overlay pending class='' @ className class @ '' id='' @ PID q)) a2,
                 Json [(''ok'', JB True), (''pending'', JB True), (''approvalId'', JS (PID q)), (''class'', JClass class),
                       (''overlayId'', JS (OverlayID ov)), (''needsRole'', JS RoleApprover)])))"

definition adminSettingsPropose ::
  "('sk, 'l, 'v) admin_env \<Rightarrow> bytes \<Rightarrow> operator \<Rightarrow> ('l, 'v) admin \<Rightarrow> ('l, 'v) admin \<times> admin_reply" where
  "adminSettingsPropose A raw p a =
     (if settingsStore a = None then (a, noStore)
      else case jPropose (aJson A) 262144 raw of
        None \<Rightarrow> (a, badRequest)
      | Some body \<Rightarrow>
          (case settingsEffectiveFresh A a of (a1, eff) \<Rightarrow>
            if ppParent body = [] \<or> ppParent body \<noteq> ConfigVersion eff then (a1, HttpError 409 casError)
            else case buildOverlayFromPropose A body (OpID p) (ConfigVersion eff) of
              None \<Rightarrow> (a1, HttpError 400 ERand)
            | Some ov0 \<Rightarrow>
                (case Validate (Some ov0) of
                   Some e \<Rightarrow> (a1, HttpError 400 (ESettings e))
                 | None \<Rightarrow>
                     (case validateSettingsRuntime A a1 (settingsEffectiveCandidate A a1 (Some ov0)) of
                        Some e \<Rightarrow> (a1, HttpError 400 e)
                      | None \<Rightarrow>
                          let class = Classify eff (Some ov0) in
                          if class = ClassC \<and> ppConfirm body \<noteq> ''DISABLE-INTEGRITY''
                          then (a1, HttpError 400 (EText ''class C requires integrityConfirm=DISABLE-INTEGRITY''))
                          else (case expiryForClass class (ppExpiresInSec body) (aClock A AtExpiry) of
                                  Inl e \<Rightarrow> (a1, HttpError 400 (EText e))
                                | Inr t \<Rightarrow>
                                    submitOverlay A body p (ov0\<lparr>MutationClass := class, ExpiresAt := t\<rparr>) a1)))))"

definition adminSettingsOverlaysList ::
  "('sk, 'l, 'v) admin_env \<Rightarrow> ('l, 'v) admin \<Rightarrow> ('l, 'v) admin \<times> admin_reply" where
  "adminSettingsOverlaysList A a =
     (let act = (case settingsStore a of None \<Rightarrow> None | Some st \<Rightarrow> fsActive st)
      in case settingsEffectiveFresh A a of
           (a1, eff) \<Rightarrow> (a1, Json [(''active'', JOv act), (''effective'', JEff eff)]))"

text \<open>
  The dry run counts, over at most 1000 of the newest scored records, where the new thresholds and demoted
  rules would put them.
\<close>

definition dryRunEvents :: "string list" where
  "dryRunEvents = [''scoring.evaluated'', ''enforcement.deny'', ''enforcement.challenge.issued'', ''enforcement.allow'']"

definition dryBand :: "rat \<Rightarrow> rat \<Rightarrow> overlay \<Rightarrow> audit_record \<Rightarrow> string" where
  "dryBand newCh newDn ov rec =
     (let risk = of_int (RiskScore rec) :: rat;
          demoted = (\<exists>x \<in> set (Rules rec). map_of (OHardRules ov) x = Some ModeMonitor)
      in if demoted then ''allow'' else if newDn \<le> risk then ''deny''
         else if newCh \<le> risk then ''challenge'' else ''allow'')"

definition dryHits :: "overlay \<Rightarrow> audit_record \<Rightarrow> nat" where
  "dryHits ov rec = length (filter (\<lambda>x. map_of (OHardRules ov) x = Some ModeMonitor) (Rules rec))"

definition drySample :: "audit_record list \<Rightarrow> audit_record list" where
  "drySample recs = take 1000 (filter (\<lambda>r. EventType r \<in> set dryRunEvents) (rev recs))"

definition dryRunBody :: "audit_record list \<Rightarrow> effective \<Rightarrow> overlay \<Rightarrow> (string \<times> jval) list" where
  "dryRunBody recs eff ov =
     (let newCh = (case OScoring ov of None \<Rightarrow> ChallengeAt eff | Some s \<Rightarrow> patched (pChallengeAt s) (ChallengeAt eff));
          newDn = (case OScoring ov of None \<Rightarrow> DenyAt eff | Some s \<Rightarrow> patched (pDenyAt s) (DenyAt eff));
          xs = drySample recs; n = length xs;
          count = (\<lambda>b. JI (int (length (filter (\<lambda>r. dryBand newCh newDn ov r = b) xs))))
      in [(''class'', JClass (Classify eff (Some ov))), (''n'', JI (int n)), (''minN'', JI 50),
          (''usable'', JB (50 \<le> n)), (''confidence'', JS ''approximate'')]
         @ (if 50 \<le> n
            then [(''allowDelta'', count ''allow''), (''challengeDelta'', count ''challenge''), (''denyDelta'', count ''deny''),
                  (''hardRuleDemoteHits'', JI (int (sum_list (map (dryHits ov) xs))))]
            else []))"

definition adminSettingsDryRun ::
  "('sk, 'l, 'v) admin_env \<Rightarrow> bytes \<Rightarrow> operator \<Rightarrow> ('l, 'v) admin \<Rightarrow> ('l, 'v) admin \<times> admin_reply" where
  "adminSettingsDryRun A raw p a =
     (case jPropose (aJson A) 262144 raw of
        None \<Rightarrow> (a, badRequest)
      | Some body \<Rightarrow>
          (case settingsEffectiveFresh A a of (a1, eff) \<Rightarrow>
            (case buildOverlayFromPropose A body (OpID p) (ConfigVersion eff) of
               None \<Rightarrow> (a1, HttpError 400 ERand)
             | Some ov \<Rightarrow>
                 (case Validate (Some ov) of
                    Some e \<Rightarrow> (a1, HttpError 400 (ESettings e))
                  | None \<Rightarrow>
                      (emitOperator A (OpID p)
                         (event ''settings.dry_run.completed'' ''monitor''
                            (''n='' @ itoaText (int (length (drySample (aRecords A)))) @ '' class=''
                             @ className (Classify eff (Some ov)))) a1,
                       Json (dryRunBody (aRecords A) eff ov))))))"

definition adminSettingsRollback ::
  "('sk, 'l, 'v) admin_env \<Rightarrow> bytes \<Rightarrow> operator \<Rightarrow> ('l, 'v) admin \<Rightarrow> ('l, 'v) admin \<times> admin_reply" where
  "adminSettingsRollback A raw p a =
     (if settingsStore a = None then (a, noStore)
      else case jParent (aJson A) 4096 raw of
        None \<Rightarrow> (a, badRequest)
      | Some parent \<Rightarrow>
          (case settingsEffectiveFresh A a of (a1, eff) \<Rightarrow>
            if parent = [] \<or> parent \<noteq> ConfigVersion eff then (a1, HttpError 409 casError)
            else if EmptyOverlay eff
            then (a1, Json [(''ok'', JB True), (''noop'', JB True), (''note'', JS ''already empty'')])
            else if (case activeOverlay (srv a1) of None \<Rightarrow> False | Some ov \<Rightarrow> MutationClass ov = ClassA)
            then (case requestApproval A ''settings.overlay.rollback''
                         [''parentConfigVersion'' \<mapsto> parent, ''action'' \<mapsto> ''clear''] (OpID p) RoleApprover a1 of
                    (a2, q) \<Rightarrow>
                      (emitOperator A (OpID p)
                         (event ''approval.requested'' ''enforce'' (''settings rollback pending id='' @ PID q)) a2,
                       Json [(''ok'', JB True), (''pending'', JB True), (''approvalId'', JS (PID q)),
                             (''needsRole'', JS RoleApprover)]))
            else (case clearOverlayCAS A parent (OpID p) [] a1 of
                    (a2, Some e) \<Rightarrow> (a2, HttpError 409 e)
                  | (a2, None) \<Rightarrow>
                      (a2, Json [(''ok'', JB True), (''rolledBack'', JB True),
                                 (''configVersion'', JS (ConfigVersion (effOf A a2)))]))))"

definition param :: "pending_action \<Rightarrow> string \<Rightarrow> string" where
  "param p k = (case Params p k of None \<Rightarrow> [] | Some v \<Rightarrow> v)"

definition commitSettingsOverlay ::
  "('sk, 'l, 'v) admin_env \<Rightarrow> pending_action \<Rightarrow> operator \<Rightarrow> ('l, 'v) admin \<Rightarrow> ('l, 'v) admin \<times> admin_err option" where
  "commitSettingsOverlay A p approver a =
     (if pending_action.Requester p = OpID approver then (a, Some (EText ''approver must differ from requester''))
      else if param p ''body'' = [] then (a, Some (EText ''missing overlay body''))
      else case aDec A (param p ''body'') of
        None \<Rightarrow> (a, Some EJson)
      | Some ov \<Rightarrow>
          if param p ''mutationClass'' = className ClassC \<and> param p ''integrityConfirm'' \<noteq> ''DISABLE-INTEGRITY''
          then (a, Some (EText ''class C requires integrityConfirm''))
          else applyOverlayCAS A ov (param p ''parentConfigVersion'') (pending_action.Requester p) (OpID approver) a)"

end
