(* ===== verification/Admin.thy ===== *)
theory Admin
  imports AdminSettings
begin

text \<open>
  The admin plane: \<open>internal/gate/admin.go\<close>. Every request is authenticated, sealed into the audit log,
  checked against the role its route needs and handed to the handler of the first matching row of the route
  table. Destructive actions only create a pending action, which another operator commits (\<open>adminApprove\<close>).

  A read-only page whose body is not modelled is \<open>View\<close> with its name.
\<close>

section \<open>Bans\<close>

definition maxBanDurationSec :: int where
  "maxBanDurationSec = 400 * 24 * 3600"

definition isBroadKey :: "string \<Rightarrow> bool" where
  "isBroadKey k \<longleftrightarrow> hasPrefix k ''cidr:'' \<or> containsStr k ''/''"

text \<open>
  \<open>for _, r := range k\<close> ranges over code points; a byte of a multi-byte or invalid sequence is at least 128
  and so is the code point, so the tests for control characters are the same on bytes. The last test, on the
  printable range of a fingerprint, refuses any such byte in both readings.
\<close>

definition validBanKey :: "('sk, 'l, 'v) admin_env \<Rightarrow> string \<Rightarrow> bool" where
  "validBanKey A k \<longleftrightarrow>
     k \<noteq> [] \<and> (\<forall>c \<in> set k. 32 \<le> (of_char c :: nat) \<and> (of_char c :: nat) \<noteq> 127)
     \<and> (if hasPrefix k ''ip:'' then trimSpace (drop 3 k) \<noteq> [] \<and> aParseIP A (trimSpace (drop 3 k))
        else if hasPrefix k ''fp:'' then
          4 \<le> length (drop 3 k) \<and> length (drop 3 k) \<le> 128
          \<and> (\<forall>c \<in> set (drop 3 k). 33 \<le> (of_char c :: nat) \<and> (of_char c :: nat) \<le> 126)
        else if hasPrefix k ''cidr:'' then trimSpace (drop 5 k) \<noteq> [] \<and> aParseCIDR A (trimSpace (drop 5 k))
        else False)"

definition commitBan ::
  "('sk, 'l, 'v) admin_env \<Rightarrow> string \<Rightarrow> string \<Rightarrow> string \<Rightarrow> int \<Rightarrow> string \<Rightarrow> string \<Rightarrow> ('l, 'v) admin
     \<Rightarrow> ('l, 'v) admin \<times> ban_entry option" where
  "commitBan A key reason incident dur requester approver a =
     (case bansOf (srv a) of
        None \<Rightarrow> (a, None)
      | Some b \<Rightarrow>
          (case pseudonym (aGate A) (srv a) requester requester of
             (s, psn) \<Rightarrow>
               (case Add b key reason psn incident dur (aClock A AtBan) of
                  (b', e) \<Rightarrow>
                    (emitOperator A requester
                       (\<lambda>r. (event ''ban.applied'' ''enforce''
                               (banReason e @ (if approver = [] then []
                                               else '' (dual-control: '' @ requester @ arrow @ approver @ '')'')) r)
                             \<lparr>Verdict := VerdictDeny, Action := ''block''\<rparr>)
                       (a\<lparr>srv := s\<lparr>bansOf := Some b'\<rparr>\<rparr>), Some e))))"

definition banReply :: "(string \<times> jval) list \<Rightarrow> ban_entry option \<Rightarrow> admin_reply" where
  "banReply fs e =
     (case e of None \<Rightarrow> HttpError 500 EPanic | Some b \<Rightarrow> Json (fs @ [(''permanent'', JB (Permanent b))]))"

definition pendingReply :: "pending_action \<Rightarrow> string \<Rightarrow> admin_reply" where
  "pendingReply q role =
     Json [(''pending'', JB True), (''approvalId'', JS (PID q)), (''needsRole'', JS role)]"

definition adminAddBan ::
  "('sk, 'l, 'v) admin_env \<Rightarrow> bytes \<Rightarrow> operator \<Rightarrow> ('l, 'v) admin \<Rightarrow> ('l, 'v) admin \<times> admin_reply" where
  "adminAddBan A raw p a =
     (case jBan (aJson A) 65536 raw of
        None \<Rightarrow> (a, badRequest)
      | Some q \<Rightarrow>
          if bbKey q = [] then (a, badRequest)
          else if \<not> validBanKey A (bbKey q)
          then (a, HttpError 400 (EText ''ban key must be ip:<addr>, fp:<hash>, or cidr:<addr/mask>''))
          else if bbDurationSec q < 0 then (a, HttpError 400 (EText ''durationSec must be >= 0''))
          else if bbDurationSec q = 0 \<or> maxBanDurationSec \<le> bbDurationSec q \<or> isBroadKey (bbKey q)
          then (case requestApproval A ''ban''
                       [''key'' \<mapsto> bbKey q, ''reason'' \<mapsto> bbReason q, ''incident'' \<mapsto> bbIncident q,
                        ''durationSec'' \<mapsto> formatInt (bbDurationSec q)] (OpID p) RoleApprover a of
                  (a1, pa) \<Rightarrow>
                    (emitOperator A (OpID p)
                       (event ''approval.requested'' ''enforce'' (''ban pending approval: '' @ bbKey q)) a1,
                     pendingReply pa RoleApprover))
          else (case commitBan A (bbKey q) (bbReason q) (bbIncident q) (mulSecond (bbDurationSec q)) (OpID p) [] a of
                  (a1, e) \<Rightarrow> (a1, banReply [(''ok'', JB True)] e)))"

fun bulkLoop ::
  "('sk, 'l, 'v) admin_env \<Rightarrow> bulk_body \<Rightarrow> operator \<Rightarrow> string list \<Rightarrow> ('l, 'v) admin \<Rightarrow> int \<Rightarrow> int
     \<Rightarrow> ('l, 'v) admin \<times> int \<times> int" where
  "bulkLoop A q p [] a applied skipped = (a, applied, skipped)"
| "bulkLoop A q p (k # ks) a applied skipped =
     (if \<not> validBanKey A k \<or> isBroadKey k then bulkLoop A q p ks a applied (skipped + 1)
      else case commitBan A k (kbReason q) ''bulk'' (mulSecond (kbDurationSec q)) (OpID p) [] a of
             (a1, e) \<Rightarrow> bulkLoop A q p ks a1 (applied + 1) skipped)"

definition adminBulkBan ::
  "('sk, 'l, 'v) admin_env \<Rightarrow> bytes \<Rightarrow> operator \<Rightarrow> ('l, 'v) admin \<Rightarrow> ('l, 'v) admin \<times> admin_reply" where
  "adminBulkBan A raw p a =
     (case jBulk (aJson A) 262144 raw of
        None \<Rightarrow> (a, HttpError 400 (EText ''keys required''))
      | Some q \<Rightarrow>
          if kbKeys q = [] then (a, HttpError 400 (EText ''keys required''))
          else if kbDurationSec q \<le> 0 \<or> maxBanDurationSec \<le> kbDurationSec q
          then (a, HttpError 400 (EText
                 ''bulk bans must be temporary and bounded (0/negative/over-cap needs dual-control)''))
          else (case bulkLoop A q p (kbKeys q) a 0 0 of
                  (a1, applied, skipped) \<Rightarrow>
                    (a1, Json [(''ok'', JB True), (''applied'', JI applied), (''skipped'', JI skipped)])))"

definition adminLiftBan ::
  "('sk, 'l, 'v) admin_env \<Rightarrow> string \<Rightarrow> operator \<Rightarrow> ('l, 'v) admin \<Rightarrow> ('l, 'v) admin \<times> admin_reply" where
  "adminLiftBan A key p a =
     (if key = [] then (a, HttpError 400 (EText ''key required''))
      else case bansOf (srv a) of
        None \<Rightarrow> (a, HttpError 500 EPanic)
      | Some b \<Rightarrow>
          (case Lift b key of
             (b', lifted) \<Rightarrow>
               (emitOperator A (OpID p)
                  (\<lambda>r. (event ''ban.lifted'' ''enforce'' (''manual unblock: '' @ key) r)\<lparr>Action := ''pass''\<rparr>)
                  (a\<lparr>srv := (srv a)\<lparr>bansOf := Some b'\<rparr>\<rparr>),
                Json [(''ok'', JB True), (''lifted'', JB lifted)])))"

text \<open>Listing sweeps the expired bans. The order of the keys is the argument \<open>aKeys\<close>.\<close>

definition adminListBans :: "('sk, 'l, 'v) admin_env \<Rightarrow> ('l, 'v) admin \<Rightarrow> ('l, 'v) admin \<times> admin_reply" where
  "adminListBans A a =
     (case bansOf (srv a) of
        None \<Rightarrow> (a, HttpError 500 EPanic)
      | Some b \<Rightarrow>
          (case BanList b (aClock A AtList) (aKeys A) of
             (b', es) \<Rightarrow>
               (a\<lparr>srv := (srv a)\<lparr>bansOf := Some b'\<rparr>\<rparr>,
                Json [(''bans'', JBans es), (''count'', JI (int (length es)))])))"

section \<open>Kill switch and erasure\<close>

definition adminKillSwitch ::
  "('sk, 'l, 'v) admin_env \<Rightarrow> bytes \<Rightarrow> operator \<Rightarrow> ('l, 'v) admin \<Rightarrow> ('l, 'v) admin \<times> admin_reply" where
  "adminKillSwitch A raw p a =
     (case jKill (aJson A) 4096 raw of
        None \<Rightarrow> (a, badRequest)
      | Some on \<Rightarrow>
          (case requestApproval A ''killswitch'' [''on'' \<mapsto> formatBool on] (OpID p) RoleApprover a of
             (a1, q) \<Rightarrow>
               (emitOperator A (OpID p)
                  (event ''approval.requested'' ''enforce'' (''kill-switch flip pending approval: on='' @ formatBool on)) a1,
                pendingReply q RoleApprover)))"

definition adminErasure ::
  "('sk, 'l, 'v) admin_env \<Rightarrow> bytes \<Rightarrow> operator \<Rightarrow> ('l, 'v) admin \<Rightarrow> ('l, 'v) admin \<times> admin_reply" where
  "adminErasure A raw p a =
     (case jErasure (aJson A) 65536 raw of
        None \<Rightarrow> (a, HttpError 400 (EText ''subject required''))
      | Some (subj, basis) \<Rightarrow>
          if subj = [] then (a, HttpError 400 (EText ''subject required''))
          else if basis = [] then (a, HttpError 400 (EText ''legal basis required (GDPR Art.17 / PIPA)''))
          else case vaultOf (srv a) of
            None \<Rightarrow> (a, HttpError 500 EPanic)
          | Some v \<Rightarrow>
              (case requestApproval A ''erasure''
                      [''subject'' \<mapsto> patched (Vault.Resolve v subj) subj, ''legalBasis'' \<mapsto> basis] (OpID p) RoleDPO a of
                 (a1, q) \<Rightarrow>
                   (emitOperator A (OpID p)
                      (event ''approval.requested'' ''enforce'' (''erasure pending DPO approval; legal_basis='' @ basis)) a1,
                    pendingReply q RoleDPO)))"

definition adminListErasures :: "('l, 'v) admin \<Rightarrow> ('l, 'v) admin \<times> admin_reply" where
  "adminListErasures a =
     (a, Json [(''scheduled'', JShreds (ListShreds (shreds a))), (''count'', JI (int (length (ListShreds (shreds a)))))])"

definition adminCancelErasure ::
  "('sk, 'l, 'v) admin_env \<Rightarrow> string \<Rightarrow> operator \<Rightarrow> ('l, 'v) admin \<Rightarrow> ('l, 'v) admin \<times> admin_reply" where
  "adminCancelErasure A i p a =
     (case Cancel (shreds a) i of
        (q, None) \<Rightarrow> (a\<lparr>shreds := q\<rparr>, HttpError 404 (EText ''no such scheduled erasure''))
      | (q, Some e) \<Rightarrow>
          (emitOperator A (OpID p)
             (event ''erasure.cancelled'' ''enforce'' (''erasure cancelled in hold window; id='' @ ShredID e))
             (a\<lparr>shreds := q\<rparr>),
           Json [(''ok'', JB True), (''cancelled'', JS (ShredID e))]))"

definition adminListApprovals :: "('sk, 'l, 'v) admin_env \<Rightarrow> ('l, 'v) admin \<Rightarrow> ('l, 'v) admin \<times> admin_reply" where
  "adminListApprovals A a =
     (case PendingList (approvals a) (aClock A AtList) (aKeys A) of
        (st, ps) \<Rightarrow> (a\<lparr>approvals := st\<rparr>, Json [(''pending'', JPending ps), (''count'', JI (int (length ps)))]))"

section \<open>Committing a pending action\<close>

definition commitKillSwitch ::
  "('sk, 'l, 'v) admin_env \<Rightarrow> pending_action \<Rightarrow> operator \<Rightarrow> ('l, 'v) admin \<Rightarrow> ('l, 'v) admin \<times> admin_reply" where
  "commitKillSwitch A p approver a =
     (let on = (param p ''on'' = ''true'');
          a1 = a\<lparr>srv := SetKillSwitch (srv a) on\<rparr>
      in (emitOperator A (OpID approver)
            (event ''config.changed'' ''enforce''
               (''kill switch '' @ (if on then ''ENGAGED (global monitor)'' else ''released'') @ '' by ''
                @ pending_action.Requester p @ arrow @ OpID approver)) a1,
          Json [(''ok'', JB True), (''committed'', JS ''killswitch''), (''monitorOn'', JB (monitorOn (srv a1)))]))"

definition commitErasure ::
  "('sk, 'l, 'v) admin_env \<Rightarrow> pending_action \<Rightarrow> operator \<Rightarrow> ('l, 'v) admin \<Rightarrow> ('l, 'v) admin \<times> admin_reply" where
  "commitErasure A p approver a =
     (case Schedule (shreds a) (aClock A AtSchedule) (aShredID A) (param p ''subject'') (pending_action.Requester p)
             (OpID approver) (param p ''legalBasis'') of
        (q, e) \<Rightarrow>
          (emitOperator A (OpID approver)
             (event ''approval.granted'' ''enforce''
                (''erasure scheduled (cancellable hold); id='' @ ShredID e @ '' legal_basis='' @ param p ''legalBasis''))
             (a\<lparr>shreds := q\<rparr>),
           Json [(''ok'', JB True), (''committed'', JS ''erasure''), (''scheduled'', JB True), (''shredId'', JS (ShredID e)),
                 (''executeAtUnix'', JI (unixOf (ExecuteAt e)))]))"

definition banDuration :: "pending_action \<Rightarrow> int" where
  "banDuration p =
     (let dur = parseIntOr (param p ''durationSec'')
      in if 0 < dur \<and> dur < maxBanDurationSec then mulSecond dur else 0)"

definition settingsReply ::
  "('sk, 'l, 'v) admin_env \<Rightarrow> string \<Rightarrow> (string \<times> jval) list \<Rightarrow> ('l, 'v) admin \<times> admin_err option
     \<Rightarrow> ('l, 'v) admin \<times> admin_reply" where
  "settingsReply A kind extra r =
     (case r of
        (a, Some e) \<Rightarrow> (a, HttpError 409 e)
      | (a, None) \<Rightarrow>
          (a, Json ([(''ok'', JB True), (''committed'', JS kind), (''configVersion'', JS (ConfigVersion (effOf A a)))]
                    @ extra)))"

definition commitAction ::
  "('sk, 'l, 'v) admin_env \<Rightarrow> pending_action \<Rightarrow> operator \<Rightarrow> ('l, 'v) admin \<Rightarrow> ('l, 'v) admin \<times> admin_reply" where
  "commitAction A p approver a =
     (if PKind p = ''ban'' then
        (case commitBan A (param p ''key'') (param p ''reason'') (param p ''incident'') (banDuration p)
                (pending_action.Requester p) (OpID approver) a of
           (a1, e) \<Rightarrow> (a1, banReply [(''ok'', JB True), (''committed'', JS ''ban'')] e))
      else if PKind p = ''erasure'' then commitErasure A p approver a
      else if PKind p = ''killswitch'' then commitKillSwitch A p approver a
      else if PKind p = ''settings.overlay'' then
        settingsReply A ''settings.overlay'' [(''overlayId'', JS (param p ''overlayId''))]
          (commitSettingsOverlay A p approver a)
      else if PKind p = ''settings.overlay.rollback'' then
        settingsReply A ''settings.overlay.rollback'' []
          (clearOverlayCAS A (param p ''parentConfigVersion'') (pending_action.Requester p) (OpID approver) a)
      else (a, HttpError 500 (EText ''unknown action kind'')))"

definition adminApprove ::
  "('sk, 'l, 'v) admin_env \<Rightarrow> string \<Rightarrow> operator \<Rightarrow> ('l, 'v) admin \<Rightarrow> ('l, 'v) admin \<times> admin_reply" where
  "adminApprove A i approver a =
     (case Approve (gP (aGate A)) (approvals a) i approver (aClock A AtApprove) of
        (st, Inl e) \<Rightarrow> (a\<lparr>approvals := st\<rparr>, HttpError 403 (EApproval e))
      | (st, Inr (p, tk)) \<Rightarrow>
          (let a1 = a\<lparr>approvals := st\<rparr> in
           if PKind p = ''erasure'' \<and> \<not> canApproveErasure approver
           then (a1, HttpError 403 (EText ''erasure approval requires the DPO role''))
           else commitAction A p approver
                  (emitOperator A (OpID approver)
                     (event ''approval.granted'' ''enforce''
                        (PKind p @ '' approved by '' @ OpID approver @ '' (requester ''
                         @ pending_action.Requester p @ ''); ticket='' @ take 12 tk)) a1)))"

section \<open>The audit stream and incidents\<close>

record audit_query =
  aqLimit :: int
  aqVerdict :: string
  aqHost :: string
  aqRoute :: string
  aqRule :: string
  aqSubject :: string
  aqMinRisk :: int
  aqBefore :: "64 word"

text \<open>\<open>strconv.ParseUint\<close> with the error ignored: 0 on a syntax error, the maximum when out of range.\<close>

definition parseUintOr :: "string \<Rightarrow> 64 word" where
  "parseUintOr s = (if s = [] \<or> \<not> list_all isDigit s then 0 else of_nat (min (decValue s) (2 ^ 64 - 1)))"

definition parseAuditQuery :: "(string \<Rightarrow> string) \<Rightarrow> audit_query" where
  "parseAuditQuery q =
     \<lparr>aqLimit = (case parseInt64 (q ''limit'') of
                   None \<Rightarrow> 50 | Some n \<Rightarrow> if 0 < n \<and> n \<le> 500 then n else 50),
      aqVerdict = q ''verdict'', aqHost = map lowerChar (q ''host''), aqRoute = q ''route'', aqRule = q ''rule'',
      aqSubject = q ''subject'', aqMinRisk = parseIntOr (q ''minRisk''), aqBefore = parseUintOr (q ''before'')\<rparr>"

definition auditMatch :: "audit_query \<Rightarrow> audit_record \<Rightarrow> bool" where
  "auditMatch q r \<longleftrightarrow>
     \<not> (aqBefore q \<noteq> 0 \<and> aqBefore q \<le> Seq r)
     \<and> \<not> (aqVerdict q \<noteq> [] \<and> Verdict r \<noteq> aqVerdict q)
     \<and> \<not> (aqHost q \<noteq> [] \<and> \<not> containsStr (map lowerChar (Host r)) (aqHost q))
     \<and> \<not> (aqRoute q \<noteq> [] \<and> RouteClass r \<noteq> aqRoute q)
     \<and> \<not> (0 < aqMinRisk q \<and> RiskScore r < aqMinRisk q)
     \<and> \<not> (aqRule q \<noteq> [] \<and> aqRule q \<notin> set (Rules r))
     \<and> \<not> (aqSubject q \<noteq> [] \<and> SessionPsn r \<noteq> aqSubject q \<and> IDPsn (Actor r) \<noteq> aqSubject q)"

text \<open>The loop over the records, newest first; the last record of a page is the cursor of the next.\<close>

fun auditLoop ::
  "('sk, 'l, 'v) admin_env \<Rightarrow> bytes \<Rightarrow> audit_query \<Rightarrow> audit_record list \<Rightarrow> audit_record list \<Rightarrow> 64 word
     \<Rightarrow> audit_record list \<times> 64 word" where
  "auditLoop A key q [] out cursor = (out, cursor)"
| "auditLoop A key q (r # rs) out cursor =
     (if aqLimit q \<le> int (length out) then (out, cursor)
      else if \<not> auditMatch q r then auditLoop A key q rs out cursor
      else auditLoop A key q rs (out @ [r\<lparr>Incident := incidentHandle (gP (aGate A)) key (Seq r)\<rparr>]) (Seq r))"

definition auditPage ::
  "('sk, 'l, 'v) admin_env \<Rightarrow> bytes \<Rightarrow> audit_query \<Rightarrow> audit_record list \<Rightarrow> audit_record list \<times> 64 word" where
  "auditPage A key q recs = auditLoop A key q (rev recs) [] 0"

definition adminAudit ::
  "('sk, 'l, 'v) admin_env \<Rightarrow> (string \<Rightarrow> string) \<Rightarrow> ('l, 'v) admin \<Rightarrow> ('l, 'v) admin \<times> admin_reply" where
  "adminAudit A query a =
     (case auditPage A (tokenKey (srv a)) (parseAuditQuery query) (aRecords A) of
        (out, cursor) \<Rightarrow>
          (a, Json [(''records'', JRecords out), (''count'', JI (int (length out))), (''nextBefore'', JI (uint cursor))]))"

definition adminIncident ::
  "('sk, 'l, 'v) admin_env \<Rightarrow> string \<Rightarrow> operator \<Rightarrow> ('l, 'v) admin \<Rightarrow> ('l, 'v) admin \<times> admin_reply" where
  "adminIncident A handle p a =
     (case Observe (incidentLimiter a) (''inc:'' @ OpID p) (aClock A AtIncident) of
        (l, n) \<Rightarrow>
          (let a1 = a\<lparr>incidentLimiter := l\<rparr> in
           if Level l n = 2
           then (emitOperator A (OpID p)
                   (\<lambda>r. (event ''recon.decision_probing'' [] ''incident enumeration cap exceeded (bulk-read)'' r)
                         \<lparr>RouteClass := ''control''\<rparr>) a1,
                 HttpError 429 (EText ''too many incident lookups''))
           else (case resolveIncident (gP (aGate A)) (tokenKey (srv a1)) (aRecords A) handle of
                   None \<Rightarrow> (a1, HttpError 404 (EText ''incident not found''))
                 | Some r \<Rightarrow> (a1, Json [(''record'', JRecord r)]))))"

section \<open>Dispatch\<close>

datatype path_match = Exact string | Prefix string | Wrapped string string

definition hasSuffix :: "string \<Rightarrow> string \<Rightarrow> bool" where
  "hasSuffix s t \<longleftrightarrow> length t \<le> length s \<and> drop (length s - length t) s = t"

definition trimPrefix :: "string \<Rightarrow> string \<Rightarrow> string" where
  "trimPrefix s p = (if hasPrefix s p then drop (length p) s else s)"

definition trimSuffix :: "string \<Rightarrow> string \<Rightarrow> string" where
  "trimSuffix s t = (if hasSuffix s t then take (length s - length t) s else s)"

fun matchPath :: "path_match \<Rightarrow> string \<Rightarrow> string option" where
  "matchPath (Exact p) sub = (if sub = p then Some [] else None)"
| "matchPath (Prefix p) sub = (if hasPrefix sub p then Some (trimPrefix sub p) else None)"
| "matchPath (Wrapped pre suf) sub =
     (if hasPrefix sub pre \<and> hasSuffix sub suf then Some (trimSuffix (trimPrefix sub pre) suf) else None)"

datatype capability = AnyRole | CanOperate | CanApprove

fun allows :: "capability \<Rightarrow> operator \<Rightarrow> bool" where
  "allows AnyRole p = canRead p"
| "allows CanOperate p = canOperate p"
| "allows CanApprove p = canApprove p"

datatype admin_handler =
    HListBans | HIntegrity | HProof | HAudit | HIncident | HPolicy | HVirtualUSB | HSettingsEffective
  | HSettingsSchema | HOverlaysList | HPropose | HDryRun | HRollback | HListApprovals | HListErasures | HWhoami
  | HMetrics | HKeys | HCheckpoints | HAddBan | HBulkBan | HLiftBan | HErasure | HKillSwitch | HCancelErasure
  | HApprove

definition adminRoutes :: "(string \<times> path_match \<times> capability \<times> admin_handler) list" where
  "adminRoutes =
     [(''GET'', Exact ''bans'', AnyRole, HListBans),
      (''GET'', Exact ''integrity'', AnyRole, HIntegrity),
      (''GET'', Exact ''proof'', AnyRole, HProof),
      (''GET'', Exact ''audit'', AnyRole, HAudit),
      (''GET'', Prefix ''incidents/'', AnyRole, HIncident),
      (''GET'', Exact ''policy'', AnyRole, HPolicy),
      (''GET'', Exact ''virtual-usb'', AnyRole, HVirtualUSB),
      (''GET'', Exact ''settings/effective'', AnyRole, HSettingsEffective),
      (''GET'', Exact ''settings/schema'', AnyRole, HSettingsSchema),
      (''GET'', Exact ''settings/overlays'', AnyRole, HOverlaysList),
      (''POST'', Exact ''settings/overlays'', CanOperate, HPropose),
      (''POST'', Exact ''settings/dry-run'', CanOperate, HDryRun),
      (''POST'', Exact ''settings/rollback'', CanOperate, HRollback),
      (''GET'', Exact ''approvals'', AnyRole, HListApprovals),
      (''GET'', Exact ''erasures'', AnyRole, HListErasures),
      (''GET'', Exact ''whoami'', AnyRole, HWhoami),
      (''GET'', Exact ''metrics'', AnyRole, HMetrics),
      (''GET'', Exact ''keys'', AnyRole, HKeys),
      (''GET'', Exact ''checkpoints'', AnyRole, HCheckpoints),
      (''POST'', Exact ''bans'', CanOperate, HAddBan),
      (''POST'', Exact ''bans/bulk'', CanOperate, HBulkBan),
      (''POST'', Exact ''bans/lift'', CanOperate, HLiftBan),
      (''POST'', Exact ''erasure'', CanOperate, HErasure),
      (''POST'', Exact ''killswitch'', CanOperate, HKillSwitch),
      (''POST'', Wrapped ''erasures/'' ''/cancel'', CanOperate, HCancelErasure),
      (''POST'', Prefix ''approvals/'', CanApprove, HApprove)]"

record admin_request =
  arMethod :: string
  arSub :: string
  arAuthorization :: string
  arBody :: bytes
  arQuery :: "string \<Rightarrow> string"

fun runHandler ::
  "('sk, 'l, 'v) admin_env \<Rightarrow> admin_handler \<Rightarrow> admin_request \<Rightarrow> operator \<Rightarrow> string \<Rightarrow> ('l, 'v) admin
     \<Rightarrow> ('l, 'v) admin \<times> admin_reply" where
  "runHandler A HListBans r p arg a = adminListBans A a"
| "runHandler A HIntegrity r p arg a = (a, View ''integrity'')"
| "runHandler A HProof r p arg a = (a, View ''proof'')"
| "runHandler A HAudit r p arg a = adminAudit A (arQuery r) a"
| "runHandler A HIncident r p arg a = adminIncident A arg p a"
| "runHandler A HPolicy r p arg a = (a, View ''policy'')"
| "runHandler A HVirtualUSB r p arg a = (a, View ''virtual-usb'')"
| "runHandler A HSettingsEffective r p arg a =
     (case settingsEffectiveFresh A a of
        (a1, eff) \<Rightarrow> (a1, Json [(''effective'', JEff eff), (''storeAttached'', JB (settingsStore a1 \<noteq> None))]))"
| "runHandler A HSettingsSchema r p arg a = (a, View ''settings/schema'')"
| "runHandler A HOverlaysList r p arg a = adminSettingsOverlaysList A a"
| "runHandler A HPropose r p arg a = adminSettingsPropose A (arBody r) p a"
| "runHandler A HDryRun r p arg a = adminSettingsDryRun A (arBody r) p a"
| "runHandler A HRollback r p arg a = adminSettingsRollback A (arBody r) p a"
| "runHandler A HListApprovals r p arg a = adminListApprovals A a"
| "runHandler A HListErasures r p arg a = adminListErasures a"
| "runHandler A HWhoami r p arg a = (a, Json [(''id'', JS (OpID p)), (''role'', JS (OpRole p))])"
| "runHandler A HMetrics r p arg a = (a, View ''metrics'')"
| "runHandler A HKeys r p arg a = (a, View ''keys'')"
| "runHandler A HCheckpoints r p arg a = (a, View ''checkpoints'')"
| "runHandler A HAddBan r p arg a = adminAddBan A (arBody r) p a"
| "runHandler A HBulkBan r p arg a = adminBulkBan A (arBody r) p a"
| "runHandler A HLiftBan r p arg a = adminLiftBan A (arQuery r ''key'') p a"
| "runHandler A HErasure r p arg a = adminErasure A (arBody r) p a"
| "runHandler A HKillSwitch r p arg a = adminKillSwitch A (arBody r) p a"
| "runHandler A HCancelErasure r p arg a = adminCancelErasure A arg p a"
| "runHandler A HApprove r p arg a = adminApprove A arg p a"

fun dispatch ::
  "('sk, 'l, 'v) admin_env \<Rightarrow> (string \<times> path_match \<times> capability \<times> admin_handler) list \<Rightarrow> admin_request \<Rightarrow> operator
     \<Rightarrow> ('l, 'v) admin \<Rightarrow> ('l, 'v) admin \<times> admin_reply" where
  "dispatch A [] r p a = (a, NotFoundReply)"
| "dispatch A ((m, pm, cap, h) # rts) r p a =
     (if arMethod r \<noteq> m then dispatch A rts r p a
      else case matchPath pm (arSub r) of
        None \<Rightarrow> dispatch A rts r p a
      | Some arg \<Rightarrow>
          if \<not> allows cap p then (a, HttpError 403 (EText (''role '' @ OpRole p @ '' not permitted'')))
          else runHandler A h r p arg a)"

definition handleAdmin ::
  "('sk, 'l, 'v) admin_env \<Rightarrow> admin_request \<Rightarrow> ('l, 'v) admin \<Rightarrow> ('l, 'v) admin \<times> admin_reply" where
  "handleAdmin A r a =
     (if arSub r = [] \<or> arSub r = ''console'' then (a, View ''console'')
      else case Authenticate (auth a) (arAuthorization r) of
        None \<Rightarrow>
          (emitSystem (\<lambda>x. (event ''admin.auth_fail'' [] (''unauthenticated admin '' @ arMethod r @ '' '' @ arSub r) x)
                           \<lparr>RouteClass := ''control''\<rparr>) a, NotFoundReply)
      | Some p \<Rightarrow>
          dispatch A adminRoutes r p
            (emitOperator A (OpID p)
               (\<lambda>x. (event ''admin.access'' [] (arSub r @ '' (role='' @ OpRole p @ '')'') x)
                     \<lparr>RouteClass := ''control'', Action := arMethod r\<rparr>) a))"

text \<open>\<open>AdminHandler\<close> answers only below the reserved prefix; \<open>path\<close> is the path of the URL.\<close>

definition AdminHandler ::
  "('sk, 'l, 'v) admin_env \<Rightarrow> string \<Rightarrow> admin_request \<Rightarrow> ('l, 'v) admin \<Rightarrow> ('l, 'v) admin \<times> admin_reply" where
  "AdminHandler A path r a =
     (let prefix = cfgControlPath (cfg (srv a)) @ ''admin/''
      in if \<not> hasPrefix path prefix then (a, NotFoundReply)
         else handleAdmin A (r\<lparr>arSub := trimPrefix path prefix\<rparr>) a)"

section \<open>Maintenance (gate.go)\<close>

text \<open>The certificate of an executed erasure; \<open>sthRoot\<close> and \<open>treeSize\<close> are those of the latest signed tree head.\<close>

definition emitErasureCertificate ::
  "('sk, 'l, 'v) admin_env \<Rightarrow> string \<Rightarrow> int \<Rightarrow> scheduled_shred \<times> bool \<Rightarrow> ('l, 'v) admin \<Rightarrow> ('l, 'v) admin" where
  "emitErasureCertificate A sthRoot treeSize dx a =
     (let d = fst dx in
      emitOperator A (Approver d)
        (event (if snd dx then ''erasure.completed'' else ''erasure.no_subject'') ''enforce''
           (''erasure-cert: sth_root='' @ take 12 sthRoot @ '' tree_size='' @ itoaText treeSize @ '' legal_basis=''
            @ LegalBasis d @ '' '' @ scheduled_shred.Requester d @ ''->'' @ Approver d)) a)"

fun shredLoop ::
  "('sk, 'l, 'v) admin_env \<Rightarrow> string \<Rightarrow> int \<Rightarrow> scheduled_shred list \<Rightarrow> ('l, 'v) admin \<Rightarrow> ('l, 'v) admin" where
  "shredLoop A sthRoot treeSize [] a = a"
| "shredLoop A sthRoot treeSize (d # ds) a =
     (let (v, existed) = (case vaultOf (srv a) of
                            None \<Rightarrow> (None, False)
                          | Some w \<Rightarrow> (case Shred w (Subject d) of (w', ex) \<Rightarrow> (Some w', ex)))
      in shredLoop A sthRoot treeSize ds
           (emitErasureCertificate A sthRoot treeSize (d, existed) (a\<lparr>srv := (srv a)\<lparr>vaultOf := v\<rparr>\<rparr>)))"

definition ServerRunDueShreds ::
  "('sk, 'l, 'v) admin_env \<Rightarrow> string \<Rightarrow> int \<Rightarrow> int \<Rightarrow> ('l, 'v) admin \<Rightarrow> ('l, 'v) admin \<times> int" where
  "ServerRunDueShreds A sthRoot treeSize now a =
     (case Due (shreds a) now of
        (q, due) \<Rightarrow> (shredLoop A sthRoot treeSize due (a\<lparr>shreds := q\<rparr>), int (length due)))"

text \<open>\<open>GC\<close>; the sweep of the verdict ledger, when it has one, is an argument.\<close>

definition ServerGC ::
  "('sk, 'l, 'v) admin_env \<Rightarrow> ('v \<Rightarrow> int \<Rightarrow> 'v) \<Rightarrow> int \<Rightarrow> ('l, 'v) admin \<Rightarrow> ('l, 'v) admin" where
  "ServerGC A vgc now a =
     (let a1 = expireActiveOverlayIfNeeded A a; s = srv a1
      in a1\<lparr>srv := s\<lparr>verdicts := vgc (verdicts s) now,
                     bansOf := map_option (\<lambda>b. BanGC (aLim A) b now (aKeys A)) (bansOf s),
                     sweepOf := map_option (\<lambda>d. SweepGC d now) (sweepOf s),
                     anomalyOf := map_option (\<lambda>d. shadowGC d now) (anomalyOf s),
                     credCorr := map_option (\<lambda>r. CorrGC r now) (credCorr s)\<rparr>\<rparr>)"

end
