(* ===== verification/GateFrame.thy ===== *)
theory GateFrame
  imports Gate
begin

text \<open>
  What the gates keep: which parts of the server a gate changes, and that a gate acts at most once, with
  a record of the action right before it.
\<close>

section \<open>State the gates read but do not change\<close>

definition core where
  "core s = (cfg s, verdicts s, tokenKey s, tokenEpochs s, killSwitch s, overlayStore s)"

definition credState where
  "credState s = (agentKeys s, agentNonces s, patVerifier s, webauthn s)"

named_theorems frame \<open>parts of the server that an operation keeps\<close>

lemma pseudonym_frame [frame]:
  "core (fst (pseudonym E s sid x)) = core s" "credState (fst (pseudonym E s sid x)) = credState s"
  "bansOf (fst (pseudonym E s sid x)) = bansOf s"
  "credCorr (fst (pseudonym E s sid x)) = credCorr s" "sweepOf (fst (pseudonym E s sid x)) = sweepOf s"
  by (auto simp: pseudonym_def core_def credState_def split: option.splits prod.splits)

lemma subjectRecord_frame [frame]:
  "core (fst (subjectRecord E s sid x)) = core s" "credState (fst (subjectRecord E s sid x)) = credState s"
  "bansOf (fst (subjectRecord E s sid x)) = bansOf s"
  "credCorr (fst (subjectRecord E s sid x)) = credCorr s" "sweepOf (fst (subjectRecord E s sid x)) = sweepOf s"
  by (simp_all add: subjectRecord_def case_prod_beta frame)

lemma core_updates [frame]:
  "core (s\<lparr>bansOf := b\<rparr>) = core s" "core (s\<lparr>agentNonces := n\<rparr>) = core s" "core (s\<lparr>patVerifier := p\<rparr>) = core s"
  "core (s\<lparr>webauthn := w\<rparr>) = core s" "core (s\<lparr>credCorr := c\<rparr>) = core s" "core (s\<lparr>sweepOf := d\<rparr>) = core s"
  "core (s\<lparr>anomalyOf := a\<rparr>) = core s"
  "credState (s\<lparr>bansOf := b\<rparr>) = credState s" "credState (s\<lparr>credCorr := c\<rparr>) = credState s"
  "credState (s\<lparr>sweepOf := d\<rparr>) = credState s" "credState (s\<lparr>anomalyOf := a\<rparr>) = credState s"
  by (simp_all add: core_def credState_def)

lemma core_reads:
  assumes "core s' = core s"
  shows "enforcing s' = enforcing s" and "monitorOn s' = monitorOn s"
    and "settingsEffectiveFor E s' = settingsEffectiveFor E s" and "activeOverlay s' = activeOverlay s"
    and "SettingsEffective E s' = SettingsEffective E s" and "gateModuleMode E s' = gateModuleMode E s"
    and "resolvePath E s' = resolvePath E s" and "hasValidToken E s' = hasValidToken E s"
    and "hasValidStepUp E s' = hasValidStepUp E s" and "configVersion E s' = configVersion E s"
    and "verdicts s' = verdicts s" and "cfg s' = cfg s" and "overlayStore s' = overlayStore s"
    and "tokenKey s' = tokenKey s" and "tokenEpochs s' = tokenEpochs s"
  using assms by (auto simp: core_def fun_eq_iff enforcing_def monitorOn_def settingsEffectiveFor_def activeOverlay_def
      SettingsEffective_def gateModuleMode_def resolvePath_def hasValidToken_def hasValidStepUp_def configVersion_def Let_def)

section \<open>Steps\<close>

lemma step_simps [simp]:
  "pass s = (s, [], False)" "emit s rec = (s, [Seal rec], False)"
  "emitAndAct s rec a = (s, [Seal rec, Act a], True)"
  by (simp_all add: pass_def emit_def emitAndAct_def)

abbreviation stepEvents :: "('b, 'v) step \<Rightarrow> gate_event list" where
  "stepEvents st \<equiv> fst (snd st)"

abbreviation handled :: "('b, 'v) step \<Rightarrow> bool" where
  "handled st \<equiv> snd (snd st)"

lemma andThen_simps:
  "fst (andThen st f) = (if handled st then fst st else fst (f (fst st)))"
  "stepEvents (andThen st f) = stepEvents st @ (if handled st then [] else stepEvents (f (fst st)))"
  "handled (andThen st f) \<longleftrightarrow> handled st \<or> handled (f (fst st))"
  by (auto simp: andThen_def split: prod.splits)

fun actsOf :: "gate_event list \<Rightarrow> outcome list" where
  "actsOf [] = []"
| "actsOf (Act a # es) = a # actsOf es"
| "actsOf (Seal rec # es) = actsOf es"
| "actsOf (ClearCookie c # es) = actsOf es"

lemma actsOf_append [simp]: "actsOf (xs @ ys) = actsOf xs @ actsOf ys"
  by (induction xs rule: actsOf.induct) auto

lemma set_actsOf: "a \<in> set (actsOf es) \<longleftrightarrow> Act a \<in> set es"
  by (induction es rule: actsOf.induct) auto

text \<open>The record describes the action: the action it names is the one taken, or it says monitor.\<close>

fun describes :: "audit_record \<Rightarrow> outcome \<Rightarrow> bool" where
  "describes rec (Forward r route) \<longleftrightarrow> EventType rec \<noteq> [] \<and> (Action rec = ''pass'' \<or> Mode rec = ''monitor'')"
| "describes rec Deny \<longleftrightarrow> EventType rec \<noteq> [] \<and> Action rec = ''block'' \<and> Mode rec = ''enforce''"
| "describes rec (BanBlock w) \<longleftrightarrow> EventType rec \<noteq> [] \<and> Action rec = ''block'' \<and> Mode rec = ''enforce''"
| "describes rec Challenge \<longleftrightarrow> EventType rec \<noteq> [] \<and> Action rec = ''challenge_pow'' \<and> Mode rec = ''enforce''"
| "describes rec _ \<longleftrightarrow> False"

definition audited :: "gate_event list \<Rightarrow> outcome \<Rightarrow> bool" where
  "audited evs a \<longleftrightarrow> (\<exists>pre rec. evs = pre @ [Seal rec, Act a] \<and> actsOf pre = [] \<and> describes rec a)"

definition goodStep :: "('b, 'v) step \<Rightarrow> bool" where
  "goodStep st \<longleftrightarrow> (if handled st then \<exists>a. audited (stepEvents st) a else actsOf (stepEvents st) = [])"

lemma audited_prepend: "actsOf xs = [] \<Longrightarrow> audited ys a \<Longrightarrow> audited (xs @ ys) a"
  unfolding audited_def by (metis actsOf_append append.assoc append_Nil2)

lemma goodStep_simps [simp]:
  "goodStep (s, [], False)" "goodStep (s, [Seal rec], False)" "goodStep (s, [ClearCookie c, Seal rec], False)"
  "describes rec a \<Longrightarrow> goodStep (s, [Seal rec, Act a], True)"
  by (auto simp: goodStep_def audited_def)

lemma goodStep_andThen [intro]:
  assumes "goodStep st" and "\<not> handled st \<Longrightarrow> goodStep (f (fst st))"
  shows "goodStep (andThen st f)"
  using assms audited_prepend by (fastforce simp: goodStep_def andThen_simps)

section \<open>The gates\<close>

lemma enforceBan_frame [frame]: "core (fst (enforceBan E s r sid b)) = core s"
  by (simp add: enforceBan_def case_prod_beta Let_def frame)

lemma enforceBan_good: "goodStep (enforceBan E s r sid b)" "handled (enforceBan E s r sid b)"
  by (auto simp: enforceBan_def case_prod_beta Let_def)

lemma banCheckLoop_frame [frame]:
  "core (fst (banCheckLoop E r sid mode b ks s)) = core s"
  by (induction ks arbitrary: b s) (auto simp: case_prod_beta frame andThen_simps split: option.split)

lemma banMonitorLoop_frame [frame]:
  "core (fst (banMonitorLoop E r sid mode b ks s)) = core s"
  by (induction ks arbitrary: b s) (auto simp: case_prod_beta frame andThen_simps split: option.split)

lemma banObserveLoop_frame [frame]:
  "core (fst (banObserveLoop E r sid b ks s)) = core s"
  by (induction ks arbitrary: b s) (auto simp: case_prod_beta Let_def frame andThen_simps split: option.split)

lemma ban_cred_frame [frame]:
  "\<not> handled (banCheckLoop E r sid mode b ks s) \<Longrightarrow> credState (fst (banCheckLoop E r sid mode b ks s)) = credState s"
  "credState (fst (banMonitorLoop E r sid mode b ks s)) = credState s"
  "\<not> handled (banObserveLoop E r sid b ks s) \<Longrightarrow> credState (fst (banObserveLoop E r sid b ks s)) = credState s"
proof (induction ks arbitrary: b s)
  case (Cons k ks)
  { case 1 then show ?case using Cons(1)
      by (auto simp: case_prod_beta frame andThen_simps enforceBan_good split: option.splits if_splits)
  next
    case 2 then show ?case using Cons(2)
      by (auto simp: case_prod_beta frame andThen_simps split: option.splits if_splits)
  next
    case 3 then show ?case using Cons(3)
      by (auto simp: case_prod_beta Let_def frame andThen_simps enforceBan_good split: option.splits if_splits) }
qed (auto simp: frame)

lemma banLoops_good:
  "goodStep (banCheckLoop E r sid mode b ks s)" "goodStep (banMonitorLoop E r sid mode b ks s)"
  "\<not> handled (banMonitorLoop E r sid mode b ks s)" "goodStep (banObserveLoop E r sid b ks s)"
proof (induction ks arbitrary: b s)
  case (Cons k ks)
  { case 1 show ?case using Cons(1) by (auto simp: case_prod_beta enforceBan_good split: option.split)
  next
    case 2 show ?case using Cons(2) by (auto simp: case_prod_beta split: option.split)
  next
    case 3 show ?case using Cons(3) by (auto simp: case_prod_beta andThen_simps split: option.split)
  next
    case 4 show ?case using Cons(4) by (auto simp: case_prod_beta Let_def enforceBan_good split: option.split) }
qed auto

lemma banGate_frame [frame]:
  "core (fst (banGate E s r sid)) = core s"
  "\<not> handled (banGate E s r sid) \<Longrightarrow> credState (fst (banGate E s r sid)) = credState s"
  by (auto simp: banGate_def Let_def andThen_simps frame split: option.split)

lemma banGate_good: "goodStep (banGate E s r sid)"
  by (auto simp: banGate_def Let_def banLoops_good split: option.split)

lemma smuggleGate_frame [frame]:
  "core (fst (smuggleGate E s r sid)) = core s" "credState (fst (smuggleGate E s r sid)) = credState s"
  by (simp_all add: smuggleGate_def Let_def case_prod_beta frame)

lemma smuggleGate_good: "goodStep (smuggleGate E s r sid)"
  by (auto simp: smuggleGate_def Let_def case_prod_beta smuggleRecord_def)

lemma spoofHeaderGate_frame [frame]:
  "core (fst (spoofHeaderGate E s r sid)) = core s" "credState (fst (spoofHeaderGate E s r sid)) = credState s"
  by (simp_all add: spoofHeaderGate_def Let_def case_prod_beta frame)

lemma spoofHeaderGate_good: "goodStep (spoofHeaderGate E s r sid)"
  by (auto simp: spoofHeaderGate_def Let_def case_prod_beta spoofRecord_def)

lemma trustUpgrade_frame [frame]: "core (fst (trustUpgrade E s r sid route ev ru re)) = core s"
  by (simp add: trustUpgrade_def case_prod_beta frame)

lemma trustUpgrade_good: "ev \<noteq> [] \<Longrightarrow> goodStep (trustUpgrade E s r sid route ev ru re)"
  "handled (trustUpgrade E s r sid route ev ru re)"
  by (auto simp: trustUpgrade_def case_prod_beta)

lemma agentAuthGate_frame [frame]:
  "core (fst (agentAuthGate E s r sid route)) = core s"
  "\<not> handled (agentAuthGate E s r sid route) \<Longrightarrow>
     (patVerifier (fst (agentAuthGate E s r sid route)), webauthn (fst (agentAuthGate E s r sid route)))
     = (patVerifier s, webauthn s)"
proof -
  have keep: "patVerifier (fst (subjectRecord E t sid x)) = patVerifier t \<and> webauthn (fst (subjectRecord E t sid x)) = webauthn t"
    for t x using subjectRecord_frame(2) [of E t sid x] by (simp add: credState_def)
  show "core (fst (agentAuthGate E s r sid route)) = core s"
    by (auto simp: agentAuthGate_def Let_def case_prod_beta frame split: option.split agent_verdict.split)
  show "\<not> handled (agentAuthGate E s r sid route) \<Longrightarrow>
     (patVerifier (fst (agentAuthGate E s r sid route)), webauthn (fst (agentAuthGate E s r sid route)))
     = (patVerifier s, webauthn s)"
    by (auto simp: agentAuthGate_def Let_def case_prod_beta keep trustUpgrade_good(2) split: option.splits agent_verdict.splits if_splits)
qed

lemma agentAuthGate_good: "goodStep (agentAuthGate E s r sid route)"
  by (auto simp: agentAuthGate_def Let_def case_prod_beta trustUpgrade_good split: option.split agent_verdict.split)

lemma patGate_frame [frame]:
  "core (fst (patGate E s r sid route)) = core s"
  "\<not> handled (patGate E s r sid route) \<Longrightarrow> webauthn (fst (patGate E s r sid route)) = webauthn s"
  by (auto simp: patGate_def Let_def case_prod_beta frame trustUpgrade_good(2) split: option.splits if_splits)

lemma patGate_good: "goodStep (patGate E s r sid route)"
  by (auto simp: patGate_def Let_def case_prod_beta trustUpgrade_good split: option.split)

lemma webauthnGate_frame [frame]: "core (fst (webauthnGate E s r sid route)) = core s"
  by (auto simp: webauthnGate_def Let_def case_prod_beta frame split: option.split)

lemma webauthnGate_good: "goodStep (webauthnGate E s r sid route)"
  by (auto simp: webauthnGate_def Let_def case_prod_beta trustUpgrade_good split: option.split)

lemma auditAttestationFloor_frame [frame]: "core (fst (auditAttestationFloor E s r sid m x)) = core s"
  by (simp add: auditAttestationFloor_def case_prod_beta frame)

lemma auditAttestationFloor_step:
  "\<not> handled (auditAttestationFloor E s r sid m x)" "actsOf (stepEvents (auditAttestationFloor E s r sid m x)) = []"
  by (simp_all add: auditAttestationFloor_def case_prod_beta)

lemma tokenFastPath_frame [frame]: "core (fst (tokenFastPath E s r sid route)) = core s"
  by (simp add: tokenFastPath_def case_prod_beta frame)

lemma tokenFastPath_good: "goodStep (tokenFastPath E s r sid route)"
  by (simp add: tokenFastPath_def case_prod_beta)

lemma verdictTokenGate_frame [frame]: "core (fst (verdictTokenGate E s r sid route)) = core s"
  by (simp add: verdictTokenGate_def Let_def case_prod_beta frame andThen_simps)

lemma auditAttestationFloor_good: "goodStep (auditAttestationFloor E s r sid m x)"
  by (simp add: goodStep_def auditAttestationFloor_step)

lemma verdictTokenGate_good: "goodStep (verdictTokenGate E s r sid route)"
  by (auto simp: verdictTokenGate_def Let_def case_prod_beta tokenFastPath_good auditAttestationFloor_good)

lemma upgradeGate_frame [frame]: "core (fst (upgradeGate E s r sid route)) = core s"
  by (simp add: upgradeGate_def case_prod_beta frame)

lemma upgradeGate_good: "goodStep (upgradeGate E s r sid route)"
  by (simp add: upgradeGate_def case_prod_beta)

lemma sweepGate_frame [frame]: "core (fst (sweepGate E s r sid route)) = core s"
  by (simp add: sweepGate_def Let_def case_prod_beta frame split: option.split)

lemma sweepGate_good: "goodStep (sweepGate E s r sid route)"
  by (simp add: sweepGate_def Let_def case_prod_beta split: option.split)

end
