(* ===== verification/GateProps.thy ===== *)
theory GateProps
  imports GateFrame
begin

text \<open>
  Properties of the request path as a whole: every request gets exactly one action, with its record
  sealed right before; a forwarded request has a reason to be forwarded; what the kill switch stops and
  what it does not; what the origin sees.
\<close>

section \<open>One audited action per request\<close>

lemma verdictAction_cases:
  "snd (verdictAction v route unsafe) \<in> {''block'', ''challenge_pow'', ''pass''}"
  "fst (verdictAction v route unsafe) \<noteq> []"
  by (auto simp: verdictAction_def)

lemma verdictAction_pass:
  "snd (verdictAction v route unsafe) = ''pass'' \<longleftrightarrow>
     v = VerdictAllow \<or> v \<notin> {VerdictDeny, VerdictChallenge} \<and> \<not> failClosed route \<and> \<not> syncScore route \<and> \<not> unsafe"
  by (auto simp: verdictAction_def verdict_defs)

lemma verdictRecord_fields:
  "EventType (snd (verdictRecord E s r sid route sticky act)) = fst act"
  "Action (snd (verdictRecord E s r sid route sticky act)) = snd act"
  "Mode (snd (verdictRecord E s r sid route sticky act)) = modeName route"
  "core (fst (verdictRecord E s r sid route sticky act)) = core s"
  by (simp_all add: verdictRecord_def case_prod_beta frame)

lemma applyFloor_facts:
  "core (fst (applyFloor E s r sid route act)) = core s"
  "actsOf (fst (snd (applyFloor E s r sid route act))) = []"
  "snd (snd (applyFloor E s r sid route act)) \<in> {act, (''enforcement.challenge.issued'', ''challenge_pow'')}"
  by (simp_all add: applyFloor_def Let_def case_prod_beta auditAttestationFloor_step frame)

lemma applyFloor_pass:
  assumes "snd (snd (snd (applyFloor E s r sid route act))) = ''pass''"
  shows "snd act = ''pass''"
    and "enforcing s route \<Longrightarrow> attestFloor route \<Longrightarrow> gateModuleMode E s ''gate.attest_floor'' = ModeEnforce
         \<Longrightarrow> hasValidStepUp E s r sid (gClock E AtStepUp)"
  using assms by (auto simp: applyFloor_def Let_def case_prod_beta split: if_splits)

text \<open>The verdict gate in projections.\<close>

definition stickyOf where
  "stickyOf E s sid = snd (voGet (gVer E) (verdicts s) sid (gClock E AtSweep))"

definition verdictAct where
  "verdictAct E s r sid route =
     (let v = verdict (stickyOf E s sid); unsafe = isUnsafeMethod (rMethod r); act0 = verdictAction v route unsafe;
          act1 = (if v = VerdictUnknown \<and> unsafe \<and> snd act0 = ''challenge_pow''
                  then (''enf.failclosed.mutating'', snd act0) else act0)
      in snd (snd (applyFloor E (s\<lparr>verdicts := fst (voGet (gVer E) (verdicts s) sid (gClock E AtSweep))\<rparr>) r sid route act1)))"

lemma applyVerdict_shape:
  obtains pre rec where
    "stepEvents (applyVerdict E s r sid route) =
       pre @ [Seal rec, Act (if \<not> enforcing s route then Forward r route
                             else if snd (verdictAct E s r sid route) = ''block'' then Deny
                             else if snd (verdictAct E s r sid route) = ''challenge_pow'' then Challenge
                             else Forward r route)]"
    and "actsOf pre = []" and "EventType rec \<noteq> []" and "Action rec = snd (verdictAct E s r sid route)"
    and "Mode rec = (if enforcing s route then ''enforce'' else ''monitor'')"
    and "snd (verdictAct E s r sid route) \<in> {''block'', ''challenge_pow'', ''pass''}"
proof -
  define s1 where "s1 = s\<lparr>verdicts := fst (voGet (gVer E) (verdicts s) sid (gClock E AtSweep))\<rparr>"
  define v where "v = verdict (stickyOf E s sid)"
  define act0 where "act0 = verdictAction v route (isUnsafeMethod (rMethod r))"
  define act1 where "act1 = (if v = VerdictUnknown \<and> isUnsafeMethod (rMethod r) \<and> snd act0 = ''challenge_pow''
      then (''enf.failclosed.mutating'', snd act0) else act0)"
  define fl where "fl = applyFloor E s1 r sid route act1"
  define vr where "vr = verdictRecord E (fst fl) r sid route (stickyOf E s sid) (snd (snd fl))"
  have act: "verdictAct E s r sid route = snd (snd fl)"
    unfolding verdictAct_def fl_def act1_def act0_def v_def s1_def Let_def by (rule refl)
  have enf: "enforcing (fst vr) = enforcing s"
  proof -
    have "core (fst vr) = core s1"
      by (simp add: vr_def verdictRecord_fields(4) fl_def applyFloor_facts(1))
    then have "enforcing (fst vr) = enforcing s1" by (rule core_reads)
    then show ?thesis by (simp add: s1_def enforcing_def monitorOn_def fun_eq_iff)
  qed
  have act1: "snd act1 \<in> {''block'', ''challenge_pow'', ''pass''}" "fst act1 \<noteq> []"
    using verdictAction_cases [of v route "isUnsafeMethod (rMethod r)"] by (auto simp: act1_def act0_def)
  then have fin: "snd (snd (snd fl)) \<in> {''block'', ''challenge_pow'', ''pass''}" "fst (snd (snd fl)) \<noteq> []"
    using applyFloor_facts(3) [of E s1 r sid route act1] by (auto simp: fl_def)
  have mode: "modeName route = ''enforce''" if "enforcing s route"
    using that by (simp add: modeName_def enforcing_def)
  have ev: "applyVerdict E s r sid route =
      (fst vr, fst (snd fl) @ (if \<not> enforcing s route then [Seal ((snd vr)\<lparr>Mode := ''monitor''\<rparr>), Act (Forward r route)]
         else [Seal (snd vr), Act (if snd (snd (snd fl)) = ''block'' then Deny
              else if snd (snd (snd fl)) = ''challenge_pow'' then Challenge else Forward r route)]), True)"
    unfolding enf [symmetric] applyVerdict_def stickyOf_def vr_def fl_def act1_def act0_def v_def s1_def
    by (simp add: Let_def case_prod_beta)
  show thesis
  proof (rule that [of "fst (snd fl)" "if enforcing s route then snd vr else (snd vr)\<lparr>Mode := ''monitor''\<rparr>"])
    show "actsOf (fst (snd fl)) = []" by (simp add: fl_def applyFloor_facts(2))
  qed (use ev fin act mode in \<open>auto simp: vr_def verdictRecord_fields\<close>)
qed

lemma applyVerdict_good: "goodStep (applyVerdict E s r sid route)" "handled (applyVerdict E s r sid route)"
proof -
  show h: "handled (applyVerdict E s r sid route)" by (simp add: applyVerdict_def Let_def case_prod_beta)
  show "goodStep (applyVerdict E s r sid route)"
    using h by (rule_tac applyVerdict_shape [of E s r sid route]) (force simp: goodStep_def audited_def)
qed

lemma routedGates_good: "goodStep (routedGates E s r sid)" "handled (routedGates E s r sid)"
  unfolding routedGates_def Let_def
  by (intro goodStep_andThen agentAuthGate_good patGate_good webauthnGate_good verdictTokenGate_good upgradeGate_good
      sweepGate_good applyVerdict_good) (simp add: andThen_simps applyVerdict_good(2))

definition edgeGates where
  "edgeGates E s r sid =
     andThen (banGate E s r sid) (\<lambda>s.
     andThen (smuggleGate E s r sid) (\<lambda>s.
     andThen (spoofHeaderGate E s r sid) (\<lambda>s.
     routedGates E s (afterSpoof r) sid)))"

lemma edgeGates_good: "goodStep (edgeGates E s r sid)" "handled (edgeGates E s r sid)"
  unfolding edgeGates_def
  by (intro goodStep_andThen banGate_good smuggleGate_good spoofHeaderGate_good routedGates_good)
    (simp add: andThen_simps routedGates_good(2))

lemma observeAnomaly_frame [frame]:
  "core (observeAnomaly E s r) = core s" "credState (observeAnomaly E s r) = credState s"
  "bansOf (observeAnomaly E s r) = bansOf s"
  by (simp_all add: observeAnomaly_def frame split: option.split)

definition isControl where
  "isControl s r \<longleftrightarrow> hasPrefix (rPath r) (cfgControlPath (cfg s))"

definition isTooLarge where
  "isTooLarge s r \<longleftrightarrow> 0 < cfgMaxBodyBytes (cfg s) \<and> cfgMaxBodyBytes (cfg s) < rContentLength r"

lemma andThen_pass: "andThen (s, [], False) f = f s"
  by (simp add: andThen_def case_prod_beta)

lemma ServeHTTP_cases:
  "isControl s r \<Longrightarrow> stepEvents (ServeHTTP E s r) = [Act NotFound] \<or> (\<exists>p. stepEvents (ServeHTTP E s r) = [Act (Control p)])"
  "isControl s r \<Longrightarrow> handled (ServeHTTP E s r)"
  "\<not> isControl s r \<Longrightarrow> isTooLarge s r \<Longrightarrow> ServeHTTP E s r = (observeAnomaly E s r, [Act TooLarge], True)"
  "\<not> isControl s r \<Longrightarrow> \<not> isTooLarge s r \<Longrightarrow>
     ServeHTTP E s r = edgeGates E (observeAnomaly E s r) r (sessionID r)"
proof -
  have cfg: "cfg (observeAnomaly E s r) = cfg s"
    using core_reads(12) [OF observeAnomaly_frame(1)] .
  show "isControl s r \<Longrightarrow> stepEvents (ServeHTTP E s r) = [Act NotFound] \<or> (\<exists>p. stepEvents (ServeHTTP E s r) = [Act (Control p)])"
    "isControl s r \<Longrightarrow> handled (ServeHTTP E s r)"
    by (auto simp: ServeHTTP_def routeControlPlane_def Let_def andThen_def cfg isControl_def)
  show "\<not> isControl s r \<Longrightarrow> isTooLarge s r \<Longrightarrow> ServeHTTP E s r = (observeAnomaly E s r, [Act TooLarge], True)"
    by (simp add: ServeHTTP_def routeControlPlane_def bodyCap_def Let_def andThen_def cfg isControl_def isTooLarge_def)
  show "\<not> isControl s r \<Longrightarrow> \<not> isTooLarge s r \<Longrightarrow>
     ServeHTTP E s r = edgeGates E (observeAnomaly E s r) r (sessionID r)"
  proof -
    assume "\<not> isControl s r" and "\<not> isTooLarge s r"
    then have "routeControlPlane (observeAnomaly E s r) r = (observeAnomaly E s r, [], False)"
      and "bodyCap (observeAnomaly E s r) r = (observeAnomaly E s r, [], False)"
      by (auto simp: routeControlPlane_def bodyCap_def Let_def cfg isControl_def isTooLarge_def)
    then show ?thesis by (simp add: ServeHTTP_def edgeGates_def andThen_pass Let_def)
  qed
qed

text \<open>
  What a record says was done: an enforced decision is its action, a monitored one lets the request pass and names
  the action it would have been.
\<close>

definition enacted :: "audit_record \<Rightarrow> string" where
  "enacted rec = (if Mode rec = ''monitor'' then ''pass'' else Action rec)"

fun actionName :: "outcome \<Rightarrow> string option" where
  "actionName (Forward r route) = Some ''pass''"
| "actionName Deny = Some ''block''"
| "actionName (BanBlock w) = Some ''block''"
| "actionName Challenge = Some ''challenge_pow''"
| "actionName _ = None"

fun sealsOf :: "gate_event list \<Rightarrow> audit_record list" where
  "sealsOf [] = []"
| "sealsOf (Seal rec # es) = rec # sealsOf es"
| "sealsOf (_ # es) = sealsOf es"

lemma describes_enacted: "describes rec a \<Longrightarrow> EventType rec \<noteq> [] \<and> actionName a = Some (enacted rec)"
  by (cases a) (auto simp: enacted_def)

text \<open>
  C4. Every request, in every state and under every configuration, gets exactly
  one action.  A request to a control path, or one refused for its declared length, gets it without a record.  For
  every other request the last two effects are the seal of a record and the action, and the action is the one the
  record says was done: the action it names when it is enforced, and forwarding when it is monitored.
\<close>

theorem one_audited_action:
  "handled (ServeHTTP E s r) \<and>
   (\<exists>a. actsOf (stepEvents (ServeHTTP E s r)) = [a] \<and>
        (if isControl s r \<or> isTooLarge s r
         then sealsOf (stepEvents (ServeHTTP E s r)) = [] \<and> (a = NotFound \<or> a = TooLarge \<or> (\<exists>p. a = Control p))
         else \<exists>pre rec. stepEvents (ServeHTTP E s r) = pre @ [Seal rec, Act a] \<and> EventType rec \<noteq> []
                \<and> actionName a = Some (enacted rec)))"
proof (cases "isControl s r")
  case True
  then show ?thesis using ServeHTTP_cases(1,2) [OF True, of E] by auto
next
  case ctl: False
  show ?thesis
  proof (cases "isTooLarge s r")
    case True
    then show ?thesis using ServeHTTP_cases(3) [OF ctl True, of E] by auto
  next
    case False
    have "handled (edgeGates E (observeAnomaly E s r) r (sessionID r))" by (rule edgeGates_good(2))
    moreover obtain a where "audited (stepEvents (edgeGates E (observeAnomaly E s r) r (sessionID r))) a"
      using edgeGates_good by (metis goodStep_def)
    ultimately show ?thesis
      using ServeHTTP_cases(4) [OF ctl False, of E] ctl False describes_enacted by (fastforce simp: audited_def)
  qed
qed

section \<open>Why a request is forwarded\<close>

text \<open>The ban ledger as the check loop uses it.\<close>

locale ban_check =
  fixes check :: "'b \<Rightarrow> string \<Rightarrow> int \<Rightarrow> 'b \<times> ban_entry option"
    and banned :: "'b \<Rightarrow> string \<Rightarrow> int \<Rightarrow> bool"
  assumes check_exact: "snd (check b k t) \<noteq> None \<longleftrightarrow> banned b k t"
    and check_keeps: "banned (fst (check b k t)) k' t \<longleftrightarrow> banned b k' t"
begin

lemma checkLoop_passes:
  assumes "boCheck (gBan E) = check"
  shows "handled (banCheckLoop E r sid ModeEnforce b ks s) \<longleftrightarrow> (\<exists>k \<in> set ks. banned b k (gClock E AtBan))"
proof (induction ks arbitrary: b s)
  case (Cons k ks)
  show ?case
  proof (cases "snd (check b k (gClock E AtBan))")
    case None
    then have "\<not> banned b k (gClock E AtBan)" using check_exact by metis
    then show ?thesis using None Cons.IH assms check_keeps by (simp add: case_prod_beta)
  next
    case (Some e)
    then have "banned b k (gClock E AtBan)" using check_exact by (metis option.distinct(1))
    then show ?thesis using Some assms enforceBan_good(2) by (simp add: case_prod_beta)
  qed
qed simp

end

interpretation memCheck: ban_check Check "\<lambda>b k t. \<exists>e. bans b k = Some e \<and> active e t"
  by unfold_locales (auto simp: Check_def split: option.splits if_splits)

text \<open>During an outage of the coordinator the shared ledger checks its local mirror, with the same contract.\<close>

interpretation outageCheck:
  ban_check "LedgerCheck P outage cdc" "\<lambda>lr k t. \<exists>e. bans (blocal (fst lr)) k = Some e \<and> active e t"
  by unfold_locales
    (auto simp: LedgerCheck_def outage_def localCheck_def Check_def case_prod_beta split: option.splits if_splits)

definition agentTrusted where
  "agentTrusted E s r \<longleftrightarrow> (\<exists>dir. agentKeys s = Some dir \<and>
     fst (snd (verifyAgent (gP E) (rHost r) (rMethod r) (rPath r) (hGet r ''Signature-Input'') (hGet r ''Signature'')
       dir (agentNonces s) (gClock E AtAgent))) = AgentVerifiedTrusted)"

definition patTrusted where
  "patTrusted E s r \<longleftrightarrow> (\<exists>pv. patVerifier s = Some pv \<and>
     fst (snd (verifyPrivateToken (gCred E) pv (hGet r ''Authorization'') (gClock E AtPat))) = PatVerified)"

definition webauthnTrusted where
  "webauthnTrusted E s r \<longleftrightarrow> (\<exists>wr. webauthn s = Some wr \<and>
     fst (snd (verifyAssertion (gP E) (gCred E) wr (hGet r ''Webauthn-Assertion''))) = WebauthnVerified)"

text \<open>A verified credential: an allowlisted agent, a Private Access Token, or a WebAuthn assertion.\<close>

definition credentialed where
  "credentialed E s r \<longleftrightarrow> agentTrusted E s r \<or> patTrusted E s r \<or> webauthnTrusted E s r"

lemma enforceBan_acts: "Act a \<in> set (stepEvents (enforceBan E s r sid b)) \<Longrightarrow> \<exists>w. a = BanBlock w"
  by (auto simp: enforceBan_def case_prod_beta Let_def)

lemma banLoops_acts:
  "Act a \<in> set (stepEvents (banCheckLoop E r sid mode b ks s)) \<Longrightarrow> \<exists>w. a = BanBlock w"
  "Act a \<notin> set (stepEvents (banMonitorLoop E r sid mode b ks s))"
  "Act a \<in> set (stepEvents (banObserveLoop E r sid b ks s)) \<Longrightarrow> \<exists>w. a = BanBlock w"
proof -
  show "Act a \<in> set (stepEvents (banCheckLoop E r sid mode b ks s)) \<Longrightarrow> \<exists>w. a = BanBlock w"
    by (induction ks arbitrary: b s)
      (auto simp: case_prod_beta andThen_simps dest: enforceBan_acts split: option.splits if_splits)
  show "Act a \<notin> set (stepEvents (banMonitorLoop E r sid mode b ks s))"
    by (induction ks arbitrary: b s) (auto simp: case_prod_beta andThen_simps split: option.splits if_splits)
  show "Act a \<in> set (stepEvents (banObserveLoop E r sid b ks s)) \<Longrightarrow> \<exists>w. a = BanBlock w"
    by (induction ks arbitrary: b s)
      (auto simp: case_prod_beta Let_def andThen_simps dest: enforceBan_acts split: option.splits if_splits)
qed

lemma banGate_acts: "Act a \<in> set (stepEvents (banGate E s r sid)) \<Longrightarrow> \<exists>w. a = BanBlock w"
  by (auto simp: banGate_def Let_def andThen_simps banLoops_acts(2) dest: banLoops_acts(1,3)
      split: option.splits if_splits)

lemma smuggle_spoof_acts:
  "Act a \<in> set (stepEvents (smuggleGate E s r sid)) \<Longrightarrow> a = Deny"
  "Act a \<in> set (stepEvents (spoofHeaderGate E s r sid)) \<Longrightarrow> a = Deny"
  by (auto simp: smuggleGate_def spoofHeaderGate_def Let_def case_prod_beta split: if_splits)

lemma trustUpgrade_acts:
  "Act a \<in> set (stepEvents (trustUpgrade E s r sid route ev ru re)) \<longleftrightarrow> a = Forward r route"
  by (auto simp: trustUpgrade_def case_prod_beta)

lemma agentAuthGate_forward:
  "Act (Forward r' rt) \<in> set (stepEvents (agentAuthGate E s r sid route)) \<Longrightarrow> r' = r \<and> rt = route \<and> agentTrusted E s r"
  by (auto simp: agentAuthGate_def Let_def case_prod_beta agentTrusted_def trustUpgrade_acts
      split: option.splits agent_verdict.splits if_splits)

lemma patGate_forward:
  "Act (Forward r' rt) \<in> set (stepEvents (patGate E s r sid route)) \<Longrightarrow> r' = r \<and> rt = route \<and> patTrusted E s r"
  by (auto simp: patGate_def Let_def case_prod_beta patTrusted_def trustUpgrade_acts split: option.splits if_splits)

lemma webauthnGate_forward:
  "Act (Forward r' rt) \<in> set (stepEvents (webauthnGate E s r sid route)) \<Longrightarrow> r' = r \<and> rt = route \<and> webauthnTrusted E s r"
  by (auto simp: webauthnGate_def Let_def case_prod_beta webauthnTrusted_def trustUpgrade_acts split: option.splits if_splits)

lemma tokenFastPath_acts: "Act a \<in> set (stepEvents (tokenFastPath E s r sid route)) \<longleftrightarrow> a = Forward r route"
  by (auto simp: tokenFastPath_def case_prod_beta)

lemma auditAttestationFloor_acts: "Act a \<notin> set (stepEvents (auditAttestationFloor E s r sid m x))"
  using auditAttestationFloor_step(2) [of E s r sid m x] by (simp flip: set_actsOf)

lemma verdictTokenGate_forward:
  assumes "Act (Forward r' rt) \<in> set (stepEvents (verdictTokenGate E s r (sessionID r) route))"
  shows "r' = r \<and> rt = route \<and> hasValidToken E s r (gClock E AtToken) \<and>
     (attestFloor route \<and> gateModuleMode E s ''gate.attest_floor'' = ModeEnforce
        \<longrightarrow> hasValidStepUp E s r (sessionID r) (gClock E AtToken))"
  using assms
  by (auto simp: verdictTokenGate_def Let_def case_prod_beta andThen_simps tokenFastPath_acts hasValidToken_def
      auditAttestationFloor_acts split: if_splits)

lemma late_gates_acts:
  "Act a \<in> set (stepEvents (upgradeGate E s r sid route)) \<Longrightarrow> a = Deny"
  "Act a \<in> set (stepEvents (sweepGate E s r sid route)) \<Longrightarrow> a = Deny"
  by (auto simp: upgradeGate_def sweepGate_def Let_def case_prod_beta split: if_splits option.splits)

lemma upgradeGate_pass:
  "\<not> handled (upgradeGate E s r sid route) \<Longrightarrow>
     routeClass r \<noteq> ''upgrade'' \<or> \<not> enforcing s route \<or> hasValidToken E s r (gClock E AtUpgrade)"
  by (auto simp: upgradeGate_def case_prod_beta split: if_splits)

lemma applyVerdict_forward:
  assumes "Act (Forward r' rt) \<in> set (stepEvents (applyVerdict E s r sid route))"
  shows "r' = r \<and> rt = route \<and> (enforcing s route \<longrightarrow>
     (let v = verdict (stickyOf E s sid)
      in v = VerdictAllow \<or> v \<notin> {VerdictDeny, VerdictChallenge} \<and> \<not> failClosed route \<and> \<not> syncScore route
         \<and> \<not> isUnsafeMethod (rMethod r)) \<and>
     (attestFloor route \<and> gateModuleMode E s ''gate.attest_floor'' = ModeEnforce
        \<longrightarrow> hasValidStepUp E s r sid (gClock E AtStepUp)))"
proof -
  obtain pre rec where ev: "stepEvents (applyVerdict E s r sid route) =
       pre @ [Seal rec, Act (if \<not> enforcing s route then Forward r route
                             else if snd (verdictAct E s r sid route) = ''block'' then Deny
                             else if snd (verdictAct E s r sid route) = ''challenge_pow'' then Challenge
                             else Forward r route)]"
    and pre: "actsOf pre = []" and act: "snd (verdictAct E s r sid route) \<in> {''block'', ''challenge_pow'', ''pass''}"
    by (rule applyVerdict_shape) blast
  have "Act (Forward r' rt) \<notin> set pre" using pre by (simp flip: set_actsOf)
  with assms ev have same: "r' = r \<and> rt = route"
    and pass: "enforcing s route \<Longrightarrow> snd (verdictAct E s r sid route) = ''pass''"
    using act by (auto split: if_splits)
  define s1 where "s1 = s\<lparr>verdicts := fst (voGet (gVer E) (verdicts s) sid (gClock E AtSweep))\<rparr>"
  have reads: "enforcing s1 = enforcing s" "gateModuleMode E s1 = gateModuleMode E s" "hasValidStepUp E s1 = hasValidStepUp E s"
    by (auto simp: s1_def enforcing_def monitorOn_def gateModuleMode_def SettingsEffective_def settingsEffectiveFor_def
        activeOverlay_def hasValidStepUp_def fun_eq_iff)
  show ?thesis
  proof (intro conjI impI)
    assume e: "enforcing s route"
    note p = applyFloor_pass [OF pass [OF e, unfolded verdictAct_def Let_def, folded s1_def]]
    show "let v = verdict (stickyOf E s sid)
      in v = VerdictAllow \<or> v \<notin> {VerdictDeny, VerdictChallenge} \<and> \<not> failClosed route \<and> \<not> syncScore route
         \<and> \<not> isUnsafeMethod (rMethod r)"
      using p(1) by (auto simp: Let_def verdictAction_pass split: if_splits)
    assume "attestFloor route \<and> gateModuleMode E s ''gate.attest_floor'' = ModeEnforce"
    then show "hasValidStepUp E s r sid (gClock E AtStepUp)" using p(2) e reads by simp
  qed (use same in auto)
qed

text \<open>What an enforcing route requires of a request that is forwarded.\<close>

definition justified where
  "justified E s r route \<longleftrightarrow>
     credentialed E s r \<or>
     ((hasValidToken E s r (gClock E AtToken) \<or>
       (let v = verdict (stickyOf E s (sessionID r))
        in v = VerdictAllow \<or> v \<notin> {VerdictDeny, VerdictChallenge} \<and> \<not> failClosed route \<and> \<not> syncScore route
           \<and> \<not> isUnsafeMethod (rMethod r))) \<and>
      (attestFloor route \<longrightarrow> hasValidStepUp E s r (sessionID r) (gClock E AtToken)
                           \<or> hasValidStepUp E s r (sessionID r) (gClock E AtStepUp)) \<and>
      (routeClass r = ''upgrade'' \<longrightarrow> hasValidToken E s r (gClock E AtToken) \<or> hasValidToken E s r (gClock E AtUpgrade)))"

lemma routedGates_forward:
  assumes fw: "Act (Forward r' rt) \<in> set (stepEvents (routedGates E s r (sessionID r)))"
    and fm: "gateModuleMode E s ''gate.attest_floor'' = ModeEnforce"
  shows "r' = r \<and> rt = resolvePath E s (rPath r) \<and> (enforcing s rt \<longrightarrow> justified E s r rt)"
proof -
  define route where "route = resolvePath E s (rPath r)"
  let ?sid = "sessionID r"
  define s1 where "s1 = fst (agentAuthGate E s r ?sid route)"
  define s2 where "s2 = fst (patGate E s1 r ?sid route)"
  define s3 where "s3 = fst (webauthnGate E s2 r ?sid route)"
  define s4 where "s4 = fst (verdictTokenGate E s3 r ?sid route)"
  define s5 where "s5 = fst (upgradeGate E s4 r ?sid route)"
  define s6 where "s6 = fst (sweepGate E s5 r ?sid route)"
  note sdefs = s1_def s2_def s3_def s4_def s5_def s6_def
  have c: "core s1 = core s" "core s2 = core s" "core s3 = core s" "core s4 = core s" "core s5 = core s" "core s6 = core s"
    by (simp_all add: sdefs frame)
  have st: "stickyOf E s6 = stickyOf E s" using core_reads(11) [OF c(6)] by (simp add: stickyOf_def fun_eq_iff)
  note rd = core_reads(1,6,8,9) [OF c(3)] core_reads(1,6,8,9) [OF c(4)] core_reads(1,6,8,9) [OF c(6)] st
  consider (agent) "Act (Forward r' rt) \<in> set (stepEvents (agentAuthGate E s r ?sid route))"
    | (pat) "Act (Forward r' rt) \<in> set (stepEvents (patGate E s1 r ?sid route))" "\<not> handled (agentAuthGate E s r ?sid route)"
    | (wa) "Act (Forward r' rt) \<in> set (stepEvents (webauthnGate E s2 r ?sid route))"
        "\<not> handled (agentAuthGate E s r ?sid route)" "\<not> handled (patGate E s1 r ?sid route)"
    | (tok) "Act (Forward r' rt) \<in> set (stepEvents (verdictTokenGate E s3 r ?sid route))"
    | (ver) "Act (Forward r' rt) \<in> set (stepEvents (applyVerdict E s6 r ?sid route))"
        "\<not> handled (upgradeGate E s4 r ?sid route)"
    using fw late_gates_acts
    unfolding routedGates_def Let_def route_def [symmetric] andThen_simps sdefs [symmetric]
    by (fastforce split: if_splits)
  then have "r' = r \<and> rt = route \<and> (enforcing s route \<longrightarrow> justified E s r route)"
  proof cases
    case agent
    then show ?thesis using agentAuthGate_forward [OF agent] by (simp add: justified_def credentialed_def)
  next
    case pat
    have "patVerifier s1 = patVerifier s" using agentAuthGate_frame(2) [OF pat(2)] by (simp add: s1_def)
    then show ?thesis using patGate_forward [OF pat(1)] by (simp add: justified_def credentialed_def patTrusted_def)
  next
    case wa
    have "webauthn s2 = webauthn s"
      using agentAuthGate_frame(2) [OF wa(2)] patGate_frame(2) [OF wa(3)] by (simp add: s1_def s2_def)
    then show ?thesis using webauthnGate_forward [OF wa(1)] by (simp add: justified_def credentialed_def webauthnTrusted_def)
  next
    case tok
    then show ?thesis using verdictTokenGate_forward [OF tok] fm by (auto simp: justified_def rd)
  next
    case ver
    then show ?thesis
      using applyVerdict_forward [OF ver(1)] upgradeGate_pass [OF ver(2)] fm by (auto simp: justified_def rd Let_def)
  qed
  then show ?thesis by (simp add: route_def)
qed

lemma banGate_pass:
  assumes "\<not> handled (banGate E s r sid)" and "gBan E = memBanOps" and "bansOf s = Some b"
    and "gateModuleMode E s ''gate.ban'' = ModeEnforce" and "k \<in> set (banKeys E r)" and "bans b k = Some e"
  shows "\<not> active e (gClock E AtBan)"
proof -
  have "\<not> handled (banCheckLoop E r sid ModeEnforce b (banKeys E r) s)"
    using assms(1,3,4) by (simp add: banGate_def Let_def andThen_simps ModeEnforce_def ModeOff_def)
  moreover have "boCheck (gBan E) = Check" by (simp add: assms(2) memBanOps_def)
  ultimately show ?thesis using memCheck.checkLoop_passes [of E r sid b "banKeys E r" s] assms(5,6) by blast
qed

lemma gateModuleMode_default: "overlayStore s = None \<Longrightarrow> gateModuleMode E s i = ModeEnforce"
  by (simp add: gateModuleMode_def)

lemma scan_gates_pass:
  "gateModuleMode E s ''gate.smuggle'' = ModeEnforce \<Longrightarrow> \<not> handled (smuggleGate E s r sid) \<longleftrightarrow> smuggleScan r = SmuggleNone"
  "gateModuleMode E s ''gate.spoof_header'' = ModeEnforce \<Longrightarrow> \<not> handled (spoofHeaderGate E s r sid) \<longleftrightarrow> spoofScan r = []"
  by (simp_all add: smuggleGate_def spoofHeaderGate_def Let_def case_prod_beta core_reads(6) [OF subjectRecord_frame(1)])

lemma credentialed_cong: "credState s' = credState s \<Longrightarrow> credentialed E s' r = credentialed E s r"
  by (simp add: credentialed_def agentTrusted_def patTrusted_def webauthnTrusted_def credState_def)

lemma justified_cong:
  assumes "core s' = core s" and "credState s' = credState s"
  shows "justified E s' r rt = justified E s r rt"
  by (simp add: justified_def stickyOf_def core_reads(8,9,11) [OF assms(1)] credentialed_cong [OF assms(2)])

lemma forwarded_justified:
  assumes "Act (Forward r' route) \<in> set (stepEvents (ServeHTTP E s r))"
    and "overlayStore s = None" and "gBan E = memBanOps" and "bansOf s = Some b"
  shows "r' = r \<and> route = resolvePath E s (rPath r) \<and>
     \<not> hasPrefix (rPath r) (cfgControlPath (cfg s)) \<and> smuggleScan r = SmuggleNone \<and> spoofScan r = [] \<and>
     (\<forall>k \<in> set (banKeys E r). \<forall>e. bans b k = Some e \<longrightarrow> \<not> active e (gClock E AtBan)) \<and>
     (enforcing s route \<longrightarrow> justified E s r route)"
proof -
  let ?sid = "sessionID r"
  define s0 where "s0 = observeAnomaly E s r"
  define s1 where "s1 = fst (banGate E s0 r ?sid)"
  define s2 where "s2 = fst (smuggleGate E s1 r ?sid)"
  define s3 where "s3 = fst (spoofHeaderGate E s2 r ?sid)"
  note sdefs = s0_def s1_def s2_def s3_def
  have c: "core s0 = core s" "core s1 = core s" "core s2 = core s" "core s3 = core s"
    by (simp_all add: sdefs frame)
  have mode: "gateModuleMode E t i = ModeEnforce" if "core t = core s" for t i
    by (simp add: core_reads(6) [OF that] gateModuleMode_default [OF assms(2)])
  have edge: "\<not> isControl s r" "\<not> isTooLarge s r"
    using assms(1) ServeHTTP_cases(1,3) [of s r E] by (cases "isControl s r"; force)+
  note fw = assms(1) [unfolded ServeHTTP_cases(4) [OF edge] edgeGates_def andThen_simps, folded s0_def]
  have h: "\<not> handled (banGate E s0 r ?sid)" "\<not> handled (smuggleGate E s1 r ?sid)" "\<not> handled (spoofHeaderGate E s2 r ?sid)"
    and last: "Act (Forward r' route) \<in> set (stepEvents (routedGates E s3 (afterSpoof r) ?sid))"
    using fw banGate_acts smuggle_spoof_acts unfolding sdefs by (fastforce split: if_splits)+
  have scans: "smuggleScan r = SmuggleNone" "spoofScan r = []"
    using scan_gates_pass [OF mode] h(2,3) c(2,3) by blast+
  then have after: "afterSpoof r = r" by (simp add: afterSpoof_def)
  have cred: "credState s3 = credState s" using h(1) by (simp add: sdefs frame)
  have "bansOf s0 = Some b" using assms(4) by (simp add: s0_def frame)
  then have bans: "\<forall>k \<in> set (banKeys E r). \<forall>e. bans b k = Some e \<longrightarrow> \<not> active e (gClock E AtBan)"
    using banGate_pass [OF h(1) assms(3) _ mode [OF c(1)]] by blast
  note fin = routedGates_forward [OF last [unfolded after] mode [OF c(4)]]
  show ?thesis
    using fin scans bans edge(1)
    by (auto simp: isControl_def core_reads(1,7) [OF c(4)] justified_cong [OF c(4) cred])
qed

text \<open>
  C1. A request that reaches the origin, on a server with the default settings
  and the in-memory ban store, is the request that came in, under the policy of its path. It is not for the
  control plane, its framing is unambiguous, it carries no forged trust header, and neither its address nor
  its fingerprint is banned. If its route enforces, it has a verified credential, or else a valid verdict
  token or a verdict that passes (an ALLOW, or no verdict yet on a safe method of a route that fails open);
  on an attested route it then also has a valid step-up proof, and as a protocol upgrade a valid token.
\<close>

theorem forward_justified:
  assumes "Act (Forward r' route) \<in> set (stepEvents (ServeHTTP E s r))"
    and "overlayStore s = None" and "gBan E = memBanOps" and "bansOf s = Some b"
  shows "r' = r \<and> route = resolvePath E s (rPath r) \<and>
     \<not> hasPrefix (rPath r) (cfgControlPath (cfg s)) \<and> smuggleScan r = SmuggleNone \<and> spoofScan r = [] \<and>
     (\<forall>k \<in> set (banKeys E r). \<forall>e. bans b k = Some e \<longrightarrow> \<not> active e (gClock E AtBan)) \<and>
     (enforcing s route \<longrightarrow> justified E s r route)"
  by (rule forwarded_justified [OF assms])

definition exGateEnv :: "(bytes, limiter ban_store, verdict_store) gate_env" where
  "exGateEnv = \<lparr>gP = toyPrims, gKdf = (\<lambda>k v. None), gCanon = (\<lambda>v. Some []), gCred = exCreds, gBan = memBanOps,
     gVer = memVerdictOps, gClock = (\<lambda>c. 1000), gFresh = ''f'', gCorrID = ''id''\<rparr>"

definition exServer :: "(limiter ban_store, verdict_store) server" where
  "exServer = \<lparr>cfg = \<lparr>cfgNodeID = ''n'', cfgControlPath = ''/__hmn/'', cfgRoutes = [(''/pay'', ''strict'')],
       cfgGlobalMonitor = False, cfgMaxBodyBytes = 0, cfgRateWindow = 0, cfgRateSoft = 0, cfgRateHard = 0\<rparr>,
     vaultOf = Some NewVault, verdicts = \<lparr>vmap = [(''s'', exVerdict VerdictAllow 900)], vttl = 5000\<rparr>,
     bansOf = Some (NewBanStore 10000000000 60 120), tokenKey = ''k'', tokenEpochs = NewEpochManager,
     sweepOf = Some (NewSweepDetector 30000000000 8), killSwitch = False, agentKeys = None,
     agentNonces = NewNonceCache 3600000000000, patVerifier = None, webauthn = None, anomalyOf = None, credCorr = None,
     credFanoutCap = 0, overlayStore = None\<rparr>"

definition exPayment :: request where
  "exPayment = \<lparr>rMethod = ''POST'', rPath = ''/pay/now'', rHost = ''h'', rHeader = [(''User-Agent'', [''ua''])],
     rCookies = [(''hsid'', ''s'')], rContentLength = 0, rClientIP = ''1.2.3.4'', rSubnet = ''1.2.3.0/24''\<rparr>"

theorem forward_justified_witness:
  "exPayment = exPayment \<and> presetStrict = resolvePath exGateEnv exServer ''/pay/now'' \<and>
   enforcing exServer presetStrict \<and> justified exGateEnv exServer exPayment presetStrict"
proof -
  have "actsOf (stepEvents (ServeHTTP exGateEnv exServer exPayment)) = [Forward exPayment presetStrict]" by code_simp
  then have "Act (Forward exPayment presetStrict) \<in> set (stepEvents (ServeHTTP exGateEnv exServer exPayment))"
    by (simp flip: set_actsOf)
  moreover have "enforcing exServer presetStrict" by code_simp
  ultimately show ?thesis
    using forward_justified [of exPayment presetStrict exGateEnv exServer exPayment "NewBanStore 10000000000 60 120"]
    by (simp add: exServer_def exGateEnv_def exPayment_def)
qed

section \<open>The kill switch\<close>

lemma unhandled_acts: "goodStep st \<Longrightarrow> \<not> handled st \<Longrightarrow> actsOf (stepEvents st) = []"
  by (simp add: goodStep_def)

lemma monitored_unhandled:
  assumes "\<not> enforcing s route"
  shows "\<not> handled (agentAuthGate E s r sid route)" and "\<not> handled (patGate E s r sid route)"
    and "\<not> handled (webauthnGate E s r sid route)" and "\<not> handled (verdictTokenGate E s r sid route)"
    and "\<not> handled (upgradeGate E s r sid route)" and "\<not> handled (sweepGate E s r sid route)"
proof -
  have e: "\<not> enforcing (s\<lparr>agentNonces := n\<rparr>) route" for n
    using assms by (simp add: enforcing_def monitorOn_def)
  show "\<not> handled (agentAuthGate E s r sid route)"
    using e by (auto simp: agentAuthGate_def Let_def case_prod_beta split: option.split agent_verdict.split)
  show "\<not> handled (patGate E s r sid route)" "\<not> handled (webauthnGate E s r sid route)"
    "\<not> handled (verdictTokenGate E s r sid route)" "\<not> handled (upgradeGate E s r sid route)"
    "\<not> handled (sweepGate E s r sid route)"
    using assms by (auto simp: patGate_def webauthnGate_def verdictTokenGate_def upgradeGate_def sweepGate_def Let_def
        case_prod_beta split: option.split)
qed

lemma routedGates_monitor:
  fixes s :: "('b, 'v) server"
  assumes "monitorOn s"
  shows "actsOf (stepEvents (routedGates E s r sid)) = [Forward r (resolvePath E s (rPath r))]"
proof -
  define route where "route = resolvePath E s (rPath r)"
  have off: "\<not> enforcing t route" if "core t = core s" for t :: "('b, 'v) server"
    using assms core_reads(2) [OF that] by (simp add: enforcing_def)
  have fin: "actsOf (stepEvents (applyVerdict E t r sid route)) = [Forward r route]" if "core t = core s" for t :: "('b, 'v) server"
    using off [OF that] by (rule_tac applyVerdict_shape [of E t r sid route]) auto
  note un = monitored_unhandled [OF off]
  show ?thesis
    unfolding routedGates_def Let_def route_def [symmetric] andThen_simps
    by (simp add: frame un fin unhandled_acts agentAuthGate_good patGate_good webauthnGate_good verdictTokenGate_good
        upgradeGate_good sweepGate_good)
qed

text \<open>
  C10. With the kill switch on (default settings), a request that gets past the ban
  gate, has unambiguous framing and no forged trust header is forwarded, whatever its verdict, token or
  route. But the switch does not reach the gates before routing: a banned source is still blocked and a
  request with ambiguous framing or a forged header is still denied.
\<close>

theorem kill_switch_scope:
  assumes "killSwitch s" and "overlayStore s = None" and "gBan E = memBanOps" and "bansOf s = Some b"
    and "\<not> hasPrefix (rPath r) (cfgControlPath (cfg s))" and "cfgMaxBodyBytes (cfg s) = 0"
  shows "((\<exists>k \<in> set (banKeys E r). \<exists>e. bans b k = Some e \<and> active e (gClock E AtBan)) \<longrightarrow>
            (\<exists>w. actsOf (stepEvents (ServeHTTP E s r)) = [BanBlock w])) \<and>
         (\<not> handled (banGate E (observeAnomaly E s r) r (sessionID r)) \<longrightarrow>
            actsOf (stepEvents (ServeHTTP E s r)) =
              [if smuggleScan r = SmuggleNone \<and> spoofScan r = [] then Forward r (resolvePath E s (rPath r)) else Deny])"
proof -
  let ?sid = "sessionID r"
  define s0 where "s0 = observeAnomaly E s r"
  define s1 where "s1 = fst (banGate E s0 r ?sid)"
  define s2 where "s2 = fst (smuggleGate E s1 r ?sid)"
  define s3 where "s3 = fst (spoofHeaderGate E s2 r ?sid)"
  note sdefs = s0_def s1_def s2_def s3_def
  have c: "core s0 = core s" "core s1 = core s" "core s2 = core s" "core s3 = core s"
    by (simp_all add: sdefs frame)
  have mode: "gateModuleMode E t i = ModeEnforce" if "core t = core s" for t i
    by (simp add: core_reads(6) [OF that] gateModuleMode_default [OF assms(2)])
  have ev: "stepEvents (ServeHTTP E s r) = stepEvents (edgeGates E s0 r ?sid)"
    using ServeHTTP_cases(4) [of s r E] assms(5,6) by (simp add: isControl_def isTooLarge_def s0_def)
  have one: "\<exists>a. actsOf (stepEvents (edgeGates E s0 r ?sid)) = [a]"
    using edgeGates_good [of E s0 r ?sid] by (auto simp: goodStep_def audited_def)
  have ban: "\<exists>w. actsOf (stepEvents (ServeHTTP E s r)) = [BanBlock w]" if "handled (banGate E s0 r ?sid)"
  proof -
    have "stepEvents (ServeHTTP E s r) = stepEvents (banGate E s0 r ?sid)"
      using that by (simp add: ev edgeGates_def andThen_simps)
    then show ?thesis using one ev banGate_acts [of _ E s0 r ?sid] by (metis list.set_intros(1) set_actsOf)
  qed
  have pass: "actsOf (stepEvents (ServeHTTP E s r)) =
      [if smuggleScan r = SmuggleNone \<and> spoofScan r = [] then Forward r (resolvePath E s (rPath r)) else Deny]"
    if h: "\<not> handled (banGate E s0 r ?sid)"
  proof -
    have mon: "monitorOn s3" using assms(1) core_reads(2) [OF c(4)] by (simp add: monitorOn_def)
    have q: "actsOf (stepEvents (banGate E s0 r ?sid)) = []" using h by (rule unhandled_acts [OF banGate_good])
    have sm: "actsOf (stepEvents (smuggleGate E s1 r ?sid)) = (if smuggleScan r = SmuggleNone then [] else [Deny])"
      using mode [OF c(2), of "''gate.smuggle''"]
      by (simp add: smuggleGate_def Let_def case_prod_beta core_reads(6) [OF subjectRecord_frame(1)])
    have sp: "actsOf (stepEvents (spoofHeaderGate E s2 r ?sid)) = (if spoofScan r = [] then [] else [Deny])"
      using mode [OF c(3), of "''gate.spoof_header''"]
      by (simp add: spoofHeaderGate_def Let_def case_prod_beta core_reads(6) [OF subjectRecord_frame(1)])
    have hh: "handled (smuggleGate E s1 r ?sid) \<longleftrightarrow> smuggleScan r \<noteq> SmuggleNone"
      "handled (spoofHeaderGate E s2 r ?sid) \<longleftrightarrow> spoofScan r \<noteq> []"
      using scan_gates_pass [OF mode] c(2,3) by blast+
    show ?thesis
      unfolding ev edgeGates_def andThen_simps sdefs [symmetric]
      using h q sm sp hh routedGates_monitor [OF mon, of E r ?sid] core_reads(7) [OF c(4), of E]
      by (simp add: s1_def [symmetric] s2_def [symmetric] s3_def [symmetric] afterSpoof_def)
  qed
  have "handled (banGate E s0 r ?sid)" if "\<exists>k \<in> set (banKeys E r). \<exists>e. bans b k = Some e \<and> active e (gClock E AtBan)"
    using that banGate_pass [of E s0 r ?sid b] assms(3,4) mode [OF c(1)] by (auto simp: s0_def frame)
  then show ?thesis using ban pass by (auto simp: s0_def)
qed

definition exSmuggled :: request where
  "exSmuggled = exPayment\<lparr>rHeader := [(''Transfer-Encoding'', [''chunked'']), (''Content-Length'', [''4''])]\<rparr>"

theorem kill_switch_scope_witness:
  "actsOf (stepEvents (ServeHTTP exGateEnv (exServer\<lparr>killSwitch := True\<rparr>) exSmuggled)) = [Deny] \<and>
   actsOf (stepEvents (ServeHTTP exGateEnv (exServer\<lparr>killSwitch := True\<rparr>) (exSmuggled\<lparr>rHeader := []\<rparr>))) =
     [Forward (exSmuggled\<lparr>rHeader := []\<rparr>) presetStrict]"
proof -
  let ?s = "exServer\<lparr>killSwitch := True\<rparr>"
  note scope = kill_switch_scope [of ?s exGateEnv "NewBanStore 10000000000 60 120"]
  have s: "killSwitch ?s" "overlayStore ?s = None" "gBan exGateEnv = memBanOps" "bansOf ?s = Some (NewBanStore 10000000000 60 120)"
    "cfgMaxBodyBytes (cfg ?s) = 0"
    by (simp_all add: exServer_def exGateEnv_def)
  have p: "\<not> hasPrefix (rPath exSmuggled) (cfgControlPath (cfg ?s))"
    "\<not> hasPrefix (rPath (exSmuggled\<lparr>rHeader := []\<rparr>)) (cfgControlPath (cfg ?s))" by code_simp+
  have h: "\<not> handled (banGate exGateEnv (observeAnomaly exGateEnv ?s exSmuggled) exSmuggled (sessionID exSmuggled))"
    "\<not> handled (banGate exGateEnv (observeAnomaly exGateEnv ?s (exSmuggled\<lparr>rHeader := []\<rparr>)) (exSmuggled\<lparr>rHeader := []\<rparr>)
       (sessionID (exSmuggled\<lparr>rHeader := []\<rparr>)))" by code_simp+
  have r: "smuggleScan exSmuggled = SmuggleTECL" "smuggleScan (exSmuggled\<lparr>rHeader := []\<rparr>) = SmuggleNone"
    "spoofScan (exSmuggled\<lparr>rHeader := []\<rparr>) = []"
    "resolvePath exGateEnv ?s (rPath (exSmuggled\<lparr>rHeader := []\<rparr>)) = presetStrict" by code_simp+
  show ?thesis
    using scope [of exSmuggled, OF s(1-4) p(1) s(5)] scope [of "exSmuggled\<lparr>rHeader := []\<rparr>", OF s(1-4) p(2) s(5)] h r
    by simp
qed

section \<open>What the origin sees\<close>

lemma hValues_setHeader: "hValues (setHeader k v r) h = (if h = k then [v] else hValues r h)"
  by (simp add: hValues_def setHeader_def update_conv')

lemma hValues_delHeader: "hValues (delHeader k r) h = (if h = k then [] else hValues r h)"
  by (simp add: hValues_def delHeader_def delete_conv')

lemma rHost_setHeader [simp]: "rHost (setHeader k v r) = rHost r" "rHost (delHeader k r) = rHost r"
  "rHost (stripInbound r) = rHost r"
  by (simp_all add: setHeader_def delHeader_def stripInbound_def)

text \<open>
  C31. Whatever headers the client sent, the request to the origin carries the
  address of the socket as its only \<open>X-Forwarded-For\<close>, the host of the incoming request, the current
  origin token, and none of the other trust headers.
\<close>

theorem origin_headers:
  "let fwd = rewriteOut P key hasPort tls now inr out
   in hValues fwd ''X-Forwarded-For'' = (if hasPort then [rClientIP inr] else []) \<and>
      hValues fwd ''X-Hmny-Origin-Auth'' = [originAuth P key (Epoch now)] \<and>
      hValues fwd ''X-Forwarded-Host'' = [rHost inr] \<and>
      hValues fwd ''X-Forwarded-Proto'' = [if tls then ''https'' else ''http''] \<and>
      hValues fwd ''X-Hmn-Verdict'' = [] \<and> hValues fwd ''X-Real-Ip'' = [] \<and>
      hValues fwd ''Forwarded'' = [] \<and> hValues fwd ''Cf-Connecting-Ip'' = [] \<and> rHost fwd = rHost inr"
  by (simp add: rewriteOut_def setXForwarded_def Let_def hValues_setHeader hValues_delHeader hValues_stripInbound
      internalHeaders_def)

end
