(* ===== verification/AdminProps.thy ===== *)
theory AdminProps
  imports Admin GateProps
begin

text \<open>
  What the admin plane guarantees. \<open>admRun\<close> is a run of the server as the admin plane sees it: requests with
  any credentials and bodies, the ban decisions of the traffic, garbage collection and due erasures, in any
  order. Its history keeps each request with the environment and the state it ran in.
\<close>

section \<open>Frames\<close>

lemma adm_pseudonym_frame:
  obtains w where "fst (pseudonym E s i v) = s\<lparr>vaultOf := w\<rparr>"
proof (cases "vaultOf s")
  case None
  then have "fst (pseudonym E s i v) = s\<lparr>vaultOf := None\<rparr>" by (simp add: pseudonym_def)
  then show thesis by (rule that)
next
  case (Some w)
  then show thesis
  proof (cases "i = []")
    case True
    then have "fst (pseudonym E s i v) = s\<lparr>vaultOf := Some w\<rparr>" using Some by (simp add: pseudonym_def)
    then show thesis by (rule that)
  next
    case False
    then show thesis using Some that
      by (cases "Pseudonymize (gP E) (gKdf E) w (gFresh E) i v") (auto simp: pseudonym_def)
  qed
qed

text \<open>The entries of the ban store, if there is one.\<close>

definition banAt :: "('l, 'v) admin \<Rightarrow> string \<rightharpoonup> ban_entry" where
  "banAt a k = (case bansOf (srv a) of None \<Rightarrow> None | Some b \<Rightarrow> bans b k)"

lemma banAt_update [simp]:
  "banAt (a\<lparr>approvals := st\<rparr>) = banAt a" "banAt (a\<lparr>shreds := q\<rparr>) = banAt a"
  "banAt (a\<lparr>srv := (srv a)\<lparr>killSwitch := b\<rparr>\<rparr>) = banAt a"
  by (simp_all add: banAt_def fun_eq_iff)

text \<open>The part of the state the guarantees are about.\<close>

definition core ::
  "('l, 'v) admin \<Rightarrow> approval_store \<times> shred_queue \<times> file_store option \<times> bool \<times> overlay option option
     \<times> (string \<rightharpoonup> ban_entry) \<times> admin_auth" where
  "core a = (approvals a, shreds a, settingsStore a, killSwitch (srv a), overlayStore (srv a), banAt a, auth a)"

lemma approvals_core: "core a = core b \<Longrightarrow> approvals a = approvals b"
  by (simp add: core_def)

lemma core_srv:
  "killSwitch s = killSwitch (srv a) \<Longrightarrow> overlayStore s = overlayStore (srv a) \<Longrightarrow> bansOf s = bansOf (srv a) \<Longrightarrow>
     core (a\<lparr>srv := s\<rparr>) = core a"
  by (simp add: core_def banAt_def fun_eq_iff)

lemma core_emitRec [simp]: "core (emitRec r a) = core a"
  by (simp add: emitRec_def core_def banAt_def fun_eq_iff)

lemma core_emitSystem [simp]: "core (emitSystem f a) = core a"
  by (simp add: emitSystem_def)

lemma core_emitOperator [simp]: "core (emitOperator A i f a) = core a"
proof -
  obtain w where "fst (pseudonym (aGate A) (srv a) i i) = (srv a)\<lparr>vaultOf := w\<rparr>" by (rule adm_pseudonym_frame)
  then show ?thesis
    by (cases "pseudonym (aGate A) (srv a) i i") (simp add: emitOperator_def core_srv)
qed

lemma core_stats [simp]: "core (a\<lparr>stats := x\<rparr>) = core a"
  by (simp add: core_def banAt_def fun_eq_iff)

lemma core_limiter [simp]: "core (a\<lparr>incidentLimiter := x\<rparr>) = core a"
  by (simp add: core_def banAt_def fun_eq_iff)

lemma core_sync [simp]: "core (syncSettingsRuntime A eff a) = core a"
  by (simp add: syncSettingsRuntime_def core_def banAt_def ConfigureRate_def fun_eq_iff split: option.splits)

lemma core_storeError [simp]: "core (recordSettingsStoreError r a) = core a"
  by (simp add: recordSettingsStoreError_def)

lemma core_applyError [simp]: "core (settingsApplyError a) = core a"
  by (simp add: settingsApplyError_def)

lemma core_rejected [simp]: "core (fst (settingsApplyRejected A e a)) = core a"
  by (simp add: settingsApplyRejected_def)

lemma core_configChanged [simp]: "core (configChanged A i a) = core a"
  by (simp add: configChanged_def)

lemma effOf_emitOperator [simp]: "effOf A (emitOperator A i f a) = effOf A a"
proof -
  obtain w where "fst (pseudonym (aGate A) (srv a) i i) = (srv a)\<lparr>vaultOf := w\<rparr>" by (rule adm_pseudonym_frame)
  then show ?thesis
    by (cases "pseudonym (aGate A) (srv a) i i")
      (simp add: emitOperator_def emitRec_def effOf_def SettingsEffective_def settingsEffectiveFor_def activeOverlay_def)
qed

lemma Classify_meta [simp]:
  "Classify eff (Some (v\<lparr>MutationClass := c, ExpiresAt := t\<rparr>)) = Classify eff (Some v)"
  by (simp add: Classify_def)

section \<open>What one operator can do alone\<close>

definition soloBan :: "string \<Rightarrow> ban_entry \<Rightarrow> bool" where
  "soloBan k e \<longleftrightarrow> \<not> isBroadKey k \<and> \<not> Permanent e \<and> BUntil e - BCreated e < maxBanDurationSec * 1000000000"

text \<open>A pending action as its handler builds it.\<close>

definition wfPending :: "(bytes \<Rightarrow> overlay option) \<Rightarrow> pending_action \<Rightarrow> bool" where
  "wfPending dec q \<longleftrightarrow>
     (PKind q = ''settings.overlay'' \<longrightarrow> (\<forall>w. dec (param q ''body'') = Some w \<and> param q ''body'' \<noteq> [] \<longrightarrow> ExpiresAt w \<noteq> None))
     \<and> (PKind q = ''erasure'' \<longrightarrow> NeedsRole q = RoleDPO)
     \<and> (NeedsRole q = RoleDPO \<or> NeedsRole q = RoleApprover)"

definition newPending :: "(bytes \<Rightarrow> overlay option) \<Rightarrow> operator \<Rightarrow> string \<Rightarrow> pending_action \<Rightarrow> bool" where
  "newPending dec x i q \<longleftrightarrow> PID q = i \<and> pending_action.Requester q = OpID x \<and> canOperate x \<and> wfPending dec q"

text \<open>An overlay that was applied without a second person.\<close>

definition soloOverlay :: "overlay \<Rightarrow> bool" where
  "soloOverlay v \<longleftrightarrow> MutationClass v = ClassA \<and> ApprovedBy v = []"

definition storeStep :: "file_store option \<Rightarrow> file_store option \<Rightarrow> bool" where
  "storeStep s s' \<longleftrightarrow>
     (\<forall>st'. s' = Some st' \<longrightarrow>
        (\<exists>st. s = Some st \<and> (storeOK st \<longrightarrow> storeOK st')
           \<and> (\<forall>v. fsActive st' = Some v \<longrightarrow> fsActive st = Some v \<or> soloOverlay v)))"

definition viewOK :: "('l, 'v) admin \<Rightarrow> bool" where
  "viewOK a \<longleftrightarrow> overlayStore (srv a) = map_option fsActive (settingsStore a)"

definition soloStep :: "(bytes \<Rightarrow> overlay option) \<Rightarrow> operator \<Rightarrow> ('l, 'v) admin \<Rightarrow> ('l, 'v) admin \<Rightarrow> bool" where
  "soloStep dec x a a' \<longleftrightarrow>
     (\<forall>i q. pending (approvals a') i = Some q \<longrightarrow> pending (approvals a) i = Some q \<or> newPending dec x i q)
     \<and> killSwitch (srv a') = killSwitch (srv a)
     \<and> set (ListShreds (shreds a')) \<subseteq> set (ListShreds (shreds a))
     \<and> (\<forall>k e. banAt a' k = Some e \<and> BSource e = ''manual'' \<longrightarrow> banAt a k = Some e \<or> soloBan k e)
     \<and> storeStep (settingsStore a) (settingsStore a')
     \<and> (viewOK a \<longrightarrow> viewOK a')"

lemma storeStep_refl [simp]: "storeStep s s"
  by (simp add: storeStep_def)

lemma storeStep_trans: "storeStep s s1 \<Longrightarrow> storeStep s1 s2 \<Longrightarrow> storeStep s s2"
  by (cases s; cases s1; cases s2) (auto simp: storeStep_def)

lemma soloStep_refl [simp]: "soloStep dec x a a"
  by (simp add: soloStep_def)

lemma soloStepI:
  assumes "\<And>i q. pending (approvals a') i = Some q \<Longrightarrow> pending (approvals a) i = Some q \<or> newPending dec x i q"
    and "killSwitch (srv a') = killSwitch (srv a)"
    and "set (ListShreds (shreds a')) \<subseteq> set (ListShreds (shreds a))"
    and "\<And>k e. banAt a' k = Some e \<Longrightarrow> BSource e = ''manual'' \<Longrightarrow> banAt a k = Some e \<or> soloBan k e"
    and "storeStep (settingsStore a) (settingsStore a')"
    and "viewOK a \<Longrightarrow> viewOK a'"
  shows "soloStep dec x a a'"
  using assms by (simp add: soloStep_def)

lemma soloStepD:
  assumes "soloStep dec x a a'"
  shows "pending (approvals a') i = Some q \<Longrightarrow> pending (approvals a) i = Some q \<or> newPending dec x i q"
    and "killSwitch (srv a') = killSwitch (srv a)"
    and "set (ListShreds (shreds a')) \<subseteq> set (ListShreds (shreds a))"
    and "banAt a' k = Some e \<Longrightarrow> BSource e = ''manual'' \<Longrightarrow> banAt a k = Some e \<or> soloBan k e"
    and "storeStep (settingsStore a) (settingsStore a')"
    and "viewOK a \<Longrightarrow> viewOK a'"
  using assms by (simp_all add: soloStep_def)

lemma soloStep_trans:
  assumes "soloStep dec x a a1" and "soloStep dec x a1 a2"
  shows "soloStep dec x a a2"
proof (rule soloStepI)
  show "pending (approvals a) i = Some q \<or> newPending dec x i q" if "pending (approvals a2) i = Some q" for i q
    using soloStepD(1) [OF assms(2) that] soloStepD(1) [OF assms(1)] by blast
  show "banAt a k = Some e \<or> soloBan k e" if "banAt a2 k = Some e" "BSource e = ''manual''" for k e
    using soloStepD(4) [OF assms(2) that] soloStepD(4) [OF assms(1) _ that(2)] by blast
  show "storeStep (settingsStore a) (settingsStore a2)"
    by (rule storeStep_trans [OF soloStepD(5) [OF assms(1)] soloStepD(5) [OF assms(2)]])
qed (use soloStepD(2,3,6) [OF assms(1)] soloStepD(2,3,6) [OF assms(2)] in auto)

lemma soloStep_core: "core a' = core a1 \<Longrightarrow> soloStep dec x a a1 \<Longrightarrow> soloStep dec x a a'"
  by (simp add: soloStep_def core_def viewOK_def)

lemma soloStep_same: "core a' = core a \<Longrightarrow> soloStep dec x a a'"
  by (rule soloStep_core [OF _ soloStep_refl])

section \<open>The settings store\<close>

lemma storeActive_frame [simp]:
  "approvals (fst (storeActive A ov a)) = approvals a" "shreds (fst (storeActive A ov a)) = shreds a"
  "killSwitch (srv (fst (storeActive A ov a))) = killSwitch (srv a)" "banAt (fst (storeActive A ov a)) = banAt a"
  "auth (fst (storeActive A ov a)) = auth a"
  by (auto simp: storeActive_def putStore_def banAt_def fun_eq_iff split: option.splits prod.splits)

lemma storeActive_view: "viewOK a \<Longrightarrow> viewOK (fst (storeActive A ov a))"
  by (auto simp: storeActive_def putStore_def viewOK_def split: option.splits prod.splits)

lemma storeActive_None:
  assumes "settingsStore a = Some st"
  shows "settingsStore (fst (storeActive A None a)) = Some (st\<lparr>fsActive := None\<rparr>)"
  using assms by (simp add: storeActive_def SetActive_def putStore_def)

lemma storeActive_Some:
  assumes "codecOK (aEnc A) (aDec A)"
  shows "settingsStore (fst (storeActive A (Some v) a)) = settingsStore a
    \<or> (\<exists>st st'. settingsStore a = Some st \<and> settingsStore (fst (storeActive A (Some v) a)) = Some st'
         \<and> fsActive st' = Some (v\<lparr>OStatus := ''active''\<rparr>) \<and> Validate (Some v) = None)"
proof (cases "settingsStore a")
  case (Some st)
  obtain d' st' e where r: "SetActive (aEnc A) (aDec A) (aIO A) (sdisk a, st) (Some v) = ((d', st'), e)"
    by (metis prod.collapse)
  then have st': "settingsStore (fst (storeActive A (Some v) a)) = Some st'"
    using Some by (simp add: storeActive_def putStore_def)
  show ?thesis
  proof (cases e)
    case None
    then show ?thesis using SetActive_store [OF _ assms] r st' Some by metis
  qed (use SetActive_error(1) r st' Some in fastforce)
qed (simp add: storeActive_def)

lemma storeStep_clear: "storeStep (Some st) (Some (st\<lparr>fsActive := None\<rparr>))"
  by (simp add: storeStep_def storeOK_def Validate_def)

lemma soloStep_clear: "soloStep dec x a (fst (storeActive A None a))"
proof (rule soloStepI)
  show "storeStep (settingsStore a) (settingsStore (fst (storeActive A None a)))"
  proof (cases "settingsStore a")
    case None
    then show ?thesis by (simp add: storeActive_def)
  qed (simp add: storeActive_None storeStep_clear)
qed (simp_all add: storeActive_view)

lemma soloStep_set:
  assumes "codecOK (aEnc A) (aDec A)" and "MutationClass v = ClassA" and "ApprovedBy v = []"
  shows "soloStep dec x a (fst (storeActive A (Some v) a))"
proof (rule soloStepI)
  show "storeStep (settingsStore a) (settingsStore (fst (storeActive A (Some v) a)))"
    using storeActive_Some [OF assms(1), of v a] assms(2,3)
    by (auto simp: storeStep_def storeOK_def soloOverlay_def)
qed (simp_all add: storeActive_view)

lemma soloStep_expire: "soloStep dec x a (expireActiveOverlayIfNeeded A a)"
proof -
  obtain a1 e where c: "storeActive A None a = (a1, e)" by fastforce
  then have "soloStep dec x a a1" using soloStep_clear [of dec x a A] by simp
  then have "soloStep dec x a (recordSettingsStoreError r a1)" "soloStep dec x a (emitSystem f (syncSettingsRuntime A eff a1))"
    for r f eff
    by (rule soloStep_core [rotated], simp)+
  then show ?thesis
    using c by (auto simp: expireActiveOverlayIfNeeded_def Let_def split: option.splits prod.splits)
qed

lemma soloStep_fresh: "settingsEffectiveFresh A a = (a1, eff) \<Longrightarrow> soloStep dec x a a1"
  using soloStep_expire by (auto simp: settingsEffectiveFresh_def Let_def)

text \<open>Applying an overlay either leaves the core alone or stores exactly that overlay.\<close>

lemma applyOverlayCAS_core:
  "core (fst (applyOverlayCAS A ov parent rq ap a)) = core a
   \<or> core (fst (applyOverlayCAS A ov parent rq ap a)) =
       core (fst (storeActive A (Some (ov\<lparr>MutationClass := Classify (effOf A a) (Some ov), OStatus := ''active'',
                                            ApprovedBy := ap\<rparr>)) a))"
  by (auto simp: applyOverlayCAS_def Let_def split: option.splits prod.splits if_splits)

lemma clearOverlayCAS_core:
  "core (fst (clearOverlayCAS A parent rq ap a)) = core a
   \<or> core (fst (clearOverlayCAS A parent rq ap a)) = core (fst (storeActive A None a))"
  by (auto simp: clearOverlayCAS_def Let_def split: option.splits prod.splits if_splits)

lemma soloStep_clearCAS: "soloStep dec x a (fst (clearOverlayCAS A parent rq ap a))"
  using clearOverlayCAS_core [of A parent rq ap a] soloStep_clear [of dec x a A]
  by (metis soloStep_core soloStep_same)

lemma soloStep_applyCAS:
  assumes "codecOK (aEnc A) (aDec A)" and "Classify (effOf A a) (Some ov) = ClassA"
  shows "soloStep dec x a (fst (applyOverlayCAS A ov parent rq [] a))"
  using applyOverlayCAS_core [of A ov parent rq "[]" a] soloStep_set [OF assms(1), of "ov\<lparr>MutationClass := ClassA,
      OStatus := ''active'', ApprovedBy := []\<rparr>" dec x a] assms(2)
  by (auto intro: soloStep_core soloStep_same)

section \<open>Handlers that one operator runs\<close>

lemma requestApproval_pending:
  "snd (requestApproval A kind params rq role a) =
     \<lparr>PID = aNewID A, PKind = kind, Params = params, Requester = rq, NeedsRole = role, PCreated = aClock A AtCreate\<rparr>"
  by (simp add: requestApproval_def Create_def Let_def)

lemma requestApproval_step:
  assumes "canOperate x" and "wfPending dec (snd (requestApproval A kind params (OpID x) role a))"
  shows "soloStep dec x a (fst (requestApproval A kind params (OpID x) role a))"
proof (rule soloStepI)
  let ?q = "snd (requestApproval A kind params (OpID x) role a)"
  have new: "newPending dec x (aNewID A) ?q" using assms by (simp add: newPending_def requestApproval_pending)
  have st: "approvals (fst (requestApproval A kind params (OpID x) role a)) =
      (gcLocked (approvals a) (aClock A AtCreate))
        \<lparr>pending := (pending (gcLocked (approvals a) (aClock A AtCreate)))(aNewID A \<mapsto> ?q)\<rparr>"
    by (simp add: requestApproval_def Create_def Let_def)
  show "pending (approvals a) i = Some q \<or> newPending dec x i q"
    if "pending (approvals (fst (requestApproval A kind params (OpID x) role a))) i = Some q" for i q
    using that new gcLocked_keeps [of "approvals a" _ i q] by (auto simp: st split: if_splits)
qed (simp_all add: requestApproval_def Create_def Let_def banAt_def viewOK_def)

lemma soloStep_request:
  assumes "canOperate x"
    and "wfPending dec \<lparr>PID = aNewID A, PKind = kind, Params = params, Requester = OpID x, NeedsRole = role,
                         PCreated = aClock A AtCreate\<rparr>"
    and "requestApproval A kind params (OpID x) role a = (a1, q)"
  shows "soloStep dec x a (emitOperator A (OpID x) f a1)"
proof -
  have "soloStep dec x a a1"
    using requestApproval_step [OF assms(1), of dec A kind params role a] assms(2,3) requestApproval_pending [of A kind params "OpID x" role a]
    by simp
  then show ?thesis by (rule soloStep_core [rotated]) simp
qed

lemma soloStep_requestI:
  assumes "requestApproval A kind params (OpID x) role a = (a1, q)" and "canOperate x"
    and "kind \<noteq> ''settings.overlay''" and "role = RoleDPO \<or> role = RoleApprover \<and> kind \<noteq> ''erasure''"
  shows "soloStep dec x a (emitOperator A (OpID x) f a1)"
  by (rule soloStep_request [OF assms(2) _ assms(1)]) (use assms(3,4) in \<open>auto simp: wfPending_def\<close>)

lemma expiryForClass_some: "expiryForClass c want now = Inr t \<Longrightarrow> c \<noteq> ClassA \<Longrightarrow> t \<noteq> None"
  by (cases c) (auto simp: expiryForClass_def Let_def split: if_splits)

lemma wfPending_overlay:
  assumes "codecOK enc dec" and "ExpiresAt ov \<noteq> None" and "m ''body'' = Some (patched (enc ov) [])"
  shows "wfPending dec \<lparr>PID = i, PKind = ''settings.overlay'', Params = m, Requester = rq, NeedsRole = RoleApprover,
                          PCreated = t\<rparr>"
  using assms by (auto simp: wfPending_def param_def patched_def codecOK_def role_defs split: option.splits)

lemma soloStep_submit:
  assumes codec: "codecOK (aEnc A) (aDec A)" and "canOperate x"
    and cls: "MutationClass ov = Classify (effOf A a) (Some ov)"
    and exp: "MutationClass ov \<noteq> ClassA \<Longrightarrow> ExpiresAt ov \<noteq> None"
  shows "soloStep (aDec A) x a (fst (submitOverlay A body x ov a))"
proof -
  have emit: "soloStep (aDec A) x a (emitOperator A i g a)" for i g by (simp add: soloStep_same)
  have "soloStep (aDec A) x a a2"
    if "MutationClass ov = ClassA" "applyOverlayCAS A ov pa rq [] (emitOperator A i g a) = (a2, e)" for pa rq i g a2 e
    using soloStep_trans [OF emit soloStep_applyCAS [OF codec, of "emitOperator A i g a" ov "aDec A" x pa rq]] cls that
    by simp
  moreover have "soloStep (aDec A) x a (emitOperator A (OpID x) f a2)"
    if "requestApproval A ''settings.overlay'' m (OpID x) RoleApprover (emitOperator A i g a) = (a2, q)"
      and "m ''body'' = Some (patched (aEnc A ov) [])" and "MutationClass ov \<noteq> ClassA" for f m i g a2 q
    by (rule soloStep_trans [OF emit soloStep_request [OF assms(2) _ that(1)]])
      (rule wfPending_overlay [where m = m, OF codec exp [OF that(3)] that(2)])
  ultimately show ?thesis
    by (auto simp: submitOverlay_def Let_def split: prod.splits option.splits)
qed

lemma soloStep_propose:
  assumes "codecOK (aEnc A) (aDec A)" and "canOperate x"
  shows "soloStep (aDec A) x a (fst (adminSettingsPropose A raw x a))"
proof -
  obtain a1 eff where f: "settingsEffectiveFresh A a = (a1, eff)" by fastforce
  then have a1: "soloStep (aDec A) x a a1" "eff = effOf A a1"
    by (auto intro: soloStep_fresh simp: settingsEffectiveFresh_def Let_def)
  have "soloStep (aDec A) x a (fst (submitOverlay A body x (ov\<lparr>MutationClass := Classify eff (Some ov), ExpiresAt := t\<rparr>) a1))"
    if "expiryForClass (Classify eff (Some ov)) n now = Inr t" for body ov t n now
    by (rule soloStep_trans [OF a1(1) soloStep_submit [OF assms]])
      (use that expiryForClass_some in \<open>simp_all add: a1(2)\<close>)
  then show ?thesis
    using a1(1) f by (auto simp: adminSettingsPropose_def Let_def split: option.splits sum.splits)
qed

lemma soloStep_rollback:
  assumes "canOperate x"
  shows "soloStep (aDec A) x a (fst (adminSettingsRollback A raw x a))"
proof -
  obtain a1 eff where f: "settingsEffectiveFresh A a = (a1, eff)" by fastforce
  then have a1: "soloStep (aDec A) x a a1" by (rule soloStep_fresh)
  have "soloStep (aDec A) x a (emitOperator A (OpID x) g a2)"
    if "requestApproval A ''settings.overlay.rollback'' m (OpID x) RoleApprover a1 = (a2, q)" for g m a2 q
    by (rule soloStep_trans [OF a1 soloStep_requestI [OF that assms]]) simp_all
  moreover have "soloStep (aDec A) x a a2" if "clearOverlayCAS A pa rq ap a1 = (a2, e)" for pa rq ap a2 e
    using soloStep_trans [OF a1 soloStep_clearCAS [of "aDec A" x a1 A pa rq ap]] that by simp
  ultimately show ?thesis
    using a1 f by (auto simp: adminSettingsRollback_def split: option.splits prod.splits)
qed

lemma soloStep_dryRun: "soloStep dec x a (fst (adminSettingsDryRun A raw p a))"
proof -
  obtain a1 eff where f: "settingsEffectiveFresh A a = (a1, eff)" by fastforce
  then have a1: "soloStep dec x a a1" by (rule soloStep_fresh)
  then have "soloStep dec x a (emitOperator A i g a1)" for i g by (rule soloStep_core [rotated]) simp
  then show ?thesis using a1 f by (auto simp: adminSettingsDryRun_def split: option.splits)
qed

lemma soloStep_overlaysList: "soloStep dec x a (fst (adminSettingsOverlaysList A a))"
  using soloStep_fresh [of A a] by (auto simp: adminSettingsOverlaysList_def Let_def split: prod.splits)

section \<open>Bans\<close>

lemma mulSecond_exact: "0 \<le> sec \<Longrightarrow> sec < maxBanDurationSec \<Longrightarrow> mulSecond sec = sec * 1000000000"
  by (simp add: mulSecond_def maxBanDurationSec_def)

lemma banAt_emitOperator [simp]: "banAt (emitOperator A i f a) = banAt a"
  using core_emitOperator [of A i f a] by (simp add: core_def)

lemma commitBan_core:
  assumes "commitBan A key reason inc dur rq ap a = (a', x)" and "bansOf (srv a) = Some b"
  obtains b' e psn where "x = Some e" "Add b key reason psn inc dur (aClock A AtBan) = (b', e)"
    "core a' = core (a\<lparr>srv := (srv a)\<lparr>bansOf := Some b'\<rparr>\<rparr>)"
proof -
  obtain w psn where p: "pseudonym (aGate A) (srv a) rq rq = ((srv a)\<lparr>vaultOf := w\<rparr>, psn)"
    using adm_pseudonym_frame [of "aGate A" "srv a" rq rq] by (metis prod.collapse)
  obtain b' e where ad: "Add b key reason psn inc dur (aClock A AtBan) = (b', e)" by fastforce
  have "core (a\<lparr>srv := (srv a)\<lparr>vaultOf := w, bansOf := Some b'\<rparr>\<rparr>) = core (a\<lparr>srv := (srv a)\<lparr>bansOf := Some b'\<rparr>\<rparr>)"
    by (simp add: core_def banAt_def fun_eq_iff)
  then show thesis using assms p ad that [of e psn b'] by (auto simp: commitBan_def)
qed

lemma commitBan_banAt:
  assumes "commitBan A key reason inc dur rq ap a = (a', x)"
  shows "banAt a' k = (if k = key then (if bansOf (srv a) = None then None else x) else banAt a k)"
proof (cases "bansOf (srv a)")
  case (Some b)
  then obtain b' e psn where e: "x = Some e" "Add b key reason psn inc dur (aClock A AtBan) = (b', e)"
    "core a' = core (a\<lparr>srv := (srv a)\<lparr>bansOf := Some b'\<rparr>\<rparr>)"
    using commitBan_core [OF assms] by metis
  then have "banAt a' = bans b'" by (simp add: core_def banAt_def fun_eq_iff)
  then show ?thesis using e(1,2) Some bans_applyLocked [of b key reason "''manual''" psn inc dur 0 "aClock A AtBan" k]
    by (simp add: Add_def banAt_def)
qed (use assms in \<open>simp add: commitBan_def banAt_def\<close>)

lemma commitBan_frame:
  assumes "commitBan A key reason inc dur rq ap a = (a', x)"
  shows "approvals a' = approvals a" "shreds a' = shreds a" "settingsStore a' = settingsStore a"
    "killSwitch (srv a') = killSwitch (srv a)" "viewOK a' = viewOK a" "auth a' = auth a"
proof -
  have "\<exists>b'. core a' = core (a\<lparr>srv := (srv a)\<lparr>bansOf := b'\<rparr>\<rparr>)"
  proof (cases "bansOf (srv a)")
    case None
    then have "a' = a" using assms by (simp add: commitBan_def)
    then have "core a' = core (a\<lparr>srv := (srv a)\<lparr>bansOf := bansOf (srv a)\<rparr>\<rparr>)" by simp
    then show ?thesis ..
  qed (use commitBan_core [OF assms] in metis)
  then show "approvals a' = approvals a" "shreds a' = shreds a" "settingsStore a' = settingsStore a"
    "killSwitch (srv a') = killSwitch (srv a)" "viewOK a' = viewOK a" "auth a' = auth a"
    by (auto simp: core_def viewOK_def)
qed

lemma commitBan_entry:
  assumes "commitBan A key reason inc dur rq ap a = (a', Some e)"
  shows "BKey e = key \<and> BSource e = ''manual'' \<and> BCreated e = aClock A AtBan
    \<and> BUntil e = (if 0 < dur then aClock A AtBan + dur else zeroTime)"
  using assms by (auto simp: commitBan_def Add_def applyLocked_def Let_def split: option.splits prod.splits)

lemma soloStep_commitBan:
  assumes "\<not> isBroadKey key" and "0 < sec" and "sec < maxBanDurationSec" and "0 \<le> aClock A AtBan"
    and "commitBan A key reason inc (mulSecond sec) rq ap a = (a', e)"
  shows "soloStep dec x a a'"
proof (rule soloStepI)
  have dur: "mulSecond sec = sec * 1000000000" using assms(2,3) by (simp add: mulSecond_exact)
  have "soloBan key en" if "e = Some en" for en
    using commitBan_entry [of A key reason inc _ rq ap a a' en] assms that
    by (auto simp: soloBan_def Permanent_def dur zeroTime_def maxBanDurationSec_def)
  then show "banAt a k = Some en \<or> soloBan k en" if "banAt a' k = Some en" "BSource en = ''manual''" for k en
    using commitBan_banAt [OF assms(5), of k] that by (auto split: if_splits option.splits)
qed (simp_all add: commitBan_frame [OF assms(5)])

lemma soloStep_bulk:
  assumes "0 < kbDurationSec q" and "kbDurationSec q < maxBanDurationSec" and "0 \<le> aClock A AtBan"
  shows "soloStep dec x a (fst (bulkLoop A q p ks a m n))"
proof (induction ks arbitrary: a m n)
  case (Cons k ks)
  obtain a1 e where c: "commitBan A k (kbReason q) ''bulk'' (mulSecond (kbDurationSec q)) (OpID p) [] a = (a1, e)"
    by fastforce
  have "soloStep dec x a a1" if "\<not> isBroadKey k" by (rule soloStep_commitBan [OF that assms c])
  then show ?case using Cons.IH c by (auto intro: soloStep_trans)
qed simp

lemma soloStep_bulkBan:
  assumes "0 \<le> aClock A AtBan"
  shows "soloStep dec x a (fst (adminBulkBan A raw p a))"
proof -
  have "soloStep dec x a a1"
    if "bulkLoop A q p ks a 0 0 = (a1, m, n)" "0 < kbDurationSec q" "kbDurationSec q < maxBanDurationSec" for q ks a1 m n
    using soloStep_bulk [OF that(2,3) assms, of dec x a p ks 0 0] that(1) by simp
  then show ?thesis by (auto simp: adminBulkBan_def not_le split: option.splits prod.splits)
qed

lemma soloStep_addBan:
  assumes "0 \<le> aClock A AtBan" and "canOperate x"
  shows "soloStep dec x a (fst (adminAddBan A raw x a))"
proof -
  have "soloStep dec x a a1"
    if "commitBan A k r i (mulSecond sec) rq ap a = (a1, e)" "\<not> isBroadKey k" "0 < sec" "sec < maxBanDurationSec" for k r i sec rq ap a1 e
    by (rule soloStep_commitBan [OF that(2-4) assms(1) that(1)])
  then show ?thesis
    using assms(2) by (auto simp: adminAddBan_def not_le split: option.splits prod.splits intro: soloStep_requestI)
qed

lemma soloStep_lift: "soloStep dec x a (fst (adminLiftBan A key p a))"
proof -
  have "soloStep dec x a (a\<lparr>srv := (srv a)\<lparr>bansOf := Some b'\<rparr>\<rparr>)"
    if "bansOf (srv a) = Some b" "Lift b key = (b', l)" for b b' l
    by (rule soloStepI) (use that in \<open>auto simp: banAt_def Lift_def viewOK_def split: if_splits\<close>)
  then have "soloStep dec x a (emitOperator A i f (a\<lparr>srv := (srv a)\<lparr>bansOf := Some b'\<rparr>\<rparr>))"
    if "bansOf (srv a) = Some b" "Lift b key = (b', l)" for b b' l i f
    using that by (blast intro: soloStep_core [OF core_emitOperator])
  then show ?thesis by (auto simp: adminLiftBan_def split: option.splits prod.splits)
qed

lemma sweepBans_keeps: "sweepBans m now k = Some e \<Longrightarrow> m k = Some e"
  by (auto simp: sweepBans_def split: option.splits if_splits)

lemma soloStep_listBans: "soloStep dec x a (fst (adminListBans A a))"
proof -
  have "soloStep dec x a (a\<lparr>srv := (srv a)\<lparr>bansOf := Some b'\<rparr>\<rparr>)"
    if "bansOf (srv a) = Some b" "BanList b t ks = (b', es)" for b b' es t ks
    by (rule soloStepI) (use that sweepBans_keeps in \<open>fastforce simp: banAt_def BanList_def viewOK_def\<close>)+
  then show ?thesis by (auto simp: adminListBans_def split: option.splits prod.splits)
qed

section \<open>Dispatch\<close>

lemma soloStep_killSwitch: "canOperate x \<Longrightarrow> soloStep dec x a (fst (adminKillSwitch A raw x a))"
  by (auto simp: adminKillSwitch_def split: option.splits prod.splits intro: soloStep_requestI)

lemma soloStep_erasure: "canOperate x \<Longrightarrow> soloStep dec x a (fst (adminErasure A raw x a))"
  by (auto simp: adminErasure_def split: option.splits prod.splits intro: soloStep_requestI)

lemma soloStep_cancel: "soloStep dec x a (fst (adminCancelErasure A i p a))"
proof -
  have "soloStep dec x a (a\<lparr>shreds := q\<rparr>)" if "Cancel (shreds a) i = (q, e)" for q e
    by (rule soloStepI) (use that in \<open>auto simp: Cancel_def ListShreds_def banAt_def viewOK_def\<close>)
  then have "soloStep dec x a (emitOperator A j f (a\<lparr>shreds := q\<rparr>))" "soloStep dec x a (a\<lparr>shreds := q\<rparr>)"
    if "Cancel (shreds a) i = (q, e)" for q e j f
    using that by (blast intro: soloStep_core [OF core_emitOperator])+
  then show ?thesis by (auto simp: adminCancelErasure_def split: option.splits prod.splits)
qed

lemma soloStep_listApprovals: "soloStep dec x a (fst (adminListApprovals A a))"
proof -
  have "soloStep dec x a (a\<lparr>approvals := st\<rparr>)" if "PendingList (approvals a) t ks = (st, ps)" for t ks st ps
  proof (rule soloStepI)
    show "pending (approvals a) i = Some q \<or> newPending dec x i q"
      if "pending (approvals (a\<lparr>approvals := st\<rparr>)) i = Some q" for i q
    proof -
      have "st = gcLocked (approvals a) t" using \<open>PendingList (approvals a) t ks = (st, ps)\<close> by (simp add: PendingList_def)
      then show ?thesis using that gcLocked_keeps [of "approvals a" t i q] by simp
    qed
  qed (simp_all add: banAt_def viewOK_def)
  then show ?thesis by (auto simp: adminListApprovals_def split: prod.splits)
qed

lemma soloStep_incident: "soloStep dec x a (fst (adminIncident A h p a))"
  by (auto simp: adminIncident_def Let_def split: prod.splits option.splits intro: soloStep_same)

lemma soloStep_audit: "soloStep dec x a (fst (adminAudit A q a))"
  by (simp add: adminAudit_def split: prod.splits)

lemmas soloStep_handlers = soloStep_propose soloStep_rollback soloStep_dryRun soloStep_overlaysList soloStep_addBan
  soloStep_bulkBan soloStep_lift soloStep_listBans soloStep_killSwitch soloStep_erasure soloStep_cancel
  soloStep_listApprovals soloStep_incident soloStep_audit

text \<open>Every handler but the approval, run by an operator with the capability its row of the table asks for.\<close>

definition mutates :: "admin_handler \<Rightarrow> bool" where
  "mutates h \<longleftrightarrow> h \<in> {HPropose, HRollback, HDryRun, HAddBan, HBulkBan, HLiftBan, HErasure, HKillSwitch, HCancelErasure}"

lemma runHandler_solo:
  assumes "codecOK (aEnc A) (aDec A)" and "0 \<le> aClock A AtBan" and "h \<noteq> HApprove" and "mutates h \<Longrightarrow> canOperate x"
  shows "soloStep (aDec A) x a (fst (runHandler A h r x arg a))"
  using assms
  by (cases h) (auto simp: mutates_def adminListErasures_def soloStep_handlers split: prod.splits intro: soloStep_fresh)

lemma adminRoutes_rows:
  "(m, pm, cap, h) \<in> set adminRoutes \<Longrightarrow>
     (mutates h \<longrightarrow> cap = CanOperate)
     \<and> (h = HApprove \<longrightarrow> m = ''POST'' \<and> pm = Prefix ''approvals/'' \<and> cap = CanApprove)"
  by (auto simp: adminRoutes_def mutates_def)

lemma dispatch_cases:
  obtains (none) "fst (dispatch A rts r x a) = a"
  | (row) m pm cap h arg where "(m, pm, cap, h) \<in> set rts" "arMethod r = m" "matchPath pm (arSub r) = Some arg"
      "allows cap x" "dispatch A rts r x a = runHandler A h r x arg a"
proof (induction rts arbitrary: thesis)
  case (Cons rt rts)
  obtain m pm cap h where rt: "rt = (m, pm, cap, h)" by (cases rt)
  consider "arMethod r \<noteq> m" | "matchPath pm (arSub r) = None"
    | arg where "arMethod r = m" "matchPath pm (arSub r) = Some arg" by fastforce
  then show ?case
  proof cases
    case (3 arg)
    show ?thesis
    proof (cases "allows cap x")
      case True
      then show ?thesis using 3 by (intro Cons.prems(2) [of m pm cap h arg]) (simp_all add: rt)
    next
      case False
      then show ?thesis using 3 by (intro Cons.prems(1)) (simp add: rt)
    qed
  next
    case 1
    then have "dispatch A (rt # rts) r x a = dispatch A rts r x a" by (simp add: rt)
    then show ?thesis using Cons.IH Cons.prems by (metis list.set_intros(2))
  next
    case 2
    then have "dispatch A (rt # rts) r x a = dispatch A rts r x a" by (simp add: rt)
    then show ?thesis using Cons.IH Cons.prems by (metis list.set_intros(2))
  qed
qed simp

lemma matchPath_Prefix: "matchPath (Prefix p) sub = Some arg \<Longrightarrow> sub = p @ arg"
  by (auto simp: trimPrefix_def hasPrefix_def split: if_splits) (metis append_take_drop_id)

text \<open>What a request to the admin plane does: a step of one operator, or an approval.\<close>

lemma handleAdmin_cases [consumes 2]:
  assumes "codecOK (aEnc A) (aDec A)" and "0 \<le> aClock A AtBan"
  obtains (anon) "core (fst (handleAdmin A r a)) = core a"
  | (solo) x where "Authenticate (auth a) (arAuthorization r) = Some x" "soloStep (aDec A) x a (fst (handleAdmin A r a))"
  | (approve) x i a1 where "Authenticate (auth a) (arAuthorization r) = Some x" "canApprove x" "arMethod r = ''POST''"
      "arSub r = ''approvals/'' @ i" "core a1 = core a" "handleAdmin A r a = adminApprove A i x a1"
proof (cases "arSub r = [] \<or> arSub r = ''console'' \<or> Authenticate (auth a) (arAuthorization r) = None")
  case True
  then show thesis by (intro anon) (auto simp: handleAdmin_def split: option.splits)
next
  case False
  then obtain x where x: "Authenticate (auth a) (arAuthorization r) = Some x" by blast
  obtain f where d: "handleAdmin A r a = dispatch A adminRoutes r x (emitOperator A (OpID x) f a)"
    using False x by (auto simp: handleAdmin_def)
  let ?a1 = "emitOperator A (OpID x) f a"
  show thesis
  proof (cases rule: dispatch_cases [of A adminRoutes r x ?a1])
    case none
    then show thesis using d anon by simp
  next
    case (row m pm cap h arg)
    show thesis
    proof (cases "h = HApprove")
      case True
      then have pm: "m = ''POST''" "pm = Prefix ''approvals/''" "cap = CanApprove" using adminRoutes_rows [OF row(1)] by simp_all
      have sub: "arSub r = ''approvals/'' @ arg" by (rule matchPath_Prefix [OF row(3) [unfolded pm(2)]])
      have "canApprove x" using row(4) pm(3) by simp
      moreover have "arMethod r = ''POST''" using row(2) pm(1) by simp
      moreover have "handleAdmin A r a = adminApprove A arg x ?a1" unfolding d row(5) True by (rule runHandler.simps)
      ultimately show thesis by (intro approve [OF x _ _ sub core_emitOperator])
    next
      case False
      have "soloStep (aDec A) x ?a1 (fst (runHandler A h r x arg ?a1))"
      proof (rule runHandler_solo [OF assms False])
        show "canOperate x" if "mutates h" using adminRoutes_rows [OF row(1)] row(4) that by simp
      qed
      then show thesis
        using solo [OF x] d row(5) soloStep_trans [OF soloStep_same [OF core_emitOperator]] by metis
    qed
  qed
qed

section \<open>Approvals\<close>

text \<open>An entry of the history is an environment, a request and the state in which it was handled.\<close>

type_synonym ('sk, 'l, 'v) adm_event = "('sk, 'l, 'v) admin_env \<times> admin_request \<times> ('l, 'v) admin"

text \<open>The action was created by an authenticated operator, who is recorded as its requester.\<close>

definition requested :: "('sk, 'l, 'v) adm_event list \<Rightarrow> pending_action \<Rightarrow> bool" where
  "requested h p \<longleftrightarrow>
     (\<exists>(A, r, a) \<in> set h. \<exists>x. Authenticate (auth a) (arAuthorization r) = Some x \<and> canOperate x
        \<and> OpID x = pending_action.Requester p \<and> pending (approvals (fst (handleAdmin A r a))) (PID p) = Some p)"

text \<open>The action was approved by an authenticated operator on the approval route.\<close>

definition granted :: "('sk, 'l, 'v) adm_event list \<Rightarrow> pending_action \<Rightarrow> operator \<Rightarrow> bool" where
  "granted h p y \<longleftrightarrow>
     (\<exists>(A, r, a) \<in> set h. Authenticate (auth a) (arAuthorization r) = Some y \<and> canApprove y
        \<and> arMethod r = ''POST'' \<and> arSub r = ''approvals/'' @ PID p
        \<and> (\<exists>tk. snd (Approve (gP (aGate A)) (approvals a) (PID p) y (aClock A AtApprove)) = Inr (p, tk)))"

definition dual :: "('sk, 'l, 'v) adm_event list \<Rightarrow> pending_action \<Rightarrow> operator \<Rightarrow> bool" where
  "dual h p y \<longleftrightarrow> requested h p \<and> granted h p y \<and> OpID y \<noteq> pending_action.Requester p
     \<and> hasRole (OpRole y) (NeedsRole p)"

definition banInv :: "('sk, 'l, 'v) adm_event list \<Rightarrow> (string \<rightharpoonup> ban_entry) \<Rightarrow> bool" where
  "banInv h m \<longleftrightarrow>
     (\<forall>k e. m k = Some e \<and> BSource e = ''manual'' \<longrightarrow>
        soloBan k e \<or> (\<exists>p y. dual h p y \<and> PKind p = ''ban'' \<and> param p ''key'' = k))"

definition killInv :: "('sk, 'l, 'v) adm_event list \<Rightarrow> bool \<Rightarrow> bool" where
  "killInv h on \<longleftrightarrow> (on \<longrightarrow> (\<exists>p y. dual h p y \<and> PKind p = ''killswitch'' \<and> param p ''on'' = ''true''))"

definition shredInv :: "('sk, 'l, 'v) adm_event list \<Rightarrow> shred_queue \<Rightarrow> bool" where
  "shredInv h q \<longleftrightarrow>
     (\<forall>e \<in> set (ListShreds q). \<exists>p y. dual h p y \<and> PKind p = ''erasure'' \<and> OpRole y = RoleDPO
        \<and> param p ''subject'' = Subject e \<and> Approver e = OpID y)"

definition overlayInv :: "('sk, 'l, 'v) adm_event list \<Rightarrow> file_store option \<Rightarrow> bool" where
  "overlayInv h s \<longleftrightarrow>
     (\<forall>st. s = Some st \<longrightarrow> storeOK st
        \<and> (\<forall>v. fsActive st = Some v \<longrightarrow>
             soloOverlay v \<or> (\<exists>p y. dual h p y \<and> PKind p = ''settings.overlay'' \<and> ApprovedBy v = OpID y \<and> ExpiresAt v \<noteq> None)))"

definition pendingInv :: "(bytes \<Rightarrow> overlay option) \<Rightarrow> ('sk, 'l, 'v) adm_event list \<Rightarrow> (string \<rightharpoonup> pending_action) \<Rightarrow> bool" where
  "pendingInv dec h m \<longleftrightarrow> (\<forall>i p. m i = Some p \<longrightarrow> PID p = i \<and> requested h p \<and> wfPending dec p)"

definition admInv :: "(bytes \<Rightarrow> overlay option) \<Rightarrow> ('sk, 'l, 'v) adm_event list \<Rightarrow> ('l, 'v) admin \<Rightarrow> bool" where
  "admInv dec h a \<longleftrightarrow> pendingInv dec h (pending (approvals a)) \<and> banInv h (banAt a) \<and> killInv h (killSwitch (srv a))
     \<and> shredInv h (shreds a) \<and> overlayInv h (settingsStore a) \<and> viewOK a"

lemmas admInv_defs = pendingInv_def banInv_def killInv_def shredInv_def overlayInv_def

lemma admInv_core: "core a = core a' \<Longrightarrow> admInv dec h a = admInv dec h a'"
  by (simp add: admInv_def core_def viewOK_def)

lemma requested_mono: "set h \<subseteq> set h' \<Longrightarrow> requested h p \<Longrightarrow> requested h' p"
  unfolding requested_def by blast

lemma dual_mono: "set h \<subseteq> set h' \<Longrightarrow> dual h p y \<Longrightarrow> dual h' p y"
  unfolding dual_def granted_def using requested_mono [of h h' p] by blast

lemma admInv_mono:
  assumes "admInv dec h a" and "set h \<subseteq> set h'"
  shows "admInv dec h' a"
  using assms(1) requested_mono [OF assms(2)] dual_mono [OF assms(2)] unfolding admInv_def admInv_defs by meson

text \<open>A step of one operator keeps the invariant; what it creates is requested by this operator.\<close>

lemma admInv_solo:
  assumes inv: "admInv dec h a" and step: "soloStep dec x a a'"
    and new: "\<And>i q. pending (approvals a') i = Some q \<Longrightarrow> newPending dec x i q \<Longrightarrow> requested h q"
  shows "admInv dec h a'"
proof -
  have "pendingInv dec h (pending (approvals a'))"
    using soloStepD(1) [OF step] inv new unfolding admInv_def pendingInv_def newPending_def by meson
  moreover have "banInv h (banAt a')"
    using soloStepD(4) [OF step] inv unfolding admInv_def banInv_def by blast
  moreover have "killInv h (killSwitch (srv a'))" using soloStepD(2) [OF step] inv by (simp add: admInv_def)
  moreover have "shredInv h (shreds a')" using soloStepD(3) [OF step] inv unfolding admInv_def shredInv_def by blast
  moreover have "overlayInv h (settingsStore a')"
    using soloStepD(5) [OF step] inv unfolding admInv_def overlayInv_def storeStep_def by meson
  moreover have "viewOK a'" using soloStepD(6) [OF step] inv by (simp add: admInv_def)
  ultimately show ?thesis by (simp add: admInv_def)
qed

lemma admInv_solo_same:
  assumes "admInv dec h a" and "soloStep dec x a a'" and "approvals a' = approvals a"
  shows "admInv dec h a'"
  by (rule admInv_solo [OF assms(1,2)]) (use assms(1,3) in \<open>auto simp: admInv_def pendingInv_def\<close>)

lemma admInv_shrink:
  assumes "admInv dec h a" and "\<And>i p. pending st i = Some p \<Longrightarrow> pending (approvals a) i = Some p"
  shows "admInv dec h (a\<lparr>approvals := st\<rparr>)"
  using assms by (auto simp: admInv_def pendingInv_def viewOK_def)

lemma admInv_commitBan:
  assumes "admInv dec h a" and "dual h p y" and "PKind p = ''ban''"
    and "commitBan A (param p ''key'') reason inc dur rq ap a = (a', e)"
  shows "admInv dec h a'"
proof -
  have "banInv h (banAt a')"
    using assms(1-3) commitBan_banAt [OF assms(4)] unfolding admInv_def banInv_def by (metis (lifting) option.distinct(1))
  then show ?thesis using assms(1) commitBan_frame [OF assms(4)] by (simp add: admInv_def)
qed

lemma admInv_commitKill:
  assumes "admInv dec h a" and "dual h p y" and "PKind p = ''killswitch''"
  shows "admInv dec h (fst (commitKillSwitch A p y a))"
proof -
  have "admInv dec h (a\<lparr>srv := SetKillSwitch (srv a) (param p ''on'' = ''true'')\<rparr>)"
    using assms by (auto simp: admInv_def killInv_def SetKillSwitch_def viewOK_def)
  then show ?thesis
    by (simp add: commitKillSwitch_def Let_def admInv_core [OF core_emitOperator])
qed

lemma hasRole_DPO: "hasRole x RoleDPO \<longleftrightarrow> x = RoleDPO"
  by (auto simp: hasRole_def role_defs)

lemma admInv_commitErasure:
  assumes "admInv dec h a" and "dual h p y" and "PKind p = ''erasure''" and "wfPending dec p"
  shows "admInv dec h (fst (commitErasure A p y a))"
proof -
  obtain q e where q: "Schedule (shreds a) (aClock A AtSchedule) (aShredID A) (param p ''subject'')
      (pending_action.Requester p) (OpID y) (param p ''legalBasis'') = (q, e)" by fastforce
  have dpo: "OpRole y = RoleDPO" using assms(2-4) by (simp add: dual_def wfPending_def hasRole_DPO)
  have "set (ListShreds q) \<subseteq> insert e (set (ListShreds (shreds a)))" "Subject e = param p ''subject''" "Approver e = OpID y"
    using q by (auto simp: Schedule_def Let_def ListShreds_def)
  moreover have "shredInv h (shreds a)" using assms(1) by (simp add: admInv_def)
  ultimately have "shredInv h q" using assms(2,3) dpo unfolding shredInv_def by fastforce
  then have "admInv dec h (a\<lparr>shreds := q\<rparr>)" using assms(1) by (simp add: admInv_def viewOK_def)
  then show ?thesis using q by (simp add: commitErasure_def admInv_core [OF core_emitOperator])
qed

lemma admInv_store:
  assumes inv: "admInv dec h a" and codec: "codecOK (aEnc A) (aDec A)"
    and new: "dual h p y" "PKind p = ''settings.overlay''" "ApprovedBy v = OpID y" "ExpiresAt v \<noteq> None"
  shows "admInv dec h (fst (storeActive A (Some v) a))"
proof -
  have "overlayInv h (settingsStore (fst (storeActive A (Some v) a)))"
    using storeActive_Some [OF codec, of v a]
  proof
    assume "settingsStore (fst (storeActive A (Some v) a)) = settingsStore a"
    then show ?thesis using inv by (simp add: admInv_def)
  next
    assume "\<exists>st st'. settingsStore a = Some st \<and> settingsStore (fst (storeActive A (Some v) a)) = Some st'
         \<and> fsActive st' = Some (v\<lparr>OStatus := ''active''\<rparr>) \<and> Validate (Some v) = None"
    then show ?thesis using new by (auto simp: overlayInv_def storeOK_def)
  qed
  then show ?thesis using inv storeActive_view [of a A "Some v"] by (simp add: admInv_def)
qed

lemma admInv_commitOverlay:
  assumes inv: "admInv (aDec A) h a" and codec: "codecOK (aEnc A) (aDec A)"
    and new: "dual h p y" "PKind p = ''settings.overlay''" "wfPending (aDec A) p"
  shows "admInv (aDec A) h (fst (commitSettingsOverlay A p y a))"
proof -
  have "admInv (aDec A) h (fst (applyOverlayCAS A ov pa rq (OpID y) a))"
    if "aDec A (param p ''body'') = Some ov" "param p ''body'' \<noteq> []" for ov pa rq
    using applyOverlayCAS_core [of A ov pa rq "OpID y" a]
  proof
    have "ExpiresAt ov \<noteq> None" using new(2,3) that by (auto simp: wfPending_def)
    then have set: "admInv (aDec A) h (fst (storeActive A (Some (ov\<lparr>MutationClass := Classify (effOf A a) (Some ov),
        OStatus := ''active'', ApprovedBy := OpID y\<rparr>)) a))"
      by (intro admInv_store [OF inv codec new(1,2)]) simp_all
    assume "core (fst (applyOverlayCAS A ov pa rq (OpID y) a)) = core (fst (storeActive A (Some (ov\<lparr>MutationClass :=
        Classify (effOf A a) (Some ov), OStatus := ''active'', ApprovedBy := OpID y\<rparr>)) a))"
    from admInv_core [OF this] show ?thesis using set by blast
  qed (use inv admInv_core in blast)
  then show ?thesis using inv by (auto simp: commitSettingsOverlay_def split: option.splits)
qed

lemma approvals_clear [simp]: "approvals (fst (clearOverlayCAS A pa rq ap a)) = approvals a"
  using clearOverlayCAS_core [of A pa rq ap a] by (auto simp: core_def)

lemma admInv_commit:
  assumes inv: "admInv (aDec A) h a" and "codecOK (aEnc A) (aDec A)" and "dual h p y" and "wfPending (aDec A) p"
  shows "admInv (aDec A) h (fst (commitAction A p y a))"
proof -
  have fst_reply: "fst (settingsReply A k ex r) = fst r" for k ex r
    by (simp add: settingsReply_def split: prod.splits option.splits)
  have clear: "admInv (aDec A) h (fst (clearOverlayCAS A pa rq ap a))" for pa rq ap
    by (rule admInv_solo_same [OF inv soloStep_clearCAS]) simp
  consider "PKind p = ''ban''" | "PKind p = ''erasure''" | "PKind p = ''killswitch''" | "PKind p = ''settings.overlay''"
    | "PKind p \<notin> {''ban'', ''erasure'', ''killswitch'', ''settings.overlay''}" by blast
  then show ?thesis
  proof cases
    case 1
    then show ?thesis
      using admInv_commitBan [OF inv assms(3) 1] by (auto simp: commitAction_def split: prod.splits)
  next
    case 2
    then show ?thesis using admInv_commitErasure [OF inv assms(3) 2 assms(4)] by (simp add: commitAction_def)
  next
    case 3
    then show ?thesis using admInv_commitKill [OF inv assms(3) 3] by (simp add: commitAction_def)
  next
    case 4
    then show ?thesis using admInv_commitOverlay [OF inv assms(2,3) 4 assms(4)] by (simp add: commitAction_def fst_reply)
  next
    case 5
    then show ?thesis using clear inv by (simp add: commitAction_def fst_reply)
  qed
qed

lemma Approve_shrink:
  "Approve P s i y t = (s', x) \<Longrightarrow> pending s' j = Some p \<Longrightarrow> pending s j = Some p"
  by (auto simp: Approve_def split: option.splits if_splits)

lemma Approve_granted:
  "Approve P s i y t = (s', Inr (p, tk)) \<Longrightarrow>
     pending s i = Some p \<and> OpID y \<noteq> pending_action.Requester p \<and> hasRole (OpRole y) (NeedsRole p)"
  by (auto simp: Approve_def split: option.splits if_splits)

lemma admInv_approve:
  assumes inv: "admInv (aDec A) h a" and codec: "codecOK (aEnc A) (aDec A)"
    and x: "Authenticate (auth a) (arAuthorization r) = Some y" "canApprove y" "arMethod r = ''POST''"
    and sub: "arSub r = ''approvals/'' @ i" and a1: "core a1 = core a"
  shows "admInv (aDec A) (h @ [(A, r, a)]) (fst (adminApprove A i y a1))"
proof -
  let ?h = "h @ [(A, r, a)]"
  obtain st res where ap: "Approve (gP (aGate A)) (approvals a) i y (aClock A AtApprove) = (st, res)" by fastforce
  have same: "approvals a1 = approvals a" using a1 by (simp add: core_def)
  have inv1: "admInv (aDec A) ?h a1" using admInv_mono [OF inv, of ?h] admInv_core [OF a1] by auto
  then have inv2: "admInv (aDec A) ?h (a1\<lparr>approvals := st\<rparr>)"
    by (rule admInv_shrink) (use Approve_shrink [OF ap] same in simp)
  show ?thesis
  proof (cases res)
    case (Inl e)
    then show ?thesis using ap inv2 same by (simp add: adminApprove_def)
  next
    case (Inr pt)
    obtain p tk where p: "res = Inr (p, tk)" using Inr by (cases pt) simp
    have g: "pending (approvals a) i = Some p" "OpID y \<noteq> pending_action.Requester p" "hasRole (OpRole y) (NeedsRole p)"
      using Approve_granted [OF ap [unfolded p]] by simp_all
    then have pp: "PID p = i" "requested h p" "wfPending (aDec A) p" using inv by (auto simp: admInv_def pendingInv_def)
    have "granted ?h p y" unfolding granted_def using x sub pp(1) ap p by force
    then have dual: "dual ?h p y" using requested_mono [of h ?h p] pp(2) g(2,3) by (auto simp: dual_def)
    have "admInv (aDec A) ?h (fst (commitAction A p y (emitOperator A (OpID y) f (a1\<lparr>approvals := st\<rparr>))))" for f
      by (rule admInv_commit [OF _ codec dual pp(3)]) (simp add: inv2 admInv_core [OF core_emitOperator])
    then show ?thesis using ap p inv2 same by (simp add: adminApprove_def Let_def)
  qed
qed

section \<open>Runs\<close>

text \<open>
  A start: nothing pending, scheduled, banned or overlaid, and the kill switch off. Steps: an admin request;
  a decision of the ban gate (any operation of the ban store that is not an operator's); garbage collection;
  the execution of due erasures. The codec is that of the overlays; the clock is after 1970.
\<close>

definition freshAdmin :: "('l, 'v) admin \<Rightarrow> bool" where
  "freshAdmin a \<longleftrightarrow> pending (approvals a) = Map.empty \<and> ListShreds (shreds a) = [] \<and> \<not> killSwitch (srv a)
     \<and> banAt a = Map.empty \<and> (\<forall>st. settingsStore a = Some st \<longrightarrow> fsActive st = None) \<and> viewOK a"

fun isOperatorOp :: "ban_op \<Rightarrow> bool" where
  "isOperatorOp (OpAdd k r who i d t) = True"
| "isOperatorOp (OpLift k) = True"
| "isOperatorOp _ = False"

inductive admRun ::
  "(overlay \<Rightarrow> bytes option) \<Rightarrow> (bytes \<Rightarrow> overlay option) \<Rightarrow> ('sk, 'l, 'v) adm_event list \<Rightarrow> ('l, 'v) admin \<Rightarrow> bool"
  for enc dec where
  admStart: "freshAdmin a \<Longrightarrow> admRun enc dec [] a"
| admRequest: "admRun enc dec h a \<Longrightarrow> aEnc A = enc \<Longrightarrow> aDec A = dec \<Longrightarrow> 0 \<le> aClock A AtBan \<Longrightarrow>
    admRun enc dec (h @ [(A, r, a)]) (fst (handleAdmin A r a))"
| admTraffic: "admRun enc dec h a \<Longrightarrow> bansOf (srv a) = Some b \<Longrightarrow> \<not> isOperatorOp bop \<Longrightarrow>
    admRun enc dec h (a\<lparr>srv := (srv a)\<lparr>bansOf := Some (applyBanOp ops b bop)\<rparr>\<rparr>)"
| admGC: "admRun enc dec h a \<Longrightarrow> admRun enc dec h (ServerGC (A :: ('sk, 'l, 'v) admin_env) vgc now a)"
| admShred: "admRun enc dec h a \<Longrightarrow> admRun enc dec h (fst (ServerRunDueShreds (A :: ('sk, 'l, 'v) admin_env) rt sz now a))"

lemma admInv_fresh: "freshAdmin a \<Longrightarrow> admInv dec [] a"
  by (auto simp: freshAdmin_def admInv_def admInv_defs storeOK_def Validate_def)

lemma manual_kept:
  assumes "bans (applyBanOp ops b bop) k = Some e" and "\<not> isOperatorOp bop" and "BSource e = ''manual''"
  shows "bans b k = Some e"
proof (cases bop)
  case (OpCheck key t)
  then show ?thesis using assms by (auto simp: Check_def split: option.splits if_splits)
next
  case (OpObserve key t t')
  then show ?thesis using assms
    by (cases rule: BanObserve_cases [of ops b key t' t])
      (auto simp: strikeAndBan_def applyLocked_def Let_def split: if_splits)
qed (use assms sweepBans_keeps in \<open>auto simp: ConfigureRate_def BanGC_def BanList_def\<close>)

lemma admInv_request:
  assumes inv: "admInv (aDec A) h a" and codec: "codecOK (aEnc A) (aDec A)" and "0 \<le> aClock A AtBan"
  shows "admInv (aDec A) (h @ [(A, r, a)]) (fst (handleAdmin A r a))"
proof -
  have inv': "admInv (aDec A) (h @ [(A, r, a)]) a" by (rule admInv_mono [OF inv]) auto
  from codec assms(3) show ?thesis
  proof (cases rule: handleAdmin_cases [where r = r and a = a])
    case anon
    then show ?thesis using inv' admInv_core by blast
  next
    case (solo x)
    show ?thesis
    proof (rule admInv_solo [OF inv' solo(2)])
      fix i q
      assume "pending (approvals (fst (handleAdmin A r a))) i = Some q" and "newPending (aDec A) x i q"
      then show "requested (h @ [(A, r, a)]) q"
        using solo(1) by (auto simp: requested_def newPending_def)
    qed
  next
    case (approve x i a1)
    then show ?thesis using admInv_approve [OF inv codec approve(1-5)] by simp
  qed
qed

lemma soloStep_traffic:
  assumes "bansOf (srv a) = Some b" and "\<not> isOperatorOp bop"
  shows "soloStep dec x a (a\<lparr>srv := (srv a)\<lparr>bansOf := Some (applyBanOp ops b bop)\<rparr>\<rparr>)"
  by (rule soloStepI) (use assms manual_kept in \<open>auto simp: banAt_def viewOK_def\<close>)

lemma soloStep_GC: "soloStep dec x a (ServerGC A vgc now a)"
proof -
  have "soloStep dec x a1 (a1\<lparr>srv := (srv a1)\<lparr>verdicts := v, bansOf := map_option (\<lambda>b. BanGC (aLim A) b now ks) (bansOf (srv a1)),
      sweepOf := sw, anomalyOf := an, credCorr := cc\<rparr>\<rparr>)" for a1 v sw an cc ks
    by (rule soloStepI)
      (use sweepBans_keeps in \<open>auto simp: banAt_def viewOK_def BanGC_def split: option.splits\<close>)
  from soloStep_trans [OF soloStep_expire this] show ?thesis
    by (auto simp: ServerGC_def Let_def)
qed

lemma core_shredLoop: "core (shredLoop A rt sz ds a) = core a"
proof (induction ds arbitrary: a)
  case (Cons d ds)
  have "core (emitErasureCertificate A rt sz e (a\<lparr>srv := (srv a)\<lparr>vaultOf := v\<rparr>\<rparr>)) = core a" for e v
    by (simp add: emitErasureCertificate_def Let_def core_srv)
  then show ?case using Cons.IH by (simp add: Let_def split: prod.splits)
qed simp

lemma soloStep_shreds: "soloStep dec x a (fst (ServerRunDueShreds A rt sz now a))"
proof -
  have "soloStep dec x a (a\<lparr>shreds := q\<rparr>)" if "Due (shreds a) now = (q, due)" for q due
    by (rule soloStepI) (use that in \<open>auto simp: Due_def ListShreds_def viewOK_def\<close>)
  then show ?thesis
    by (auto simp: ServerRunDueShreds_def split: prod.splits intro: soloStep_core [OF core_shredLoop])
qed

lemma admRun_inv:
  assumes "codecOK enc dec" and "admRun enc dec h a"
  shows "admInv dec h a"
  using assms(2)
proof (induction rule: admRun.induct)
  case (admStart a)
  then show ?case by (rule admInv_fresh)
next
  case (admRequest h a A r)
  then show ?case using admInv_request [of A h a r] assms(1) by simp
next
  case (admTraffic h a b bop ops)
  show ?case by (rule admInv_solo_same [OF admTraffic.IH soloStep_traffic [OF admTraffic.hyps(2,3)]]) simp
next
  case (admGC h a A vgc now)
  obtain a1 e where c: "storeActive A None a = (a1, e)" by fastforce
  then have "approvals a1 = approvals a" using storeActive_frame(1) [of A None a] by simp
  then have "approvals (ServerGC A vgc now a) = approvals a"
    by (auto simp: c approvals_core [OF core_emitSystem] approvals_core [OF core_sync] approvals_core [OF core_storeError]
        ServerGC_def Let_def expireActiveOverlayIfNeeded_def split: option.splits prod.splits)
  then show ?case by (rule admInv_solo_same [OF admGC.IH soloStep_GC])
next
  case (admShred h a A rt sz now)
  have "approvals (fst (ServerRunDueShreds A rt sz now a)) = approvals a"
    by (auto simp: ServerRunDueShreds_def approvals_core [OF core_shredLoop] split: prod.splits)
  then show ?case by (rule admInv_solo_same [OF admShred.IH soloStep_shreds])
qed

text \<open>
  C2. Whatever requests reach the admin plane, with whatever credentials, and
  whatever else happens in between: a manual ban that is permanent, covers a range or lasts 400 days or
  more, the kill switch, a scheduled erasure and an overlay of a class above A are each there
  only because one authenticated operator requested it and another one, with the role it takes, approved
  that request; an erasure was approved by a data protection officer, and an approved overlay carries an
  expiry and the approver's id. The active overlay is always a valid one, and it is the one the request path
  reads.
\<close>

theorem admin_dual_control:
  assumes "codecOK enc dec" and "admRun enc dec h a"
  shows "(\<forall>k e. banAt a k = Some e \<and> BSource e = ''manual''
            \<and> (Permanent e \<or> isBroadKey k \<or> maxBanDurationSec * 1000000000 \<le> BUntil e - BCreated e) \<longrightarrow>
            (\<exists>p y. dual h p y \<and> PKind p = ''ban'' \<and> param p ''key'' = k))
    \<and> (killSwitch (srv a) \<longrightarrow> (\<exists>p y. dual h p y \<and> PKind p = ''killswitch'' \<and> param p ''on'' = ''true''))
    \<and> (\<forall>e \<in> set (ListShreds (shreds a)). \<exists>p y. dual h p y \<and> PKind p = ''erasure'' \<and> OpRole y = RoleDPO
         \<and> param p ''subject'' = Subject e \<and> Approver e = OpID y)
    \<and> (\<forall>v. activeOverlay (srv a) = Some v \<longrightarrow> Validate (Some v) = None
         \<and> (MutationClass v = ClassA \<and> ApprovedBy v = []
            \<or> (\<exists>p y. dual h p y \<and> PKind p = ''settings.overlay'' \<and> ApprovedBy v = OpID y \<and> ExpiresAt v \<noteq> None)))"
proof -
  have inv: "admInv dec h a" by (rule admRun_inv [OF assms])
  have bans: "\<exists>p y. dual h p y \<and> PKind p = ''ban'' \<and> param p ''key'' = k"
    if "banAt a k = Some e" "BSource e = ''manual''"
      "Permanent e \<or> isBroadKey k \<or> maxBanDurationSec * 1000000000 \<le> BUntil e - BCreated e" for k e
    using inv that unfolding admInv_def banInv_def soloBan_def by fastforce
  have overlay: "Validate (Some v) = None \<and> (soloOverlay v
      \<or> (\<exists>p y. dual h p y \<and> PKind p = ''settings.overlay'' \<and> ApprovedBy v = OpID y \<and> ExpiresAt v \<noteq> None))"
    if act: "activeOverlay (srv a) = Some v" for v
  proof -
    obtain st where "settingsStore a = Some st" "fsActive st = Some v"
      using inv act by (cases "settingsStore a") (auto simp: admInv_def viewOK_def activeOverlay_def)
    then show ?thesis using inv by (auto simp: admInv_def overlayInv_def storeOK_def)
  qed
  show ?thesis
    using inv bans overlay unfolding admInv_def killInv_def shredInv_def soloOverlay_def by meson
qed

text \<open>A run: alice asks for the kill switch, bob approves.\<close>

definition exAdminEnv :: "(bytes, limiter, verdict_store) admin_env" where
  "exAdminEnv = \<lparr>aGate = exGateEnv, aLim = memOps, aRateConfigurable = True, aEnc = exEnc, aDec = exDec, aIO = exIO,
     aClock = (\<lambda>_. 1000), aNewID = ''id1'', aRand8 = None, aShredID = ''sh1'', aParseIP = (\<lambda>_. True),
     aParseCIDR = (\<lambda>_. True),
     aJson = \<lparr>jPropose = (\<lambda>_ _. None), jParent = (\<lambda>_ _. None), jKill = (\<lambda>_ b. Some (b = ''on'')),
              jErasure = (\<lambda>_ _. None), jBan = (\<lambda>_ _. None), jBulk = (\<lambda>_ _. None)\<rparr>,
     aErrText = (\<lambda>_. []), aSetText = (\<lambda>_. []), aLoadText = (\<lambda>_. []), aRecords = [], aKeys = []\<rparr>"

definition exAdmin :: "(limiter, verdict_store) admin" where
  "exAdmin = \<lparr>srv = exServer,
     auth = AuthAdd (AuthAdd NewAdminAuth ''tA'' ''alice'' RoleOperator) ''tB'' ''bob'' RoleApprover,
     approvals = NewApprovalStore ''k'' 600, shreds = NewShredQueue 300, settingsStore = None, sdisk = exDisk,
     stats = \<lparr>stApplied = 0, stRolledBack = 0, stRejected = 0, stErrors = 0, stStoreErrors = 0\<rparr>,
     incidentLimiter = NewLimiter 60 60 120, sealed = []\<rparr>"

definition exKill :: admin_request where
  "exKill = \<lparr>arMethod = ''POST'', arSub = ''killswitch'', arAuthorization = ''Bearer tA'', arBody = ''on'', arQuery = (\<lambda>_. [])\<rparr>"

definition exApprove :: admin_request where
  "exApprove = \<lparr>arMethod = ''POST'', arSub = ''approvals/id1'', arAuthorization = ''Bearer tB'', arBody = [], arQuery = (\<lambda>_. [])\<rparr>"

theorem admin_dual_control_witness:
  "let a1 = fst (handleAdmin exAdminEnv exKill exAdmin); a2 = fst (handleAdmin exAdminEnv exApprove a1)
   in killSwitch (srv a2)
      \<and> (\<exists>p y. dual [(exAdminEnv, exKill, exAdmin), (exAdminEnv, exApprove, a1)] p y \<and> PKind p = ''killswitch'')
      \<and> \<not> killSwitch (srv (fst (handleAdmin exAdminEnv (exApprove\<lparr>arAuthorization := ''Bearer tA''\<rparr>) a1)))"
proof -
  let ?a1 = "fst (handleAdmin exAdminEnv exKill exAdmin)"
  let ?a2 = "fst (handleAdmin exAdminEnv exApprove ?a1)"
  have env: "aEnc exAdminEnv = exEnc" "aDec exAdminEnv = exDec" "0 \<le> aClock exAdminEnv AtBan"
    by (simp_all add: exAdminEnv_def)
  have "freshAdmin exAdmin"
    by (simp add: freshAdmin_def exAdmin_def exServer_def NewApprovalStore_def NewShredQueue_def ListShreds_def banAt_def
        viewOK_def NewBanStore_def NewBanStoreWithLimiter_def fun_eq_iff)
  then have "admRun exEnc exDec ([] @ [(exAdminEnv, exKill, exAdmin)]) ?a1"
    using env by (intro admRequest admStart)
  then have "admRun exEnc exDec (([] @ [(exAdminEnv, exKill, exAdmin)]) @ [(exAdminEnv, exApprove, ?a1)]) ?a2"
    by (rule admRequest [OF _ env])
  moreover have "killSwitch (srv ?a2)" by code_simp
  moreover have "\<not> killSwitch (srv (fst (handleAdmin exAdminEnv (exApprove\<lparr>arAuthorization := ''Bearer tA''\<rparr>) ?a1)))"
    by code_simp
  ultimately show ?thesis
    using admin_dual_control [OF exCodec, of "[(exAdminEnv, exKill, exAdmin), (exAdminEnv, exApprove, ?a1)]" ?a2]
    unfolding Let_def append.simps by blast
qed

section \<open>Paging through the audit stream\<close>

definition tagged :: "('sk, 'l, 'v) admin_env \<Rightarrow> bytes \<Rightarrow> audit_record \<Rightarrow> audit_record" where
  "tagged A key r = r\<lparr>Incident := incidentHandle (gP (aGate A)) key (Seq r)\<rparr>"

lemma auditLoop_take:
  assumes "int (length out) \<le> aqLimit q"
  shows "auditLoop A key q rs out cur =
     (let ms = take (nat (aqLimit q) - length out) (filter (auditMatch q) rs)
      in (out @ map (tagged A key) ms, if ms = [] then cur else Seq (last ms)))"
  using assms
proof (induction rs arbitrary: out cur)
  case (Cons r rs)
  consider "aqLimit q \<le> int (length out)" | "int (length out) < aqLimit q" "\<not> auditMatch q r"
    | "int (length out) < aqLimit q" "auditMatch q r" by linarith
  then show ?case
  proof cases
    case 3
    then have "nat (aqLimit q) - length out = Suc (nat (aqLimit q) - length (out @ [tagged A key r]))" by auto
    then show ?thesis using 3 Cons.IH [of "out @ [tagged A key r]" "Seq r"] by (auto simp: Let_def tagged_def)
  qed (use Cons in \<open>simp_all add: Let_def\<close>)
qed (simp add: Let_def)

lemma cursor_splits:
  assumes "sorted_wrt (\<lambda>a b. Seq b < Seq a) rs" and "take n rs \<noteq> []"
  shows "filter (\<lambda>r. Seq r < Seq (last (take n rs))) rs = drop n rs"
  using assms
proof (induction n arbitrary: rs)
  case (Suc n)
  then obtain r rs' where rs: "rs = r # rs'" by (cases rs) auto
  have tl: "sorted_wrt (\<lambda>a b. Seq b < Seq a) rs'" and hd: "\<forall>x \<in> set rs'. Seq x < Seq r" using Suc.prems(1) rs by simp_all
  show ?case
  proof (cases "take n rs' = []")
    case True
    then have "n = 0 \<or> rs' = []" by simp
    then show ?thesis using hd rs by (auto simp: filter_id_conv)
  next
    case False
    then have "last (take n rs') \<in> set rs'" by (meson in_set_takeD last_in_set)
    then have "Seq (last (take n rs')) < Seq r" using hd by blast
    then show ?thesis using Suc.IH [OF tl False] False rs by (simp add: not_less_iff_gr_or_eq)
  qed
qed simp

lemma pages_from:
  assumes "aqBefore q = 0 \<or> c \<le> aqBefore q" and "c \<noteq> 0"
  shows "filter (auditMatch (q\<lparr>aqBefore := c\<rparr>)) rs = filter (\<lambda>r. Seq r < c) (filter (auditMatch q) rs)"
proof -
  have "Seq r < c \<Longrightarrow> aqBefore q = 0 \<or> Seq r < aqBefore q" for r using assms(1) by auto
  then have "auditMatch (q\<lparr>aqBefore := c\<rparr>) r \<longleftrightarrow> Seq r < c \<and> auditMatch q r" for r
    using assms(2) by (auto simp: auditMatch_def not_le)
  then show ?thesis unfolding filter_filter by (intro filter_cong) auto
qed

text \<open>
  A page of the audit stream is the next \<open>limit\<close> matching records, newest first,
  each with its opaque handle; and what follows the cursor it returns is exactly what the page left out, so
  a client that follows the cursors sees every matching record once.
\<close>

theorem audit_pages:
  assumes "sorted_wrt (\<lambda>a b. Seq a < Seq b) recs" and "\<forall>r \<in> set recs. 0 < Seq r" and "0 < aqLimit q"
    and "auditPage A key q recs = (out, cursor)"
  shows "out = map (tagged A key) (take (nat (aqLimit q)) (filter (auditMatch q) (rev recs)))
    \<and> (out \<noteq> [] \<longrightarrow> filter (auditMatch (q\<lparr>aqBefore := cursor\<rparr>)) (rev recs) =
         drop (nat (aqLimit q)) (filter (auditMatch q) (rev recs)))"
proof -
  let ?n = "nat (aqLimit q)"
  define ms where "ms = filter (auditMatch q) (rev recs)"
  have page: "out = map (tagged A key) (take ?n ms)" "out \<noteq> [] \<Longrightarrow> cursor = Seq (last (take ?n ms))"
    using assms(3,4) auditLoop_take [of "[]" q A key "rev recs" 0]
    by (auto simp: auditPage_def Let_def ms_def split: if_splits)
  have "filter (auditMatch (q\<lparr>aqBefore := cursor\<rparr>)) (rev recs) = drop ?n ms" if "out \<noteq> []"
  proof -
    have ne: "take ?n ms \<noteq> []" using page(1) that by auto
    define l where "l = last (take ?n ms)"
    have "l \<in> set ms" unfolding l_def using ne by (meson in_set_takeD last_in_set)
    then have l: "auditMatch q l" "0 < Seq l" using assms(2) by (auto simp: ms_def)
    have c: "cursor = Seq l" using page(2) [OF that] by (simp add: l_def)
    have "aqBefore q = 0 \<or> cursor \<le> aqBefore q" using l(1) c by (auto simp: auditMatch_def)
    then have "filter (auditMatch (q\<lparr>aqBefore := cursor\<rparr>)) (rev recs) = filter (\<lambda>r. Seq r < cursor) ms"
      using pages_from [of q cursor "rev recs"] l(2) c by (simp add: ms_def)
    moreover have "sorted_wrt (\<lambda>a b. Seq b < Seq a) ms"
      unfolding ms_def using assms(1) by (intro sorted_wrt_filter) (simp add: sorted_wrt_rev)
    ultimately show ?thesis using cursor_splits [of ms ?n, OF _ ne] c l_def by simp
  qed
  then show ?thesis using page(1) by (simp add: ms_def)
qed

definition exSeqs :: "audit_record list" where
  "exSeqs = map (\<lambda>i. zeroRecord\<lparr>Seq := i\<rparr>) [1, 2, 3]"

definition exQuery :: audit_query where
  "exQuery = \<lparr>aqLimit = 2, aqVerdict = [], aqHost = [], aqRoute = [], aqRule = [], aqSubject = [], aqMinRisk = 0, aqBefore = 0\<rparr>"

theorem audit_pages_witness:
  "map Seq (filter (auditMatch (exQuery\<lparr>aqBefore := snd (auditPage exAdminEnv ''k'' exQuery exSeqs)\<rparr>)) (rev exSeqs)) = [1]"
proof -
  have s: "sorted_wrt (\<lambda>a b. Seq a < Seq b) exSeqs" "\<forall>r \<in> set exSeqs. 0 < Seq r" "0 < aqLimit exQuery"
    by (simp_all add: exSeqs_def exQuery_def zeroRecord_def)
  obtain out c where p: "auditPage exAdminEnv ''k'' exQuery exSeqs = (out, c)" by fastforce
  have ms: "filter (auditMatch exQuery) (rev exSeqs) = rev exSeqs"
    by (simp add: exSeqs_def exQuery_def auditMatch_def zeroRecord_def)
  have "length out = length (take (nat (aqLimit exQuery)) (rev exSeqs))" using audit_pages [OF s p] unfolding ms by simp
  then have "out \<noteq> []" by (auto simp: exSeqs_def exQuery_def)
  then have f: "filter (auditMatch (exQuery\<lparr>aqBefore := c\<rparr>)) (rev exSeqs) = drop (nat (aqLimit exQuery)) (rev exSeqs)"
    using audit_pages [OF s p] by (simp add: ms)
  show ?thesis unfolding p snd_conv f by (simp add: exSeqs_def exQuery_def)
qed

end
