(* ===== verification/Signals.thy ===== *)
theory Signals
  imports Settings
begin

text \<open>
  The signal schema and registry of package \<open>signals\<close> (signals.go, verdict.go, registry.go).

  Layers, verdicts and sources are Go strings and stay \<^typ>\<open>string\<close>: a client report is decoded from JSON and
  may carry any text there.  A \<open>float64\<close> is a rational (JSON carries neither NaN nor an infinity, and the
  engine only adds, multiplies, halves and compares), so rounding of the last bit is not modelled.  The value a
  signal observed (\<open>any\<close>) is a \<open>sig_value\<close>.
\<close>

section \<open>Canonical schema (signals.go)\<close>

type_synonym layer = string

definition LayerStatic :: layer where "LayerStatic = ''L1''"
definition LayerFingerprint :: layer where "LayerFingerprint = ''L2''"
definition LayerIntegrity :: layer where "LayerIntegrity = ''L3''"
definition LayerBehavioral :: layer where "LayerBehavioral = ''L4''"
definition LayerNetwork :: layer where "LayerNetwork = ''L5''"
definition LayerConsistency :: layer where "LayerConsistency = ''L6''"
definition LayerScoring :: layer where "LayerScoring = ''L7''"

lemmas layer_defs = LayerStatic_def LayerFingerprint_def LayerIntegrity_def LayerBehavioral_def
  LayerNetwork_def LayerConsistency_def LayerScoring_def

definition SigOK :: string where "SigOK = ''OK''"
definition SigSuspicious :: string where "SigSuspicious = ''SUSPICIOUS''"
definition SigBot :: string where "SigBot = ''BOT''"
definition SigUnknown :: string where "SigUnknown = ''UNKNOWN''"

lemmas sig_verdict_defs = SigOK_def SigSuspicious_def SigBot_def SigUnknown_def

definition SourceJS :: string where "SourceJS = ''js''"
definition SourceWASM :: string where "SourceWASM = ''wasm''"
definition SourceServer :: string where "SourceServer = ''server''"

datatype sig_value =
    VNil
  | VBool bool
  | VInt int
  | VFloat rat
  | VStr string
  | VList "sig_value list"
  | VObj "(string \<times> sig_value) list"

record signal =
  sigID :: string
  sigLayer :: layer
  sigValue :: sig_value
  sigExpected :: sig_value
  sigVerdict :: string
  sigWeight :: rat
  sigScore :: rat
  sigConfidence :: rat
  sigCollected :: string
  sigNotes :: string

record cross_check =
  xID :: string
  xInputs :: "string list"
  xClaim :: string
  xObserved :: string
  xConsistent :: bool
  xWeight :: rat
  xScore :: rat
  xNotes :: string

record ua_brand =
  brandName :: string
  brandVersion :: string

record ua_client_hints =
  Brands :: "ua_brand list"
  FullVersionList :: "ua_brand list"
  hintMobile :: bool
  hintPlatform :: string
  PlatformVersion :: string
  Architecture :: string
  Bitness :: string
  hintModel :: string

record advanced =
  advProbed :: bool
  MediaDeviceCount :: int
  HasAudioInput :: bool
  HasVideoInput :: bool
  VoiceCount :: int
  WidevineSupported :: bool
  WebGPUPresent :: bool
  WebGPUVendor :: string
  WebGPUFallback :: bool
  WebGLVendor :: string
  AudioSampleRate :: rat
  ConnectionPresent :: bool
  ConnectionRTT :: rat
  BatteryPresent :: bool
  BatteryLevel :: rat
  BatteryCharging :: bool
  TimezoneIANA :: string
  TimezoneOffset :: int
  advLanguage :: string
  ColorGamut :: string
  DynamicRange :: string
  PointerCoarse :: bool
  MaxTouchPoints :: int
  PerfMemoryPresent :: bool
  MeasureMemThrows :: bool
  MobileUA :: bool
  WebRTCHostAddrs :: "string list"
  WebRTCPublicAddrs :: "string list"

record guard_report =
  Reported :: bool
  EvalUsed :: int
  FuncCtor :: int
  ScriptInjected :: int
  ProtoPolluted :: bool
  NativeHooked :: bool
  ConsoleDisabled :: bool

record environment =
  envProbed :: bool
  AdBlock :: bool
  TrackingProtection :: bool
  DoNotTrack :: string
  GPC :: bool
  CollectorBlocked :: bool
  BraveShields :: bool

record mouse_features =
  mouseSamples :: int
  MeanCurvature :: rat
  VelocityStdDev :: rat
  AccelEntropy :: rat
  StraightLineFrac :: rat
  PauseCount :: int
  MaxTeleportPx :: rat
  MeanJerk :: rat
  CoalescedRatio :: rat

record key_features =
  Keystrokes :: int
  MeanDwellMs :: rat
  DwellStdDevMs :: rat
  MeanFlightMs :: rat
  FlightStdDev :: rat
  PasteEvents :: int
  ZeroDwellFrac :: rat

record event_features =
  TotalEvents :: int
  UntrustedFrac :: rat
  NoMoveClicks :: int
  SyntheticFlags :: int
  ClickCount :: int
  LongGapCount :: int
  BurstVarMs :: rat
  MinReactionMs :: rat

record behavior_summary =
  Mouse :: mouse_features
  KeyF :: key_features
  Events :: event_features
  DurationS :: rat

record client_report =
  cSessionID :: string
  cUserAgent :: string
  UAClientHints :: ua_client_hints
  cSignals :: "signal list"
  cBehavior :: behavior_summary
  cEnvironment :: environment
  cGuard :: guard_report
  cAdvanced :: advanced
  FingerprintID :: string
  EngineVersion :: string

record contributor =
  contribID :: string
  contribScore :: rat

record score_result =
  resRiskScore :: rat
  resVerdict :: string
  HardRuleFired :: string
  TopContributors :: "contributor list"
  PolicyVersion :: string

record network_report =
  JA3 :: string
  JA3Text :: string
  JA4 :: string
  JA4Raw :: string
  JA4Engine :: string
  H2Engine :: string
  AkamaiH2 :: string
  SecFetchPresent :: bool
  SecCHUAPresent :: bool
  H2Settings :: "(string \<times> 32 word) list"
  PseudoOrder :: "string list"
  HeaderOrder :: "string list"
  TLSVersion :: string
  NegotiatedALPN :: string
  nSignals :: "signal list"

record session_report =
  rSessionID :: string
  rTimestamp :: int
  Client :: client_report
  Network :: network_report
  CrossChecksOf :: "cross_check list"
  Scoring :: score_result
  rLabel :: string

text \<open>The zero values of the reports.\<close>

definition zeroClient :: client_report where
  "zeroClient =
     \<lparr>cSessionID = [], cUserAgent = [],
      UAClientHints = \<lparr>Brands = [], FullVersionList = [], hintMobile = False, hintPlatform = [], PlatformVersion = [],
        Architecture = [], Bitness = [], hintModel = []\<rparr>,
      cSignals = [],
      cBehavior =
        \<lparr>Mouse = \<lparr>mouseSamples = 0, MeanCurvature = 0, VelocityStdDev = 0, AccelEntropy = 0, StraightLineFrac = 0,
           PauseCount = 0, MaxTeleportPx = 0, MeanJerk = 0, CoalescedRatio = 0\<rparr>,
         KeyF = \<lparr>Keystrokes = 0, MeanDwellMs = 0, DwellStdDevMs = 0, MeanFlightMs = 0, FlightStdDev = 0,
           PasteEvents = 0, ZeroDwellFrac = 0\<rparr>,
         Events = \<lparr>TotalEvents = 0, UntrustedFrac = 0, NoMoveClicks = 0, SyntheticFlags = 0, ClickCount = 0,
           LongGapCount = 0, BurstVarMs = 0, MinReactionMs = 0\<rparr>,
         DurationS = 0\<rparr>,
      cEnvironment = \<lparr>envProbed = False, AdBlock = False, TrackingProtection = False, DoNotTrack = [], GPC = False,
        CollectorBlocked = False, BraveShields = False\<rparr>,
      cGuard = \<lparr>Reported = False, EvalUsed = 0, FuncCtor = 0, ScriptInjected = 0, ProtoPolluted = False,
        NativeHooked = False, ConsoleDisabled = False\<rparr>,
      cAdvanced = \<lparr>advProbed = False, MediaDeviceCount = 0, HasAudioInput = False, HasVideoInput = False,
        VoiceCount = 0, WidevineSupported = False, WebGPUPresent = False, WebGPUVendor = [], WebGPUFallback = False,
        WebGLVendor = [], AudioSampleRate = 0, ConnectionPresent = False, ConnectionRTT = 0, BatteryPresent = False,
        BatteryLevel = 0, BatteryCharging = False, TimezoneIANA = [], TimezoneOffset = 0, advLanguage = [],
        ColorGamut = [], DynamicRange = [], PointerCoarse = False, MaxTouchPoints = 0, PerfMemoryPresent = False,
        MeasureMemThrows = False, MobileUA = False, WebRTCHostAddrs = [], WebRTCPublicAddrs = []\<rparr>,
      FingerprintID = [], EngineVersion = []\<rparr>"

definition zeroNetwork :: network_report where
  "zeroNetwork = \<lparr>JA3 = [], JA3Text = [], JA4 = [], JA4Raw = [], JA4Engine = [], H2Engine = [], AkamaiH2 = [],
     SecFetchPresent = False, SecCHUAPresent = False, H2Settings = [], PseudoOrder = [], HeaderOrder = [],
     TLSVersion = [], NegotiatedALPN = [], nSignals = []\<rparr>"

definition zeroReport :: session_report where
  "zeroReport = \<lparr>rSessionID = [], rTimestamp = 0, Client = zeroClient, Network = zeroNetwork, CrossChecksOf = [],
     Scoring = \<lparr>resRiskScore = 0, resVerdict = [], HardRuleFired = [], TopContributors = [], PolicyVersion = []\<rparr>,
     rLabel = []\<rparr>"

definition AllSignals :: "session_report \<Rightarrow> signal list" where
  "AllSignals r = cSignals (Client r) @ nSignals (Network r)"

section \<open>Severity and score (verdict.go)\<close>

definition Severity :: "string \<Rightarrow> rat" where
  "Severity v = (if v = SigBot then 1 else if v = SigSuspicious then 1/2 else 0)"

definition clamp01 :: "rat \<Rightarrow> rat" where
  "clamp01 f = (if f < 0 then 0 else if 1 < f then 1 else f)"

definition ComputeScore :: "rat \<Rightarrow> rat \<Rightarrow> string \<Rightarrow> rat" where
  "ComputeScore w confidence v =
     (let s = w * Severity v * clamp01 confidence
      in if s < 0 then 0 else if w < s then w else s)"

section \<open>Registry (registry.go)\<close>

record sig_def =
  defID :: string
  defLayer :: layer
  defWeight :: rat
  defExpected :: sig_value
  defGroup :: string
  defDesc :: string

text \<open>The composite literal \<open>Definition{...}\<close>, its fields in order.\<close>

definition sdef :: "string \<Rightarrow> layer \<Rightarrow> rat \<Rightarrow> sig_value \<Rightarrow> string \<Rightarrow> string \<Rightarrow> sig_def" where
  "sdef i l w e g d = \<lparr>defID = i, defLayer = l, defWeight = w, defExpected = e, defGroup = g, defDesc = d\<rparr>"

text \<open>\<open>def\<close> registers one definition and panics on a duplicate id (\<^const>\<open>None\<close>).\<close>

definition def_sig :: "(string \<times> sig_def) list \<Rightarrow> sig_def \<Rightarrow> (string \<times> sig_def) list option" where
  "def_sig reg d = (case map_of reg (defID d) of Some _ \<Rightarrow> None | None \<Rightarrow> Some (reg @ [(defID d, d)]))"

fun initRegistry :: "sig_def list \<Rightarrow> (string \<times> sig_def) list \<Rightarrow> (string \<times> sig_def) list option" where
  "initRegistry [] reg = Some reg"
| "initRegistry (d # ds) reg = (case def_sig reg d of None \<Rightarrow> None | Some reg' \<Rightarrow> initRegistry ds reg')"

definition regL1Static :: "sig_def list" where
  "regL1Static =
    [sdef ''l1.navigator.webdriver'' LayerStatic 15 (VBool False) ''webdriver'' ''navigator.webdriver true'',
     sdef ''l1.ua.headless_token'' LayerStatic 25 (VBool False) ''headless'' ''HeadlessChrome UA token'',
     sdef ''l1.navigator.plugins_empty'' LayerStatic 8 (VBool False) ''plugins'' ''empty plugins array'',
     sdef ''l1.navigator.pdfviewer'' LayerStatic 6 (VBool True) ''plugins'' ''pdfViewerEnabled false'',
     sdef ''l1.navigator.languages_empty'' LayerStatic 8 (VBool False) ''languages'' ''empty languages'',
     sdef ''l1.window.chrome_missing'' LayerStatic 8 (VBool True) ''chrome'' ''window.chrome absent'',
     sdef ''l1.permissions.mismatch'' LayerStatic 18 (VBool False) ''permissions'' ''Notification vs permissions.query mismatch'',
     sdef ''l1.window.outer_eq_inner'' LayerStatic 10 (VBool False) ''windowsize'' ''outer==inner (no chrome UI)'',
     sdef ''l1.artifact.selenium'' LayerStatic 40 (VBool False) ''artifact'' ''selenium/cdc_ artifacts'',
     sdef ''l1.artifact.playwright'' LayerStatic 40 (VBool False) ''artifact'' ''playwright globals'',
     sdef ''l1.artifact.phantom'' LayerStatic 30 (VBool False) ''artifact'' ''phantomjs globals'',
     sdef ''l1.cdp.runtime_enable'' LayerStatic 12 (VBool False) ''cdp'' ''CDP Runtime.enable leak (weak, mostly patched)'',
     sdef ''l1.cdp.proxy_leak'' LayerStatic 8 (VBool False) ''cdp'' ''CDP prototype-Proxy preview leak (current Chrome over CDP)'']"

definition regL2Fingerprint :: "sig_def list" where
  "regL2Fingerprint =
    [sdef ''l2.webgl.swiftshader'' LayerFingerprint 30 (VBool False) ''webgl'' ''SwiftShader software renderer'',
     sdef ''l2.webgl.param_consistency'' LayerFingerprint 25 (VBool True) ''webgl'' ''renderer vs params mismatch'',
     sdef ''l2.canvas.hash'' LayerFingerprint 10 VNil ''canvas'' ''low-entropy/farm canvas hash'',
     sdef ''l2.canvas.tampered'' LayerFingerprint 15 (VBool False) ''canvas'' ''canvas API not native'',
     sdef ''l2.audio.hash'' LayerFingerprint 8 VNil ''audio'' ''implausible audio hash'',
     sdef ''l2.audio.samplerate'' LayerFingerprint 6 VNil ''audio'' ''anomalous sampleRate'',
     sdef ''l2.screen.metrics'' LayerFingerprint 12 VNil ''screen'' ''avail==full / default viewport'',
     sdef ''l2.screen.dpr'' LayerFingerprint 10 VNil ''screen'' ''devicePixelRatio inconsistency'',
     sdef ''l2.font.count'' LayerFingerprint 12 VNil ''font'' ''sparse fonts vs claimed OS'',
     sdef ''l2.hardware.concurrency'' LayerFingerprint 8 VNil ''hardware'' ''hardwareConcurrency worker mismatch'',
     sdef ''l2.hardware.devicememory'' LayerFingerprint 15 VNil ''hardware'' ''deviceMemory quantization violation'']"

definition regL2Environment :: "sig_def list" where
  "regL2Environment =
    [sdef ''l2.env.adblock'' LayerFingerprint 0 VNil ''env'' ''ad-block present (privacy human)'',
     sdef ''l2.env.tracking_protection'' LayerFingerprint 0 VNil ''env'' ''tracking protection present'',
     sdef ''l2.env.privacy_inconsistent'' LayerFingerprint 12 VNil ''env'' ''claimed privacy posture vs observed blocking mismatch'',
     sdef ''l2.env.probe_dead'' LayerFingerprint 10 VNil ''env'' ''environment probe did not execute (no liveness)'']"

definition regL2Advanced :: "sig_def list" where
  "regL2Advanced =
    [sdef ''l2.adv.audio_24k'' LayerFingerprint 20 VNil ''adv-audio'' ''AudioContext sampleRate 24000 (headless)'',
     sdef ''l2.adv.no_voices'' LayerFingerprint 12 VNil ''adv-voice'' ''no speech-synthesis voices (headless)'',
     sdef ''l2.adv.no_media_devices'' LayerFingerprint 12 VNil ''adv-media'' ''no media devices under desktop UA'',
     sdef ''l2.adv.no_widevine'' LayerFingerprint 12 VNil ''adv-drm'' ''Widevine unsupported under Chrome UA (plain Chromium)'',
     sdef ''l2.adv.rtt_zero'' LayerFingerprint 12 VNil ''adv-net'' ''connection.rtt 0 (headless/datacenter)'',
     sdef ''l2.adv.webgpu_mismatch'' LayerFingerprint 25 VNil ''adv-gpu'' ''WebGL vendor vs WebGPU vendor mismatch'',
     sdef ''l2.adv.measure_mem_throws'' LayerFingerprint 10 VNil ''adv-mem'' ''measureUserAgentSpecificMemory throws (new-headless)'',
     sdef ''l2.adv.mobile_inconsistent'' LayerFingerprint 20 VNil ''adv-mobile'' ''mobile UA but desktop sensor/touch profile'']"

definition regL3Integrity :: "sig_def list" where
  "regL3Integrity =
    [sdef ''l3.integrity.native_tostring'' LayerIntegrity 30 (VBool True) ''integrity'' ''patched getter non-native'',
     sdef ''l3.integrity.proxy'' LayerIntegrity 25 (VBool False) ''integrity'' ''proxy-wrapped native'',
     sdef ''l3.integrity.illegal_invocation'' LayerIntegrity 20 (VBool True) ''integrity'' ''missing TypeError on illegal invocation'',
     sdef ''l3.integrity.iframe_recheck'' LayerIntegrity 30 (VBool True) ''integrity'' ''iframe realm exposes top-level patch'',
     sdef ''l3.integrity.worker_recheck'' LayerIntegrity 25 (VBool True) ''integrity'' ''worker context value mismatch'',
     sdef ''l3.integrity.error_stack'' LayerIntegrity 15 (VBool False) ''integrity'' ''injected script url in stack'']"

definition regL3Guard :: "sig_def list" where
  "regL3Guard =
    [sdef ''l3.guard.script_injected'' LayerIntegrity 20 (VBool False) ''guard'' ''no-nonce script node injected'',
     sdef ''l3.guard.eval_used'' LayerIntegrity 15 (VBool False) ''guard'' ''eval/indirect-eval/new Function/string setTimeout/dynamic import'',
     sdef ''l3.guard.func_ctor'' LayerIntegrity 15 (VBool False) ''guard'' ''Function constructor code generation'',
     sdef ''l3.guard.proto_polluted'' LayerIntegrity 25 (VBool False) ''guard'' ''core prototype mutated'',
     sdef ''l3.guard.native_hooked'' LayerIntegrity 25 (VBool False) ''guard'' ''fetch/XHR/JSON/toString monkeypatched'',
     sdef ''l3.guard.csp_violation'' LayerIntegrity 18 (VBool False) ''guard'' ''server CSP violation report'',
     sdef ''l3.guard.trusted_types_off'' LayerIntegrity 8 (VBool False) ''guard'' ''Trusted Types unsupported/bypassed'',
     sdef ''l3.guard.console_disabled'' LayerIntegrity 22 (VBool False) ''guard'' ''Console API disabled/non-native (Patchright)'']"

definition regL4Behavioral :: "sig_def list" where
  "regL4Behavioral =
    [sdef ''l4.mouse.straightness'' LayerBehavioral 12 VNil ''mouse'' ''straightness ~1.0 / fixed'',
     sdef ''l4.mouse.velocity_std'' LayerBehavioral 10 VNil ''mouse'' ''near-zero velocity variance'',
     sdef ''l4.mouse.accel_entropy'' LayerBehavioral 8 VNil ''mouse'' ''low acceleration entropy'',
     sdef ''l4.mouse.max_teleport'' LayerBehavioral 10 VNil ''mouse'' ''large instantaneous jump'',
     sdef ''l4.mouse.samples'' LayerBehavioral 8 VNil ''mouse'' ''click with no preceding move'',
     sdef ''l4.key.dwell_std'' LayerBehavioral 10 VNil ''key'' ''near-zero dwell variance'',
     sdef ''l4.key.flight_std'' LayerBehavioral 8 VNil ''key'' ''near-zero flight variance'',
     sdef ''l4.key.zero_dwell_frac'' LayerBehavioral 8 VNil ''key'' ''synthetic zero-dwell keys'',
     sdef ''l4.key.paste'' LayerBehavioral 8 VNil ''key'' ''field filled by paste, no keystrokes'',
     sdef ''l4.event.untrusted'' LayerBehavioral 40 (VFloat 0) ''event'' ''isTrusted=false events'',
     sdef ''l4.event.no_move_click'' LayerBehavioral 20 VNil ''event'' ''clicks without movement'',
     sdef ''l4.event.perfect_timing'' LayerBehavioral 18 VNil ''event'' ''zero-jitter integer-ms timing'',
     sdef ''l4.pointer.scroll_no_wheel'' LayerBehavioral 12 VNil ''pointer'' ''scroll change without wheel'',
     sdef ''l4.pointer.touch_mismatch'' LayerBehavioral 12 VNil ''pointer'' ''mobile UA but maxTouchPoints 0'',
     sdef ''l4.event.no_interaction'' LayerBehavioral 15 VNil ''event'' ''no human interaction over observation window'',
     sdef ''l4.mouse.coalesced_synthetic'' LayerBehavioral 15 VNil ''mouse'' ''movement without coalesced sub-events (CDP/OS-injected input)'',
     sdef ''l4.mouse.jerk_anomaly'' LayerBehavioral 8 VNil ''mouse'' ''abnormal jerk profile (scripted trajectory)'',
     sdef ''l4.ml.behavioral'' LayerBehavioral 0 (VBool True) ''ml'' ''behavioral model p(bot) (audit/admin)'',
     sdef ''l4.agent.burst_silence'' LayerBehavioral 25 VNil ''agent'' ''LLM inference-loop cadence (think-pause -> instant action burst)'',
     sdef ''l4.mouse.click_no_trajectory'' LayerBehavioral 20 VNil ''agent'' ''mouse events only at click time (no approach trajectory)'',
     sdef ''l4.key.machine_speed'' LayerBehavioral 18 VNil ''agent'' ''machine-speed inter-key latency (<15ms)'']"

definition regL5Network :: "sig_def list" where
  "regL5Network =
    [sdef ''l5.tls.ja3'' LayerNetwork 2 VNil ''tls'' ''JA3 (compat/logging)'',
     sdef ''l5.tls.not_observed'' LayerNetwork 0 (VBool True) ''tls'' ''no ClientHello captured (network plane inactive)'',
     sdef ''l5.tls.ja4_engine'' LayerNetwork 30 VNil ''tls'' ''JA4 engine vs UA'',
     sdef ''l5.tls.grease_absent'' LayerNetwork 15 VNil ''tls'' ''no GREASE (non-browser)'',
     sdef ''l5.tls.pq_keyshare'' LayerNetwork 0 (VBool True) ''tls'' ''missing PQ keyshare for claimed Chrome'',
     sdef ''l5.tls.alps_absent'' LayerNetwork 0 (VBool True) ''tls'' ''Chromium UA over h2 without the ALPS extension'',
     sdef ''l5.tls.cert_compression_absent'' LayerNetwork 0 (VBool True) ''tls'' ''browser UA over h2 without certificate compression'',
     sdef ''l5.tls.ech_absent'' LayerNetwork 0 (VBool True) ''tls'' ''ECH-era browser UA over h2 without Encrypted Client Hello'',
     sdef ''l5.http2.engine_mismatch'' LayerNetwork 30 VNil ''http2'' ''h2 profile engine vs UA'',
     sdef ''l5.http2.unknown_under_browser'' LayerNetwork 0 (VBool True) ''http2'' ''browser UA over an unclassifiable HTTP/2 profile (audit/admin)'',
     sdef ''l5.http2.browser_settings_atypical'' LayerNetwork 0 (VBool True) ''http2'' ''browser HTTP/2 pseudo-order with a non-browser SETTINGS profile (audit/admin)'',
     sdef ''l5.http2.flow_control_atypical'' LayerNetwork 0 (VBool True) ''http2'' ''browser HTTP/2 pseudo-order with a gigabyte flow-control window (audit/admin)'',
     sdef ''l5.http2.priority_atypical'' LayerNetwork 0 (VBool True) ''http2'' ''browser HTTP/2 pseudo-order with no priority signal (audit/admin)'',
     sdef ''l5.http.browser_tls_over_h1'' LayerNetwork 0 (VBool True) ''http'' ''browser TLS fingerprint delivered over HTTP/1.1 (audit/admin)'',
     sdef ''l5.header.order'' LayerNetwork 0 (VBool True) ''header'' ''header order vs claimed browser'',
     sdef ''l5.header.h2_uppercase'' LayerNetwork 25 VNil ''header'' ''uppercase header in h2 (malformed)'',
     sdef ''l5.header.sec_fetch_missing'' LayerNetwork 25 VNil ''header'' ''Chrome UA but sec-fetch missing'',
     sdef ''l5.header.accept_encoding'' LayerNetwork 8 VNil ''header'' ''accept-encoding mismatch'',
     sdef ''l5.header.forwarded_private'' LayerNetwork 0 (VBool True) ''header'' ''forwarded client IP is private/reserved (audit/admin)'',
     sdef ''l5.header.proxy_hop'' LayerNetwork 0 (VBool True) ''proxy'' ''forward-proxy hop residual (audit/admin)'',
     sdef ''l5.header.client_ip_spoof'' LayerNetwork 0 (VBool True) ''proxy'' ''forged CDN/edge client-IP (audit/admin)'',
     sdef ''l5.header.xff_multi_hop'' LayerNetwork 0 (VBool True) ''proxy'' ''multi-hop XFF chain (audit/admin)'',
     sdef ''l5.proxy.vpn_webrtc_leak'' LayerNetwork 0 (VBool True) ''proxy'' (''WebRTC'' @ [CHR 0xE2, CHR 0x89, CHR 0xA0] @ ''TCP VPN leak (audit/admin)''),
     sdef ''l5.proxy.tor_circuit'' LayerNetwork 0 (VBool True) ''proxy'' ([CHR 0xE2, CHR 0x89, CHR 0xA5] @ ''3-hop XFF Tor-class path (audit/admin)''),
     sdef ''l5.proxy.anon_chain'' LayerNetwork 0 (VBool True) ''proxy'' ([CHR 0xE2, CHR 0x89, CHR 0xA5] @ ''4-hop anon open-proxy chain (audit/admin)''),
     sdef ''l5.tcp.not_observed'' LayerNetwork 0 (VBool True) ''tcp'' ''TCP L4 plane inactive (no SYN/PROXY TLV)'',
     sdef ''l5.tcp.ttl'' LayerNetwork 0 (VBool True) ''tcp'' ''observed IP TTL (audit)'',
     sdef ''l5.tcp.mss'' LayerNetwork 0 (VBool True) ''tcp'' ''TCP MSS option (audit)'',
     sdef ''l5.tcp.window'' LayerNetwork 0 (VBool True) ''tcp'' ''TCP initial window (audit)'',
     sdef ''l5.tcp.ttl_os'' LayerNetwork 0 (VBool True) ''tcp'' ''TTL/OS vs UA OS mismatch (audit/admin)'',
     sdef ''l5.ip.datacenter_asn'' LayerNetwork 0 (VBool True) ''ip'' ''datacenter/hosting ASN (audit/admin)'',
     sdef ''l5.ip.proxy_vpn_tor'' LayerNetwork 0 (VBool True) ''ip'' ''proxy/vpn exit (audit/admin)'',
     sdef ''l5.ip.tor_exit'' LayerNetwork 0 (VBool True) ''ip'' ''Tor exit relay (audit/admin)'']"

definition regL5RIT :: "sig_def list" where
  "regL5RIT =
    [sdef ''l5.rit.ok'' LayerNetwork 0 (VBool True) ''rit'' ''valid RIT token (no tamper)'',
     sdef ''l5.rit.bootstrap'' LayerNetwork 0 (VBool True) ''rit'' ''first-request token grace (one-shot)'',
     sdef ''l5.rit.absent'' LayerNetwork 30 VNil ''rit'' ''no RIT token on API call'',
     sdef ''l5.rit.invalid_hmac'' LayerNetwork 35 VNil ''rit'' ''RIT HMAC invalid'',
     sdef ''l5.rit.header_tampered'' LayerNetwork 40 VNil ''rit'' ''signed headers != observed'',
     sdef ''l5.rit.stale_replay'' LayerNetwork 30 VNil ''rit'' ''RIT counter/timebucket out of window'',
     sdef ''l5.rit.body_mismatch'' LayerNetwork 35 VNil ''rit'' ''body hash mismatch (fetch hook)'']"

definition regL5Resource :: "sig_def list" where
  "regL5Resource =
    [sdef ''l5.resource.mass_fetch'' LayerNetwork 15 VNil ''resource'' ''many resources in short window'',
     sdef ''l5.resource.no_referer'' LayerNetwork 10 VNil ''resource'' ''direct resource fetch, no navigation'',
     sdef ''l5.resource.rit_absent'' LayerNetwork 20 VNil ''resource'' ''resource fetch without RIT'',
     sdef ''l5.resource.hotlink'' LayerNetwork 8 VNil ''resource'' ''external referer resource fetch'']"

definition regL5Media :: "sig_def list" where
  "regL5Media =
    [sdef ''l5.media.range_storm'' LayerNetwork 25 VNil ''media'' ''parallel Range request storm'',
     sdef ''l5.media.no_playback_fetch'' LayerNetwork 18 VNil ''media'' ''full media fetched without playback'',
     sdef ''l5.media.hotlink'' LayerNetwork 10 VNil ''media'' ''external referer media fetch'',
     sdef ''l5.embed.origin_disallowed'' LayerNetwork 12 VNil ''embed'' ''embed from disallowed origin'',
     sdef ''l5.embed.token_stripped'' LayerNetwork 22 VNil ''embed'' ''RIT token absent in embed context'']"

definition regL7Pow :: "sig_def list" where
  "regL7Pow =
    [sdef ''l7.pow.solved'' LayerScoring 0 VNil ''pow'' ''valid PoW solution (trust upgrade)'',
     sdef ''l7.pow.failed'' LayerScoring 15 VNil ''pow'' ''invalid/expired PoW solution'',
     sdef ''l7.pow.refused'' LayerScoring 15 VNil ''pow'' ''PoW challenge ignored'']"

definition regL7Pass :: "sig_def list" where
  "regL7Pass =
    [sdef ''l7.pass.solved'' LayerScoring 0 VNil ''pass'' ''humanymous Pass cleared (trust upgrade)'',
     sdef ''l7.pass.velocity'' LayerScoring 25 VNil ''pass'' ''elevated Pass challenge/solve velocity (automation cadence)'',
     sdef ''l7.pass.flood'' LayerScoring 45 VNil ''pass'' ''Pass challenge/solve flood (mass automation)'']"

definition regL5Traffic :: "sig_def list" where
  "regL5Traffic =
    [sdef ''l5.traffic.ja4_rotation'' LayerNetwork 35 VNil ''traffic'' ''JA4 fingerprint changed mid-session'',
     sdef ''l5.traffic.engine_rotation'' LayerNetwork 40 VNil ''traffic'' ''TLS engine family changed mid-session'',
     sdef ''l5.traffic.ua_rotation'' LayerNetwork 30 VNil ''traffic'' ''User-Agent changed mid-session'',
     sdef ''l5.traffic.ip_hop'' LayerNetwork 0 (VBool True) ''traffic'' ''remote IP /24 changed mid-session (audit/admin)'',
     sdef ''l5.traffic.proto_downgrade'' LayerNetwork 15 VNil ''traffic'' ''repeated h2->h1 downgrade'',
     sdef ''l5.traffic.header_order_shift'' LayerNetwork 18 VNil ''traffic'' ''header order changed under same UA'',
     sdef ''l5.traffic.alpn_flap'' LayerNetwork 10 VNil ''traffic'' ''unstable ALPN across requests'',
     sdef ''l5.traffic.tls_no_permutation'' LayerNetwork 30 VNil ''traffic'' ''Chrome TLS extension order never permutes (static parrot)'']"

definition regL5Abuse :: "sig_def list" where
  "regL5Abuse =
    [sdef ''l5.abuse.rate_exceeded'' LayerNetwork 25 VNil ''abuse'' ''request rate over soft threshold (per fingerprint)'',
     sdef ''l5.abuse.flood'' LayerNetwork 45 VNil ''abuse'' ''request flood over hard threshold (DoS/credential-stuffing)'',
     sdef ''l5.h2dos.rapid_reset'' LayerNetwork 45 VNil ''abuse'' ''HTTP/2 Rapid Reset (HEADERS then immediate RST_STREAM flood)'',
     sdef ''l5.h2dos.continuation_flood'' LayerNetwork 45 VNil ''abuse'' ''HTTP/2 CONTINUATION flood (no END_HEADERS)'']"

definition regL5Correlation :: "sig_def list" where
  "regL5Correlation =
    [sdef ''l5.correlation.proxy_rotation'' LayerNetwork 0 (VBool True) ''correlation'' ''one fingerprint across many subnets (audit + NET-POLICY)'',
     sdef ''l5.correlation.shared_fingerprint'' LayerNetwork 0 (VBool True) ''correlation'' ''one fingerprint shared by many sessions (audit)'',
     sdef ''l5.correlation.fp_churn_proxy'' LayerNetwork 0 (VBool True) ''correlation'' ''mid-session fingerprintId churn (audit + NET-POLICY)'',
     sdef ''l5.correlation.ip_velocity'' LayerNetwork 0 (VBool True) ''correlation'' (''one fingerprint acquiring /24 subnets abnormally fast '' @ [CHR 0xE2, CHR 0x80, CHR 0x94] @ '' fleet-velocity derivative (audit)''),
     sdef ''l7.pow.too_fast'' LayerScoring 30 VNil ''pow'' ''PoW solved faster than JS-on-claimed-hardware (native/GPU solver)'']"

definition registryDecls :: "sig_def list" where
  "registryDecls = regL1Static @ regL2Fingerprint @ regL2Environment @ regL2Advanced @ regL3Integrity @ regL3Guard
     @ regL4Behavioral @ regL5Network @ regL5RIT @ regL5Resource @ regL5Media @ regL7Pow @ regL7Pass
     @ regL5Traffic @ regL5Abuse @ regL5Correlation"

lemmas reg_defs = regL1Static_def regL2Fingerprint_def regL2Environment_def regL2Advanced_def regL3Integrity_def
  regL3Guard_def regL4Behavioral_def regL5Network_def regL5RIT_def regL5Resource_def regL5Media_def
  regL7Pow_def regL7Pass_def regL5Traffic_def regL5Abuse_def regL5Correlation_def

text \<open>The package variable after initialisation; that no declaration panics is \<open>registry_init\<close>.\<close>

definition registry :: "(string \<times> sig_def) list" where
  "registry = map (\<lambda>d. (defID d, d)) registryDecls"

definition Lookup :: "string \<Rightarrow> sig_def option" where
  "Lookup i = map_of registry i"

definition AllDefs :: "sig_def list" where
  "AllDefs = map snd registry"

definition NewSignal :: "string \<Rightarrow> sig_value \<Rightarrow> string \<Rightarrow> rat \<Rightarrow> string \<Rightarrow> string \<Rightarrow> signal" where
  "NewSignal i val v conf src notes =
     (let (w, l, e) = (case map_of registry i of
                         Some d \<Rightarrow> (defWeight d, defLayer d, defExpected d)
                       | None \<Rightarrow> (0, [], VNil))
      in \<lparr>sigID = i, sigLayer = l, sigValue = val, sigExpected = e, sigVerdict = v, sigWeight = w,
          sigScore = ComputeScore w conf v, sigConfidence = conf, sigCollected = src, sigNotes = notes\<rparr>)"

definition GroupOf :: "string \<Rightarrow> string" where
  "GroupOf i = (case map_of registry i of Some d \<Rightarrow> defGroup d | None \<Rightarrow> [])"

section \<open>Facts\<close>

lemma clamp01_bounds [simp]: "0 \<le> clamp01 f" "clamp01 f \<le> 1"
  by (simp_all add: clamp01_def)

lemma clamp01_mono: "x \<le> y \<Longrightarrow> clamp01 x \<le> clamp01 y"
  by (simp add: clamp01_def)

lemma Severity_bounds: "0 \<le> Severity v" "Severity v \<le> 1"
  by (simp_all add: Severity_def)

text \<open>A score stays between zero and the weight of the definition.\<close>

lemma ComputeScore_bounds:
  assumes "0 \<le> w"
  shows "0 \<le> ComputeScore w c v" "ComputeScore w c v \<le> w"
  using assms by (simp_all add: ComputeScore_def Let_def)

lemma ComputeScore_zero [simp]: "ComputeScore 0 c v = 0"
  by (simp add: ComputeScore_def)

lemma initRegistry_distinct:
  "\<lbrakk>distinct (map defID ds); \<forall>d \<in> set ds. defID d \<notin> fst ` set reg\<rbrakk>
     \<Longrightarrow> initRegistry ds reg = Some (reg @ map (\<lambda>d. (defID d, d)) ds)"
proof (induction ds arbitrary: reg)
  case (Cons d ds)
  have new: "map_of reg (defID d) = None" using Cons.prems(2) by (simp add: map_of_eq_None_iff)
  have "defID e \<noteq> defID d" if "e \<in> set ds" for e
    using Cons.prems(1) that by (metis distinct.simps(2) image_eqI list.set_map list.simps(9))
  then have "\<forall>e \<in> set ds. defID e \<notin> fst ` set (reg @ [(defID d, d)])" using Cons.prems(2) by simp
  then have "initRegistry ds (reg @ [(defID d, d)])
               = Some ((reg @ [(defID d, d)]) @ map (\<lambda>d. (defID d, d)) ds)"
    using Cons.prems(1) by (intro Cons.IH) simp_all
  then show ?case using new by (simp add: def_sig_def)
qed simp

text \<open>Facts about the whole table are computed on the columns they mention.\<close>

lemma sdef_sel [simp]:
  "defID (sdef i l w e g d) = i" "defLayer (sdef i l w e g d) = l" "defWeight (sdef i l w e g d) = w"
  "defExpected (sdef i l w e g d) = e" "defGroup (sdef i l w e g d) = g"
  by (simp_all add: sdef_def)

lemma registry_ids_distinct: "distinct (map defID registryDecls)"
  unfolding registryDecls_def reg_defs
  by (simp only: list.map map_append append.simps sdef_sel) simp

lemma registry_weights: "list_all (\<lambda>d. 0 \<le> defWeight d \<and> defWeight d \<le> 45) registryDecls"
  unfolding registryDecls_def reg_defs
  by (simp only: list.pred_inject list_all_append sdef_sel simp_thms HOL.TrueI) simp

lemma registry_groups: "list_all (\<lambda>d. CHR 0x2F \<notin> set (defGroup d)) registryDecls"
  unfolding registryDecls_def reg_defs
  by (simp only: list.pred_inject list_all_append sdef_sel simp_thms HOL.TrueI) simp

lemma registry_init: "initRegistry registryDecls [] = Some registry"
  by (subst initRegistry_distinct) (simp_all add: registry_ids_distinct registry_def)

lemma Lookup_weight: "Lookup i = Some d \<Longrightarrow> 0 \<le> defWeight d \<and> defWeight d \<le> 45"
  using registry_weights by (auto simp: list_all_iff Lookup_def registry_def dest!: map_of_SomeD)

lemma GroupOf_no_slash: "CHR 0x2F \<notin> set (GroupOf i)"
proof (cases "map_of registry i")
  case (Some d)
  then have "d \<in> set registryDecls" by (auto simp: registry_def dest!: map_of_SomeD)
  then show ?thesis using Some registry_groups by (simp add: GroupOf_def list_all_iff)
qed (simp add: GroupOf_def)

lemma NewSignal_simps [simp]:
  "sigID (NewSignal i val v c src n) = i" "sigVerdict (NewSignal i val v c src n) = v"
  "sigCollected (NewSignal i val v c src n) = src"
  by (simp_all add: NewSignal_def Let_def split: option.split)

lemma NewSignal_score_bounds: "0 \<le> sigScore (NewSignal i val v c src n)" "sigScore (NewSignal i val v c src n) \<le> 45"
proof -
  have "sigScore (NewSignal i val v c src n)
          = ComputeScore (case Lookup i of Some d \<Rightarrow> defWeight d | None \<Rightarrow> 0) c v"
    by (simp add: NewSignal_def Lookup_def Let_def split: option.split)
  moreover have "0 \<le> (case Lookup i of Some d \<Rightarrow> defWeight d | None \<Rightarrow> 0)"
    "(case Lookup i of Some d \<Rightarrow> defWeight d | None \<Rightarrow> 0) \<le> 45"
    using Lookup_weight by (auto split: option.split)
  ultimately show "0 \<le> sigScore (NewSignal i val v c src n)" "sigScore (NewSignal i val v c src n) \<le> 45"
    using ComputeScore_bounds order_trans by metis+
qed

end
