(* ===== verification/Scoring.thy ===== *)
theory Scoring
  imports Signals Credentials
begin

text \<open>
  The L6 cross-checks and the L7 risk engine: package \<open>scoring\<close> (policy.go, combine.go, guard.go,
  environment.go, advanced.go, behavior.go, ua.go, crosscheck.go, hardrules.go, engine.go, scoretrace.go).

  Arguments of the model, collected in \<open>score_env\<close>: the behavioural model \<open>mlserve.Score\<close> loaded from a bundle
  (its prediction for a feature summary, with its abstain flag, and the threshold), the quoting \<open>%q\<close> of a
  note, and the order in which Go ranges over the two maps of the combination.
\<close>

section \<open>Policy (policy.go)\<close>

record policy =
  polVersion :: string
  polChallengeAt :: rat
  polDenyAt :: rat
  polLayerCap :: rat

definition DefaultPolicy :: policy where
  "DefaultPolicy = \<lparr>polVersion = ''1.0.0'', polChallengeAt = 30, polDenyAt = 70, polLayerCap = 60\<rparr>"

definition ScoreAllow :: string where "ScoreAllow = ''ALLOW''"
definition ScoreChallenge :: string where "ScoreChallenge = ''CHALLENGE''"
definition ScoreDeny :: string where "ScoreDeny = ''DENY''"

lemmas engine_verdict_defs = ScoreAllow_def ScoreChallenge_def ScoreDeny_def

definition verdictFor :: "policy \<Rightarrow> rat \<Rightarrow> string" where
  "verdictFor p score =
     (if polDenyAt p \<le> score then ScoreDeny
      else if polChallengeAt p \<le> score then ScoreChallenge
      else ScoreAllow)"

record ml_prediction =
  Abstain :: bool
  PBot :: rat

record score_env =
  mlScore :: "behavior_summary \<Rightarrow> ml_prediction"
  mlFireThreshold :: rat
  quoteGo :: "string \<Rightarrow> string"
  iterGroups :: "string list \<Rightarrow> string list"
  iterLayers :: "string list \<Rightarrow> string list"

section \<open>Combination (combine.go)\<close>

record scored =
  scID :: string
  scLayer :: layer
  scGroup :: string
  scScore :: rat

definition groupKey :: "scored \<Rightarrow> string" where
  "groupKey s = scLayer s @ ''/'' @ scGroup s"

text \<open>One step of the loop over the contributions: a group keeps its first highest-scoring member.\<close>

definition keepBest :: "(string \<times> scored) list \<Rightarrow> scored \<Rightarrow> (string \<times> scored) list" where
  "keepBest best s =
     (if scGroup s = [] then best
      else case map_of best (groupKey s) of
             None \<Rightarrow> AList.update (groupKey s) s best
           | Some cur \<Rightarrow> if scScore cur < scScore s then AList.update (groupKey s) s best else best)"

definition dedupGroups :: "(string list \<Rightarrow> string list) \<Rightarrow> scored list \<Rightarrow> scored list" where
  "dedupGroups iter xs =
     (let best = foldl keepBest [] xs;
          loose = filter (\<lambda>s. scGroup s = []) xs
      in map (the \<circ> map_of best) (iter (map fst best)) @ loose)"

definition layerAcc :: "(layer \<times> rat) list \<Rightarrow> layer \<Rightarrow> rat" where
  "layerAcc byLayer l = (case map_of byLayer l of Some p \<Rightarrow> p | None \<Rightarrow> 0)"

definition accLayer :: "(layer \<times> rat) list \<Rightarrow> scored \<Rightarrow> (layer \<times> rat) list" where
  "accLayer byLayer s =
     (let p = clamp01 (scScore s / 100); cur = layerAcc byLayer (scLayer s)
      in AList.update (scLayer s) (cur + p - cur * p) byLayer)"

definition capByLayer :: "(string list \<Rightarrow> string list) \<Rightarrow> scored list \<Rightarrow> rat \<Rightarrow> rat list" where
  "capByLayer iter xs cap =
     (let byLayer = foldl accLayer [] xs; capP = clamp01 (cap / 100)
      in map (\<lambda>l. let p = the (map_of byLayer l) in if capP < p then capP else p) (iter (map fst byLayer)))"

definition noisyOR :: "rat list \<Rightarrow> rat" where
  "noisyOR ps = 1 - foldl (\<lambda>prod p. prod * (1 - clamp01 p)) 1 ps"

definition Combine :: "score_env \<Rightarrow> scored list \<Rightarrow> policy \<Rightarrow> rat" where
  "Combine E xs p =
     (let deduped = dedupGroups (iterGroups E) xs;
          layerProbs = capByLayer (iterLayers E) deduped (polLayerCap p)
      in 100 * noisyOR layerProbs)"

definition topContributors :: "scored list \<Rightarrow> nat \<Rightarrow> contributor list" where
  "topContributors xs n =
     map (\<lambda>s. \<lparr>contribID = scID s, contribScore = scScore s\<rparr>)
       (takeWhile (\<lambda>s. 0 < scScore s) (take n (sort_key (\<lambda>s. - scScore s) xs)))"

section \<open>Derived signals\<close>

text \<open>A conditional \<open>add\<close> of the deriving functions.\<close>

definition addIf :: "bool \<Rightarrow> signal \<Rightarrow> signal list" where
  "addIf b s = (if b then [s] else [])"

subsection \<open>Guard (guard.go)\<close>

definition GuardSignals :: "guard_report \<Rightarrow> signal list" where
  "GuardSignals g =
     (let add = (\<lambda>i val v conf notes. NewSignal i val v conf SourceJS notes)
      in if \<not> Reported g then []
      else addIf (NativeHooked g)
             (add ''l3.guard.native_hooked'' (VBool True) SigBot 1 ''fetch/XHR/JSON/toString monkeypatched'')
         @ addIf (ConsoleDisabled g)
             (add ''l3.guard.console_disabled'' (VBool True) SigBot (9/10)
                ''Console API disabled/non-native (Patchright signature)'')
         @ addIf (ProtoPolluted g)
             (add ''l3.guard.proto_polluted'' (VBool True) SigBot 1 ''core prototype mutated'')
         @ addIf (0 < ScriptInjected g)
             (add ''l3.guard.script_injected'' (VInt (ScriptInjected g)) SigSuspicious (6/10)
                ''no-nonce script injected'')
         @ addIf (0 < EvalUsed g)
             (add ''l3.guard.eval_used'' (VInt (EvalUsed g)) SigSuspicious (4/10) ''eval/indirect-eval used'')
         @ addIf (0 < FuncCtor g)
             (add ''l3.guard.func_ctor'' (VInt (FuncCtor g)) SigSuspicious (4/10)
                ''Function constructor used''))"

subsection \<open>Environment (environment.go)\<close>

record environment_result =
  erSignals :: "signal list"
  erPrivacy :: bool

definition EnvironmentSignals :: "environment \<Rightarrow> bool \<Rightarrow> environment_result" where
  "EnvironmentSignals e hasClient =
     (let add = (\<lambda>i val v conf notes. NewSignal i val v conf SourceJS notes)
      in if hasClient \<and> \<not> envProbed e then
           \<lparr>erSignals = [add ''l2.env.probe_dead'' (VBool False) SigSuspicious (1/2)
                           ''client present but environment probe did not run''],
            erPrivacy = False\<rparr>
         else if \<not> envProbed e then \<lparr>erSignals = [], erPrivacy = False\<rparr>
         else
           let flags = (GPC e \<or> DoNotTrack e = ''1'' \<or> BraveShields e);
               tracking = (TrackingProtection e \<or> flags);
               blocks = (AdBlock e \<or> TrackingProtection e)
           in \<lparr>erSignals =
                 addIf (AdBlock e)
                   (add ''l2.env.adblock'' (VBool True) SigOK 1 ''ad-block active (privacy user)'')
               @ addIf tracking
                   (add ''l2.env.tracking_protection'' (VBool True) SigOK 1 ''tracking protection active'')
               @ addIf (flags \<and> \<not> blocks)
                   (add ''l2.env.privacy_inconsistent'' (VBool True) SigSuspicious (6/10)
                      ''privacy flags set but no blocking behavior observed''),
               erPrivacy = (AdBlock e \<or> tracking)\<rparr>)"

subsection \<open>User agents (ua.go)\<close>

text \<open>
  \<open>strings.ToLower\<close> as far as a comparison with ASCII text can see it: the ASCII letters, and the two other
  runes whose lower case is ASCII, the Kelvin sign (\<open>E2 84 AA\<close>) and the dotted capital I (\<open>C4 B0\<close>).
\<close>

fun lowerText :: "string \<Rightarrow> string" where
  "lowerText [] = []"
| "lowerText (a # b # c # cs) =
     (if a = CHR 0xE2 \<and> b = CHR 0x84 \<and> c = CHR 0xAA then CHR ''k'' # lowerText cs
      else if a = CHR 0xC4 \<and> b = CHR 0xB0 then CHR ''i'' # lowerText (c # cs)
      else lowerChar a # lowerText (b # c # cs))"
| "lowerText [a, b] = (if a = CHR 0xC4 \<and> b = CHR 0xB0 then ''i'' else [lowerChar a, lowerChar b])"
| "lowerText [a] = [lowerChar a]"

definition claimedEngine :: "string \<Rightarrow> string" where
  "claimedEngine ua =
     (let u = lowerText ua
      in if containsStr u ''firefox'' then ''firefox''
         else if containsStr u ''chrome'' \<or> containsStr u ''chromium'' \<or> containsStr u ''edg/'' then ''chrome''
         else if containsStr u ''safari'' \<and> \<not> containsStr u ''chrome'' then ''safari''
         else ''other'')"

definition claimsChromium :: "string \<Rightarrow> bool" where
  "claimsChromium ua \<longleftrightarrow> claimedEngine ua = ''chrome''"

definition libraryAgents :: "string list" where
  "libraryAgents = [''go-http-client'', ''python-requests'', ''curl/'', ''okhttp'', ''axios'', ''node-fetch'',
     ''java/'', ''libwww'']"

definition isBrowserUA :: "string \<Rightarrow> bool" where
  "isBrowserUA ua =
     (let u = lowerText ua
      in if u = [] then False
         else if \<exists>lib \<in> set libraryAgents. containsStr u lib then False
         else containsStr u ''mozilla'')"

definition engineConsistent :: "string \<Rightarrow> string \<Rightarrow> bool" where
  "engineConsistent claimed observed \<longleftrightarrow>
     (if observed = [] \<or> observed = ''unknown'' then True else claimed = observed)"

subsection \<open>Advanced surfaces (advanced.go)\<close>

definition gpuKeywords :: "string list" where
  "gpuKeywords = [''nvidia'', ''amd'', ''ati'', ''intel'', ''apple'', ''qualcomm'', ''adreno'', ''mali'', ''arm'',
     ''google'', ''microsoft'', ''swiftshader'', ''llvmpipe'']"

definition containsAnyGPU :: "string \<Rightarrow> bool" where
  "containsAnyGPU s \<longleftrightarrow> (\<exists>kw \<in> set gpuKeywords. containsStr s kw)"

definition gpuVendorsAgree :: "string \<Rightarrow> string \<Rightarrow> bool" where
  "gpuVendorsAgree webgl webgpu =
     (let a = lowerText webgl; b = lowerText webgpu
      in if \<exists>kw \<in> set gpuKeywords. containsStr a kw \<and> containsStr b kw then True
         else \<not> containsAnyGPU a \<or> \<not> containsAnyGPU b)"

definition AdvancedSignals :: "advanced \<Rightarrow> string \<Rightarrow> signal list" where
  "AdvancedSignals a ua =
     (let add = (\<lambda>i val v conf notes. NewSignal i val v conf SourceJS notes);
          claimsChrome = containsStr (lowerText ua) ''chrome'';
          desktop = (\<not> MobileUA a)
      in if \<not> advProbed a then []
      else addIf (AudioSampleRate a = 24000)
             (add ''l2.adv.audio_24k'' (VFloat (AudioSampleRate a)) SigBot (8/10)
                ''AudioContext sampleRate 24000 (no audio hardware)'')
         @ addIf (VoiceCount a = 0)
             (add ''l2.adv.no_voices'' (VInt 0) SigSuspicious (1/2) ''no speech-synthesis voices'')
         @ addIf (desktop \<and> MediaDeviceCount a = 0)
             (add ''l2.adv.no_media_devices'' (VInt 0) SigSuspicious (35/100)
                ''enumerateDevices empty on desktop'')
         @ addIf (claimsChrome \<and> \<not> WidevineSupported a)
             (add ''l2.adv.no_widevine'' (VBool False) SigSuspicious (6/10)
                ''Widevine unsupported under Chrome UA'')
         @ addIf (ConnectionPresent a \<and> ConnectionRTT a = 0 \<and> desktop)
             (add ''l2.adv.rtt_zero'' (VInt 0) SigSuspicious (4/10) ''connection.rtt 0'')
         @ addIf (MeasureMemThrows a)
             (add ''l2.adv.measure_mem_throws'' (VBool True) SigSuspicious (1/2)
                ''measureUserAgentSpecificMemory throws'')
         @ addIf (WebGPUPresent a \<and> WebGPUVendor a \<noteq> [] \<and> WebGLVendor a \<noteq> []
                  \<and> \<not> gpuVendorsAgree (WebGLVendor a) (WebGPUVendor a))
             (add ''l2.adv.webgpu_mismatch''
                (VObj [(''webgl'', VStr (WebGLVendor a)), (''webgpu'', VStr (WebGPUVendor a))])
                SigBot (9/10) ''WebGL vs WebGPU GPU vendor mismatch (spoof)'')
         @ addIf (MobileUA a \<and> MaxTouchPoints a = 0 \<and> \<not> PointerCoarse a)
             (add ''l2.adv.mobile_inconsistent''
                (VObj [(''touch'', VInt (MaxTouchPoints a)), (''coarse'', VBool (PointerCoarse a))])
                SigBot (8/10) ''mobile UA with desktop pointer/touch profile''))"

subsection \<open>Behaviour (behavior.go)\<close>

record behavior_thresholds =
  minMouseSamples :: int
  minKeystrokes :: int
  straightnessHi :: rat
  velocityStdLo :: rat
  dwellStdLo :: rat
  flightStdLo :: rat
  teleportPx :: rat

definition defaultBehaviorThresholds :: behavior_thresholds where
  "defaultBehaviorThresholds = \<lparr>minMouseSamples = 12, minKeystrokes = 6, straightnessHi = 103/100,
     velocityStdLo = 2/100, dwellStdLo = 3, flightStdLo = 5, teleportPx = 400\<rparr>"

definition sampleConfidence :: "int \<Rightarrow> int \<Rightarrow> rat" where
  "sampleConfidence n mn =
     (if n \<le> mn then 1/2
      else let c = 1/2 + 1/2 * of_int (n - mn) / of_int (mn * 4) in if 1 < c then 1 else c)"

definition mlConfidence :: "rat \<Rightarrow> rat" where
  "mlConfidence p = (let d = p - 1/2; d' = (if d < 0 then - d else d) in 2 * d')"

definition wasmSignal :: "string \<Rightarrow> sig_value \<Rightarrow> string \<Rightarrow> rat \<Rightarrow> string \<Rightarrow> signal" where
  "wasmSignal i val v conf notes = NewSignal i val v conf SourceWASM notes"

definition eventSignals :: "behavior_summary \<Rightarrow> signal list" where
  "eventSignals b =
     (let m = Mouse b; k = KeyF b; ev = Events b
      in addIf (mouseSamples m < 4 \<and> Keystrokes k = 0 \<and> 3/2 < DurationS b)
           (wasmSignal ''l4.event.no_interaction'' (VInt (mouseSamples m)) SigSuspicious (6/10)
              ''no meaningful human input over observation window'')
       @ (if 0 < TotalEvents ev then
            (if 0 < UntrustedFrac ev
             then [wasmSignal ''l4.event.untrusted'' (VFloat (UntrustedFrac ev)) SigBot 1
                     ''synthetic dispatchEvent detected'']
             else [wasmSignal ''l4.event.untrusted'' (VInt 0) SigOK 1 []])
          @ addIf (0 < NoMoveClicks ev)
              (wasmSignal ''l4.event.no_move_click'' (VInt (NoMoveClicks ev)) SigSuspicious (7/10)
                 ''clicks without preceding movement'')
          @ addIf (0 < SyntheticFlags ev)
              (wasmSignal ''l4.event.perfect_timing'' (VInt (SyntheticFlags ev)) SigSuspicious (6/10)
                 ''zero-jitter timing artifacts'')
          else []))"

text \<open>The product \<open>ClickCount*3\<close> is an \<open>int\<close> product and wraps around.\<close>

definition agentSignals :: "behavior_summary \<Rightarrow> signal list" where
  "agentSignals b =
     (let m = Mouse b; k = KeyF b; ev = Events b
      in addIf (2 \<le> LongGapCount ev \<and> 8 \<le> TotalEvents ev \<and> 0 < MinReactionMs ev \<and> MinReactionMs ev < 150
                \<and> BurstVarMs ev < 2500)
           (wasmSignal ''l4.agent.burst_silence''
              (VObj [(''gaps'', VInt (LongGapCount ev)), (''react'', VFloat (MinReactionMs ev))])
              SigBot (6/10) ''LLM inference-loop cadence (pause->instant burst)'')
       @ addIf (2 \<le> ClickCount ev \<and> mouseSamples m < wrap64 (ClickCount ev * 3))
           (wasmSignal ''l4.mouse.click_no_trajectory'' (VInt (mouseSamples m)) SigBot (6/10)
              ''clicks without an approach trajectory (agent teleport-click)'')
       @ addIf (4 \<le> Keystrokes k \<and> 0 < MeanFlightMs k \<and> MeanFlightMs k < 25)
           (wasmSignal ''l4.key.machine_speed'' (VFloat (MeanFlightMs k)) SigBot (7/10)
              ''machine-speed inter-key latency''))"

definition mouseSignals :: "behavior_summary \<Rightarrow> signal list" where
  "mouseSignals b =
     (let t = defaultBehaviorThresholds; m = Mouse b; ev = Events b;
          conf = sampleConfidence (mouseSamples m) (minMouseSamples t)
      in if minMouseSamples t \<le> mouseSamples m then
           addIf (8/10 < StraightLineFrac m \<or> (0 < MeanCurvature m \<and> MeanCurvature m < 1/1000))
             (wasmSignal ''l4.mouse.straightness'' (VFloat (StraightLineFrac m)) SigSuspicious conf
                ''near-straight-line trajectories'')
         @ addIf (VelocityStdDev m < velocityStdLo t)
             (wasmSignal ''l4.mouse.velocity_std'' (VFloat (VelocityStdDev m)) SigSuspicious conf
                ''near-zero velocity variance (too regular)'')
         @ addIf (teleportPx t < MaxTeleportPx m)
             (wasmSignal ''l4.mouse.max_teleport'' (VFloat (MaxTeleportPx m)) SigSuspicious conf
                ''large instantaneous cursor jump'')
         @ addIf (0 < CoalescedRatio m \<and> CoalescedRatio m \<le> 105/100)
             (wasmSignal ''l4.mouse.coalesced_synthetic'' (VFloat (CoalescedRatio m)) SigSuspicious (1/2)
                ''pointermoves carry no coalesced sub-events (synthetic input)'')
         else
           addIf (mouseSamples m = 0 \<and> 0 < NoMoveClicks ev)
             (wasmSignal ''l4.mouse.samples'' (VInt 0) SigSuspicious (6/10)
                ''interaction without any mouse movement''))"

definition keySignals :: "behavior_summary \<Rightarrow> signal list" where
  "keySignals b =
     (let t = defaultBehaviorThresholds; k = KeyF b;
          conf = sampleConfidence (Keystrokes k) (minKeystrokes t)
      in (if minKeystrokes t \<le> Keystrokes k then
            addIf (DwellStdDevMs k < dwellStdLo t)
              (wasmSignal ''l4.key.dwell_std'' (VFloat (DwellStdDevMs k)) SigSuspicious conf
                 ''near-zero dwell variance (fixed-delay typing)'')
          @ addIf (FlightStdDev k < flightStdLo t)
              (wasmSignal ''l4.key.flight_std'' (VFloat (FlightStdDev k)) SigSuspicious conf
                 ''near-zero flight variance'')
          @ addIf (1/2 < ZeroDwellFrac k)
              (wasmSignal ''l4.key.zero_dwell_frac'' (VFloat (ZeroDwellFrac k)) SigBot conf
                 ''majority synthetic zero-dwell keys'')
          else [])
       @ addIf (0 < PasteEvents k \<and> Keystrokes k = 0)
           (wasmSignal ''l4.key.paste'' (VInt (PasteEvents k)) SigSuspicious (6/10)
              ''field populated by paste with no keystrokes''))"

definition mlSignals :: "score_env \<Rightarrow> behavior_summary \<Rightarrow> signal list" where
  "mlSignals E b =
     (let pred = mlScore E b
      in addIf (\<not> Abstain pred)
           (wasmSignal ''l4.ml.behavioral'' (VFloat (PBot pred))
              (if mlFireThreshold E \<le> PBot pred then SigSuspicious else SigOK)
              (mlConfidence (PBot pred)) ''behavioral model p(bot)''))"

definition BehaviorSignals :: "score_env \<Rightarrow> behavior_summary \<Rightarrow> signal list" where
  "BehaviorSignals E b = eventSignals b @ agentSignals b @ mouseSignals b @ keySignals b @ mlSignals E b"

section \<open>Cross-checks (crosscheck.go)\<close>

definition crossWeights :: "(string \<times> rat) list" where
  "crossWeights = [(''x.ua_vs_ja4'', 50), (''x.ua_vs_h2'', 45), (''x.uach_present'', 40), (''x.uach_vs_js'', 35),
     (''x.ua_vs_header'', 35), (''x.non_browser_ua'', 45), (''x.browser_no_js'', 45)]"

definition mkCross :: "string \<Rightarrow> string list \<Rightarrow> string \<Rightarrow> string \<Rightarrow> bool \<Rightarrow> string \<Rightarrow> cross_check" where
  "mkCross i inputs claim observed consistent notes =
     (let w = (case map_of crossWeights i of Some w \<Rightarrow> w | None \<Rightarrow> 0)
      in \<lparr>xID = i, xInputs = inputs, xClaim = claim, xObserved = observed, xConsistent = consistent,
          xWeight = w, xScore = (if consistent then 0 else w), xNotes = notes\<rparr>)"

definition uachMatchesJS :: "session_report \<Rightarrow> bool" where
  "uachMatchesJS r =
     (let p0 = lowerText (trimSpace (hintPlatform (UAClientHints (Client r))));
          p = trimQuotes p0;
          ua = lowerText (cUserAgent (Client r))
      in if p0 = [] then False
         else if containsStr ua ''android'' then p = ''android''
         else if containsStr ua ''iphone'' \<or> containsStr ua ''ipad'' \<or> containsStr ua ''ipod''
              then p = ''ios'' \<or> p = ''macos''
         else if containsStr ua ''windows'' then p = ''windows''
         else if containsStr ua ''mac os'' \<or> containsStr ua ''macintosh'' then p = ''macos'' \<or> p = ''mac os''
         else if containsStr ua ''cros'' \<or> containsStr ua ''chromium os''
              then p = ''chrome os'' \<or> p = ''chromium os''
         else if containsStr ua ''linux'' then p = ''linux'' \<or> p = ''chrome os'' \<or> p = ''chromium os''
         else True)"

definition crossIf :: "bool \<Rightarrow> cross_check list \<Rightarrow> cross_check list" where
  "crossIf b xs = (if b then xs else [])"

text \<open>No client-side execution evidence: the predicate of \<open>x.browser_no_js\<close>.\<close>

definition noJS :: "client_report \<Rightarrow> bool" where
  "noJS c \<longleftrightarrow> cSignals c = [] \<and> \<not> advProbed (cAdvanced c)
     \<and> mouseSamples (Mouse (cBehavior c)) = 0 \<and> TotalEvents (Events (cBehavior c)) = 0"

definition CrossChecks :: "score_env \<Rightarrow> session_report \<Rightarrow> cross_check list" where
  "CrossChecks E r =
     (let c = Client r; n = Network r; ua = cUserAgent c; claimed = claimedEngine ua;
          hasBrowserClaim = (claimed = ''chrome'' \<or> claimed = ''firefox'' \<or> claimed = ''safari'')
      in crossIf (ua \<noteq> [] \<and> \<not> isBrowserUA ua)
           [mkCross ''x.non_browser_ua'' [''client.userAgent''] ''UA looks like a browser''
              ''UA matches a known HTTP library'' False (''UA='' @ quoteGo E ua @ '' not a browser'')]
       @ crossIf (isBrowserUA ua)
           [mkCross ''x.browser_no_js''
              [''client.userAgent'', ''client.signals'', ''client.advanced'', ''client.behavior'']
              ''browser UA implies JS/WASM execution'' ''no client-side execution evidence delivered''
              (\<not> noJS c) ''browser UA but zero JS/WASM execution evidence (HTTP parrot)'']
       @ crossIf (hasBrowserClaim \<and> JA4Engine n \<noteq> [])
           [mkCross ''x.ua_vs_ja4'' [''client.userAgent'', ''network.ja4''] (''UA='' @ claimed)
              (''JA4 engine='' @ JA4Engine n) (engineConsistent claimed (JA4Engine n))
              ''TLS stack vs claimed browser'']
       @ crossIf (hasBrowserClaim \<and> H2Engine n \<noteq> [])
           [mkCross ''x.ua_vs_h2'' [''client.userAgent'', ''network.akamaiH2''] (''UA='' @ claimed)
              (''H2 engine='' @ H2Engine n) (engineConsistent claimed (H2Engine n))
              ''HTTP/2 profile vs claimed browser'']
       @ crossIf (claimsChromium ua)
           [mkCross ''x.uach_present'' [''client.userAgent'', ''network.secChUa'']
              ''Chromium always sends Sec-CH-UA'' ''Sec-CH-UA present'' (SecCHUAPresent n) ''UA-CH presence'',
            mkCross ''x.ua_vs_header'' [''client.userAgent'', ''network.secFetch'']
              ''Chromium sends sec-fetch-*'' ''sec-fetch present'' (SecFetchPresent n) ''sec-fetch presence'']
       @ crossIf (Brands (UAClientHints c) \<noteq> [] \<and> SecCHUAPresent n)
           [mkCross ''x.uach_vs_js'' [''network.secChUa'', ''client.uaClientHints''] ''header UA-CH''
              ''JS userAgentData'' (uachMatchesJS r) ''UA-CH header vs JS''])"

section \<open>Hard rules (hardrules.go)\<close>

record rule_context =
  rcSigs :: "signal list"
  rcCross :: "cross_check list"
  rcHasClient :: bool
  rcBrowserClaim :: bool
  rcCombined :: rat
  rcRuleModes :: "smap option"
  rcNetPolicy :: "smap option"

record hard_verdict =
  hvVerdict :: string
  hvRule :: string

definition fired :: "rule_context \<Rightarrow> string \<Rightarrow> bool" where
  "fired c i \<longleftrightarrow> (\<exists>s \<in> set (rcSigs c). sigID s = i \<and> (sigVerdict s = SigBot \<or> sigVerdict s = SigSuspicious))"

definition firedBot :: "rule_context \<Rightarrow> string \<Rightarrow> bool" where
  "firedBot c i \<longleftrightarrow> (\<exists>s \<in> set (rcSigs c). sigID s = i \<and> sigVerdict s = SigBot)"

definition crossFail :: "rule_context \<Rightarrow> string \<Rightarrow> bool" where
  "crossFail c i \<longleftrightarrow> (\<exists>x \<in> set (rcCross c). xID x = i \<and> \<not> xConsistent x)"

definition netClassMode :: "smap option \<Rightarrow> string \<Rightarrow> string" where
  "netClassMode np cls =
     (case np of
        None \<Rightarrow> ''enforce''
      | Some m \<Rightarrow> (case map_of m cls of
                    Some v \<Rightarrow> if v \<noteq> [] then v else if cls = ''net.correlation'' then ''enforce'' else ''monitor''
                  | None \<Rightarrow> if cls = ''net.correlation'' then ''enforce'' else ''monitor''))"

record promo_rule =
  prID :: string
  prVerdict :: string
  prPred :: "rule_context \<Rightarrow> bool"
  prWhy :: string

text \<open>The composite literal of one row of \<open>promotionRules\<close>.\<close>

definition promoRule :: "string \<Rightarrow> string \<Rightarrow> (rule_context \<Rightarrow> bool) \<Rightarrow> string \<Rightarrow> promo_rule" where
  "promoRule i v p w = \<lparr>prID = i, prVerdict = v, prPred = p, prWhy = w\<rparr>"

text \<open>The predicate of HR-24, its early returns as a disjunction in the order of the code.\<close>

definition netResidual :: "rule_context \<Rightarrow> bool" where
  "netResidual c =
     (let enf = (\<lambda>cls. netClassMode (rcNetPolicy c) cls = ''enforce'')
      in if enf ''net.proxy.hop'' \<and> firedBot c ''l5.header.proxy_hop'' then True
         else if enf ''net.vpn'' \<and> firedBot c ''l5.proxy.vpn_webrtc_leak'' then True
         else if enf ''net.proxy.spoof''
                 \<and> (firedBot c ''l5.header.client_ip_spoof'' \<or> firedBot c ''l5.header.forwarded_private'') then True
         else if enf ''net.proxy.anon'' \<and> firedBot c ''l5.proxy.anon_chain'' then True
         else if enf ''net.tor'' \<and> (fired c ''l5.proxy.tor_circuit'' \<or> fired c ''l5.ip.tor_exit'') then True
         else if enf ''net.h2.spoof'' \<and> rcBrowserClaim c
                 \<and> (fired c ''l5.http2.unknown_under_browser'' \<or> fired c ''l5.http2.browser_settings_atypical''
                    \<or> fired c ''l5.http2.flow_control_atypical'' \<or> fired c ''l5.http2.priority_atypical'') then True
         else if enf ''net.header.order'' \<and> rcBrowserClaim c \<and> fired c ''l5.header.order'' then True
         else if enf ''net.tls.pq'' \<and> rcBrowserClaim c \<and> fired c ''l5.tls.pq_keyshare'' then True
         else if enf ''net.tls.alps'' \<and> rcBrowserClaim c \<and> fired c ''l5.tls.alps_absent'' then True
         else if enf ''net.tls.certcomp'' \<and> rcBrowserClaim c \<and> fired c ''l5.tls.cert_compression_absent'' then True
         else if enf ''net.http.h1'' \<and> rcBrowserClaim c \<and> fired c ''l5.http.browser_tls_over_h1'' then True
         else if enf ''net.tls.ech'' \<and> rcBrowserClaim c \<and> fired c ''l5.tls.ech_absent'' then True
         else if enf ''net.proxy.hop'' \<and> fired c ''l5.header.xff_multi_hop'' \<and> fired c ''l5.traffic.ip_hop'' then True
         else if enf ''net.proxy.hop'' then rcBrowserClaim c \<and> fired c ''l5.ip.proxy_vpn_tor''
         else False)"

text \<open>The predicate of HR-19.\<close>

definition correlationRule :: "rule_context \<Rightarrow> bool" where
  "correlationRule c =
     (if firedBot c ''l7.pow.too_fast'' then True
      else if netClassMode (rcNetPolicy c) ''net.correlation'' = ''monitor'' then False
      else firedBot c ''l5.correlation.proxy_rotation'' \<or> firedBot c ''l5.correlation.fp_churn_proxy'')"

definition dashText :: string where
  "dashText = [CHR 0xE2, CHR 0x80, CHR 0x94]"

definition artifactRules :: "promo_rule list" where
  "artifactRules =
    [promoRule ''HR-1'' ScoreDeny
       (\<lambda>c. firedBot c ''l1.artifact.selenium'' \<or> firedBot c ''l1.artifact.playwright''
            \<or> firedBot c ''l1.artifact.phantom'')
       ''hard automation artifact (Selenium/Puppeteer/Playwright)'',
     promoRule ''HR-2'' ScoreDeny
       (\<lambda>c. crossFail c ''x.ua_vs_ja4'' \<and> crossFail c ''x.ua_vs_h2'')
       ''UA claims a browser but TLS + HTTP/2 both resolve to a different engine'',
     promoRule ''HR-3'' ScoreDeny
       (\<lambda>c. firedBot c ''l4.event.untrusted'' \<and> (fired c ''l1.navigator.webdriver'' \<or> fired c ''l1.cdp.runtime_enable''))
       ''synthetic (untrusted) events plus a webdriver/CDP tell'',
     promoRule ''HR-4'' ScoreDeny
       (\<lambda>c. fired c ''l1.navigator.webdriver'' \<and> fired c ''l3.integrity.native_tostring'')
       ''webdriver flag plus a patched native getter hiding it'',
     promoRule ''HR-5'' ScoreDeny
       (\<lambda>c. (firedBot c ''l5.rit.header_tampered'' \<or> firedBot c ''l5.rit.invalid_hmac'') \<and> crossFail c ''x.ua_vs_ja4'')
       ''RIT tamper/invalid HMAC together with a TLS engine mismatch'',
     promoRule ''HR-6'' ScoreDeny
       (\<lambda>c. (firedBot c ''l3.guard.native_hooked'' \<or> firedBot c ''l3.guard.proto_polluted'')
            \<and> (fired c ''l1.navigator.webdriver'' \<or> fired c ''l1.cdp.runtime_enable''))
       ''runtime hooking / prototype pollution plus a webdriver/CDP tell'',
     promoRule ''HR-7'' ScoreDeny
       (\<lambda>c. firedBot c ''l1.ua.headless_token''
            \<and> (fired c ''l1.navigator.webdriver'' \<or> fired c ''l1.window.outer_eq_inner''
               \<or> fired c ''l3.integrity.native_tostring''))
       ''headless browser plus a second automation indicator'',
     promoRule ''HR-8'' ScoreDeny
       (\<lambda>c. fired c ''l3.integrity.native_tostring''
            \<and> (firedBot c ''l1.ua.headless_token'' \<or> fired c ''l1.window.outer_eq_inner''
               \<or> fired c ''l3.integrity.iframe_recheck''))
       ''patched native getter in a chromeless/headless window (stealth tool)'',
     promoRule ''HR-9'' ScoreDeny
       (\<lambda>c. (firedBot c ''l1.cdp.runtime_enable'' \<or> firedBot c ''l1.cdp.proxy_leak'')
            \<and> (fired c ''l1.navigator.webdriver'' \<or> fired c ''l1.window.outer_eq_inner''
               \<or> firedBot c ''l1.ua.headless_token'' \<or> fired c ''l3.integrity.native_tostring''
               \<or> fired c ''l4.event.no_interaction''))
       ''a CDP leak together with any automation hint'',
     promoRule ''HR-13'' ScoreDeny
       (\<lambda>c. firedBot c ''l3.guard.console_disabled''
            \<and> (fired c ''l1.window.outer_eq_inner'' \<or> firedBot c ''l1.ua.headless_token''
               \<or> fired c ''l4.event.no_interaction'' \<or> fired c ''l3.integrity.native_tostring''))
       ''a disabled Console API (Patchright) plus a chromeless/automation tell'']"

definition noClientRules :: "promo_rule list" where
  "noClientRules =
    [promoRule ''HR-10'' ScoreChallenge (\<lambda>c. \<not> rcHasClient c) ''no client-side (WASM/JS) signals at all'']"

definition integrityRules :: "promo_rule list" where
  "integrityRules =
    [promoRule ''HR-16'' ScoreDeny
       (\<lambda>c. firedBot c ''l5.rit.header_tampered'' \<or> firedBot c ''l5.rit.invalid_hmac''
            \<or> firedBot c ''l5.rit.body_mismatch'')
       ''a RIT token that fails the body HMAC (request-body tamper)'',
     promoRule ''HR-14'' ScoreDeny
       (\<lambda>c. firedBot c ''l5.traffic.engine_rotation'' \<or> firedBot c ''l5.traffic.ja4_rotation'')
       ''the TLS fingerprint rotated within one session'',
     promoRule ''HR-18'' ScoreDeny (\<lambda>c. crossFail c ''x.browser_no_js'')
       ''a browser UA that delivered zero client-side JS evidence (HTTP parrot)'',
     promoRule ''HR-20'' ScoreDeny
       (\<lambda>c. firedBot c ''l4.mouse.click_no_trajectory''
            \<and> (firedBot c ''l4.agent.burst_silence'' \<or> firedBot c ''l4.key.machine_speed''
               \<or> fired c ''l4.mouse.coalesced_synthetic'' \<or> firedBot c ''l1.cdp.proxy_leak''
               \<or> firedBot c ''l1.cdp.runtime_enable''))
       ''AI browser-agent signature (teleport click + a second agent/CDP tell)'',
     promoRule ''HR-19'' ScoreDeny correlationRule
       ''NET-POLICY: proxy rotation / fp-churn (audit+admin; score-exempt residual)'',
     promoRule ''HR-21'' ScoreDeny
       (\<lambda>c. firedBot c ''l5.h2dos.rapid_reset'' \<or> firedBot c ''l5.h2dos.continuation_flood'')
       ''HTTP-2 DoS (Rapid Reset / CONTINUATION flood)'',
     promoRule ''HR-15'' ScoreDeny
       (\<lambda>c. fired c ''l5.traffic.ua_rotation''
            \<and> (firedBot c ''l5.traffic.ja4_rotation'' \<or> fired c ''l5.traffic.ip_hop''))
       ''multi-axis rotation (UA changed together with TLS/IP rotation)'']"

definition challengeRules :: "promo_rule list" where
  "challengeRules =
    [promoRule ''HR-17'' ScoreChallenge
       (\<lambda>c. fired c ''l5.rit.stale_replay'' \<or> firedBot c ''l5.rit.absent'')
       ''a replayed or absent RIT token on an API call'',
     promoRule ''HR-12'' ScoreChallenge (\<lambda>c. fired c ''l4.event.no_interaction'')
       (''zero interaction over the observation window (heuristic '' @ dashText @ '' can catch some humans)''),
     promoRule ''HR-11'' ScoreChallenge
       (\<lambda>c. rcBrowserClaim c \<and> fired c ''l5.ip.datacenter_asn''
            \<and> \<not> crossFail c ''x.ua_vs_ja4'' \<and> \<not> crossFail c ''x.ua_vs_h2'')
       ''a consistent browser from a datacenter ASN'',
     promoRule ''HR-22'' ScoreChallenge
       (\<lambda>c. firedBot c ''l2.adv.audio_24k'' \<or> firedBot c ''l2.adv.webgpu_mismatch''
            \<or> firedBot c ''l2.adv.mobile_inconsistent'')
       ''near-ceiling advanced residual (audio 24k / GPU mismatch / mobile-desktop profile)'',
     promoRule ''HR-23'' ScoreChallenge
       (\<lambda>c. rcBrowserClaim c \<and> fired c ''l2.adv.no_widevine'' \<and> fired c ''l2.adv.no_media_devices''
            \<and> fired c ''l2.adv.no_voices'')
       ''Chrome UA with Chromium-container residual (no Widevine/media/voices)'',
     promoRule ''HR-24'' ScoreChallenge netResidual
       (''NET-POLICY: network residual (proxy/VPN/Tor) '' @ dashText @ '' audit+admin; score-exempt'')]"

definition promotionRules :: "promo_rule list" where
  "promotionRules = artifactRules @ noClientRules @ integrityRules @ challengeRules"

definition ruleModeOf :: "smap option \<Rightarrow> string \<Rightarrow> string" where
  "ruleModeOf modes i =
     (case modes of
        None \<Rightarrow> ''enforce''
      | Some m \<Rightarrow> (case map_of m i of Some v \<Rightarrow> if v \<noteq> [] then v else ''enforce'' | None \<Rightarrow> ''enforce''))"

definition demoted :: "rule_context \<Rightarrow> promo_rule \<Rightarrow> bool" where
  "demoted c r \<longleftrightarrow> ruleModeOf (rcRuleModes c) (prID r) = ''monitor'' \<or> ruleModeOf (rcRuleModes c) (prID r) = ''off''"

fun firstRule :: "rule_context \<Rightarrow> promo_rule list \<Rightarrow> hard_verdict" where
  "firstRule c [] = \<lparr>hvVerdict = [], hvRule = []\<rparr>"
| "firstRule c (r # rs) =
     (if demoted c r then firstRule c rs
      else if prPred r c then \<lparr>hvVerdict = prVerdict r, hvRule = prID r\<rparr>
      else firstRule c rs)"

definition applyPromotionRules :: "rule_context \<Rightarrow> hard_verdict" where
  "applyPromotionRules c = firstRule c promotionRules"

definition applyWeightMultipliers :: "scored list \<Rightarrow> (string \<times> rat) list \<Rightarrow> scored list" where
  "applyWeightMultipliers xs mult =
     (if mult = [] then xs
      else map (\<lambda>s. case map_of mult (scID s) of
                      None \<Rightarrow> s
                    | Some m0 \<Rightarrow>
                        let m1 = (if m0 < 0 then 0 else m0); m2 = (if 2 < m1 then 2 else m1)
                        in s\<lparr>scScore := scScore s * m2\<rparr>) xs)"

definition applyFPMitigation :: "scored list \<Rightarrow> scored list" where
  "applyFPMitigation xs =
     (let privacy = (\<exists>s \<in> set xs. scID s = ''l2.canvas.tampered'' \<or> scID s = ''l2.webgl.param_consistency'')
      in if privacy
         then map (\<lambda>s. if scGroup s = ''canvas'' \<or> scGroup s = ''webgl'' then s\<lparr>scScore := scScore s * (1/2)\<rparr> else s) xs
         else xs)"

section \<open>Engine (engine.go)\<close>

record engine =
  Policy :: policy
  RuleModes :: "smap option"
  WeightMultipliers :: "(string \<times> rat) list"
  NetPolicy :: "smap option"

definition NewEngine :: engine where
  "NewEngine = \<lparr>Policy = DefaultPolicy, RuleModes = None, WeightMultipliers = [], NetPolicy = None\<rparr>"

definition ConfigureFull :: "engine \<Rightarrow> policy \<Rightarrow> smap option \<Rightarrow> (string \<times> rat) list \<Rightarrow> smap option \<Rightarrow> engine" where
  "ConfigureFull e p modes weights net =
     e\<lparr>Policy := p, RuleModes := modes, WeightMultipliers := weights, NetPolicy := net\<rparr>"

definition Configure :: "engine \<Rightarrow> policy \<Rightarrow> smap option \<Rightarrow> (string \<times> rat) list \<Rightarrow> engine" where
  "Configure e p modes weights = ConfigureFull e p modes weights None"

definition hasServerSignal :: "signal list \<Rightarrow> string \<Rightarrow> bool" where
  "hasServerSignal sigs i \<longleftrightarrow>
     (\<exists>s \<in> set sigs. sigID s = i \<and> sigCollected s = SourceServer \<and> sigVerdict s = SigOK)"

definition hasClientReport :: "session_report \<Rightarrow> bool" where
  "hasClientReport r \<longleftrightarrow> cUserAgent (Client r) \<noteq> [] \<or> 0 < length (cSignals (Client r)) \<or> envProbed (cEnvironment (Client r))"

text \<open>\<open>float64(int(f*10+0.5))/10\<close>: the conversion to \<open>int\<close> truncates towards zero.\<close>

definition truncate_rat :: "rat \<Rightarrow> int" where
  "truncate_rat x = (if 0 \<le> x then \<lfloor>x\<rfloor> else \<lceil>x\<rceil>)"

definition round1 :: "rat \<Rightarrow> rat" where
  "round1 f = of_int (truncate_rat (f * 10 + 1/2)) / 10"

definition scoredOf :: "signal \<Rightarrow> scored" where
  "scoredOf s = \<lparr>scID = sigID s, scLayer = sigLayer s, scGroup = GroupOf (sigID s), scScore = sigScore s\<rparr>"

definition crossScored :: "cross_check \<Rightarrow> scored" where
  "crossScored x = \<lparr>scID = xID x, scLayer = LayerConsistency, scGroup = [], scScore = xScore x\<rparr>"

definition gather :: "session_report \<Rightarrow> signal list \<Rightarrow> signal list \<Rightarrow> scored list" where
  "gather r behavior env =
     map scoredOf (cSignals (Client r)) @ map scoredOf (nSignals (Network r)) @ map scoredOf behavior @ map scoredOf env
     @ map crossScored (filter (\<lambda>x. 0 < xScore x) (CrossChecksOf r))"

definition dampPrivacyNoise :: "scored list \<Rightarrow> scored list" where
  "dampPrivacyNoise xs =
     map (\<lambda>s. if scGroup s \<in> {''canvas'', ''webgl'', ''audio'', ''font''} then s\<lparr>scScore := scScore s * (1/2)\<rparr> else s) xs"

definition assemble :: "score_env \<Rightarrow> engine \<Rightarrow> session_report \<Rightarrow> session_report \<times> scored list \<times> rule_context" where
  "assemble E e r0 =
     (let c = Client r0;
          behavior = BehaviorSignals E (cBehavior c);
          env = EnvironmentSignals (cEnvironment c) (hasClientReport r0);
          guard = GuardSignals (cGuard c);
          adv = AdvancedSignals (cAdvanced c) (cUserAgent c);
          r = r0\<lparr>CrossChecksOf := CrossChecks E r0\<rparr>;
          c1 = gather r behavior (erSignals env @ guard @ adv);
          c2 = applyWeightMultipliers c1 (WeightMultipliers e);
          c3 = applyFPMitigation c2;
          c4 = (if erPrivacy env then dampPrivacyNoise c3 else c3);
          rc = \<lparr>rcSigs = AllSignals r @ behavior @ erSignals env @ guard @ adv,
                rcCross = CrossChecksOf r, rcHasClient = hasClientReport r,
                rcBrowserClaim = isBrowserUA (cUserAgent c), rcCombined = 0,
                rcRuleModes = RuleModes e, rcNetPolicy = NetPolicy e\<rparr>
      in (r, c4, rc))"

definition decide ::
  "engine \<Rightarrow> session_report \<Rightarrow> scored list \<Rightarrow> rule_context \<Rightarrow> rat \<Rightarrow> session_report \<times> score_result" where
  "decide e r contributions rc rk =
     (let hard = applyPromotionRules rc;
          (v0, f0) = (if hvVerdict hard \<noteq> [] then (hvVerdict hard, hvRule hard) else (verdictFor (Policy e) rk, []));
          (v1, f1) = (if v0 = ScoreChallenge \<and> f0 = [] \<and> hasServerSignal (nSignals (Network r)) ''l7.pow.solved''
                      then (ScoreAllow, ''PoW-upgrade'') else (v0, f0));
          (v2, f2) = (if v1 = ScoreChallenge \<and> f1 = [] \<and> hasServerSignal (nSignals (Network r)) ''l7.pass.solved''
                      then (ScoreAllow, ''Pass-upgrade'') else (v1, f1));
          res = \<lparr>resRiskScore = round1 rk, resVerdict = v2, HardRuleFired = f2,
                 TopContributors = topContributors contributions 5, PolicyVersion = polVersion (Policy e)\<rparr>
      in (r\<lparr>Scoring := res\<rparr>, res))"

definition Score :: "score_env \<Rightarrow> engine \<Rightarrow> session_report \<Rightarrow> session_report \<times> score_result" where
  "Score E e r0 =
     (let (r, contributions, rc) = assemble E e r0;
          rk = Combine E contributions (Policy e)
      in decide e r contributions (rc\<lparr>rcCombined := rk\<rparr>) rk)"

section \<open>Score trace (scoretrace.go)\<close>

record dedup_trace =
  dtLayer :: string
  dtGroup :: string
  KeptID :: string
  DroppedID :: string
  KeptScore :: rat
  DroppedScore :: rat

record layer_trace =
  ltLayer :: string
  RawProb :: rat
  CappedProb :: rat
  CapHit :: bool

record hard_rule_eval =
  hreRule :: string
  hreVerdict :: string
  hreWhy :: string
  Matched :: bool
  Won :: bool

record score_trace =
  stContributions :: "scored list"
  DedupDropped :: "dedup_trace list"
  PerLayer :: "layer_trace list"
  HardRules :: "hard_rule_eval list"
  stScore :: rat
  stVerdict :: string
  stHardRuleFired :: string
  stPolicy :: policy

text \<open>
  \<open>best\<close> and \<open>order\<close> of the code are one association list: \<open>AList.update\<close> keeps a key at the place where it
  was first seen.
\<close>

definition dedupTraced :: "scored list \<Rightarrow> scored list \<times> dedup_trace list" where
  "dedupTraced xs =
     (let best = foldl keepBest [] xs;
          members = (\<lambda>key. filter (\<lambda>s. scGroup s \<noteq> [] \<and> groupKey s = key) xs);
          loose = filter (\<lambda>s. scGroup s = []) xs;
          drops = concat (map (\<lambda>(key, b).
                    map (\<lambda>m. \<lparr>dtLayer = scLayer b, dtGroup = scGroup b, KeptID = scID b, DroppedID = scID m,
                              KeptScore = scScore b, DroppedScore = scScore m\<rparr>)
                      (filter (\<lambda>m. scID m \<noteq> scID b) (members key))) best)
      in (map snd best @ loose, drops))"

definition layerTrace :: "scored list \<Rightarrow> rat \<Rightarrow> rat list \<times> layer_trace list" where
  "layerTrace kept cap =
     (let byLayer = foldl accLayer [] kept; capP = clamp01 (cap / 100);
          capped = (\<lambda>raw. if capP < raw then capP else raw)
      in (map (\<lambda>(l, raw). capped raw) byLayer,
          map (\<lambda>(l, raw). \<lparr>ltLayer = l, RawProb = raw, CappedProb = capped raw, CapHit = (capP < raw)\<rparr>) byLayer))"

definition combineTrace :: "scored list \<Rightarrow> policy \<Rightarrow> rat \<times> layer_trace list \<times> dedup_trace list" where
  "combineTrace xs p =
     (let (kept, drops) = dedupTraced xs; (probs, layers) = layerTrace kept (polLayerCap p)
      in (100 * noisyOR probs, layers, drops))"

fun traceRules :: "rule_context \<Rightarrow> promo_rule list \<Rightarrow> bool \<Rightarrow> hard_rule_eval list" where
  "traceRules c [] won = []"
| "traceRules c (r # rs) won =
     (let matched = prPred r c;
          w = (matched \<and> ruleModeOf (rcRuleModes c) (prID r) = ''enforce'' \<and> \<not> won)
      in \<lparr>hreRule = prID r, hreVerdict = prVerdict r, hreWhy = prWhy r, Matched = matched, Won = w\<rparr>
         # traceRules c rs (won \<or> w))"

definition tracePromotionRules :: "rule_context \<Rightarrow> hard_rule_eval list" where
  "tracePromotionRules c = traceRules c promotionRules False"

definition contribTraces :: "scored list \<Rightarrow> scored list" where
  "contribTraces xs = filter (\<lambda>s. 0 < scScore s) xs"

definition ScoreWithTrace ::
  "score_env \<Rightarrow> engine \<Rightarrow> session_report \<Rightarrow> session_report \<times> score_result \<times> score_trace" where
  "ScoreWithTrace E e r0 =
     (let (r, contributions, rc) = assemble E e r0;
          (rk, layers, drops) = combineTrace contributions (Policy e);
          rc' = rc\<lparr>rcCombined := rk\<rparr>;
          (r', res) = decide e r contributions rc' rk
      in (r', res,
          \<lparr>stContributions = contribTraces contributions, DedupDropped = drops, PerLayer = layers,
           HardRules = tracePromotionRules rc', stScore = resRiskScore res, stVerdict = resVerdict res,
           stHardRuleFired = HardRuleFired res, stPolicy = Policy e\<rparr>))"

section \<open>Settings overlay (settings\_engine.go)\<close>

definition nonEmpty :: "smap \<Rightarrow> smap option" where
  "nonEmpty m = (if m = [] then None else Some m)"

definition ConfigureEngineFromEffective :: "engine \<Rightarrow> effective \<Rightarrow> engine" where
  "ConfigureEngineFromEffective e eff =
     (let p = DefaultPolicy\<lparr>polChallengeAt := ChallengeAt eff, polDenyAt := DenyAt eff, polLayerCap := LayerCap eff\<rparr>;
          p' = (if EmptyOverlay eff then p else p\<lparr>polVersion := ''1.0.0+overlay''\<rparr>)
      in ConfigureFull e p' (nonEmpty (EHardRules eff)) (EWeights eff) (nonEmpty (ENetPolicy eff)))"

end
