(* ===== verification/ScoringProps.thy ===== *)
theory ScoringProps
  imports Scoring "HOL-Library.Multiset"
begin

text \<open>
  Correctness of the risk engine: a closed form of the combination that no map order enters, its bounds and
  monotonicity, the agreement of the traced scorer with the plain one, and what may and may not override a
  hard rule.
\<close>

section \<open>The combination in closed form\<close>

text \<open>
  The reference: within a layer the groups count once, with their highest score, and the ungrouped
  contributions count each; the layer is capped, and the layers are combined by noisy-or.
\<close>

definition groupsIn :: "scored list \<Rightarrow> layer \<Rightarrow> string set" where
  "groupsIn xs l = {scGroup s | s. s \<in> set xs \<and> scLayer s = l \<and> scGroup s \<noteq> []}"

definition bestIn :: "scored list \<Rightarrow> layer \<Rightarrow> string \<Rightarrow> rat" where
  "bestIn xs l g = Max {scScore s | s. s \<in> set xs \<and> scLayer s = l \<and> scGroup s = g}"

definition miss :: "rat \<Rightarrow> rat" where
  "miss score = 1 - clamp01 (score / 100)"

definition layerRisk :: "scored list \<Rightarrow> layer \<Rightarrow> rat" where
  "layerRisk xs l =
     1 - (\<Prod>g \<in> groupsIn xs l. miss (bestIn xs l g))
       * prod_list (map (miss \<circ> scScore) (filter (\<lambda>s. scLayer s = l \<and> scGroup s = []) xs))"

definition riskSpec :: "rat \<Rightarrow> scored list \<Rightarrow> rat" where
  "riskSpec cap xs = 100 * (1 - (\<Prod>l \<in> scLayer ` set xs. 1 - min (clamp01 (cap / 100)) (layerRisk xs l)))"

definition plainGroups :: "scored list \<Rightarrow> bool" where
  "plainGroups xs \<longleftrightarrow> (\<forall>s \<in> set xs. CHR 0x2F \<notin> set (scGroup s))"

lemma miss_bounds [simp]: "0 \<le> miss x" "miss x \<le> 1"
  by (simp_all add: miss_def)

lemma miss_antimono: "x \<le> y \<Longrightarrow> miss y \<le> miss x"
  by (simp add: miss_def clamp01_mono divide_right_mono)

lemma foldl_times: "foldl (\<lambda>a x. a * f x) (c :: rat) xs = c * prod_list (map f xs)"
  by (induction xs arbitrary: c) (simp_all add: mult.assoc)

lemma noisyOR_prod: "noisyOR ps = 1 - prod_list (map (\<lambda>p. 1 - clamp01 p) ps)"
  by (simp add: noisyOR_def foldl_times)

subsection \<open>The group table\<close>

lemma groupKey_inj:
  assumes "groupKey s = groupKey t" "CHR 0x2F \<notin> set (scGroup s)" "CHR 0x2F \<notin> set (scGroup t)"
  shows "scLayer s = scLayer t \<and> scGroup s = scGroup t"
proof -
  have "takeWhile (\<lambda>c. c \<noteq> CHR 0x2F) (rev (groupKey u)) = rev (scGroup u)" if "CHR 0x2F \<notin> set (scGroup u)" for u
  proof -
    have "takeWhile (\<lambda>c. c \<noteq> CHR 0x2F) (rev (scGroup u) @ CHR 0x2F # rev (scLayer u)) = rev (scGroup u)"
      using that by (subst takeWhile_append2) (auto simp: set_rev)
    then show ?thesis by (simp add: groupKey_def)
  qed
  then have "scGroup s = scGroup t" using assms by (metis rev_rev_ident)
  then show ?thesis using assms(1) by (simp add: groupKey_def)
qed

definition bestTable :: "scored list \<Rightarrow> (string \<times> scored) list" where
  "bestTable xs = foldl keepBest [] xs"

lemma bestTable_snoc: "bestTable (xs @ [s]) = keepBest (bestTable xs) s"
  by (simp add: bestTable_def)

lemma keepBest_distinct: "distinct (map fst b) \<Longrightarrow> distinct (map fst (keepBest b s))"
  by (simp add: keepBest_def distinct_update split: option.split)

lemma bestTable_distinct: "distinct (map fst (bestTable xs))"
  by (induction xs rule: rev_induct) (simp_all add: bestTable_snoc keepBest_distinct, simp add: bestTable_def)

lemma keepBest_map_of:
  "map_of (keepBest b s) k =
     (if scGroup s \<noteq> [] \<and> groupKey s = k
      then (case map_of b k of None \<Rightarrow> Some s | Some cur \<Rightarrow> if scScore cur < scScore s then Some s else Some cur)
      else map_of b k)"
  by (auto simp: keepBest_def update_conv' split: option.split)

text \<open>The entry of a key is a member of the group, and none scores higher.\<close>

definition isBest :: "scored list \<Rightarrow> string \<Rightarrow> scored \<Rightarrow> bool" where
  "isBest xs k b \<longleftrightarrow> b \<in> set xs \<and> scGroup b \<noteq> [] \<and> groupKey b = k
     \<and> (\<forall>s \<in> set xs. scGroup s \<noteq> [] \<and> groupKey s = k \<longrightarrow> scScore s \<le> scScore b)"

lemma bestTable_entry:
  "case map_of (bestTable xs) k of
     None \<Rightarrow> \<forall>s \<in> set xs. scGroup s \<noteq> [] \<longrightarrow> groupKey s \<noteq> k
   | Some b \<Rightarrow> isBest xs k b"
proof (induction xs rule: rev_induct)
  case Nil
  then show ?case by (simp add: bestTable_def)
next
  case (snoc s xs)
  then show ?case
    by (cases "map_of (bestTable xs) k") (auto simp: bestTable_snoc keepBest_map_of isBest_def)
qed

lemma bestTable_Some: "map_of (bestTable xs) k = Some b \<Longrightarrow> isBest xs k b"
  using bestTable_entry [of xs k] by simp

lemma bestTable_mem: "(k, b) \<in> set (bestTable xs) \<Longrightarrow> isBest xs k b"
  using bestTable_Some bestTable_distinct by (metis map_of_eq_Some_iff)

lemma bestTable_covers:
  assumes "s \<in> set xs" "scGroup s \<noteq> []"
  obtains b where "(groupKey s, b) \<in> set (bestTable xs)"
  using bestTable_entry [of xs "groupKey s"] assms
  by (cases "map_of (bestTable xs) (groupKey s)") (auto dest: map_of_SomeD)

lemma bestTable_keys: "map groupKey (map snd (bestTable xs)) = map fst (bestTable xs)"
  using bestTable_mem by (auto simp: isBest_def)

lemma bestTable_values_distinct: "distinct (map snd (bestTable xs))"
  using bestTable_distinct [of xs] by (metis bestTable_keys distinct_map)

text \<open>A layer's group representatives stand for its groups, one each, at the group's highest score.\<close>

lemma isBest_bestIn:
  assumes "isBest xs (groupKey b) b" "plainGroups xs"
  shows "bestIn xs (scLayer b) (scGroup b) = scScore b"
  unfolding bestIn_def
proof (rule Max_eqI)
  show "finite {scScore s | s. s \<in> set xs \<and> scLayer s = scLayer b \<and> scGroup s = scGroup b}" by simp
  show "scScore b \<in> {scScore s | s. s \<in> set xs \<and> scLayer s = scLayer b \<and> scGroup s = scGroup b}"
    using assms(1) by (auto simp: isBest_def)
  fix y assume "y \<in> {scScore s | s. s \<in> set xs \<and> scLayer s = scLayer b \<and> scGroup s = scGroup b}"
  then obtain s where "y = scScore s" "s \<in> set xs" "scLayer s = scLayer b" "scGroup s = scGroup b" by auto
  then show "y \<le> scScore b" using assms(1) by (simp add: isBest_def groupKey_def)
qed

lemma group_representatives:
  assumes "plainGroups xs"
  shows "prod_list (map (miss \<circ> scScore) (filter (\<lambda>s. scLayer s = l) (map snd (bestTable xs))))
           = (\<Prod>g \<in> groupsIn xs l. miss (bestIn xs l g))"
proof -
  let ?B = "{b \<in> set (map snd (bestTable xs)). scLayer b = l}"
  have best: "isBest xs (groupKey b) b" if "b \<in> ?B" for b
    using that bestTable_mem by (auto simp: isBest_def)
  have inj: "inj_on scGroup ?B"
  proof (rule inj_onI)
    fix a b assume ab: "a \<in> ?B" "b \<in> ?B" "scGroup a = scGroup b"
    then have "groupKey a = groupKey b" by (simp add: groupKey_def)
    then show "a = b" using ab bestTable_distinct [of xs] bestTable_keys [of xs]
      by (metis (no_types, lifting) distinct_map inj_onD mem_Collect_eq)
  qed
  have img: "scGroup ` ?B = groupsIn xs l"
  proof
    show "scGroup ` ?B \<subseteq> groupsIn xs l" using best by (auto simp: groupsIn_def isBest_def)
    show "groupsIn xs l \<subseteq> scGroup ` ?B"
    proof
      fix g assume "g \<in> groupsIn xs l"
      then obtain s where s: "s \<in> set xs" "scLayer s = l" "scGroup s = g" "g \<noteq> []" by (auto simp: groupsIn_def)
      then obtain b where b: "(groupKey s, b) \<in> set (bestTable xs)" using bestTable_covers by blast
      then have ib: "isBest xs (groupKey s) b" by (rule bestTable_mem)
      then have "scLayer b = scLayer s \<and> scGroup b = scGroup s"
        using assms s(1) by (intro groupKey_inj) (auto simp: isBest_def plainGroups_def)
      then have "b \<in> ?B" "scGroup b = g" using b s by (auto simp: image_iff intro: bexI [of _ "(groupKey s, b)"])
      then show "g \<in> scGroup ` ?B" by blast
    qed
  qed
  have "prod_list (map (miss \<circ> scScore) (filter (\<lambda>s. scLayer s = l) (map snd (bestTable xs))))
          = (\<Prod>b \<in> ?B. miss (scScore b))"
    using prod.distinct_set_conv_list [OF distinct_filter [OF bestTable_values_distinct [of xs], of "\<lambda>s. scLayer s = l"],
        of "miss \<circ> scScore"] by (simp add: o_def)
  also have "\<dots> = (\<Prod>b \<in> ?B. miss (bestIn xs l (scGroup b)))"
    using isBest_bestIn [OF best assms] by (intro prod.cong) auto
  also have "\<dots> = (\<Prod>g \<in> groupsIn xs l. miss (bestIn xs l g))"
    using prod.reindex [OF inj, of "\<lambda>g. miss (bestIn xs l g)"] unfolding img by (simp add: o_def)
  finally show ?thesis .
qed

subsection \<open>The layer table\<close>

definition layerTable :: "scored list \<Rightarrow> (layer \<times> rat) list" where
  "layerTable xs = foldl accLayer [] xs"

lemma layerTable_snoc: "layerTable (xs @ [s]) = accLayer (layerTable xs) s"
  by (simp add: layerTable_def)

lemma layerTable_distinct: "distinct (map fst (layerTable xs))"
  by (induction xs rule: rev_induct)
    (simp_all add: layerTable_snoc accLayer_def Let_def distinct_update, simp add: layerTable_def)

definition layerRaw :: "scored list \<Rightarrow> layer \<Rightarrow> rat" where
  "layerRaw xs l = 1 - prod_list (map (miss \<circ> scScore) (filter (\<lambda>s. scLayer s = l) xs))"

lemma layerTable_map_of:
  "map_of (layerTable xs) l = (if l \<in> scLayer ` set xs then Some (layerRaw xs l) else None)"
proof (induction xs arbitrary: l rule: rev_induct)
  case Nil
  then show ?case by (simp add: layerTable_def)
next
  case (snoc s xs)
  have empty: "layerRaw xs k = 0" if "k \<notin> scLayer ` set xs" for k
  proof -
    have "filter (\<lambda>s. scLayer s = k) xs = []" using that by (auto simp: filter_empty_conv)
    then show ?thesis by (simp add: layerRaw_def)
  qed
  have acc: "layerAcc (layerTable xs) k = layerRaw xs k" for k
    by (simp add: layerAcc_def snoc.IH empty)
  have step: "layerRaw (xs @ [s]) (scLayer s) = layerRaw xs (scLayer s) + clamp01 (scScore s / 100)
                - layerRaw xs (scLayer s) * clamp01 (scScore s / 100)"
    by (simp add: layerRaw_def miss_def algebra_simps)
  have other: "layerRaw (xs @ [s]) l = layerRaw xs l" if "l \<noteq> scLayer s"
    using that by (simp add: layerRaw_def)
  show ?case
    by (cases "l = scLayer s") (simp_all add: layerTable_snoc accLayer_def Let_def update_conv' acc step other snoc.IH)
qed

lemma layerTable_keys: "fst ` set (layerTable xs) = scLayer ` set xs"
  using layerTable_map_of [of xs] by (metis (no_types, lifting) map_of_eq_None_iff option.distinct(1) subsetI subset_antisym)

lemma prod_list_01: "\<forall>x \<in> set xs. 0 \<le> x \<and> x \<le> 1 \<Longrightarrow> 0 \<le> prod_list xs \<and> prod_list xs \<le> (1 :: rat)"
  by (induction xs) (auto simp: mult_le_one)

lemma layerRaw_01: "0 \<le> layerRaw xs l" "layerRaw xs l \<le> 1"
  using prod_list_01 [of "map (miss \<circ> scScore) (filter (\<lambda>s. scLayer s = l) xs)"] by (auto simp: layerRaw_def)

lemma clamp01_id: "0 \<le> x \<Longrightarrow> x \<le> 1 \<Longrightarrow> clamp01 x = x"
  by (simp add: clamp01_def)

lemma layers_combined:
  assumes "mset ks = mset (map fst (layerTable xs))"
  shows "noisyOR (map (\<lambda>l. let p = the (map_of (layerTable xs) l) in if clamp01 c < p then clamp01 c else p) ks)
           = 1 - (\<Prod>l \<in> scLayer ` set xs. 1 - min (clamp01 c) (layerRaw xs l))"
proof -
  have sk: "set ks = scLayer ` set xs" using assms layerTable_keys by (metis list.set_map set_mset_mset)
  have dk: "distinct ks" using assms layerTable_distinct by (metis mset_eq_imp_distinct_iff)
  have val: "(let p = the (map_of (layerTable xs) l) in if clamp01 c < p then clamp01 c else p) = min (clamp01 c) (layerRaw xs l)"
    if "l \<in> set ks" for l
    using that sk by (auto simp: layerTable_map_of min_def Let_def)
  have cl: "clamp01 (min (clamp01 c) (layerRaw xs l)) = min (clamp01 c) (layerRaw xs l)" for l
    by (simp add: clamp01_id layerRaw_01 min.coboundedI1)
  have "noisyOR (map (\<lambda>l. let p = the (map_of (layerTable xs) l) in if clamp01 c < p then clamp01 c else p) ks)
          = noisyOR (map (\<lambda>l. min (clamp01 c) (layerRaw xs l)) ks)"
    using val by (intro arg_cong [where f = noisyOR] map_cong) simp_all
  also have "\<dots> = 1 - prod_list (map (\<lambda>l. 1 - min (clamp01 c) (layerRaw xs l)) ks)"
    by (simp add: noisyOR_prod o_def cl)
  also have "prod_list (map (\<lambda>l. 1 - min (clamp01 c) (layerRaw xs l)) ks)
               = (\<Prod>l \<in> set ks. 1 - min (clamp01 c) (layerRaw xs l))"
    using dk by (simp add: prod.distinct_set_conv_list)
  finally show ?thesis using sk by simp
qed

subsection \<open>Both combinations compute it\<close>

definition keptOf :: "scored list \<Rightarrow> scored list" where
  "keptOf xs = map snd (bestTable xs) @ filter (\<lambda>s. scGroup s = []) xs"

lemma layerRaw_mset: "mset xs = mset ys \<Longrightarrow> layerRaw xs l = layerRaw ys l"
proof -
  assume "mset xs = mset ys"
  then have "mset (map (miss \<circ> scScore) (filter (\<lambda>s. scLayer s = l) xs))
               = mset (map (miss \<circ> scScore) (filter (\<lambda>s. scLayer s = l) ys))" by simp
  then have "prod_list (map (miss \<circ> scScore) (filter (\<lambda>s. scLayer s = l) xs))
               = prod_list (map (miss \<circ> scScore) (filter (\<lambda>s. scLayer s = l) ys))"
    by (simp only: prod_mset_prod_list [symmetric])
  then show ?thesis by (simp add: layerRaw_def)
qed

lemma dedupGroups_mset:
  assumes "\<And>ks. mset (iter ks) = mset ks"
  shows "mset (dedupGroups iter xs) = mset (keptOf xs)"
proof -
  have "mset (map (the \<circ> map_of (bestTable xs)) (iter (map fst (bestTable xs))))
          = image_mset (the \<circ> map_of (bestTable xs)) (mset (map fst (bestTable xs)))"
    by (simp only: mset_map assms)
  also have "\<dots> = mset (map snd (bestTable xs))"
  proof -
    have "map (the \<circ> map_of (bestTable xs)) (map fst (bestTable xs)) = map snd (bestTable xs)"
      using bestTable_distinct [of xs] by (auto simp: map_of_eq_Some_iff)
    then show ?thesis by (metis mset_map)
  qed
  finally show ?thesis by (simp add: dedupGroups_def keptOf_def bestTable_def Let_def)
qed

lemma keptOf_layers: "plainGroups xs \<Longrightarrow> scLayer ` set (keptOf xs) = scLayer ` set xs"
proof
  show "scLayer ` set (keptOf xs) \<subseteq> scLayer ` set xs"
    using bestTable_mem by (fastforce simp: keptOf_def isBest_def)
  assume plain: "plainGroups xs"
  show "scLayer ` set xs \<subseteq> scLayer ` set (keptOf xs)"
  proof
    fix l assume "l \<in> scLayer ` set xs"
    then obtain s where s: "s \<in> set xs" "l = scLayer s" by blast
    show "l \<in> scLayer ` set (keptOf xs)"
    proof (cases "scGroup s = []")
      case True
      then show ?thesis using s by (auto simp: keptOf_def)
    next
      case False
      then obtain b where b: "(groupKey s, b) \<in> set (bestTable xs)" using s bestTable_covers by blast
      then have "isBest xs (groupKey s) b" by (rule bestTable_mem)
      then have "scLayer b = scLayer s"
        using plain s(1) groupKey_inj [of b s] by (auto simp: isBest_def plainGroups_def)
      moreover have "b \<in> set (keptOf xs)" using b by (auto simp: keptOf_def image_iff intro: bexI [of _ "(groupKey s, b)"])
      ultimately show ?thesis using s by (metis image_eqI)
    qed
  qed
qed

lemma keptOf_raw: "plainGroups xs \<Longrightarrow> layerRaw (keptOf xs) l = layerRisk xs l"
  by (simp add: layerRaw_def layerRisk_def keptOf_def group_representatives conj_commute)

lemma combine_kept:
  assumes "plainGroups xs" "mset ys = mset (keptOf xs)" "mset ks = mset (map fst (layerTable ys))"
  shows "100 * noisyOR (map (\<lambda>l. let p = the (map_of (layerTable ys) l)
                                   in if clamp01 (cap / 100) < p then clamp01 (cap / 100) else p) ks)
           = riskSpec cap xs"
proof -
  have "scLayer ` set ys = scLayer ` set xs" using assms(1,2) keptOf_layers by (metis set_mset_mset)
  moreover have "layerRaw ys l = layerRisk xs l" for l
    using assms(1,2) layerRaw_mset keptOf_raw by metis
  ultimately show ?thesis using layers_combined [OF assms(3)] by (simp add: riskSpec_def)
qed

lemma Combine_riskSpec:
  assumes "plainGroups xs" "\<And>ks. mset (iterGroups E ks) = mset ks" "\<And>ks. mset (iterLayers E ks) = mset ks"
  shows "Combine E xs p = riskSpec (polLayerCap p) xs"
  unfolding Combine_def capByLayer_def Let_def layerTable_def [symmetric]
  using assms by (intro combine_kept [unfolded Let_def] dedupGroups_mset) auto

lemma layerTrace_probs:
  "fst (layerTrace xs cap) = map (\<lambda>l. let p = the (map_of (layerTable xs) l)
                                       in if clamp01 (cap / 100) < p then clamp01 (cap / 100) else p)
                                (map fst (layerTable xs))"
  using layerTable_distinct [of xs]
  by (auto simp: layerTrace_def layerTable_def [symmetric] Let_def map_of_eq_Some_iff split_beta)

lemma combineTrace_riskSpec:
  assumes "plainGroups xs"
  shows "fst (combineTrace xs p) = riskSpec (polLayerCap p) xs"
proof -
  have kept: "fst (dedupTraced xs) = keptOf xs"
    by (simp add: dedupTraced_def keptOf_def bestTable_def Let_def)
  have "fst (combineTrace xs p) = 100 * noisyOR (fst (layerTrace (keptOf xs) (polLayerCap p)))"
    by (simp add: combineTrace_def split_beta kept Let_def)
  then show ?thesis unfolding layerTrace_probs using assms by (simp only: combine_kept [OF assms refl refl])
qed

section \<open>Bounds and monotonicity of the reference\<close>

lemma prod_01: "finite A \<Longrightarrow> (\<And>a. a \<in> A \<Longrightarrow> 0 \<le> f a \<and> f a \<le> (1 :: rat)) \<Longrightarrow> 0 \<le> prod f A \<and> prod f A \<le> 1"
  by (simp add: prod_nonneg prod_le_1)

lemma finite_groupsIn [simp]: "finite (groupsIn xs l)"
  by (simp add: groupsIn_def)

lemma layerRisk_01: "0 \<le> layerRisk xs l" "layerRisk xs l \<le> 1"
proof -
  have "0 \<le> (\<Prod>g \<in> groupsIn xs l. miss (bestIn xs l g)) \<and> (\<Prod>g \<in> groupsIn xs l. miss (bestIn xs l g)) \<le> 1"
    by (rule prod_01) simp_all
  moreover have "0 \<le> prod_list (map (miss \<circ> scScore) (filter (\<lambda>s. scLayer s = l \<and> scGroup s = []) xs))
      \<and> prod_list (map (miss \<circ> scScore) (filter (\<lambda>s. scLayer s = l \<and> scGroup s = []) xs)) \<le> 1"
    by (rule prod_list_01) auto
  ultimately show "0 \<le> layerRisk xs l" "layerRisk xs l \<le> 1"
    by (auto simp: layerRisk_def mult_le_one)
qed

lemma capped_01: "0 \<le> 1 - min (clamp01 c) (layerRisk xs l) \<and> 1 - min (clamp01 c) (layerRisk xs l) \<le> 1"
  by (simp add: layerRisk_01 min.coboundedI1)

lemma riskSpec_bounds: "0 \<le> riskSpec cap xs" "riskSpec cap xs \<le> 100"
  using prod_01 [of "scLayer ` set xs" "\<lambda>l. 1 - min (clamp01 (cap / 100)) (layerRisk xs l)"] capped_01
  by (auto simp: riskSpec_def)

text \<open>One more contribution can only raise a layer, and one without a score leaves every layer as it is.\<close>

definition scoresIn :: "scored list \<Rightarrow> layer \<Rightarrow> string \<Rightarrow> rat set" where
  "scoresIn xs l g = {scScore s | s. s \<in> set xs \<and> scLayer s = l \<and> scGroup s = g}"

definition groupMiss :: "scored list \<Rightarrow> layer \<Rightarrow> rat" where
  "groupMiss xs l = (\<Prod>g \<in> groupsIn xs l. miss (bestIn xs l g))"

definition looseMiss :: "scored list \<Rightarrow> layer \<Rightarrow> rat" where
  "looseMiss xs l = prod_list (map (miss \<circ> scScore) (filter (\<lambda>s. scLayer s = l \<and> scGroup s = []) xs))"

lemma layerRisk_parts: "layerRisk xs l = 1 - groupMiss xs l * looseMiss xs l"
  by (simp add: layerRisk_def groupMiss_def looseMiss_def)

lemma groupMiss_nonneg: "0 \<le> groupMiss xs l"
  by (simp add: groupMiss_def prod_nonneg)

lemma looseMiss_nonneg: "0 \<le> looseMiss xs l"
  using prod_list_01 [of "map (miss \<circ> scScore) (filter (\<lambda>s. scLayer s = l \<and> scGroup s = []) xs)"]
  by (auto simp: looseMiss_def)

lemma scoresIn_snoc:
  "scoresIn (xs @ [z]) l g = (if scLayer z = l \<and> scGroup z = g then insert (scScore z) (scoresIn xs l g) else scoresIn xs l g)"
  by (auto simp: scoresIn_def)

lemma finite_scoresIn [simp]: "finite (scoresIn xs l g)"
  by (simp add: scoresIn_def)

lemma bestIn_scores: "bestIn xs l g = Max (scoresIn xs l g)"
  by (simp add: bestIn_def scoresIn_def)

lemma groupsIn_scores: "g \<in> groupsIn xs l \<longleftrightarrow> g \<noteq> [] \<and> scoresIn xs l g \<noteq> {}"
  by (auto simp: groupsIn_def scoresIn_def)

lemma miss_nonpos: "x \<le> 0 \<Longrightarrow> miss x = 1"
  by (simp add: miss_def clamp01_def)

lemma miss_max: "miss (max x y) \<le> miss x" "y \<le> 0 \<Longrightarrow> miss (max x y) = miss x"
  by (simp_all add: miss_antimono) (simp add: max_def miss_nonpos)

lemma groupMiss_snoc_other: "scLayer z \<noteq> l \<or> scGroup z = [] \<Longrightarrow> groupMiss (xs @ [z]) l = groupMiss xs l"
proof -
  assume z: "scLayer z \<noteq> l \<or> scGroup z = []"
  have same: "scoresIn (xs @ [z]) l g = scoresIn xs l g" if "g \<noteq> []" for g
    using z that by (auto simp: scoresIn_snoc)
  then have "groupsIn (xs @ [z]) l = groupsIn xs l" by (intro set_eqI) (metis groupsIn_scores)
  then show ?thesis unfolding groupMiss_def by (rule prod.cong) (metis bestIn_scores groupsIn_scores same)
qed

lemma groupMiss_snoc:
  assumes "scLayer z = l" "scGroup z = g" "g \<noteq> []"
  shows "groupMiss (xs @ [z]) l \<le> groupMiss xs l" "scScore z \<le> 0 \<Longrightarrow> groupMiss (xs @ [z]) l = groupMiss xs l"
proof -
  let ?R = "\<Prod>h \<in> groupsIn xs l - {g}. miss (bestIn xs l h)"
  let ?new = "miss (Max (insert (scScore z) (scoresIn xs l g)))"
  let ?old = "if scoresIn xs l g = {} then 1 else miss (Max (scoresIn xs l g))"
  have R: "0 \<le> ?R" by (simp add: prod_nonneg)
  have G: "groupsIn (xs @ [z]) l = insert g (groupsIn xs l - {g})"
  proof (rule set_eqI)
    fix h show "h \<in> groupsIn (xs @ [z]) l \<longleftrightarrow> h \<in> insert g (groupsIn xs l - {g})"
      using assms by (cases "h = g") (simp_all add: groupsIn_scores scoresIn_snoc)
  qed
  have "groupMiss (xs @ [z]) l = ?new * (\<Prod>h \<in> groupsIn xs l - {g}. miss (bestIn (xs @ [z]) l h))"
    using assms unfolding groupMiss_def G by (subst prod.insert) (simp_all add: bestIn_scores scoresIn_snoc)
  also have "(\<Prod>h \<in> groupsIn xs l - {g}. miss (bestIn (xs @ [z]) l h)) = ?R"
    using assms by (intro prod.cong refl) (auto simp: bestIn_scores scoresIn_snoc)
  finally have new: "groupMiss (xs @ [z]) l = ?new * ?R" .
  have old: "groupMiss xs l = ?old * ?R"
  proof (cases "scoresIn xs l g = {}")
    case True
    then have "groupsIn xs l - {g} = groupsIn xs l" by (auto simp: groupsIn_scores)
    then show ?thesis using True by (simp add: groupMiss_def)
  next
    case False
    then have "g \<in> groupsIn xs l" using assms(3) by (simp add: groupsIn_scores)
    then show ?thesis using False by (simp add: groupMiss_def prod.remove bestIn_scores)
  qed
  have le: "?new \<le> ?old" using miss_max(1) [of "Max (scoresIn xs l g)" "scScore z"]
    by (simp add: Max_insert max.commute)
  show "groupMiss (xs @ [z]) l \<le> groupMiss xs l" unfolding new old by (rule mult_right_mono [OF le R])
  assume "scScore z \<le> 0"
  then have "?new = ?old" using miss_max(2) [of "scScore z" "Max (scoresIn xs l g)"]
    by (simp add: Max_insert max.commute miss_nonpos)
  then show "groupMiss (xs @ [z]) l = groupMiss xs l" unfolding new old by simp
qed

lemma looseMiss_snoc:
  "looseMiss (xs @ [z]) l = looseMiss xs l * (if scLayer z = l \<and> scGroup z = [] then miss (scScore z) else 1)"
  by (simp add: looseMiss_def)

lemma layerRisk_snoc: "layerRisk xs l \<le> layerRisk (xs @ [z]) l"
proof -
  have "groupMiss (xs @ [z]) l \<le> groupMiss xs l"
    using groupMiss_snoc(1) groupMiss_snoc_other by (metis order_refl)
  moreover have "looseMiss (xs @ [z]) l \<le> looseMiss xs l"
    by (simp add: looseMiss_snoc mult_left_le looseMiss_nonneg)
  ultimately show ?thesis by (simp add: layerRisk_parts mult_mono groupMiss_nonneg looseMiss_nonneg)
qed

lemma layerRisk_snoc_nonpos: "scScore z \<le> 0 \<Longrightarrow> layerRisk (xs @ [z]) l = layerRisk xs l"
proof -
  assume z: "scScore z \<le> 0"
  then have "groupMiss (xs @ [z]) l = groupMiss xs l"
    using groupMiss_snoc(2) groupMiss_snoc_other by metis
  moreover have "looseMiss (xs @ [z]) l = looseMiss xs l" using z by (simp add: looseMiss_snoc miss_nonpos)
  ultimately show ?thesis by (simp add: layerRisk_parts)
qed

lemma layerRisk_absent: "l \<notin> scLayer ` set xs \<Longrightarrow> layerRisk xs l = 0"
proof -
  assume l: "l \<notin> scLayer ` set xs"
  then have "groupsIn xs l = {}" "filter (\<lambda>s. scLayer s = l \<and> scGroup s = []) xs = []"
    by (auto simp: groupsIn_def filter_empty_conv)
  then show ?thesis by (simp add: layerRisk_def)
qed

text \<open>Layers without a contribution have factor one, so any superset of the layers gives the same product.\<close>

lemma riskSpec_superset:
  assumes "finite L" "scLayer ` set xs \<subseteq> L"
  shows "riskSpec cap xs = 100 * (1 - (\<Prod>l \<in> L. 1 - min (clamp01 (cap / 100)) (layerRisk xs l)))"
proof -
  have "(\<Prod>l \<in> L. 1 - min (clamp01 (cap / 100)) (layerRisk xs l))
          = (\<Prod>l \<in> scLayer ` set xs. 1 - min (clamp01 (cap / 100)) (layerRisk xs l))"
    using assms by (intro prod.mono_neutral_right) (auto simp: layerRisk_absent min_absorb2)
  then show ?thesis by (simp add: riskSpec_def)
qed

lemma riskSpec_snoc:
  shows "riskSpec cap xs \<le> riskSpec cap (xs @ [z])"
    and "scScore z \<le> 0 \<Longrightarrow> riskSpec cap (xs @ [z]) = riskSpec cap xs"
proof -
  let ?L = "scLayer ` set (xs @ [z])"
  let ?f = "\<lambda>ys l. 1 - min (clamp01 (cap / 100)) (layerRisk ys l)"
  have xs: "riskSpec cap xs = 100 * (1 - (\<Prod>l \<in> ?L. ?f xs l))" by (rule riskSpec_superset) auto
  have "(\<Prod>l \<in> ?L. ?f (xs @ [z]) l) \<le> (\<Prod>l \<in> ?L. ?f xs l)"
    by (rule prod_mono) (simp add: capped_01 [simplified] layerRisk_snoc min.coboundedI2 min.mono)
  then show "riskSpec cap xs \<le> riskSpec cap (xs @ [z])" unfolding xs by (simp add: riskSpec_def)
  show "scScore z \<le> 0 \<Longrightarrow> riskSpec cap (xs @ [z]) = riskSpec cap xs"
    unfolding xs by (simp add: riskSpec_def layerRisk_snoc_nonpos)
qed

lemma riskSpec_one_layer:
  assumes "\<forall>s \<in> set xs. 0 < scScore s \<longrightarrow> scLayer s = l"
  shows "riskSpec cap xs \<le> 100 * clamp01 (cap / 100)"
proof -
  have quiet: "layerRisk xs k = 0" if "k \<noteq> l" for k
    using assms that
  proof (induction xs rule: rev_induct)
    case Nil
    then show ?case by (simp add: layerRisk_absent)
  next
    case (snoc z zs)
    then have "layerRisk zs k = 0" by simp
    moreover have "layerRisk (zs @ [z]) k = layerRisk zs k"
    proof (cases "scLayer z = k")
      case True
      then have "scScore z \<le> 0" using snoc.prems by force
      then show ?thesis by (rule layerRisk_snoc_nonpos)
    next
      case False
      then show ?thesis by (simp add: layerRisk_parts groupMiss_snoc_other looseMiss_snoc)
    qed
    ultimately show ?case by simp
  qed
  have "riskSpec cap xs = 100 * (1 - (\<Prod>k \<in> insert l (scLayer ` set xs). 1 - min (clamp01 (cap / 100)) (layerRisk xs k)))"
    by (rule riskSpec_superset) auto
  also have "(\<Prod>k \<in> insert l (scLayer ` set xs). 1 - min (clamp01 (cap / 100)) (layerRisk xs k))
      = (\<Prod>k \<in> {l}. 1 - min (clamp01 (cap / 100)) (layerRisk xs k))"
    using quiet by (intro prod.mono_neutral_right) (auto simp: min_absorb2)
  finally show ?thesis by simp
qed

section \<open>The contribution set and the verdict\<close>

lemma plain_scoredOf: "CHR 0x2F \<notin> set (scGroup (scoredOf s))"
  by (simp add: scoredOf_def GroupOf_no_slash)

lemma plain_gather: "plainGroups (gather r bs es)"
  using plain_scoredOf by (auto simp: gather_def plainGroups_def crossScored_def)

lemma plainGroups_map: "(\<And>s. scGroup (f s) = scGroup s) \<Longrightarrow> plainGroups xs \<Longrightarrow> plainGroups (map f xs)"
  by (auto simp: plainGroups_def)

lemma plain_weights: "plainGroups xs \<Longrightarrow> plainGroups (applyWeightMultipliers xs m)"
  unfolding applyWeightMultipliers_def by (auto intro!: plainGroups_map split: option.split simp: Let_def)

lemma plain_mitigation: "plainGroups xs \<Longrightarrow> plainGroups (applyFPMitigation xs)"
  unfolding applyFPMitigation_def Let_def by (auto intro!: plainGroups_map)

lemma plain_damp: "plainGroups xs \<Longrightarrow> plainGroups (dampPrivacyNoise xs)"
  unfolding dampPrivacyNoise_def by (rule plainGroups_map) auto

text \<open>The contributions and the rule context of a session.\<close>

definition contributionsOf :: "score_env \<Rightarrow> engine \<Rightarrow> session_report \<Rightarrow> scored list" where
  "contributionsOf E e r = fst (snd (assemble E e r))"

definition contextOf :: "score_env \<Rightarrow> engine \<Rightarrow> session_report \<Rightarrow> rule_context" where
  "contextOf E e r = snd (snd (assemble E e r))"

lemma plain_contributions: "plainGroups (contributionsOf E e r)"
  unfolding contributionsOf_def assemble_def Let_def
  by (auto intro!: plain_damp plain_mitigation plain_weights plain_gather)

text \<open>No rule reads the combined risk.\<close>

lemma firstRule_combined:
  "(\<And>r. r \<in> set rs \<Longrightarrow> prPred r (c\<lparr>rcCombined := x\<rparr>) = prPred r c) \<Longrightarrow> firstRule (c\<lparr>rcCombined := x\<rparr>) rs = firstRule c rs"
  by (induction rs) (auto simp: demoted_def)

lemma context_combined [simp]:
  "fired (c\<lparr>rcCombined := x\<rparr>) i = fired c i" "firedBot (c\<lparr>rcCombined := x\<rparr>) i = firedBot c i"
  "crossFail (c\<lparr>rcCombined := x\<rparr>) i = crossFail c i"
  by (simp_all add: fired_def firedBot_def crossFail_def)

lemma context_fields:
  "rcNetPolicy (c\<lparr>rcCombined := x\<rparr>) = rcNetPolicy c" "rcBrowserClaim (c\<lparr>rcCombined := x\<rparr>) = rcBrowserClaim c"
  "rcHasClient (c\<lparr>rcCombined := x\<rparr>) = rcHasClient c"
  by simp_all

lemma residual_combined [simp]:
  "correlationRule (c\<lparr>rcCombined := x\<rparr>) = correlationRule c" "netResidual (c\<lparr>rcCombined := x\<rparr>) = netResidual c"
  unfolding correlationRule_def netResidual_def by (simp_all only: context_combined context_fields)

lemma promoRule_sel [simp]:
  "prID (promoRule i v p w) = i" "prVerdict (promoRule i v p w) = v" "prPred (promoRule i v p w) = p"
  by (simp_all add: promoRule_def)

lemmas rule_tables = promotionRules_def artifactRules_def noClientRules_def integrityRules_def challengeRules_def

lemma pred_combined_all: "list_all (\<lambda>r. prPred r (c\<lparr>rcCombined := x\<rparr>) = prPred r c) promotionRules"
  unfolding rule_tables
  by (simp only: list_all_append list.pred_inject promoRule_sel context_combined context_fields residual_combined
      HOL.simp_thms)

lemma pred_combined: "r \<in> set promotionRules \<Longrightarrow> prPred r (c\<lparr>rcCombined := x\<rparr>) = prPred r c"
  using pred_combined_all by (auto simp: list_all_iff)

lemma rules_combined [simp]: "applyPromotionRules (c\<lparr>rcCombined := x\<rparr>) = applyPromotionRules c"
  by (simp add: applyPromotionRules_def firstRule_combined pred_combined)

text \<open>What Go promises about ranging over a map: every key once, in some order.\<close>

definition goMapOrder :: "score_env \<Rightarrow> bool" where
  "goMapOrder E \<longleftrightarrow> (\<forall>ks. mset (iterGroups E ks) = mset ks) \<and> (\<forall>ks. mset (iterLayers E ks) = mset ks)"

definition riskOf :: "score_env \<Rightarrow> engine \<Rightarrow> session_report \<Rightarrow> rat" where
  "riskOf E e r = riskSpec (polLayerCap (Policy e)) (contributionsOf E e r)"

lemma Combine_riskOf: "goMapOrder E \<Longrightarrow> Combine E (contributionsOf E e r) (Policy e) = riskOf E e r"
  by (simp add: riskOf_def Combine_riskSpec plain_contributions goMapOrder_def)

lemma Score_parts:
  "Score E e r = decide e (fst (assemble E e r)) (contributionsOf E e r)
     ((contextOf E e r)\<lparr>rcCombined := Combine E (contributionsOf E e r) (Policy e)\<rparr>)
     (Combine E (contributionsOf E e r) (Policy e))"
  by (simp add: Score_def contributionsOf_def contextOf_def split_beta Let_def)

lemma assemble_network: "Network (fst (assemble E e r)) = Network r"
  by (simp add: assemble_def Let_def)

text \<open>The verdict of \<open>decide\<close>: the hard rule, else the band, else the band upgraded by server evidence.\<close>

definition upgraded :: "session_report \<Rightarrow> string \<times> string \<Rightarrow> string \<times> string" where
  "upgraded r vf =
     (if fst vf = ScoreChallenge \<and> snd vf = [] then
        (if hasServerSignal (nSignals (Network r)) ''l7.pow.solved'' then (ScoreAllow, ''PoW-upgrade'')
         else if hasServerSignal (nSignals (Network r)) ''l7.pass.solved'' then (ScoreAllow, ''Pass-upgrade'')
         else vf)
      else vf)"

definition verdictOf :: "score_env \<Rightarrow> engine \<Rightarrow> session_report \<Rightarrow> string \<times> string" where
  "verdictOf E e r =
     (let hard = applyPromotionRules (contextOf E e r)
      in if hvVerdict hard \<noteq> [] then upgraded r (hvVerdict hard, hvRule hard)
         else upgraded r (verdictFor (Policy e) (Combine E (contributionsOf E e r) (Policy e)), []))"

lemma decide_verdict:
  "(resVerdict (snd (decide e r cs c x)), HardRuleFired (snd (decide e r cs c x)))
     = upgraded r (if hvVerdict (applyPromotionRules c) \<noteq> [] then (hvVerdict (applyPromotionRules c), hvRule (applyPromotionRules c))
                   else (verdictFor (Policy e) x, []))"
  by (simp add: decide_def upgraded_def Let_def engine_verdict_defs split: prod.split if_split)

lemma upgraded_network: "Network r' = Network r \<Longrightarrow> upgraded r' = upgraded r"
  by (rule ext) (simp add: upgraded_def)

lemma Score_verdict:
  "(resVerdict (snd (Score E e r)), HardRuleFired (snd (Score E e r))) = verdictOf E e r"
  unfolding Score_parts decide_verdict verdictOf_def Let_def rules_combined
  using upgraded_network [OF assemble_network] by (simp split: if_split)

lemma Score_risk: "resRiskScore (snd (Score E e r)) = round1 (Combine E (contributionsOf E e r) (Policy e))"
  unfolding Score_parts by (simp add: decide_def Let_def split_beta)

subsection \<open>The rule table\<close>

definition enforcedMatch :: "rule_context \<Rightarrow> promo_rule \<Rightarrow> bool" where
  "enforcedMatch c r \<longleftrightarrow> \<not> demoted c r \<and> prPred r c"

lemma firstRule_filter:
  "firstRule c rs = (case filter (enforcedMatch c) rs of
                       [] \<Rightarrow> \<lparr>hvVerdict = [], hvRule = []\<rparr>
                     | r # _ \<Rightarrow> \<lparr>hvVerdict = prVerdict r, hvRule = prID r\<rparr>)"
  by (induction rs) (auto simp: enforcedMatch_def)

lemma deny_tables: "list_all (\<lambda>r. prVerdict r = ScoreDeny) (artifactRules @ integrityRules)"
  unfolding rule_tables by (simp only: list_all_append list.pred_inject promoRule_sel HOL.simp_thms)

lemma challenge_tables: "list_all (\<lambda>r. prVerdict r = ScoreChallenge) (noClientRules @ challengeRules)"
  unfolding rule_tables by (simp only: list_all_append list.pred_inject promoRule_sel HOL.simp_thms)

lemma rule_ids: "list_all (\<lambda>r. prID r \<noteq> []) promotionRules"
  unfolding rule_tables by (simp only: list_all_append list.pred_inject promoRule_sel HOL.simp_thms list.distinct)



lemma rule_verdicts: "d \<in> set promotionRules \<Longrightarrow> prVerdict d \<in> {ScoreDeny, ScoreChallenge} \<and> prID d \<noteq> []"
  using deny_tables challenge_tables rule_ids by (auto simp: promotionRules_def list_all_iff)

lemma hard_verdict_cases:
  "applyPromotionRules c = \<lparr>hvVerdict = [], hvRule = []\<rparr>
   \<or> hvVerdict (applyPromotionRules c) \<in> {ScoreDeny, ScoreChallenge} \<and> hvRule (applyPromotionRules c) \<noteq> []"
proof (cases "filter (enforcedMatch c) promotionRules")
  case Nil
  then show ?thesis by (simp add: applyPromotionRules_def firstRule_filter)
next
  case (Cons d ds)
  then have "d \<in> set (filter (enforcedMatch c) promotionRules)" by simp
  then have "d \<in> set promotionRules" by simp
  then show ?thesis using Cons rule_verdicts by (simp add: applyPromotionRules_def firstRule_filter)
qed

lemma hard_verdict_final:
  assumes "hvVerdict (applyPromotionRules (contextOf E e r)) \<noteq> []"
  shows "resVerdict (snd (Score E e r)) = hvVerdict (applyPromotionRules (contextOf E e r))"
    and "HardRuleFired (snd (Score E e r)) = hvRule (applyPromotionRules (contextOf E e r))"
  using Score_verdict [of E e r] hard_verdict_cases [of "contextOf E e r"] assms
  by (auto simp: verdictOf_def upgraded_def Let_def)

section \<open>Determinism and the trace\<close>

lemma assemble_order: "assemble (E\<lparr>iterGroups := g, iterLayers := l\<rparr>) e r = assemble E e r"
proof -
  have f: "mlScore (E\<lparr>iterGroups := g, iterLayers := l\<rparr>) = mlScore E"
    "mlFireThreshold (E\<lparr>iterGroups := g, iterLayers := l\<rparr>) = mlFireThreshold E"
    "quoteGo (E\<lparr>iterGroups := g, iterLayers := l\<rparr>) = quoteGo E" by simp_all
  show ?thesis unfolding assemble_def BehaviorSignals_def mlSignals_def CrossChecks_def by (simp only: f)
qed

lemma traceRules_won: "filter Won (traceRules c rs True) = []"
  by (induction rs) (simp_all add: Let_def)

definition plainModes :: "smap option \<Rightarrow> bool" where
  "plainModes m \<longleftrightarrow> (\<forall>i. ruleModeOf m i \<in> {''enforce'', ''monitor'', ''off''})"

lemma demoted_plain:
  "plainModes (rcRuleModes c) \<Longrightarrow> \<not> demoted c r \<longleftrightarrow> ruleModeOf (rcRuleModes c) (prID r) = ''enforce''"
  unfolding plainModes_def demoted_def by auto

lemma traceRules_winner:
  assumes "plainModes (rcRuleModes c)"
  shows "map hreRule (filter Won (traceRules c rs False)) = map prID (take 1 (filter (enforcedMatch c) rs))"
proof (induction rs)
  case (Cons r rs)
  let ?w = "prPred r c \<and> ruleModeOf (rcRuleModes c) (prID r) = ''enforce''"
  have w: "?w \<longleftrightarrow> enforcedMatch c r" using demoted_plain [OF assms, of r] by (auto simp: enforcedMatch_def)
  show ?case
  proof (cases "enforcedMatch c r")
    case True
    then show ?thesis using w by (simp add: traceRules_won Let_def)
  next
    case False
    then show ?thesis using w Cons by (cases "prPred r c") (simp_all add: Let_def del: One_nat_def)
  qed
qed simp

lemma trace_winner:
  assumes "plainModes (rcRuleModes c)"
  shows "map hreRule (filter Won (tracePromotionRules c))
           = (if hvVerdict (applyPromotionRules c) = [] then [] else [hvRule (applyPromotionRules c)])"
proof (cases "filter (enforcedMatch c) promotionRules")
  case Nil
  then show ?thesis using traceRules_winner [OF assms, of promotionRules]
    by (simp add: tracePromotionRules_def applyPromotionRules_def firstRule_filter)
next
  case (Cons d ds)
  then have "d \<in> set (filter (enforcedMatch c) promotionRules)" by simp
  then have "prVerdict d \<noteq> []" using rule_verdicts [of d] by (auto simp: engine_verdict_defs)
  then show ?thesis using Cons traceRules_winner [OF assms, of promotionRules]
    by (simp add: tracePromotionRules_def applyPromotionRules_def firstRule_filter)
qed

lemma ScoreWithTrace_parts:
  assumes "goMapOrder E"
  shows "fst (ScoreWithTrace E e r) = fst (Score E e r)"
    and "fst (snd (ScoreWithTrace E e r)) = snd (Score E e r)"
    and "HardRules (snd (snd (ScoreWithTrace E e r)))
           = tracePromotionRules ((contextOf E e r)\<lparr>rcCombined := riskOf E e r\<rparr>)"
proof -
  have "fst (combineTrace (contributionsOf E e r) (Policy e)) = riskOf E e r"
    by (simp add: riskOf_def combineTrace_riskSpec plain_contributions)
  then show "fst (ScoreWithTrace E e r) = fst (Score E e r)"
    "fst (snd (ScoreWithTrace E e r)) = snd (Score E e r)"
    "HardRules (snd (snd (ScoreWithTrace E e r)))
       = tracePromotionRules ((contextOf E e r)\<lparr>rcCombined := riskOf E e r\<rparr>)"
    using Combine_riskOf [OF assms, of e r]
    by (simp_all add: ScoreWithTrace_def Score_parts contributionsOf_def contextOf_def split_beta Let_def)
qed

lemma context_modes: "rcRuleModes (contextOf E e r) = RuleModes e" "rcNetPolicy (contextOf E e r) = NetPolicy e"
  "rcHasClient (contextOf E e r) = hasClientReport r"
  by (simp_all add: contextOf_def assemble_def Let_def hasClientReport_def)

lemma round1_bounds: "0 \<le> x \<Longrightarrow> x \<le> 100 \<Longrightarrow> 0 \<le> round1 x \<and> round1 x \<le> 100"
proof -
  assume x: "0 \<le> x" "x \<le> 100"
  then have "0 \<le> \<lfloor>x * 10 + 1/2\<rfloor>" "\<lfloor>x * 10 + 1/2\<rfloor> \<le> 1000" by linarith+
  then have "0 \<le> (of_int \<lfloor>x * 10 + 1/2\<rfloor> :: rat)" "(of_int \<lfloor>x * 10 + 1/2\<rfloor> :: rat) \<le> 1000" by linarith+
  then show ?thesis using x by (simp add: round1_def truncate_rat_def)
qed

section \<open>Overlays\<close>

lemma validated_modes:
  assumes "Validate (Some v) = None" "(i, m) \<in> set (OHardRules v)"
  shows "m = ModeEnforce \<or> m = ModeMonitor"
  using Validate_parts(2) [OF assms(1)] assms(2)
  by (fastforce simp: validateHRMode_def Let_def mode_defs split: if_splits)

lemma resolved_rules:
  "EHardRules (Resolve P canonical boot act) = (if isActive act then mergeMap [] (OHardRules (the act)) else [])"
  by (auto simp: Resolve_def Let_def bootEffective_def ScoringDefaults_def applyOverlay_def applyScoring_def
      applyRate_def isActive_def split: option.split)

lemma configured_modes: "RuleModes (ConfigureEngineFromEffective e eff) = nonEmpty (EHardRules eff)"
  by (simp add: ConfigureEngineFromEffective_def ConfigureFull_def Let_def)

lemma configured_mode:
  assumes "Validate (Some v) = None"
  shows "ruleModeOf (RuleModes (ConfigureEngineFromEffective e (Resolve P canonical boot (Some v)))) i = ''enforce''
         \<or> ruleModeOf (RuleModes (ConfigureEngineFromEffective e (Resolve P canonical boot (Some v)))) i = ''monitor''
            \<and> (i, ModeMonitor) \<in> set (OHardRules v)"
proof (cases "map_of (EHardRules (Resolve P canonical boot (Some v))) i")
  case None
  then show ?thesis by (simp add: configured_modes nonEmpty_def ruleModeOf_def)
next
  case (Some m)
  then have mem: "(i, m) \<in> set (OHardRules v)"
    using map_of_mergeMap [of "[]" "OHardRules v" i m] by (auto simp: resolved_rules split: if_splits)
  have "EHardRules (Resolve P canonical boot (Some v)) \<noteq> []" using Some by auto
  then show ?thesis using Some mem validated_modes [OF assms mem]
    by (auto simp: configured_modes nonEmpty_def ruleModeOf_def mode_defs)
qed

lemma validated_plainModes:
  "Validate (Some v) = None
     \<Longrightarrow> plainModes (RuleModes (ConfigureEngineFromEffective e (Resolve P canonical boot (Some v))))"
  unfolding plainModes_def
proof (rule allI)
  fix i assume "Validate (Some v) = None"
  from configured_mode [OF this, of e P canonical boot i]
  show "ruleModeOf (RuleModes (ConfigureEngineFromEffective e (Resolve P canonical boot (Some v)))) i
          \<in> {''enforce'', ''monitor'', ''off''}" by (elim disjE conjE) (simp_all only: insert_iff simp_thms)
qed





section \<open>Score-exempt residuals\<close>

lemma groupsIn_mset: "mset xs = mset ys \<Longrightarrow> groupsIn xs l = groupsIn ys l"
  unfolding groupsIn_def by (metis set_mset_mset)

lemma bestIn_mset: "mset xs = mset ys \<Longrightarrow> bestIn xs l g = bestIn ys l g"
  unfolding bestIn_def by (metis set_mset_mset)

lemma looseMiss_mset: "mset xs = mset ys \<Longrightarrow> looseMiss xs l = looseMiss ys l"
proof -
  assume "mset xs = mset ys"
  then have "mset (map (miss \<circ> scScore) (filter (\<lambda>s. scLayer s = l \<and> scGroup s = []) xs))
               = mset (map (miss \<circ> scScore) (filter (\<lambda>s. scLayer s = l \<and> scGroup s = []) ys))" by simp
  then show ?thesis by (simp only: looseMiss_def prod_mset_prod_list [symmetric])
qed

lemma riskSpec_mset: "mset xs = mset ys \<Longrightarrow> riskSpec cap xs = riskSpec cap ys"
proof -
  assume m: "mset xs = mset ys"
  then have "layerRisk xs l = layerRisk ys l" for l
    by (simp add: layerRisk_parts groupMiss_def groupsIn_mset [OF m] bestIn_mset [OF m] looseMiss_mset [OF m])
  moreover have "set xs = set ys" using m by (metis set_mset_mset)
  ultimately show ?thesis by (simp add: riskSpec_def)
qed

lemma riskSpec_insert_nonpos: "scScore z \<le> 0 \<Longrightarrow> riskSpec cap (xs @ z # ys) = riskSpec cap (xs @ ys)"
proof -
  assume z: "scScore z \<le> 0"
  have "riskSpec cap (xs @ z # ys) = riskSpec cap ((xs @ ys) @ [z])" by (rule riskSpec_mset) simp
  then show ?thesis by (simp only: riskSpec_snoc(2) [OF z])
qed

lemma Lookup_decl: "d \<in> set registryDecls \<Longrightarrow> Lookup (defID d) = Some d"
  using registry_ids_distinct by (auto simp: Lookup_def registry_def o_def intro!: map_of_is_SomeI)

lemma exempt_not_privacy:
  "list_all (\<lambda>d. defWeight d = 0 \<longrightarrow> defID d \<noteq> ''l2.canvas.tampered'' \<and> defID d \<noteq> ''l2.webgl.param_consistency'') registryDecls"
  unfolding registryDecls_def reg_defs
  by (simp only: list.pred_inject list_all_append sdef_sel simp_thms HOL.TrueI) simp

text \<open>The scoring pipeline after the collection of contributions, as it treats one score-exempt contribution.\<close>

definition pipeline :: "(string \<times> rat) list \<Rightarrow> bool \<Rightarrow> scored list \<Rightarrow> scored list" where
  "pipeline ws privacy xs =
     (let ys = applyFPMitigation (applyWeightMultipliers xs ws) in if privacy then dampPrivacyNoise ys else ys)"

lemma weights_insert:
  assumes "scScore z = 0"
  shows "\<exists>z'. scScore z' = 0 \<and> scID z' = scID z
     \<and> applyWeightMultipliers (xs @ z # ys) m = applyWeightMultipliers xs m @ z' # applyWeightMultipliers ys m"
  using assms by (auto simp: applyWeightMultipliers_def Let_def split: option.split)

lemma mitigation_insert:
  assumes "scScore z = 0" "scID z \<noteq> ''l2.canvas.tampered''" "scID z \<noteq> ''l2.webgl.param_consistency''"
  obtains z' us vs where "scScore z' = 0" "applyFPMitigation (xs @ z # ys) = us @ z' # vs"
    "applyFPMitigation (xs @ ys) = us @ vs"
proof -
  let ?damp = "\<lambda>s. if scGroup s = ''canvas'' \<or> scGroup s = ''webgl'' then s\<lparr>scScore := scScore s * (1/2)\<rparr> else s"
  let ?tell = "\<lambda>ws. \<exists>s \<in> set ws. scID s = ''l2.canvas.tampered'' \<or> scID s = ''l2.webgl.param_consistency''"
  have z: "scScore (?damp z) = 0" using assms(1) by simp
  have tell: "?tell (xs @ z # ys) \<longleftrightarrow> ?tell (xs @ ys)" using assms(2,3) by (simp only: set_append list.set Un_iff insert_iff) blast
  show thesis
  proof (cases "?tell (xs @ ys)")
    case True
    show thesis
    proof (rule that)
      show "scScore (?damp z) = 0" by (rule z)
      show "applyFPMitigation (xs @ z # ys) = map ?damp xs @ ?damp z # map ?damp ys"
        unfolding applyFPMitigation_def Let_def by (simp only: tell True if_True map_append list.map)
      show "applyFPMitigation (xs @ ys) = map ?damp xs @ map ?damp ys"
        unfolding applyFPMitigation_def Let_def by (simp only: True if_True map_append)
    qed
  next
    case False
    show thesis
      by (rule that [of z xs ys]) (simp_all only: assms(1) applyFPMitigation_def Let_def tell False if_False)
  qed
qed

lemma damp_insert:
  assumes "scScore z = 0"
  shows "\<exists>z'. scScore z' = 0 \<and> dampPrivacyNoise (xs @ z # ys) = dampPrivacyNoise xs @ z' # dampPrivacyNoise ys"
  using assms by (auto simp: dampPrivacyNoise_def)

lemma pipeline_exempt:
  assumes "scScore z = 0" "scID z \<noteq> ''l2.canvas.tampered''" "scID z \<noteq> ''l2.webgl.param_consistency''"
  shows "riskSpec cap (pipeline m privacy (xs @ z # ys)) = riskSpec cap (pipeline m privacy (xs @ ys))"
proof -
  obtain z1 where z1: "scScore z1 = 0" "scID z1 = scID z"
    "applyWeightMultipliers (xs @ z # ys) m = applyWeightMultipliers xs m @ z1 # applyWeightMultipliers ys m"
    using weights_insert [OF assms(1)] by blast
  have app: "applyWeightMultipliers (xs @ ys) m = applyWeightMultipliers xs m @ applyWeightMultipliers ys m"
    by (simp add: applyWeightMultipliers_def)
  obtain z2 us vs where z2: "scScore z2 = 0"
    "applyFPMitigation (applyWeightMultipliers (xs @ z # ys) m) = us @ z2 # vs"
    "applyFPMitigation (applyWeightMultipliers (xs @ ys) m) = us @ vs"
    unfolding z1(3) app
    by (rule mitigation_insert [OF z1(1), of "applyWeightMultipliers xs m" "applyWeightMultipliers ys m"])
      (simp_all only: z1(2) assms(2,3) not_False_eq_True)
  obtain z3 where z3: "scScore z3 = 0" "dampPrivacyNoise (us @ z2 # vs) = dampPrivacyNoise us @ z3 # dampPrivacyNoise vs"
    using damp_insert [OF z2(1)] by blast
  have "dampPrivacyNoise (us @ vs) = dampPrivacyNoise us @ dampPrivacyNoise vs" by (simp add: dampPrivacyNoise_def)
  then show ?thesis using z2 z3 by (simp add: pipeline_def Let_def riskSpec_insert_nonpos)
qed

definition withNetworkSignal :: "session_report \<Rightarrow> signal \<Rightarrow> session_report" where
  "withNetworkSignal r s = r\<lparr>Network := (Network r)\<lparr>nSignals := nSignals (Network r) @ [s]\<rparr>\<rparr>"

lemma withNetworkSignal_sel [simp]:
  "Client (withNetworkSignal r s) = Client r" "nSignals (Network (withNetworkSignal r s)) = nSignals (Network r) @ [s]"
  "JA4Engine (Network (withNetworkSignal r s)) = JA4Engine (Network r)"
  "H2Engine (Network (withNetworkSignal r s)) = H2Engine (Network r)"
  "SecCHUAPresent (Network (withNetworkSignal r s)) = SecCHUAPresent (Network r)"
  "SecFetchPresent (Network (withNetworkSignal r s)) = SecFetchPresent (Network r)"
  by (simp_all add: withNetworkSignal_def)

lemma withNetworkSignal_cross: "CrossChecks E (withNetworkSignal r s) = CrossChecks E r"
  unfolding CrossChecks_def uachMatchesJS_def Let_def by (simp only: withNetworkSignal_sel)

lemma withNetworkSignal_client: "hasClientReport (withNetworkSignal r s) = hasClientReport r"
  by (simp add: hasClientReport_def)

definition derivedOf :: "score_env \<Rightarrow> session_report \<Rightarrow> scored list" where
  "derivedOf E r =
     map scoredOf (BehaviorSignals E (cBehavior (Client r)))
     @ map scoredOf (erSignals (EnvironmentSignals (cEnvironment (Client r)) (hasClientReport r))
                     @ GuardSignals (cGuard (Client r)) @ AdvancedSignals (cAdvanced (Client r)) (cUserAgent (Client r)))
     @ map crossScored (filter (\<lambda>x. 0 < xScore x) (CrossChecks E r))"

lemma contributions_pipeline:
  "contributionsOf E e r =
     pipeline (WeightMultipliers e) (erPrivacy (EnvironmentSignals (cEnvironment (Client r)) (hasClientReport r)))
       ((map scoredOf (cSignals (Client r)) @ map scoredOf (nSignals (Network r))) @ derivedOf E r)"
  by (simp add: contributionsOf_def assemble_def pipeline_def gather_def derivedOf_def Let_def)

lemma exempt_risk:
  assumes "d \<in> set registryDecls" "defWeight d = 0"
  shows "riskOf E e (withNetworkSignal r (NewSignal (defID d) val v c src n)) = riskOf E e r"
proof -
  let ?s = "NewSignal (defID d) val v c src n"
  have zero: "scScore (scoredOf ?s) = 0"
    using Lookup_decl [OF assms(1)] assms(2) by (simp add: scoredOf_def NewSignal_def Lookup_def)
  have ids: "scID (scoredOf ?s) \<noteq> ''l2.canvas.tampered''" "scID (scoredOf ?s) \<noteq> ''l2.webgl.param_consistency''"
    using exempt_not_privacy assms by (auto simp: list_all_iff scoredOf_def)
  have same: "derivedOf E (withNetworkSignal r ?s) = derivedOf E r"
    by (simp add: derivedOf_def withNetworkSignal_cross withNetworkSignal_client)
  show ?thesis
    using pipeline_exempt [OF zero ids, of "polLayerCap (Policy e)" "WeightMultipliers e" _
        "map scoredOf (cSignals (Client r)) @ map scoredOf (nSignals (Network r))" "derivedOf E r"]
    by (simp add: riskOf_def contributions_pipeline same withNetworkSignal_client)
qed

section \<open>Properties\<close>

text \<open>An environment and a session for the witnesses: maps are ranged over backwards, no model is loaded.\<close>

definition exEnv :: score_env where
  "exEnv = \<lparr>mlScore = (\<lambda>_. \<lparr>Abstain = True, PBot = 0\<rparr>), mlFireThreshold = 1/2, quoteGo = (\<lambda>s. s),
     iterGroups = rev, iterLayers = rev\<rparr>"

lemma exEnv_order: "goMapOrder exEnv"
  by (simp add: goMapOrder_def exEnv_def)

text \<open>
  the score is a function of the report and the policy.  Go leaves the order of a range
  over a map open, and the combination ranges over two maps; whatever permutations of the keys it gets, the
  same report yields the same scored report and the same result.
\<close>

theorem score_deterministic:
  assumes "goMapOrder E" and "goMapOrder (E\<lparr>iterGroups := g, iterLayers := l\<rparr>)"
  shows "Score (E\<lparr>iterGroups := g, iterLayers := l\<rparr>) e r = Score E e r"
proof -
  let ?E = "E\<lparr>iterGroups := g, iterLayers := l\<rparr>"
  have "contributionsOf ?E e r = contributionsOf E e r" "contextOf ?E e r = contextOf E e r"
    by (simp_all add: contributionsOf_def contextOf_def assemble_order)
  moreover have "riskOf ?E e r = riskOf E e r" by (simp add: riskOf_def contributionsOf_def assemble_order)
  ultimately show ?thesis
    using Combine_riskOf [OF assms(1), of e r] Combine_riskOf [OF assms(2), of e r]
    by (simp add: Score_parts assemble_order)
qed

theorem score_deterministic_witness:
  "Score (exEnv\<lparr>iterGroups := (\<lambda>ks. ks), iterLayers := (\<lambda>ks. ks)\<rparr>) NewEngine zeroReport = Score exEnv NewEngine zeroReport"
  by (rule score_deterministic) (simp_all add: goMapOrder_def exEnv_def)

text \<open>
  C12: the verdict of a session is the verdict of the first rule of the table that is
  in force and matches; with no such rule it is the band of the closed-form risk, and a CHALLENGE of that
  band becomes ALLOW exactly when the server itself recorded a solved proof of work or Pass.
\<close>

theorem verdict_spec:
  assumes "goMapOrder E"
  shows "resVerdict (snd (Score E e r)) =
           (let band = verdictFor (Policy e) (riskSpec (polLayerCap (Policy e)) (contributionsOf E e r))
            in case filter (enforcedMatch (contextOf E e r)) promotionRules of
                 ru # _ \<Rightarrow> prVerdict ru
               | [] \<Rightarrow> if band = ScoreChallenge
                           \<and> (hasServerSignal (nSignals (Network r)) ''l7.pow.solved''
                              \<or> hasServerSignal (nSignals (Network r)) ''l7.pass.solved'')
                        then ScoreAllow else band)"
proof (cases "filter (enforcedMatch (contextOf E e r)) promotionRules")
  case Nil
  then have "hvVerdict (applyPromotionRules (contextOf E e r)) = []"
    by (simp add: applyPromotionRules_def firstRule_filter)
  then show ?thesis using Nil Score_verdict [of E e r] Combine_riskOf [OF assms, of e r]
    by (auto simp: verdictOf_def upgraded_def riskOf_def Let_def split: if_splits)
next
  case (Cons ru rus)
  then have "ru \<in> set (filter (enforcedMatch (contextOf E e r)) promotionRules)" by simp
  then have "prVerdict ru \<noteq> []" using rule_verdicts [of ru] by (auto simp: engine_verdict_defs)
  moreover have "hvVerdict (applyPromotionRules (contextOf E e r)) = prVerdict ru"
    using Cons by (simp add: applyPromotionRules_def firstRule_filter)
  ultimately show ?thesis using hard_verdict_final(1) [of E e r] Cons by simp
qed

theorem verdict_spec_witness:
  "resVerdict (snd (Score exEnv NewEngine zeroReport)) = ScoreChallenge"
proof -
  let ?c = "contextOf exEnv NewEngine zeroReport"
  have "rcSigs ?c = []" "rcCross ?c = []"
    by (simp_all add: contextOf_def assemble_def AllSignals_def zeroReport_def zeroClient_def zeroNetwork_def exEnv_def
        BehaviorSignals_def eventSignals_def agentSignals_def mouseSignals_def keySignals_def mlSignals_def addIf_def
        EnvironmentSignals_def GuardSignals_def AdvancedSignals_def CrossChecks_def crossIf_def hasClientReport_def
        isBrowserUA_def claimedEngine_def claimsChromium_def containsStr_def defaultBehaviorThresholds_def wrap64_def Let_def)
  then have quiet: "\<not> fired ?c i" "\<not> firedBot ?c i" "\<not> crossFail ?c i" for i
    by (simp_all add: fired_def firedBot_def crossFail_def)
  have "list_all (\<lambda>ru. \<not> prPred ru ?c) artifactRules"
    unfolding artifactRules_def by (simp only: list.pred_inject promoRule_sel quiet simp_thms)
  then have "filter (enforcedMatch ?c) artifactRules = []"
    by (auto simp: filter_empty_conv list_all_iff enforcedMatch_def)
  moreover have "filter (enforcedMatch ?c) noClientRules = noClientRules"
    by (simp add: noClientRules_def enforcedMatch_def demoted_def context_modes NewEngine_def ruleModeOf_def
        hasClientReport_def zeroReport_def zeroClient_def)
  ultimately have "filter (enforcedMatch ?c) promotionRules
      = noClientRules @ filter (enforcedMatch ?c) (integrityRules @ challengeRules)"
    by (simp add: promotionRules_def)
  then show ?thesis using verdict_spec [OF exEnv_order, of NewEngine zeroReport] by (simp add: noClientRules_def Let_def)
qed

text \<open>
  C34: under any overlay that validation accepts, the traced scorer returns the same report and
  result as the plain one, and the rule its trace marks as the winner is the hard rule that decided the verdict.
\<close>

theorem trace_agrees:
  assumes "goMapOrder E" and "Validate (Some v) = None"
  shows "let e' = ConfigureEngineFromEffective e (Resolve P canonical boot (Some v));
             hard = applyPromotionRules (contextOf E e' r)
         in case ScoreWithTrace E e' r of (r', res, tr) \<Rightarrow>
              (r', res) = Score E e' r
              \<and> map hreRule (filter Won (HardRules tr)) = (if hvVerdict hard = [] then [] else [hvRule hard])"
proof -
  let ?e = "ConfigureEngineFromEffective e (Resolve P canonical boot (Some v))"
  let ?c = "(contextOf E ?e r)\<lparr>rcCombined := riskOf E ?e r\<rparr>"
  have "plainModes (rcRuleModes ?c)" using validated_plainModes [OF assms(2)] by (simp add: context_modes)
  from trace_winner [OF this] show ?thesis
    using ScoreWithTrace_parts [OF assms(1), of ?e r] by (simp add: Let_def split_beta prod_eq_iff)
qed

theorem trace_agrees_witness:
  "let e' = ConfigureEngineFromEffective NewEngine (Resolve toyPrims (\<lambda>_. Some []) exBoot
              (Some (emptyOverlay\<lparr>OHardRules := [(''HR-12'', ModeMonitor)]\<rparr>)));
       hard = applyPromotionRules (contextOf exEnv e' zeroReport)
   in case ScoreWithTrace exEnv e' zeroReport of (r', res, tr) \<Rightarrow>
        (r', res) = Score exEnv e' zeroReport
        \<and> map hreRule (filter Won (HardRules tr)) = (if hvVerdict hard = [] then [] else [hvRule hard])"
  by (rule trace_agrees [OF exEnv_order])
    (simp add: Validate_def emptyOverlay_def validateHRMode_def orElseErr_def Let_def mode_defs)

text \<open>
  C36: whatever the client reports, as weights, scores, layers or verdicts, and whatever the policy and
  the multipliers, the risk score of a session lies between 0 and 100.
\<close>

theorem risk_in_range:
  assumes "goMapOrder E"
  shows "resRiskScore (snd (Score E e r)) \<in> {0..100}"
  using round1_bounds [OF riskSpec_bounds] Combine_riskOf [OF assms, of e r] by (simp add: Score_risk riskOf_def)

theorem risk_in_range_witness:
  "resRiskScore (snd (Score exEnv NewEngine zeroReport)) \<in> {0..100}"
  by (rule risk_in_range [OF exEnv_order])

text \<open>
  C35: evidence from one layer alone never reaches DENY by score: with a layer cap below the DENY
  threshold, contributions that score in a single layer only, however many and however high, stay below it.
\<close>

theorem one_layer_never_denies:
  assumes "goMapOrder E" "plainGroups xs" "\<forall>s \<in> set xs. 0 < scScore s \<longrightarrow> scLayer s = l"
    "0 \<le> polLayerCap p" "polLayerCap p < polDenyAt p"
  shows "verdictFor p (Combine E xs p) \<noteq> ScoreDeny"
proof -
  have "Combine E xs p = riskSpec (polLayerCap p) xs"
    using assms(1,2) by (simp add: Combine_riskSpec goMapOrder_def)
  also have "\<dots> \<le> 100 * clamp01 (polLayerCap p / 100)" by (rule riskSpec_one_layer [OF assms(3)])
  also have "\<dots> \<le> polLayerCap p" using assms(4) by (simp add: clamp01_def)
  finally show ?thesis using assms(5) by (simp add: verdictFor_def engine_verdict_defs)
qed

theorem one_layer_never_denies_witness:
  "verdictFor DefaultPolicy (Combine exEnv
     [\<lparr>scID = ''a'', scLayer = ''L1'', scGroup = [], scScore = 90\<rparr>, \<lparr>scID = ''b'', scLayer = ''L1'', scGroup = ''g'', scScore = 95\<rparr>]
     DefaultPolicy) \<noteq> ScoreDeny"
  by (rule one_layer_never_denies [OF exEnv_order, where l = "''L1''"]) (simp_all add: plainGroups_def DefaultPolicy_def)

text \<open>
  One more contribution never lowers the combined risk, whichever group or layer it joins.
\<close>

theorem evidence_monotone:
  assumes "goMapOrder E" "plainGroups (xs @ [s])"
  shows "Combine E xs p \<le> Combine E (xs @ [s]) p"
proof -
  have "plainGroups xs" using assms(2) by (simp add: plainGroups_def)
  then show ?thesis using assms riskSpec_snoc(1) by (simp add: Combine_riskSpec goMapOrder_def)
qed

theorem evidence_monotone_witness:
  "Combine exEnv [\<lparr>scID = ''a'', scLayer = ''L1'', scGroup = ''g'', scScore = 9\<rparr>] DefaultPolicy
     \<le> Combine exEnv ([\<lparr>scID = ''a'', scLayer = ''L1'', scGroup = ''g'', scScore = 9\<rparr>]
                       @ [\<lparr>scID = ''b'', scLayer = ''L1'', scGroup = ''g'', scScore = 5\<rparr>]) DefaultPolicy"
  by (rule evidence_monotone [OF exEnv_order]) (simp add: plainGroups_def)

text \<open>
  a network residual, a registered signal of weight zero, never moves the risk score: recording one
  more of them on a session, at any verdict and confidence, leaves the score as it was, under every policy,
  multiplier and privacy posture.
\<close>

theorem residuals_exempt:
  assumes "goMapOrder E" "d \<in> set registryDecls" "defWeight d = 0"
  shows "resRiskScore (snd (Score E e (withNetworkSignal r (NewSignal (defID d) val v c src n))))
           = resRiskScore (snd (Score E e r))"
  using exempt_risk [OF assms(2,3)] Combine_riskOf [OF assms(1), of e] by (simp add: Score_risk)

theorem residuals_exempt_witness:
  "resRiskScore (snd (Score exEnv NewEngine (withNetworkSignal zeroReport
       (NewSignal ''l5.tls.not_observed'' VNil SigBot 1 SourceServer []))))
     = resRiskScore (snd (Score exEnv NewEngine zeroReport))"
proof -
  have "regL5Network ! 1 \<in> set registryDecls" by (simp add: registryDecls_def regL5Network_def)
  moreover have "defWeight (regL5Network ! 1) = 0" "defID (regL5Network ! 1) = ''l5.tls.not_observed''"
    by (simp_all add: regL5Network_def)
  ultimately show ?thesis using residuals_exempt [OF exEnv_order, of "regL5Network ! 1"] by metis
qed


lemma fired_modes [simp]:
  "fired (c\<lparr>rcRuleModes := m, rcNetPolicy := n\<rparr>) i = fired c i" "firedBot (c\<lparr>rcRuleModes := m, rcNetPolicy := n\<rparr>) i = firedBot c i"
  "crossFail (c\<lparr>rcRuleModes := m, rcNetPolicy := n\<rparr>) i = crossFail c i"
  by (simp_all add: fired_def firedBot_def crossFail_def)




lemma resolved_net:
  "ENetPolicy (Resolve P canonical boot act) = (if isActive act then ONetPolicy (the act) else [])"
  by (simp add: Resolve_def Let_def applyOverlay_simps bootEffective_def ScoringDefaults_def)






section \<open>Network classes that one person can switch off\<close>

text \<open>
  The engine keeps every network class in force while no overlay names one, and the classification of a
  proposed overlay takes the classes no overlay names as already demoted.  An overlay that demotes the Tor
  class, or that merely names another class, is therefore of class A, and HR-24 no longer challenges a Tor exit.
\<close>

definition torContext :: "engine \<Rightarrow> rule_context" where
  "torContext e =
     \<lparr>rcSigs = [NewSignal ''l5.ip.tor_exit'' (VBool True) SigBot 1 SourceServer []], rcCross = [], rcHasClient = True,
      rcBrowserClaim = False, rcCombined = 0, rcRuleModes = RuleModes e, rcNetPolicy = NetPolicy e\<rparr>"

definition bootEngine :: "boot_input \<Rightarrow> overlay option \<Rightarrow> engine" where
  "bootEngine boot act = ConfigureEngineFromEffective NewEngine (Resolve toyPrims (\<lambda>_. Some []) boot act)"

lemma torContext_fires:
  "fired (torContext e) i \<longleftrightarrow> i = ''l5.ip.tor_exit''" "firedBot (torContext e) i \<longleftrightarrow> i = ''l5.ip.tor_exit''"
  by (auto simp: fired_def firedBot_def torContext_def)

lemma torContext_residual: "netResidual (torContext e) \<longleftrightarrow> netClassMode (NetPolicy e) ''net.tor'' = ''enforce''"
proof -
  have "rcNetPolicy (torContext e) = NetPolicy e" "rcBrowserClaim (torContext e) = False" by (simp_all add: torContext_def)
  then show ?thesis unfolding netResidual_def Let_def by (simp add: torContext_fires)
qed

lemma bootEngine_net:
  "NetPolicy (bootEngine boot None) = None"
  "ns \<noteq> [] \<Longrightarrow> NetPolicy (bootEngine boot (Some (emptyOverlay\<lparr>ONetPolicy := ns\<rparr>))) = Some ns"
  by (simp_all add: bootEngine_def ConfigureEngineFromEffective_def ConfigureFull_def nonEmpty_def Resolve_def
      bootEffective_def ScoringDefaults_def isActive_def applyOverlay_def applyScoring_def applyRate_def
      emptyOverlay_def Let_def)

theorem net_class_demoted_alone:
  assumes "ns \<in> {[(''net.tor'', ''monitor'')], [(''net.vpn'', ''enforce'')]}"
  shows "Validate (Some (emptyOverlay\<lparr>ONetPolicy := ns\<rparr>)) = None
    \<and> Classify (Resolve toyPrims (\<lambda>_. Some []) boot None) (Some (emptyOverlay\<lparr>ONetPolicy := ns\<rparr>)) = ClassA
    \<and> netResidual (torContext (bootEngine boot None))
    \<and> \<not> netResidual (torContext (bootEngine boot (Some (emptyOverlay\<lparr>ONetPolicy := ns\<rparr>))))"
proof -
  have "ns \<noteq> []" using assms by auto
  moreover have "Validate (Some (emptyOverlay\<lparr>ONetPolicy := ns\<rparr>)) = None"
    using assms by (auto simp: Validate_def emptyOverlay_def validateNetMode_def NetPolicyClasses_def orElseErr_def
        mode_defs Let_def)
  moreover have "Classify (Resolve toyPrims (\<lambda>_. Some []) boot None) (Some (emptyOverlay\<lparr>ONetPolicy := ns\<rparr>)) = ClassA"
    using assms by (auto simp: Classify_def emptyOverlay_def scoringRaises_def weightRaises_def rateRaises_def netRaises_def
        Resolve_def bootEffective_def ScoringDefaults_def isActive_def mode_defs Let_def)
  moreover have "netClassMode (Some ns) ''net.tor'' = ''monitor''"
    using assms by (auto simp: netClassMode_def)
  ultimately show ?thesis by (simp add: torContext_residual bootEngine_net) (simp add: netClassMode_def)
qed

text \<open>
  The rotation part of HR-19 can be switched off by one person in two steps.  \<open>Classify\<close> only raises the class for
  a demotion of \<open>net.correlation\<close> that starts from \<open>enforce\<close>: \<open>shadow\<close> is class A and leaves the rule armed, and from
  \<open>shadow\<close> the change to \<open>monitor\<close> is class A as well.
\<close>

definition rotationContext :: "engine \<Rightarrow> rule_context" where
  "rotationContext e =
     \<lparr>rcSigs = [NewSignal ''l5.correlation.proxy_rotation'' (VBool True) SigBot 1 SourceServer []], rcCross = [], rcHasClient = True,
      rcBrowserClaim = False, rcCombined = 0, rcRuleModes = RuleModes e, rcNetPolicy = NetPolicy e\<rparr>"

definition correlationOverlay :: "string \<Rightarrow> overlay" where
  "correlationOverlay m = emptyOverlay\<lparr>ONetPolicy := [(''net.correlation'', m)]\<rparr>"

lemma rotation_fires:
  "firedBot (rotationContext e) i \<longleftrightarrow> i = ''l5.correlation.proxy_rotation''"
  by (auto simp: firedBot_def rotationContext_def)

lemma rotation_rule:
  "correlationRule (rotationContext e) \<longleftrightarrow> netClassMode (NetPolicy e) ''net.correlation'' \<noteq> ''monitor''"
proof -
  have "rcNetPolicy (rotationContext e) = NetPolicy e" by (simp add: rotationContext_def)
  then show ?thesis by (simp add: correlationRule_def rotation_fires)
qed

theorem rotation_deny_disarmed_alone:
  "Validate (Some (correlationOverlay ModeShadow)) = None \<and> Validate (Some (correlationOverlay ModeMonitor)) = None
   \<and> Classify (Resolve toyPrims (\<lambda>_. Some []) boot None) (Some (correlationOverlay ModeShadow)) = ClassA
   \<and> Classify (Resolve toyPrims (\<lambda>_. Some []) boot (Some (correlationOverlay ModeShadow))) (Some (correlationOverlay ModeMonitor)) = ClassA
   \<and> correlationRule (rotationContext (bootEngine boot None))
   \<and> correlationRule (rotationContext (bootEngine boot (Some (correlationOverlay ModeShadow))))
   \<and> \<not> correlationRule (rotationContext (bootEngine boot (Some (correlationOverlay ModeMonitor))))"
proof (intro conjI)
  have act: "isActive (Some (correlationOverlay m))" for m by (simp add: isActive_def correlationOverlay_def emptyOverlay_def)
  show "Validate (Some (correlationOverlay ModeShadow)) = None" "Validate (Some (correlationOverlay ModeMonitor)) = None"
    by (simp_all add: Validate_def correlationOverlay_def emptyOverlay_def validateNetMode_def NetPolicyClasses_def orElseErr_def
        mode_defs Let_def)
  show "Classify (Resolve toyPrims (\<lambda>_. Some []) boot None) (Some (correlationOverlay ModeShadow)) = ClassA"
    by (simp add: Classify_def correlationOverlay_def emptyOverlay_def scoringRaises_def weightRaises_def rateRaises_def netRaises_def
        mode_defs Let_def)
  have "map_of (ENetPolicy (Resolve toyPrims (\<lambda>_. Some []) boot (Some (correlationOverlay ModeShadow)))) ''net.correlation'' = Some ModeShadow"
    using act by (simp add: resolved_net correlationOverlay_def)
  then show "Classify (Resolve toyPrims (\<lambda>_. Some []) boot (Some (correlationOverlay ModeShadow))) (Some (correlationOverlay ModeMonitor)) = ClassA"
    by (simp add: Classify_def) (simp add: correlationOverlay_def emptyOverlay_def scoringRaises_def weightRaises_def rateRaises_def
        netRaises_def mode_defs Let_def)
  show "correlationRule (rotationContext (bootEngine boot None))"
    "correlationRule (rotationContext (bootEngine boot (Some (correlationOverlay ModeShadow))))"
    "\<not> correlationRule (rotationContext (bootEngine boot (Some (correlationOverlay ModeMonitor))))"
    by (simp_all add: rotation_rule bootEngine_net correlationOverlay_def netClassMode_def mode_defs)
qed

end
