(* ===== verification/ClientHello.thy ===== *)
theory ClientHello
  imports GoLib "HOL-Library.Multiset"
begin

unbundle bit_operations_syntax

text \<open>
  TLS fingerprinting of package \<open>network\<close>: the cursor parser (bytes.go), the ClientHello parser
  (clienthello.go), GREASE (grease.go), JA3 and JA4 (ja3.go, ja4.go), the order hash (permutation.go) and the
  engine heuristics (enginemap.go).

  A \<open>uint16\<close> is a 16-bit word.  The cursor of \<open>parser\<close> is represented by the bytes it has not read yet.  The
  hash functions MD5 and SHA-256 are arguments.
\<close>

section \<open>Cursor parser (bytes.go)\<close>

type_synonym u16 = "16 word"

definition beU16 :: "char \<Rightarrow> char \<Rightarrow> u16" where
  "beU16 a b = word_of_nat (256 * of_char a + of_char b)"

definition skipBytes :: "bytes \<Rightarrow> nat \<Rightarrow> bytes option" where
  "skipBytes p n = (if length p < n then None else Some (drop n p))"

text \<open>\<open>u16\<close> is only called with two bytes left.\<close>

definition readU16 :: "bytes \<Rightarrow> u16 \<times> bytes" where
  "readU16 p = (beU16 (p ! 0) (p ! 1), drop 2 p)"

definition readVec8 :: "bytes \<Rightarrow> (bytes \<times> bytes) option" where
  "readVec8 p =
     (case p of
        [] \<Rightarrow> None
      | c # q \<Rightarrow> let n = of_char c in if length q < n then None else Some (take n q, drop n q))"

definition readVec16 :: "bytes \<Rightarrow> (bytes \<times> bytes) option" where
  "readVec16 p =
     (if length p < 2 then None
      else let n = unat (beU16 (p ! 0) (p ! 1)); q = drop 2 p
           in if length q < n then None else Some (take n q, drop n q))"

definition readVec8Body :: "bytes \<Rightarrow> bytes option" where
  "readVec8Body b = map_option fst (readVec8 b)"

definition readVec16Body :: "bytes \<Rightarrow> bytes option" where
  "readVec16Body b = map_option fst (readVec16 b)"

fun bytesToU16 :: "bytes \<Rightarrow> u16 list" where
  "bytesToU16 (a # b # cs) = beU16 a b # bytesToU16 cs"
| "bytesToU16 _ = []"

definition bytesToU8asU16 :: "bytes \<Rightarrow> u16 list" where
  "bytesToU8asU16 b = map (\<lambda>c. word_of_nat (of_char c)) b"

section \<open>ClientHello (clienthello.go)\<close>

record client_hello =
  LegacyVersion :: u16
  SupportedVers :: "u16 list"
  CipherSuites :: "u16 list"
  Extensions :: "u16 list"
  Curves :: "u16 list"
  PointFormats :: "u16 list"
  SigAlgs :: "u16 list"
  ALPN :: "string list"
  SNIPresent :: bool

definition emptyHello :: client_hello where
  "emptyHello = \<lparr>LegacyVersion = 0, SupportedVers = [], CipherSuites = [], Extensions = [], Curves = [],
     PointFormats = [], SigAlgs = [], ALPN = [], SNIPresent = False\<rparr>"

lemma readVec8_shorter: "readVec8 p = Some (v, q) \<Longrightarrow> length q < length p"
  by (auto simp: readVec8_def Let_def split: list.splits if_splits)

lemma readVec16_shorter: "readVec16 p = Some (v, q) \<Longrightarrow> length q < length p"
  by (auto simp: readVec16_def Let_def split: if_splits)

function parseNames :: "bytes \<Rightarrow> string list" where
  "parseNames p =
     (if p = [] then []
      else case readVec8 p of None \<Rightarrow> [] | Some (nm, q) \<Rightarrow> nm # parseNames q)"
  by auto
termination by (relation "measure length") (auto dest: readVec8_shorter)

declare parseNames.simps [simp del]

definition parseALPN :: "bytes \<Rightarrow> string list" where
  "parseALPN edata = (case readVec16Body edata of None \<Rightarrow> [] | Some l \<Rightarrow> parseNames l)"

text \<open>The body of the loop over the extensions.\<close>

definition addExtension :: "client_hello \<Rightarrow> u16 \<Rightarrow> bytes \<Rightarrow> client_hello" where
  "addExtension ch0 etype edata =
     (let ch = ch0\<lparr>Extensions := Extensions ch0 @ [etype]\<rparr>
      in if etype = 0x0000 then ch\<lparr>SNIPresent := (0 < length edata)\<rparr>
         else if etype = 0x000a then
           (case readVec16Body edata of Some v \<Rightarrow> ch\<lparr>Curves := bytesToU16 v\<rparr> | None \<Rightarrow> ch)
         else if etype = 0x000b then
           (case readVec8Body edata of Some v \<Rightarrow> ch\<lparr>PointFormats := bytesToU8asU16 v\<rparr> | None \<Rightarrow> ch)
         else if etype = 0x000d then
           (case readVec16Body edata of Some v \<Rightarrow> ch\<lparr>SigAlgs := bytesToU16 v\<rparr> | None \<Rightarrow> ch)
         else if etype = 0x0010 then ch\<lparr>ALPN := parseALPN edata\<rparr>
         else if etype = 0x002b then
           (case readVec8Body edata of Some v \<Rightarrow> ch\<lparr>SupportedVers := bytesToU16 v\<rparr> | None \<Rightarrow> ch)
         else ch)"

function parseExtensions :: "bytes \<Rightarrow> client_hello \<Rightarrow> client_hello" where
  "parseExtensions block ch =
     (if length block < 4 then ch
      else case readU16 block of (etype, rest) \<Rightarrow>
        (case readVec16 rest of
           None \<Rightarrow> ch
         | Some (edata, rest') \<Rightarrow> parseExtensions rest' (addExtension ch etype edata)))"
  by auto
termination
  by (relation "measure (length \<circ> fst)") (auto simp: readU16_def dest!: readVec16_shorter)

declare parseExtensions.simps [simp del]

text \<open>\<^const>\<open>None\<close> is the error \<open>errShort\<close>.\<close>

definition ParseClientHello :: "bytes \<Rightarrow> client_hello option" where
  "ParseClientHello b =
     (if length b < 4 \<or> b ! 0 \<noteq> CHR 0x01 then None
      else
        let hlen = of_char (b ! 1) * 65536 + of_char (b ! 2) * 256 + of_char (b ! 3);
            body0 = drop 4 b;
            body = (if length body0 < hlen then body0 else take hlen body0)
        in case skipBytes body 2 of
             None \<Rightarrow> None
           | Some p1 \<Rightarrow>
        (case skipBytes p1 32 of
             None \<Rightarrow> None
           | Some p2 \<Rightarrow>
        (case readVec8 p2 of
             None \<Rightarrow> None
           | Some (sid, p3) \<Rightarrow>
        (case readVec16 p3 of
             None \<Rightarrow> None
           | Some (cs, p4) \<Rightarrow>
        (case readVec8 p4 of
             None \<Rightarrow> None
           | Some (cmeth, p5) \<Rightarrow>
             let ch = emptyHello\<lparr>LegacyVersion := beU16 (body ! 0) (body ! 1), CipherSuites := bytesToU16 cs\<rparr>
             in if p5 = [] then Some ch
                else (case readVec16 p5 of
                        None \<Rightarrow> None
                      | Some (extBlock, p6) \<Rightarrow> Some (parseExtensions extBlock ch)))))))"

definition ParseRecord :: "bytes \<Rightarrow> client_hello option" where
  "ParseRecord rec =
     (if length rec < 5 \<or> rec ! 0 \<noteq> CHR 0x16 then None
      else let n = unat (beU16 (rec ! 3) (rec ! 4));
               recLen = (if length rec < 5 + n then length rec - 5 else n)
           in ParseClientHello (take recLen (drop 5 rec)))"

section \<open>GREASE (grease.go)\<close>

definition isGREASE :: "u16 \<Rightarrow> bool" where
  "isGREASE v \<longleftrightarrow> v AND 0x0f0f = 0x0a0a \<and> drop_bit 8 v = v AND 0x00ff"

definition stripGREASE :: "u16 list \<Rightarrow> u16 list" where
  "stripGREASE vs = filter (\<lambda>v. \<not> isGREASE v) vs"

section \<open>JA3 (ja3.go)\<close>

definition itoaU16 :: "u16 \<Rightarrow> string" where
  "itoaU16 v = decNat (unat v)"

definition joinU16 :: "u16 list \<Rightarrow> string" where
  "joinU16 vs = joinWith ''-'' (map itoaU16 vs)"

definition maxNonGREASE :: "u16 list \<Rightarrow> u16" where
  "maxNonGREASE vs = foldl (\<lambda>m v. if isGREASE v then m else if m < v then v else m) 0 vs"

definition helloVersion :: "client_hello \<Rightarrow> u16" where
  "helloVersion ch = (if 0 < length (SupportedVers ch) then maxNonGREASE (SupportedVers ch) else LegacyVersion ch)"

definition JA3of :: "(bytes \<Rightarrow> bytes) \<Rightarrow> client_hello \<Rightarrow> string \<times> string" where
  "JA3of md5 ch =
     (let text = joinWith '','' [itoaU16 (helloVersion ch), joinU16 (stripGREASE (CipherSuites ch)),
                   joinU16 (stripGREASE (Extensions ch)), joinU16 (stripGREASE (Curves ch)),
                   joinU16 (stripGREASE (PointFormats ch))]
      in (hexEncode (md5 text), text))"

section \<open>JA4 (ja4.go)\<close>

definition tlsVersionCode :: "client_hello \<Rightarrow> string" where
  "tlsVersionCode ch =
     (let ver = helloVersion ch
      in if ver = 0x0304 then ''13'' else if ver = 0x0303 then ''12'' else if ver = 0x0302 then ''11''
         else if ver = 0x0301 then ''10'' else ''00'')"

text \<open>\<open>string(b)\<close> of a byte is the UTF-8 encoding of the rune with that number.\<close>

definition byteRune :: "char \<Rightarrow> string" where
  "byteRune c = (let n = of_char c :: nat
                 in if n < 128 then [c] else [char_of (192 + n div 64), char_of (128 + n mod 64)])"

definition alpnCode :: "string list \<Rightarrow> string" where
  "alpnCode al = (case al of [] \<Rightarrow> ''00'' | v # _ \<Rightarrow> if v = [] then ''00'' else byteRune (hd v) @ byteRune (List.last v))"

definition cap2 :: "nat \<Rightarrow> nat" where
  "cap2 n = (if 99 < n then 99 else n)"

definition pad2 :: "nat \<Rightarrow> string" where
  "pad2 n = (if n < 10 then CHR ''0'' # decNat n else decNat n)"

definition hex4 :: "u16 \<Rightarrow> string" where
  "hex4 v = hexEncode [char_of (unat v div 256), char_of (unat v mod 256)]"

definition hexListInOrder :: "u16 list \<Rightarrow> string list" where
  "hexListInOrder vs = map hex4 vs"

definition hexSortedList :: "u16 list \<Rightarrow> string list" where
  "hexSortedList vs = hexListInOrder (sort vs)"

definition removeU16 :: "u16 list \<Rightarrow> u16 list \<Rightarrow> u16 list" where
  "removeU16 vs ds = filter (\<lambda>v. v \<notin> set ds) vs"

definition sha256Hex :: "(bytes \<Rightarrow> bytes) \<Rightarrow> string \<Rightarrow> string" where
  "sha256Hex sha s = hexEncode (sha s)"

definition trunc12 :: "string \<Rightarrow> string" where
  "trunc12 s = (if length s < 12 then s else take 12 s)"

definition ja4a :: "client_hello \<Rightarrow> string" where
  "ja4a ch =
     ''t'' @ tlsVersionCode ch @ (if SNIPresent ch then ''d'' else ''i'')
     @ pad2 (cap2 (length (stripGREASE (CipherSuites ch)))) @ pad2 (cap2 (length (stripGREASE (Extensions ch))))
     @ alpnCode (ALPN ch)"

definition JA4of :: "(bytes \<Rightarrow> bytes) \<Rightarrow> client_hello \<Rightarrow> string \<times> string" where
  "JA4of sha ch =
     (let a = ja4a ch;
          ciphers = hexSortedList (stripGREASE (CipherSuites ch));
          b = (if length ciphers = 0 then ''000000000000'' else trunc12 (sha256Hex sha (joinWith '','' ciphers)));
          extHex = hexSortedList (removeU16 (stripGREASE (Extensions ch)) [0x0000, 0x0010]);
          sigHex = hexListInOrder (SigAlgs ch);
          cInput = joinWith '','' extHex @ ''_'' @ joinWith '','' sigHex;
          c = (if length extHex = 0 then ''000000000000'' else trunc12 (sha256Hex sha cInput))
      in (a @ ''_'' @ b @ ''_'' @ c, a @ ''_'' @ joinWith '','' ciphers @ ''_'' @ cInput))"

section \<open>Extension order (permutation.go)\<close>

definition ExtOrderHash :: "(bytes \<Rightarrow> bytes) \<Rightarrow> client_hello option \<Rightarrow> string" where
  "ExtOrderHash sha ch =
     (case ch of
        None \<Rightarrow> []
      | Some c \<Rightarrow>
          let parts = map itoaU16 (filter (\<lambda>e. \<not> isGREASE e) (Extensions c))
          in if Extensions c = [] \<or> parts = [] then [] else hexEncode (take 6 (sha (joinWith ''-'' parts))))"

section \<open>Engine families (enginemap.go)\<close>

definition EngineChrome :: string where "EngineChrome = ''chrome''"
definition EngineFirefox :: string where "EngineFirefox = ''firefox''"
definition EngineSafari :: string where "EngineSafari = ''safari''"
definition EngineGo :: string where "EngineGo = ''go''"
definition EngineOpenSSL :: string where "EngineOpenSSL = ''openssl''"
definition EngineUnknown :: string where "EngineUnknown = ''unknown''"

lemmas engine_defs = EngineChrome_def EngineFirefox_def EngineSafari_def EngineGo_def EngineOpenSSL_def EngineUnknown_def

definition extRecordSizeLimit :: u16 where "extRecordSizeLimit = 0x001c"
definition extALPS :: u16 where "extALPS = 0x4469"
definition extCompressCert :: u16 where "extCompressCert = 0x001b"
definition extECH :: u16 where "extECH = 0xfe0d"

definition hasGREASE :: "client_hello \<Rightarrow> bool" where
  "hasGREASE ch \<longleftrightarrow> list_ex isGREASE (CipherSuites ch) \<or> list_ex isGREASE (Extensions ch)"

definition hasExt :: "client_hello \<Rightarrow> u16 \<Rightarrow> bool" where
  "hasExt ch want \<longleftrightarrow> list_ex (\<lambda>e. e = want) (Extensions ch)"

definition EngineFromClientHello :: "client_hello option \<Rightarrow> string" where
  "EngineFromClientHello hello =
     (case hello of
        None \<Rightarrow> EngineUnknown
      | Some ch \<Rightarrow>
          if \<not> hasGREASE ch then
            (if length (stripGREASE (CipherSuites ch)) \<le> 16 \<and> \<not> hasExt ch extCompressCert then EngineGo
             else EngineOpenSSL)
          else if hasExt ch extRecordSizeLimit then EngineFirefox
          else if hasExt ch extCompressCert \<or> hasExt ch extECH \<or> hasExt ch extALPS then EngineChrome
          else EngineSafari)"

section \<open>GREASE and order do not enter JA4\<close>

lemma sort_cong_mset: "mset xs = mset ys \<Longrightarrow> sort xs = (sort ys :: 'a :: linorder list)"
  by (rule properties_for_sort) simp_all

lemma hexSortedList_mset: "mset xs = mset ys \<Longrightarrow> hexSortedList xs = hexSortedList ys"
  unfolding hexSortedList_def by (drule sort_cong_mset) simp

text \<open>
  C38: two hellos that offer the same cipher suites and the same extensions, in any order and with any
  GREASE values mixed in, have the same JA4 fingerprint, hashed and raw, for every hash function.
\<close>

theorem ja4_order_insensitive:
  assumes "mset (stripGREASE cs) = mset (stripGREASE (CipherSuites ch))"
    and "mset (stripGREASE es) = mset (stripGREASE (Extensions ch))"
  shows "JA4of sha (ch\<lparr>CipherSuites := cs, Extensions := es\<rparr>) = JA4of sha ch"
proof -
  have "length (stripGREASE cs) = length (stripGREASE (CipherSuites ch))"
    "length (stripGREASE es) = length (stripGREASE (Extensions ch))"
    using assms by (auto dest: mset_eq_length)
  then have "ja4a (ch\<lparr>CipherSuites := cs, Extensions := es\<rparr>) = ja4a ch"
    by (simp add: ja4a_def tlsVersionCode_def helloVersion_def)
  moreover have "hexSortedList (removeU16 (stripGREASE es) [0x0000, 0x0010])
      = hexSortedList (removeU16 (stripGREASE (Extensions ch)) [0x0000, 0x0010])"
    by (rule hexSortedList_mset) (simp only: removeU16_def mset_filter assms(2))
  moreover have "hexSortedList (stripGREASE cs) = hexSortedList (stripGREASE (CipherSuites ch))"
    by (rule hexSortedList_mset [OF assms(1)])
  ultimately show ?thesis by (simp add: JA4of_def Let_def)
qed

theorem ja4_order_insensitive_witness:
  "JA4of pad32 (emptyHello\<lparr>CipherSuites := [0x1302, 0x1301, 0x2a2a], Extensions := [0x0a0a, 0x002b, 0x000a]\<rparr>)
     = JA4of pad32 (emptyHello\<lparr>CipherSuites := [0x3a3a, 0x1301, 0x1302], Extensions := [0x000a, 0x1a1a, 0x002b]\<rparr>)"
proof -
  let ?ch = "emptyHello\<lparr>CipherSuites := [0x3a3a, 0x1301, 0x1302], Extensions := [0x000a, 0x1a1a, 0x002b]\<rparr>"
  have "mset (stripGREASE [0x1302, 0x1301, 0x2a2a]) = mset (stripGREASE (CipherSuites ?ch))"
    "mset (stripGREASE [0x0a0a, 0x002b, 0x000a]) = mset (stripGREASE (Extensions ?ch))"
    by (simp_all add: stripGREASE_def isGREASE_def emptyHello_def)
  from ja4_order_insensitive [OF this, of pad32] show ?thesis by simp
qed

section \<open>The parser inverts the encoding of RFC 8446\<close>

text \<open>
  The reference: an abstract ClientHello, with the extensions the parser reads given by their contents, and
  its wire format.
\<close>

datatype hello_ext =
    ExtGroups "u16 list"
  | ExtPoints bytes
  | ExtSigAlgs "u16 list"
  | ExtALPN "string list"
  | ExtVersions "u16 list"
  | ExtServerName bytes
  | ExtOther u16 bytes

record wire_hello =
  whVersion :: u16
  whRandom :: bytes
  whSession :: bytes
  whCiphers :: "u16 list"
  whCompression :: bytes
  whExts :: "hello_ext list"

definition putU16 :: "u16 \<Rightarrow> bytes" where
  "putU16 v = [beByte (unat v div 256), beByte (unat v)]"

definition vec8 :: "bytes \<Rightarrow> bytes" where
  "vec8 b = beByte (length b) # b"

definition vec16 :: "bytes \<Rightarrow> bytes" where
  "vec16 b = [beByte (length b div 256), beByte (length b)] @ b"

definition putU16s :: "u16 list \<Rightarrow> bytes" where
  "putU16s vs = concat (map putU16 vs)"

fun extType :: "hello_ext \<Rightarrow> u16" where
  "extType (ExtGroups _) = 0x000a"
| "extType (ExtPoints _) = 0x000b"
| "extType (ExtSigAlgs _) = 0x000d"
| "extType (ExtALPN _) = 0x0010"
| "extType (ExtVersions _) = 0x002b"
| "extType (ExtServerName _) = 0x0000"
| "extType (ExtOther t _) = t"

fun extBody :: "hello_ext \<Rightarrow> bytes" where
  "extBody (ExtGroups vs) = vec16 (putU16s vs)"
| "extBody (ExtPoints b) = vec8 b"
| "extBody (ExtSigAlgs vs) = vec16 (putU16s vs)"
| "extBody (ExtALPN ns) = vec16 (concat (map vec8 ns))"
| "extBody (ExtVersions vs) = vec8 (putU16s vs)"
| "extBody (ExtServerName b) = b"
| "extBody (ExtOther _ b) = b"

definition encodeExt :: "hello_ext \<Rightarrow> bytes" where
  "encodeExt e = putU16 (extType e) @ vec16 (extBody e)"

definition encodeExts :: "hello_ext list \<Rightarrow> bytes" where
  "encodeExts es = concat (map encodeExt es)"

definition helloBody :: "wire_hello \<Rightarrow> bytes" where
  "helloBody h = putU16 (whVersion h) @ whRandom h @ vec8 (whSession h) @ vec16 (putU16s (whCiphers h))
     @ vec8 (whCompression h) @ vec16 (encodeExts (whExts h))"

definition encodeHello :: "wire_hello \<Rightarrow> bytes" where
  "encodeHello h = (let b = helloBody h
     in [CHR 0x01, beByte (length b div 65536), beByte (length b div 256), beByte (length b)] @ b)"

definition encodeRecord :: "wire_hello \<Rightarrow> bytes" where
  "encodeRecord h = [CHR 0x16, CHR 0x03, CHR 0x01] @ vec16 (encodeHello h)"

text \<open>What the hello says, extension by extension.\<close>

fun seeExt :: "client_hello \<Rightarrow> hello_ext \<Rightarrow> client_hello" where
  "seeExt ch (ExtGroups vs) = ch\<lparr>Curves := vs\<rparr>"
| "seeExt ch (ExtPoints b) = ch\<lparr>PointFormats := map (\<lambda>c. word_of_nat (of_char c)) b\<rparr>"
| "seeExt ch (ExtSigAlgs vs) = ch\<lparr>SigAlgs := vs\<rparr>"
| "seeExt ch (ExtALPN ns) = ch\<lparr>ALPN := ns\<rparr>"
| "seeExt ch (ExtVersions vs) = ch\<lparr>SupportedVers := vs\<rparr>"
| "seeExt ch (ExtServerName b) = ch\<lparr>SNIPresent := (b \<noteq> [])\<rparr>"
| "seeExt ch (ExtOther _ _) = ch"

definition seeHello :: "wire_hello \<Rightarrow> client_hello" where
  "seeHello h =
     foldl (\<lambda>ch e. (seeExt ch e)\<lparr>Extensions := Extensions ch @ [extType e]\<rparr>)
       (emptyHello\<lparr>LegacyVersion := whVersion h, CipherSuites := whCiphers h\<rparr>) (whExts h)"

fun fits :: "hello_ext \<Rightarrow> bool" where
  "fits (ExtGroups vs) \<longleftrightarrow> length vs < 32000"
| "fits (ExtPoints b) \<longleftrightarrow> length b < 256"
| "fits (ExtSigAlgs vs) \<longleftrightarrow> length vs < 32000"
| "fits (ExtALPN ns) \<longleftrightarrow> length (concat (map vec8 ns)) < 65000 \<and> (\<forall>n \<in> set ns. length n < 256)"
| "fits (ExtVersions vs) \<longleftrightarrow> length vs < 128"
| "fits (ExtServerName b) \<longleftrightarrow> length b < 65536"
| "fits (ExtOther t b) \<longleftrightarrow> length b < 65536 \<and> t \<notin> {0x0000, 0x000a, 0x000b, 0x000d, 0x0010, 0x002b}"

definition wellFormed :: "wire_hello \<Rightarrow> bool" where
  "wellFormed h \<longleftrightarrow> length (whRandom h) = 32 \<and> length (whSession h) < 256 \<and> length (whCompression h) < 256
     \<and> list_all fits (whExts h) \<and> length (encodeHello h) < 65536"

lemma unat_u16: "n < 65536 \<Longrightarrow> unat (word_of_nat n :: u16) = n"
  by (simp add: unsigned_of_nat take_bit_nat_eq_self)

lemma unat_less_u16: "unat (v :: u16) < 65536"
  using unsigned_less [of v] by simp

lemma beU16_put: "beU16 (beByte (n div 256)) (beByte n) = word_of_nat n" if "n < 65536"
proof -
  have "n div 256 < 256" using that by simp
  then have "256 * (n div 256 mod 256) + n mod 256 = n" by simp
  then show ?thesis by (simp add: beU16_def)
qed

lemma beU16_putU16: "beU16 (beByte (unat v div 256)) (beByte (unat v)) = v"
  using beU16_put [OF unat_less_u16, of v] by simp

lemma readVec8_vec8: "length b < 256 \<Longrightarrow> readVec8 (vec8 b @ r) = Some (b, r)"
  by (simp add: readVec8_def vec8_def Let_def)

lemma readVec16_vec16: "length b < 65536 \<Longrightarrow> readVec16 (vec16 b @ r) = Some (b, r)"
  by (simp add: readVec16_def vec16_def Let_def beU16_put unat_u16)

lemmas read_alone = readVec8_vec8 [where r = "[]", simplified] readVec16_vec16 [where r = "[]", simplified]

lemma bytesToU16_put: "bytesToU16 (putU16s vs) = vs"
  by (induction vs) (simp_all add: putU16s_def putU16_def beU16_putU16)

lemma length_putU16s: "length (putU16s vs) = 2 * length vs"
  by (induction vs) (simp_all add: putU16s_def putU16_def)

lemma parseNames_vec8: "\<forall>n \<in> set ns. length n < 256 \<Longrightarrow> parseNames (concat (map vec8 ns)) = ns"
proof (induction ns)
  case Nil
  then show ?case by (simp add: parseNames.simps)
next
  case (Cons n ns)
  have "parseNames (vec8 n @ concat (map vec8 ns)) = n # parseNames (concat (map vec8 ns))"
    using Cons.prems by (subst parseNames.simps) (simp add: readVec8_vec8, simp add: vec8_def)
  then show ?case using Cons by simp
qed

lemma addExtension_see:
  "fits e \<Longrightarrow> addExtension ch (extType e) (extBody e) = (seeExt ch e)\<lparr>Extensions := Extensions ch @ [extType e]\<rparr>"
  by (cases e)
    (simp_all add: addExtension_def Let_def readVec16Body_def readVec8Body_def read_alone length_putU16s bytesToU16_put
      bytesToU8asU16_def parseALPN_def parseNames_vec8)

lemma length_extBody: "fits e \<Longrightarrow> length (extBody e) < 65536"
  by (cases e) (auto simp: vec16_def vec8_def length_putU16s)

lemma parseExtensions_encode:
  "list_all fits es \<Longrightarrow> parseExtensions (encodeExts es) ch
     = foldl (\<lambda>ch e. (seeExt ch e)\<lparr>Extensions := Extensions ch @ [extType e]\<rparr>) ch es"
proof (induction es arbitrary: ch)
  case Nil
  then show ?case by (simp add: parseExtensions.simps encodeExts_def)
next
  case (Cons e es)
  have rd: "readU16 (encodeExt e @ r) = (extType e, vec16 (extBody e) @ r)" for r
    by (simp add: readU16_def encodeExt_def putU16_def beU16_putU16)
  have "4 \<le> length (encodeExt e @ encodeExts es)" by (simp add: encodeExt_def putU16_def vec16_def)
  moreover have "encodeExts (e # es) = encodeExt e @ encodeExts es" by (simp add: encodeExts_def)
  ultimately show ?case using Cons
    by (subst parseExtensions.simps)
      (simp add: rd readVec16_vec16 length_extBody addExtension_see not_less [symmetric])
qed

lemma ParseClientHello_encode:
  assumes "wellFormed h"
  shows "ParseClientHello (encodeHello h) = Some (seeHello h)"
proof -
  let ?b = "helloBody h"
  have len: "length ?b < 65536" using assms by (simp add: wellFormed_def encodeHello_def Let_def)
  have parts: "length (whRandom h) = 32" "length (whSession h) < 256" "length (whCompression h) < 256" "list_all fits (whExts h)"
    using assms by (simp_all add: wellFormed_def)
  have small: "length (putU16s (whCiphers h)) < 65536" "length (encodeExts (whExts h)) < 65536"
    using len by (simp_all add: helloBody_def vec16_def)
  have hlen: "length ?b div 65536 mod 256 * 65536 + length ?b div 256 mod 256 * 256 + length ?b mod 256 = length ?b"
  proof -
    have "length ?b div 65536 = 0" "length ?b div 256 < 256" using len by simp_all
    then show ?thesis by simp
  qed
  have ver: "beU16 (?b ! 0) (?b ! 1) = whVersion h" by (simp add: helloBody_def putU16_def beU16_putU16)
  have tail: "drop 2 ?b = whRandom h @ vec8 (whSession h) @ vec16 (putU16s (whCiphers h))
     @ vec8 (whCompression h) @ vec16 (encodeExts (whExts h))" by (simp add: helloBody_def putU16_def)
  have skip: "skipBytes ?b 2 = Some (drop 2 ?b)"
    "skipBytes (drop 2 ?b) 32 = Some (vec8 (whSession h) @ vec16 (putU16s (whCiphers h))
     @ vec8 (whCompression h) @ vec16 (encodeExts (whExts h)))"
    by (simp_all add: tail skipBytes_def parts) (simp add: helloBody_def putU16_def)
  show ?thesis
    using skip parts small
    by (simp add: ParseClientHello_def encodeHello_def Let_def hlen ver [simplified] readVec8_vec8 readVec16_vec16
        read_alone bytesToU16_put parseExtensions_encode seeHello_def, simp add: vec16_def)
qed

text \<open>
  C37: parsing the record of a well-formed ClientHello returns it: the version, the cipher suites and
  extension types in wire order, and the contents of the extensions the fingerprints use.
\<close>

theorem clienthello_roundtrip:
  assumes "wellFormed h"
  shows "ParseRecord (encodeRecord h) = Some (seeHello h)"
proof -
  have len: "length (encodeHello h) < 65536" using assms by (simp add: wellFormed_def)
  then have "unat (beU16 (encodeRecord h ! 3) (encodeRecord h ! 4)) = length (encodeHello h)"
    by (simp add: encodeRecord_def vec16_def beU16_put unat_u16)
  moreover have "drop 5 (encodeRecord h) = encodeHello h" "length (encodeRecord h) = 5 + length (encodeHello h)"
    "encodeRecord h ! 0 = CHR 0x16"
    by (simp_all add: encodeRecord_def vec16_def)
  ultimately show ?thesis using ParseClientHello_encode [OF assms] by (simp add: ParseRecord_def Let_def)
qed

theorem clienthello_roundtrip_witness:
  "ParseRecord (encodeRecord \<lparr>whVersion = 0x0303, whRandom = replicate 32 (CHR 0x07), whSession = [], whCiphers = [0x1301, 0x1302],
       whCompression = [CHR 0x00], whExts = [ExtServerName ''a.example'', ExtGroups [0x001d], ExtALPN [''h2'', ''http/1.1'']]\<rparr>)
     = Some (emptyHello\<lparr>LegacyVersion := 0x0303, CipherSuites := [0x1301, 0x1302], Extensions := [0x0000, 0x000a, 0x0010],
               Curves := [0x001d], ALPN := [''h2'', ''http/1.1''], SNIPresent := True\<rparr>)"
proof -
  let ?h = "\<lparr>whVersion = 0x0303, whRandom = replicate 32 (CHR 0x07), whSession = [], whCiphers = [0x1301, 0x1302],
       whCompression = [CHR 0x00], whExts = [ExtServerName ''a.example'', ExtGroups [0x001d], ExtALPN [''h2'', ''http/1.1'']]\<rparr>"
  have "wellFormed ?h"
    by (simp add: wellFormed_def encodeHello_def helloBody_def encodeExts_def encodeExt_def vec8_def vec16_def putU16_def
        putU16s_def Let_def)
  from clienthello_roundtrip [OF this] show ?thesis by (simp add: seeHello_def emptyHello_def)
qed

end
