(* ===== verification/NetReport.thy ===== *)
theory NetReport
  imports ClientHello Scoring
begin

text \<open>
  The network observation of package \<open>network\<close>: HTTP/2 fingerprint (http2.go), header view (header.go), TCP
  residuals (tcp.go), the assembly of a \<open>NetworkReport\<close> (report.go), the score-exempt residuals and their audit
  records (residual.go, audit\_emit.go).

  The hash functions of JA3 and JA4 are arguments.  \<open>net.ParseIP\<close> and the address classes are modelled here.
  \<open>strings.ToLower\<close> is \<^const>\<open>lowerText\<close>; header names are ASCII tokens.
\<close>

section \<open>Addresses of package net\<close>

definition parseOctet :: "string \<Rightarrow> nat option" where
  "parseOctet s =
     (if s = [] \<or> (\<exists>c \<in> set s. c \<notin> set ''0123456789'') \<or> 1 < length s \<and> hd s = CHR ''0'' \<or> 255 < decValue s
      then None else Some (decValue s))"

definition parseIPv4Fields :: "string \<Rightarrow> nat list option" where
  "parseIPv4Fields s =
     (let fs = map parseOctet (splitOn CHR ''.'' s)
      in if length fs = 4 \<and> None \<notin> set fs then Some (map the fs) else None)"

text \<open>
  The groups of an IPv6 address after an optional leading \<open>::\<close>: the bytes read so far and the position of the
  ellipsis.  A group has one to four hex digits; a trailing IPv4 address may take the place of two groups.
\<close>

definition hexValue :: "string \<Rightarrow> nat" where
  "hexValue s = foldl (\<lambda>v c. 16 * v + (case hexNibble c of Some n \<Rightarrow> n | None \<Rightarrow> 0)) 0 s"

definition isHex :: "char \<Rightarrow> bool" where
  "isHex c \<longleftrightarrow> hexNibble c \<noteq> None"

function parseGroups :: "string \<Rightarrow> nat list \<Rightarrow> nat option \<Rightarrow> (nat list \<times> nat option) option" where
  "parseGroups s ip ell =
     (if 16 \<le> length ip then None
      else let digits = takeWhile isHex s; rest = dropWhile isHex s
      in if digits = [] \<or> 4 < length digits then None
         else if rest \<noteq> [] \<and> hd rest = CHR ''.''
         then (if ell = None \<and> length ip \<noteq> 12 \<or> 16 < length ip + 4 then None
               else map_option (\<lambda>v4. (ip @ v4, ell)) (parseIPv4Fields s))
         else let v = hexValue digits; ip' = ip @ [v div 256, v mod 256]
         in if rest = [] then Some (ip', ell)
            else if hd rest \<noteq> CHR '':'' \<or> tl rest = [] then None
            else if hd (tl rest) \<noteq> CHR '':'' then parseGroups (tl rest) ip' ell
            else if ell \<noteq> None then None
            else if tl (tl rest) = [] then Some (ip', Some (length ip'))
            else parseGroups (tl (tl rest)) ip' (Some (length ip')))"
  by auto
termination by (relation "measure (\<lambda>(s, ip, ell). 16 - length ip)") auto

declare parseGroups.simps [simp del]

definition expandEllipsis :: "nat list \<times> nat option \<Rightarrow> nat list option" where
  "expandEllipsis p =
     (case p of
        (ip, None) \<Rightarrow> if length ip = 16 then Some ip else None
      | (ip, Some e) \<Rightarrow> if length ip < 16 then Some (take e ip @ replicate (16 - length ip) 0 @ drop e ip) else None)"

definition parseIPv6 :: "string \<Rightarrow> nat list option" where
  "parseIPv6 s =
     (if hasPrefix s ''::''
      then if length s = 2 then Some (replicate 16 0)
           else Option.bind (parseGroups (drop 2 s) [] (Some 0)) expandEllipsis
      else Option.bind (parseGroups s [] None) expandEllipsis)"

definition v4Prefix :: "nat list" where
  "v4Prefix = replicate 10 0 @ [255, 255]"

text \<open>\<open>net.ParseIP\<close>: sixteen bytes; the first separator decides the family, and a zone is refused.\<close>

definition ParseIP :: "string \<Rightarrow> nat list option" where
  "ParseIP s =
     (if CHR ''%'' \<in> set s then None
      else case filter (\<lambda>c. c = CHR ''.'' \<or> c = CHR '':'') s of
             [] \<Rightarrow> None
           | c # _ \<Rightarrow> if c = CHR ''.'' then map_option (\<lambda>v4. v4Prefix @ v4) (parseIPv4Fields s) else parseIPv6 s)"

definition to4 :: "nat list \<Rightarrow> nat list option" where
  "to4 ip = (if take 12 ip = v4Prefix then Some (drop 12 ip) else None)"

definition isPrivate :: "nat list \<Rightarrow> bool" where
  "isPrivate ip \<longleftrightarrow>
     (case to4 ip of
        Some q \<Rightarrow> q ! 0 = 10 \<or> q ! 0 = 172 \<and> q ! 1 div 16 = 1 \<or> q ! 0 = 192 \<and> q ! 1 = 168
      | None \<Rightarrow> ip ! 0 div 2 = 126)"

definition isLoopback :: "nat list \<Rightarrow> bool" where
  "isLoopback ip \<longleftrightarrow> (case to4 ip of Some q \<Rightarrow> q ! 0 = 127 | None \<Rightarrow> ip = replicate 15 0 @ [1])"

definition isLinkLocalUnicast :: "nat list \<Rightarrow> bool" where
  "isLinkLocalUnicast ip \<longleftrightarrow>
     (case to4 ip of Some q \<Rightarrow> q ! 0 = 169 \<and> q ! 1 = 254 | None \<Rightarrow> ip ! 0 = 254 \<and> ip ! 1 div 64 = 2)"

definition isUnspecified :: "nat list \<Rightarrow> bool" where
  "isUnspecified ip \<longleftrightarrow> ip = replicate 16 0 \<or> ip = v4Prefix @ replicate 4 0"

section \<open>HTTP/2 fingerprint (http2.go)\<close>

type_synonym u32 = "32 word"

record h2_setting =
  SettingID :: u16
  SettingValue :: u32

record h2_fingerprint =
  h2Settings :: "h2_setting list"
  WindowUpdate :: u32
  Priorities :: "string list"
  HeadersPrio :: string
  h2PseudoOrder :: "string list"
  h2HeaderOrder :: "string list"

definition Akamai :: "h2_fingerprint \<Rightarrow> string" where
  "Akamai f =
     joinWith ''|''
       [joinWith '';'' (map (\<lambda>s. decNat (unat (SettingID s)) @ '':'' @ decNat (unat (SettingValue s))) (h2Settings f)),
        decNat (unat (WindowUpdate f)),
        if Priorities f \<noteq> [] then joinWith '','' (Priorities f) else ''0'',
        joinWith '','' (h2PseudoOrder f)]"

definition PseudoString :: "h2_fingerprint \<Rightarrow> string" where
  "PseudoString f = joinWith '','' (h2PseudoOrder f)"

definition isBrowserEngine :: "string \<Rightarrow> bool" where
  "isBrowserEngine e \<longleftrightarrow> e = EngineChrome \<or> e = EngineFirefox \<or> e = EngineSafari"

definition hasSetting :: "h2_fingerprint \<Rightarrow> u16 \<Rightarrow> bool" where
  "hasSetting f i \<longleftrightarrow> (\<exists>s \<in> set (h2Settings f). SettingID s = i)"

definition settingsMap :: "h2_fingerprint \<Rightarrow> u16 \<rightharpoonup> u32" where
  "settingsMap f = foldl (\<lambda>m s. m(SettingID s \<mapsto> SettingValue s)) Map.empty (h2Settings f)"

definition EngineFromH2 :: "h2_fingerprint \<Rightarrow> string" where
  "EngineFromH2 f =
     (if PseudoString f = ''m,a,s,p'' then EngineChrome
      else if PseudoString f = ''m,p,a,s'' then EngineFirefox
      else if PseudoString f = ''m,s,p,a'' then EngineSafari
      else if settingsMap f 3 \<noteq> None \<and> settingsMap f 4 = Some 65535 then EngineGo
      else EngineUnknown)"

definition SortedSettingIDs :: "h2_fingerprint \<Rightarrow> nat list" where
  "SortedSettingIDs f = sort (map (\<lambda>s. unat (SettingID s)) (h2Settings f))"

section \<open>Headers (header.go)\<close>

record header_info =
  hiMethod :: string
  hiVersion :: string
  IsH2 :: bool
  hiNames :: "string list"
  CasingReliable :: bool
  OrderReliable :: bool
  HasCookie :: bool
  HasReferer :: bool
  AcceptLanguage :: string
  AcceptEncoding :: string
  CookieNames :: "string list"
  hiUserAgent :: string
  Via :: string
  ProxyConnection :: string
  XCache :: string
  XSquidError :: string
  XForwardedFor :: string
  Forwarded :: string
  CFConnectingIP :: string
  TrueClientIP :: string
  XClientIP :: string
  XOriginalForwardedFor :: string
  XBlueCoatVia :: string

definition secFetchPresent :: "header_info \<Rightarrow> bool" where
  "secFetchPresent h \<longleftrightarrow> (\<exists>n \<in> set (hiNames h). hasPrefix (lowerText n) ''sec-fetch-'')"

definition secCHUAPresent :: "header_info \<Rightarrow> bool" where
  "secCHUAPresent h \<longleftrightarrow> (\<exists>n \<in> set (hiNames h). equalFold n ''sec-ch-ua'')"

definition HasUppercaseInH2 :: "header_info \<Rightarrow> bool" where
  "HasUppercaseInH2 h \<longleftrightarrow> IsH2 h \<and> CasingReliable h \<and> (\<exists>n \<in> set (hiNames h). n \<noteq> lowerText n)"

definition ChromeAcceptEncodingOK :: "header_info \<Rightarrow> bool" where
  "ChromeAcceptEncodingOK h \<longleftrightarrow> containsStr (lowerText (AcceptEncoding h)) ''zstd''"

definition Order :: "header_info \<Rightarrow> string list" where
  "Order h = map lowerText (hiNames h)"

text \<open>\<open>strings.Count\<close> of a substring that cannot overlap itself.\<close>

fun countStr :: "string \<Rightarrow> string \<Rightarrow> nat" where
  "countStr t [] = 0"
| "countStr t (c # cs) = (if hasPrefix (c # cs) t then 1 else 0) + countStr t cs"

definition ProxyHopKind :: "header_info \<Rightarrow> string" where
  "ProxyHopKind h =
     (let via = lowerText (Via h); fwd = lowerText (Forwarded h)
      in if via \<noteq> [] then (if containsStr via ''squid'' then ''via-squid'' else ''via'')
         else if XSquidError h \<noteq> [] then ''x-squid-error''
         else if XBlueCoatVia h \<noteq> [] then ''bluecoat-via''
         else if XCache h \<noteq> [] then ''x-cache-request''
         else if ProxyConnection h \<noteq> [] then ''proxy-connection''
         else if fwd \<noteq> [] \<and> (2 \<le> countStr ''for='' fwd \<or> containsStr fwd ''by='') then ''forwarded-multi''
         else [])"

definition ClientIPSpoofKind :: "header_info \<Rightarrow> string" where
  "ClientIPSpoofKind h =
     (if trimSpace (CFConnectingIP h) \<noteq> [] then ''cf-connecting-ip''
      else if trimSpace (TrueClientIP h) \<noteq> [] then ''true-client-ip''
      else if trimSpace (XClientIP h) \<noteq> [] then ''x-client-ip''
      else if trimSpace (XOriginalForwardedFor h) \<noteq> [] then ''x-original-forwarded-for''
      else [])"

definition XFFHopCount :: "header_info \<Rightarrow> nat" where
  "XFFHopCount h =
     (let s = trimSpace (XForwardedFor h)
      in if s = [] then 0 else 1 + length (filter (\<lambda>c. c = CHR '','') s))"

section \<open>TCP residuals (tcp.go)\<close>

record tcp_observation =
  Observed :: bool
  TTL :: "8 word"
  MSS :: u16
  Window :: u16
  WScale :: "8 word"
  SACK :: bool
  OSFamily :: string

definition GuessOSFromTTL :: "8 word \<Rightarrow> string" where
  "GuessOSFromTTL ttl =
     (if ttl = 0 then ''unknown'' else if ttl \<le> 64 then ''linux'' else if ttl \<le> 128 then ''windows'' else ''unknown'')"

definition uaOSFamily :: "string \<Rightarrow> string" where
  "uaOSFamily ua =
     (let u = lowerText ua
      in if containsStr u ''windows'' then ''windows''
         else if containsStr u ''android'' then ''linux''
         else if containsStr u ''iphone'' \<or> containsStr u ''ipad'' \<or> containsStr u ''mac os'' then ''macos''
         else if containsStr u ''linux'' \<or> containsStr u ''cros'' then ''linux''
         else ''unknown'')"

text \<open>The closure \<open>add\<close> of \<open>Build\<close> and \<open>TCPSignals\<close>: a signal the server collected.\<close>

definition netSignal :: "string \<Rightarrow> sig_value \<Rightarrow> string \<Rightarrow> string \<Rightarrow> signal" where
  "netSignal i val v notes = NewSignal i val v 1 SourceServer notes"

definition tcpFamily :: "tcp_observation \<Rightarrow> string" where
  "tcpFamily t = (if OSFamily t = [] \<and> 0 < TTL t then GuessOSFromTTL (TTL t) else OSFamily t)"

definition TCPSignals :: "tcp_observation \<Rightarrow> string \<Rightarrow> signal list" where
  "TCPSignals t ua =
     (if \<not> Observed t
      then [netSignal ''l5.tcp.not_observed'' (VBool True) SigUnknown
              (''no TCP SYN/PROXY-TLV capture '' @ dashText @ '' L4 plane inactive (wire eBPF/PROXY TLV for full residual)'')]
      else let fam = tcpFamily t; claimed = uaOSFamily ua
      in [netSignal ''l5.tcp.ttl'' (VInt (uint (TTL t))) SigUnknown ''observed IP TTL'']
         @ addIf (0 < MSS t) (netSignal ''l5.tcp.mss'' (VInt (uint (MSS t))) SigUnknown ''TCP MSS option'')
         @ addIf (0 < Window t) (netSignal ''l5.tcp.window'' (VInt (uint (Window t))) SigUnknown ''TCP initial window'')
         @ addIf (fam \<noteq> [] \<and> fam \<noteq> ''unknown'' \<and> claimed \<noteq> [] \<and> claimed \<noteq> ''unknown'' \<and> fam \<noteq> claimed)
             (netSignal ''l5.tcp.ttl_os'' (VObj [(''tcp'', VStr fam), (''ua'', VStr claimed)]) SigSuspicious
                ''TCP TTL/OS family vs User-Agent OS mismatch''))"

section \<open>Claims of the User-Agent (report.go)\<close>

definition chromeUAOrderAnomaly :: "header_info \<Rightarrow> bool" where
  "chromeUAOrderAnomaly h \<longleftrightarrow>
     (let l = lowerText (hiUserAgent h); names = map lowerText (hiNames h);
          before = takeWhile (\<lambda>n. n \<noteq> ''sec-ch-ua'') names
      in containsStr l ''chrome'' \<and> \<not> containsStr l ''edg/'' \<and> ''sec-ch-ua'' \<in> set names \<and> ''user-agent'' \<in> set before)"

definition pqGroupX25519MLKEM768 :: u16 where "pqGroupX25519MLKEM768 = 0x11EC"
definition alpsExtOld :: u16 where "alpsExtOld = 17513"
definition alpsExtNew :: u16 where "alpsExtNew = 17613"
definition certCompressionExt :: u16 where "certCompressionExt = 27"
definition echExt :: u16 where "echExt = 0xfe0d"
definition h2FlowControlAbuseFloor :: u32 where "h2FlowControlAbuseFloor = 67108864"

definition hasPQKeyShare :: "u16 list \<Rightarrow> bool" where
  "hasPQKeyShare curves \<longleftrightarrow> pqGroupX25519MLKEM768 \<in> set curves"

definition hasALPS :: "u16 list \<Rightarrow> bool" where
  "hasALPS exts \<longleftrightarrow> alpsExtOld \<in> set exts \<or> alpsExtNew \<in> set exts"

definition hasCertCompression :: "u16 list \<Rightarrow> bool" where
  "hasCertCompression exts \<longleftrightarrow> certCompressionExt \<in> set exts"

definition hasECH :: "u16 list \<Rightarrow> bool" where
  "hasECH exts \<longleftrightarrow> echExt \<in> set exts"

definition alpnOffersH2 :: "string list \<Rightarrow> bool" where
  "alpnOffersH2 alpn \<longleftrightarrow> ''h2'' \<in> set alpn"

text \<open>\<open>strconv.Atoi\<close> on digits saturates at the largest \<open>int\<close>; its error is discarded.\<close>

definition uaVersionAfter :: "string \<Rightarrow> string \<Rightarrow> nat" where
  "uaVersionAfter ua token =
     (case afterSub token ua of
        None \<Rightarrow> 0
      | Some rest \<Rightarrow>
          let ds = takeWhile (\<lambda>c. c \<in> set ''0123456789'') rest
          in if ds = [] then 0 else min (decValue ds) 9223372036854775807)"

definition claimsECHBrowser :: "string \<Rightarrow> bool" where
  "claimsECHBrowser ua \<longleftrightarrow>
     (let l = lowerText ua
      in \<not> containsStr l ''edg/'' \<and> (117 \<le> uaVersionAfter l ''chrome/'' \<or> 118 \<le> uaVersionAfter l ''firefox/''))"

definition claimsChromiumUA :: "string \<Rightarrow> bool" where
  "claimsChromiumUA ua \<longleftrightarrow> containsStr (lowerText ua) ''chrome/''"

definition claimsPQBrowser :: "string \<Rightarrow> bool" where
  "claimsPQBrowser ua \<longleftrightarrow>
     (let l = lowerText ua
      in \<not> containsStr l ''edg/'' \<and> (131 \<le> uaVersionAfter l ''chrome/'' \<or> 132 \<le> uaVersionAfter l ''firefox/''))"

definition claimsBrowserUA :: "string \<Rightarrow> bool" where
  "claimsBrowserUA ua \<longleftrightarrow>
     (let l = lowerText ua
      in containsStr l ''mozilla/'' \<and> (containsStr l ''chrome'' \<or> containsStr l ''firefox'' \<or> containsStr l ''safari''))"

text \<open>\<open>itoa\<close> fills a buffer of eight bytes from the right, enough for the five digits of a \<open>uint16\<close>.\<close>

fun itoaDigits :: "nat \<Rightarrow> string \<Rightarrow> string" where
  "itoaDigits v acc = (if v = 0 then acc else itoaDigits (v div 10) (digitChar (v mod 10) # acc))"

declare itoaDigits.simps [simp del]

definition itoa :: "u16 \<Rightarrow> string" where
  "itoa v = (if v = 0 then ''0'' else itoaDigits (unat v) [])"

section \<open>Assembly (report.go)\<close>

record observation =
  Hello :: "client_hello option"
  H2 :: "h2_fingerprint option"
  Header :: header_info
  IsDatacenterIP :: bool
  IsProxy :: bool
  IsTorExit :: bool
  ClientForwardedIP :: string
  TCP :: tcp_observation

record net_hashes =
  nhMD5 :: "bytes \<Rightarrow> bytes"
  nhSHA256 :: "bytes \<Rightarrow> bytes"

definition tlsSignals :: "net_hashes \<Rightarrow> observation \<Rightarrow> signal list" where
  "tlsSignals K obs =
     (let ua = hiUserAgent (Header obs)
      in case Hello obs of
           Some ch \<Rightarrow>
             [netSignal ''l5.tls.ja3'' (VStr (fst (JA3of (nhMD5 K) ch))) SigUnknown ''compat'']
             @ addIf (\<not> hasGREASE ch)
                 (netSignal ''l5.tls.grease_absent'' (VBool True) SigBot ''no GREASE (non-browser TLS stack)'')
             @ addIf (claimsPQBrowser ua \<and> \<not> hasPQKeyShare (Curves ch))
                 (netSignal ''l5.tls.pq_keyshare'' (VBool True) SigSuspicious
                    ''UA claims a PQ-era browser but the TLS ClientHello omits X25519MLKEM768'')
             @ addIf (claimsChromiumUA ua \<and> alpnOffersH2 (ALPN ch) \<and> \<not> hasALPS (Extensions ch))
                 (netSignal ''l5.tls.alps_absent'' (VBool True) SigSuspicious
                    ''Chromium UA offering h2 but the TLS ClientHello omits the ALPS extension'')
             @ addIf (claimsBrowserUA ua \<and> alpnOffersH2 (ALPN ch) \<and> \<not> hasCertCompression (Extensions ch))
                 (netSignal ''l5.tls.cert_compression_absent'' (VBool True) SigSuspicious
                    ''browser UA offering h2 but the TLS ClientHello omits certificate compression'')
             @ addIf (claimsECHBrowser ua \<and> alpnOffersH2 (ALPN ch) \<and> \<not> hasECH (Extensions ch))
                 (netSignal ''l5.tls.ech_absent'' (VBool True) SigSuspicious
                    ''UA claims an ECH-era browser but the TLS ClientHello omits Encrypted Client Hello'')
         | None \<Rightarrow>
             [netSignal ''l5.tls.not_observed'' (VBool True) SigUnknown
                (''no ClientHello captured '' @ dashText
                 @ '' TLS fingerprint plane inactive (gate or TLS-terminating CDN/L7-LB in front)'')])"

definition tlsFields :: "net_hashes \<Rightarrow> client_hello option \<Rightarrow> network_report \<Rightarrow> network_report" where
  "tlsFields K hello nr =
     (case hello of
        None \<Rightarrow> nr
      | Some ch \<Rightarrow>
          nr\<lparr>JA3 := fst (JA3of (nhMD5 K) ch), JA3Text := snd (JA3of (nhMD5 K) ch),
             JA4 := fst (JA4of (nhSHA256 K) ch), JA4Raw := snd (JA4of (nhSHA256 K) ch),
             JA4Engine := EngineFromClientHello (Some ch),
             NegotiatedALPN := (case ALPN ch of [] \<Rightarrow> NegotiatedALPN nr | a # _ \<Rightarrow> a)\<rparr>)"

definition h2Signals :: "h2_fingerprint option \<Rightarrow> signal list" where
  "h2Signals h2 =
     (case h2 of
        None \<Rightarrow> []
      | Some f \<Rightarrow>
          let e = EngineFromH2 f
          in addIf (isBrowserEngine e \<and> \<not> hasSetting f 1)
               (netSignal ''l5.http2.browser_settings_atypical'' (VBool True) SigSuspicious
                  ''browser HTTP/2 pseudo-order with a non-browser SETTINGS profile (no HEADER_TABLE_SIZE)'')
             @ addIf (isBrowserEngine e \<and> h2FlowControlAbuseFloor \<le> WindowUpdate f)
                 (netSignal ''l5.http2.flow_control_atypical'' (VBool True) SigSuspicious
                    ''browser HTTP/2 pseudo-order with a gigabyte connection flow-control window'')
             @ addIf ((e = EngineChrome \<or> e = EngineFirefox) \<and> HeadersPrio f = [] \<and> Priorities f = [])
                 (netSignal ''l5.http2.priority_atypical'' (VBool True) SigSuspicious
                    ''browser HTTP/2 pseudo-order with no priority signal (no HEADERS priority, no PRIORITY frame)''))"

definition h2Fields :: "h2_fingerprint option \<Rightarrow> network_report \<Rightarrow> network_report" where
  "h2Fields h2 nr =
     (case h2 of
        None \<Rightarrow> nr
      | Some f \<Rightarrow>
          nr\<lparr>AkamaiH2 := Akamai f, PseudoOrder := h2PseudoOrder f, H2Engine := EngineFromH2 f,
             H2Settings := foldl (\<lambda>m s. AList.update (itoa (SettingID s)) (SettingValue s) m) [] (h2Settings f)\<rparr>)"

text \<open>The header section before the proxy residuals; \<open>nr\<close> has the engine families resolved.\<close>

definition headerSignals :: "network_report \<Rightarrow> observation \<Rightarrow> signal list" where
  "headerSignals nr obs =
     (let h = Header obs; l = lowerText (hiUserAgent h);
          claimChrome = (containsStr l ''chrome'' \<and> \<not> containsStr l ''edg/'')
      in addIf (Hello obs \<noteq> None \<and> isBrowserEngine (JA4Engine nr) \<and> \<not> IsH2 h)
           (netSignal ''l5.http.browser_tls_over_h1'' (VBool True) SigSuspicious
              ''browser TLS fingerprint delivered over HTTP/1.1 (real browsers speak h2)'')
         @ addIf (H2 obs \<noteq> None \<and> H2Engine nr = EngineUnknown \<and> claimsBrowserUA (hiUserAgent h))
             (netSignal ''l5.http2.unknown_under_browser'' (VBool True) SigSuspicious
                ''browser UA over an unclassifiable HTTP/2 profile (protocol-split residual)'')
         @ addIf (OrderReliable h \<and> chromeUAOrderAnomaly h)
             (netSignal ''l5.header.order'' (VBool True) SigSuspicious
                ''Chrome UA but user-agent precedes sec-ch-ua on the wire (non-browser header order)'')
         @ addIf (HasUppercaseInH2 h)
             (netSignal ''l5.header.h2_uppercase'' (VBool True) SigBot ''uppercase header in HTTP/2 (malformed)'')
         @ addIf (claimChrome \<and> \<not> secFetchPresent h)
             (netSignal ''l5.header.sec_fetch_missing'' (VBool True) SigBot ''Chrome UA but no sec-fetch-*'')
         @ addIf (claimChrome \<and> AcceptEncoding h \<noteq> [] \<and> \<not> ChromeAcceptEncodingOK h)
             (netSignal ''l5.header.accept_encoding'' (VStr (AcceptEncoding h)) SigSuspicious
                ''Chrome UA but accept-encoding lacks zstd''))"

text \<open>The sign \<open>>=\<close> of the notes is one rune in the source.\<close>

definition geText :: string where
  "geText = [CHR 0xE2, CHR 0x89, CHR 0xA5]"

definition hopSignals :: "header_info \<Rightarrow> signal list" where
  "hopSignals h =
     (let hop = ProxyHopKind h; spoof = ClientIPSpoofKind h; n = XFFHopCount h
      in addIf (hop \<noteq> [])
           (netSignal ''l5.header.proxy_hop'' (VStr hop) SigBot (''forward-proxy hop header residual ('' @ hop @ '')''))
         @ addIf (spoof \<noteq> [])
             (netSignal ''l5.header.client_ip_spoof'' (VStr spoof) SigBot
                (''forged CDN/edge client-IP header ('' @ spoof @ '')''))
         @ addIf (2 \<le> n)
             (netSignal ''l5.header.xff_multi_hop'' (VInt (int n)) SigSuspicious ''multi-hop X-Forwarded-For chain'')
         @ addIf (3 \<le> n)
             (netSignal ''l5.proxy.tor_circuit'' (VInt (int n)) SigSuspicious
                (geText @ ''3-hop XFF circuit residual (Tor-class path)''))
         @ addIf (4 \<le> n)
             (netSignal ''l5.proxy.anon_chain'' (VInt (int n)) SigBot
                (geText @ ''4-hop XFF anonymous open-proxy chain'')))"

definition forwardedPrivate :: "string \<Rightarrow> bool" where
  "forwardedPrivate s \<longleftrightarrow>
     (case ParseIP s of
        None \<Rightarrow> False
      | Some ip \<Rightarrow> isPrivate ip \<or> isLoopback ip \<or> isLinkLocalUnicast ip \<or> isUnspecified ip)"

definition ipSignals :: "observation \<Rightarrow> signal list" where
  "ipSignals obs =
     addIf (IsDatacenterIP obs)
       (netSignal ''l5.ip.datacenter_asn'' (VBool True) SigSuspicious ''datacenter/hosting ASN'')
     @ addIf (IsProxy obs) (netSignal ''l5.ip.proxy_vpn_tor'' (VBool True) SigSuspicious ''proxy/vpn exit'')
     @ addIf (IsTorExit obs) (netSignal ''l5.ip.tor_exit'' (VBool True) SigSuspicious ''Tor exit relay'')
     @ addIf (forwardedPrivate (ClientForwardedIP obs))
         (netSignal ''l5.header.forwarded_private'' (VStr (ClientForwardedIP obs)) SigBot
            ''forwarded client IP is private/reserved (spoofed source)'')"

definition Build :: "net_hashes \<Rightarrow> observation \<Rightarrow> network_report" where
  "Build K obs =
     (let h = Header obs;
          nr = (h2Fields (H2 obs) (tlsFields K (Hello obs) zeroNetwork))
                 \<lparr>HeaderOrder := Order h, SecFetchPresent := secFetchPresent h, SecCHUAPresent := secCHUAPresent h\<rparr>
      in nr\<lparr>nSignals := tlsSignals K obs @ h2Signals (H2 obs) @ headerSignals nr obs @ hopSignals h @ ipSignals obs
              @ TCPSignals (TCP obs) (hiUserAgent h)\<rparr>)"

section \<open>Residuals (residual.go, audit\_emit.go)\<close>

definition scoreExemptIDs :: "string list" where
  "scoreExemptIDs =
     [''l5.header.proxy_hop'', ''l5.header.client_ip_spoof'', ''l5.header.xff_multi_hop'',
      ''l5.header.forwarded_private'', ''l5.proxy.vpn_webrtc_leak'', ''l5.proxy.tor_circuit'', ''l5.proxy.anon_chain'',
      ''l5.ip.datacenter_asn'', ''l5.ip.proxy_vpn_tor'', ''l5.ip.tor_exit'', ''l5.tcp.not_observed'', ''l5.tcp.ttl'',
      ''l5.tcp.mss'', ''l5.tcp.window'', ''l5.tcp.ttl_os'', ''l5.correlation.proxy_rotation'',
      ''l5.correlation.fp_churn_proxy'', ''l5.correlation.shared_fingerprint'', ''l5.traffic.ip_hop'']"

definition IsScoreExempt :: "string \<Rightarrow> bool" where
  "IsScoreExempt i \<longleftrightarrow> i \<in> set scoreExemptIDs"

definition auditEvents :: "(string \<times> string) list" where
  "auditEvents =
     [(''l5.header.proxy_hop'', ''net.proxy.hop''),
      (''l5.header.client_ip_spoof'', ''net.proxy.client_ip_spoof''),
      (''l5.header.xff_multi_hop'', ''net.proxy.xff_multi_hop''),
      (''l5.header.forwarded_private'', ''net.proxy.forwarded_private''),
      (''l5.proxy.vpn_webrtc_leak'', ''net.vpn.webrtc_leak''),
      (''l5.proxy.tor_circuit'', ''net.tor.circuit''),
      (''l5.proxy.anon_chain'', ''net.proxy.anon_chain''),
      (''l5.ip.datacenter_asn'', ''net.ip.datacenter''),
      (''l5.ip.proxy_vpn_tor'', ''net.ip.proxy_vpn''),
      (''l5.ip.tor_exit'', ''net.tor.exit''),
      (''l5.tcp.not_observed'', ''net.tcp.not_observed''),
      (''l5.tcp.ttl'', ''net.tcp.fingerprint''), (''l5.tcp.mss'', ''net.tcp.fingerprint''),
      (''l5.tcp.window'', ''net.tcp.fingerprint''),
      (''l5.tcp.ttl_os'', ''net.tcp.ttl_os_mismatch''),
      (''l5.correlation.proxy_rotation'', ''net.correlation.proxy_rotation''),
      (''l5.correlation.fp_churn_proxy'', ''net.correlation.fp_churn''),
      (''l5.correlation.shared_fingerprint'', ''net.correlation.shared_fingerprint''),
      (''l5.traffic.ip_hop'', ''net.traffic.ip_hop'')]"

definition AuditEventFor :: "string \<Rightarrow> string" where
  "AuditEventFor i = (case map_of auditEvents i of Some e \<Rightarrow> e | None \<Rightarrow> [])"

definition ResidualSignals :: "signal list \<Rightarrow> signal list" where
  "ResidualSignals sigs = filter (\<lambda>s. IsScoreExempt (sigID s)) sigs"

definition HasActionableResidual :: "signal list \<Rightarrow> bool" where
  "HasActionableResidual sigs \<longleftrightarrow>
     (\<exists>s \<in> set (ResidualSignals sigs). sigVerdict s = SigBot \<or> sigVerdict s = SigSuspicious)"

record net_audit_record =
  narEventType :: string
  SignalID :: string
  narVerdict :: string
  narNotes :: string

definition AuditRecordsFromSignals :: "signal list \<Rightarrow> net_audit_record list" where
  "AuditRecordsFromSignals sigs =
     map (\<lambda>s. \<lparr>narEventType = AuditEventFor (sigID s), SignalID = sigID s, narVerdict = sigVerdict s,
               narNotes = (if sigNotes s = [] then sigID s else sigNotes s)\<rparr>)
       (filter (\<lambda>s. AuditEventFor (sigID s) \<noteq> []) sigs)"

end
