(* ===== verification/NetProps.thy ===== *)
theory NetProps
  imports NetReport ScoringProps
begin

text \<open>
  What the network observation means to the risk engine: of everything \<open>Build\<close> records only four signals
  score, the proxy, VPN, Tor, address and TCP residuals never do, and each score-exempt residual is one audit
  record.
\<close>

section \<open>Signals that score\<close>

text \<open>The remaining network signals of weight zero.\<close>

definition zeroWeightIDs :: "string list" where
  "zeroWeightIDs = scoreExemptIDs @
     [''l5.tls.not_observed'', ''l5.tls.pq_keyshare'', ''l5.tls.alps_absent'', ''l5.tls.cert_compression_absent'',
      ''l5.tls.ech_absent'', ''l5.http2.unknown_under_browser'', ''l5.http2.browser_settings_atypical'',
      ''l5.http2.flow_control_atypical'', ''l5.http2.priority_atypical'', ''l5.http.browser_tls_over_h1'',
      ''l5.header.order'']"

lemma zero_weights: "list_all (\<lambda>d. defID d \<in> set zeroWeightIDs \<longrightarrow> defWeight d = 0) registryDecls"
  unfolding registryDecls_def reg_defs
  by (simp only: list.pred_inject list_all_append sdef_sel simp_thms HOL.TrueI)
     (simp add: zeroWeightIDs_def scoreExemptIDs_def)

lemma zero_weight_score: "i \<in> set zeroWeightIDs \<Longrightarrow> sigScore (NewSignal i val v c src n) = 0"
proof -
  assume i: "i \<in> set zeroWeightIDs"
  have "defWeight d = 0" if "map_of registry i = Some d" for d
  proof -
    have "d \<in> set registryDecls" "defID d = i" using that by (auto simp: registry_def dest!: map_of_SomeD)
    then show ?thesis using zero_weights i by (simp add: list_all_iff)
  qed
  then show ?thesis by (auto simp: NewSignal_def Let_def split: option.split)
qed

lemma unknown_score: "sigScore (NewSignal i val SigUnknown c src n) = 0"
proof -
  have "0 \<le> (case Lookup i of Some d \<Rightarrow> defWeight d | None \<Rightarrow> 0)" using Lookup_weight by (auto split: option.split)
  then have "ComputeScore (case Lookup i of Some d \<Rightarrow> defWeight d | None \<Rightarrow> 0) c SigUnknown = 0"
    by (simp add: ComputeScore_def Severity_def sig_verdict_defs)
  then show ?thesis by (simp add: NewSignal_def Lookup_def Let_def split: option.split_asm option.split)
qed

definition networkID :: "string \<Rightarrow> bool" where
  "networkID i \<longleftrightarrow> hasPrefix i ''l5.''"

definition withSignals :: "session_report \<Rightarrow> signal list \<Rightarrow> session_report" where
  "withSignals r ss = r\<lparr>Network := (Network r)\<lparr>nSignals := ss\<rparr>\<rparr>"

lemma withSignals_sel [simp]:
  "Client (withSignals r ss) = Client r" "nSignals (Network (withSignals r ss)) = ss"
  "JA4Engine (Network (withSignals r ss)) = JA4Engine (Network r)"
  "H2Engine (Network (withSignals r ss)) = H2Engine (Network r)"
  "SecCHUAPresent (Network (withSignals r ss)) = SecCHUAPresent (Network r)"
  "SecFetchPresent (Network (withSignals r ss)) = SecFetchPresent (Network r)"
  by (simp_all add: withSignals_def)

text \<open>The derived contributions read four fields of the network report.\<close>

lemma derivedOf_cong:
  assumes "Client r = Client r'" "JA4Engine (Network r) = JA4Engine (Network r')"
    "H2Engine (Network r) = H2Engine (Network r')" "SecCHUAPresent (Network r) = SecCHUAPresent (Network r')"
    "SecFetchPresent (Network r) = SecFetchPresent (Network r')"
  shows "derivedOf E r = derivedOf E r'"
proof -
  have "CrossChecks E r = CrossChecks E r'"
    unfolding CrossChecks_def uachMatchesJS_def Let_def by (simp only: assms)
  then show ?thesis by (simp add: derivedOf_def hasClientReport_def assms(1))
qed

lemma riskOf_cong:
  assumes "Client r = Client r'" "nSignals (Network r) = nSignals (Network r')" "JA4Engine (Network r) = JA4Engine (Network r')"
    "H2Engine (Network r) = H2Engine (Network r')" "SecCHUAPresent (Network r) = SecCHUAPresent (Network r')"
    "SecFetchPresent (Network r) = SecFetchPresent (Network r')"
  shows "riskOf E e r = riskOf E e r'"
  using derivedOf_cong [OF assms(1,3-6)] assms(1,2) by (simp add: riskOf_def contributions_pipeline hasClientReport_def)

lemma drop_zero:
  assumes "sigScore s = 0" "networkID (sigID s)"
  shows "riskOf E e (withSignals r (us @ s # vs)) = riskOf E e (withSignals r (us @ vs))"
proof -
  have zero: "scScore (scoredOf s) = 0" and ids: "scID (scoredOf s) \<noteq> ''l2.canvas.tampered''"
    "scID (scoredOf s) \<noteq> ''l2.webgl.param_consistency''"
    using assms by (auto simp: scoredOf_def networkID_def hasPrefix_def)
  have same: "derivedOf E (withSignals r ss) = derivedOf E r" for ss
    by (rule derivedOf_cong) simp_all
  show ?thesis
    using pipeline_exempt [OF zero ids, of "polLayerCap (Policy e)" "WeightMultipliers e" _
        "map scoredOf (cSignals (Client r)) @ map scoredOf us" "map scoredOf vs @ derivedOf E r"]
    by (simp add: riskOf_def contributions_pipeline same hasClientReport_def)
qed

lemma only_scoring_count:
  "list_all (\<lambda>s. networkID (sigID s)) vs \<Longrightarrow>
     riskOf E e (withSignals r (us @ vs)) = riskOf E e (withSignals r (us @ filter (\<lambda>s. sigScore s \<noteq> 0) vs))"
proof (induction vs arbitrary: us)
  case (Cons s vs)
  show ?case
  proof (cases "sigScore s = 0")
    case True
    then have "riskOf E e (withSignals r (us @ s # vs)) = riskOf E e (withSignals r (us @ vs))"
      using Cons.prems by (intro drop_zero) simp_all
    also have "\<dots> = riskOf E e (withSignals r (us @ filter (\<lambda>s. sigScore s \<noteq> 0) vs))"
      using Cons.prems by (intro Cons.IH) simp
    finally show ?thesis using True by simp
  next
    case False
    then show ?thesis using Cons.IH [of "us @ [s]"] Cons.prems by simp
  qed
qed simp

lemma list_all_addIf [simp]: "list_all p (addIf b s) \<longleftrightarrow> (b \<longrightarrow> p s)"
  by (simp add: addIf_def)

lemma netSignal_id [simp]: "sigID (netSignal i val v n) = i" "sigCollected (netSignal i val v n) = SourceServer"
  by (simp_all add: netSignal_def)

lemmas build_sections = tlsSignals_def h2Signals_def headerSignals_def hopSignals_def ipSignals_def TCPSignals_def

lemma section_ids:
  "list_all (\<lambda>s. networkID (sigID s)) (tlsSignals K obs)" "list_all (\<lambda>s. networkID (sigID s)) (h2Signals f)"
  "list_all (\<lambda>s. networkID (sigID s)) (headerSignals nr obs)" "list_all (\<lambda>s. networkID (sigID s)) (hopSignals h)"
  "list_all (\<lambda>s. networkID (sigID s)) (ipSignals obs)" "list_all (\<lambda>s. networkID (sigID s)) (TCPSignals t ua)"
  by (simp_all add: build_sections Let_def networkID_def hasPrefix_def split: option.split)

lemma netSignal_zero: "i \<in> set zeroWeightIDs \<Longrightarrow> sigScore (netSignal i val v n) = 0"
  "sigScore (netSignal i val SigUnknown n) = 0"
  by (simp_all add: netSignal_def zero_weight_score unknown_score)

definition scoring :: "signal list \<Rightarrow> signal list" where
  "scoring ss = filter (\<lambda>s. sigScore s \<noteq> 0) ss"

lemma scoring_append [simp]: "scoring (xs @ ys) = scoring xs @ scoring ys"
  by (simp add: scoring_def)

lemma scoring_zero:
  "i \<in> set zeroWeightIDs \<Longrightarrow> scoring (addIf b (netSignal i val v n)) = []"
  "scoring (addIf b (netSignal i val SigUnknown n)) = []" "scoring (netSignal i val SigUnknown n # ss) = scoring ss"
  "scoring [] = []"
  by (simp_all add: scoring_def addIf_def netSignal_zero)

lemma residual_sections:
  "scoring (hopSignals h) = []" "scoring (ipSignals obs) = []" "scoring (TCPSignals t ua) = []"
  "scoring (h2Signals f) = []"
  by (simp_all add: hopSignals_def ipSignals_def TCPSignals_def h2Signals_def Let_def scoring_zero zeroWeightIDs_def scoreExemptIDs_def split: option.split)

lemma audit_events_named: "list_all (\<lambda>p. snd p \<noteq> []) auditEvents"
  by (simp add: auditEvents_def)

lemma audit_events_ids: "map fst auditEvents = scoreExemptIDs"
  by (simp add: auditEvents_def scoreExemptIDs_def)

lemma audit_event_exempt: "AuditEventFor i \<noteq> [] \<longleftrightarrow> IsScoreExempt i"
proof (cases "map_of auditEvents i")
  case None
  then have "i \<notin> set (map fst auditEvents)" by (simp add: map_of_eq_None_iff)
  then show ?thesis using None by (simp add: AuditEventFor_def IsScoreExempt_def audit_events_ids)
next
  case (Some e)
  then have m: "(i, e) \<in> set auditEvents" by (rule map_of_SomeD)
  then have "i \<in> set (map fst auditEvents)" by force
  moreover have "e \<noteq> []" using m audit_events_named by (auto simp: list_all_iff)
  ultimately show ?thesis using Some by (simp add: AuditEventFor_def IsScoreExempt_def audit_events_ids)
qed

section \<open>Properties\<close>

text \<open>What the score sees of the headers.\<close>

definition browserView :: "header_info \<Rightarrow> string \<times> string \<times> bool \<times> bool \<times> bool" where
  "browserView h = (hiUserAgent h, AcceptEncoding h, secFetchPresent h, secCHUAPresent h, HasUppercaseInH2 h)"

lemma scoring_tls:
  "scoring (tlsSignals K obs) =
     scoring (addIf (case Hello obs of Some ch \<Rightarrow> \<not> hasGREASE ch | None \<Rightarrow> False)
       (netSignal ''l5.tls.grease_absent'' (VBool True) SigBot ''no GREASE (non-browser TLS stack)''))"
  by (cases "Hello obs") (simp_all add: tlsSignals_def Let_def scoring_zero zeroWeightIDs_def addIf_def [of False])

lemma scoring_header:
  "browserView (Header obs') = browserView (Header obs) \<Longrightarrow>
     scoring (headerSignals nr obs) = scoring (headerSignals nr' obs')"
  by (simp add: headerSignals_def browserView_def Let_def scoring_zero zeroWeightIDs_def ChromeAcceptEncodingOK_def)

lemma build_network_ids: "list_all (\<lambda>s. networkID (sigID s)) (nSignals (Build K obs))"
  by (simp add: Build_def Let_def section_ids)

lemma build_server_collected: "list_all (\<lambda>s. sigCollected s = SourceServer) (nSignals (Build K obs))"
  by (simp add: Build_def build_sections Let_def split: option.split)

lemma scoring_build:
  assumes "Hello obs' = Hello obs" "browserView (Header obs') = browserView (Header obs)"
  shows "scoring (nSignals (Build K obs)) = scoring (nSignals (Build K obs'))"
  using scoring_header [OF assms(2)] assms(1)
  by (simp add: Build_def Let_def residual_sections scoring_tls)

lemma build_engines:
  "JA4Engine (Build K obs) = (case Hello obs of Some ch \<Rightarrow> EngineFromClientHello (Some ch) | None \<Rightarrow> [])"
  "H2Engine (Build K obs) = (case H2 obs of Some f \<Rightarrow> EngineFromH2 f | None \<Rightarrow> [])"
  "SecCHUAPresent (Build K obs) = secCHUAPresent (Header obs)"
  "SecFetchPresent (Build K obs) = secFetchPresent (Header obs)"
  by (simp_all add: Build_def Let_def tlsFields_def h2Fields_def zeroNetwork_def split: option.split)

lemma risk_of_build:
  "riskOf E e (r\<lparr>Network := Build K obs\<rparr>) = riskOf E e (withSignals (r\<lparr>Network := Build K obs\<rparr>) (scoring (nSignals (Build K obs))))"
  using only_scoring_count [OF build_network_ids, of E e "r\<lparr>Network := Build K obs\<rparr>" "[]" K obs]
  by (simp add: withSignals_def scoring_def)

text \<open>
  C17: the residual plane never moves the risk score.  Two observations with the same
  ClientHello, the same HTTP/2 fingerprint and the same browser view of the headers (User-Agent,
  accept-encoding, presence of sec-fetch and sec-ch-ua, casing) give a session the same score, whatever the
  proxy, CDN and forwarding headers, the address intelligence, the claimed address and the TCP capture say.
\<close>

theorem network_noninterference:
  assumes "goMapOrder E" "Hello obs' = Hello obs" "H2 obs' = H2 obs"
    and "browserView (Header obs') = browserView (Header obs)"
  shows "resRiskScore (snd (Score E e (r\<lparr>Network := Build K obs'\<rparr>)))
           = resRiskScore (snd (Score E e (r\<lparr>Network := Build K obs\<rparr>)))"
proof -
  have "riskOf E e (r\<lparr>Network := Build K obs'\<rparr>) = riskOf E e (r\<lparr>Network := Build K obs\<rparr>)"
    unfolding risk_of_build [of E e K obs r] risk_of_build [of E e K obs' r]
  proof (rule riskOf_cong)
    show "nSignals (Network (withSignals (r\<lparr>Network := Build K obs'\<rparr>) (scoring (nSignals (Build K obs')))))
            = nSignals (Network (withSignals (r\<lparr>Network := Build K obs\<rparr>) (scoring (nSignals (Build K obs)))))"
      using scoring_build [OF assms(2,4)] by simp
  qed (use assms in \<open>simp_all add: build_engines browserView_def\<close>)
  then show ?thesis using Combine_riskOf [OF assms(1), of e] by (simp add: Score_risk)
qed

definition exHashes :: net_hashes where
  "exHashes = \<lparr>nhMD5 = (\<lambda>b. b), nhSHA256 = (\<lambda>b. b)\<rparr>"

definition exHeader :: header_info where
  "exHeader = \<lparr>hiMethod = ''GET'', hiVersion = ''20'', IsH2 = True, hiNames = [''User-Agent''], CasingReliable = False,
     OrderReliable = False, HasCookie = False, HasReferer = False, AcceptLanguage = [], AcceptEncoding = ''gzip'',
     CookieNames = [], hiUserAgent = ''Mozilla/5.0 Chrome/149.0'', Via = [], ProxyConnection = [], XCache = [],
     XSquidError = [], XForwardedFor = [], Forwarded = [], CFConnectingIP = [], TrueClientIP = [], XClientIP = [],
     XOriginalForwardedFor = [], XBlueCoatVia = []\<rparr>"

definition exTCP :: tcp_observation where
  "exTCP = \<lparr>Observed = False, TTL = 0, MSS = 0, Window = 0, WScale = 0, SACK = False, OSFamily = []\<rparr>"

definition exObs :: observation where
  "exObs = \<lparr>Hello = None, H2 = None, Header = exHeader, IsDatacenterIP = False, IsProxy = False, IsTorExit = False,
     ClientForwardedIP = [], TCP = exTCP\<rparr>"

definition torObs :: observation where
  "torObs = exObs\<lparr>Header := exHeader\<lparr>Via := ''1.1 squid'', XForwardedFor := ''1.2.3.4, 5.6.7.8''\<rparr>, IsTorExit := True,
     ClientForwardedIP := ''10.0.0.1'', TCP := exTCP\<lparr>Observed := True, TTL := 57\<rparr>\<rparr>"

theorem network_noninterference_witness:
  "resRiskScore (snd (Score exEnv NewEngine (zeroReport\<lparr>Network := Build exHashes torObs\<rparr>)))
     = resRiskScore (snd (Score exEnv NewEngine (zeroReport\<lparr>Network := Build exHashes exObs\<rparr>)))"
  by (rule network_noninterference [OF exEnv_order])
     (simp_all add: torObs_def exObs_def browserView_def secFetchPresent_def secCHUAPresent_def HasUppercaseInH2_def)

text \<open>Every score-exempt residual of a report, and nothing else, becomes one audit record, in order.\<close>

theorem residuals_audited: "map SignalID (AuditRecordsFromSignals sigs) = map sigID (ResidualSignals sigs)"
  by (simp add: AuditRecordsFromSignals_def ResidualSignals_def audit_event_exempt comp_def)

text \<open>
  A captured initial TTL of at most 64 is read as Linux, the value macOS and iOS send too, so every such client is
  reported with a mismatch of its operating system.
\<close>

theorem mac_ttl_mismatch:
  assumes "Observed t" "OSFamily t = []" "0 < TTL t" "TTL t \<le> 64" "uaOSFamily ua = ''macos''"
  shows "\<exists>s \<in> set (TCPSignals t ua). sigID s = ''l5.tcp.ttl_os'' \<and> sigVerdict s = SigSuspicious"
proof -
  have "tcpFamily t = ''linux''" using assms(2-4) by (simp add: tcpFamily_def GuessOSFromTTL_def)
  then show ?thesis using assms(1,5) by (simp add: TCPSignals_def Let_def addIf_def netSignal_def)
qed

end
