(* ===== verification/Collector.thy ===== *)
theory Collector
  imports NetProps "HOL-Library.AList" "HOL-Library.Sublist"
begin

text \<open>
  The session store of package \<open>collector\<close> (session.go, merge.go): one accumulating report per session, with the
  proof-of-work and request-integrity bookkeeping.

  Every method holds the lock of the store, so it is one function on the store.  The store is an association
  list; the order of a range over the map is an argument of \<open>ListReports\<close>.  Instants are nanoseconds; the instant
  of an issued challenge is an option whose \<^const>\<open>None\<close> is Go's zero time.
\<close>

section \<open>Sessions (session.go)\<close>

record session_state =
  sReport :: session_report
  ritN :: "64 word"
  netPinned :: bool
  powSolved :: bool
  powIssued :: "int option"
  powDiff :: int
  powTooFast :: bool
  ritBootstrap :: bool
  sUpdated :: int

definition zeroState :: session_state where
  "zeroState = \<lparr>sReport = zeroReport, ritN = 0, netPinned = False, powSolved = False, powIssued = None, powDiff = 0,
     powTooFast = False, ritBootstrap = False, sUpdated = 0\<rparr>"

record store =
  sessions :: "(string \<times> session_state) list"
  storeTTL :: int

definition NewStore :: "int \<Rightarrow> store" where
  "NewStore ttl = \<lparr>sessions = [], storeTTL = ttl\<rparr>"

definition sessionOf :: "store \<Rightarrow> string \<Rightarrow> session_state option" where
  "sessionOf s i = map_of (sessions s) i"

definition putSession :: "store \<Rightarrow> string \<Rightarrow> session_state \<Rightarrow> store" where
  "putSession s i st = s\<lparr>sessions := AList.update i st (sessions s)\<rparr>"

text \<open>
  The state a method works on: the one stored, or a new one.  \<open>Ensure\<close> and \<open>ensureLocked\<close> stamp a new report with
  the time; the request-integrity methods do not.
\<close>

definition ensureLocked :: "store \<Rightarrow> string \<Rightarrow> int \<Rightarrow> session_state" where
  "ensureLocked s i now =
     (case sessionOf s i of
        Some st \<Rightarrow> st
      | None \<Rightarrow> zeroState\<lparr>sReport := zeroReport\<lparr>rSessionID := i, rTimestamp := now\<rparr>\<rparr>)"

definition ensureUnstamped :: "store \<Rightarrow> string \<Rightarrow> session_state" where
  "ensureUnstamped s i =
     (case sessionOf s i of
        Some st \<Rightarrow> st
      | None \<Rightarrow> zeroState\<lparr>sReport := zeroReport\<lparr>rSessionID := i\<rparr>\<rparr>)"

definition Ensure :: "store \<Rightarrow> string \<Rightarrow> int \<Rightarrow> store" where
  "Ensure s i now = putSession s i ((ensureLocked s i now)\<lparr>sUpdated := now\<rparr>)"

definition GetReport :: "store \<Rightarrow> string \<Rightarrow> session_report option" where
  "GetReport s i = map_option sReport (sessionOf s i)"

definition RITCounter :: "store \<Rightarrow> string \<Rightarrow> 64 word" where
  "RITCounter s i = (case sessionOf s i of Some st \<Rightarrow> ritN st | None \<Rightarrow> 0)"

definition AdvanceRIT :: "store \<Rightarrow> string \<Rightarrow> int \<Rightarrow> store \<times> 64 word" where
  "AdvanceRIT s i now =
     (let st = ensureUnstamped s i; n = ritN st + 1 in (putSession s i (st\<lparr>ritN := n, sUpdated := now\<rparr>), n))"

definition ClaimRITBootstrap :: "store \<Rightarrow> string \<Rightarrow> int \<Rightarrow> store \<times> bool" where
  "ClaimRITBootstrap s i now =
     (let st = (ensureUnstamped s i)\<lparr>sUpdated := now\<rparr>
      in if ritBootstrap st then (putSession s i st, False)
         else (putSession s i (st\<lparr>ritBootstrap := True\<rparr>), True))"

definition SetPowSolved :: "store \<Rightarrow> string \<Rightarrow> int \<Rightarrow> store" where
  "SetPowSolved s i now =
     (case sessionOf s i of
        None \<Rightarrow> s
      | Some st \<Rightarrow> putSession s i (st\<lparr>powSolved := True, powIssued := None, powDiff := 0, sUpdated := now\<rparr>))"

definition SetPowIssued :: "store \<Rightarrow> string \<Rightarrow> int \<Rightarrow> int \<Rightarrow> store" where
  "SetPowIssued s i now difficulty =
     (case sessionOf s i of
        None \<Rightarrow> s
      | Some st \<Rightarrow> if powIssued st = None then putSession s i (st\<lparr>powIssued := Some now, powDiff := difficulty\<rparr>) else s)"

definition PowDifficulty :: "store \<Rightarrow> string \<Rightarrow> int" where
  "PowDifficulty s i = (case sessionOf s i of Some st \<Rightarrow> powDiff st | None \<Rightarrow> 0)"

definition PowIssuedAt :: "store \<Rightarrow> string \<Rightarrow> int option" where
  "PowIssuedAt s i = (case sessionOf s i of Some st \<Rightarrow> powIssued st | None \<Rightarrow> None)"

definition SetPowTooFast :: "store \<Rightarrow> string \<Rightarrow> store" where
  "SetPowTooFast s i =
     (case sessionOf s i of None \<Rightarrow> s | Some st \<Rightarrow> putSession s i (st\<lparr>powTooFast := True\<rparr>))"

definition PowTooFast :: "store \<Rightarrow> string \<Rightarrow> bool" where
  "PowTooFast s i = (case sessionOf s i of Some st \<Rightarrow> powTooFast st | None \<Rightarrow> False)"

definition PowSolved :: "store \<Rightarrow> string \<Rightarrow> bool" where
  "PowSolved s i = (case sessionOf s i of Some st \<Rightarrow> powSolved st | None \<Rightarrow> False)"

text \<open>The loop appends before it tests the limit.\<close>

definition ListReports :: "((string \<times> session_state) list \<Rightarrow> (string \<times> session_state) list) \<Rightarrow> store \<Rightarrow> nat \<Rightarrow> session_report list" where
  "ListReports iter s limit = map (sReport \<circ> snd) (take (max 1 limit) (iter (sessions s)))"

definition GCSessions :: "store \<Rightarrow> int \<Rightarrow> store" where
  "GCSessions s now = s\<lparr>sessions := filter (\<lambda>(i, st). \<not> storeTTL s < now - sUpdated st) (sessions s)\<rparr>"

section \<open>Merging (merge.go)\<close>

definition reservedServerID :: "string \<Rightarrow> bool" where
  "reservedServerID i \<longleftrightarrow> hasPrefix i ''l5.'' \<or> hasPrefix i ''l6.'' \<or> hasPrefix i ''l7.'' \<or> hasPrefix i ''x.''"

definition sanitizeClientSignals :: "signal list \<Rightarrow> signal list" where
  "sanitizeClientSignals sigs = filter (\<lambda>s. \<not> (sigCollected s = SourceServer \<or> reservedServerID (sigID s))) sigs"

definition MergeClient :: "store \<Rightarrow> string \<Rightarrow> client_report \<Rightarrow> int \<Rightarrow> store" where
  "MergeClient s i client now =
     (let st = ensureLocked s i now
      in putSession s i
           (st\<lparr>sReport := (sReport st)\<lparr>Client := client\<lparr>cSignals := sanitizeClientSignals (cSignals client)\<rparr>\<rparr>, sUpdated := now\<rparr>))"

definition requestScopedNetwork :: "string \<Rightarrow> bool" where
  "requestScopedNetwork i \<longleftrightarrow>
     i \<in> {''l5.header.proxy_hop'', ''l5.header.client_ip_spoof'', ''l5.header.xff_multi_hop'',
          ''l5.header.forwarded_private'', ''l5.proxy.tor_circuit'', ''l5.proxy.anon_chain'',
          ''l5.ip.proxy_vpn_tor'', ''l5.ip.tor_exit'', ''l5.ip.datacenter_asn''}"

definition appendSignals :: "session_report \<Rightarrow> signal list \<Rightarrow> session_report" where
  "appendSignals r sigs = r\<lparr>Network := (Network r)\<lparr>nSignals := nSignals (Network r) @ sigs\<rparr>\<rparr>"

definition MergeNetwork :: "store \<Rightarrow> string \<Rightarrow> network_report \<Rightarrow> int \<Rightarrow> store" where
  "MergeNetwork s i net now =
     (let st = ensureLocked s i now;
          st1 = (if \<not> netPinned st then st\<lparr>sReport := (sReport st)\<lparr>Network := net\<rparr>, netPinned := True\<rparr>
                 else st\<lparr>sReport := appendSignals (sReport st) (filter (\<lambda>g. requestScopedNetwork (sigID g)) (nSignals net))\<rparr>)
      in putSession s i (st1\<lparr>sUpdated := now\<rparr>))"

definition AppendNetworkSignals :: "store \<Rightarrow> string \<Rightarrow> signal list \<Rightarrow> int \<Rightarrow> store" where
  "AppendNetworkSignals s i extra now =
     (let st = ensureLocked s i now
      in putSession s i (st\<lparr>sReport := appendSignals (sReport st) extra, sUpdated := now\<rparr>))"

definition SetLabel :: "store \<Rightarrow> string \<Rightarrow> string \<Rightarrow> int \<Rightarrow> store" where
  "SetLabel s i label now =
     (let st = ensureLocked s i now
      in putSession s i (st\<lparr>sReport := (sReport st)\<lparr>rLabel := label\<rparr>, sUpdated := now\<rparr>))"

definition StoreScored :: "store \<Rightarrow> string \<Rightarrow> session_report \<Rightarrow> int \<Rightarrow> store" where
  "StoreScored s i r now = putSession s i ((ensureLocked s i now)\<lparr>sReport := r, sUpdated := now\<rparr>)"

section \<open>Runs\<close>

text \<open>
  The calls the server makes on a store.  A handler that scores a session takes the lock twice: \<open>Get\<close> copies the report
  (\<open>CRead\<close>), and \<open>StoreScored\<close> writes the copy back after the handler appended its own signals and scored it
  (\<open>CStore\<close> with the number of the copy).  Other calls may come in between.  The copies read so far are part of the
  state of a run.  \<open>CAppend\<close> are signals of the server.
\<close>

datatype collector_op =
    CEnsure string
  | CAdvanceRIT string
  | CClaimRIT string
  | CPowSolved string
  | CPowIssued string int
  | CPowTooFast string
  | CClient string client_report
  | CNetwork string network_report
  | CAppend string "signal list"
  | CLabel string string
  | CRead string
  | CStore nat "signal list"
  | CSweep

type_synonym collector_state = "store \<times> (string \<times> session_report) list"

fun storeCall :: "store \<Rightarrow> collector_op \<Rightarrow> int \<Rightarrow> store" where
  "storeCall s (CEnsure i) now = Ensure s i now"
| "storeCall s (CAdvanceRIT i) now = fst (AdvanceRIT s i now)"
| "storeCall s (CClaimRIT i) now = fst (ClaimRITBootstrap s i now)"
| "storeCall s (CPowSolved i) now = SetPowSolved s i now"
| "storeCall s (CPowIssued i d) now = SetPowIssued s i now d"
| "storeCall s (CPowTooFast i) now = SetPowTooFast s i"
| "storeCall s (CClient i c) now = MergeClient s i c now"
| "storeCall s (CNetwork i n) now = MergeNetwork s i n now"
| "storeCall s (CAppend i g) now = AppendNetworkSignals s i g now"
| "storeCall s (CLabel i l) now = SetLabel s i l now"
| "storeCall s CSweep now = GCSessions s now"
| "storeCall s _ now = s"

fun collectorStep :: "score_env \<Rightarrow> engine \<Rightarrow> collector_state \<Rightarrow> collector_op \<times> int \<Rightarrow> collector_state" where
  "collectorStep E e (s, copies) (op, now) =
     (case op of
        CRead i \<Rightarrow> (s, copies @ [(i, case GetReport s i of Some r \<Rightarrow> r | None \<Rightarrow> zeroReport)])
      | CStore k extra \<Rightarrow>
          if k < length copies
          then (StoreScored s (fst (copies ! k)) (fst (Score E e (appendSignals (snd (copies ! k)) extra))) now, copies)
          else (s, copies)
      | _ \<Rightarrow> (storeCall s op now, copies))"

definition collectorRuns :: "score_env \<Rightarrow> engine \<Rightarrow> collector_state \<Rightarrow> (collector_op \<times> int) list \<Rightarrow> collector_state" where
  "collectorRuns E e c ops = foldl (collectorStep E e) c ops"

definition collectorRun :: "score_env \<Rightarrow> engine \<Rightarrow> store \<Rightarrow> (collector_op \<times> int) list \<Rightarrow> store" where
  "collectorRun E e s ops = fst (collectorRuns E e (s, []) ops)"

section \<open>Facts\<close>

lemma sessionOf_put [simp]: "sessionOf (putSession s i st) j = (if j = i then Some st else sessionOf s j)"
  by (simp add: sessionOf_def putSession_def update_conv')

lemma sessionOf_new [simp]: "sessionOf (NewStore ttl) i = None"
  by (simp add: sessionOf_def NewStore_def)

lemma GCSessions_keeps: "sessionOf (GCSessions s now) i = Some st \<Longrightarrow> (i, st) \<in> set (sessions s)"
  by (auto simp: sessionOf_def GCSessions_def dest!: map_of_SomeD)

lemma Score_report:
  "Client (fst (Score E e r)) = Client r" "Network (fst (Score E e r)) = Network r"
proof -
  have "fst (decide e r' c rc rk) = r'\<lparr>Scoring := snd (decide e r' c rc rk)\<rparr>" for r' c rc rk
    by (simp add: decide_def Let_def split_beta)
  then show "Client (fst (Score E e r)) = Client r" "Network (fst (Score E e r)) = Network r"
    by (simp_all add: Score_parts assemble_network) (simp add: assemble_def Let_def)
qed

lemmas collector_defs = Ensure_def AdvanceRIT_def ClaimRITBootstrap_def SetPowSolved_def SetPowIssued_def
  SetPowTooFast_def MergeClient_def MergeNetwork_def AppendNetworkSignals_def SetLabel_def StoreScored_def
  ensureLocked_def ensureUnstamped_def GetReport_def appendSignals_def Let_def

text \<open>
  A law that relates the states of one session before and after a call holds along a run, as long as each call meets
  the condition the law needs.
\<close>

fun alongRun ::
  "score_env \<Rightarrow> engine \<Rightarrow> (collector_state \<Rightarrow> collector_op \<Rightarrow> bool) \<Rightarrow> collector_state \<Rightarrow> (collector_op \<times> int) list \<Rightarrow> bool" where
  "alongRun E e ok c [] \<longleftrightarrow> True"
| "alongRun E e ok c (a # ops) \<longleftrightarrow> ok c (fst a) \<and> alongRun E e ok (collectorStep E e c a) ops"

locale session_law =
  fixes R :: "session_state \<Rightarrow> session_state \<Rightarrow> bool"
    and ok :: "string \<Rightarrow> collector_state \<Rightarrow> collector_op \<Rightarrow> bool"
  assumes law_refl: "R st st"
    and law_trans: "R st st1 \<Longrightarrow> R st1 st2 \<Longrightarrow> R st st2"
    and law_step: "sessionOf (fst c) i = Some st \<Longrightarrow> op \<noteq> CSweep \<Longrightarrow> ok i c op
      \<Longrightarrow> \<exists>st'. sessionOf (fst (collectorStep E e c (op, now))) i = Some st' \<and> R st st'"
begin

lemma along_run:
  "sessionOf (fst c) i = Some st \<Longrightarrow> CSweep \<notin> fst ` set ops \<Longrightarrow> alongRun E e (ok i) c ops
     \<Longrightarrow> \<exists>st'. sessionOf (fst (collectorRuns E e c ops)) i = Some st' \<and> R st st'"
proof (induction ops arbitrary: c st)
  case Nil
  then show ?case by (simp add: collectorRuns_def law_refl)
next
  case (Cons a ops)
  obtain op now where a: "a = (op, now)" by (cases a)
  obtain st1 where st1: "sessionOf (fst (collectorStep E e c a)) i = Some st1" "R st st1"
    using law_step [OF Cons.prems(1), of op E e now] Cons.prems(2,3) unfolding a by auto
  obtain st' where "sessionOf (fst (collectorRuns E e (collectorStep E e c a) ops)) i = Some st'" "R st1 st'"
    using Cons.IH [OF st1(1)] Cons.prems(2,3) by auto
  then show ?case using law_trans [OF st1(2)] by (auto simp: collectorRuns_def)
qed

end

text \<open>
  What a session never takes back, whatever the order of the calls: that its network basis is pinned, the mark of a
  too-fast solution, and the spent bootstrap grace.  The report itself keeps the pinned basis and the signals recorded
  on it when no copy of an older network report is written back.
\<close>

definition netBasis :: "session_state \<Rightarrow> network_report" where
  "netBasis st = (Network (sReport st))\<lparr>nSignals := []\<rparr>"

definition flagsKept :: "session_state \<Rightarrow> session_state \<Rightarrow> bool" where
  "flagsKept st st' \<longleftrightarrow>
     (netPinned st \<longrightarrow> netPinned st') \<and> (powTooFast st \<longrightarrow> powTooFast st') \<and> (ritBootstrap st \<longrightarrow> ritBootstrap st')"

definition networkKept :: "session_state \<Rightarrow> session_state \<Rightarrow> bool" where
  "networkKept st st' \<longleftrightarrow>
     (netPinned st \<longrightarrow> netPinned st' \<and> netBasis st' = netBasis st
        \<and> prefix (nSignals (Network (sReport st))) (nSignals (Network (sReport st'))))"

text \<open>A write-back is current when the network report of the session is still the one that was copied.\<close>

definition currentCopy :: "string \<Rightarrow> collector_state \<Rightarrow> collector_op \<Rightarrow> bool" where
  "currentCopy i c op \<longleftrightarrow>
     (case op of
        CStore k extra \<Rightarrow>
          k < length (snd c) \<and> fst (snd c ! k) = i
            \<longrightarrow> map_option Network (GetReport (fst c) i) = Some (Network (snd (snd c ! k)))
      | _ \<Rightarrow> True)"

lemma flagsKept_step:
  assumes "sessionOf (fst c) i = Some st" "op \<noteq> CSweep"
  shows "\<exists>st'. sessionOf (fst (collectorStep E e c (op, now))) i = Some st' \<and> flagsKept st st'"
  using assms by (cases c, cases op) (auto simp: collector_defs flagsKept_def split: option.split)

lemma networkKept_step:
  assumes "sessionOf (fst c) i = Some st" "op \<noteq> CSweep" "currentCopy i c op"
  shows "\<exists>st'. sessionOf (fst (collectorStep E e c (op, now))) i = Some st' \<and> networkKept st st'"
  using assms
  by (cases c, cases op)
    (auto simp: collector_defs networkKept_def netBasis_def currentCopy_def Score_report split: option.split)

interpretation flags: session_law flagsKept "\<lambda>_ _ _. True"
proof
  show "flagsKept st st2" if "flagsKept st st1" "flagsKept st1 st2" for st st1 st2 using that by (auto simp: flagsKept_def)
qed (auto simp: flagsKept_def intro: flagsKept_step [unfolded flagsKept_def])

interpretation net: session_law networkKept currentCopy
proof
  show "networkKept st st2" if "networkKept st st1" "networkKept st1 st2" for st st1 st2
    using that by (auto simp: networkKept_def intro: prefix_order.trans)
qed (auto simp: networkKept_def intro: networkKept_step [unfolded networkKept_def])

lemma alongRun_True [simp]: "alongRun E e (\<lambda>_ _. True) c ops"
  by (induction ops arbitrary: c) auto

text \<open>What a client may say about itself.\<close>

definition clientOnly :: "signal \<Rightarrow> bool" where
  "clientOnly s \<longleftrightarrow> sigCollected s \<noteq> SourceServer \<and> \<not> reservedServerID (sigID s)"

definition cleanStore :: "store \<Rightarrow> bool" where
  "cleanStore s \<longleftrightarrow> (\<forall>(i, st) \<in> set (sessions s). \<forall>g \<in> set (cSignals (Client (sReport st))). clientOnly g)"

lemma set_alist_update: "set (AList.update k v xs) \<subseteq> insert (k, v) (set xs)"
  by (induction xs) auto

lemma cleanStore_put: "cleanStore s \<Longrightarrow> \<forall>g \<in> set (cSignals (Client (sReport st))). clientOnly g \<Longrightarrow> cleanStore (putSession s i st)"
  using set_alist_update by (fastforce simp: cleanStore_def putSession_def)

lemma cleanStore_session: "cleanStore s \<Longrightarrow> sessionOf s i = Some st \<Longrightarrow> g \<in> set (cSignals (Client (sReport st))) \<Longrightarrow> clientOnly g"
  by (auto simp: cleanStore_def sessionOf_def dest!: map_of_SomeD)

lemma sanitized: "g \<in> set (sanitizeClientSignals sigs) \<Longrightarrow> clientOnly g"
  by (simp add: sanitizeClientSignals_def clientOnly_def)

definition cleanState :: "collector_state \<Rightarrow> bool" where
  "cleanState c \<longleftrightarrow> cleanStore (fst c) \<and> (\<forall>(i, r) \<in> set (snd c). \<forall>g \<in> set (cSignals (Client r)). clientOnly g)"

lemma cleanStore_call: "cleanStore s \<Longrightarrow> cleanStore (storeCall s op now)"
proof (cases op)
  case CSweep
  assume "cleanStore s"
  then show ?thesis using CSweep by (auto simp: cleanStore_def GCSessions_def)
qed (auto simp: collector_defs zeroState_def zeroReport_def zeroClient_def sanitized
     intro!: cleanStore_put dest: cleanStore_session split: option.split)

lemma cleanState_step:
  assumes "cleanState c"
  shows "cleanState (collectorStep E e c a)"
proof -
  obtain s copies op now where c: "c = (s, copies)" "a = (op, now)" by (metis prod.collapse)
  have s: "cleanStore s" and copies: "\<forall>(i, r) \<in> set copies. \<forall>g \<in> set (cSignals (Client r)). clientOnly g"
    using assms by (simp_all add: cleanState_def c)
  show ?thesis
  proof (cases op)
    case (CRead i)
    then show ?thesis
      using s copies cleanStore_session [OF s]
      by (auto simp: c cleanState_def GetReport_def zeroReport_def zeroClient_def split: option.splits)
  next
    case (CStore k extra)
    have "\<forall>g \<in> set (cSignals (Client (snd (copies ! k)))). clientOnly g" if "k < length copies"
      using copies nth_mem [OF that] by (cases "copies ! k") auto
    then show ?thesis
      using CStore s copies by (auto simp: c cleanState_def StoreScored_def Score_report appendSignals_def intro!: cleanStore_put)
  qed (use s copies cleanStore_call [OF s, of op now] in \<open>auto simp: c cleanState_def\<close>)
qed

lemma cleanState_run: "cleanState c \<Longrightarrow> cleanState (collectorRuns E e c ops)"
proof (induction ops arbitrary: c)
  case (Cons a ops)
  then show ?case using cleanState_step by (simp add: collectorRuns_def)
qed (simp add: collectorRuns_def)

lemma cleanStore_run: "cleanStore (collectorRun E e (NewStore ttl) ops)"
proof -
  have "cleanState (NewStore ttl, [])" by (simp add: cleanState_def cleanStore_def NewStore_def)
  from cleanState_run [OF this] show ?thesis by (simp add: collectorRun_def cleanState_def)
qed

text \<open>
  C16: a client never authors server evidence.  Whatever calls are made on a store, with whatever
  client reports, no session ever holds a client signal that claims the server as its source or an id of a layer
  that only the server writes.
\<close>

theorem provenance_boundary:
  assumes "GetReport (collectorRun E e (NewStore ttl) ops) i = Some r" "g \<in> set (cSignals (Client r))"
  shows "sigCollected g \<noteq> SourceServer \<and> \<not> reservedServerID (sigID g)"
proof -
  have "cleanStore (collectorRun E e (NewStore ttl) ops)" by (rule cleanStore_run)
  then have "clientOnly g" using cleanStore_session assms by (fastforce simp: GetReport_def)
  then show ?thesis by (simp add: clientOnly_def)
qed

definition exForger :: client_report where
  "exForger = zeroClient\<lparr>cSignals :=
     [NewSignal ''l7.pow.solved'' (VBool True) SigOK 1 SourceServer [],
      NewSignal ''l7.pass.solved'' (VBool True) SigOK 1 SourceJS [],
      NewSignal ''l1.navigator.webdriver'' (VBool True) SigBot 1 SourceJS []]\<rparr>"

theorem provenance_boundary_witness:
  "GetReport (collectorRun exEnv NewEngine (NewStore 60) [(CClient ''s'' exForger, 5)]) ''s''
     = Some (zeroReport\<lparr>rSessionID := ''s'', rTimestamp := 5,
         Client := exForger\<lparr>cSignals := [NewSignal ''l1.navigator.webdriver'' (VBool True) SigBot 1 SourceJS []]\<rparr>\<rparr>)
   \<and> \<not> reservedServerID (sigID (NewSignal ''l1.navigator.webdriver'' (VBool True) SigBot 1 SourceJS []))"
proof -
  have run: "GetReport (collectorRun exEnv NewEngine (NewStore 60) [(CClient ''s'' exForger, 5)]) ''s''
     = Some (zeroReport\<lparr>rSessionID := ''s'', rTimestamp := 5,
         Client := exForger\<lparr>cSignals := [NewSignal ''l1.navigator.webdriver'' (VBool True) SigBot 1 SourceJS []]\<rparr>\<rparr>)"
    by (simp add: collectorRun_def collectorRuns_def collector_defs zeroState_def exForger_def sanitizeClientSignals_def
        reservedServerID_def hasPrefix_def SourceServer_def SourceJS_def)
  show ?thesis using provenance_boundary [OF run] run by simp
qed

text \<open>
  C39: what a session does not take back.  Along any calls between two expiry sweeps, in any order and
  with scorings in flight, a too-fast solution stays marked and the bootstrap grace is granted at most once.  The
  network basis pinned by the first observation and the signals recorded on it, in order, stay as well if every scored
  report that is written back was copied from the network report it replaces.
\<close>

theorem session_ratchet:
  assumes "sessionOf s i = Some st" "CSweep \<notin> fst ` set ops"
  shows "\<exists>st'. sessionOf (collectorRun E e s ops) i = Some st'
           \<and> (powTooFast st \<longrightarrow> PowTooFast (collectorRun E e s ops) i)
           \<and> (ritBootstrap st \<longrightarrow> \<not> snd (ClaimRITBootstrap (collectorRun E e s ops) i now))
           \<and> (netPinned st \<longrightarrow> netPinned st')
           \<and> (netPinned st \<and> alongRun E e (currentCopy i) (s, []) ops \<longrightarrow>
                netBasis st' = netBasis st
                \<and> prefix (nSignals (Network (sReport st))) (nSignals (Network (sReport st'))))"
proof -
  let ?c = "(s, [] :: (string \<times> session_report) list)"
  obtain st' where st': "sessionOf (collectorRun E e s ops) i = Some st'" "flagsKept st st'"
    using flags.along_run [of ?c i st ops E e] assms by (auto simp: collectorRun_def)
  moreover have "networkKept st st'" if "alongRun E e (currentCopy i) ?c ops"
    using net.along_run [of ?c i st ops E e] assms that st'(1) by (auto simp: collectorRun_def)
  ultimately show ?thesis
    by (auto simp: flagsKept_def networkKept_def PowTooFast_def ClaimRITBootstrap_def ensureUnstamped_def Let_def)
qed

definition exPinned :: session_state where
  "exPinned = zeroState\<lparr>netPinned := True, powTooFast := True\<rparr>"

lemma exPinned_facts: "netBasis exPinned = zeroNetwork" "netPinned exPinned" "powTooFast exPinned" "Network (sReport exPinned) = zeroNetwork"
  by (simp_all add: exPinned_def netBasis_def zeroState_def zeroReport_def zeroNetwork_def)

theorem session_ratchet_witness:
  "\<exists>st'. sessionOf (collectorRun exEnv NewEngine (putSession (NewStore 60) ''s'' exPinned)
              [(CRead ''s'', 6), (CPowSolved ''s'', 7), (CStore 0 [], 8), (CNetwork ''s'' (zeroNetwork\<lparr>JA4 := ''t13d''\<rparr>), 9)]) ''s'' = Some st'
     \<and> netBasis st' = zeroNetwork"
proof -
  have "alongRun exEnv NewEngine (currentCopy ''s'') (putSession (NewStore 60) ''s'' exPinned, [])
      [(CRead ''s'', 6), (CPowSolved ''s'', 7), (CStore 0 [], 8), (CNetwork ''s'' (zeroNetwork\<lparr>JA4 := ''t13d''\<rparr>), 9)]"
    by (simp add: currentCopy_def GetReport_def SetPowSolved_def exPinned_facts)
  then show ?thesis
    using session_ratchet [of "putSession (NewStore 60) ''s'' exPinned" "''s''" exPinned
        "[(CRead ''s'', 6), (CPowSolved ''s'', 7), (CStore 0 [], 8), (CNetwork ''s'' (zeroNetwork\<lparr>JA4 := ''t13d''\<rparr>), 9)]" exEnv NewEngine 0]
    by (auto simp: exPinned_facts)
qed

text \<open>
  The condition is needed.  A handler that reads a report, scores it and writes it back does not hold the lock in
  between: signals another request records in the meantime are lost, also those that would deny the session.
\<close>

theorem write_back_loses_signals:
  assumes "GetReport s i = Some r"
  shows "map_option (nSignals \<circ> Network) (GetReport (collectorRun E e s [(CRead i, t0), (CAppend i gs, t1), (CStore 0 [], t2)]) i)
           = Some (nSignals (Network r))"
proof -
  obtain st where "sessionOf s i = Some st" "sReport st = r" using assms by (auto simp: GetReport_def)
  then show ?thesis
    by (simp add: collectorRun_def collectorRuns_def GetReport_def AppendNetworkSignals_def StoreScored_def ensureLocked_def
        Score_report appendSignals_def Let_def)
qed

end
