(* ===== verification/Control.thy ===== *)
theory Control
  imports Gate Collector
begin

text \<open>
  The control plane of the gate (\<open>control.go\<close>, \<open>control\_collect.go\<close>) and its cohort observer
  (\<open>cohort\_shadow.go\<close>): session issuance, the scoring beacon \<open>/collect\<close> that sets the verdict the edge enforces,
  the redemption of a step-up receipt, and the probes.

  A handler maps the control plane to the updated one and the list of its effects in order: records handed to
  the audit sink, response headers and cookies, and the reply.  A panic (\<open>crypto/rand\<close> failed), which \<open>net/http\<close>
  turns into an aborted connection, is the last effect \<open>Panicked\<close>.

  Arguments, in \<open>control_env\<close>: the primitives, the key derivation of the vault, the verdict ledger, the
  scoring environment and the hash functions of the fingerprints, \<open>json.Unmarshal\<close> into a client report, fresh
  random bytes, and the readings of the clock.
\<close>

section \<open>Cohort observer (cohort\_shadow.go)\<close>

record cohort_entry =
  ceSigs :: "(string \<times> string list) list"
  ceFlagged :: "string list"
  ceUpdated :: int

record cohort_shadow =
  cohorts :: "(string \<times> cohort_entry) list"
  minCohort :: nat

definition newCohortShadow :: cohort_shadow where
  "newCohortShadow = \<lparr>cohorts = [], minCohort = 6\<rparr>"

definition cohortSigMax :: nat where
  "cohortSigMax = 100000"

text \<open>\<open>math.Round\<close>: halves are rounded away from zero. A moment is assumed to fit an \<open>int\<close> after the division.\<close>

definition roundRat :: "rat \<Rightarrow> int" where
  "roundRat x = (if x < 0 then - \<lfloor>- x + 1/2\<rfloor> else \<lfloor>x + 1/2\<rfloor>)"

definition quantise :: "rat \<Rightarrow> rat \<Rightarrow> int" where
  "quantise v step = (if step \<le> 0 then 0 else roundRat (v / step))"

definition signatureBytes :: "int \<Rightarrow> bytes" where
  "signatureBytes p = [char_of (nat (p mod 256)), char_of (nat (p div 256 mod 256)), CHR ''|'']"

definition behaviorSignature :: "behavior_summary \<Rightarrow> string" where
  "behaviorSignature b =
     (if mouseSamples (Mouse b) = 0 \<and> Keystrokes (KeyF b) = 0 \<and> TotalEvents (Events b) = 0 then []
      else concat (map signatureBytes
        [quantise (MeanCurvature (Mouse b)) (1/20), quantise (VelocityStdDev (Mouse b)) (1/2),
         quantise (CoalescedRatio (Mouse b)) (1/2), quantise (StraightLineFrac (Mouse b)) (1/10),
         quantise (MeanFlightMs (KeyF b)) 10, quantise (FlightStdDev (KeyF b)) 5]))"

definition idleAfter :: int where
  "idleAfter = 600000000000"

definition cohortGC :: "cohort_shadow \<Rightarrow> int \<Rightarrow> cohort_shadow" where
  "cohortGC cs now = cs\<lparr>cohorts := filter (\<lambda>(k, e). \<not> idleAfter < now - ceUpdated e) (cohorts cs)\<rparr>"

text \<open>The flag says that the observation was logged.\<close>

definition noteSession :: "cohort_shadow \<Rightarrow> string \<Rightarrow> cohort_entry \<Rightarrow> string \<Rightarrow> string \<Rightarrow> int \<Rightarrow> cohort_shadow \<times> bool" where
  "noteSession cs key e0 sg sid now =
     (let e = e0\<lparr>ceUpdated := now\<rparr>; put = (\<lambda>e'. cs\<lparr>cohorts := AList.update key e' (cohorts cs)\<rparr>)
      in if sg \<in> set (ceFlagged e) then (put e, False)
         else let sids = List.insert sid (case map_of (ceSigs e) sg of Some xs \<Rightarrow> xs | None \<Rightarrow> [])
              in if minCohort cs \<le> length sids
                 then (put (e\<lparr>ceFlagged := List.insert sg (ceFlagged e), ceSigs := AList.delete sg (ceSigs e)\<rparr>), True)
                 else (put (e\<lparr>ceSigs := AList.update sg sids (ceSigs e)\<rparr>), False))"

definition cohortObserve ::
  "cohort_shadow \<Rightarrow> string \<Rightarrow> behavior_summary \<Rightarrow> string \<Rightarrow> int \<Rightarrow> cohort_shadow \<times> bool" where
  "cohortObserve cs key b sid now =
     (let sg = behaviorSignature b
      in if key = [] \<or> key = ''|'' \<or> sid = [] \<or> sg = [] then (cs, False)
         else case map_of (cohorts cs) key of
                Some e \<Rightarrow> noteSession cs key e sg sid now
              | None \<Rightarrow>
                  let cs1 = (if cohortSigMax \<le> length (cohorts cs) then cohortGC cs now else cs)
                  in if cohortSigMax \<le> length (cohorts cs1) then (cs1, False)
                     else noteSession cs1 key \<lparr>ceSigs = [], ceFlagged = [], ceUpdated = now\<rparr> sg sid now)"

section \<open>The control plane (control.go)\<close>

record 'v control_plane =
  cpStore :: store
  cpEngine :: engine
  cpVerdicts :: 'v
  cpVault :: "vault option"
  cpTokenKey :: bytes
  cpEpoch :: string
  cpTokenEpochs :: "epoch_manager option"
  cpNonces :: nonce_cache
  climiter :: "limiter option"
  cpHard :: int
  cpCohort :: "cohort_shadow option"
  cpReady :: bool
  configureEngine :: "(engine \<Rightarrow> engine) option"

definition NewControlPlane :: "store \<Rightarrow> engine \<Rightarrow> 'v \<Rightarrow> vault option \<Rightarrow> 'v control_plane" where
  "NewControlPlane st en v va =
     \<lparr>cpStore = st, cpEngine = en, cpVerdicts = v, cpVault = va, cpTokenKey = [], cpEpoch = ''e1'',
      cpTokenEpochs = None, cpNonces = NewNonceCache 600000000000,
      climiter = Some (NewLimiter 10000000000 150 300), cpHard = 300, cpCohort = None, cpReady = True,
      configureEngine = None\<rparr>"

definition WithEngineConfigurator :: "'v control_plane \<Rightarrow> (engine \<Rightarrow> engine) \<Rightarrow> 'v control_plane" where
  "WithEngineConfigurator c fn = c\<lparr>configureEngine := Some fn\<rparr>"

definition SetReady :: "'v control_plane \<Rightarrow> bool \<Rightarrow> 'v control_plane" where
  "SetReady c b = c\<lparr>cpReady := b\<rparr>"

definition WithControlLimiter :: "'v control_plane \<Rightarrow> int \<Rightarrow> int \<Rightarrow> int \<Rightarrow> 'v control_plane" where
  "WithControlLimiter c w soft hard = c\<lparr>climiter := Some (NewLimiter w soft hard), cpHard := hard\<rparr>"

definition WithTokenKey :: "'v control_plane \<Rightarrow> bytes \<Rightarrow> 'v control_plane" where
  "WithTokenKey c k = c\<lparr>cpTokenKey := k\<rparr>"

definition WithCohortShadow :: "'v control_plane \<Rightarrow> 'v control_plane" where
  "WithCohortShadow c = c\<lparr>cpCohort := Some newCohortShadow\<rparr>"

definition WithTokenEpochs :: "'v control_plane \<Rightarrow> epoch_manager \<Rightarrow> 'v control_plane" where
  "WithTokenEpochs c em = c\<lparr>cpTokenEpochs := Some em\<rparr>"

definition ControlGC :: "'v control_plane \<Rightarrow> int \<Rightarrow> 'v control_plane" where
  "ControlGC c now = c\<lparr>cpCohort := map_option (\<lambda>cs. cohortGC cs now) (cpCohort c)\<rparr>"

definition tokEpoch :: "'v control_plane \<Rightarrow> int \<Rightarrow> string" where
  "tokEpoch c now = (case cpTokenEpochs c of Some em \<Rightarrow> CurrentEpoch em now | None \<Rightarrow> cpEpoch c)"

subsection \<open>Requests and effects\<close>

record control_request =
  crReq :: request
  crProtoMajor :: int
  crBody :: "bytes option"
  crLabel :: string

datatype control_clock = AtGuard | AtHandler | AtEpoch

record ('sk, 'v) control_env =
  cP :: "'sk prims"
  cKdf :: "bytes \<Rightarrow> bytes \<Rightarrow> bytes option"
  cFresh :: bytes
  cRandom :: "bytes option"
  cVer :: "'v verdict_ops"
  cScore :: score_env
  cHashes :: net_hashes
  cParse :: "bytes \<Rightarrow> client_report option"
  cClock :: "control_clock \<Rightarrow> int"

datatype control_reply =
    HttpError nat string
  | SessionJSON string
  | VerdictJSON string rat string string
  | OkJSON
  | StatusJSON nat string
  | LoaderJS
  | NoContent

datatype control_event = Sealed audit_record | SetHeader string string | SetCookie string string | Reply control_reply | Panicked

definition controlRecord :: audit_record where
  "controlRecord = zeroRecord\<lparr>TenantID := ''control'', RouteClass := ''control'', Mode := ''enforce'', KeyID := ''k1''\<rparr>"

definition subjectActor :: "string \<Rightarrow> audit_record \<Rightarrow> audit_record" where
  "subjectActor psn r = r\<lparr>Actor := \<lparr>Kind = ''subject'', IDPsn = psn\<rparr>\<rparr>"

definition pseudo :: "('sk, 'v) control_env \<Rightarrow> 'v control_plane \<Rightarrow> string \<Rightarrow> string \<Rightarrow> 'v control_plane \<times> string" where
  "pseudo E c sid val =
     (case cpVault c of
        None \<Rightarrow> (c, [])
      | Some v \<Rightarrow>
          if sid = [] then (c, [])
          else (case Pseudonymize (cP E) (cKdf E) v (cFresh E) sid val of
                  (v', psn) \<Rightarrow> (c\<lparr>cpVault := Some v'\<rparr>, psn)))"

text \<open>The flag says that the request was dropped.\<close>

definition cpGuard ::
  "('sk, 'v) control_env \<Rightarrow> 'v control_plane \<Rightarrow> request \<Rightarrow> string \<Rightarrow> 'v control_plane \<times> control_event list \<times> bool" where
  "cpGuard E c r endpoint =
     (case climiter c of
        None \<Rightarrow> (c, [], False)
      | Some l \<Rightarrow>
          (case Observe l (''cp:'' @ rClientIP r) (cClock E AtGuard) of
             (l', n) \<Rightarrow>
               let c1 = c\<lparr>climiter := Some l'\<rparr>
               in if Level l' n < 2 then (c1, [], False)
                  else (c1,
                        (if n = cpHard c + 1
                         then [Sealed (controlRecord\<lparr>EventType := ''ratelimit.hard_exceeded'',
                                 Actor := \<lparr>Kind = ''system'', IDPsn = []\<rparr>, Verdict := VerdictDeny,
                                 Action := ''rate_limit'', FailReason := ''control-plane flood: '' @ endpoint\<rparr>)]
                         else [])
                        @ [SetHeader ''Retry-After'' ''10'', Reply (HttpError 429 ''control plane rate limited'')], True)))"

definition sessionCookie :: string where "sessionCookie = ''hsid''"

definition ensureSession :: "('sk, 'v) control_env \<Rightarrow> request \<Rightarrow> (string \<times> control_event list) option" where
  "ensureSession E r =
     (if sessionID r \<noteq> [] then Some (sessionID r, [])
      else case cRandom E of
             None \<Rightarrow> None
           | Some b \<Rightarrow> Some (hexEncode b, [SetCookie sessionCookie (hexEncode b)]))"

definition topSignals :: "contributor list \<Rightarrow> AuditRecord.signal list" where
  "topSignals cs = map (\<lambda>x. \<lparr>SigID = contribID x, SigVerdict = ''BOT'', Conf = 1\<rparr>) (take 5 cs)"

definition protoVer :: "control_request \<Rightarrow> string" where
  "protoVer q = (if crProtoMajor q = 2 then ''20'' else ''11'')"

text \<open>Header names are looked up in their canonical form; the names come in the order of the header map.\<close>

definition headerInfo :: "control_request \<Rightarrow> header_info" where
  "headerInfo q =
     (let r = crReq q; xc = hGet r ''X-Cache''
      in \<lparr>hiMethod = rMethod r, hiVersion = protoVer q, IsH2 = (crProtoMajor q = 2), hiNames = map fst (rHeader r),
          CasingReliable = False, OrderReliable = False, HasCookie = (hGet r ''Cookie'' \<noteq> []),
          HasReferer = (hGet r ''Referer'' \<noteq> []), AcceptLanguage = hGet r ''Accept-Language'',
          AcceptEncoding = hGet r ''Accept-Encoding'', CookieNames = [], hiUserAgent = hGet r ''User-Agent'',
          Via = hGet r ''Via'', ProxyConnection = hGet r ''Proxy-Connection'',
          XCache = (if xc = [] then hGet r ''X-Cache-Lookup'' else xc), XSquidError = hGet r ''X-Squid-Error'',
          XForwardedFor = hGet r ''X-Forwarded-For'', Forwarded = hGet r ''Forwarded'',
          CFConnectingIP = hGet r ''Cf-Connecting-Ip'', TrueClientIP = hGet r ''True-Client-Ip'',
          XClientIP = hGet r ''X-Client-Ip'', XOriginalForwardedFor = hGet r ''X-Original-Forwarded-For'',
          XBlueCoatVia = hGet r ''X-Bluecoat-Via''\<rparr>)"

definition beaconObservation :: "control_request \<Rightarrow> observation" where
  "beaconObservation q =
     \<lparr>Hello = None, H2 = None, Header = headerInfo q, IsDatacenterIP = False, IsProxy = False, IsTorExit = False,
      ClientForwardedIP = [],
      TCP = \<lparr>Observed = False, TTL = 0, MSS = 0, Window = 0, WScale = 0, SACK = False, OSFamily = []\<rparr>\<rparr>"

section \<open>The scoring beacon (control\_collect.go)\<close>

definition parseControlClient :: "('sk, 'v) control_env \<Rightarrow> bytes \<Rightarrow> string \<Rightarrow> client_report option" where
  "parseControlClient E body sid = map_option (\<lambda>client. client\<lparr>cSessionID := sid\<rparr>) (cParse E body)"

definition rejectBeaconReplay ::
  "('sk, 'v) control_env \<Rightarrow> 'v control_plane \<Rightarrow> request \<Rightarrow> string \<Rightarrow> int \<Rightarrow> 'v control_plane \<times> control_event list \<times> bool" where
  "rejectBeaconReplay E c r sid now =
     (let nonce = hGet r ''X-Hmn-Nonce''
      in if nonce = [] then (c, [], False)
         else case UseNonce (cpNonces c) nonce (bindKey (cP E) r) now of
                (n', True) \<Rightarrow> (c\<lparr>cpNonces := n'\<rparr>, [], False)
              | (n', False) \<Rightarrow>
                  (case pseudo E (c\<lparr>cpNonces := n'\<rparr>) sid sid of
                     (c1, psn) \<Rightarrow>
                       (c1, [Sealed (subjectActor psn (controlRecord\<lparr>EventType := ''beacon.replay'',
                               Verdict := VerdictDeny, Rules := [''HR-29''], Action := ''block'',
                               FailReason := ''beacon nonce replay''\<rparr>)),
                             Reply (HttpError 409 ''replay rejected'')], True)))"

text \<open>The observation of the request, the report, the label, the overlay, the score.\<close>

definition mergeBeacon ::
  "('sk, 'v) control_env \<Rightarrow> store \<Rightarrow> string \<Rightarrow> control_request \<Rightarrow> client_report \<Rightarrow> int \<Rightarrow> store" where
  "mergeBeacon E st sid q client now =
     (let st1 = MergeNetwork st sid (Build (cHashes E) (beaconObservation q)) now;
          st2 = MergeClient st1 sid client now
      in if crLabel q \<noteq> [] then SetLabel st2 sid (crLabel q) now else st2)"

definition configured :: "'v control_plane \<Rightarrow> engine" where
  "configured c = (case configureEngine c of Some f \<Rightarrow> f (cpEngine c) | None \<Rightarrow> cpEngine c)"

definition scoreBeacon ::
  "('sk, 'v) control_env \<Rightarrow> 'v control_plane \<Rightarrow> string \<Rightarrow> control_request \<Rightarrow> client_report \<Rightarrow> int
   \<Rightarrow> 'v control_plane \<times> score_result" where
  "scoreBeacon E c sid q client now =
     (let st = mergeBeacon E (cpStore c) sid q client now;
          cohort = map_option (\<lambda>cs. fst (cohortObserve cs (tokenBind (cP E) (crReq q)) (cBehavior client) sid now)) (cpCohort c);
          eng = configured c;
          rep = (case GetReport st sid of Some r \<Rightarrow> r | None \<Rightarrow> zeroReport)
      in case Scoring.Score (cScore E) eng rep of
           (rep', res) \<Rightarrow>
             (c\<lparr>cpStore := StoreScored st sid rep' now, cpCohort := cohort, cpEngine := eng\<rparr>, res))"

definition beaconSticky :: "score_result \<Rightarrow> int \<Rightarrow> sticky_verdict" where
  "beaconSticky res now =
     \<lparr>verdict = mapVerdict (resVerdict res), risk = resRiskScore res, rule = HardRuleFired res,
      top = topSignals (TopContributors res), updated = now\<rparr>"

definition updateStickyVerdict ::
  "('sk, 'v) control_env \<Rightarrow> 'v control_plane \<Rightarrow> string \<Rightarrow> score_result \<Rightarrow> int \<Rightarrow> 'v control_plane" where
  "updateStickyVerdict E c sid res now = c\<lparr>cpVerdicts := voSet (cVer E) (cpVerdicts c) sid (beaconSticky res now)\<rparr>"

definition tokenLife :: int where
  "tokenLife = 1800000000000"

definition issueVerdictTokenOnAllow ::
  "('sk, 'v) control_env \<Rightarrow> 'v control_plane \<Rightarrow> request \<Rightarrow> string \<Rightarrow> score_result \<Rightarrow> int
   \<Rightarrow> 'v control_plane \<times> control_event list" where
  "issueVerdictTokenOnAllow E c r sid res now =
     (if resVerdict res \<noteq> ''ALLOW'' \<or> cpTokenKey c = [] then (c, [])
      else let tok = issueVerdictToken (cP E) (cpTokenKey c) sid (tokenBind (cP E) r) (tokEpoch c (cClock E AtEpoch)) (now + tokenLife)
      in case pseudo E c sid sid of
           (c1, psn) \<Rightarrow>
             (c1, [SetCookie verdictCookie tok,
                   Sealed (subjectActor psn (controlRecord\<lparr>EventType := ''token.issued'', Verdict := ''allow''\<rparr>))]))"

definition residualRecord :: "string \<Rightarrow> string \<Rightarrow> net_audit_record \<Rightarrow> audit_record" where
  "residualRecord psn spsn ar =
     subjectActor psn (controlRecord\<lparr>EventType := narEventType ar, SessionPsn := spsn, Verdict := ''none'', RiskScore := 0,
       Rules := [SignalID ar], TopSignals := [\<lparr>SigID = SignalID ar, SigVerdict = narVerdict ar, Conf = 1\<rparr>],
       FailReason := narNotes ar, Mode := ''monitor''\<rparr>)"

fun emitResiduals ::
  "('sk, 'v) control_env \<Rightarrow> 'v control_plane \<Rightarrow> string \<Rightarrow> string \<Rightarrow> net_audit_record list \<Rightarrow> 'v control_plane \<times> control_event list" where
  "emitResiduals E c sid psn [] = (c, [])"
| "emitResiduals E c sid psn (ar # ars) =
     (case pseudo E c sid sid of
        (c1, spsn) \<Rightarrow>
          (case emitResiduals E c1 sid psn ars of (c2, evs) \<Rightarrow> (c2, Sealed (residualRecord psn spsn ar) # evs)))"

definition emitNetworkResidualAudit ::
  "('sk, 'v) control_env \<Rightarrow> 'v control_plane \<Rightarrow> string \<Rightarrow> string \<Rightarrow> Signals.signal list \<Rightarrow> 'v control_plane \<times> control_event list" where
  "emitNetworkResidualAudit E c sid psn sigs = emitResiduals E c sid psn (AuditRecordsFromSignals sigs)"

text \<open>The reverse mapping of the session's handle, kept for an erasure request.\<close>

definition linkHandle :: "('sk, 'v) control_env \<Rightarrow> 'v control_plane \<Rightarrow> string \<Rightarrow> 'v control_plane" where
  "linkHandle E c sid =
     (if cpVault c = None then c
      else case pseudo E c sid sid of
             (c1, handle) \<Rightarrow> c1\<lparr>cpVault := map_option (\<lambda>v. Link v handle sid) (cpVault c1)\<rparr>)"

definition scoringRecord :: "string \<Rightarrow> string \<Rightarrow> score_result \<Rightarrow> audit_record" where
  "scoringRecord psn spsn res =
     subjectActor psn (controlRecord\<lparr>EventType := ''scoring.evaluated'', SessionPsn := spsn,
       Verdict := mapVerdict (resVerdict res), RiskScore := truncRat (resRiskScore res),
       Rules := ruleList (HardRuleFired res), TopSignals := topSignals (TopContributors res)\<rparr>)"

definition linkAndAuditScoring ::
  "('sk, 'v) control_env \<Rightarrow> 'v control_plane \<Rightarrow> string \<Rightarrow> request \<Rightarrow> score_result \<Rightarrow> 'v control_plane \<times> control_event list" where
  "linkAndAuditScoring E c sid r res =
     (case pseudo E (linkHandle E c sid) sid (rClientIP r) of
        (c1, psn) \<Rightarrow>
          (case pseudo E c1 sid sid of
             (c2, spsn) \<Rightarrow>
               (case GetReport (cpStore c2) sid of
                  None \<Rightarrow> (c2, [Sealed (scoringRecord psn spsn res)])
                | Some rep \<Rightarrow>
                    (case emitNetworkResidualAudit E c2 sid psn (nSignals (Network rep)) of
                       (c3, evs) \<Rightarrow> (c3, Sealed (scoringRecord psn spsn res) # evs)))))"

section \<open>Handlers (control.go)\<close>

type_synonym 'v handled = "'v control_plane \<times> control_event list"

text \<open>A handler behind the flood guard.\<close>

definition guarded ::
  "('sk, 'v) control_env \<Rightarrow> 'v control_plane \<Rightarrow> request \<Rightarrow> string \<Rightarrow> ('v control_plane \<Rightarrow> 'v handled) \<Rightarrow> 'v handled" where
  "guarded E c r endpoint k =
     (case cpGuard E c r endpoint of
        (c1, evs, True) \<Rightarrow> (c1, evs)
      | (c1, evs, False) \<Rightarrow> (case k c1 of (c2, evs') \<Rightarrow> (c2, evs @ evs')))"

text \<open>A handler that needs a session id.\<close>

definition inSession ::
  "('sk, 'v) control_env \<Rightarrow> request \<Rightarrow> 'v control_plane \<Rightarrow> ('v control_plane \<Rightarrow> string \<Rightarrow> 'v handled) \<Rightarrow> 'v handled" where
  "inSession E r c k =
     (case ensureSession E r of
        None \<Rightarrow> (c, [Panicked])
      | Some (sid, evs) \<Rightarrow> (case k c sid of (c1, evs') \<Rightarrow> (c1, evs @ evs')))"

definition handleSession :: "('sk, 'v) control_env \<Rightarrow> 'v control_plane \<Rightarrow> control_request \<Rightarrow> 'v handled" where
  "handleSession E c q =
     guarded E c (crReq q) ''session''
       (\<lambda>c1. inSession E (crReq q) c1
          (\<lambda>c2 sid. (c2\<lparr>cpStore := Ensure (cpStore c2) sid (cClock E AtHandler)\<rparr>, [Reply (SessionJSON sid)])))"

definition maxBeacon :: nat where
  "maxBeacon = 262144"

text \<open>The steps after the nonce was accepted.\<close>

definition scoreAndReply ::
  "('sk, 'v) control_env \<Rightarrow> 'v control_plane \<Rightarrow> control_request \<Rightarrow> string \<Rightarrow> client_report \<Rightarrow> int
   \<Rightarrow> 'v control_plane \<times> control_event list" where
  "scoreAndReply E c q sid client now =
     (case scoreBeacon E c sid q client now of
        (c1, res) \<Rightarrow>
          (case issueVerdictTokenOnAllow E (updateStickyVerdict E c1 sid res now) (crReq q) sid res now of
             (c2, evs2) \<Rightarrow>
               (case linkAndAuditScoring E c2 sid (crReq q) res of
                  (c3, evs3) \<Rightarrow>
                    (c3, evs2 @ evs3
                         @ [Reply (VerdictJSON sid (resRiskScore res) (resVerdict res) (HardRuleFired res))]))))"

definition collectBody ::
  "('sk, 'v) control_env \<Rightarrow> 'v control_plane \<Rightarrow> control_request \<Rightarrow> string \<Rightarrow> 'v control_plane \<times> control_event list" where
  "collectBody E c q sid =
     (case crBody q of
        None \<Rightarrow> (c, [Reply (HttpError 400 ''read error'')])
      | Some body \<Rightarrow>
          if maxBeacon < length body then (c, [Reply (HttpError 400 ''read error'')])
          else (case parseControlClient E body sid of
                  None \<Rightarrow> (c, [Reply (HttpError 400 ''bad body'')])
                | Some client \<Rightarrow>
                    (case rejectBeaconReplay E c (crReq q) sid (cClock E AtHandler) of
                       (c1, evs, True) \<Rightarrow> (c1, evs)
                     | (c1, evs, False) \<Rightarrow>
                         (case scoreAndReply E c1 q sid client (cClock E AtHandler) of (c2, evs') \<Rightarrow> (c2, evs @ evs')))))"

definition handleCollect :: "('sk, 'v) control_env \<Rightarrow> 'v control_plane \<Rightarrow> control_request \<Rightarrow> 'v handled" where
  "handleCollect E c q =
     (if rMethod (crReq q) \<noteq> ''POST'' then (c, [Reply (HttpError 405 ''POST only'')])
      else guarded E c (crReq q) ''collect''
             (\<lambda>c1. inSession E (crReq q) c1 (\<lambda>c2 sid. collectBody E c2 q sid)))"

fun receiptText :: "receipt_reason \<Rightarrow> string" where
  "receiptText ReceiptOK = []"
| "receiptText ReceiptBad = ''bad_sig''"
| "receiptText ReceiptExpired = ''expired''"
| "receiptText ReceiptSIDMismatch = ''sid_mismatch''"

definition stepUpMessage :: "receipt_reason \<Rightarrow> string \<Rightarrow> string" where
  "stepUpMessage reason receipt =
     (if reason = ReceiptSIDMismatch \<and> receipt \<noteq> []
      then ''step-up receipt sid mismatch '' @ emDash @ '' Core Pass likely not co-served in the Gate cookie jar (hsid diverged); real human may loop on the attested route''
      else if reason = ReceiptExpired
      then ''step-up receipt expired (check Core'' @ [CHR 0xE2, CHR 0x86, CHR 0x94] @ ''Gate clock skew / NTP; the client can re-solve for a fresh receipt)''
      else ''step-up: missing/invalid Pass receipt ('' @ receiptText reason @ '')'')"

definition redeemReceipt ::
  "('sk, 'v) control_env \<Rightarrow> 'v control_plane \<Rightarrow> request \<Rightarrow> string \<Rightarrow> 'v control_plane \<times> control_event list" where
  "redeemReceipt E c r sid =
     (let now = cClock E AtHandler; receipt = hGet r ''X-Hmn-Stepup-Receipt'';
          reason = verifyStepUpReceipt (cP E) (cpTokenKey c) receipt sid now
      in if reason \<noteq> ReceiptOK
         then (case pseudo E c sid sid of
                 (c1, psn) \<Rightarrow>
                   (c1, [Sealed (subjectActor psn (controlRecord\<lparr>EventType := ''token.binding_mismatch'',
                           Verdict := VerdictDeny, FailReason := stepUpMessage reason receipt\<rparr>)),
                         Reply (HttpError 403 ''invalid or missing step-up receipt'')]))
         else let tok = issueStepUpToken (cP E) (cpTokenKey c) sid (tokenBind (cP E) r) (tokEpoch c (cClock E AtEpoch)) (now + tokenLife)
         in (case pseudo E c sid sid of
               (c1, psn) \<Rightarrow>
                 (c1, [SetCookie stepUpCookie tok,
                       Sealed (subjectActor psn (controlRecord\<lparr>EventType := ''token.issued'', Verdict := ''allow'',
                         FailReason := ''step-up proof minted (Pass solved)''\<rparr>)),
                       Reply OkJSON])))"

definition handleStepUp :: "('sk, 'v) control_env \<Rightarrow> 'v control_plane \<Rightarrow> control_request \<Rightarrow> 'v handled" where
  "handleStepUp E c q =
     (if rMethod (crReq q) \<noteq> ''POST'' then (c, [Reply (HttpError 405 ''POST only'')])
      else guarded E c (crReq q) ''stepup''
             (\<lambda>c1. if cpTokenKey c1 = [] then (c1, [Reply (HttpError 501 ''step-up not configured'')])
                         else if sessionID (crReq q) = [] then (c1, [Reply (HttpError 400 ''no session'')])
                         else redeemReceipt E c1 (crReq q) (sessionID (crReq q))))"

definition handleReadyz :: "'v control_plane \<Rightarrow> 'v control_plane \<times> control_event list" where
  "handleReadyz c = (c, [Reply (if cpReady c then StatusJSON 200 ''ready'' else StatusJSON 503 ''draining'')])"

text \<open>The mux: exact paths, any other path is not found (a path to clean, which the mux redirects, is not modelled).\<close>

definition controlHandler :: "('sk, 'v) control_env \<Rightarrow> 'v control_plane \<Rightarrow> control_request \<Rightarrow> 'v handled" where
  "controlHandler E c q =
     (let p = rPath (crReq q)
      in if p = ''/session'' then handleSession E c q
         else if p = ''/collect'' then handleCollect E c q
         else if p = ''/stepup'' then handleStepUp E c q
         else if p = ''/loader.js''
         then (c, [SetHeader ''Content-Type'' ''application/javascript; charset=utf-8'',
                        SetHeader ''Cache-Control'' ''no-store'', Reply LoaderJS])
         else if p = ''/csp-report'' then (c, [Reply NoContent])
         else if p = ''/healthz'' then (c, [Reply (StatusJSON 200 ''ok'')])
         else if p = ''/readyz'' then handleReadyz c
         else (c, [Reply (HttpError 404 ''404 page not found'')]))"

end
