(* ===== verification/ControlProps.thy ===== *)
theory ControlProps
  imports Control GateProps
begin

text \<open>
  Properties of the control plane: what a client can and cannot obtain from the scoring beacon, and how the
  beacon's verdict and token reach the edge.
\<close>

section \<open>What each step leaves alone\<close>

definition sameButVault :: "'v control_plane \<Rightarrow> 'v control_plane \<Rightarrow> bool" where
  "sameButVault c c' \<longleftrightarrow> c' = c\<lparr>cpVault := cpVault c'\<rparr>"

lemma sameButVault_refl [simp]: "sameButVault c c"
  by (simp add: sameButVault_def)

lemma sameButVault_trans: "sameButVault c c1 \<Longrightarrow> sameButVault c1 c2 \<Longrightarrow> sameButVault c c2"
  unfolding sameButVault_def by (metis control_plane.surjective control_plane.update_convs(4))

lemma sameButVault_sel:
  "sameButVault c c' \<Longrightarrow> cpStore c' = cpStore c \<and> cpEngine c' = cpEngine c \<and> cpVerdicts c' = cpVerdicts c
     \<and> cpTokenKey c' = cpTokenKey c \<and> cpNonces c' = cpNonces c \<and> climiter c' = climiter c"
  unfolding sameButVault_def by (metis control_plane.select_convs control_plane.surjective control_plane.update_convs(4))

lemma pseudo_vault: "sameButVault c (fst (pseudo E c sid val))"
  by (simp add: pseudo_def sameButVault_def split: option.split prod.split)

lemma emitResiduals_vault: "sameButVault c (fst (emitResiduals E c sid psn ars))"
proof (induction ars arbitrary: c)
  case (Cons ar ars)
  show ?case
    using sameButVault_trans [OF pseudo_vault Cons.IH, of c E sid sid] by (simp add: split_beta)
qed simp

lemma linkHandle_vault: "sameButVault c (linkHandle E c sid)"
proof -
  have "sameButVault (fst (pseudo E c sid sid)) ((fst (pseudo E c sid sid))\<lparr>cpVault := v\<rparr>)" for v
    by (simp add: sameButVault_def)
  then show ?thesis
    by (auto simp: linkHandle_def split_beta intro: sameButVault_trans [OF pseudo_vault])
qed

lemma issue_vault: "sameButVault c (fst (issueVerdictTokenOnAllow E c r sid res now))"
  by (simp add: issueVerdictTokenOnAllow_def split_beta Let_def pseudo_vault)

lemma audit_vault: "sameButVault c (fst (linkAndAuditScoring E c sid r res))"
proof -
  let ?c1 = "fst (pseudo E (linkHandle E c sid) sid (rClientIP r))"
  let ?c2 = "fst (pseudo E ?c1 sid sid)"
  have "sameButVault c ?c2"
    by (meson sameButVault_trans linkHandle_vault pseudo_vault)
  then show ?thesis
    by (auto simp: linkAndAuditScoring_def emitNetworkResidualAudit_def split_beta
        intro: sameButVault_trans [OF _ emitResiduals_vault] split: option.split)
qed

lemma redeem_vault: "sameButVault c (fst (redeemReceipt E c r sid))"
  by (simp add: redeemReceipt_def split_beta Let_def pseudo_vault)

text \<open>The result and the stores after the scoring steps.\<close>

definition beaconReport ::
  "('sk, 'v) control_env \<Rightarrow> 'v control_plane \<Rightarrow> control_request \<Rightarrow> string \<Rightarrow> client_report \<Rightarrow> int \<Rightarrow> session_report" where
  "beaconReport E c q sid client now =
     (case GetReport (mergeBeacon E (cpStore c) sid q client now) sid of Some r \<Rightarrow> r | None \<Rightarrow> zeroReport)"

definition beaconResult ::
  "('sk, 'v) control_env \<Rightarrow> 'v control_plane \<Rightarrow> control_request \<Rightarrow> string \<Rightarrow> client_report \<Rightarrow> int \<Rightarrow> score_result" where
  "beaconResult E c q sid client now = snd (Scoring.Score (cScore E) (configured c) (beaconReport E c q sid client now))"

lemma scoreBeacon_parts:
  "snd (scoreBeacon E c sid q client now) = beaconResult E c q sid client now"
  "cpStore (fst (scoreBeacon E c sid q client now)) =
     StoreScored (mergeBeacon E (cpStore c) sid q client now) sid
       (fst (Scoring.Score (cScore E) (configured c) (beaconReport E c q sid client now))) now"
  "cpEngine (fst (scoreBeacon E c sid q client now)) = configured c"
  "cpVerdicts (fst (scoreBeacon E c sid q client now)) = cpVerdicts c"
  "cpTokenKey (fst (scoreBeacon E c sid q client now)) = cpTokenKey c"
  "cpTokenEpochs (fst (scoreBeacon E c sid q client now)) = cpTokenEpochs c"
  "cpEpoch (fst (scoreBeacon E c sid q client now)) = cpEpoch c"
  "climiter (fst (scoreBeacon E c sid q client now)) = climiter c"
  by (simp_all add: scoreBeacon_def beaconReport_def beaconResult_def Let_def split_beta)

lemma scoreAndReply_vault:
  "sameButVault (updateStickyVerdict E (fst (scoreBeacon E c sid q client now)) sid (beaconResult E c q sid client now) now)
     (fst (scoreAndReply E c q sid client now))"
  using sameButVault_trans [OF issue_vault audit_vault]
  by (simp add: scoreAndReply_def split_beta scoreBeacon_parts)

lemma scoreAndReply_parts:
  "cpStore (fst (scoreAndReply E c q sid client now)) = cpStore (fst (scoreBeacon E c sid q client now))"
  "cpEngine (fst (scoreAndReply E c q sid client now)) = configured c"
  "cpVerdicts (fst (scoreAndReply E c q sid client now))
     = voSet (cVer E) (cpVerdicts c) sid (beaconSticky (beaconResult E c q sid client now) now)"
  "climiter (fst (scoreAndReply E c q sid client now)) = climiter c"
  using sameButVault_sel [OF scoreAndReply_vault [of E c sid q client now]]
  by (simp_all add: updateStickyVerdict_def scoreBeacon_parts)

lemma reject_frame:
  "cpStore (fst (rejectBeaconReplay E c r sid now)) = cpStore c \<and> cpEngine (fst (rejectBeaconReplay E c r sid now)) = cpEngine c
   \<and> cpVerdicts (fst (rejectBeaconReplay E c r sid now)) = cpVerdicts c
   \<and> cpTokenKey (fst (rejectBeaconReplay E c r sid now)) = cpTokenKey c"
proof -
  have "cpStore (fst (pseudo E (c\<lparr>cpNonces := n\<rparr>) sid sid)) = cpStore c \<and> cpEngine (fst (pseudo E (c\<lparr>cpNonces := n\<rparr>) sid sid)) = cpEngine c
   \<and> cpVerdicts (fst (pseudo E (c\<lparr>cpNonces := n\<rparr>) sid sid)) = cpVerdicts c
   \<and> cpTokenKey (fst (pseudo E (c\<lparr>cpNonces := n\<rparr>) sid sid)) = cpTokenKey c" for n
    using sameButVault_sel [OF pseudo_vault [of "c\<lparr>cpNonces := n\<rparr>" E sid sid]] by simp
  then show ?thesis by (simp add: rejectBeaconReplay_def Let_def split_beta split: prod.split bool.split)
qed

lemma cpGuard_frame:
  "cpStore (fst (cpGuard E c r ep)) = cpStore c" "cpEngine (fst (cpGuard E c r ep)) = cpEngine c"
  "cpVerdicts (fst (cpGuard E c r ep)) = cpVerdicts c"
  by (simp_all add: cpGuard_def Let_def split: option.split prod.split)

section \<open>The store of a running control plane\<close>

text \<open>Client signals never claim the server, and network signals are those of the network layer.\<close>

definition netClean :: "store \<Rightarrow> bool" where
  "netClean s \<longleftrightarrow> (\<forall>(i, st) \<in> set (sessions s). list_all (\<lambda>g. networkID (sigID g)) (nSignals (Network (sReport st))))"

lemma netClean_put:
  "netClean s \<Longrightarrow> list_all (\<lambda>g. networkID (sigID g)) (nSignals (Network (sReport st))) \<Longrightarrow> netClean (putSession s i st)"
  using set_alist_update by (fastforce simp: netClean_def putSession_def)

lemma netClean_session:
  "netClean s \<Longrightarrow> sessionOf s i = Some st \<Longrightarrow> list_all (\<lambda>g. networkID (sigID g)) (nSignals (Network (sReport st)))"
  by (auto simp: netClean_def sessionOf_def dest!: map_of_SomeD)

lemma netClean_ensure:
  "netClean s \<Longrightarrow> list_all (\<lambda>g. networkID (sigID g)) (nSignals (Network (sReport (ensureLocked s i now))))"
  using netClean_session by (auto simp: ensureLocked_def zeroState_def zeroReport_def zeroNetwork_def split: option.split)

lemma list_all_filtered: "list_all P xs \<Longrightarrow> list_all P (filter Q xs)"
  by (simp add: list_all_iff)

lemma netClean_ops:
  assumes "netClean s"
  shows "netClean (Ensure s i now)" "netClean (MergeClient s i cl now)" "netClean (SetLabel s i lb now)"
    "netClean (MergeNetwork s i (Build K obs) now)" "netClean (GCSessions s now)"
proof -
  note e = netClean_ensure [OF assms, of i now]
  show "netClean (Ensure s i now)" "netClean (MergeClient s i cl now)" "netClean (SetLabel s i lb now)"
    using assms e by (simp_all add: Ensure_def MergeClient_def SetLabel_def Let_def netClean_put)
  show "netClean (MergeNetwork s i (Build K obs) now)"
    using assms e build_network_ids [of K obs]
    by (auto simp: MergeNetwork_def Let_def appendSignals_def list_all_filtered intro!: netClean_put)
  show "netClean (GCSessions s now)" using assms by (auto simp: netClean_def GCSessions_def)
qed

lemma netClean_merge: "netClean s \<Longrightarrow> netClean (mergeBeacon E s sid q client now)"
  by (simp add: mergeBeacon_def Let_def netClean_ops)

lemma merged_session: "\<exists>st. sessionOf (mergeBeacon E s sid q client now) sid = Some st"
  by (simp add: mergeBeacon_def Let_def MergeClient_def SetLabel_def)

lemma beaconReport_session:
  "sessionOf (mergeBeacon E (cpStore c) sid q client now) sid = Some st \<Longrightarrow> beaconReport E c q sid client now = sReport st"
  by (simp add: beaconReport_def GetReport_def)

lemma beaconReport_clean:
  "netClean (cpStore c) \<Longrightarrow> list_all (\<lambda>g. networkID (sigID g)) (nSignals (Network (beaconReport E c q sid client now)))"
  using merged_session [of E "cpStore c" sid q client now] netClean_session [OF netClean_merge] beaconReport_session by metis

lemma netClean_scored: "netClean (cpStore c) \<Longrightarrow> netClean (cpStore (fst (scoreAndReply E c q sid client now)))"
  by (auto simp: scoreAndReply_parts scoreBeacon_parts StoreScored_def Score_report beaconReport_clean netClean_merge intro!: netClean_put)

lemma collectBody_clean: "netClean (cpStore c) \<Longrightarrow> netClean (cpStore (fst (collectBody E c q sid)))"
  using reject_frame [of E c "crReq q" sid "cClock E AtHandler"]
  by (auto simp: collectBody_def split_beta intro!: netClean_scored split: option.split prod.split bool.split)

lemma guarded_clean:
  assumes "netClean (cpStore c)" "\<And>c1. netClean (cpStore c1) \<Longrightarrow> netClean (cpStore (fst (k c1)))"
  shows "netClean (cpStore (fst (guarded E c r ep k)))"
  using assms cpGuard_frame(1) [of E c r ep] by (auto simp: guarded_def split_beta split: prod.split bool.split)

lemma inSession_clean:
  "(\<And>sid. netClean (cpStore (fst (k c sid)))) \<Longrightarrow> netClean (cpStore c) \<Longrightarrow> netClean (cpStore (fst (inSession E r c k)))"
  by (simp add: inSession_def split_beta split: option.split)

lemma handler_clean: "netClean (cpStore c) \<Longrightarrow> netClean (cpStore (fst (controlHandler E c q)))"
  by (auto simp: controlHandler_def handleSession_def handleCollect_def handleStepUp_def handleReadyz_def Let_def
      netClean_ops collectBody_clean sameButVault_sel [OF redeem_vault]
      intro!: guarded_clean inSession_clean)

inductive control_step :: "('sk, 'v) control_env set \<Rightarrow> 'v control_plane \<Rightarrow> 'v control_plane \<Rightarrow> bool"
  for Es :: "('sk, 'v) control_env set" where
  serve: "E \<in> Es \<Longrightarrow> control_step Es c (fst (controlHandler E c q))"
| sweep: "control_step Es c (c\<lparr>cpStore := GCSessions (cpStore c) now\<rparr>)"
| observers: "control_step Es c (ControlGC c now)"
| drain: "control_step Es c (SetReady c b)"

text \<open>A control plane as the gate starts it: an empty session store.\<close>

inductive control_reachable :: "('sk, 'v) control_env set \<Rightarrow> 'v control_plane \<Rightarrow> bool"
  for Es :: "('sk, 'v) control_env set" where
  start: "cpStore c = NewStore ttl \<Longrightarrow> control_reachable Es c"
| step: "control_reachable Es c \<Longrightarrow> control_step Es c c' \<Longrightarrow> control_reachable Es c'"

lemma step_clean: "control_step Es c c' \<Longrightarrow> netClean (cpStore c) \<Longrightarrow> netClean (cpStore c')"
  by (induction rule: control_step.induct) (simp_all add: handler_clean netClean_ops ControlGC_def SetReady_def)

lemma reachable_clean: "control_reachable Es c \<Longrightarrow> netClean (cpStore c)"
proof (induction rule: control_reachable.induct)
  case (start c ttl)
  then show ?case by (simp add: netClean_def NewStore_def)
qed (rule step_clean)

section \<open>Earning an ALLOW\<close>

lemma no_upgrade:
  assumes "list_all (\<lambda>g. networkID (sigID g)) (nSignals (Network r))"
  shows "upgraded r vf = vf"
proof -
  have "sigID g \<noteq> ''l7.pow.solved'' \<and> sigID g \<noteq> ''l7.pass.solved''" if "g \<in> set (nSignals (Network r))" for g
  proof -
    have "networkID (sigID g)" using assms that by (simp add: list_all_iff)
    then show ?thesis by (auto simp: networkID_def hasPrefix_def)
  qed
  then show ?thesis by (auto simp: upgraded_def hasServerSignal_def)
qed

lemma no_rule_matches: "hvVerdict (applyPromotionRules c) = [] \<longleftrightarrow> (\<forall>ru \<in> set promotionRules. \<not> enforcedMatch c ru)"
proof (cases "filter (enforcedMatch c) promotionRules")
  case Nil
  then show ?thesis by (auto simp: applyPromotionRules_def firstRule_filter filter_empty_conv)
next
  case (Cons d ds)
  then have "d \<in> set (filter (enforcedMatch c) promotionRules)" by simp
  then have d: "d \<in> set promotionRules" "enforcedMatch c d" by simp_all
  then have "prVerdict d \<noteq> []" using rule_verdicts [of d] by (auto simp: engine_verdict_defs)
  then show ?thesis using Cons d by (auto simp: applyPromotionRules_def firstRule_filter)
qed

definition earnedAllow :: "score_env \<Rightarrow> engine \<Rightarrow> session_report \<Rightarrow> bool" where
  "earnedAllow E e r \<longleftrightarrow>
     riskOf E e r < polChallengeAt (Policy e) \<and> riskOf E e r < polDenyAt (Policy e)
     \<and> (\<forall>ru \<in> set promotionRules. \<not> enforcedMatch (contextOf E e r) ru)"

lemma allow_earned:
  assumes "goMapOrder E" "list_all (\<lambda>g. networkID (sigID g)) (nSignals (Network r))"
  shows "resVerdict (snd (Scoring.Score E e r)) = ScoreAllow \<longleftrightarrow> earnedAllow E e r"
proof -
  let ?h = "applyPromotionRules (contextOf E e r)"
  have v: "resVerdict (snd (Scoring.Score E e r)) =
      (if hvVerdict ?h \<noteq> [] then hvVerdict ?h else verdictFor (Policy e) (riskOf E e r))"
    using Score_verdict [of E e r] Combine_riskOf [OF assms(1), of e r]
    by (auto simp: verdictOf_def Let_def no_upgrade [OF assms(2)] split: if_splits)
  show ?thesis
    using hard_verdict_cases [of "contextOf E e r"] no_rule_matches [of "contextOf E e r"]
    by (auto simp: v earnedAllow_def verdictFor_def engine_verdict_defs split: if_splits)
qed

lemma contextOf_cong:
  assumes "Client r = Client r'" "Network r = Network r'"
  shows "contextOf E e r = contextOf E e r'"
proof -
  have "CrossChecks E r = CrossChecks E r'"
    unfolding CrossChecks_def uachMatchesJS_def Let_def by (simp only: assms)
  then show ?thesis by (simp add: contextOf_def assemble_def Let_def AllSignals_def hasClientReport_def assms)
qed

lemma earnedAllow_scored: "earnedAllow E e (fst (Scoring.Score E e r)) = earnedAllow E e r"
proof -
  have same: "Client (fst (Scoring.Score E e r)) = Client r" "Network (fst (Scoring.Score E e r)) = Network r"
    by (rule Score_report)+
  have "contextOf E e (fst (Scoring.Score E e r)) = contextOf E e r"
    by (rule contextOf_cong) (simp_all add: same)
  moreover have "riskOf E e (fst (Scoring.Score E e r)) = riskOf E e r"
    by (rule riskOf_cong) (simp_all add: same)
  ultimately show ?thesis by (simp add: earnedAllow_def)
qed

section \<open>Verdicts and tokens in the effects\<close>

definition telling :: "control_event \<Rightarrow> bool" where
  "telling ev \<longleftrightarrow> (case ev of SetCookie k v \<Rightarrow> k = verdictCookie | Reply (VerdictJSON sid rk v hr) \<Rightarrow> True | _ \<Rightarrow> False)"

lemma cookie_names: "sessionCookie \<noteq> verdictCookie" "stepUpCookie \<noteq> verdictCookie"
  by (simp_all add: verdictCookie_def sessionCookie_def stepUpCookie_def)

lemma telling_simps [simp]:
  "\<not> telling (Sealed r)" "\<not> telling (SetHeader k v)" "\<not> telling (Reply (HttpError n t))" "\<not> telling (Reply (SessionJSON t))"
  "\<not> telling (Reply OkJSON)" "\<not> telling (Reply (StatusJSON n t))" "\<not> telling (Reply LoaderJS)" "\<not> telling (Reply NoContent)"
  "\<not> telling Panicked" "telling (SetCookie k v) \<longleftrightarrow> k = verdictCookie" "telling (Reply (VerdictJSON t rk v hr))"
  by (simp_all add: telling_def)

lemma quiet_residuals [simp]: "filter telling (snd (emitResiduals E c sid psn ars)) = []"
  by (induction ars arbitrary: c) (simp_all add: split_beta)

lemma quiet_audit [simp]: "filter telling (snd (linkAndAuditScoring E c sid r res)) = []"
  by (simp add: linkAndAuditScoring_def emitNetworkResidualAudit_def split_beta split: option.split)

lemma quiet_guard [simp]: "filter telling (fst (snd (cpGuard E c r ep))) = []"
  by (simp add: cpGuard_def Let_def split: option.split prod.split)

lemma quiet_reject [simp]: "filter telling (fst (snd (rejectBeaconReplay E c r sid now))) = []"
  by (simp add: rejectBeaconReplay_def Let_def split_beta split: prod.split bool.split)

lemma quiet_session [simp]: "ensureSession E r = Some (sid, evs) \<Longrightarrow> filter telling evs = []"
  by (auto simp: ensureSession_def cookie_names split: if_splits option.splits)

lemma quiet_redeem [simp]: "filter telling (snd (redeemReceipt E c r sid)) = []"
  by (simp add: redeemReceipt_def Let_def split_beta cookie_names)

definition beaconToken ::
  "('sk, 'v) control_env \<Rightarrow> 'v control_plane \<Rightarrow> control_request \<Rightarrow> string \<Rightarrow> int \<Rightarrow> string" where
  "beaconToken E c q sid now = issueVerdictToken (cP E) (cpTokenKey c) sid (tokenBind (cP E) (crReq q))
     (tokEpoch c (cClock E AtEpoch)) (now + tokenLife)"

lemma tellings_scored:
  "filter telling (snd (scoreAndReply E c q sid client now)) =
     (let res = beaconResult E c q sid client now
      in (if resVerdict res = ''ALLOW'' \<and> cpTokenKey c \<noteq> [] then [SetCookie verdictCookie (beaconToken E c q sid now)] else [])
         @ [Reply (VerdictJSON sid (resRiskScore res) (resVerdict res) (HardRuleFired res))])"
  by (simp add: scoreAndReply_def split_beta scoreBeacon_parts issueVerdictTokenOnAllow_def updateStickyVerdict_def
      tokEpoch_def beaconToken_def Let_def split: option.split)

text \<open>A verdict or a verdict cookie is only told by a beacon that was scored.\<close>

definition wiring :: "'v control_plane \<Rightarrow> bytes \<times> string \<times> epoch_manager option \<times> (engine \<Rightarrow> engine) option" where
  "wiring c = (cpTokenKey c, cpEpoch c, cpTokenEpochs c, configureEngine c)"

definition scoredFrom ::
  "('sk, 'v) control_env \<Rightarrow> 'v control_plane \<Rightarrow> control_request \<Rightarrow> 'v handled \<Rightarrow> 'v control_plane \<Rightarrow> string \<Rightarrow> client_report \<Rightarrow> bool" where
  "scoredFrom E c q h c1 sid client \<longleftrightarrow>
     cpStore c1 = cpStore c \<and> cpEngine c1 = cpEngine c \<and> cpVerdicts c1 = cpVerdicts c \<and> wiring c1 = wiring c
     \<and> fst h = fst (scoreAndReply E c1 q sid client (cClock E AtHandler))
     \<and> filter telling (snd h) = filter telling (snd (scoreAndReply E c1 q sid client (cClock E AtHandler)))"

lemma reject_wiring: "wiring (fst (rejectBeaconReplay E c r sid now)) = wiring c"
  by (simp add: wiring_def rejectBeaconReplay_def pseudo_def Let_def split: option.split prod.split bool.split)

lemma guard_wiring: "wiring (fst (cpGuard E c r ep)) = wiring c"
  by (simp add: wiring_def cpGuard_def Let_def split: option.split prod.split)

lemma collectBody_scored:
  assumes "filter telling (snd (collectBody E c q sid)) \<noteq> []"
  shows "\<exists>c1 client. scoredFrom E c q (collectBody E c q sid) c1 sid client"
proof -
  let ?c1 = "fst (rejectBeaconReplay E c (crReq q) sid (cClock E AtHandler))"
  obtain client where "fst (collectBody E c q sid) = fst (scoreAndReply E ?c1 q sid client (cClock E AtHandler))"
      "filter telling (snd (collectBody E c q sid)) = filter telling (snd (scoreAndReply E ?c1 q sid client (cClock E AtHandler)))"
    using assms by (auto simp: collectBody_def split_beta split: option.splits if_splits bool.splits)
  then show ?thesis
    using reject_frame [of E c "crReq q" sid "cClock E AtHandler"] reject_wiring [of E c "crReq q" sid "cClock E AtHandler"]
    unfolding scoredFrom_def by blast
qed

lemma quiet_others:
  "filter telling (snd (handleSession E c q)) = []" "filter telling (snd (handleStepUp E c q)) = []"
  by (auto simp: handleSession_def handleStepUp_def guarded_def inSession_def split_beta split: option.split bool.split)

lemma handler_scored:
  assumes "ev \<in> set (snd (controlHandler E c q))" "telling ev"
  shows "\<exists>c1 sid client. scoredFrom E c q (controlHandler E c q) c1 sid client"
proof -
  let ?c1 = "fst (cpGuard E c (crReq q) ''collect'')"
  have tell: "filter telling (snd (controlHandler E c q)) \<noteq> []" using assms by (auto simp: filter_empty_conv)
  then have h: "controlHandler E c q = handleCollect E c q"
    by (auto simp: controlHandler_def handleReadyz_def quiet_others Let_def split: if_splits)
  obtain sid where "fst (handleCollect E c q) = fst (collectBody E ?c1 q sid)"
      "filter telling (snd (handleCollect E c q)) = filter telling (snd (collectBody E ?c1 q sid))"
    using tell unfolding h
    by (auto simp: handleCollect_def guarded_def inSession_def split_beta split: option.splits bool.splits if_splits)
  then show ?thesis
    using collectBody_scored [of E ?c1 q sid] tell cpGuard_frame [of E c "crReq q" "''collect''"] guard_wiring [of E c "crReq q" "''collect''"]
    unfolding h scoredFrom_def by metis
qed

section \<open>Properties\<close>

text \<open>
  C14: the control plane never hands out a verdict token a session did not earn.  In every control
  plane reached from a fresh start by serving any requests, sweeping and draining, a request that is answered with
  a verdict cookie was scored from its stored report: no rule in force matches it and its risk is below both
  thresholds.  No client report reaches the upgrades that turn a CHALLENGE into an ALLOW.
\<close>

theorem allow_is_earned:
  assumes "control_reachable Es c" "goMapOrder (cScore E)" "controlHandler E c q = (c', evs)"
    and "SetCookie verdictCookie tok \<in> set evs"
  shows "\<exists>sid rep. tok = beaconToken E c q sid (cClock E AtHandler)
           \<and> GetReport (cpStore c') sid = Some rep \<and> earnedAllow (cScore E) (cpEngine c') rep"
proof -
  have tell: "SetCookie verdictCookie tok \<in> set (filter telling evs)" using assms(4) by simp
  obtain c1 sid client where sf: "scoredFrom E c q (c', evs) c1 sid client"
    using handler_scored [of "SetCookie verdictCookie tok" E c q] assms(3,4) by auto
  then have w: "wiring c1 = wiring c" and c1: "cpStore c1 = cpStore c" "cpEngine c' = configured c1"
      "cpStore c' = cpStore (fst (scoreAndReply E c1 q sid client (cClock E AtHandler)))"
    by (simp_all add: scoredFrom_def scoreAndReply_parts)
  have "resVerdict (beaconResult E c1 q sid client (cClock E AtHandler)) = ''ALLOW''
      \<and> tok = beaconToken E c1 q sid (cClock E AtHandler)"
    using tell sf unfolding scoredFrom_def snd_conv tellings_scored Let_def by (auto simp del: set_filter split: if_splits)
  note tok = conjunct1 [OF this] conjunct2 [OF this]
  let ?r = "beaconReport E c1 q sid client (cClock E AtHandler)"
  have clean: "netClean (cpStore c1)" using reachable_clean [OF assms(1)] c1(1) by simp
  have "earnedAllow (cScore E) (cpEngine c') ?r"
    using allow_earned [OF assms(2) beaconReport_clean [OF clean, of E q sid client "cClock E AtHandler"]] c1(2) tok(1) by (simp add: beaconResult_def ScoreAllow_def)
  moreover have "GetReport (cpStore c') sid = Some (fst (Scoring.Score (cScore E) (configured c1) ?r))"
    by (simp add: c1(3) scoreAndReply_parts scoreBeacon_parts StoreScored_def GetReport_def)
  moreover have "tok = beaconToken E c q sid (cClock E AtHandler)"
    using tok(2) w by (simp add: beaconToken_def wiring_def tokEpoch_def split: option.split)
  ultimately show ?thesis using c1(2) earnedAllow_scored by metis
qed

text \<open>A control plane and a beacon for the witnesses; the overlay of the engine disarms the rules.\<close>

definition exReq :: request where
  "exReq = \<lparr>rMethod = ''POST'', rPath = ''/collect'', rHost = ''h'', rHeader = [(''User-Agent'', [''Mozilla/5.0''])],
     rCookies = [(''hsid'', ''s1'')], rContentLength = 2, rClientIP = ''192.0.2.1'', rSubnet = ''192.0.2.0/24''\<rparr>"

definition exBeacon :: control_request where
  "exBeacon = \<lparr>crReq = exReq, crProtoMajor = 2, crBody = Some ''{}'', crLabel = []\<rparr>"

definition laxEngine :: engine where
  "laxEngine = NewEngine\<lparr>Policy := DefaultPolicy\<lparr>polChallengeAt := 101, polDenyAt := 101\<rparr>,
     RuleModes := Some (map (\<lambda>ru. (prID ru, ''off'')) promotionRules)\<rparr>"

definition exControlEnv :: "(bytes, verdict_store) control_env" where
  "exControlEnv = \<lparr>cP = toyPrims, cKdf = (\<lambda>_ _. None), cFresh = [], cRandom = None, cVer = memVerdictOps,
     cScore = exEnv, cHashes = exHashes, cParse = (\<lambda>_. Some zeroClient), cClock = (\<lambda>_. 7)\<rparr>"

definition exControl :: "engine \<Rightarrow> verdict_store control_plane" where
  "exControl e = WithTokenKey (NewControlPlane (NewStore 60) e (NewVerdictStore 5000) None) ''key''"

lemma laxEngine_earned: "earnedAllow E laxEngine r"
proof -
  have "ruleModeOf (RuleModes laxEngine) (prID ru) = ''off''" if "ru \<in> set promotionRules" for ru
  proof -
    have "(prID ru, ''off'') \<in> set (map (\<lambda>ru. (prID ru, ''off'')) promotionRules)" using that by auto
    then obtain v where v: "map_of (map (\<lambda>ru. (prID ru, ''off'')) promotionRules) (prID ru) = Some v"
      by (metis weak_map_of_SomeI)
    then have "v = ''off''" by (auto dest!: map_of_SomeD)
    then show ?thesis using v by (simp add: ruleModeOf_def laxEngine_def)
  qed
  then have "\<not> enforcedMatch (contextOf E laxEngine r) ru" if "ru \<in> set promotionRules" for ru
    using that by (simp add: enforcedMatch_def demoted_def context_modes)
  moreover have "riskOf E laxEngine r \<le> 100" by (simp add: riskOf_def riskSpec_bounds)
  ultimately show ?thesis by (simp add: earnedAllow_def laxEngine_def NewEngine_def)
qed

definition exGuarded :: "engine \<Rightarrow> verdict_store control_plane" where
  "exGuarded e = fst (cpGuard exControlEnv (exControl e) exReq ''collect'')"

definition exClient :: client_report where
  "exClient = zeroClient\<lparr>cSessionID := ''s1''\<rparr>"

lemma exGuarded_facts:
  "cpTokenKey (exGuarded e) = ''key''" "configured (exGuarded e) = e" "netClean (cpStore (exGuarded e))"
  by (simp_all add: exGuarded_def cpGuard_def exControl_def NewControlPlane_def WithTokenKey_def configured_def Let_def netClean_def
      NewStore_def split: prod.split)

lemma exBeacon_tellings:
  "filter telling (snd (controlHandler exControlEnv (exControl e) exBeacon))
     = filter telling (snd (scoreAndReply exControlEnv (exGuarded e) exBeacon ''s1'' exClient 7))"
proof -
  have guard: "\<not> snd (snd (cpGuard exControlEnv (exControl e) exReq ''collect''))"
    by (simp add: cpGuard_def exControl_def NewControlPlane_def WithTokenKey_def NewLimiter_def Observe_def Level_def Let_def hitsOf_def)
  have sid: "ensureSession exControlEnv exReq = Some (''s1'', [])"
    by (simp add: ensureSession_def sessionID_def cookie_def exReq_def)
  have body: "collectBody exControlEnv (exGuarded e) exBeacon ''s1'' = scoreAndReply exControlEnv (exGuarded e) exBeacon ''s1'' exClient 7"
    by (simp add: collectBody_def exBeacon_def parseControlClient_def exControlEnv_def rejectBeaconReplay_def hGet_def hValues_def exReq_def
        maxBeacon_def exClient_def Let_def split_beta)
  have "crReq exBeacon = exReq" "rPath exReq = ''/collect''" "rMethod exReq = ''POST''" by (simp_all add: exBeacon_def exReq_def)
  then show ?thesis
    using guard sid body
    by (simp add: controlHandler_def handleCollect_def guarded_def inSession_def split_beta exGuarded_def Let_def del: set_filter)
qed

lemma exBeacon_token: "beaconToken exControlEnv (exGuarded e) exBeacon ''s1'' 7 = beaconToken exControlEnv (exControl e) exBeacon ''s1'' 7"
  using guard_wiring [of exControlEnv "exControl e" exReq "''collect''"]
  by (simp add: beaconToken_def tokEpoch_def wiring_def exGuarded_def split: option.split)

lemma exControl_cookie:
  "SetCookie verdictCookie (beaconToken exControlEnv (exControl laxEngine) exBeacon ''s1'' 7)
     \<in> set (snd (controlHandler exControlEnv (exControl laxEngine) exBeacon))"
proof -
  have sc: "cScore exControlEnv = exEnv" by (simp add: exControlEnv_def)
  have "resVerdict (beaconResult exControlEnv (exGuarded laxEngine) exBeacon ''s1'' exClient 7) = ''ALLOW''"
    using allow_earned [OF exEnv_order beaconReport_clean [OF exGuarded_facts(3) [of laxEngine], of exControlEnv exBeacon "''s1''" exClient 7], of laxEngine]
      laxEngine_earned by (simp add: beaconResult_def exGuarded_facts ScoreAllow_def sc)
  then have "SetCookie verdictCookie (beaconToken exControlEnv (exControl laxEngine) exBeacon ''s1'' 7)
      \<in> set (filter telling (snd (controlHandler exControlEnv (exControl laxEngine) exBeacon)))"
    unfolding exBeacon_tellings tellings_scored by (simp add: Let_def exGuarded_facts exBeacon_token del: set_filter)
  then show ?thesis by simp
qed

theorem allow_is_earned_witness:
  "\<exists>sid rep. beaconToken exControlEnv (exControl laxEngine) exBeacon ''s1'' 7
        = beaconToken exControlEnv (exControl laxEngine) exBeacon sid (cClock exControlEnv AtHandler)
     \<and> GetReport (cpStore (fst (controlHandler exControlEnv (exControl laxEngine) exBeacon))) sid = Some rep
     \<and> earnedAllow (cScore exControlEnv) (cpEngine (fst (controlHandler exControlEnv (exControl laxEngine) exBeacon))) rep"
proof (rule allow_is_earned)
  show "control_reachable {exControlEnv} (exControl laxEngine)"
    by (rule control_reachable.start [of _ 60]) (simp add: exControl_def NewControlPlane_def WithTokenKey_def)
  show "goMapOrder (cScore exControlEnv)" by (simp add: exControlEnv_def exEnv_order)
  show "controlHandler exControlEnv (exControl laxEngine) exBeacon
      = (fst (controlHandler exControlEnv (exControl laxEngine) exBeacon), snd (controlHandler exControlEnv (exControl laxEngine) exBeacon))"
    by simp
qed (rule exControl_cookie)

lemma upgraded_range: "fst (upgraded r vf) = ScoreAllow \<or> upgraded r vf = vf"
  by (simp add: upgraded_def)

lemma Score_verdict_range: "resVerdict (snd (Scoring.Score E e r)) \<in> {ScoreAllow, ScoreChallenge, ScoreDeny}"
proof -
  define vf where "vf = (let hard = applyPromotionRules (contextOf E e r)
    in if hvVerdict hard \<noteq> [] then (hvVerdict hard, hvRule hard)
       else (verdictFor (Policy e) (Combine E (contributionsOf E e r) (Policy e)), []))"
  have "verdictOf E e r = upgraded r vf" by (simp add: verdictOf_def vf_def Let_def)
  then have v: "resVerdict (snd (Scoring.Score E e r)) = fst (upgraded r vf)" using Score_verdict [of E e r] by (metis fst_conv)
  have "fst vf \<in> {ScoreAllow, ScoreChallenge, ScoreDeny}"
    using hard_verdict_cases [of "contextOf E e r"] by (auto simp: vf_def Let_def verdictFor_def)
  then show ?thesis using v upgraded_range [of r vf] by auto
qed

lemma stored_verdict:
  assumes "cVer E = memVerdictOps" "length (vmap (cpVerdicts c)) < maxVerdicts" "t - now \<le> vttl (cpVerdicts c)" "0 \<le> vttl (cpVerdicts c)"
  shows "GetVerdict (cpVerdicts (fst (scoreAndReply E c q sid client now))) sid t = beaconSticky (beaconResult E c q sid client now) now"
  using assms timeSub_le [OF assms(3,4)]
  by (simp add: scoreAndReply_parts memVerdictOps_def SetVerdict_def GetVerdict_def update_conv' beaconSticky_def)

lemma denied_not_justified:
  assumes "verdict (stickyOf G s (sessionID r)) \<in> {VerdictDeny, VerdictChallenge}"
    and "\<not> credentialed G s r" "\<not> hasValidToken G s r (gClock G AtToken)"
  shows "\<not> justified G s r route"
  using assms by (auto simp: justified_def Let_def verdict_defs)

text \<open>
  C15: what the beacon decides, the edge enforces.  When \<open>/collect\<close> answers a session with
  CHALLENGE or DENY, then for as long as the shared ledger keeps the verdict, no request of that session is forwarded on
  an enforcing route, unless it carries a verified credential or a verdict token that is still valid.
\<close>

theorem beacon_verdict_enforced:
  assumes "controlHandler E c q = (c', evs)" "Reply (VerdictJSON sid rk v hr) \<in> set evs" "v \<noteq> ''ALLOW''"
    and "cVer E = memVerdictOps" "length (vmap (cpVerdicts c)) < maxVerdicts" "0 \<le> vttl (cpVerdicts c)"
    and "verdicts s = cpVerdicts c'" "gVer G = memVerdictOps" "overlayStore s = None" "gBan G = memBanOps" "bansOf s = Some b"
    and "sessionID r = sid" "gClock G AtSweep - cClock E AtHandler \<le> vttl (cpVerdicts c)"
    and "enforcing s route" "\<not> credentialed G s r" "\<not> hasValidToken G s r (gClock G AtToken)"
  shows "Act (Forward r' route) \<notin> set (stepEvents (ServeHTTP G s r))"
proof
  assume fw: "Act (Forward r' route) \<in> set (stepEvents (ServeHTTP G s r))"
  have tell: "Reply (VerdictJSON sid rk v hr) \<in> set (filter telling evs)" using assms(2) by simp
  obtain c1 sid' client where sf: "scoredFrom E c q (c', evs) c1 sid' client"
    using handler_scored [of "Reply (VerdictJSON sid rk v hr)" E c q] assms(1,2) by auto
  let ?res = "beaconResult E c1 q sid' client (cClock E AtHandler)"
  have res: "sid' = sid" "v = resVerdict ?res"
    using tell sf unfolding scoredFrom_def snd_conv tellings_scored Let_def by (auto simp del: set_filter split: if_splits)
  have "stickyOf G s sid = beaconSticky ?res (cClock E AtHandler)"
    using stored_verdict [of E c1 "gClock G AtSweep" "cClock E AtHandler" q sid client] sf res(1) assms(4-8,13)
    by (simp add: scoredFrom_def stickyOf_def memVerdictOps_def)
  moreover have "v = ''CHALLENGE'' \<or> v = ''DENY''"
    using Score_verdict_range [of "cScore E" "configured c1" "beaconReport E c1 q sid' client (cClock E AtHandler)"] res(2) assms(3)
    by (auto simp: beaconResult_def engine_verdict_defs)
  ultimately have "verdict (stickyOf G s (sessionID r)) \<in> {VerdictDeny, VerdictChallenge}"
    using res(2) assms(12) by (auto simp: beaconSticky_def mapVerdict_def)
  then have "\<not> justified G s r route" using denied_not_justified assms(15,16) by blast
  then show False using forwarded_justified [OF fw assms(9-11)] assms(14) by blast
qed

text \<open>An engine that denies every session, and a payment in the denied session.\<close>

definition denyEngine :: engine where
  "denyEngine = laxEngine\<lparr>Policy := DefaultPolicy\<lparr>polDenyAt := 0\<rparr>\<rparr>"

definition exDenied :: "verdict_store control_plane \<times> control_event list" where
  "exDenied = controlHandler exControlEnv (exControl denyEngine) exBeacon"

lemma deny_result: "resVerdict (beaconResult exControlEnv (exGuarded denyEngine) exBeacon ''s1'' exClient 7) \<noteq> ''ALLOW''"
proof -
  have "0 \<le> riskOf exEnv denyEngine r" for r by (simp add: riskOf_def riskSpec_bounds)
  then have "\<not> earnedAllow exEnv denyEngine r" for r
    unfolding earnedAllow_def by (simp add: denyEngine_def not_less)
  then show ?thesis
    using allow_earned [OF exEnv_order beaconReport_clean [OF exGuarded_facts(3) [of denyEngine], of exControlEnv exBeacon "''s1''" exClient 7], of denyEngine]
    by (simp add: beaconResult_def exGuarded_facts ScoreAllow_def exControlEnv_def)
qed

definition exDeniedServer :: "(limiter ban_store, verdict_store) server" where
  "exDeniedServer = exServer\<lparr>verdicts := cpVerdicts (fst exDenied)\<rparr>"

definition exDeniedPayment :: request where
  "exDeniedPayment = exPayment\<lparr>rCookies := [(''hsid'', ''s1'')]\<rparr>"

theorem beacon_verdict_enforced_witness:
  "Act (Forward exDeniedPayment presetStrict) \<notin> set (stepEvents (ServeHTTP exGateEnv exDeniedServer exDeniedPayment))"
proof -
  let ?res = "beaconResult exControlEnv (exGuarded denyEngine) exBeacon ''s1'' exClient 7"
  let ?rep = "Reply (VerdictJSON ''s1'' (resRiskScore ?res) (resVerdict ?res) (HardRuleFired ?res))"
  have "?rep \<in> set (filter telling (snd exDenied))"
    unfolding exDenied_def exBeacon_tellings tellings_scored by (simp add: Let_def del: set_filter)
  then have rep: "?rep \<in> set (snd exDenied)" by simp
  have run: "controlHandler exControlEnv (exControl denyEngine) exBeacon = (fst exDenied, snd exDenied)" by (simp add: exDenied_def)
  show ?thesis
    by (rule beacon_verdict_enforced [OF run rep deny_result, where b = "NewBanStore 10000000000 60 120"])
       (simp_all add: exControlEnv_def exControl_def NewControlPlane_def WithTokenKey_def NewVerdictStore_def maxVerdicts_def
        exDeniedServer_def exGateEnv_def exServer_def exDeniedPayment_def exPayment_def sessionID_def cookie_def enforcing_def monitorOn_def
        presetStrict_def credentialed_def agentTrusted_def patTrusted_def webauthnTrusted_def hasValidToken_def verdictCookie_def)
qed

end
