(* ===== verification/ControlLimits.thy ===== *)
theory ControlLimits
  imports ControlProps
begin

text \<open>
  Where the control plane does not bound what a client can make it do: the flood limiter's table, the audit
  records of accumulated residuals, and the sampling of the flood record.
\<close>

section \<open>Bounds that are missing\<close>

text \<open>The table of the flood limiter only grows: no step of the control plane removes a client address.\<close>

lemma observe_grows: "dom (lhits l) \<subseteq> dom (lhits (fst (Observe l k now)))"
  by (auto simp: Observe_def Let_def)

definition limiterGrows :: "'v control_plane \<Rightarrow> 'v control_plane \<Rightarrow> bool" where
  "limiterGrows c c' \<longleftrightarrow>
     (\<forall>l. climiter c = Some l \<longrightarrow> (\<exists>l'. climiter c' = Some l' \<and> dom (lhits l) \<subseteq> dom (lhits l')))"

lemma guard_limiter: "limiterGrows c (fst (cpGuard E c r ep))"
proof -
  have "dom (lhits l) \<subseteq> dom (lhits l')" if "Observe l k now = (l', n)" for l l' k now n
    using observe_grows [of l k now] that by simp
  then show ?thesis by (auto simp: limiterGrows_def cpGuard_def Let_def split: option.split prod.split)
qed

lemma limiter_only_guard:
  "climiter (fst (collectBody E c q sid)) = climiter c" "climiter (fst (redeemReceipt E c r sid)) = climiter c"
proof -
  have "climiter (fst (rejectBeaconReplay E c (crReq q) sid now)) = climiter c" for now
    by (simp add: rejectBeaconReplay_def pseudo_def Let_def split: option.split prod.split bool.split)
  then show "climiter (fst (collectBody E c q sid)) = climiter c"
    by (simp add: collectBody_def split_beta scoreAndReply_parts split: option.split bool.split)
  show "climiter (fst (redeemReceipt E c r sid)) = climiter c" using sameButVault_sel [OF redeem_vault] by blast
qed

lemma guarded_limiter:
  "(\<And>c1. climiter (fst (k c1)) = climiter c1) \<Longrightarrow> limiterGrows c (fst (guarded E c r ep k))"
  using guard_limiter [of c E r ep] by (simp add: guarded_def limiterGrows_def split_beta split: bool.split)

lemma inSession_limiter:
  "(\<And>sid. climiter (fst (k c sid)) = climiter c) \<Longrightarrow> climiter (fst (inSession E r c k)) = climiter c"
  by (simp add: inSession_def split_beta split: option.split)

theorem limiter_never_swept:
  assumes "control_step Es c c'"
  shows "limiterGrows c c'"
  using assms
proof (induction rule: control_step.induct)
  case (serve E c q)
  have "limiterGrows c (fst (handleSession E c q))" "limiterGrows c (fst (handleCollect E c q))" "limiterGrows c (fst (handleStepUp E c q))"
    by (auto simp: handleSession_def handleCollect_def handleStepUp_def limiter_only_guard
        intro!: guarded_limiter inSession_limiter) (auto simp: limiterGrows_def)
  then show ?case by (auto simp: controlHandler_def handleReadyz_def Let_def limiterGrows_def)
qed (auto simp: limiterGrows_def ControlGC_def SetReady_def)

text \<open>
  The residuals of a session accumulate: each later observation appends its request-scoped residuals to the
  pinned report, and every beacon seals one record for each residual of the whole report.
\<close>

definition hopsIn :: "network_report \<Rightarrow> nat" where
  "hopsIn n = length (filter (\<lambda>g. sigID g = ''l5.header.proxy_hop'') (nSignals n))"

definition hopRecords :: "control_event list \<Rightarrow> nat" where
  "hopRecords evs = length (filter (\<lambda>ev. \<exists>r. ev = Sealed r \<and> EventType r = ''net.proxy.hop'') evs)"

lemma hopRecords_simps [simp]:
  "hopRecords [] = 0" "hopRecords (xs @ ys) = hopRecords xs + hopRecords ys"
  "hopRecords (Sealed r # xs) = (if EventType r = ''net.proxy.hop'' then 1 else 0) + hopRecords xs"
  by (simp_all add: hopRecords_def)

lemma hops_emitted:
  "hopRecords (snd (emitResiduals E c sid psn ars)) = length (filter (\<lambda>ar. narEventType ar = ''net.proxy.hop'') ars)"
  by (induction ars arbitrary: c) (auto simp: split_beta residualRecord_def subjectActor_def controlRecord_def)

lemma length_filter_mono: "(\<And>x. P x \<Longrightarrow> Q x) \<Longrightarrow> length (filter P xs) \<le> length (filter Q xs)"
  by (induction xs) (auto simp: le_SucI)

lemma hops_audited:
  "hopsIn n \<le> length (filter (\<lambda>ar. narEventType ar = ''net.proxy.hop'') (AuditRecordsFromSignals (nSignals n)))"
proof -
  have "AuditEventFor ''l5.header.proxy_hop'' = ''net.proxy.hop''" by (simp add: AuditEventFor_def auditEvents_def)
  then have "hopsIn n \<le> length (filter (\<lambda>g. AuditEventFor (sigID g) \<noteq> [] \<and> AuditEventFor (sigID g) = ''net.proxy.hop'') (nSignals n))"
    unfolding hopsIn_def by (intro length_filter_mono) auto
  then show ?thesis by (simp add: AuditRecordsFromSignals_def filter_map comp_def)
qed

lemma hop_built:
  assumes "ProxyHopKind (headerInfo q) \<noteq> []"
  shows "1 \<le> hopsIn (Build K (beaconObservation q))"
    "1 \<le> length (filter (\<lambda>g. sigID g = ''l5.header.proxy_hop'')
            (filter (\<lambda>g. requestScopedNetwork (sigID g)) (nSignals (Build K (beaconObservation q)))))"
proof -
  have "\<exists>g \<in> set (hopSignals (headerInfo q)). sigID g = ''l5.header.proxy_hop''"
    using assms by (simp add: hopSignals_def Let_def addIf_def)
  then obtain g where g: "g \<in> set (nSignals (Build K (beaconObservation q)))" "sigID g = ''l5.header.proxy_hop''"
    by (auto simp: Build_def Let_def beaconObservation_def)
  then have "filter (\<lambda>g. sigID g = ''l5.header.proxy_hop'') (nSignals (Build K (beaconObservation q))) \<noteq> []"
    by (auto simp: filter_empty_conv)
  then show "1 \<le> hopsIn (Build K (beaconObservation q))" by (simp add: hopsIn_def Suc_le_eq)
  have "filter (\<lambda>g. sigID g = ''l5.header.proxy_hop'')
      (filter (\<lambda>g. requestScopedNetwork (sigID g)) (nSignals (Build K (beaconObservation q)))) \<noteq> []"
    using g by (auto simp: filter_empty_conv requestScopedNetwork_def)
  then show "1 \<le> length (filter (\<lambda>g. sigID g = ''l5.header.proxy_hop'')
      (filter (\<lambda>g. requestScopedNetwork (sigID g)) (nSignals (Build K (beaconObservation q)))))" by (simp add: Suc_le_eq)
qed

text \<open>The hops of a pinned session, zero before.\<close>

definition pinnedHops :: "store \<Rightarrow> string \<Rightarrow> nat" where
  "pinnedHops s i = (case sessionOf s i of Some st \<Rightarrow> if netPinned st then hopsIn (Network (sReport st)) else 0 | None \<Rightarrow> 0)"

lemma merge_hops:
  assumes "ProxyHopKind (headerInfo q) \<noteq> []"
  shows "\<exists>st. sessionOf (mergeBeacon E s sid q client now) sid = Some st \<and> netPinned st
           \<and> Suc (pinnedHops s sid) \<le> hopsIn (Network (sReport st))"
  using hop_built [OF assms, of "cHashes E"]
  by (auto simp: mergeBeacon_def MergeNetwork_def MergeClient_def SetLabel_def Let_def ensureLocked_def pinnedHops_def hopsIn_def
      appendSignals_def zeroState_def split: option.split)

lemma scored_hops:
  assumes "ProxyHopKind (headerInfo q) \<noteq> []"
  shows "Suc (pinnedHops (cpStore c) sid) \<le> pinnedHops (cpStore (fst (scoreAndReply E c q sid client now))) sid"
proof -
  obtain st where st: "sessionOf (mergeBeacon E (cpStore c) sid q client now) sid = Some st" "netPinned st"
      "Suc (pinnedHops (cpStore c) sid) \<le> hopsIn (Network (sReport st))"
    using merge_hops [OF assms] by blast
  then show ?thesis
    by (simp add: scoreAndReply_parts scoreBeacon_parts StoreScored_def ensureLocked_def pinnedHops_def Score_report
        beaconReport_session [OF st(1)])
qed

lemma hops_sealed:
  assumes "ProxyHopKind (headerInfo q) \<noteq> []"
  shows "Suc (pinnedHops (cpStore c) sid) \<le> hopRecords (snd (scoreAndReply E c q sid client now))"
proof -
  let ?h = "scoreAndReply E c q sid client now"
  let ?st = "cpStore (fst (scoreBeacon E c sid q client now))"
  obtain st where st: "sessionOf (mergeBeacon E (cpStore c) sid q client now) sid = Some st" "netPinned st"
      "Suc (pinnedHops (cpStore c) sid) \<le> hopsIn (Network (sReport st))"
    using merge_hops [OF assms] by blast
  then obtain rep where rep: "GetReport ?st sid = Some rep" "Network rep = Network (sReport st)"
    by (simp add: scoreBeacon_parts StoreScored_def GetReport_def Score_report beaconReport_session [OF st(1)])
  have "hopsIn (Network rep) \<le> hopRecords (snd (linkAndAuditScoring E c2 sid r res))" if "cpStore c2 = ?st" for c2 r res
  proof -
    have "cpStore (fst (pseudo E (fst (pseudo E (linkHandle E c2 sid) sid v)) sid w)) = ?st" for v w
      using sameButVault_sel [OF pseudo_vault] sameButVault_sel [OF linkHandle_vault] that by metis
    then show ?thesis
      using hops_audited [of "Network rep"] rep(1)
      by (simp add: linkAndAuditScoring_def emitNetworkResidualAudit_def split_beta hops_emitted le_SucI)
  qed
  moreover have "cpStore (fst (issueVerdictTokenOnAllow E (updateStickyVerdict E (fst (scoreBeacon E c sid q client now)) sid
      (snd (scoreBeacon E c sid q client now)) now) (crReq q) sid (snd (scoreBeacon E c sid q client now)) now)) = ?st"
    using sameButVault_sel [OF issue_vault] by (metis updateStickyVerdict_def control_plane.select_convs(1) control_plane.surjective control_plane.update_convs(3))
  ultimately have "hopsIn (Network rep) \<le> hopRecords (snd ?h)"
    by (simp add: scoreAndReply_def split_beta trans_le_add1 trans_le_add2)
  then show ?thesis using st(3) rep(2) by simp
qed

primrec beacons ::
  "('sk, 'v) control_env \<Rightarrow> 'v control_plane \<Rightarrow> control_request \<Rightarrow> string \<Rightarrow> client_report \<Rightarrow> int \<Rightarrow> nat \<Rightarrow> 'v control_plane" where
  "beacons E c q sid client now 0 = c"
| "beacons E c q sid client now (Suc n) = fst (scoreAndReply E (beacons E c q sid client now n) q sid client now)"

text \<open>
  A session that sends its beacons through a proxy makes the n-th beacon seal at least n records of the same
  residual, so n beacons seal on the order of n squared.
\<close>

theorem residual_audit_grows:
  assumes "ProxyHopKind (headerInfo q) \<noteq> []"
  shows "Suc n \<le> hopRecords (snd (scoreAndReply E (beacons E c q sid client now n) q sid client now))"
proof -
  have "n \<le> pinnedHops (cpStore (beacons E c q sid client now n)) sid"
  proof (induction n)
    case (Suc n)
    then show ?case using scored_hops [OF assms, of "beacons E c q sid client now n" sid E client now] by simp
  qed simp
  then show ?thesis using hops_sealed [OF assms, of "beacons E c q sid client now n" sid E client now] by linarith
qed

text \<open>
  The record of a breach is meant to be sampled, once per window.  A client that sends its requests at a steady
  pace of one more than the hard threshold per window has exactly that count at every request, so every one of them
  seals a record.
\<close>

primrec paced :: "limiter \<Rightarrow> string \<Rightarrow> int \<Rightarrow> nat \<Rightarrow> limiter" where
  "paced l k d 0 = l"
| "paced l k d (Suc n) = fst (Observe (paced l k d n) k (int n * d))"

lemma paced_window: "lwindow (paced l k d n) = lwindow l" "lhard (paced l k d n) = lhard l" "lsoft (paced l k d n) = lsoft l"
  by (induction n) (auto simp: Observe_def Let_def)

lemma filter_upt_gt: "filter (\<lambda>i. m < i + M) [a..<n] = [max a (Suc m - M)..<n]" for m M :: nat
proof (induction n)
  case (Suc n)
  then show ?case by (auto simp: max_def not_less upt_conv_Nil)
qed simp

lemma paced_hits:
  assumes "k \<noteq> []" "lhits l k = None" "lwindow l = int m * d" "0 < d" "0 < m"
  shows "hitsOf (paced l k d n) k = map (\<lambda>i. int i * d) [n - m..<n]"
proof (induction n)
  case 0
  then show ?case using assms(2) by (simp add: hitsOf_def)
next
  case (Suc n)
  have cutoff: "(int n * d - int m * d < int i * d) = (n < i + m)" for i
  proof -
    have "(int n * d - int m * d < int i * d) = ((int n - int m) * d < int i * d)" by (simp add: left_diff_distrib)
    also have "\<dots> = (int n - int m < int i)" using assms(4) by simp
    finally show ?thesis by linarith
  qed
  have "hitsOf (paced l k d (Suc n)) k
      = filter (\<lambda>t. int n * d - int m * d < t) (map (\<lambda>i. int i * d) [n - m..<n]) @ [int n * d]"
    using assms(1) Suc by (simp add: Observe_def Let_def hitsOf_def paced_window assms(3))
  also have "\<dots> = map (\<lambda>i. int i * d) (filter (\<lambda>i. n < i + m) [n - m..<n]) @ [int n * d]"
    by (simp add: filter_map comp_def cutoff)
  also have "\<dots> = map (\<lambda>i. int i * d) [Suc n - m..<Suc n]"
    using assms(5) by (auto simp: filter_upt_gt max_def)
  finally show ?case .
qed

lemma paced_count:
  assumes "k \<noteq> []" "lhits l k = None" "lwindow l = int m * d" "0 < d" "0 < m" "m \<le> Suc n"
  shows "snd (Observe (paced l k d n) k (int n * d)) = int m"
proof -
  have "hitsOf (paced l k d (Suc n)) k = map (\<lambda>i. int i * d) [Suc n - m..<Suc n]" by (rule paced_hits [OF assms(1-5)])
  then have "length (hitsOf (paced l k d (Suc n)) k) = m" using assms(6) by (metis diff_diff_cancel length_map length_upt)
  then show ?thesis using assms(1) by (simp add: Observe_def Let_def hitsOf_def)
qed

theorem paced_flood_sealed:
  assumes "climiter c = Some (paced l (''cp:'' @ rClientIP r) d n)" "cClock E AtGuard = int n * d"
    and "lhits l (''cp:'' @ rClientIP r) = None" "lwindow l = int (Suc h) * d" "lhard l = int h" "cpHard c = int h" "0 < d" "h \<le> n"
  shows "\<exists>rec. Sealed rec \<in> set (fst (snd (cpGuard E c r ep)))"
proof -
  let ?k = "''cp:'' @ rClientIP r"
  obtain l' k' where ob: "Observe (paced l ?k d n) ?k (int n * d) = (l', k')" by (cases "Observe (paced l ?k d n) ?k (int n * d)")
  have "snd (Observe (paced l ?k d n) ?k (int n * d)) = int (Suc h)"
    by (rule paced_count) (use assms in simp_all)
  then have "k' = int (Suc h)" using ob by simp
  moreover have "lhard l' = int h"
    using ob paced_window(2) [of l ?k d "Suc n"] assms(5) by simp
  ultimately show ?thesis
    using ob assms(1,2,6) by (simp add: cpGuard_def Level_def)
qed

end
