(* ===== verification/Challenge.thy ===== *)
theory Challenge
  imports Collector Admin
begin

text \<open>
  The proofs a client is asked for: the rotating integrity token (package \<open>integrity\<close>), the proof of work
  (package \<open>pow\<close>), the attestation token (package \<open>attestation\<close>) and the three-row puzzle (package \<open>pass\<close>).

  HMAC and SHA-256 are arguments (\<open>prims\<close>). An \<open>int\<close> of the code is an integer; where a client chooses the
  operands of an addition, it wraps at 64 bits.
\<close>

section \<open>Request integrity (package integrity)\<close>

definition SessionKey :: "'sk prims \<Rightarrow> bytes \<Rightarrow> string \<Rightarrow> bytes" where
  "SessionKey P masterKey sid = hmacSha P masterKey sid"

definition Seed :: "'sk prims \<Rightarrow> bytes \<Rightarrow> 64 word \<Rightarrow> bytes" where
  "Seed P sessionKey n = hmacSha P sessionKey (''rit-seed'' @ putUint64 n)"

definition ComputeToken :: "'sk prims \<Rightarrow> bytes \<Rightarrow> string \<Rightarrow> 64 word \<Rightarrow> 64 word \<Rightarrow> string" where
  "ComputeToken P seed canonical n tb = b64Encode (hmacSha P seed (canonical @ putUint64 n @ putUint64 tb))"

definition VerifyToken :: "'sk prims \<Rightarrow> bytes \<Rightarrow> string \<Rightarrow> 64 word \<Rightarrow> 64 word \<Rightarrow> string \<Rightarrow> bool" where
  "VerifyToken P seed canonical n tb token \<longleftrightarrow> ComputeToken P seed canonical n tb = token"

definition TimeBucket :: "int \<Rightarrow> int \<Rightarrow> 64 word" where
  "TimeBucket unixSeconds window =
     (let w = (if window \<le> 0 then 10 else window); u = (if unixSeconds < 0 then 0 else unixSeconds)
      in word_of_int (u div w))"

definition withinBucket :: "64 word \<Rightarrow> 64 word \<Rightarrow> 64 word \<Rightarrow> bool" where
  "withinBucket a b tol \<longleftrightarrow> (if b < a then a - b \<le> tol else b - a \<le> tol)"

definition SignedHeaders :: "string list" where
  "SignedHeaders =
     [''user-agent'', ''sec-ch-ua'', ''sec-ch-ua-platform'', ''sec-ch-ua-mobile'', ''accept-language'', ''accept'']"

record canonical_input =
  ciHeaders :: "string \<rightharpoonup> string"
  ciCookieID :: string
  ciBody :: bytes

definition normalizeHeader :: "string \<Rightarrow> string" where
  "normalizeHeader v = joinWith '' '' (splitFields (trimSpace v))"

definition sha256hex :: "'sk prims \<Rightarrow> bytes \<Rightarrow> string" where
  "sha256hex P b = hexEncode (sha256 P b)"

text \<open>A missing key of a Go map reads as the empty string.\<close>

definition CanonicalRequest :: "'sk prims \<Rightarrow> canonical_input \<Rightarrow> string" where
  "CanonicalRequest P inp =
     concat (map (\<lambda>h. h @ '':'' @ normalizeHeader (case ciHeaders inp h of Some v \<Rightarrow> v | None \<Rightarrow> []) @ [CHR 0x0A]) SignedHeaders)
     @ ''cookie:'' @ ciCookieID inp @ [CHR 0x0A] @ ''body:'' @ sha256hex P (ciBody inp)"

text \<open>The keys of the map, in any order; the last of the sorted keys with the same lower-case form wins.\<close>

definition LowerHeaderMap :: "(string \<times> string) list \<Rightarrow> (string \<rightharpoonup> string)" where
  "LowerHeaderMap inp = foldl (\<lambda>out (k, v). out(toLower k \<mapsto> v)) Map.empty (sort_key fst inp)"

record verify_params =
  vpSessionKey :: bytes
  vpLastN :: "64 word"
  vpPresentedN :: "64 word"
  vpPresentedTB :: "64 word"
  vpCurrentTB :: "64 word"
  vpToken :: string
  vpCanonical :: string
  vpFirstReq :: bool

definition VerifyRequest :: "'sk prims \<Rightarrow> verify_params \<Rightarrow> signal" where
  "VerifyRequest P p =
     (if vpFirstReq p
      then NewSignal ''l5.rit.ok'' (VStr ''bootstrap'') SigOK 1 SourceServer ''first request, token grace''
      else if vpToken p = []
      then NewSignal ''l5.rit.absent'' (VBool True) SigBot 1 SourceServer ''no RIT token on API call''
      else if vpPresentedN p \<noteq> vpLastN p + 1
      then NewSignal ''l5.rit.stale_replay'' (VInt (int (unat (vpPresentedN p)))) SigSuspicious 1 SourceServer
             ''RIT counter out of sequence (replay)''
      else if \<not> withinBucket (vpPresentedTB p) (vpCurrentTB p) 1
      then NewSignal ''l5.rit.stale_replay'' (VInt (int (unat (vpPresentedTB p)))) SigSuspicious 1 SourceServer
             ''RIT time bucket outside window (replay)''
      else if \<not> VerifyToken P (Seed P (vpSessionKey p) (vpLastN p)) (vpCanonical p) (vpPresentedN p) (vpPresentedTB p) (vpToken p)
      then NewSignal ''l5.rit.header_tampered'' (VBool True) SigBot 1 SourceServer
             ''signed request != observed (header/body tampered)''
      else NewSignal ''l5.rit.ok'' (VBool True) SigOK 1 SourceServer ''RIT valid'')"

section \<open>Proof of work (package pow)\<close>

definition powWindow :: int where "powWindow = 120"

record pow_challenge =
  pcSeed :: string
  pcDifficulty :: int
  pcBucket :: "64 word"

definition seedBytes :: "'sk prims \<Rightarrow> bytes \<Rightarrow> string \<Rightarrow> 64 word \<Rightarrow> bytes" where
  "seedBytes P masterKey sid bucket = hmacSha P masterKey (''pow'' @ sid @ putUint64 bucket)"

definition powIssue :: "'sk prims \<Rightarrow> bytes \<Rightarrow> string \<Rightarrow> int \<Rightarrow> 64 word \<Rightarrow> pow_challenge" where
  "powIssue P masterKey sid difficulty bucket =
     \<lparr>pcSeed = hexEncode (seedBytes P masterKey sid bucket), pcDifficulty = difficulty, pcBucket = bucket\<rparr>"

text \<open>The inner loop over the bits of a byte, from the highest: \<open>k\<close> bits are left.\<close>

primrec bitLoop :: "char \<Rightarrow> nat \<Rightarrow> int \<Rightarrow> int" where
  "bitLoop c 0 n = n"
| "bitLoop c (Suc k) n = (if \<not> bit (of_char c :: nat) k then bitLoop c k (n + 1) else n)"

fun zeroBitsFrom :: "int \<Rightarrow> bytes \<Rightarrow> int" where
  "zeroBitsFrom n [] = n"
| "zeroBitsFrom n (c # cs) = (if of_char c = (0 :: nat) then zeroBitsFrom (n + 8) cs else bitLoop c 8 n)"

definition leadingZeroBits :: "bytes \<Rightarrow> int" where
  "leadingZeroBits b = zeroBitsFrom 0 b"

definition meetsTarget :: "'sk prims \<Rightarrow> bytes \<Rightarrow> string \<Rightarrow> int \<Rightarrow> bool" where
  "meetsTarget P seed n difficulty \<longleftrightarrow> difficulty \<le> leadingZeroBits (sha256 P (seed @ n))"

definition powVerify :: "'sk prims \<Rightarrow> bytes \<Rightarrow> string \<Rightarrow> int \<Rightarrow> 64 word \<Rightarrow> 64 word \<Rightarrow> string \<Rightarrow> bool" where
  "powVerify P masterKey sid difficulty bucket currentBucket n \<longleftrightarrow>
     (if \<not> withinBucket bucket currentBucket 1 then False
      else meetsTarget P (seedBytes P masterKey sid bucket) n difficulty)"

text \<open>The search: \<open>i\<close> is the next candidate, \<open>k\<close> iterations are left.\<close>

fun solveFrom :: "'sk prims \<Rightarrow> bytes \<Rightarrow> int \<Rightarrow> nat \<Rightarrow> nat \<Rightarrow> string option" where
  "solveFrom P seed difficulty i 0 = None"
| "solveFrom P seed difficulty i (Suc k) =
     (if meetsTarget P seed (decNat i) difficulty then Some (decNat i) else solveFrom P seed difficulty (i + 1) k)"

definition powSolve :: "'sk prims \<Rightarrow> string \<Rightarrow> int \<Rightarrow> int \<Rightarrow> string option" where
  "powSolve P seedHex difficulty maxIters =
     (case hexDecode seedHex of (seed, okFlag) \<Rightarrow> if \<not> okFlag then None else solveFrom P seed difficulty 0 (nat maxIters))"

definition DifficultyFor :: "rat \<Rightarrow> int" where
  "DifficultyFor r = (if 70 \<le> r then 17 else if 50 \<le> r then 16 else if 30 \<le> r then 14 else 0)"

definition EncodeChallenge :: "pow_challenge \<Rightarrow> string" where
  "EncodeChallenge c = pcSeed c @ '':'' @ formatInt (pcDifficulty c) @ '':'' @ decNat (unat (pcBucket c))"

text \<open>\<open>strconv.ParseUint\<close> of base 10 and 64 bits, and the split around the first colon.\<close>

definition parseUint64 :: "string \<Rightarrow> 64 word option" where
  "parseUint64 s = (if s = [] \<or> \<not> list_all isDigit s \<or> 2 ^ 64 \<le> decValue s then None else Some (of_nat (decValue s)))"

definition ParseSolution :: "string \<Rightarrow> (64 word \<times> string) option" where
  "ParseSolution s =
     (case cutAt (CHR '':'') s of
        None \<Rightarrow> None
      | Some (b, n) \<Rightarrow> map_option (\<lambda>w. (w, n)) (parseUint64 b))"

section \<open>Attestation tokens (package attestation)\<close>

definition attestWindow :: int where "attestWindow = 60"

definition attestMac :: "'sk prims \<Rightarrow> bytes \<Rightarrow> string \<Rightarrow> string \<Rightarrow> 64 word \<Rightarrow> string" where
  "attestMac P masterKey subject n window =
     hexEncode (hmacSha P masterKey (''attest'' @ subject @ ''|'' @ n @ ''|'' @ putUint64 window))"

definition attestIssue :: "'sk prims \<Rightarrow> bytes \<Rightarrow> string \<Rightarrow> string \<Rightarrow> 64 word \<Rightarrow> string" where
  "attestIssue P masterKey subject n window = attestMac P masterKey subject n window"

definition attestVerify :: "'sk prims \<Rightarrow> bytes \<Rightarrow> string \<Rightarrow> string \<Rightarrow> string \<Rightarrow> 64 word \<Rightarrow> bool" where
  "attestVerify P masterKey subject n token current \<longleftrightarrow>
     token \<noteq> [] \<and> (\<exists>w \<in> set [current, current - 1, current + 1]. token = attestMac P masterKey subject n w)"

section \<open>The puzzle (package pass)\<close>

definition passAlphabet :: string where "passAlphabet = ''ABCDEFGHJKLMNPQRSTUVWXYZ23456789''"

definition passRows :: nat where "passRows = 3"

record pass_row =
  prChars :: "string list"
  prKeyIndex :: int

record pass_challenge =
  chN :: int
  chCenter :: int
  chRows :: "pass_row list"

text \<open>\<open>copy\<close> into an array of 32 bytes.\<close>

definition deriveSeed :: "'sk prims \<Rightarrow> bytes \<Rightarrow> string \<Rightarrow> 64 word \<Rightarrow> 64 word \<Rightarrow> bytes" where
  "deriveSeed P masterKey sid bucket inst =
     pad32 (hmacSha P masterKey (''pass|'' @ sid @ ''|'' @ putUint64 bucket @ ''|'' @ putUint64 inst))"

definition newRNG :: "bytes \<Rightarrow> 64 word" where
  "newRNG seed = or (of_nat (getUint32 (take 8 seed))) 1"

definition nextRNG :: "64 word \<Rightarrow> 64 word \<times> 64 word" where
  "nextRNG s0 =
     (let s = s0 + 0x9E3779B97F4A7C15;
          z1 = xor s (drop_bit 30 s) * 0xBF58476D1CE4E5B9;
          z2 = xor z1 (drop_bit 27 z1) * 0x94D049BB133111EB
      in (xor z2 (drop_bit 31 z2), s))"

definition intn :: "64 word \<Rightarrow> int \<Rightarrow> int \<times> 64 word" where
  "intn r n = (if n \<le> 0 then (0, r) else case nextRNG r of (z, r') \<Rightarrow> (uint (z mod word_of_int n), r'))"

definition dims :: "int \<Rightarrow> int \<times> int" where
  "dims difficulty = (let d = (if difficulty < 0 then 0 else if 3 < difficulty then 3 else difficulty); n = 9 + d * 2 in (n, n div 2))"

fun genChars :: "64 word \<Rightarrow> nat \<Rightarrow> string list \<times> 64 word" where
  "genChars r 0 = ([], r)"
| "genChars r (Suc k) =
     (case intn r (int (length passAlphabet)) of
        (i, r1) \<Rightarrow> case genChars r1 k of (cs, r2) \<Rightarrow> ([passAlphabet ! nat i] # cs, r2))"

fun genRows :: "64 word \<Rightarrow> int \<Rightarrow> nat \<Rightarrow> pass_row list" where
  "genRows r n 0 = []"
| "genRows r n (Suc k) =
     (case genChars r (nat n) of
        (cs, r1) \<Rightarrow> case intn r1 n of (key, r2) \<Rightarrow> \<lparr>prChars = cs, prKeyIndex = key\<rparr> # genRows r2 n k)"

definition passGenerate :: "'sk prims \<Rightarrow> bytes \<Rightarrow> string \<Rightarrow> 64 word \<Rightarrow> 64 word \<Rightarrow> int \<Rightarrow> pass_challenge" where
  "passGenerate P masterKey sid bucket inst difficulty =
     (let r = newRNG (deriveSeed P masterKey sid bucket inst); (n, center) = dims difficulty
      in \<lparr>chN = n, chCenter = center, chRows = genRows r n passRows\<rparr>)"

definition MaxBucketAge :: "64 word" where "MaxBucketAge = 20"

definition passFresh :: "64 word \<Rightarrow> 64 word \<Rightarrow> bool" where
  "passFresh bucket currentBucket \<longleftrightarrow> bucket \<le> currentBucket \<and> currentBucket - bucket \<le> MaxBucketAge"

text \<open>Go's remainder takes the sign of the dividend.\<close>

definition goMod :: "int \<Rightarrow> int \<Rightarrow> int" where "goMod a b = a smod b"

definition keyColumn :: "int \<Rightarrow> pass_row \<Rightarrow> int \<Rightarrow> int" where
  "keyColumn n row off = goMod (goMod (wrap64 (prKeyIndex row + off)) n + n) n"

definition passVerify ::
  "'sk prims \<Rightarrow> bytes \<Rightarrow> string \<Rightarrow> 64 word \<Rightarrow> 64 word \<Rightarrow> 64 word \<Rightarrow> int \<Rightarrow> int list \<Rightarrow> bool" where
  "passVerify P masterKey sid bucket currentBucket inst difficulty offsets \<longleftrightarrow>
     (if \<not> passFresh bucket currentBucket then False
      else if length offsets \<noteq> passRows then False
      else let ch = passGenerate P masterKey sid bucket inst difficulty
           in list_all (\<lambda>(row, off). keyColumn (chN ch) row off = chCenter ch) (zip (chRows ch) offsets))"

definition SolutionOffsets :: "'sk prims \<Rightarrow> bytes \<Rightarrow> string \<Rightarrow> 64 word \<Rightarrow> 64 word \<Rightarrow> int \<Rightarrow> int list" where
  "SolutionOffsets P masterKey sid bucket inst difficulty =
     (let ch = passGenerate P masterKey sid bucket inst difficulty
      in map (\<lambda>row. goMod (goMod (chCenter ch - prKeyIndex row) (chN ch) + chN ch) (chN ch)) (chRows ch))"

section \<open>Facts\<close>

subsection \<open>The work target\<close>

lemma getUint32_fold: "foldl (\<lambda>v c. 256 * v + of_char c) a b = a * 256 ^ length b + getUint32 b"
proof (induction b arbitrary: a)
  case (Cons c b)
  have "foldl (\<lambda>v c. 256 * v + of_char c) a (c # b) = (256 * a + of_char c) * 256 ^ length b + getUint32 b"
    using Cons.IH [of "256 * a + of_char c"] by simp
  moreover have "getUint32 (c # b) = of_char c * 256 ^ length b + getUint32 b"
    using Cons.IH [of "of_char c"] by (simp add: getUint32_def)
  ultimately show ?case by (simp add: algebra_simps)
qed (simp add: getUint32_def)

lemma getUint32_Cons: "getUint32 (c # b) = of_char c * 256 ^ length b + getUint32 b"
  using getUint32_fold [of "of_char c" b] by (simp add: getUint32_def)

lemma getUint32_less: "getUint32 b < 256 ^ length b"
proof (induction b)
  case (Cons c b)
  have "(of_char c + 1) * 256 ^ length b \<le> 256 * (256 :: nat) ^ length b"
    using nat_of_char_less_256 [of c] by (intro mult_le_mono1) linarith
  then show ?case using Cons unfolding getUint32_Cons add_mult_distrib length_Cons power_Suc by linarith
qed (simp add: getUint32_def)

lemma not_bit_less: "x < 2 ^ Suc k \<Longrightarrow> \<not> bit x k \<longleftrightarrow> x < 2 ^ k" for x :: nat
proof -
  assume x: "x < 2 ^ Suc k"
  have "x div 2 ^ k < 2" using x by (simp add: less_mult_imp_div_less)
  then have "odd (x div 2 ^ k) \<longleftrightarrow> x div 2 ^ k \<noteq> 0" by (cases "x div 2 ^ k") auto
  then show ?thesis by (simp add: bit_iff_odd div_eq_0_iff)
qed

lemma bitLoop_target:
  "of_char c < (2 :: nat) ^ k \<Longrightarrow> d \<le> k \<Longrightarrow> n + int d \<le> bitLoop c k n \<longleftrightarrow> of_char c < (2 :: nat) ^ (k - d)"
proof (induction k arbitrary: d n)
  case (Suc k)
  show ?case
  proof (cases "bit (of_char c :: nat) k")
    case True
    then have big: "(2 :: nat) ^ k \<le> of_char c" using not_bit_less [OF Suc.prems(1)] by simp
    have "\<not> of_char c < (2 :: nat) ^ (Suc k - d)" if "d \<noteq> 0"
    proof -
      have "(2 :: nat) ^ (Suc k - d) \<le> 2 ^ k" using that by (intro power_increasing) auto
      then show ?thesis using big by linarith
    qed
    then show ?thesis using True Suc.prems(1) by auto
  next
    case False
    then have small: "of_char c < (2 :: nat) ^ k" using not_bit_less [OF Suc.prems(1)] by simp
    show ?thesis
    proof (cases d)
      case 0
      then show ?thesis using False Suc.IH [OF small, of 0 "n + 1"] Suc.prems(1) small by simp
    next
      case (Suc d')
      then show ?thesis using False Suc.IH [OF small, of d' "n + 1"] Suc.prems(2) by (simp add: add.commute add.left_commute)
    qed
  qed
qed simp

lemma zeroBitsFrom_target:
  "d \<le> 8 * length b \<Longrightarrow> n + int d \<le> zeroBitsFrom n b \<longleftrightarrow> getUint32 b < 2 ^ (8 * length b - d)"
proof (induction n b arbitrary: d rule: zeroBitsFrom.induct)
  case (2 n c cs)
  have w: "(256 :: nat) ^ length cs = 2 ^ (8 * length cs)" by (simp add: power_mult)
  have low: "getUint32 cs < 2 ^ (8 * length cs)" using getUint32_less [of cs] by (simp add: w)
  show ?case
  proof (cases "of_char c = (0 :: nat)")
    case True
    show ?thesis
    proof (cases "d \<le> 8")
      case True
      have "getUint32 cs < 2 ^ (8 * length cs + 8 - d)"
        using True by (intro less_le_trans [OF low] power_increasing) auto
      moreover have "n + 8 \<le> zeroBitsFrom (n + 8) cs" using "2.IH" [OF \<open>of_char c = 0\<close>, of 0] low by simp
      ultimately show ?thesis using \<open>of_char c = (0 :: nat)\<close> True by (simp add: getUint32_Cons add.commute)
    next
      case False
      then show ?thesis using "2.IH" [OF \<open>of_char c = 0\<close>, of "d - 8"] "2.prems" \<open>of_char c = (0 :: nat)\<close>
        by (simp add: getUint32_Cons of_nat_diff add.commute)
    qed
  next
    case False
    have byte: "of_char c < (2 :: nat) ^ 8" by simp
    show ?thesis
    proof (cases "d \<le> 8")
      case True
      have "of_char c < (2 :: nat) ^ (8 - d) \<longleftrightarrow> getUint32 (c # cs) < 2 ^ (8 - d) * 2 ^ (8 * length cs)"
      proof
        assume "of_char c < (2 :: nat) ^ (8 - d)"
        then have "(of_char c + 1) * 2 ^ (8 * length cs) \<le> (2 :: nat) ^ (8 - d) * 2 ^ (8 * length cs)"
          by (intro mult_le_mono1) simp
        then show "getUint32 (c # cs) < 2 ^ (8 - d) * 2 ^ (8 * length cs)" using low by (simp add: getUint32_Cons w)
      next
        assume "getUint32 (c # cs) < 2 ^ (8 - d) * 2 ^ (8 * length cs)"
        then have "of_char c * 2 ^ (8 * length cs) < (2 :: nat) ^ (8 - d) * 2 ^ (8 * length cs)"
          unfolding getUint32_Cons w by linarith
        then show "of_char c < (2 :: nat) ^ (8 - d)" by simp
      qed
      moreover have "(2 :: nat) ^ (8 - d) * 2 ^ (8 * length cs) = 2 ^ (8 * length (c # cs) - d)"
        using True by (simp add: power_add [symmetric])
      ultimately show ?thesis using bitLoop_target [OF byte True, of n] False by simp
    next
      case big: False
      have "\<not> n + int 8 \<le> bitLoop c 8 n" using bitLoop_target [OF byte, of 8 n] False by simp
      moreover have "\<not> getUint32 (c # cs) < 2 ^ (8 * length (c # cs) - d)"
      proof -
        have "(2 :: nat) ^ (8 * length (c # cs) - d) \<le> 2 ^ (8 * length cs)" using big by (intro power_increasing) auto
        also have "\<dots> \<le> of_char c * 2 ^ (8 * length cs)" using False by simp
        finally show ?thesis by (simp add: getUint32_Cons w)
      qed
      ultimately show ?thesis using False big by simp
    qed
  qed
qed (simp add: getUint32_def)

text \<open>
  The count of leading zero bits is the target it stands for.  A nonce meets a
  difficulty exactly when the digest, read as a big-endian number, is below the corresponding power of two.
\<close>

theorem pow_target_exact:
  assumes "d \<le> 8 * length (sha256 P (seed @ n))"
  shows "meetsTarget P seed n (int d) \<longleftrightarrow>
           getUint32 (sha256 P (seed @ n)) < 2 ^ (8 * length (sha256 P (seed @ n)) - d)"
  using zeroBitsFrom_target [OF assms, of 0] by (simp add: meetsTarget_def leadingZeroBits_def)

theorem pow_target_exact_witness:
  "meetsTarget toyPrims [CHR 0x00, CHR 0x1F] ''7'' (int 11) \<longleftrightarrow>
     getUint32 (pad32 [CHR 0x00, CHR 0x1F, CHR ''7'']) < 2 ^ 245"
  using pow_target_exact [of 11 toyPrims "[CHR 0x00, CHR 0x1F]" "''7''"] by (simp add: toyPrims_def)

subsection \<open>The search\<close>

lemma solveFrom_Some:
  "solveFrom P seed d i k = Some n \<longleftrightarrow>
     (\<exists>j < k. n = decNat (i + j) \<and> meetsTarget P seed n d \<and> (\<forall>l < j. \<not> meetsTarget P seed (decNat (i + l)) d))"
proof (induction k arbitrary: i)
  case (Suc k)
  show ?case
  proof (cases "meetsTarget P seed (decNat i) d")
    case True
    then show ?thesis by (auto intro!: exI [of _ 0]) (metis add.right_neutral neq0_conv)
  next
    case False
    then show ?thesis
      using Suc.IH [of "i + 1"] by (simp add: Ex_less_Suc2 All_less_Suc2) metis
  qed
qed simp

lemma solveFrom_None: "solveFrom P seed d i k = None \<longleftrightarrow> (\<forall>j < k. \<not> meetsTarget P seed (decNat (i + j)) d)"
  by (induction k arbitrary: i) (auto simp: All_less_Suc2)

lemma withinBucket_refl [simp]: "withinBucket a a 1"
  by (simp add: withinBucket_def)

text \<open>
  The search finds the first nonce the server accepts.  On the seed of an issued challenge it
  returns a nonce exactly when one of the first \<open>maxIters\<close> numbers is accepted, and then the least of them.
\<close>

theorem pow_search_exact:
  "powSolve P (pcSeed (powIssue P key sid d b)) d maxIters =
     (case filter (\<lambda>i. powVerify P key sid d b b (decNat i)) [0..<nat maxIters] of [] \<Rightarrow> None | i # _ \<Rightarrow> Some (decNat i))"
proof -
  let ?ok = "\<lambda>i. meetsTarget P (seedBytes P key sid b) (decNat i) d"
  have "solveFrom P (seedBytes P key sid b) d i k =
      (case filter ?ok [i..<i + k] of [] \<Rightarrow> None | j # _ \<Rightarrow> Some (decNat j))" for i k
  proof (induction k arbitrary: i)
    case (Suc k)
    have "[i..<i + Suc k] = i # [Suc i..<Suc i + k]" by (simp add: upt_rec)
    then show ?case using Suc.IH [of "Suc i"] by simp
  qed simp
  from this [of 0 "nat maxIters"] show ?thesis by (simp add: powSolve_def powIssue_def powVerify_def)
qed

subsection \<open>The puzzle\<close>

lemma intn_range: "0 < n \<Longrightarrow> n < 2 ^ 64 \<Longrightarrow> 0 \<le> fst (intn r n) \<and> fst (intn r n) < n"
  by (simp add: intn_def split_beta uint_mod uint_word_of_int_eq take_bit_int_eq_self)

lemma genRows_Suc:
  "genRows r n (Suc k) =
     \<lparr>prChars = fst (genChars r (nat n)), prKeyIndex = fst (intn (snd (genChars r (nat n))) n)\<rparr>
     # genRows (snd (intn (snd (genChars r (nat n))) n)) n k"
  by (simp add: split_beta)

lemma genRows_keys:
  "row \<in> set (genRows r n k) \<Longrightarrow> 0 < n \<Longrightarrow> n < 2 ^ 64 \<Longrightarrow> 0 \<le> prKeyIndex row \<and> prKeyIndex row < n"
  using intn_range by (induction k arbitrary: r) (auto simp: genRows_Suc simp del: genRows.simps(2))

lemma length_genRows [simp]: "length (genRows r n k) = k"
  by (induction r n k rule: genRows.induct) (auto split: prod.splits)

lemma dims_range:
  "dims d = (n, center) \<Longrightarrow> n \<in> {9, 11, 13, 15} \<and> center = n div 2"
  by (auto simp: dims_def Let_def split: if_splits)

lemma goMod_norm: "0 < n \<Longrightarrow> goMod (goMod a n + n) n = a mod n"
proof -
  assume n: "0 < n"
  have "0 < a smod n + n" using smod_int_range [of n a] n by auto
  then have "goMod (goMod a n + n) n = (a smod n) mod n" using n by (simp add: goMod_def signed_modulo_int_def)
  also have "\<dots> = (a smod n + a sdiv n * n) mod n" by simp
  finally show ?thesis by (simp add: smod_sdiv_mult_eq)
qed

lemma passGenerate_shape:
  assumes "ch = passGenerate P key sid b inst d"
  shows "chN ch \<in> {9, 11, 13, 15}" "chCenter ch = chN ch div 2" "length (chRows ch) = passRows"
    "\<And>row. row \<in> set (chRows ch) \<Longrightarrow> 0 \<le> prKeyIndex row \<and> prKeyIndex row < chN ch"
proof -
  obtain n center where nc: "dims d = (n, center)" by fastforce
  have r: "n \<in> {9, 11, 13, 15}" "center = n div 2" using dims_range [OF nc] by simp_all
  show "chN ch \<in> {9, 11, 13, 15}" "chCenter ch = chN ch div 2" "length (chRows ch) = passRows"
    using r by (simp_all add: assms passGenerate_def nc Let_def)
  show "0 \<le> prKeyIndex row \<and> prKeyIndex row < chN ch" if "row \<in> set (chRows ch)" for row
    using genRows_keys r that by (fastforce simp: assms passGenerate_def nc Let_def)
qed

lemma keyColumn_center:
  assumes "n \<in> {9, 11, 13, 15 :: int}" "0 \<le> prKeyIndex row" "prKeyIndex row < n" "- (2 ^ 62) \<le> off" "off < 2 ^ 62"
  shows "keyColumn n row off = n div 2 \<longleftrightarrow> off mod n = goMod (goMod (n div 2 - prKeyIndex row) n + n) n"
proof -
  have w: "wrap64 (prKeyIndex row + off) = prKeyIndex row + off" using assms by (intro wrap64_id) auto
  have c: "n div 2 mod n = n div 2" and n: "0 < n" using assms(1) by auto
  have "(prKeyIndex row + off) mod n = n div 2 mod n \<longleftrightarrow> off mod n = (n div 2 - prKeyIndex row) mod n"
    unfolding mod_eq_dvd_iff by (simp add: algebra_simps)
  then show ?thesis unfolding keyColumn_def w goMod_norm [OF n] c by simp
qed

lemma passVerify_iff:
  assumes "\<forall>x \<in> set offsets. - (2 ^ 62) \<le> x \<and> x < 2 ^ 62"
  shows "passVerify P key sid b cur inst d offsets \<longleftrightarrow>
           passFresh b cur
           \<and> map (\<lambda>x. x mod fst (dims d)) offsets = SolutionOffsets P key sid b inst d"
proof -
  define ch where "ch = passGenerate P key sid b inst d"
  note shape = passGenerate_shape [OF ch_def]
  have n: "fst (dims d) = chN ch" by (simp add: ch_def passGenerate_def split_beta Let_def)
  define sol where "sol row = goMod (goMod (chCenter ch - prKeyIndex row) (chN ch) + chN ch) (chN ch)" for row :: pass_row
  have col: "keyColumn (chN ch) row x = chCenter ch \<longleftrightarrow> x mod chN ch = sol row"
    if "row \<in> set (chRows ch)" "x \<in> set offsets" for row x
    using keyColumn_center [OF shape(1)] shape(4) [OF that(1)] assms that(2) unfolding sol_def shape(2) by blast
  have eq: "list_all (\<lambda>(row, x). keyColumn (chN ch) row x = chCenter ch) (zip (chRows ch) offsets) \<longleftrightarrow>
      map (\<lambda>x. x mod chN ch) offsets = map sol (chRows ch)" if "length offsets = passRows"
    unfolding list_all_length list_eq_iff_nth_eq using col that shape(3) by simp
  have "SolutionOffsets P key sid b inst d = map sol (chRows ch)"
    by (simp add: SolutionOffsets_def sol_def ch_def Let_def)
  moreover have "map (\<lambda>x. x mod chN ch) offsets = map sol (chRows ch) \<Longrightarrow> length offsets = passRows"
    using shape(3) by (metis length_map)
  ultimately show ?thesis using eq unfolding n passVerify_def ch_def [symmetric] Let_def by auto
qed

lemma solution_accepted: "passFresh b cur \<Longrightarrow> passVerify P key sid b cur inst d (SolutionOffsets P key sid b inst d)"
proof -
  assume f: "passFresh b cur"
  define ch where "ch = passGenerate P key sid b inst d"
  note shape = passGenerate_shape [OF ch_def]
  have n: "fst (dims d) = chN ch" by (simp add: ch_def passGenerate_def split_beta Let_def)
  have sol: "SolutionOffsets P key sid b inst d = map (\<lambda>row. (chCenter ch - prKeyIndex row) mod chN ch) (chRows ch)"
    using goMod_norm [of "chN ch"] shape(1) by (auto simp: SolutionOffsets_def ch_def [symmetric] Let_def)
  have "- (2 ^ 62) \<le> x mod chN ch \<and> x mod chN ch < 2 ^ 62" for x
    using shape(1) pos_mod_bound [of "chN ch" x] pos_mod_sign [of "chN ch" x] by auto
  then have "\<forall>x \<in> set (SolutionOffsets P key sid b inst d). - (2 ^ 62) \<le> x \<and> x < 2 ^ 62" unfolding sol by simp
  from passVerify_iff [OF this, of P key sid b cur inst d] show ?thesis using f by (simp add: n sol comp_def)
qed

text \<open>
  The puzzle is decided by its solution.  For offsets a client can reach by moving rows, the
  server accepts an answer to a fresh challenge exactly when it has one offset per row, each congruent to the
  solution's modulo the length of the row.
\<close>

theorem pass_verify_exact:
  assumes "\<forall>x \<in> set offsets. - (2 ^ 62) \<le> x \<and> x < 2 ^ 62"
  shows "passVerify P key sid b cur inst d offsets \<longleftrightarrow>
           passFresh b cur
           \<and> map (\<lambda>x. x mod fst (dims d)) offsets = SolutionOffsets P key sid b inst d"
  by (rule passVerify_iff [OF assms])

theorem pass_verify_exact_witness:
  "passVerify toyPrims ''k'' ''s'' 7 9 1 0 [4, -5, 13] \<longleftrightarrow> map (\<lambda>x. x mod 9) [4, -5, 13] = SolutionOffsets toyPrims ''k'' ''s'' 7 1 0"
  using pass_verify_exact [of "[4, -5, 13]" toyPrims "''k''" "''s''" 7 9 1 0]
  by (simp add: passFresh_def MaxBucketAge_def dims_def)

subsection \<open>Puzzles that are solved as issued\<close>

text \<open>The generator on natural numbers, which the simplifier evaluates.\<close>

definition natStep :: "nat \<Rightarrow> nat" where "natStep s = (s + 0x9E3779B97F4A7C15) mod 2 ^ 64"

definition natMix :: "nat \<Rightarrow> nat" where
  "natMix s =
     (let z1 = (xor s (drop_bit 30 s) * 0xBF58476D1CE4E5B9) mod 2 ^ 64;
          z2 = (xor z1 (drop_bit 27 z1) * 0x94D049BB133111EB) mod 2 ^ 64
      in xor z2 (drop_bit 31 z2))"

lemma nextRNG_unat: "unat (fst (nextRNG r)) = natMix (natStep (unat r))" "unat (snd (nextRNG r)) = natStep (unat r)"
  by (simp_all add: nextRNG_def natStep_def natMix_def Let_def unat_drop_bit_eq unat_word_ariths unsigned_xor_eq)

lemma natStep_pow: "s < 2 ^ 64 \<Longrightarrow> (natStep ^^ k) s = (s + k * 0x9E3779B97F4A7C15) mod 2 ^ 64"
proof (induction k)
  case (Suc k)
  then have "(natStep ^^ Suc k) s = natStep ((s + k * 0x9E3779B97F4A7C15) mod 2 ^ 64)" by simp
  also have "\<dots> = (s + Suc k * 0x9E3779B97F4A7C15) mod 2 ^ 64"
    unfolding natStep_def by (simp only: mod_add_left_eq mod_add_right_eq mult_Suc add_ac)
  finally show ?case .
qed simp

lemma intn_unat:
  assumes "0 < n" "n < 2 ^ 64"
  shows "fst (intn r n) = int (natMix (natStep (unat r)) mod nat n)" "unat (snd (intn r n)) = natStep (unat r)"
proof -
  have "unat (word_of_int n :: 64 word) = nat n"
    using assms by (simp add: unsigned_of_int take_bit_int_eq_self)
  then show "fst (intn r n) = int (natMix (natStep (unat r)) mod nat n)" "unat (snd (intn r n)) = natStep (unat r)"
    using assms(1) by (simp_all add: intn_def split_beta uint_nat unat_mod nextRNG_unat)
qed

lemma genChars_unat: "unat (snd (genChars r k)) = (natStep ^^ k) (unat r)"
proof (induction k arbitrary: r)
  case (Suc k)
  have "unat (snd (intn r (int (length passAlphabet)))) = natStep (unat r)"
    by (rule intn_unat(2)) (simp_all add: passAlphabet_def)
  then show ?case using Suc.IH by (simp add: split_beta funpow_swap1)
qed simp

lemma genRows_key_at:
  assumes "0 < n" "n < 2 ^ 64" "m = nat n + 1"
  shows "map prKeyIndex (genRows r n k) =
     map (\<lambda>j. int (natMix ((natStep ^^ (Suc j * m)) (unat r)) mod nat n)) [0..<k]"
proof (induction k arbitrary: r)
  case (Suc k)
  let ?c = "snd (genChars r (nat n))"
  have s: "unat (snd (intn ?c n)) = (natStep ^^ m) (unat r)"
    and key: "fst (intn ?c n) = int (natMix ((natStep ^^ m) (unat r)) mod nat n)"
    using intn_unat [OF assms(1,2), of ?c] by (simp_all add: genChars_unat assms(3))
  have jump: "(natStep ^^ (Suc j * m)) ((natStep ^^ m) x) = (natStep ^^ (Suc (Suc j) * m)) x" for j x
    using funpow_add [of "Suc j * m" m natStep] by (metis add.commute comp_apply mult_Suc)
  show ?case
    unfolding genRows_Suc list.map map_upt_Suc Suc.IH s jump by (simp add: key)
qed simp

text \<open>
  The comment in \<open>Generate\<close> says that a key is never already in the centre column, so that the user must move every
  row; the code draws the column of the key from all of them.  There are challenges that are solved as issued.
\<close>

theorem pass_solved_as_issued:
  "passVerify toyPrims ''key00060'' ''s'' 7 7 1 0 [0, 0, 0]"
proof -
  define r where "r = newRNG (deriveSeed toyPrims ''key00060'' ''s'' 7 1)"
  have r: "unat r = 7738724782579922481"
    by (simp add: r_def newRNG_def deriveSeed_def toyPrims_def pad32_def getUint32_def)
  have mix: "natMix 11065408533554597635 = 7027795114291236640"
    "natMix 14392092284529272789 = 4714536461958878989"
    "natMix 17718776035503947943 = 9818853568009361680"
    by (simp_all add: natMix_def drop_bit_eq_div)
  have at: "(natStep ^^ 10) (unat r) = 11065408533554597635" "(natStep ^^ 20) (unat r) = 14392092284529272789" "(natStep ^^ 30) (unat r) = 17718776035503947943"
    using natStep_pow [of "unat r"] by (simp_all add: r)
  have "map prKeyIndex (genRows r 9 3) = [4, 4, 4]"
    by (simp add: genRows_key_at [where m = 10] at mix upt_conv_Cons)
  then show ?thesis
    by (auto simp: passVerify_def passFresh_def passRows_def passGenerate_def dims_def r_def [symmetric] Let_def
        map_eq_Cons_conv keyColumn_def goMod_def wrap64_def MaxBucketAge_def signed_modulo_int_def)
qed

end
