(* ===== verification/ServerProofs.thy ===== *)
theory ServerProofs
  imports Challenge
begin

text \<open>
  Where the reference server asks for the proofs: the request-integrity check of an API call
  (\<open>cmd/server/rit.go\<close>) and the proof-of-work upgrade (\<open>cmd/server/powhandler.go\<close>), on the session store.

  The readings of the clock within one request are one instant, in nanoseconds.  A request is the session of its
  cookie, its headers, and its decoded body.
\<close>

section \<open>Request integrity (rit.go)\<close>

definition ritWindow :: int where "ritWindow = 10"

definition ritCanonical :: "'sk prims \<Rightarrow> string \<Rightarrow> 64 word \<Rightarrow> 64 word \<Rightarrow> bytes \<Rightarrow> string" where
  "ritCanonical P sid n tb body =
     sid @ [CHR 0x0A] @ decNat (unat n) @ [CHR 0x0A] @ decNat (unat tb) @ [CHR 0x0A] @ hexEncode (sha256 P body)"

definition issueSeed :: "'sk prims \<Rightarrow> bytes \<Rightarrow> store \<Rightarrow> string \<Rightarrow> string \<times> 64 word \<times> int" where
  "issueSeed P key s sid =
     (let n = RITCounter s sid in (b64Encode (Seed P (SessionKey P key sid) n), n, ritWindow))"

definition withinTB :: "64 word \<Rightarrow> 64 word \<Rightarrow> 64 word \<Rightarrow> bool" where
  "withinTB a b tol \<longleftrightarrow> (if b < a then a - b \<le> tol else b - a \<le> tol)"

record rit_request =
  hmToken :: string
  hmN :: string
  hmTB :: string
  rqBody :: bytes

definition ritExpect :: "'sk prims \<Rightarrow> bytes \<Rightarrow> string \<Rightarrow> 64 word \<Rightarrow> 64 word \<Rightarrow> 64 word \<Rightarrow> bytes \<Rightarrow> string" where
  "ritExpect P key sid lastN n tb body =
     b64Encode (hmacSha P (Seed P (SessionKey P key sid) lastN) (ritCanonical P sid n tb body))"

definition ritOK :: signal where
  "ritOK = NewSignal ''l5.rit.ok'' (VBool True) SigOK 1 SourceServer ''RIT valid''"

definition verifyRIT :: "'sk prims \<Rightarrow> bytes \<Rightarrow> store \<Rightarrow> string \<Rightarrow> rit_request \<Rightarrow> int \<Rightarrow> store \<times> signal" where
  "verifyRIT P key s sid rq now =
     (let lastN = RITCounter s sid;
          token = hmToken rq;
          presentedN = parseUintOr (hmN rq);
          presentedTB = parseUintOr (hmTB rq);
          currentTB = TimeBucket (unixOf now) ritWindow
      in if lastN = 0 \<and> token = []
         then case ClaimRITBootstrap s sid now of
                (s1, True) \<Rightarrow> (s1, NewSignal ''l5.rit.bootstrap'' (VStr ''bootstrap'') SigOK 1 SourceServer ''first request, token grace'')
              | (s1, False) \<Rightarrow> (s1, NewSignal ''l5.rit.absent'' (VBool True) SigBot 1 SourceServer ''repeated tokenless API call (grace already consumed)'')
         else if token = []
         then (s, NewSignal ''l5.rit.absent'' (VBool True) SigBot 1 SourceServer ''no RIT token on API call'')
         else if presentedN \<noteq> lastN + 1
         then (s, NewSignal ''l5.rit.stale_replay'' (VInt (int (unat presentedN))) SigSuspicious 1 SourceServer
                    ''RIT counter out of sequence (replay)'')
         else if \<not> withinTB presentedTB currentTB 1
         then (s, NewSignal ''l5.rit.stale_replay'' (VInt (int (unat presentedTB))) SigSuspicious 1 SourceServer
                    ''RIT time bucket outside window (replay)'')
         else if ritExpect P key sid lastN presentedN presentedTB (rqBody rq) \<noteq> token
         then (s, NewSignal ''l5.rit.header_tampered'' (VBool True) SigBot 1 SourceServer
                    ''signed request != observed (invalid HMAC / body or token tampered)'')
         else (fst (AdvanceRIT s sid now), ritOK))"

section \<open>Proof of work (powhandler.go)\<close>

definition powSolvedSignal :: signal where
  "powSolvedSignal = NewSignal ''l7.pow.solved'' (VBool True) SigOK 1 SourceServer ''valid PoW solution''"

definition powTooFastSignal :: "int \<Rightarrow> signal" where
  "powTooFastSignal elapsed =
     NewSignal ''l7.pow.too_fast'' (VInt (elapsed sdiv 1000000)) SigBot 1 SourceServer
       ''PoW solved faster than a browser could (native/GPU solver)''"

definition powBucket :: "int \<Rightarrow> 64 word" where
  "powBucket now = word_of_int (unixOf now sdiv powWindow)"

text \<open>The header of the response, if one is set.\<close>

definition issuePoWHeader ::
  "'sk prims \<Rightarrow> bytes \<Rightarrow> store \<Rightarrow> string \<Rightarrow> string \<Rightarrow> rat \<Rightarrow> int \<Rightarrow> store \<times> string option" where
  "issuePoWHeader P key s sid vd r now =
     (if vd \<noteq> ''CHALLENGE'' \<or> PowSolved s sid then (s, None)
      else let issued = PowDifficulty s sid;
               d = (if 0 < issued then issued else DifficultyFor r)
           in if d \<le> 0 then (s, None)
              else (SetPowIssued s sid now d, Some (EncodeChallenge (powIssue P key sid d (powBucket now)))))"

text \<open>A shift by 64 bits or more gives 0; a negative difficulty is converted to a huge one.\<close>

definition plausibleBrowserSolve :: "int \<Rightarrow> int" where
  "plausibleBrowserSolve d =
     (let attempts = (if 0 \<le> d \<and> d < 64 then 2 ^ nat d else 0) :: rat in \<lfloor>attempts / 3000000 * 1000000000\<rfloor>)"

datatype pow_reply =
    PowHTTP int string
  | PowRefused
  | PowFast string
  | PowUpgraded string rat

text \<open>
  \<open>time.Since\<close> of Go's zero time saturates at the greatest duration.  The body is \<^const>\<open>None\<close> when it does not decode.
\<close>

definition handlePoW ::
  "'sk prims \<Rightarrow> bytes \<Rightarrow> score_env \<Rightarrow> engine \<Rightarrow> store \<Rightarrow> string \<Rightarrow> string \<Rightarrow> (64 word \<times> string) option \<Rightarrow> int \<Rightarrow> store \<times> pow_reply" where
  "handlePoW P key E e s httpMethod sid body now =
     (if httpMethod \<noteq> ''POST'' then (s, PowHTTP 405 ''POST only'')
      else if sid = [] then (s, PowHTTP 400 ''no session'')
      else case body of
        None \<Rightarrow> (s, PowHTTP 400 ''bad body'')
      | Some (bucket, n) \<Rightarrow>
          let rep = (case GetReport s sid of Some r \<Rightarrow> r | None \<Rightarrow> zeroReport);
              d = PowDifficulty s sid
          in if 0 < d \<and> powVerify P key sid d bucket (powBucket now) n
             then let elapsed = (case PowIssuedAt s sid of Some t \<Rightarrow> now - t | None \<Rightarrow> 2 ^ 63 - 1);
                      tooFastNow = (PowIssuedAt s sid \<noteq> None \<and> elapsed < plausibleBrowserSolve d)
                  in if tooFastNow \<or> PowTooFast s sid
                     then let s1 = SetPowTooFast s sid;
                              (rep1, res) = Scoring.Score E e (appendSignals rep [powTooFastSignal elapsed])
                          in (StoreScored s1 sid rep1 now, PowFast (resVerdict res))
                     else let s1 = SetPowSolved s sid now;
                              (rep1, res) = Scoring.Score E e (appendSignals rep [powSolvedSignal])
                          in (StoreScored s1 sid rep1 now, PowUpgraded (resVerdict res) (resRiskScore res))
             else (s, PowRefused))"

section \<open>Runs\<close>

text \<open>
  Requests on a server and the other calls on its store, with scorings of the store in flight.  A request-integrity
  check and a proof-of-work request are one step each: the code takes the lock of the store anew for every call in
  them, so these runs are those in which no other request of the same session comes between; \<open>rit_replay_race\<close> below
  shows what can happen otherwise.  The counter and the bootstrap grace are only touched by \<^const>\<open>verifyRIT\<close> and the
  proof-of-work fields by the two handlers, so those calls of the store are not among the others.
\<close>

datatype rit_op = RVerify string rit_request | RStore collector_op

definition ritStore :: "rit_op \<Rightarrow> bool" where
  "ritStore op \<longleftrightarrow> (case op of RVerify _ _ \<Rightarrow> True | RStore (CAdvanceRIT _) \<Rightarrow> False | RStore CSweep \<Rightarrow> False | _ \<Rightarrow> True)"

fun ritStep :: "'sk prims \<Rightarrow> bytes \<Rightarrow> score_env \<Rightarrow> engine \<Rightarrow> collector_state \<Rightarrow> rit_op \<times> int \<Rightarrow> collector_state" where
  "ritStep P key E e c (RVerify sid rq, now) = (fst (verifyRIT P key (fst c) sid rq now), snd c)"
| "ritStep P key E e c (RStore op, now) = collectorStep E e c (op, now)"

text \<open>The counters of the requests of a session that are accepted, in order.\<close>

fun ritAccepted ::
  "'sk prims \<Rightarrow> bytes \<Rightarrow> score_env \<Rightarrow> engine \<Rightarrow> string \<Rightarrow> collector_state \<Rightarrow> (rit_op \<times> int) list \<Rightarrow> 64 word list" where
  "ritAccepted P key E e i c [] = []"
| "ritAccepted P key E e i c (a # ops) =
     (case a of
        (RVerify sid rq, now) \<Rightarrow> if sid = i \<and> snd (verifyRIT P key (fst c) sid rq now) = ritOK then [parseUintOr (hmN rq)] else []
      | _ \<Rightarrow> []) @ ritAccepted P key E e i (ritStep P key E e c a) ops"

datatype pow_op =
    PIssue string string rat
  | PSolve string string "(64 word \<times> string) option"
  | PStore collector_op

definition powOp :: "pow_op \<Rightarrow> bool" where
  "powOp op \<longleftrightarrow> (case op of PStore (CPowSolved _) \<Rightarrow> False | PStore (CPowIssued _ _) \<Rightarrow> False | PStore (CPowTooFast _) \<Rightarrow> False | _ \<Rightarrow> True)"

fun powStep :: "'sk prims \<Rightarrow> bytes \<Rightarrow> score_env \<Rightarrow> engine \<Rightarrow> collector_state \<Rightarrow> pow_op \<times> int \<Rightarrow> collector_state" where
  "powStep P key E e c (PIssue sid vd r, now) = (fst (issuePoWHeader P key (fst c) sid vd r now), snd c)"
| "powStep P key E e c (PSolve httpMethod sid body, now) = (fst (handlePoW P key E e (fst c) httpMethod sid body now), snd c)"
| "powStep P key E e c (PStore op, now) = collectorStep E e c (op, now)"

definition powRun :: "'sk prims \<Rightarrow> bytes \<Rightarrow> score_env \<Rightarrow> engine \<Rightarrow> store \<Rightarrow> (pow_op \<times> int) list \<Rightarrow> store" where
  "powRun P key E e s ops = fst (foldl (powStep P key E e) (s, []) ops)"

section \<open>Request integrity\<close>

lemma NewSignal_id [simp]: "sigID (NewSignal i v vv c src nt) = i"
  by (simp add: NewSignal_def split_beta Let_def)

lemma signal_id_neq: "sigID g \<noteq> sigID h \<Longrightarrow> g \<noteq> h"
  by auto

lemma ritOK_id [simp]: "sigID ritOK = ''l5.rit.ok''"
  by (simp add: ritOK_def)

lemma not_ritOK [simp]: "i \<noteq> ''l5.rit.ok'' \<Longrightarrow> NewSignal i v vv c src nt \<noteq> ritOK"
  by (rule signal_id_neq) simp

text \<open>A request is accepted exactly when its token is the one of the next counter, over the body that was received.\<close>

lemma verifyRIT_accepts:
  "snd (verifyRIT P key s sid rq now) = ritOK \<longleftrightarrow>
     hmToken rq \<noteq> [] \<and> parseUintOr (hmN rq) = RITCounter s sid + 1
     \<and> withinTB (parseUintOr (hmTB rq)) (TimeBucket (unixOf now) ritWindow) 1
     \<and> hmToken rq = ritExpect P key sid (RITCounter s sid) (RITCounter s sid + 1) (parseUintOr (hmTB rq)) (rqBody rq)"
  by (auto simp: verifyRIT_def Let_def split: prod.split bool.split)

lemma RITCounter_put [simp]: "RITCounter (putSession s i st) j = (if j = i then ritN st else RITCounter s j)"
  by (simp add: RITCounter_def)

lemma RITCounter_Some [simp]: "sessionOf s i = Some st \<Longrightarrow> RITCounter s i = ritN st"
  by (simp add: RITCounter_def)

lemma ritN_ensure: "ritN (ensureUnstamped s i) = RITCounter s i" "ritN (ensureLocked s i now) = RITCounter s i"
  by (simp_all add: ensureUnstamped_def ensureLocked_def RITCounter_def zeroState_def split: option.split)

lemma ClaimRIT_counter: "RITCounter (fst (ClaimRITBootstrap s i now)) j = RITCounter s j"
  by (simp add: ClaimRITBootstrap_def Let_def ritN_ensure)

lemma verifyRIT_counter:
  "RITCounter (fst (verifyRIT P key s sid rq now)) i =
     (if sid = i \<and> snd (verifyRIT P key s sid rq now) = ritOK then RITCounter s i + 1 else RITCounter s i)"
  using ClaimRIT_counter [of s sid now i]
  by (auto simp: verifyRIT_def Let_def AdvanceRIT_def ritN_ensure split: prod.split bool.split)

lemma storeCall_counter:
  assumes "ritStore (RStore op)"
  shows "RITCounter (storeCall s op now) i = RITCounter s i"
proof (cases op)
  case (CClaimRIT j)
  then show ?thesis by (simp add: ClaimRIT_counter)
qed (use assms in \<open>auto simp: ritStore_def collector_defs(1,4-11) ritN_ensure Let_def appendSignals_def
     split: option.split simp flip: RITCounter_def\<close>)

lemma collectorStep_counter:
  assumes "ritStore (RStore op)"
  shows "RITCounter (fst (collectorStep E e c (op, now))) i = RITCounter (fst c) i"
  using storeCall_counter [OF assms, of "fst c" now i]
  by (cases c, cases op) (auto simp: StoreScored_def ritN_ensure)

text \<open>
  A request-integrity token is accepted at most once.  Along any requests and other calls between two
  expiry sweeps, the counters of the accepted requests of a session are consecutive, starting after its current one;
  no counter is accepted again.
\<close>

theorem rit_no_replay:
  assumes "\<forall>(op, now) \<in> set ops. ritStore op"
  shows "ritAccepted P key E e i c ops =
           map (\<lambda>k. RITCounter (fst c) i + 1 + of_nat k) [0..<length (ritAccepted P key E e i c ops)]"
  using assms
proof (induction ops arbitrary: c)
  case (Cons a ops)
  obtain op now where a: "a = (op, now)" by (cases a)
  have ops: "\<forall>(op, now) \<in> set ops. ritStore op" and op: "ritStore op" using Cons.prems a by auto
  note IH = Cons.IH [OF ops, of "ritStep P key E e c a"]
  show ?case
  proof (cases "\<exists>rq. op = RVerify i rq \<and> snd (verifyRIT P key (fst c) i rq now) = ritOK")
    case True
    then obtain rq where rq: "op = RVerify i rq" "snd (verifyRIT P key (fst c) i rq now) = ritOK" by blast
    have n: "parseUintOr (hmN rq) = RITCounter (fst c) i + 1" using rq(2) by (simp add: verifyRIT_accepts)
    have n1: "RITCounter (fst (ritStep P key E e c a)) i = RITCounter (fst c) i + 1" using rq by (simp add: a verifyRIT_counter)
    let ?rest = "ritAccepted P key E e i (ritStep P key E e c a) ops"
    have "ritAccepted P key E e i c (a # ops) = (RITCounter (fst c) i + 1) # ?rest" using rq n by (simp add: a)
    moreover have "?rest = map (\<lambda>k. RITCounter (fst c) i + 1 + of_nat (Suc k)) [0..<length ?rest]"
      by (subst IH) (simp add: n1 add_ac)
    ultimately show ?thesis by (simp add: map_upt_Suc del: upt_Suc)
  next
    case False
    have "RITCounter (fst (ritStep P key E e c a)) i = RITCounter (fst c) i"
      using False op by (cases op) (auto simp: a verifyRIT_counter collectorStep_counter)
    moreover have "ritAccepted P key E e i c (a # ops) = ritAccepted P key E e i (ritStep P key E e c a) ops"
      using False by (cases op) (auto simp: a)
    ultimately show ?thesis using IH by simp
  qed
qed simp

lemma b64Encode_Nil [simp]: "b64Encode b = [] \<longleftrightarrow> b = []"
  using b64Encode_inject [of b "[]"] by simp

definition exRit :: rit_request where
  "exRit = \<lparr>hmToken = ritExpect toyPrims ''k'' ''s'' 0 1 0 ''body'', hmN = ''1'', hmTB = ''0'', rqBody = ''body''\<rparr>"

lemma exRit_accepted:
  "ritAccepted toyPrims ''k'' exEnv NewEngine ''s'' (NewStore 60, []) [(RVerify ''s'' exRit, 5), (RVerify ''s'' exRit, 6)] = [1]"
proof -
  have p: "parseUintOr ''1'' = 1" "parseUintOr ''0'' = 0" by (simp_all add: parseUintOr_def decValue_def undigit_def isDigit_def)
  have c: "RITCounter (NewStore 60) ''s'' = 0" by (simp add: RITCounter_def)
  have t: "ritExpect toyPrims ''k'' ''s'' 0 1 0 ''body'' \<noteq> []" by (simp add: ritExpect_def toyPrims_def pad32_def)
  have 1: "snd (verifyRIT toyPrims ''k'' (NewStore 60) ''s'' exRit 5) = ritOK"
    unfolding verifyRIT_accepts c using t by (simp add: exRit_def p withinTB_def TimeBucket_def unixOf_def ritWindow_def)
  have 2: "RITCounter (fst (verifyRIT toyPrims ''k'' (NewStore 60) ''s'' exRit 5)) ''s'' = 1"
    using 1 by (simp add: verifyRIT_counter c)
  have 3: "snd (verifyRIT toyPrims ''k'' (fst (verifyRIT toyPrims ''k'' (NewStore 60) ''s'' exRit 5)) ''s'' exRit 6) \<noteq> ritOK"
    unfolding verifyRIT_accepts 2 by (simp add: exRit_def p)
  show ?thesis using 1 3 by (simp add: exRit_def p)
qed

theorem rit_no_replay_witness:
  "ritAccepted toyPrims ''k'' exEnv NewEngine ''s'' (NewStore 60, []) [(RVerify ''s'' exRit, 5), (RVerify ''s'' exRit, 6)] = [1]
   \<and> [1] = map (\<lambda>k. RITCounter (NewStore 60) ''s'' + 1 + of_nat k) [0..<1]"
  using rit_no_replay [of "[(RVerify ''s'' exRit, 5), (RVerify ''s'' exRit, 6)]" toyPrims "''k''" exEnv NewEngine "''s''" "(NewStore 60, [])"]
  by (simp add: ritStore_def exRit_accepted del: ritAccepted.simps)

text \<open>
  The counter is read and advanced under two locks.  Two requests with the same token that are both checked before
  either advances the counter are both accepted, and the counter then skips one.
\<close>

theorem rit_replay_race:
  assumes "snd (verifyRIT P key s sid rq now) = ritOK"
  shows "RITCounter (fst (AdvanceRIT (fst (verifyRIT P key s sid rq now)) sid now)) sid = parseUintOr (hmN rq) + 1"
proof -
  have "parseUintOr (hmN rq) = RITCounter s sid + 1" using assms by (simp add: verifyRIT_accepts)
  moreover have "RITCounter (fst (verifyRIT P key s sid rq now)) sid = RITCounter s sid + 1" using assms by (simp add: verifyRIT_counter)
  ultimately show ?thesis by (simp add: AdvanceRIT_def ritN_ensure Let_def)
qed

text \<open>The canonical text determines the request it was computed from.\<close>

lemma last_line:
  assumes "a @ sep # x = b @ sep # y" "sep \<notin> set x" "sep \<notin> set y"
  shows "a = b \<and> x = y"
proof -
  have "takeWhile (\<lambda>c. c \<noteq> sep) (rev (a @ sep # x)) = rev x" "takeWhile (\<lambda>c. c \<noteq> sep) (rev (b @ sep # y)) = rev y"
    using assms(2,3) by (auto simp: takeWhile_tail takeWhile_eq_all_conv)
  then show ?thesis using assms(1) by simp
qed

lemma length_hexDigits: "length hexDigits = 16"
  by (simp add: hexDigits_def)

lemma hexEncode_lines: "CHR 0x0A \<notin> set (hexEncode b)"
proof -
  have "CHR 0x0A \<notin> set hexDigits" by (simp add: hexDigits_def)
  moreover have "set (hexByte c) \<subseteq> set hexDigits" for c
    using of_char_div16 [of c] length_hexDigits by (auto simp: hexByte_def Let_def)
  ultimately show ?thesis by (auto simp: hexEncode_def)
qed

lemma decNat_lines: "CHR 0x0A \<notin> set (decNat n)"
  by (auto dest!: decNat_digits arg_cong [where f = "of_char :: char \<Rightarrow> nat"] simp: of_char_digitChar)

lemma ritCanonical_inject:
  "ritCanonical P sid n tb body = ritCanonical P sid' n' tb' body' \<longleftrightarrow>
     sid = sid' \<and> n = n' \<and> tb = tb' \<and> sha256 P body = sha256 P body'"
proof
  assume eq: "ritCanonical P sid n tb body = ritCanonical P sid' n' tb' body'"
  let ?nl = "CHR 0x0A"
  have 1: "sid @ ?nl # decNat (unat n) @ ?nl # decNat (unat tb) = sid' @ ?nl # decNat (unat n') @ ?nl # decNat (unat tb')
      \<and> hexEncode (sha256 P body) = hexEncode (sha256 P body')"
    using eq hexEncode_lines by (intro last_line [where sep = ?nl]) (simp_all add: ritCanonical_def)
  then have 2: "sid @ ?nl # decNat (unat n) = sid' @ ?nl # decNat (unat n') \<and> decNat (unat tb) = decNat (unat tb')"
    using decNat_lines by (intro last_line [where sep = ?nl]) simp_all
  then have "sid = sid' \<and> decNat (unat n) = decNat (unat n')"
    using decNat_lines by (intro last_line [where sep = ?nl]) simp_all
  then show "sid = sid' \<and> n = n' \<and> tb = tb' \<and> sha256 P body = sha256 P body'"
    using 1 2 by (simp add: word_unat_eq_iff)
qed (auto simp: ritCanonical_def)

text \<open>
  A token signs one request.  If the token that is accepted was computed by the client over some
  session, counter, time bucket and body, with the seed the server issued for its counter, then the request was
  received as it was signed, provided the MAC does not collide on the two texts.
\<close>

theorem rit_binds_request:
  assumes "snd (verifyRIT P key s sid rq now) = ritOK"
    and "hmToken rq = b64Encode (hmacSha P (Seed P (SessionKey P key sid) (RITCounter s sid)) (ritCanonical P sid' n tb body))"
    and "\<forall>m. hmacSha P (Seed P (SessionKey P key sid) (RITCounter s sid)) m
            = hmacSha P (Seed P (SessionKey P key sid) (RITCounter s sid)) (ritCanonical P sid' n tb body)
          \<longrightarrow> m = ritCanonical P sid' n tb body"
  shows "sid' = sid \<and> n = parseUintOr (hmN rq) \<and> tb = parseUintOr (hmTB rq) \<and> sha256 P body = sha256 P (rqBody rq)
         \<and> n = RITCounter s sid + 1 \<and> withinTB tb (TimeBucket (unixOf now) ritWindow) 1"
proof -
  have a: "parseUintOr (hmN rq) = RITCounter s sid + 1" "withinTB (parseUintOr (hmTB rq)) (TimeBucket (unixOf now) ritWindow) 1"
    "hmToken rq = ritExpect P key sid (RITCounter s sid) (RITCounter s sid + 1) (parseUintOr (hmTB rq)) (rqBody rq)"
    using assms(1) by (simp_all add: verifyRIT_accepts)
  then have "ritCanonical P sid (RITCounter s sid + 1) (parseUintOr (hmTB rq)) (rqBody rq) = ritCanonical P sid' n tb body"
    using assms(2,3) by (simp add: ritExpect_def)
  then show ?thesis using a by (auto simp: ritCanonical_inject)
qed

definition exMac :: "string prims" where
  "exMac = toyPrims\<lparr>hmacSha := (\<lambda>k m. k @ m)\<rparr>"

definition exSigned :: rit_request where
  "exSigned = \<lparr>hmToken = ritExpect exMac ''k'' ''s'' 0 1 0 ''body'', hmN = ''1'', hmTB = ''0'', rqBody = ''body''\<rparr>"

theorem rit_binds_request_witness:
  "snd (verifyRIT exMac ''k'' (NewStore 60) ''s'' exSigned 5) = ritOK \<and> 1 = parseUintOr (hmN exSigned)"
proof -
  have p: "parseUintOr ''1'' = 1" "parseUintOr ''0'' = 0" by (simp_all add: parseUintOr_def decValue_def undigit_def isDigit_def)
  have c: "RITCounter (NewStore 60) ''s'' = 0" by (simp add: RITCounter_def)
  have t: "hmToken exSigned = b64Encode (hmacSha exMac (Seed exMac (SessionKey exMac ''k'' ''s'') 0) (ritCanonical exMac ''s'' 1 0 ''body''))"
    by (simp add: exSigned_def ritExpect_def)
  have ok: "snd (verifyRIT exMac ''k'' (NewStore 60) ''s'' exSigned 5) = ritOK"
    unfolding verifyRIT_accepts c t
    by (simp add: exSigned_def p withinTB_def TimeBucket_def unixOf_def ritWindow_def ritExpect_def)
      (simp add: exMac_def Seed_def)
  show ?thesis using rit_binds_request [OF ok, of "''s''" 1 0 "''body''"] ok t unfolding c by (simp add: exMac_def)
qed

section \<open>The upgrade\<close>

lemma sessions_put: "set (sessions (putSession s i st)) \<subseteq> insert (i, st) (set (sessions s))"
  using set_alist_update by (fastforce simp: putSession_def)

lemma sessionOf_in: "sessionOf s i = Some st \<Longrightarrow> (i, st) \<in> set (sessions s)"
  by (auto simp: sessionOf_def dest: map_of_SomeD)

text \<open>What the events so far say about the proof-of-work fields of a session.\<close>

definition powEarned :: "'sk prims \<Rightarrow> bytes \<Rightarrow> (pow_op \<times> int) list \<Rightarrow> string \<Rightarrow> bool" where
  "powEarned P key evs i \<longleftrightarrow>
     (\<exists>r t0 bucket n t. (PIssue i ''CHALLENGE'' r, t0) \<in> set evs \<and> (PSolve ''POST'' i (Some (bucket, n)), t) \<in> set evs
        \<and> powVerify P key i (DifficultyFor r) bucket (powBucket t) n
        \<and> 0 < DifficultyFor r \<and> plausibleBrowserSolve (DifficultyFor r) \<le> t - t0)"

definition powJust :: "'sk prims \<Rightarrow> bytes \<Rightarrow> (pow_op \<times> int) list \<Rightarrow> string \<Rightarrow> session_state \<Rightarrow> bool" where
  "powJust P key evs i st \<longleftrightarrow>
     (case powIssued st of
        None \<Rightarrow> powDiff st = 0
      | Some t0 \<Rightarrow> \<not> powSolved st \<and> 0 < powDiff st
          \<and> (\<exists>r. (PIssue i ''CHALLENGE'' r, t0) \<in> set evs \<and> powDiff st = DifficultyFor r))
     \<and> (powSolved st \<longrightarrow> \<not> powTooFast st \<and> powEarned P key evs i)"

definition powStore :: "'sk prims \<Rightarrow> bytes \<Rightarrow> (pow_op \<times> int) list \<Rightarrow> store \<Rightarrow> bool" where
  "powStore P key evs s \<longleftrightarrow> (\<forall>(i, st) \<in> set (sessions s). powJust P key evs i st)"

lemma powStore_put: "powStore P key evs s \<Longrightarrow> powJust P key evs i st \<Longrightarrow> powStore P key evs (putSession s i st)"
  using sessions_put by (fastforce simp: powStore_def)

lemma powStore_session: "powStore P key evs s \<Longrightarrow> sessionOf s i = Some st \<Longrightarrow> powJust P key evs i st"
  by (auto simp: powStore_def dest!: sessionOf_in)

lemma powJust_mono: "powJust P key evs i st \<Longrightarrow> powJust P key (evs @ [a]) i st"
  by (auto simp: powJust_def powEarned_def split: option.splits) blast+

lemma powStore_mono: "powStore P key evs s \<Longrightarrow> powStore P key (evs @ [a]) s"
  by (auto simp: powStore_def intro: powJust_mono)

lemma powJust_fields:
  "powJust P key evs i st \<Longrightarrow> powSolved st' = powSolved st \<Longrightarrow> powIssued st' = powIssued st \<Longrightarrow> powDiff st' = powDiff st
     \<Longrightarrow> powTooFast st' = powTooFast st \<Longrightarrow> powJust P key evs i st'"
  by (auto simp: powJust_def split: option.splits)

lemma powJust_zero: "powJust P key evs i zeroState"
  by (simp add: powJust_def zeroState_def)

lemma powJust_ensure:
  assumes "powStore P key evs s"
  shows "powJust P key evs i (ensureLocked s i now)" "powJust P key evs i (ensureUnstamped s i)"
  using powStore_session [OF assms]
  by (auto simp: ensureLocked_def ensureUnstamped_def intro: powJust_fields [OF powJust_zero] split: option.split)

lemma powStore_scored: "powStore P key evs s \<Longrightarrow> powStore P key evs (StoreScored s i rep now)"
  by (auto simp: StoreScored_def intro!: powStore_put intro: powJust_fields powJust_ensure)

lemma powStore_call:
  assumes "powStore P key evs s" "powOp (PStore op)"
  shows "powStore P key evs (storeCall s op now)"
proof (cases op)
  case CSweep
  then show ?thesis using assms(1) by (auto simp: powStore_def GCSessions_def)
qed (use assms in \<open>auto simp: powOp_def collector_defs(1-3,7-11) Let_def
      intro!: powStore_put intro: powJust_fields powJust_ensure split: option.split\<close>)

lemma powStore_collector:
  assumes "powStore P key evs (fst c)" "powOp (PStore op)"
  shows "powStore P key evs (fst (collectorStep E e c (op, now)))"
  using powStore_call [OF assms, of now] powStore_scored [OF assms(1)] assms(1)
  by (cases c, cases op) auto

lemma powJust_issue:
  assumes "powJust P key evs i st" "powIssued st = None" "\<not> powSolved st" "0 < DifficultyFor r"
    and "(PIssue i ''CHALLENGE'' r, now) \<in> set evs"
  shows "powJust P key evs i (st\<lparr>powIssued := Some now, powDiff := DifficultyFor r\<rparr>)"
  using assms by (auto simp: powJust_def)

lemma powStore_issue:
  assumes "powStore P key evs s" "(PIssue i vd r, now) \<in> set evs"
  shows "powStore P key evs (fst (issuePoWHeader P key s i vd r now))"
proof (cases "sessionOf s i")
  case (Some st)
  have j: "powJust P key evs i st" using powStore_session [OF assms(1) Some] .
  then show ?thesis
    using assms Some powJust_issue [OF j]
    by (auto simp: issuePoWHeader_def SetPowIssued_def PowSolved_def PowDifficulty_def Let_def powJust_def
        intro!: powStore_put split: option.splits)
qed (use assms in \<open>auto simp: issuePoWHeader_def SetPowIssued_def Let_def\<close>)

lemma powStore_fast: "powStore P key evs s \<Longrightarrow> sessionOf s i = Some st \<Longrightarrow> \<not> powSolved st \<Longrightarrow> powStore P key evs (SetPowTooFast s i)"
  using powStore_session by (fastforce simp: SetPowTooFast_def powJust_def intro!: powStore_put split: option.splits)

lemma powStore_solved:
  assumes "powStore P key evs s" "sessionOf s i = Some st" "\<not> powTooFast st" "powEarned P key evs i"
  shows "powStore P key evs (SetPowSolved s i now)"
  using assms by (auto simp: SetPowSolved_def powJust_def intro!: powStore_put)

lemma powStore_handle:
  assumes "powStore P key evs s" "(PSolve m i body, now) \<in> set evs"
  shows "powStore P key evs (fst (handlePoW P key E e s m i body now))"
proof (cases "m = ''POST'' \<and> i \<noteq> [] \<and> (\<exists>bucket n. body = Some (bucket, n) \<and> 0 < PowDifficulty s i
    \<and> powVerify P key i (PowDifficulty s i) bucket (powBucket now) n)")
  case False
  then show ?thesis using assms(1) by (auto simp: handlePoW_def Let_def split: option.split)
next
  case True
  then obtain bucket n where b: "m = ''POST''" "i \<noteq> []" "body = Some (bucket, n)" "0 < PowDifficulty s i"
    "powVerify P key i (PowDifficulty s i) bucket (powBucket now) n" by blast
  obtain st where st: "sessionOf s i = Some st" using b(4) by (cases "sessionOf s i") (auto simp: PowDifficulty_def)
  have j: "powJust P key evs i st" using powStore_session [OF assms(1) st] .
  have d: "PowDifficulty s i = powDiff st" by (simp add: PowDifficulty_def st)
  obtain t0 where t0: "powIssued st = Some t0" using j b(4) d by (cases "powIssued st") (auto simp: powJust_def)
  obtain r where r: "\<not> powSolved st" "(PIssue i ''CHALLENGE'' r, t0) \<in> set evs" "powDiff st = DifficultyFor r"
    using j t0 by (auto simp: powJust_def)
  show ?thesis
  proof (cases "now - t0 < plausibleBrowserSolve (powDiff st) \<or> powTooFast st")
    case True
    then show ?thesis
      using powStore_scored [OF powStore_fast [OF assms(1) st r(1)]] b
      by (simp add: handlePoW_def Let_def PowIssuedAt_def PowTooFast_def st t0 d split_beta)
  next
    case False
    then have "powEarned P key evs i"
      using r b d assms(2) unfolding powEarned_def
      by (intro exI [of _ r] exI [of _ t0] exI [of _ bucket] exI [of _ n] exI [of _ now]) auto
    then show ?thesis
      using powStore_scored [OF powStore_solved [OF assms(1) st]] b False
      by (simp add: handlePoW_def Let_def PowIssuedAt_def PowTooFast_def st t0 d split_beta)
  qed
qed

lemma powRun_store:
  assumes "\<forall>(op, now) \<in> set ops. powOp op"
  shows "powStore P key ops (powRun P key E e (NewStore ttl) ops)"
  using assms
proof (induction ops rule: rev_induct)
  case Nil
  then show ?case by (simp add: powRun_def powStore_def NewStore_def)
next
  case (snoc a ops)
  obtain op now where a: "a = (op, now)" by (cases a)
  let ?c = "foldl (powStep P key E e) (NewStore ttl, []) ops"
  have IH: "powStore P key (ops @ [a]) (fst ?c)" using snoc by (intro powStore_mono) (auto simp: powRun_def)
  have run: "powRun P key E e (NewStore ttl) (ops @ [a]) = fst (powStep P key E e ?c a)" by (simp add: powRun_def)
  show ?case
    unfolding run using IH snoc.prems by (cases op) (auto simp: a intro!: powStore_issue powStore_handle powStore_collector)
qed

text \<open>
  The proof-of-work upgrade is paid for.  When a session counts as solved, the server issued it a
  challenge on a \<open>CHALLENGE\<close> verdict, and later received by POST a solution that verifies at the difficulty of that
  issue and came no sooner than a browser could have found it; and no solution of the session was ever too fast.
\<close>

theorem pow_upgrade_earned:
  assumes "\<forall>(op, now) \<in> set ops. powOp op" and "PowSolved (powRun P key E e (NewStore ttl) ops) i"
  shows "\<not> PowTooFast (powRun P key E e (NewStore ttl) ops) i
         \<and> (\<exists>r t0 bucket n t. (PIssue i ''CHALLENGE'' r, t0) \<in> set ops \<and> (PSolve ''POST'' i (Some (bucket, n)), t) \<in> set ops
              \<and> 30 \<le> r \<and> powVerify P key i (DifficultyFor r) bucket (powBucket t) n
              \<and> plausibleBrowserSolve (DifficultyFor r) \<le> t - t0)"
proof -
  obtain st where st: "sessionOf (powRun P key E e (NewStore ttl) ops) i = Some st" "powSolved st"
    using assms(2) by (auto simp: PowSolved_def split: option.splits)
  then have "powJust P key ops i st" using powStore_session [OF powRun_store [OF assms(1)]] by blast
  then have "\<not> powTooFast st" "powEarned P key ops i" using st(2) by (auto simp: powJust_def)
  moreover have "0 < DifficultyFor r \<Longrightarrow> 30 \<le> r" for r by (auto simp: DifficultyFor_def split: if_splits)
  ultimately show ?thesis using st(1) unfolding powEarned_def PowTooFast_def by fastforce
qed

definition exPowOps :: "(pow_op \<times> int) list" where
  "exPowOps = [(PStore (CEnsure ''s''), 0), (PIssue ''s'' ''CHALLENGE'' 30, 0), (PSolve ''POST'' ''s'' (Some (0, ''1'')), 6000000)]"

definition exPowKey :: bytes where "exPowKey = [CHR 0x00, CHR 0x00]"

lemma exPow_verify: "powVerify toyPrims exPowKey ''s'' 14 0 (powBucket 6000000) ''1''"
  by (simp add: powVerify_def withinBucket_def powBucket_def unixOf_def powWindow_def meetsTarget_def seedBytes_def
      exPowKey_def toyPrims_def pad32_def leadingZeroBits_def numeral_eq_Suc)

lemma plausible_14: "plausibleBrowserSolve 14 = 5461333"
  by (simp add: plausibleBrowserSolve_def floor_eq_iff)

lemma exPow_solved: "PowSolved (powRun toyPrims exPowKey exEnv NewEngine (NewStore 60) exPowOps) ''s''"
proof -
  define s1 where "s1 = Ensure (NewStore 60) ''s'' 0"
  define st1 where "st1 = zeroState\<lparr>sReport := zeroReport\<lparr>rSessionID := ''s'', rTimestamp := 0\<rparr>\<rparr>"
  define s2 where "s2 = SetPowIssued s1 ''s'' 0 14"
  have 1: "sessionOf s1 ''s'' = Some st1" by (simp add: s1_def Ensure_def ensureLocked_def st1_def zeroState_def)
  have 2: "fst (issuePoWHeader toyPrims exPowKey s1 ''s'' ''CHALLENGE'' 30 0) = s2"
    using 1 by (simp add: issuePoWHeader_def PowSolved_def PowDifficulty_def st1_def zeroState_def DifficultyFor_def s2_def Let_def)
  have 3: "sessionOf s2 ''s'' = Some (st1\<lparr>powIssued := Some 0, powDiff := 14\<rparr>)"
    using 1 by (simp add: s2_def SetPowIssued_def st1_def zeroState_def)
  have 4: "PowSolved (fst (handlePoW toyPrims exPowKey exEnv NewEngine s2 ''POST'' ''s'' (Some (0, ''1'')) 6000000)) ''s''"
    using 3 exPow_verify
    by (simp add: handlePoW_def PowDifficulty_def PowIssuedAt_def PowTooFast_def plausible_14 st1_def zeroState_def
        SetPowSolved_def StoreScored_def ensureLocked_def PowSolved_def Let_def split_beta)
  show ?thesis using 2 4 by (simp add: powRun_def exPowOps_def s1_def)
qed

theorem pow_upgrade_earned_witness:
  "\<not> PowTooFast (powRun toyPrims exPowKey exEnv NewEngine (NewStore 60) exPowOps) ''s''"
  using pow_upgrade_earned [OF _ exPow_solved] by (auto simp: exPowOps_def powOp_def)

end
