(* ===== verification/Pass.thy ===== *)
theory Pass
  imports ServerProofs
begin

text \<open>
  The interactive challenge of the reference server, humanymous Pass (\<open>cmd/server/pass_store.go\<close>,
  \<open>pass_proof.go\<close>, \<open>pass_scoring.go\<close>, \<open>pass_handler.go\<close>).

  A handler is a function on the state of the server: the session store, the table of challenges and the two
  limiters.  The two handlers that verify a proof without holding the lock are in two parts, each with one reading of
  the clock; other requests may come in between.  Reading a session report, scoring it and storing it is one step of a
  handler here; the report only decides difficulties, labels and the verdict of the reply.  A request is the session of
  its cookie, the stable fingerprint of its connection, its red-team header and its decoded body.  A pointer into the
  table is the entry of its session: entries are never replaced, since the table never grows past its cap and only a
  greater one is swept.  What a handler hands to the telemetry hub and to the label sink of the behavioural model is
  a list of effects.  Floats are exact rationals, and a comparison of a standard deviation with a positive bound
  compares the squares.
\<close>

section \<open>The table of challenges (pass_store.go)\<close>

definition passWindow :: int where "passWindow = 30"
definition passMaxTries :: int where "passMaxTries = 4"
definition traceTTL :: int where "traceTTL = 600000000000"
definition maxTraces :: nat where "maxTraces = 2 ^ 19"
definition maxPassSessions :: nat where "maxPassSessions = 50000"
definition passStale :: int where "passStale = 1800000000000"

record pass_session =
  psBucket :: "64 word"
  psInstance :: "64 word"
  psDifficulty :: int
  psIssuedAt :: int
  psTries :: int
  psSolved :: bool
  psNonce :: string
  psPowDifficulty :: int
  psPowOK :: bool
  psVelLevel :: int
  psAttestReq :: bool

record pass_store =
  pmSessions :: "(string \<times> pass_session) list"
  pmMetrics :: "string \<rightharpoonup> int"
  pmTraces :: "(string \<times> int) list"
  pmLastSweep :: "int option"

definition newPassStore :: pass_store where
  "newPassStore = \<lparr>pmSessions = [], pmMetrics = Map.empty, pmTraces = [], pmLastSweep = None\<rparr>"

text \<open>The last sweep of a new table is Go's zero time, which is longer ago than any interval.\<close>

definition sweepTraces :: "pass_store \<Rightarrow> int \<Rightarrow> pass_store" where
  "sweepTraces p now =
     (if (case pmLastSweep p of None \<Rightarrow> True | Some t \<Rightarrow> traceTTL div 4 < now - t) \<or> maxTraces \<le> length (pmTraces p)
      then p\<lparr>pmTraces := filter (\<lambda>(k, seen). \<not> traceTTL < now - seen) (pmTraces p), pmLastSweep := Some now\<rparr>
      else p)"

definition reserveTrace :: "pass_store \<Rightarrow> string \<Rightarrow> int \<Rightarrow> pass_store \<times> bool" where
  "reserveTrace p digest now =
     (let p1 = sweepTraces p now
      in if digest \<in> fst ` set (pmTraces p1) then (p1, False)
         else if maxTraces \<le> length (pmTraces p1) then (p1, False)
         else (p1\<lparr>pmTraces := (digest, now) # pmTraces p1\<rparr>, True))"

definition passNonce :: "bytes option \<Rightarrow> string option" where
  "passNonce rnd = map_option hexEncode rnd"

definition metricKey :: "string \<Rightarrow> int \<Rightarrow> bool \<Rightarrow> string" where
  "metricKey label d passed = label @ ''|'' @ (if passed then ''pass'' else ''fail'') @ ''|d'' @ formatInt d"

definition passRecord :: "pass_store \<Rightarrow> string \<Rightarrow> int \<Rightarrow> bool \<Rightarrow> pass_store" where
  "passRecord p label d passed =
     (let k = metricKey label d passed; c = (case pmMetrics p k of None \<Rightarrow> 0 | Some v \<Rightarrow> v)
      in p\<lparr>pmMetrics := (pmMetrics p)(k \<mapsto> c + 1)\<rparr>)"

definition freshPass :: "int \<Rightarrow> pass_session" where
  "freshPass now =
     \<lparr>psBucket = 0, psInstance = 0, psDifficulty = 0, psIssuedAt = now, psTries = 0, psSolved = False, psNonce = [],
      psPowDifficulty = 0, psPowOK = False, psVelLevel = 0, psAttestReq = False\<rparr>"

text \<open>A new entry is not stored when the table is full: the caller works on one that nobody else sees.\<close>

definition passGet :: "pass_store \<Rightarrow> string \<Rightarrow> int \<Rightarrow> pass_store \<times> pass_session" where
  "passGet p sid now =
     (let p1 = (if maxPassSessions < length (pmSessions p)
                then p\<lparr>pmSessions := filter (\<lambda>(k, ps). \<not> psIssuedAt ps < now - passStale) (pmSessions p)\<rparr> else p)
      in case map_of (pmSessions p1) sid of
           Some ps \<Rightarrow> (p1, ps)
         | None \<Rightarrow>
             if length (pmSessions p1) < maxPassSessions
             then (p1\<lparr>pmSessions := AList.update sid (freshPass now) (pmSessions p1)\<rparr>, freshPass now)
             else (p1, freshPass now))"

text \<open>A write through the pointer a handler holds.\<close>

definition passSet :: "pass_store \<Rightarrow> string \<Rightarrow> (pass_session \<Rightarrow> pass_session) \<Rightarrow> pass_store" where
  "passSet p sid f =
     (case map_of (pmSessions p) sid of
        None \<Rightarrow> p
      | Some ps \<Rightarrow> p\<lparr>pmSessions := AList.update sid (f ps) (pmSessions p)\<rparr>)"

section \<open>The interaction proof (pass_proof.go)\<close>

record pass_proof =
  ppBucket :: "64 word"
  ppChallengeNonce :: string
  ppAttestToken :: string
  ppOffsets :: "int list"
  ppTrusted :: bool
  ppMoves :: int
  ppCoalesced :: int
  ppDurations :: "rat list"
  ppPathLen :: rat
  ppRawT :: "rat list"
  ppPressures :: "rat list"
  ppPointerType :: string
  ppKeys :: int
  ppKeyDurs :: "rat list"
  ppMotion :: "rat list"

text \<open>\<open>math.Round\<close> rounds half away from zero.\<close>

definition goRound :: "rat \<Rightarrow> int" where
  "goRound x = (if 0 \<le> x then \<lfloor>x + 1 / 2\<rfloor> else - \<lfloor>1 / 2 - x\<rfloor>)"

definition quantised :: "rat list \<Rightarrow> rat \<Rightarrow> string" where
  "quantised xs q = concat (map (\<lambda>x. formatInt (goRound (x / q)) @ '','') xs) @ ''|''"

definition traceDigest :: "'sk prims \<Rightarrow> pass_proof \<Rightarrow> string" where
  "traceDigest P pr =
     hexEncode (sha256 P (quantised (ppRawT pr) 1 @ quantised (ppDurations pr) 1 @ quantised (ppPressures pr) (1 / 20)
       @ quantised (ppKeyDurs pr) 1))"

definition meanFloats :: "rat list \<Rightarrow> rat" where
  "meanFloats xs = (if xs = [] then 0 else sum_list xs / of_nat (length xs))"

definition allIntegerMs :: "rat list \<Rightarrow> bool" where
  "allIntegerMs xs \<longleftrightarrow> xs \<noteq> [] \<and> list_all (\<lambda>x. let d = x - of_int \<lfloor>x\<rfloor> in \<not> (1 / 1000000 < d \<and> d < 1 - 1 / 1000000)) xs"

definition variance :: "rat list \<Rightarrow> rat" where
  "variance xs =
     (if xs = [] then 0
      else let mean = sum_list xs / of_nat (length xs) in sum_list (map (\<lambda>x. (x - mean) * (x - mean)) xs) / of_nat (length xs))"

definition stddevBelow :: "rat list \<Rightarrow> rat \<Rightarrow> bool" where
  "stddevBelow xs c \<longleftrightarrow> variance xs < c * c"

text \<open>The differences of the raw timestamps, unless one is negative.\<close>

fun rawDiffs :: "rat list \<Rightarrow> rat list option" where
  "rawDiffs (a # b # ts) = (if b - a < 0 then None else map_option (\<lambda>ds. (b - a) # ds) (rawDiffs (b # ts)))"
| "rawDiffs _ = Some []"

definition realEventOK :: "pass_proof \<Rightarrow> bool \<times> string" where
  "realEventOK pr =
     (let pointer = (5 \<le> ppMoves pr \<and> 20 \<le> ppPathLen pr); keyboard = (3 \<le> ppKeys pr)
      in if \<not> ppTrusted pr then (False, ''untrusted events'')
         else if \<not> pointer \<and> \<not> keyboard then (False, ''insufficient interaction'')
         else if keyboard \<and> 4 \<le> length (ppKeyDurs pr) \<and> stddevBelow (ppKeyDurs pr) (2 / 5) then (False, ''uniform key timing'')
         else if pointer \<and> \<not> keyboard
         then if 5 \<le> length (ppDurations pr) \<and> stddevBelow (ppDurations pr) (1 / 2) then (False, ''uniform event timing'')
              else if ppCoalesced pr \<noteq> 0 \<and> ppCoalesced pr \<le> ppMoves pr then (False, ''no coalesced sub-samples'')
              else if length (ppRawT pr) < 10 then (False, ''missing raw input stream'')
              else case rawDiffs (ppRawT pr) of
                     None \<Rightarrow> (False, ''non-monotonic raw timestamps'')
                   | Some dts \<Rightarrow> if stddevBelow dts (3 / 20) then (False, ''uniform raw sample spacing'') else (True, [])
         else (True, []))"

section \<open>Scoring (pass_scoring.go)\<close>

text \<open>The first two parts of a JA4 fingerprint, and the first three parts of an IPv4 address.\<close>

fun ja4Upto :: "nat \<Rightarrow> string \<Rightarrow> string" where
  "ja4Upto k [] = []"
| "ja4Upto k (c # cs) = (if c = CHR ''_'' \<and> k = 1 then [] else c # ja4Upto (if c = CHR ''_'' then k + 1 else k) cs)"

definition ja4Stable :: "string option \<Rightarrow> string" where
  "ja4Stable ja4 = (case ja4 of None \<Rightarrow> [] | Some j \<Rightarrow> ja4Upto 0 j)"

definition clientSubnet :: "string \<Rightarrow> string" where
  "clientSubnet ip =
     (case splitOn (CHR ''.'') ip of [a, b, c, d] \<Rightarrow> a @ ''.'' @ b @ ''.'' @ c | _ \<Rightarrow> ip)"

definition passFP :: "string option \<Rightarrow> string \<Rightarrow> string" where
  "passFP ja4 ip = ja4Stable ja4 @ ''|'' @ clientSubnet ip"

definition passSolvedSignal :: signal where
  "passSolvedSignal = NewSignal ''l7.pass.solved'' (VBool True) SigOK 1 SourceServer ''humanymous Pass cleared''"

record 'sk pass_cfg =
  pkPrims :: "'sk prims"
  pkMaster :: bytes
  pkEnv :: score_env
  pkEngine :: engine
  pkStepUp :: "bytes option"
  pkHub :: bool

record pass_app =
  paStore :: store
  paPass :: pass_store
  paVel :: limiter
  paAttest :: limiter

record pass_req =
  rqSid :: string
  rqFP :: string
  rqRed :: string

definition newPassApp :: "int \<Rightarrow> pass_app" where
  "newPassApp ttl =
     \<lparr>paStore = NewStore ttl, paPass = newPassStore, paVel = NewLimiter 30000000000 4 8, paAttest = NewLimiter 30000000000 3 3\<rparr>"

definition reportOf :: "pass_app \<Rightarrow> string \<Rightarrow> session_report" where
  "reportOf a sid = (case GetReport (paStore a) sid of Some r \<Rightarrow> r | None \<Rightarrow> zeroReport)"

text \<open>Append signals to the report of a session, score it and store it: the engine stores its result in the report.\<close>

definition foldSignals :: "'sk pass_cfg \<Rightarrow> pass_app \<Rightarrow> string \<Rightarrow> signal list \<Rightarrow> int \<Rightarrow> pass_app \<times> score_result" where
  "foldSignals C a sid sigs now =
     (let (rep, res) = Scoring.Score (pkEnv C) (pkEngine C) (appendSignals (reportOf a sid) sigs)
      in (a\<lparr>paStore := StoreScored (paStore a) sid rep now\<rparr>, res))"

definition velocitySignal :: "int \<Rightarrow> signal" where
  "velocitySignal lvl =
     (if lvl = 2 then NewSignal ''l7.pass.flood'' VNil SigBot 1 SourceServer ''Pass velocity (automation cadence)''
      else NewSignal ''l7.pass.velocity'' VNil SigSuspicious 1 SourceServer ''Pass velocity (automation cadence)'')"

definition applyPassVelocity :: "'sk pass_cfg \<Rightarrow> pass_app \<Rightarrow> pass_req \<Rightarrow> int \<Rightarrow> pass_app \<times> int \<times> int" where
  "applyPassVelocity C a r now =
     (let (v1, sCount) = RateLimit.Observe (paVel a) (''s|'' @ rqSid r) now; sLvl = RateLimit.Level v1 sCount;
          (v2, fCount) = RateLimit.Observe v1 (''f|'' @ rqFP r) now; fLvl = RateLimit.Level v2 fCount;
          lvl = (if sLvl < fLvl then fLvl else sLvl);
          a1 = a\<lparr>paVel := v2\<rparr>
      in if lvl = 0 then (a1, 0, sLvl)
         else let (p1, ps) = passGet (paPass a1) (rqSid r) now;
                  prev = psVelLevel ps;
                  p2 = (if prev < lvl then passSet p1 (rqSid r) (\<lambda>x. x\<lparr>psVelLevel := lvl\<rparr>) else p1);
                  a2 = a1\<lparr>paPass := p2\<rparr>
              in if lvl \<le> prev then (a2, lvl, sLvl)
                 else (fst (foldSignals C a2 (rqSid r) [velocitySignal lvl] now), lvl, sLvl))"

text \<open>A signal id is added once: the keyboard form of the timing tell comes before the pointer form.\<close>

definition behaviorTells :: "pass_proof \<Rightarrow> signal list" where
  "behaviorTells pr =
     (let keys = (3 \<le> length (ppKeyDurs pr));
          perfectKeys = (keys \<and> allIntegerMs (ppKeyDurs pr))
      in (if keys \<and> meanFloats (ppKeyDurs pr) < 15
          then [NewSignal ''l4.key.machine_speed'' VNil SigBot (7 / 10) SourceServer ''machine-speed inter-key latency (<15ms)''] else [])
         @ (if keys \<and> stddevBelow (ppKeyDurs pr) 6
            then [NewSignal ''l4.key.flight_std'' VNil SigSuspicious (1 / 2) SourceServer ''near-zero keystroke flight variance''] else [])
         @ (if perfectKeys
            then [NewSignal ''l4.event.perfect_timing'' VNil SigSuspicious (3 / 5) SourceServer ''zero sub-ms jitter (synthetic timing)''] else [])
         @ (if 5 \<le> length (ppDurations pr) \<and> allIntegerMs (ppDurations pr) \<and> \<not> perfectKeys
            then [NewSignal ''l4.event.perfect_timing'' VNil SigSuspicious (3 / 5) SourceServer ''zero sub-ms jitter (synthetic pointer timing)''] else [])
         @ (if (ppPointerType pr = ''touch'' \<or> ppPressures pr \<noteq> []) \<and> (length (ppMotion pr) < 3 \<or> stddevBelow (ppMotion pr) (1 / 100))
            then [NewSignal ''l2.adv.mobile_inconsistent'' VNil SigSuspicious (1 / 2) SourceServer ''touch/mobile claim without device-motion micro-jitter''] else []))"

definition applyPassBehavior :: "'sk pass_cfg \<Rightarrow> pass_app \<Rightarrow> string \<Rightarrow> pass_proof \<Rightarrow> int \<Rightarrow> pass_app" where
  "applyPassBehavior C a sid pr now =
     (if behaviorTells pr = [] then a else fst (foldSignals C a sid (behaviorTells pr) now))"

text \<open>The conversion of a float to an int drops the fraction.\<close>

definition truncRat :: "rat \<Rightarrow> int" where "truncRat x = (if 0 \<le> x then \<lfloor>x\<rfloor> else \<lceil>x\<rceil>)"

definition passDifficulty :: "pass_app \<Rightarrow> pass_req \<Rightarrow> int" where
  "passDifficulty a r =
     (if rqRed r \<noteq> [] then 3
      else let d = truncRat ((resRiskScore (session_report.Scoring (reportOf a (rqSid r))) - 20) / 15)
           in if d < 0 then 0 else if 3 < d then 3 else d)"

definition passLabel :: "rat \<Rightarrow> pass_req \<Rightarrow> string" where
  "passLabel x r = (if rqRed r \<noteq> [] then rqRed r else if 70 \<le> x then ''bot'' else if x < 30 then ''human'' else ''unknown'')"

definition isBotLabel :: "string \<Rightarrow> bool" where
  "isBotLabel label \<longleftrightarrow> label \<noteq> ''human'' \<and> label \<noteq> ''unknown''"

section \<open>Handlers (pass_handler.go)\<close>

definition passPoWSession :: "string \<Rightarrow> string \<Rightarrow> string" where
  "passPoWSession sid n = sid @ ''|pass|'' @ n"

datatype pass_reply =
    PassHTTP int string
  | PassIssued "64 word" int pass_challenge string int int pow_challenge bool
  | PassNo string
  | PassToken string
  | PassPoW bool
  | PassAlready "string option"
  | PassReject string int
  | PassExpired
  | PassCleared string rat "string option"

datatype pass_effect =
    Published string bool string
  | Outcome session_report bool

definition passBucket :: "int \<Rightarrow> 64 word" where
  "passBucket now = word_of_int (unixOf now sdiv passWindow)"

definition attestBucket :: "int \<Rightarrow> 64 word" where
  "attestBucket now = word_of_int (unixOf now sdiv attestWindow)"

definition publishPass :: "'sk pass_cfg \<Rightarrow> string \<Rightarrow> bool \<Rightarrow> string \<Rightarrow> pass_effect list" where
  "publishPass C sid done why = (if pkHub C then [Published (take 8 sid) done why] else [])"

definition stepUpReceipt :: "'sk pass_cfg \<Rightarrow> string \<Rightarrow> int \<Rightarrow> string option" where
  "stepUpReceipt C sid now = map_option (\<lambda>k. IssueStepUpReceipt (pkPrims C) k sid (now + 120000000000)) (pkStepUp C)"

definition handlePassPage :: "pass_app \<Rightarrow> string \<Rightarrow> int \<Rightarrow> pass_app" where
  "handlePassPage a sid now = a\<lparr>paStore := Ensure (paStore a) sid now\<rparr>"

definition newInstance :: "pass_app \<Rightarrow> pass_req \<Rightarrow> string \<Rightarrow> int \<Rightarrow> int \<Rightarrow> int \<Rightarrow> pass_session \<Rightarrow> pass_session" where
  "newInstance a r n velLvl sessLvl now ps =
     (let d = passDifficulty a r; pd = 14 + d + velLvl * 2
      in ps\<lparr>psInstance := psInstance ps + 1, psBucket := passBucket now, psIssuedAt := now, psTries := 0, psSolved := False,
           psNonce := n, psPowOK := False, psDifficulty := d, psPowDifficulty := (if 20 < pd then 20 else pd),
           psAttestReq := (1 \<le> sessLvl)\<rparr>)"

text \<open>The fields of the response are read off the entry as it was written.\<close>

definition handlePassNew :: "'sk pass_cfg \<Rightarrow> pass_app \<Rightarrow> pass_req \<Rightarrow> bytes option \<Rightarrow> int \<Rightarrow> pass_app \<times> pass_reply" where
  "handlePassNew C a r rnd now =
     (let (p1, ps0) = passGet (paPass a) (rqSid r) now; a1 = a\<lparr>paPass := p1\<rparr>
      in case passNonce rnd of
           None \<Rightarrow> (a1, PassHTTP 500 ''challenge unavailable'')
         | Some n \<Rightarrow>
             let (a2, velLvl, sessLvl) = applyPassVelocity C a1 r now;
                 ps1 = (case map_of (pmSessions (paPass a2)) (rqSid r) of Some x \<Rightarrow> x | None \<Rightarrow> ps0);
                 ps = newInstance a2 r n velLvl sessLvl now ps1;
                 a3 = a2\<lparr>paPass := passSet (paPass a2) (rqSid r) (\<lambda>_. ps)\<rparr>
             in (a3, PassIssued (psBucket ps) (psDifficulty ps)
                       (passGenerate (pkPrims C) (pkMaster C) (rqSid r) (psBucket ps) (psInstance ps) (psDifficulty ps))
                       n passMaxTries (passWindow * 2)
                       (powIssue (pkPrims C) (pkMaster C) (passPoWSession (rqSid r) n) (psPowDifficulty ps) (powBucket now))
                       (psAttestReq ps)))"

definition handlePassAttest ::
  "'sk pass_cfg \<Rightarrow> pass_app \<Rightarrow> string \<Rightarrow> pass_req \<Rightarrow> string option \<Rightarrow> int \<Rightarrow> pass_app \<times> pass_reply" where
  "handlePassAttest C a httpMethod r body now =
     (if httpMethod \<noteq> ''POST'' then (a, PassHTTP 405 ''POST only'')
      else if rqSid r = [] then (a, PassHTTP 400 ''no session'')
      else case body of
        None \<Rightarrow> (a, PassHTTP 400 ''bad body'')
      | Some chNonce \<Rightarrow>
          let (p1, ps) = passGet (paPass a) (rqSid r) now; a1 = a\<lparr>paPass := p1\<rparr>
          in if chNonce = [] \<or> chNonce \<noteq> psNonce ps then (a1, PassNo ''stale challenge'')
             else let (l1, c) = RateLimit.Observe (paAttest a1) (''att|'' @ rqFP r) now; a2 = a1\<lparr>paAttest := l1\<rparr>
                  in if 2 \<le> RateLimit.Level l1 c then (a2, PassNo (''attestation budget exhausted '' @ [CHR 0xE2, CHR 0x80, CHR 0x94] @ '' retry shortly''))
                     else (a2, PassToken (attestIssue (pkPrims C) (pkMaster C) (rqSid r) (psNonce ps) (attestBucket now))))"

text \<open>
  The body: the bucket and the nonce of the solution, and the nonce of the challenge.  The handler takes the lock twice:
  it copies the nonce, the difficulty and the mark of the instance, verifies without the lock, and sets the mark of the
  crypto axis if the instance still has that nonce.
\<close>

type_synonym pow_body = "64 word \<times> string \<times> string"

definition powRead ::
  "pass_app \<Rightarrow> string \<Rightarrow> pass_req \<Rightarrow> pow_body option \<Rightarrow> int \<Rightarrow> pass_app \<times> (pass_reply + pow_body \<times> string \<times> int \<times> bool)" where
  "powRead a httpMethod r body now =
     (if httpMethod \<noteq> ''POST'' then (a, Inl (PassHTTP 405 ''POST only''))
      else if rqSid r = [] then (a, Inl (PassHTTP 400 ''no session''))
      else case body of
        None \<Rightarrow> (a, Inl (PassHTTP 400 ''bad body''))
      | Some b \<Rightarrow>
          let (p1, ps) = passGet (paPass a) (rqSid r) now
          in (a\<lparr>paPass := p1\<rparr>, Inr (b, psNonce ps, psPowDifficulty ps, psSolved ps)))"

definition powFinish ::
  "'sk pass_cfg \<Rightarrow> pass_app \<Rightarrow> pass_req \<Rightarrow> pow_body \<Rightarrow> string \<times> int \<times> bool \<Rightarrow> int \<Rightarrow> pass_app \<times> pass_reply" where
  "powFinish C a r body shot now =
     (case (body, shot) of
        ((bucket, solution, chNonce), (issuedNonce, wantBits, solved)) \<Rightarrow>
          let okFlag = (\<not> solved \<and> chNonce = issuedNonce \<and> issuedNonce \<noteq> []
                \<and> powVerify (pkPrims C) (pkMaster C) (passPoWSession (rqSid r) issuedNonce) wantBits bucket (powBucket now) solution);
              p = (if okFlag then passSet (paPass a) (rqSid r) (\<lambda>x. if psNonce x = issuedNonce then x\<lparr>psPowOK := True\<rparr> else x)
                   else paPass a)
          in (a\<lparr>paPass := p\<rparr>, PassPoW okFlag))"

definition handlePassPoW :: "'sk pass_cfg \<Rightarrow> pass_app \<Rightarrow> string \<Rightarrow> pass_req \<Rightarrow> pow_body option \<Rightarrow> int \<Rightarrow> pass_app \<times> pass_reply" where
  "handlePassPoW C a httpMethod r body now =
     (case powRead a httpMethod r body now of
        (a1, Inl reply) \<Rightarrow> (a1, reply)
      | (a1, Inr (b, shot)) \<Rightarrow> powFinish C a1 r b shot now)"

text \<open>
  A solve has two parts: under the lock it takes a try and copies the instance (the ticket), then it checks the copy
  without the lock.
\<close>

record solve_ticket =
  tkTries :: int
  tkDifficulty :: int
  tkBucket :: "64 word"
  tkInstance :: "64 word"
  tkNonce :: string
  tkPowOK :: bool
  tkAttestReq :: bool

definition ticketOf :: "pass_session \<Rightarrow> solve_ticket" where
  "ticketOf ps =
     \<lparr>tkTries = psTries ps, tkDifficulty = psDifficulty ps, tkBucket = psBucket ps, tkInstance = psInstance ps,
      tkNonce = psNonce ps, tkPowOK = psPowOK ps, tkAttestReq = psAttestReq ps\<rparr>"

definition solveBegin ::
  "'sk pass_cfg \<Rightarrow> pass_app \<Rightarrow> string \<Rightarrow> pass_req \<Rightarrow> pass_proof option \<Rightarrow> int \<Rightarrow> pass_app \<times> (pass_reply + pass_proof \<times> solve_ticket)" where
  "solveBegin C a httpMethod r body now =
     (if httpMethod \<noteq> ''POST'' then (a, Inl (PassHTTP 405 ''POST only''))
      else if rqSid r = [] then (a, Inl (PassHTTP 400 ''no session''))
      else case body of
        None \<Rightarrow> (a, Inl (PassHTTP 400 ''bad body''))
      | Some pr \<Rightarrow>
          let (p1, ps) = passGet (paPass a) (rqSid r) now; a1 = a\<lparr>paPass := p1\<rparr>
          in if psSolved ps then (a1, Inl (PassAlready (stepUpReceipt C (rqSid r) now)))
             else if passMaxTries \<le> psTries ps then (a1, Inl (PassReject ''retry cap reached'' 0))
             else let ps1 = ps\<lparr>psTries := psTries ps + 1\<rparr>
                  in (a1\<lparr>paPass := passSet p1 (rqSid r) (\<lambda>_. ps1)\<rparr>, Inr (pr, ticketOf ps1)))"

text \<open>The checks before the puzzle, in order; the reason of the first that fails.\<close>

definition solveGuard :: "'sk pass_cfg \<Rightarrow> string \<Rightarrow> pass_proof \<Rightarrow> solve_ticket \<Rightarrow> int \<Rightarrow> string option" where
  "solveGuard C sid pr tk now =
     (if tkNonce tk = [] \<or> ppChallengeNonce pr \<noteq> tkNonce tk then Some ''stale or missing challenge''
      else if \<not> tkPowOK tk then Some ''no cryptographic preflight''
      else if tkAttestReq tk \<and> \<not> attestVerify (pkPrims C) (pkMaster C) sid (tkNonce tk) (ppAttestToken pr) (attestBucket now)
      then Some ''attestation required''
      else case realEventOK pr of (True, _) \<Rightarrow> None | (False, why) \<Rightarrow> Some why)"

definition solveFinish ::
  "'sk pass_cfg \<Rightarrow> pass_app \<Rightarrow> pass_req \<Rightarrow> pass_proof \<Rightarrow> solve_ticket \<Rightarrow> int \<Rightarrow> pass_app \<times> pass_reply \<times> pass_effect list" where
  "solveFinish C a r pr tk now =
     (let sid = rqSid r;
          left = passMaxTries - tkTries tk;
          a1 = fst (applyPassVelocity C a r now);
          rep0 = reportOf a1 sid;
          label = passLabel (resRiskScore (session_report.Scoring rep0)) r;
          noted = (\<lambda>b passed. b\<lparr>paPass := passRecord (paPass b) label (tkDifficulty tk) passed\<rparr>)
      in case solveGuard C sid pr tk now of
           Some why \<Rightarrow> (noted a1 False, PassReject why left, Outcome rep0 False # publishPass C sid False why)
         | None \<Rightarrow>
             let a2 = applyPassBehavior C a1 sid pr now
             in if \<not> passFresh (tkBucket tk) (passBucket now) then (a2, PassExpired, publishPass C sid False ''expired'')
                else if \<not> passVerify (pkPrims C) (pkMaster C) sid (tkBucket tk) (passBucket now) (tkInstance tk) (tkDifficulty tk) (ppOffsets pr)
                then (noted a2 False, PassReject ''the keys are not all in the slot'' left, publishPass C sid False ''misaligned'')
                else let (p3, isNew) = reserveTrace (paPass a2) (traceDigest (pkPrims C) pr) now; a3 = a2\<lparr>paPass := p3\<rparr>
                     in if \<not> isNew
                        then (noted a3 False, PassReject ''duplicate interaction trace'' left,
                              Outcome rep0 False # publishPass C sid False ''duplicate interaction trace'')
                        else let a4 = noted a3 True;
                                 a5 = a4\<lparr>paPass := passSet (paPass a4) sid (\<lambda>x. x\<lparr>psSolved := True\<rparr>)\<rparr>;
                                 (a6, res) = foldSignals C a5 sid [passSolvedSignal] now
                             in (a6, PassCleared (resVerdict res) (resRiskScore res) (stepUpReceipt C sid now),
                                 publishPass C sid True [] @ [Outcome rep0 True]))"

definition handlePassSolve ::
  "'sk pass_cfg \<Rightarrow> pass_app \<Rightarrow> string \<Rightarrow> pass_req \<Rightarrow> pass_proof option \<Rightarrow> int \<Rightarrow> pass_app \<times> pass_reply \<times> pass_effect list" where
  "handlePassSolve C a httpMethod r body now =
     (case solveBegin C a httpMethod r body now of
        (a1, Inl reply) \<Rightarrow> (a1, reply, [])
      | (a1, Inr (pr, tk)) \<Rightarrow> solveFinish C a1 r pr tk now)"

subsection \<open>The scoreboard\<close>

text \<open>The counters as a list of keys and counts, in the order of the range; a key with another shape is skipped.\<close>

definition kpiParts :: "string \<Rightarrow> (string \<times> string \<times> string) option" where
  "kpiParts k = (case splitOn (CHR ''|'') k of [l, oc, d] \<Rightarrow> Some (l, oc, d) | _ \<Rightarrow> None)"

definition kpiCount :: "(string \<times> string \<times> string \<Rightarrow> bool) \<Rightarrow> (string \<times> int) list \<Rightarrow> int" where
  "kpiCount f snap = sum_list (map (\<lambda>(k, n). case kpiParts k of Some x \<Rightarrow> if f x then n else 0 | None \<Rightarrow> 0) snap)"

definition kpiRate :: "(string \<times> string \<times> string \<Rightarrow> bool) \<Rightarrow> (string \<times> int) list \<Rightarrow> rat" where
  "kpiRate f snap =
     (let att = kpiCount f snap in if att = 0 then 0 else of_int (kpiCount (\<lambda>x. f x \<and> fst (snd x) = ''pass'') snap) / of_int att)"

record pass_kpi =
  kpiBypass :: rat
  kpiBotAttempts :: int
  kpiHumanRate :: rat
  kpiHumanAttempts :: int
  kpiUnknownRate :: rat
  kpiStrategies :: "(string \<times> rat) list"
  kpiDifficulties :: "(string \<times> rat) list"

definition handlePassKPI :: "(string \<times> int) list \<Rightarrow> pass_kpi" where
  "handlePassKPI snap =
     (let parts = List.map_filter (kpiParts \<circ> fst) snap;
          byLabel = (\<lambda>l (x :: string \<times> string \<times> string). fst x = l);
          bots = (\<lambda>x. isBotLabel (fst x))
      in \<lparr>kpiBypass = (if 0 < kpiCount bots snap then kpiRate bots snap else 0), kpiBotAttempts = kpiCount bots snap,
          kpiHumanRate = kpiRate (byLabel ''human'') snap, kpiHumanAttempts = kpiCount (byLabel ''human'') snap,
          kpiUnknownRate = kpiRate (byLabel ''unknown'') snap,
          kpiStrategies = map (\<lambda>l. (l, kpiRate (byLabel l) snap)) (remdups (filter isBotLabel (map fst parts))),
          kpiDifficulties = map (\<lambda>d. (d, kpiRate (\<lambda>x. snd (snd x) = d) snap)) (remdups (map (snd \<circ> snd) parts))\<rparr>)"

end
