(* ===== verification/PassProps.thy ===== *)
theory PassProps
  imports Pass
begin

text \<open>
  What the interactive challenge guarantees over runs of its handlers: a challenge counts as solved only after every
  proof it asks for was given for that challenge, a motor trace clears one challenge, and the tables stay bounded.
\<close>

section \<open>Runs\<close>

text \<open>
  A run is a sequence of requests and of parts of requests: the two handlers that verify without the lock leave what
  they copied in the list of requests in flight, and their second part may come at any later time.
\<close>

datatype in_flight =
    FlyPoW pass_req pow_body "string \<times> int \<times> bool"
  | FlySolve pass_req pass_proof solve_ticket

datatype pass_event =
    EvPage string
  | EvNew pass_req "bytes option"
  | EvAttest string pass_req "string option"
  | EvPoW string pass_req "pow_body option"
  | EvPoWEnd nat
  | EvSolve string pass_req "pass_proof option"
  | EvSolveEnd nat

type_synonym pass_state = "pass_app \<times> in_flight list"

definition passStep :: "'sk pass_cfg \<Rightarrow> pass_state \<Rightarrow> pass_event \<times> int \<Rightarrow> pass_state" where
  "passStep C st evt =
     (case (st, evt) of
        ((a, fl), (ev, now)) \<Rightarrow>
          (case ev of
             EvPage sid \<Rightarrow> (handlePassPage a sid now, fl)
           | EvNew r rnd \<Rightarrow> (fst (handlePassNew C a r rnd now), fl)
           | EvAttest m r body \<Rightarrow> (fst (handlePassAttest C a m r body now), fl)
           | EvPoW m r body \<Rightarrow>
               (case powRead a m r body now of
                  (a1, Inl reply) \<Rightarrow> (a1, fl)
                | (a1, Inr (b, shot)) \<Rightarrow> (a1, fl @ [FlyPoW r b shot]))
           | EvPoWEnd k \<Rightarrow>
               (if k < length fl
                then case fl ! k of FlyPoW r b shot \<Rightarrow> (fst (powFinish C a r b shot now), fl) | _ \<Rightarrow> (a, fl)
                else (a, fl))
           | EvSolve m r body \<Rightarrow>
               (case solveBegin C a m r body now of
                  (a1, Inl reply) \<Rightarrow> (a1, fl)
                | (a1, Inr (pr, tk)) \<Rightarrow> (a1, fl @ [FlySolve r pr tk]))
           | EvSolveEnd k \<Rightarrow>
               (if k < length fl
                then case fl ! k of FlySolve r pr tk \<Rightarrow> (fst (solveFinish C a r pr tk now), fl) | _ \<Rightarrow> (a, fl)
                else (a, fl))))"

definition passRun :: "'sk pass_cfg \<Rightarrow> pass_state \<Rightarrow> (pass_event \<times> int) list \<Rightarrow> pass_state" where
  "passRun C st evs = foldl (passStep C) st evs"

definition passOf :: "pass_state \<Rightarrow> string \<Rightarrow> pass_session option" where
  "passOf st sid = map_of (pmSessions (paPass (fst st))) sid"

section \<open>Invariants of the table\<close>

text \<open>A property of every entry of the table.\<close>

definition allPass :: "(string \<Rightarrow> pass_session \<Rightarrow> bool) \<Rightarrow> pass_store \<Rightarrow> bool" where
  "allPass J p \<longleftrightarrow> (\<forall>(sid, ps) \<in> set (pmSessions p). J sid ps)"

lemma allPass_lookup: "allPass J p \<Longrightarrow> map_of (pmSessions p) sid = Some ps \<Longrightarrow> J sid ps"
  by (auto simp: allPass_def dest!: map_of_SomeD)

lemma allPass_update: "allPass J p \<Longrightarrow> J sid ps \<Longrightarrow> allPass J (p\<lparr>pmSessions := AList.update sid ps (pmSessions p)\<rparr>)"
  using set_alist_update by (fastforce simp: allPass_def)

lemma allPass_set: "allPass J p \<Longrightarrow> (\<And>ps. map_of (pmSessions p) sid = Some ps \<Longrightarrow> J sid (f ps)) \<Longrightarrow> allPass J (passSet p sid f)"
  by (auto simp: passSet_def intro: allPass_update split: option.split)

lemma allPass_other [simp]:
  "allPass J (p\<lparr>pmMetrics := m\<rparr>) = allPass J p" "allPass J (p\<lparr>pmTraces := t\<rparr>) = allPass J p"
  "allPass J (p\<lparr>pmLastSweep := l\<rparr>) = allPass J p"
  by (simp_all add: allPass_def)

lemma allPass_record [simp]: "allPass J (passRecord p label d passed) = allPass J p"
  by (simp add: passRecord_def Let_def)

lemma allPass_sweep [simp]: "allPass J (sweepTraces p now) = allPass J p"
  by (simp add: sweepTraces_def)

lemma allPass_reserve [simp]: "allPass J (fst (reserveTrace p dg now)) = allPass J p"
  by (simp add: reserveTrace_def Let_def)

text \<open>
  What the handlers rely on: the property holds of a new entry, and does not look at the fields that the velocity
  governor and the counting of tries change.
\<close>

locale pass_invariant =
  fixes J :: "string \<Rightarrow> pass_session \<Rightarrow> bool"
  assumes inv_fresh: "J sid (freshPass now)"
    and inv_vel: "J sid ps \<Longrightarrow> J sid (ps\<lparr>psVelLevel := l\<rparr>)"
    and inv_tries: "J sid ps \<Longrightarrow> J sid (ps\<lparr>psTries := n\<rparr>)"
begin

lemma get_inv:
  assumes "allPass J p" "passGet p sid now = (p', ps)"
  shows "allPass J p' \<and> J sid ps"
proof -
  define p1 where "p1 = (if maxPassSessions < length (pmSessions p)
      then p\<lparr>pmSessions := filter (\<lambda>(k, ps). \<not> psIssuedAt ps < now - passStale) (pmSessions p)\<rparr> else p)"
  have "allPass J p1" using assms(1) by (auto simp: p1_def allPass_def)
  then show ?thesis
    using assms(2) allPass_lookup [of J p1 sid] inv_fresh
    by (auto simp: passGet_def p1_def [symmetric] Let_def intro: allPass_update split: option.splits if_splits)
qed

lemma velocity_inv:
  assumes "allPass J (paPass a)"
  shows "allPass J (paPass (fst (applyPassVelocity C a r now)))"
proof -
  obtain p1 ps where g: "passGet (paPass a) (rqSid r) now = (p1, ps)" by fastforce
  have "allPass J p1" using get_inv [OF assms g] by simp
  then have "allPass J (passSet p1 (rqSid r) (\<lambda>x. x\<lparr>psVelLevel := l\<rparr>))" for l
    using allPass_lookup inv_vel by (intro allPass_set) blast+
  then show ?thesis
    using assms g \<open>allPass J p1\<close> by (auto simp: applyPassVelocity_def foldSignals_def split_beta Let_def)
qed

end

lemma length_alist_update: "length (AList.update k v xs) = (if k \<in> fst ` set xs then length xs else Suc (length xs))"
  by (induction xs) auto

lemma foldSignals_pass [simp]: "paPass (fst (foldSignals C a sid sigs now)) = paPass a"
  by (simp add: foldSignals_def split_beta)

lemma behavior_pass [simp]: "paPass (applyPassBehavior C a sid pr now) = paPass a"
  by (simp add: applyPassBehavior_def)

lemma record_sessions [simp]: "pmSessions (passRecord p label d passed) = pmSessions p"
  by (simp add: passRecord_def Let_def)

lemma reserve_sessions [simp]: "pmSessions (fst (reserveTrace p dg now)) = pmSessions p"
  by (simp add: reserveTrace_def sweepTraces_def Let_def)

section \<open>A solved challenge is earned\<close>

text \<open>
  What the events so far show.  \<open>issued C ttl evs sid n b inst d w att\<close>: at some point of the run the reply to a session was
  a challenge with this nonce, bucket, instance and difficulty, a proof of work of \<open>w\<close> bits, and \<open>att\<close> as its demand
  for an attestation.  \<open>workPaid\<close>: the proof of work of a challenge with this nonce was given.  \<open>solvedOnce\<close>: a solve
  of the session passed every check of a challenge issued to it.
\<close>

definition issued ::
  "'sk pass_cfg \<Rightarrow> int \<Rightarrow> (pass_event \<times> int) list \<Rightarrow> string \<Rightarrow> string \<Rightarrow> 64 word \<Rightarrow> 64 word \<Rightarrow> int \<Rightarrow> int \<Rightarrow> bool \<Rightarrow> bool" where
  "issued C ttl evs sid n b inst d w att \<longleftrightarrow>
     (\<exists>pre r raw t post. evs = pre @ (EvNew r (Some raw), t) # post \<and> rqSid r = sid
        \<and> n = hexEncode raw \<and> b = passBucket t
        \<and> snd (handlePassNew C (fst (passRun C (newPassApp ttl, []) pre)) r (Some raw) t) =
            PassIssued b d (passGenerate (pkPrims C) (pkMaster C) sid b inst d) n passMaxTries (passWindow * 2)
              (powIssue (pkPrims C) (pkMaster C) (passPoWSession sid n) w (powBucket t)) att)"

definition workPaid :: "'sk pass_cfg \<Rightarrow> int \<Rightarrow> (pass_event \<times> int) list \<Rightarrow> string \<Rightarrow> string \<Rightarrow> bool" where
  "workPaid C ttl evs sid n \<longleftrightarrow>
     (\<exists>r bucket x t t' k b inst d w att. (EvPoW ''POST'' r (Some (bucket, x, n)), t) \<in> set evs \<and> rqSid r = sid
        \<and> (EvPoWEnd k, t') \<in> set evs \<and> issued C ttl evs sid n b inst d w att \<and> 14 \<le> w
        \<and> powVerify (pkPrims C) (pkMaster C) (passPoWSession sid n) w bucket (powBucket t') x)"

definition solvedOnce :: "'sk pass_cfg \<Rightarrow> int \<Rightarrow> (pass_event \<times> int) list \<Rightarrow> string \<Rightarrow> bool" where
  "solvedOnce C ttl evs sid \<longleftrightarrow>
     (\<exists>r pr t t' k b inst d w att. (EvSolve ''POST'' r (Some pr), t) \<in> set evs \<and> rqSid r = sid \<and> (EvSolveEnd k, t') \<in> set evs
        \<and> issued C ttl evs sid (ppChallengeNonce pr) b inst d w att \<and> workPaid C ttl evs sid (ppChallengeNonce pr)
        \<and> (att \<longrightarrow> attestVerify (pkPrims C) (pkMaster C) sid (ppChallengeNonce pr) (ppAttestToken pr) (attestBucket t'))
        \<and> fst (realEventOK pr)
        \<and> passVerify (pkPrims C) (pkMaster C) sid b (passBucket t') inst d (ppOffsets pr))"

definition entryJust :: "'sk pass_cfg \<Rightarrow> int \<Rightarrow> (pass_event \<times> int) list \<Rightarrow> string \<Rightarrow> pass_session \<Rightarrow> bool" where
  "entryJust C ttl evs sid ps \<longleftrightarrow>
     (psNonce ps \<noteq> [] \<longrightarrow>
        issued C ttl evs sid (psNonce ps) (psBucket ps) (psInstance ps) (psDifficulty ps) (psPowDifficulty ps) (psAttestReq ps)
        \<and> 14 \<le> psPowDifficulty ps)
     \<and> (psPowOK ps \<longrightarrow> workPaid C ttl evs sid (psNonce ps)) \<and> (psSolved ps \<longrightarrow> solvedOnce C ttl evs sid)"

definition flightJust :: "'sk pass_cfg \<Rightarrow> int \<Rightarrow> (pass_event \<times> int) list \<Rightarrow> in_flight \<Rightarrow> bool" where
  "flightJust C ttl evs f \<longleftrightarrow>
     (case f of
        FlyPoW r b (n, w, solved) \<Rightarrow>
          (\<exists>t. (EvPoW ''POST'' r (Some b), t) \<in> set evs)
          \<and> (n \<noteq> [] \<longrightarrow> 14 \<le> w \<and> (\<exists>b inst d att. issued C ttl evs (rqSid r) n b inst d w att))
      | FlySolve r pr tk \<Rightarrow>
          (\<exists>t. (EvSolve ''POST'' r (Some pr), t) \<in> set evs)
          \<and> (tkNonce tk \<noteq> [] \<longrightarrow>
               (\<exists>w. issued C ttl evs (rqSid r) (tkNonce tk) (tkBucket tk) (tkInstance tk) (tkDifficulty tk) w (tkAttestReq tk)))
          \<and> (tkPowOK tk \<longrightarrow> workPaid C ttl evs (rqSid r) (tkNonce tk)))"

interpretation just: pass_invariant "entryJust C ttl evs" for C ttl evs
  by unfold_locales (simp_all add: entryJust_def freshPass_def)

definition stateJust :: "'sk pass_cfg \<Rightarrow> int \<Rightarrow> (pass_event \<times> int) list \<Rightarrow> pass_state \<Rightarrow> bool" where
  "stateJust C ttl evs st \<longleftrightarrow> allPass (entryJust C ttl evs) (paPass (fst st)) \<and> (\<forall>f \<in> set (snd st). flightJust C ttl evs f)"

lemma issued_now:
  assumes "snd (handlePassNew C (fst (passRun C (newPassApp ttl, []) evs)) r (Some raw) t) =
      PassIssued (passBucket t) d (passGenerate (pkPrims C) (pkMaster C) (rqSid r) (passBucket t) inst d)
        (hexEncode raw) passMaxTries (passWindow * 2)
        (powIssue (pkPrims C) (pkMaster C) (passPoWSession (rqSid r) (hexEncode raw)) w (powBucket t)) att"
  shows "issued C ttl (evs @ [(EvNew r (Some raw), t)]) (rqSid r) (hexEncode raw) (passBucket t) inst d w att"
  unfolding issued_def using assms by blast

text \<open>More events keep what was shown.\<close>

lemma issued_mono: "issued C ttl evs sid n b inst d w att \<Longrightarrow> issued C ttl (evs @ xs) sid n b inst d w att"
  unfolding issued_def by fastforce

lemma workPaid_mono: "workPaid C ttl evs sid n \<Longrightarrow> workPaid C ttl (evs @ xs) sid n"
  unfolding workPaid_def using issued_mono by fastforce

lemma solvedOnce_mono: "solvedOnce C ttl evs sid \<Longrightarrow> solvedOnce C ttl (evs @ xs) sid"
  unfolding solvedOnce_def using issued_mono workPaid_mono by fastforce

lemmas just_monos = issued_mono workPaid_mono solvedOnce_mono

lemma entryJust_mono: "entryJust C ttl evs sid ps \<Longrightarrow> entryJust C ttl (evs @ xs) sid ps"
  unfolding entryJust_def by (auto intro: just_monos)

lemma flightJust_mono: "flightJust C ttl evs f \<Longrightarrow> flightJust C ttl (evs @ xs) f"
  unfolding flightJust_def by (auto split: in_flight.splits prod.splits intro: just_monos) (blast intro: issued_mono)

lemma stateJust_mono: "stateJust C ttl evs st \<Longrightarrow> stateJust C ttl (evs @ xs) st"
  by (auto simp: stateJust_def allPass_def intro: entryJust_mono flightJust_mono)

lemma passDifficulty_range: "0 \<le> passDifficulty a r \<and> passDifficulty a r \<le> 3"
  by (simp add: passDifficulty_def Let_def)

lemma level_range: "0 \<le> RateLimit.Level l c"
  by (simp add: RateLimit.Level_def)

lemma velocity_level: "0 \<le> fst (snd (applyPassVelocity C a r now))"
  using level_range by (simp add: applyPassVelocity_def Let_def split_beta)

lemma new_just:
  assumes inv: "allPass (entryJust C ttl evs) (paPass a)"
    and iss: "\<And>raw inst d w att. rnd = Some raw \<Longrightarrow>
      snd (handlePassNew C a r rnd now) =
        PassIssued (passBucket now) d (passGenerate (pkPrims C) (pkMaster C) (rqSid r) (passBucket now) inst d)
          (hexEncode raw) passMaxTries (passWindow * 2)
          (powIssue (pkPrims C) (pkMaster C) (passPoWSession (rqSid r) (hexEncode raw)) w (powBucket now)) att \<Longrightarrow>
      issued C ttl evs (rqSid r) (hexEncode raw) (passBucket now) inst d w att"
  shows "allPass (entryJust C ttl evs) (paPass (fst (handlePassNew C a r rnd now)))"
proof -
  obtain p1 ps0 where g: "passGet (paPass a) (rqSid r) now = (p1, ps0)" by fastforce
  have 1: "allPass (entryJust C ttl evs) (paPass (a\<lparr>paPass := p1\<rparr>))" using just.get_inv [OF inv g] by simp
  obtain a2 v l where ap: "applyPassVelocity C (a\<lparr>paPass := p1\<rparr>) r now = (a2, v, l)" by (metis prod.exhaust)
  have 2: "allPass (entryJust C ttl evs) (paPass a2)" "0 \<le> v"
    using just.velocity_inv [OF 1, of C r now] velocity_level [of C "a\<lparr>paPass := p1\<rparr>" r now] by (simp_all add: ap)
  show ?thesis
  proof (cases rnd)
    case None
    then show ?thesis using 1 by (simp add: handlePassNew_def g passNonce_def)
  next
    case (Some raw)
    define ps where "ps = newInstance a2 r (hexEncode raw) v l now (case map_of (pmSessions (paPass a2)) (rqSid r) of Some x \<Rightarrow> x | None \<Rightarrow> ps0)"
    have f: "psBucket ps = passBucket now" "psNonce ps = hexEncode raw" "\<not> psPowOK ps" "\<not> psSolved ps" "14 \<le> psPowDifficulty ps"
      using passDifficulty_range [of a2 r] 2(2) by (simp_all add: ps_def newInstance_def Let_def)
    have "issued C ttl evs (rqSid r) (hexEncode raw) (passBucket now) (psInstance ps) (psDifficulty ps) (psPowDifficulty ps) (psAttestReq ps)"
      by (rule iss [OF Some]) (simp add: Some handlePassNew_def g ap passNonce_def ps_def [symmetric] f)
    then have "entryJust C ttl evs (rqSid r) ps" using f by (simp add: entryJust_def)
    then have "allPass (entryJust C ttl evs) (passSet (paPass a2) (rqSid r) (\<lambda>_. ps))" by (intro allPass_set [OF 2(1)])
    then show ?thesis by (simp add: Some handlePassNew_def g ap passNonce_def ps_def [symmetric])
  qed
qed

lemma attest_just:
  assumes "allPass (entryJust C ttl evs) (paPass a)"
  shows "allPass (entryJust C ttl evs) (paPass (fst (handlePassAttest C a m r body now)))"
proof -
  obtain p1 ps where g: "passGet (paPass a) (rqSid r) now = (p1, ps)" by fastforce
  then show ?thesis
    using assms just.get_inv [OF assms g] by (auto simp: handlePassAttest_def split_beta Let_def split: option.split)
qed

lemma powRead_just:
  assumes "allPass (entryJust C ttl evs) (paPass a)" "(EvPoW m r body, now) \<in> set evs"
  shows "allPass (entryJust C ttl evs) (paPass (fst (powRead a m r body now)))
    \<and> (\<forall>b shot. snd (powRead a m r body now) = Inr (b, shot) \<longrightarrow> flightJust C ttl evs (FlyPoW r b shot))"
proof -
  obtain p1 ps where g: "passGet (paPass a) (rqSid r) now = (p1, ps)" by fastforce
  have "allPass (entryJust C ttl evs) p1" "entryJust C ttl evs (rqSid r) ps" using just.get_inv [OF assms(1) g] by simp_all
  then show ?thesis
    using assms g by (auto simp: powRead_def flightJust_def entryJust_def split: option.split)
qed

lemma powFinish_just:
  assumes "allPass (entryJust C ttl evs) (paPass a)" "flightJust C ttl evs (FlyPoW r b shot)" "(EvPoWEnd k, now) \<in> set evs"
  shows "allPass (entryJust C ttl evs) (paPass (fst (powFinish C a r b shot now)))"
proof -
  obtain bucket x c n d solved where b: "b = (bucket, x, c)" "shot = (n, d, solved)" by (cases b, cases shot) auto
  have "allPass (entryJust C ttl evs) (passSet (paPass a) (rqSid r) (\<lambda>y. if psNonce y = n then y\<lparr>psPowOK := True\<rparr> else y))"
    if "c = n" "n \<noteq> []" "powVerify (pkPrims C) (pkMaster C) (passPoWSession (rqSid r) n) d bucket (powBucket now) x"
  proof (rule allPass_set [OF assms(1)])
    fix y
    assume "map_of (pmSessions (paPass a)) (rqSid r) = Some y"
    then have y: "entryJust C ttl evs (rqSid r) y" by (rule allPass_lookup [OF assms(1)])
    have "workPaid C ttl evs (rqSid r) n"
      using assms(2,3) that unfolding workPaid_def flightJust_def by (auto simp: b) blast
    then show "entryJust C ttl evs (rqSid r) (if psNonce y = n then y\<lparr>psPowOK := True\<rparr> else y)"
      using y by (auto simp: entryJust_def)
  qed
  then show ?thesis using assms(1) by (auto simp: powFinish_def b Let_def)
qed

lemma solveBegin_just:
  assumes "allPass (entryJust C ttl evs) (paPass a)" "(EvSolve m r body, now) \<in> set evs"
  shows "allPass (entryJust C ttl evs) (paPass (fst (solveBegin C a m r body now)))
    \<and> (\<forall>pr tk. snd (solveBegin C a m r body now) = Inr (pr, tk) \<longrightarrow> flightJust C ttl evs (FlySolve r pr tk))"
proof -
  obtain p1 ps where g: "passGet (paPass a) (rqSid r) now = (p1, ps)" by fastforce
  have 1: "allPass (entryJust C ttl evs) p1" "entryJust C ttl evs (rqSid r) ps" using just.get_inv [OF assms(1) g] by simp_all
  have j: "entryJust C ttl evs (rqSid r) (ps\<lparr>psTries := psTries ps + 1\<rparr>)" using just.inv_tries [OF 1(2)] .
  then have "allPass (entryJust C ttl evs) (passSet p1 (rqSid r) (\<lambda>_. ps\<lparr>psTries := psTries ps + 1\<rparr>))"
    by (intro allPass_set [OF 1(1)]) simp
  then show ?thesis
    using assms 1 j by (auto simp: solveBegin_def g Let_def flightJust_def ticketOf_def entryJust_def split: option.split)
qed

text \<open>The part of a solve without the lock only writes the mark, and only past every check.\<close>

definition cleared :: "'sk pass_cfg \<Rightarrow> string \<Rightarrow> pass_proof \<Rightarrow> solve_ticket \<Rightarrow> int \<Rightarrow> bool" where
  "cleared C sid pr tk now \<longleftrightarrow>
     solveGuard C sid pr tk now = None
     \<and> passVerify (pkPrims C) (pkMaster C) sid (tkBucket tk) (passBucket now) (tkInstance tk) (tkDifficulty tk) (ppOffsets pr)"

lemma guard_passed:
  assumes "solveGuard C sid pr tk now = None"
  shows "tkNonce tk \<noteq> []" "ppChallengeNonce pr = tkNonce tk" "tkPowOK tk" "fst (realEventOK pr)"
    "tkAttestReq tk \<Longrightarrow> attestVerify (pkPrims C) (pkMaster C) sid (tkNonce tk) (ppAttestToken pr) (attestBucket now)"
  using assms by (auto simp: solveGuard_def split: if_splits prod.splits bool.splits)

lemma finish_table:
  assumes "allPass J (paPass (fst (applyPassVelocity C a r now)))"
    and "\<And>x. cleared C (rqSid r) pr tk now \<Longrightarrow> J (rqSid r) x \<Longrightarrow> J (rqSid r) (x\<lparr>psSolved := True\<rparr>)"
  shows "allPass J (paPass (fst (solveFinish C a r pr tk now)))"
proof -
  have "allPass J (passSet p (rqSid r) (\<lambda>x. x\<lparr>psSolved := True\<rparr>))" if "allPass J p" "cleared C (rqSid r) pr tk now" for p
    using that assms(2) allPass_lookup by (intro allPass_set) blast+
  then show ?thesis
    using assms(1) unfolding solveFinish_def Let_def cleared_def by (auto simp: split_beta split: option.split)
qed

lemma solveFinish_just:
  assumes "allPass (entryJust C ttl evs) (paPass a)" "flightJust C ttl evs (FlySolve r pr tk)" "(EvSolveEnd k, now) \<in> set evs"
  shows "allPass (entryJust C ttl evs) (paPass (fst (solveFinish C a r pr tk now)))"
proof (rule finish_table [OF just.velocity_inv [OF assms(1)]])
  fix x
  assume c: "cleared C (rqSid r) pr tk now" and x: "entryJust C ttl evs (rqSid r) x"
  have guard: "solveGuard C (rqSid r) pr tk now = None"
    and pv: "passVerify (pkPrims C) (pkMaster C) (rqSid r) (tkBucket tk) (passBucket now) (tkInstance tk) (tkDifficulty tk) (ppOffsets pr)"
    using c by (simp_all add: cleared_def)
  note gp = guard_passed [OF guard]
  obtain t where t: "(EvSolve ''POST'' r (Some pr), t) \<in> set evs" using assms(2) by (auto simp: flightJust_def)
  obtain w where "issued C ttl evs (rqSid r) (ppChallengeNonce pr) (tkBucket tk) (tkInstance tk) (tkDifficulty tk) w (tkAttestReq tk)"
    using assms(2) gp(1,2) by (auto simp: flightJust_def)
  moreover have "workPaid C ttl evs (rqSid r) (ppChallengeNonce pr)" using assms(2) gp(2,3) by (simp add: flightJust_def)
  moreover have "tkAttestReq tk \<longrightarrow> attestVerify (pkPrims C) (pkMaster C) (rqSid r) (ppChallengeNonce pr) (ppAttestToken pr) (attestBucket now)"
    using gp(2,5) by simp
  ultimately have "solvedOnce C ttl evs (rqSid r)"
    using t assms(3) gp(4) pv unfolding solvedOnce_def by blast
  then show "entryJust C ttl evs (rqSid r) (x\<lparr>psSolved := True\<rparr>)" using x by (simp add: entryJust_def)
qed

lemma step_just:
  assumes "stateJust C ttl evs0 st" "st = passRun C (newPassApp ttl, []) evs0" and evs: "evs = evs0 @ [(ev, now)]"
  shows "stateJust C ttl evs (passStep C st (ev, now))"
proof -
  obtain a fl where st: "st = (a, fl)" by (cases st)
  have a: "allPass (entryJust C ttl evs) (paPass a)" and fl: "\<forall>f \<in> set fl. flightJust C ttl evs f"
    using stateJust_mono [OF assms(1)] by (simp_all add: stateJust_def st evs)
  have run: "passRun C (newPassApp ttl, []) evs0 = (a, fl)" using assms(2) st by simp
  have mem: "(ev, now) \<in> set evs" by (simp add: evs)
  have fly: "flightJust C ttl evs (fl ! k)" if "k < length fl" for k using fl that by simp
  show ?thesis
  proof (cases ev)
    case (EvNew r rnd)
    have "allPass (entryJust C ttl evs) (paPass (fst (handlePassNew C a r rnd now)))"
    proof (rule new_just [OF a])
      fix raw inst d w att
      assume "rnd = Some raw" and "snd (handlePassNew C a r rnd now) =
        PassIssued (passBucket now) d (passGenerate (pkPrims C) (pkMaster C) (rqSid r) (passBucket now) inst d)
          (hexEncode raw) passMaxTries (passWindow * 2)
          (powIssue (pkPrims C) (pkMaster C) (passPoWSession (rqSid r) (hexEncode raw)) w (powBucket now)) att"
      then show "issued C ttl evs (rqSid r) (hexEncode raw) (passBucket now) inst d w att"
        using issued_now [of C ttl evs0 r raw now] by (simp add: run evs EvNew)
    qed
    then show ?thesis using fl EvNew by (simp add: passStep_def st stateJust_def)
  next
    case (EvPoW m r body)
    show ?thesis using powRead_just [OF a mem [unfolded EvPoW]] fl EvPoW
      by (auto simp: passStep_def st stateJust_def split: prod.splits sum.splits)
  next
    case (EvPoWEnd k)
    have "allPass (entryJust C ttl evs) (paPass (fst (powFinish C a r b shot now)))"
      if "k < length fl" "fl ! k = FlyPoW r b shot" for r b shot
      using powFinish_just [OF a _ mem [unfolded EvPoWEnd]] fly [of k] that by simp
    then show ?thesis using a fl EvPoWEnd by (cases "fl ! k") (simp_all add: passStep_def st stateJust_def)
  next
    case (EvSolve m r body)
    show ?thesis using solveBegin_just [OF a mem [unfolded EvSolve]] fl EvSolve
      by (auto simp: passStep_def st stateJust_def split: prod.splits sum.splits)
  next
    case (EvSolveEnd k)
    have "allPass (entryJust C ttl evs) (paPass (fst (solveFinish C a r pr tk now)))"
      if "k < length fl" "fl ! k = FlySolve r pr tk" for r pr tk
      using solveFinish_just [OF a _ mem [unfolded EvSolveEnd]] fly [of k] that by simp
    then show ?thesis using a fl EvSolveEnd by (cases "fl ! k") (simp_all add: passStep_def st stateJust_def)
  qed (use a fl attest_just in \<open>auto simp: passStep_def st stateJust_def handlePassPage_def\<close>)
qed

lemma passRun_just: "stateJust C ttl evs (passRun C (newPassApp ttl, []) evs)"
proof (induction evs rule: rev_induct)
  case Nil
  then show ?case by (simp add: passRun_def stateJust_def newPassApp_def newPassStore_def allPass_def)
next
  case (snoc e evs)
  obtain ev now where e: "e = (ev, now)" by (cases e)
  have "stateJust C ttl (evs @ [e]) (passStep C (passRun C (newPassApp ttl, []) evs) e)"
    unfolding e by (rule step_just [OF snoc]) simp_all
  then show ?case by (simp add: passRun_def)
qed

text \<open>
  C40: a session clears the challenge only by what it asks for.  In every run, with requests that overlap as the
  locks allow, when the entry of a session is marked as solved then some POST of the session carried the nonce of a
  challenge the server had sent to this session, passed the real-event filter, aligned the rows of the very
  puzzle that was sent while it was fresh, and held an attestation for it when the challenge asked for one; and the
  proof of work of a challenge with this nonce, of at least 14 bits and bound to session and nonce, was paid by a POST.
\<close>

theorem pass_is_earned:
  assumes "passOf (passRun C (newPassApp ttl, []) evs) sid = Some ps" "psSolved ps"
  shows "\<exists>r pr t t' k b inst d w att.
           (EvSolve ''POST'' r (Some pr), t) \<in> set evs \<and> rqSid r = sid \<and> (EvSolveEnd k, t') \<in> set evs
           \<and> issued C ttl evs sid (ppChallengeNonce pr) b inst d w att
           \<and> workPaid C ttl evs sid (ppChallengeNonce pr)
           \<and> (att \<longrightarrow> attestVerify (pkPrims C) (pkMaster C) sid (ppChallengeNonce pr) (ppAttestToken pr) (attestBucket t'))
           \<and> fst (realEventOK pr)
           \<and> passVerify (pkPrims C) (pkMaster C) sid b (passBucket t') inst d (ppOffsets pr)"
proof -
  have "allPass (entryJust C ttl evs) (paPass (fst (passRun C (newPassApp ttl, []) evs)))"
    using passRun_just [of C ttl evs] by (simp add: stateJust_def)
  then have "entryJust C ttl evs sid ps" using allPass_lookup assms(1) by (fastforce simp: passOf_def)
  then have "solvedOnce C ttl evs sid" using assms(2) by (simp add: entryJust_def)
  then show ?thesis unfolding solvedOnce_def .
qed

section \<open>A run that clears a challenge\<close>

lemma set_entry: "map_of (pmSessions p) sid = Some ps \<Longrightarrow> map_of (pmSessions (passSet p sid f)) sid = Some (f ps)"
  by (simp add: passSet_def update_conv')

lemma finish_marks:
  assumes "cleared C (rqSid r) pr tk now"
    and "snd (reserveTrace (paPass (fst (applyPassVelocity C a r now))) (traceDigest (pkPrims C) pr) now)"
    and "map_of (pmSessions (paPass (fst (applyPassVelocity C a r now)))) (rqSid r) = Some x"
  shows "map_of (pmSessions (paPass (fst (solveFinish C a r pr tk now)))) (rqSid r) = Some (x\<lparr>psSolved := True\<rparr>)"
proof -
  have "passFresh (tkBucket tk) (passBucket now)" using assms(1) by (auto simp: cleared_def passVerify_def split: if_splits)
  then show ?thesis
    using assms unfolding solveFinish_def cleared_def Let_def
    by (simp add: split_beta set_entry)
qed

definition exCfg :: "bytes pass_cfg" where
  "exCfg = \<lparr>pkPrims = toyPrims, pkMaster = exPowKey, pkEnv = exEnv, pkEngine = NewEngine, pkStepUp = None, pkHub = False\<rparr>"

definition exReq :: pass_req where "exReq = \<lparr>rqSid = ''s'', rqFP = ''f'', rqRed = []\<rparr>"

definition exProof :: pass_proof where
  "exProof = \<lparr>ppBucket = 0, ppChallengeNonce = ''6e'', ppAttestToken = [],
     ppOffsets = SolutionOffsets toyPrims exPowKey ''s'' 0 1 0, ppTrusted = True, ppMoves = 0, ppCoalesced = 0,
     ppDurations = [], ppPathLen = 0, ppRawT = [], ppPressures = [], ppPointerType = [], ppKeys = 3, ppKeyDurs = [], ppMotion = []\<rparr>"

definition exPassEvents :: "(pass_event \<times> int) list" where
  "exPassEvents =
     [(EvNew exReq (Some ''n''), 0), (EvPoW ''POST'' exReq (Some (0, ''1'', ''6e'')), 0), (EvPoWEnd 0, 0),
      (EvSolve ''POST'' exReq (Some exProof), 0), (EvSolveEnd 1, 0)]"

definition exPass :: pass_session where
  "exPass = \<lparr>psBucket = 0, psInstance = 1, psDifficulty = 0, psIssuedAt = 0, psTries = 0, psSolved = False, psNonce = ''6e'',
     psPowDifficulty = 14, psPowOK = False, psVelLevel = 0, psAttestReq = False\<rparr>"

definition exApp :: "pass_session list \<Rightarrow> int list \<Rightarrow> pass_app" where
  "exApp ps hs =
     \<lparr>paStore = NewStore 60, paPass = newPassStore\<lparr>pmSessions := map (Pair ''s'') ps\<rparr>,
      paVel = (NewLimiter 30000000000 4 8)\<lparr>lhits := (if hs = [] then Map.empty else [''s|s'' \<mapsto> hs, ''f|f'' \<mapsto> hs])\<rparr>,
      paAttest = NewLimiter 30000000000 3 3\<rparr>"

lemma exApp_new: "newPassApp 60 = exApp [] []"
  by (simp add: exApp_def newPassApp_def newPassStore_def NewLimiter_def)

lemma exApp_get: "passGet (paPass (exApp ps hs)) ''s'' 0 = (paPass (exApp (if ps = [] then [freshPass 0] else ps) hs), if ps = [] then freshPass 0 else hd ps)"
  if "length ps \<le> 1"
  using that by (cases ps) (auto simp: exApp_def passGet_def newPassStore_def maxPassSessions_def Let_def)

lemma exApp_pass: "(exApp ps hs)\<lparr>paPass := paPass (exApp qs hs')\<rparr> = exApp qs hs"
  by (simp add: exApp_def)

lemma exApp_set: "passSet (paPass (exApp [ps] hs)) ''s'' f = paPass (exApp [f ps] hs)"
  by (simp add: exApp_def passSet_def newPassStore_def)

lemma exApp_velocity:
  assumes "hs \<in> {[], [0]}"
  shows "applyPassVelocity C (exApp ps hs) exReq 0 = (exApp ps (hs @ [0]), 0, 0)"
  using assms
  by (auto simp: exApp_def applyPassVelocity_def exReq_def RateLimit.Observe_def RateLimit.Level_def hitsOf_def NewLimiter_def Let_def)

lemma exApp_report: "reportOf (exApp ps hs) sid = zeroReport"
  by (simp add: exApp_def reportOf_def GetReport_def)

lemma exPass_new: "fst (handlePassNew exCfg (exApp [] []) exReq (Some ''n'') 0) = exApp [exPass] [0]"
proof -
  have h: "hexEncode ''n'' = ''6e''" by (simp add: hexEncode_def hexByte_def hexDigits_def)
  have d: "passDifficulty a exReq = 0" if "a = exApp ps hs" for a ps hs
    by (simp add: that passDifficulty_def exReq_def exApp_report zeroReport_def truncRat_def)
  have s: "rqSid exReq = ''s''" by (simp add: exReq_def)
  have m: "map_of (pmSessions (paPass (exApp [x] hs))) ''s'' = Some x" for x hs by (simp add: exApp_def)
  show ?thesis
    by (simp add: handlePassNew_def s exApp_get exApp_pass exApp_velocity passNonce_def h m exApp_set newInstance_def d [OF refl]
        freshPass_def exPass_def passBucket_def unixOf_def Let_def)
qed

lemma exPass_read:
  "powRead (exApp [exPass] [0]) ''POST'' exReq (Some (0, ''1'', ''6e'')) 0 =
     (exApp [exPass] [0], Inr ((0, ''1'', ''6e''), ''6e'', 14, False))"
  by (simp add: powRead_def exReq_def exApp_get exApp_set exApp_pass exPass_def Let_def)

lemma exPass_pow:
  "fst (powFinish exCfg (exApp [exPass] [0]) exReq (0, ''1'', ''6e'') (''6e'', 14, False) 0) = exApp [exPass\<lparr>psPowOK := True\<rparr>] [0]"
proof -
  have "powVerify toyPrims exPowKey (passPoWSession ''s'' ''6e'') 14 0 (powBucket 0) ''1''"
    by (simp add: powVerify_def withinBucket_def powBucket_def unixOf_def powWindow_def meetsTarget_def seedBytes_def
        exPowKey_def toyPrims_def pad32_def leadingZeroBits_def numeral_eq_Suc)
  then show ?thesis
    by (simp add: powFinish_def exReq_def exApp_get exApp_set exApp_pass exPass_def exCfg_def Let_def)
qed

abbreviation exPaid :: pass_session where "exPaid \<equiv> exPass\<lparr>psPowOK := True, psTries := 1\<rparr>"

lemma exPass_begin:
  "solveBegin exCfg (exApp [exPass\<lparr>psPowOK := True\<rparr>] [0]) ''POST'' exReq (Some exProof) 0 = (exApp [exPaid] [0], Inr (exProof, ticketOf exPaid))"
  by (simp add: solveBegin_def exReq_def exApp_get exApp_set exApp_pass exPass_def passMaxTries_def Let_def)

lemma exPass_cleared: "cleared exCfg (rqSid exReq) exProof (ticketOf exPaid) 0"
proof -
  have g: "solveGuard exCfg ''s'' exProof (ticketOf exPaid) 0 = None"
    by (simp add: solveGuard_def ticketOf_def exPass_def exProof_def realEventOK_def)
  have f: "passFresh 0 (passBucket 0)" by (simp add: passFresh_def passBucket_def unixOf_def passWindow_def)
  have off: "ppOffsets exProof = SolutionOffsets toyPrims exPowKey ''s'' 0 1 0" by (simp add: exProof_def)
  have "passVerify toyPrims exPowKey ''s'' 0 (passBucket 0) 1 0 (ppOffsets exProof)"
    unfolding off by (rule solution_accepted [OF f])
  then show ?thesis using g by (simp add: cleared_def exCfg_def exReq_def ticketOf_def exPass_def)
qed

lemma exPass_reserve: "snd (reserveTrace (paPass (fst (applyPassVelocity exCfg (exApp [exPaid] [0]) exReq 0))) dg 0)"
  by (simp add: exApp_velocity) (simp add: reserveTrace_def sweepTraces_def exApp_def newPassStore_def maxTraces_def Let_def)

abbreviation exFly :: "in_flight list" where
  "exFly \<equiv> [FlyPoW exReq (0, ''1'', ''6e'') (''6e'', 14, False), FlySolve exReq exProof (ticketOf exPaid)]"

lemma exPass_run:
  "passRun exCfg (newPassApp 60, []) exPassEvents =
     (fst (solveFinish exCfg (exApp [exPaid] [0]) exReq exProof (ticketOf exPaid) 0), exFly)"
  by (simp add: passRun_def passStep_def exPassEvents_def exApp_new exPass_new exPass_read exPass_pow exPass_begin)

lemma exPass_solved: "passOf (passRun exCfg (newPassApp 60, []) exPassEvents) ''s'' = Some (exPaid\<lparr>psSolved := True\<rparr>)"
proof -
  have "map_of (pmSessions (paPass (fst (applyPassVelocity exCfg (exApp [exPaid] [0]) exReq 0)))) (rqSid exReq) = Some exPaid"
    by (simp add: exApp_velocity) (simp add: exApp_def exReq_def)
  from finish_marks [OF exPass_cleared exPass_reserve this]
  show ?thesis unfolding passOf_def exPass_run by (simp add: exReq_def)
qed

theorem pass_is_earned_witness:
  "\<exists>pr b inst d w att. issued exCfg 60 exPassEvents ''s'' (ppChallengeNonce pr) b inst d w att
     \<and> workPaid exCfg 60 exPassEvents ''s'' (ppChallengeNonce pr) \<and> fst (realEventOK pr)"
  using pass_is_earned [OF exPass_solved] by fastforce

section \<open>A trace clears one challenge\<close>

definition remembered :: "string \<Rightarrow> int \<Rightarrow> pass_store \<Rightarrow> bool" where
  "remembered dg t0 p \<longleftrightarrow> (dg, t0) \<in> set (pmTraces p)"

lemma get_traces [simp]: "pmTraces (fst (passGet p sid now)) = pmTraces p"
  by (auto simp: passGet_def Let_def split: option.split)

lemma set_traces [simp]: "pmTraces (passSet p sid f) = pmTraces p"
  by (simp add: passSet_def split: option.split)

lemma record_traces [simp]: "pmTraces (passRecord p label d passed) = pmTraces p"
  by (simp add: passRecord_def Let_def)

lemma velocity_traces [simp]: "pmTraces (paPass (fst (applyPassVelocity C a r now))) = pmTraces (paPass a)"
  by (simp add: applyPassVelocity_def split_beta Let_def)

lemma reserve_remembers: "remembered dg t0 p \<Longrightarrow> now - t0 \<le> traceTTL \<Longrightarrow> remembered dg t0 (fst (reserveTrace p dg' now))"
  by (auto simp: remembered_def reserveTrace_def sweepTraces_def Let_def)

lemma reserve_refuses:
  assumes "remembered dg t0 p" "now - t0 \<le> traceTTL"
  shows "\<not> snd (reserveTrace p dg now)"
proof -
  have "(dg, t0) \<in> set (pmTraces (sweepTraces p now))" using assms by (simp add: remembered_def sweepTraces_def)
  then have "dg \<in> fst ` set (pmTraces (sweepTraces p now))" by force
  then show ?thesis by (simp add: reserveTrace_def Let_def)
qed

lemma reserve_registers: "snd (reserveTrace p dg now) \<Longrightarrow> remembered dg now (fst (reserveTrace p dg now))"
  by (auto simp: remembered_def reserveTrace_def Let_def split: if_splits)

text \<open>The traces after the second part of a solve: those before it, or those after the reservation.\<close>

lemma finish_traces:
  "pmTraces (paPass (fst (solveFinish C a r pr tk now))) \<in>
     {pmTraces (paPass a),
      pmTraces (fst (reserveTrace (paPass (fst (applyPassVelocity C a r now))) (traceDigest (pkPrims C) pr) now))}"
  unfolding solveFinish_def Let_def by (auto simp: split_beta split: option.split)

definition isCleared :: "pass_reply \<Rightarrow> bool" where
  "isCleared reply \<longleftrightarrow> (case reply of PassCleared _ _ _ \<Rightarrow> True | _ \<Rightarrow> False)"

lemma finish_cleared:
  assumes "isCleared (fst (snd (solveFinish C a r pr tk now)))"
  shows "snd (reserveTrace (paPass (fst (applyPassVelocity C a r now))) (traceDigest (pkPrims C) pr) now)"
    and "pmTraces (paPass (fst (solveFinish C a r pr tk now))) =
      pmTraces (fst (reserveTrace (paPass (fst (applyPassVelocity C a r now))) (traceDigest (pkPrims C) pr) now))"
  using assms unfolding solveFinish_def Let_def
  by (auto simp: split_beta isCleared_def split: option.splits if_splits)

lemma finish_replies:
  assumes "cleared C (rqSid r) pr tk now"
    and "snd (reserveTrace (paPass (fst (applyPassVelocity C a r now))) (traceDigest (pkPrims C) pr) now)"
  shows "isCleared (fst (snd (solveFinish C a r pr tk now)))"
proof -
  have "passFresh (tkBucket tk) (passBucket now)" using assms(1) by (auto simp: cleared_def passVerify_def split: if_splits)
  then show ?thesis
    using assms unfolding solveFinish_def cleared_def Let_def by (simp add: split_beta isCleared_def)
qed

lemma begin_traces [simp]: "pmTraces (paPass (fst (solveBegin C a m r body now))) = pmTraces (paPass a)"
  by (auto simp: solveBegin_def split_beta Let_def split: option.split)

lemma read_traces [simp]: "pmTraces (paPass (fst (powRead a m r body now))) = pmTraces (paPass a)"
  by (auto simp: powRead_def split_beta Let_def split: option.split)

lemma powFinish_traces [simp]: "pmTraces (paPass (fst (powFinish C a r b shot now))) = pmTraces (paPass a)"
  by (auto simp: powFinish_def split_beta Let_def)

text \<open>What one event does to the table: the handlers one by one, or the second part of a request in flight.\<close>

lemma step_table:
  assumes "P (paPass a)"
    and "\<And>sid. P (paPass (handlePassPage a sid now))"
    and "\<And>r rnd. P (paPass (fst (handlePassNew C a r rnd now)))"
    and "\<And>m r body. P (paPass (fst (handlePassAttest C a m r body now)))"
    and "\<And>m r body. P (paPass (fst (powRead a m r body now)))"
    and "\<And>r b shot. P (paPass (fst (powFinish C a r b shot now)))"
    and "\<And>m r body. P (paPass (fst (solveBegin C a m r body now)))"
    and "\<And>r pr tk. P (paPass (fst (solveFinish C a r pr tk now)))"
  shows "P (paPass (fst (passStep C (a, fl) (e, now))))"
proof (cases e)
  case (EvPoW m r body)
  then show ?thesis using assms(5) [of m r body] by (auto simp: passStep_def split: prod.splits sum.splits)
next
  case (EvSolve m r body)
  then show ?thesis using assms(7) [of m r body] by (auto simp: passStep_def split: prod.splits sum.splits)
qed (use assms in \<open>auto simp: passStep_def split: in_flight.split\<close>)

lemma step_remembers:
  assumes "remembered dg t0 (paPass a)" "now - t0 \<le> traceTTL"
  shows "remembered dg t0 (paPass (fst (passStep C (a, fl) (e, now))))"
proof (rule step_table)
  fix r pr tk
  have "remembered dg t0 (paPass (fst (applyPassVelocity C a r now)))" using assms(1) by (simp add: remembered_def)
  from reserve_remembers [OF this assms(2)]
  show "remembered dg t0 (paPass (fst (solveFinish C a r pr tk now)))"
    using assms(1) finish_traces [of C a r pr tk now] by (auto simp: remembered_def)
qed (use assms(1) in \<open>auto simp: remembered_def handlePassPage_def handlePassNew_def handlePassAttest_def
     Let_def split_beta split: option.split\<close>)

lemma run_remembers:
  assumes "remembered dg t0 (paPass (fst st))" "\<forall>(e, t) \<in> set evs. t - t0 \<le> traceTTL"
  shows "remembered dg t0 (paPass (fst (passRun C st evs)))"
  using assms
proof (induction evs arbitrary: st)
  case (Cons x evs)
  obtain e t a fl where x: "x = (e, t)" "st = (a, fl)" by (cases x, cases st)
  have "remembered dg t0 (paPass (fst (passStep C st x)))" unfolding x using Cons.prems x by (intro step_remembers) auto
  then show ?case using Cons by (simp add: passRun_def)
qed (simp add: passRun_def)

text \<open>
  A captured interaction clears one challenge.  After a solve that cleared, no solve of any session
  with the same motor trace clears within the next ten minutes, whatever requests start or end in between.
\<close>

theorem trace_clears_once:
  assumes "isCleared (fst (snd (solveFinish C a r pr tk t0)))"
    and "\<forall>(e, t) \<in> set evs. t - t0 \<le> traceTTL" and "t - t0 \<le> traceTTL"
    and "traceDigest (pkPrims C) pr' = traceDigest (pkPrims C) pr"
  shows "\<not> isCleared (fst (snd (solveFinish C (fst (passRun C (fst (solveFinish C a r pr tk t0), fl) evs)) r' pr' tk' t)))"
proof -
  define a1 where "a1 = fst (passRun C (fst (solveFinish C a r pr tk t0), fl) evs)"
  let ?dg = "traceDigest (pkPrims C) pr"
  have "remembered ?dg t0 (paPass (fst (solveFinish C a r pr tk t0)))"
    using finish_cleared [OF assms(1)] reserve_registers by (fastforce simp: remembered_def)
  then have "remembered ?dg t0 (paPass a1)" unfolding a1_def using assms(2) by (intro run_remembers) simp_all
  then have "remembered ?dg t0 (paPass (fst (applyPassVelocity C a1 r' t)))" by (simp add: remembered_def)
  then have "\<not> snd (reserveTrace (paPass (fst (applyPassVelocity C a1 r' t))) (traceDigest (pkPrims C) pr') t)"
    using reserve_refuses assms(3,4) by simp
  then show ?thesis unfolding a1_def [symmetric] using finish_cleared(1) by blast
qed

definition exLater :: "(pass_event \<times> int) list" where
  "exLater = [(EvNew exReq (Some ''m''), 5), (EvAttest ''POST'' exReq None, 6)]"

theorem trace_clears_once_witness:
  "\<not> isCleared (fst (snd (solveFinish exCfg
       (fst (passRun exCfg (fst (solveFinish exCfg (exApp [exPaid] [0]) exReq exProof (ticketOf exPaid) 0), exFly) exLater))
       exReq (exProof\<lparr>ppChallengeNonce := ''6d''\<rparr>) (ticketOf exPaid) 7)))"
  by (rule trace_clears_once [OF finish_replies [OF exPass_cleared exPass_reserve]])
    (simp_all add: exLater_def traceTTL_def traceDigest_def)

section \<open>Bounds\<close>

definition boundedPass :: "pass_store \<Rightarrow> bool" where
  "boundedPass p \<longleftrightarrow> length (pmSessions p) \<le> maxPassSessions \<and> length (pmTraces p) \<le> maxTraces"

lemma bounded_get: "boundedPass p \<Longrightarrow> boundedPass (fst (passGet p sid now))"
  by (auto simp: boundedPass_def passGet_def Let_def length_alist_update split: option.split)

lemma bounded_set: "boundedPass p \<Longrightarrow> boundedPass (passSet p sid f)"
  by (auto simp: boundedPass_def passSet_def length_alist_update split: option.split) (metis dom_map_of_conv_image_fst domI)

lemma length_sweep: "length (pmTraces (sweepTraces p now)) \<le> length (pmTraces p)"
  by (simp add: sweepTraces_def)

lemma bounded_reserve: "boundedPass p \<Longrightarrow> boundedPass (fst (reserveTrace p dg now))"
  using length_sweep [of p now] by (simp add: boundedPass_def reserveTrace_def Let_def) (simp add: sweepTraces_def)

lemma bounded_record [simp]: "boundedPass (passRecord p label d passed) = boundedPass p"
  by (simp add: boundedPass_def)

lemma bounded_velocity: "boundedPass (paPass a) \<Longrightarrow> boundedPass (paPass (fst (applyPassVelocity C a r now)))"
  by (simp add: applyPassVelocity_def split_beta Let_def bounded_get bounded_set)

lemma bounded_finish: "boundedPass (paPass a) \<Longrightarrow> boundedPass (paPass (fst (solveFinish C a r pr tk now)))"
  unfolding solveFinish_def Let_def
  by (auto simp: split_beta bounded_velocity bounded_reserve bounded_set split: option.split)

lemma bounded_begin: "boundedPass (paPass a) \<Longrightarrow> boundedPass (paPass (fst (solveBegin C a m r body now)))"
  by (auto simp: solveBegin_def split_beta Let_def bounded_get bounded_set split: option.split)

lemma bounded_read: "boundedPass (paPass a) \<Longrightarrow> boundedPass (paPass (fst (powRead a m r body now)))"
  by (auto simp: powRead_def split_beta Let_def bounded_get split: option.split)

lemma bounded_powFinish: "boundedPass (paPass a) \<Longrightarrow> boundedPass (paPass (fst (powFinish C a r b shot now)))"
  by (auto simp: powFinish_def split_beta Let_def bounded_set)

lemma bounded_step:
  assumes "boundedPass (paPass a)"
  shows "boundedPass (paPass (fst (passStep C (a, fl) (e, now))))"
proof (rule step_table [where P = boundedPass])
  show "boundedPass (paPass (fst (handlePassNew C a r rnd now)))" for r rnd
    using assms by (auto simp: handlePassNew_def bounded_get bounded_set bounded_velocity Let_def split_beta split: option.split)
  show "boundedPass (paPass (fst (handlePassAttest C a m r body now)))" for m r body
    using assms by (auto simp: handlePassAttest_def bounded_get Let_def split_beta split: option.split)
qed (use assms in \<open>simp_all add: handlePassPage_def bounded_get bounded_finish bounded_begin bounded_read bounded_powFinish\<close>)

text \<open>
  The tables of the challenge stay within their caps.  Whatever requests arrive, from however many sessions, there are
  at most 50000 entries and at most \<open>2 ^ 19\<close> remembered traces.
\<close>

theorem pass_bounded:
  "length (pmSessions (paPass (fst (passRun C (newPassApp ttl, []) evs)))) \<le> 50000
   \<and> length (pmTraces (paPass (fst (passRun C (newPassApp ttl, []) evs)))) \<le> 2 ^ 19"
proof -
  have "boundedPass (paPass (fst (passRun C (newPassApp ttl, []) evs)))"
  proof (induction evs rule: rev_induct)
    case (snoc x evs)
    then show ?case
      using bounded_step by (cases x, cases "passRun C (newPassApp ttl, []) evs") (auto simp: passRun_def)
  qed (simp add: passRun_def newPassApp_def newPassStore_def boundedPass_def)
  then show ?thesis by (simp add: boundedPass_def maxPassSessions_def maxTraces_def)
qed

section \<open>What the code leaves open\<close>

lemma nonneg_sdiv: "0 \<le> a \<Longrightarrow> 0 < b \<Longrightarrow> a sdiv b = a div b" for a b :: int
  by (cases "a = 0") (simp_all add: signed_divide_int_def)

text \<open>
  \<open>handlePassPoW\<close> marks the entry only if it still has the nonce it verified, but the second part of a solve does not:
  a solve that started on one instance marks whatever instance is current when it ends, also one whose proof of
  work was never paid.
\<close>

theorem solve_marks_any_instance:
  assumes "cleared C (rqSid r) pr tk now"
    and "snd (reserveTrace (paPass (fst (applyPassVelocity C a r now))) (traceDigest (pkPrims C) pr) now)"
    and "map_of (pmSessions (paPass (fst (applyPassVelocity C a r now)))) (rqSid r) = Some ps"
    and "psNonce ps \<noteq> tkNonce tk" "\<not> psPowOK ps"
  shows "\<exists>ps'. map_of (pmSessions (paPass (fst (solveFinish C a r pr tk now)))) (rqSid r) = Some ps'
           \<and> psSolved ps' \<and> \<not> psPowOK ps' \<and> psNonce ps' = psNonce ps"
  using finish_marks [OF assms(1-3)] assms(5) by simp

text \<open>
  The sweep of stale entries runs when the table has more than 50000 entries, and an entry is only added to a table
  with fewer.  So it never runs, and once the table is full it stays as it is: no other session ever gets an
  entry, at any later time, and a challenge issued to one is forgotten at once.
\<close>

definition tableOf :: "string list \<Rightarrow> pass_store \<Rightarrow> bool" where
  "tableOf ks p \<longleftrightarrow> map fst (pmSessions p) = ks"

lemma keys_update: "map_of xs k = Some y \<Longrightarrow> map fst (AList.update k v xs) = map fst xs"
  by (induction xs) (auto split: if_splits)

lemma full_get: "tableOf ks p \<Longrightarrow> length ks = maxPassSessions \<Longrightarrow> tableOf ks (fst (passGet p sid now))"
  by (auto simp: tableOf_def passGet_def Let_def split: option.split)

lemma full_set: "tableOf ks p \<Longrightarrow> tableOf ks (passSet p sid f)"
  by (auto simp: tableOf_def passSet_def keys_update split: option.split)

lemma full_same [simp]:
  "tableOf ks (fst (reserveTrace p dg now)) = tableOf ks p" "tableOf ks (passRecord p label d passed) = tableOf ks p"
  by (simp_all add: tableOf_def)

lemma full_velocity:
  "tableOf ks (paPass a) \<Longrightarrow> length ks = maxPassSessions \<Longrightarrow> tableOf ks (paPass (fst (applyPassVelocity C a r now)))"
  by (simp add: applyPassVelocity_def split_beta Let_def full_get full_set)

lemma full_step:
  assumes "tableOf ks (paPass a)" "length ks = maxPassSessions"
  shows "tableOf ks (paPass (fst (passStep C (a, fl) (e, now))))"
proof (rule step_table [where P = "tableOf ks"])
  show "tableOf ks (paPass (fst (handlePassNew C a r rnd now)))" for r rnd
    using assms by (auto simp: handlePassNew_def full_get full_set full_velocity Let_def split_beta split: option.split)
  show "tableOf ks (paPass (fst (handlePassAttest C a m r body now)))" for m r body
    using assms by (auto simp: handlePassAttest_def full_get Let_def split_beta split: option.split)
  show "tableOf ks (paPass (fst (powRead a m r body now)))" for m r body
    using assms by (auto simp: powRead_def full_get Let_def split_beta split: option.split)
  show "tableOf ks (paPass (fst (powFinish C a r b shot now)))" for r b shot
    using assms by (auto simp: powFinish_def full_set Let_def split_beta)
  show "tableOf ks (paPass (fst (solveBegin C a m r body now)))" for m r body
    using assms by (auto simp: solveBegin_def full_get full_set Let_def split_beta split: option.split)
  show "tableOf ks (paPass (fst (solveFinish C a r pr tk now)))" for r pr tk
    using assms unfolding solveFinish_def Let_def by (auto simp: split_beta full_velocity full_set split: option.split)
qed (use assms in \<open>simp_all add: handlePassPage_def\<close>)

theorem full_table_closed:
  assumes "length (pmSessions (paPass (fst st))) = maxPassSessions" "passOf st sid = None"
  shows "passOf (passRun C st evs) sid = None"
proof -
  define ks where "ks = map fst (pmSessions (paPass (fst st)))"
  have ks: "length ks = maxPassSessions" using assms(1) by (simp add: ks_def)
  have "tableOf ks (paPass (fst (passRun C st evs)))"
  proof (induction evs rule: rev_induct)
    case (snoc x evs)
    then show ?case
      using full_step [OF _ ks] by (cases x, cases "passRun C st evs") (auto simp: passRun_def)
  qed (simp add: passRun_def tableOf_def ks_def)
  then show ?thesis using assms(2) by (simp add: tableOf_def ks_def passOf_def map_of_eq_None_iff flip: set_map)
qed

text \<open>
  A new challenge says that it expires in \<open>60\<close> seconds (two buckets); it is accepted for ten minutes.
\<close>

theorem pass_outlives_notice:
  assumes "0 \<le> now" "now < 2 ^ 62"
  shows "passFresh (passBucket now) (passBucket (now + 600 * 1000000000))"
proof -
  define q where "q = unixOf now div 30"
  have q: "0 \<le> q" "q + 20 < 2 ^ 64" using assms by (auto simp: q_def unixOf_def)
  have u: "unixOf (now + 600 * 1000000000) = unixOf now + 20 * 30" by (simp add: unixOf_def)
  have s1: "unixOf now sdiv 30 = q" unfolding q_def by (rule nonneg_sdiv) (use assms(1) in \<open>simp_all add: unixOf_def\<close>)
  have "(unixOf now + 20 * 30) sdiv 30 = (unixOf now + 20 * 30) div 30"
    by (rule nonneg_sdiv) (use assms(1) in \<open>simp_all add: unixOf_def\<close>)
  also have "\<dots> = q + 20" unfolding q_def by (rule div_plus_div_distrib_dvd_right [THEN trans]) simp_all
  finally have b: "passBucket now = word_of_int q" "passBucket (now + 600 * 1000000000) = word_of_int (q + 20)"
    using s1 unfolding passBucket_def passWindow_def u by simp_all
  have le: "(word_of_int q :: 64 word) \<le> word_of_int (q + 20)"
    unfolding word_le_def uint_word_of_int using q by (subst (1 2) mod_pos_pos_trivial) simp_all
  have "(word_of_int (q + 20) :: 64 word) - word_of_int q = 20" by simp
  then show ?thesis using le unfolding b passFresh_def MaxBucketAge_def by simp
qed

end
