(* ===== verification/Spec2Isabelle.thy ===== *)
theory Spec2Isabelle
  imports AuditProps Vault NodeIdentity Approval AdminProps ScoringProps ControlLimits PassProps
begin

text \<open>
  A verification library for the humanymous gate, a reverse proxy that tells browsers from bots and keeps a
  tamper-evident record of every decision.

  \<^bold>\<open>The program and its parts.\<close>  A request enters at the edge (\<open>internal/gate/gate.go\<close>, \<open>gates.go\<close>): framing and
  header checks, bans and rate limits, credentials (Web Bot Auth, Privacy Pass, WebAuthn), the verdict token, the
  sweep detector, and last the verdict of the session, which forwards, challenges or blocks.  A decision of these
  gates is sealed in the audit chain (\<open>internal/audit\<close>) before it is acted on.  The verdict comes from the control plane
  (\<open>control.go\<close>, \<open>control\_collect.go\<close>): a client report and the observation of the network are merged per session
  (\<open>internal/collector\<close>, \<open>internal/network\<close>) and scored (\<open>internal/scoring\<close> over the registry of
  \<open>internal/signals\<close>).  Operators act through the admin plane (\<open>admin.go\<close>, \<open>admin\_settings.go\<close>) under dual control
  (\<open>approval.go\<close>), on settings (\<open>internal/gate/settings\<close>) kept in a file store.  A fleet shares bans, verdicts and
  counts through Redis (\<open>internal/redis\<close>, \<open>redisledger.go\<close>, \<open>redisratelimit.go\<close>).  The reference server (\<open>cmd/server\<close>)
  answers a challenged session with a proof of work or with the interactive Pass challenge.

  \<^bold>\<open>Theories and code.\<close>  Every theory opens with the files it models; a definition keeps the name of the Go
  function or type, with a suffix where HOL has the name already.
  \<^item> \<open>Prelude\<close>, \<open>GoLib\<close>, \<open>Base64\<close>: shared lemmas, the fragments of Go's standard library the code calls (hex,
    decimal, big-endian lengths, strings, base64), and the record \<open>prims\<close> of cryptographic primitives.
  \<^item> \<open>MerkleTree\<close>, \<open>Merkle\<close>, \<open>MerkleSound\<close> (\<open>audit/merkle.go\<close>): roots, inclusion and consistency proofs; soundness
    of both verifiers relative to a hash collision among the inputs hashed.
  \<^item> \<open>AuditRecord\<close>, \<open>Wal\<close>, \<open>Witness\<close>, \<open>AuditLog\<close>, \<open>AuditVerify\<close>, \<open>AuditRun\<close>, \<open>AuditProps\<close> (\<open>audit/record.go\<close>,
    \<open>canonical.go\<close>, \<open>sink\_wal.go\<close>, \<open>witness.go\<close>, \<open>chain.go\<close>, \<open>proofs.go\<close>, \<open>sink.go\<close>, \<open>verifier.go\<close>): the canonical
    form, crash recovery of the write-ahead log, the log as a state machine over appends, checkpoints and restarts,
    and the verifier that accepts every log it reaches.
  \<^item> \<open>Vault\<close>, \<open>NodeIdentity\<close> (\<open>audit/pseudonym.go\<close>, \<open>gate/erasure.go\<close>, \<open>audit/keystore.go\<close>, \<open>id.go\<close>,
    \<open>noderegistry.go\<close>, \<open>retention.go\<close>): pseudonyms, crypto-shredding, keys, event ids and silent nodes.
  \<^item> \<open>Redis\<close>, \<open>RateLimit\<close>, \<open>Ban\<close>, \<open>RedisLedger\<close> (\<open>redis/client.go\<close>, \<open>abuse/ratelimit.go\<close>, \<open>redisratelimit.go\<close>,
    \<open>ban.go\<close>, \<open>redisledger.go\<close>, \<open>enforce.go\<close>): the wire protocol with its circuit breaker, sliding windows refined to a
    count of recent hits, bans with their ladder, the shared ledgers with their degraded mode.
  \<^item> \<open>Token\<close>, \<open>Approval\<close>, \<open>Settings\<close>, \<open>EdgeGuard\<close>, \<open>Credentials\<close>, \<open>Anomaly\<close> (\<open>token.go\<close>, \<open>epoch.go\<close>,
    \<open>approval.go\<close>, \<open>settings/*\<close>, \<open>request.go\<close>, \<open>guard.go\<close>, \<open>config.go\<close>, \<open>webbotauth.go\<close>, \<open>privacypass.go\<close>,
    \<open>webauthn.go\<close>, \<open>recon.go\<close>, \<open>anomaly\<close>, \<open>correlation\<close>): the parts the gates are made of.
  \<^item> \<open>Gate\<close>, \<open>GateFrame\<close>, \<open>GateProps\<close> (\<open>gate.go\<close>, \<open>gates.go\<close>): the request path as a sequence of gates, each a
    function from the server to the server, its effects and whether it handled the request.
  \<^item> \<open>FileStore\<close>, \<open>AdminSettings\<close>, \<open>Admin\<close>, \<open>AdminProps\<close> (\<open>settings/store\_file.go\<close>, \<open>admin\_settings.go\<close>,
    \<open>admin.go\<close>): the operator's handlers and what a run of them can change.
  \<^item> \<open>Signals\<close>, \<open>Scoring\<close>, \<open>ScoringProps\<close> (\<open>signals/*\<close>, \<open>scoring/*\<close>, \<open>settings\_engine.go\<close>): the registry of all signals,
    the cross-checks, the rule table and the combination, with a closed form of the risk.
  \<^item> \<open>ClientHello\<close>, \<open>NetReport\<close>, \<open>NetProps\<close> (\<open>network/*\<close>): the ClientHello parser and the TLS, HTTP/2, header and TCP
    fingerprints assembled into a report.
  \<^item> \<open>Collector\<close>, \<open>Control\<close>, \<open>ControlProps\<close>, \<open>ControlLimits\<close> (\<open>collector/*\<close>, \<open>control.go\<close>, \<open>control\_collect.go\<close>,
    \<open>cohort\_shadow.go\<close>): sessions, the scoring beacon and how its verdict reaches the edge.
  \<^item> \<open>Challenge\<close>, \<open>ServerProofs\<close>, \<open>Pass\<close>, \<open>PassProps\<close> (\<open>internal/integrity\<close>, \<open>pow\<close>, \<open>attestation\<close>, \<open>pass\<close>,
    \<open>cmd/server/rit.go\<close>, \<open>powhandler.go\<close>, \<open>pass\_store.go\<close>, \<open>pass\_proof.go\<close>, \<open>pass\_scoring.go\<close>, \<open>pass\_handler.go\<close>):
    request-integrity tokens, proofs of work and the Pass challenge of the reference server.

  \<^bold>\<open>Modelling.\<close>  A struct is a record, a map an association list where its order or size matters and a function
  otherwise, an error a value of a sum or option type.  A method that holds a mutex is one function of the state; a
  run is a list of calls or an inductive step relation.  Where a handler releases the lock between reading and writing
  (the scoring of a session, the two proofs of a Pass challenge) it is two steps, and the copy it holds in between is part
  of the state of the run.  Widths are kept where they matter (\<open>uint16\<close>, \<open>uint32\<close> and
  \<open>uint64\<close> are words); instants are nanoseconds as integers; a \<open>float64\<close> is a rational, so rounding in the last place
  is not modelled, except in the deadline of a node, where it is.  A gate reads the clock once where the code may
  read it several times, and the cap on the body is the check of its declared length, not the reader that cuts a longer
  one.  Every function is total: loops are structural or have a measure, and the only bounds are those of
  the code.

  \<^bold>\<open>Arguments.\<close>  Hash functions, HMAC, Ed25519, key derivation and ciphers; \<open>encoding/json\<close>; Unicode
  normalisation; random bytes; the readings of the clock (those of different gates are not assumed equal); the
  replies of Redis; the outcome of each file operation (the environment may cut a write or fail a sync); the order in
  which Go ranges over a map; the behavioural model.  What a theorem needs of them is a named hypothesis, such as
  \<open>goMapOrder\<close> (a range visits each key once), and soundness of hashing is stated as the absence of a collision among
  the inputs the theorem names.

  \<^bold>\<open>What is proved.\<close>  Audit: every log that appends, checkpoints and restarts produce passes its own verification;
  accepted proofs bind the history absent a collision; a crash loses no acknowledged record; an action is recorded
  before it happens; a shredded subject stays shredded.  Fleet: the nodes reported as silent are exactly those past
  their deadline.  Edge: a forwarded request on an enforcing route is justified by a credential, a token or a
  passing verdict; each request has one action, which follows a record that stands for it (control paths and
  requests refused for their declared length have no record, and a monitored record stands for forwarding); the kill switch
  and the settings disarm what they say and no more.  Operators: in any run of admin requests a permanent, long or wide ban, the kill
  switch, an erasure and an overlay of class B or above took two people.  This is a statement about the classes the
  code assigns, and not every weakening has class B: an overlay that one person may apply keeps the DENY rules in
  force while the correlation class is not in shadow mode, and \<open>weakening_class_A\<close>, \<open>net_class_demoted_alone\<close> and
  \<open>rotation_deny_disarmed_alone\<close> show what one person can relax.  Shared state: exact sliding windows, bans that a node
  has lifted do not return to its checks while it remembers the lift, bounded scans.
  Scoring: the verdict is the closed form, the trace agrees with it, one layer cannot deny, residuals do not count.
  Control plane: clients cannot author server evidence, a session keeps its marks, and its network report unless a stale
  copy is written over it (\<open>write_back_loses_signals\<close>), a token is only issued for an earned ALLOW, and what the
  beacon decides the edge enforces.  Challenges: a session clears Pass only with the proofs of a challenge sent to it, a
  motor trace clears one challenge, and the proof-of-work upgrade is paid for.  Where the code does not do what it says, a
  theorem shows the counterexample and names the lines.

  \<^bold>\<open>Not modelled.\<close>  Process start-up, flags, TLS listeners and logging (\<open>cmd/*\<close>, \<open>internal/logger\<close>): wiring and
  input/output.  Response bodies (\<open>inject.go\<close>, the reverse proxy of \<open>net/http/httputil\<close>) and the PROXY protocol: streams
  of bytes of other libraries.  The asynchronous projections of the audit stream (Redis, ClickHouse): best effort, and
  no decision reads them.  The other endpoints of the reference server (\<open>cmd/server\<close>), media watermarks, resource
  gates and the traffic log: only the signals they would add to a session are seen here, as the argument of
  \<open>AppendNetworkSignals\<close>.  Training and serving of the behavioural model: floating-point code whose result is
  an argument of the scorer.  The red-team tools, the browser and WebAssembly collectors, reports and scripts are not part of
  the decision.
\<close>

end
